(* ===== verification/SDK_Prelude.thy ===== *)
theory SDK_Prelude
  imports Main "HOL-Library.AList" "HOL-Library.Sublist"
begin

text \<open>
  What the components of the SDK share.

  \<^item> JavaScript values that flow through the SDK untyped (\<open>unknown\<close>, \<open>Record<string, unknown>\<close>)
    as the datatype \<open>jsv\<close>, with \<open>String(x)\<close> and object spread.
  \<^item> The insertion-ordered \<open>Map\<close> of JavaScript as an association list: \<open>set\<close> keeps the position
    of a key that is present and appends a new one, which is \<open>AList.update\<close>; \<open>delete\<close> is
    \<open>AList.delete\<close>; \<open>get\<close> is \<open>map_of\<close>.
  \<^item> Strings: the SDK's strings are modelled as lists of 8-bit characters (Latin-1 code units).
    \<open>trim\<close>, \<open>toLowerCase\<close>, \<open>includes\<close> and the decimal rendering of a number are
    written out, the last with a parser that inverts it, so generated ids are injective.
  \<^item> The contracts several components share, as locales: a keyed store
    (get / put / remove), a state machine with an invariant, and exponential backoff. Their
    lemmas are proved here once and reach a component through an interpretation on its
    own definitions.
\<close>

named_theorems store_simps \<open>lookups in association lists that model a JavaScript Map\<close>

section \<open>Untyped values\<close>

text \<open>
  Numbers that flow through the modelled code untyped are integers; \<open>JErr\<close> is an instance
  of \<open>Error\<close> with its name, its message and its own enumerable properties.
\<close>

datatype jsv =
    JUndef
  | JNull
  | JBool bool
  | JNum int
  | JBig int
  | JStr string
  | JArr "jsv list"
  | JObj "(string \<times> jsv) list"
  | JErr string string "(string \<times> jsv) list"

type_synonym props = "(string \<times> jsv) list"

section \<open>Insertion-ordered maps\<close>

type_synonym ('k, 'v) jsmap = "('k \<times> 'v) list"

abbreviation jm_set :: "'k \<Rightarrow> 'v \<Rightarrow> ('k, 'v) jsmap \<Rightarrow> ('k, 'v) jsmap" where
  "jm_set \<equiv> AList.update"

abbreviation jm_delete :: "'k \<Rightarrow> ('k, 'v) jsmap \<Rightarrow> ('k, 'v) jsmap" where
  "jm_delete \<equiv> AList.delete"

abbreviation jm_get :: "('k, 'v) jsmap \<Rightarrow> 'k \<Rightarrow> 'v option" where
  "jm_get \<equiv> map_of"

definition jm_has :: "('k, 'v) jsmap \<Rightarrow> 'k \<Rightarrow> bool" where
  "jm_has m k \<longleftrightarrow> (case jm_get m k of None \<Rightarrow> False | Some _ \<Rightarrow> True)"

definition jm_values :: "('k, 'v) jsmap \<Rightarrow> 'v list" where
  "jm_values m = map snd m"

definition jm_keys :: "('k, 'v) jsmap \<Rightarrow> 'k list" where
  "jm_keys m = map fst m"

definition jm_ok :: "('k, 'v) jsmap \<Rightarrow> bool" where
  "jm_ok m \<longleftrightarrow> distinct (map fst m)"

lemma jm_has_iff: "jm_has m k \<longleftrightarrow> k \<in> fst ` set m"
  by (simp add: jm_has_def split: option.split) (metis map_of_eq_None_iff option.distinct(1))

lemma jm_has_get: "jm_has m k \<longleftrightarrow> jm_get m k \<noteq> None"
  by (simp add: jm_has_def split: option.split)

lemma jm_get_set [simp, store_simps]:
  "jm_get (jm_set k v m) k' = (if k' = k then Some v else jm_get m k')"
  by (simp add: update_conv')

lemma jm_get_delete [simp, store_simps]:
  "jm_get (jm_delete k m) k' = (if k' = k then None else jm_get m k')"
  by (simp add: delete_conv')

lemma jm_has_set [simp, store_simps]: "jm_has (jm_set k v m) k' \<longleftrightarrow> k' = k \<or> jm_has m k'"
  by (simp add: jm_has_get)

lemma jm_has_delete [simp, store_simps]: "jm_has (jm_delete k m) k' \<longleftrightarrow> k' \<noteq> k \<and> jm_has m k'"
  by (simp add: jm_has_get)

lemma jm_has_Nil [simp]: "\<not> jm_has [] k"
  by (simp add: jm_has_def)

lemma jm_ok_Nil [simp]: "jm_ok []"
  by (simp add: jm_ok_def)

lemma jm_ok_set [simp, intro]: "jm_ok m \<Longrightarrow> jm_ok (jm_set k v m)"
  by (simp add: jm_ok_def distinct_update)

lemma jm_ok_delete [simp, intro]: "jm_ok m \<Longrightarrow> jm_ok (jm_delete k m)"
  by (simp add: jm_ok_def distinct_delete)

lemma jm_set_new: "\<not> jm_has m k \<Longrightarrow> jm_set k v m = m @ [(k, v)]"
  by (induction m) (auto simp: jm_has_iff)

lemma jm_set_keys: "map fst (jm_set k v m) = (if jm_has m k then map fst m else map fst m @ [k])"
  by (simp add: update_keys jm_has_iff)

lemma jm_set_length: "length (jm_set k v m) = (if jm_has m k then length m else Suc (length m))"
  by (metis jm_set_keys length_map length_append_singleton)

lemma jm_delete_absent: "\<not> jm_has m k \<Longrightarrow> jm_delete k m = m"
  by (simp add: jm_has_iff delete_id)

lemma jm_delete_length: "jm_ok m \<Longrightarrow> jm_has m k \<Longrightarrow> Suc (length (jm_delete k m)) = length m"
proof (induction m)
  case Nil
  then show ?case by simp
next
  case (Cons p m)
  then show ?case
    by (cases "fst p = k") (auto simp: jm_ok_def jm_has_iff)
qed

lemma jm_set_mem: "jm_ok m \<Longrightarrow> (a, b) \<in> set (jm_set k v m) \<longleftrightarrow>
    (a = k \<and> b = v) \<or> (a \<noteq> k \<and> (a, b) \<in> set m)"
  by (metis jm_get_set jm_ok_def jm_ok_set map_of_eq_Some_iff option.inject)

lemma jm_delete_mem: "(a, b) \<in> set (jm_delete k m) \<longleftrightarrow> a \<noteq> k \<and> (a, b) \<in> set m"
  by (auto simp: AList.delete_eq)

lemma jm_get_mem: "jm_ok m \<Longrightarrow> jm_get m k = Some v \<longleftrightarrow> (k, v) \<in> set m"
  by (simp add: jm_ok_def)

lemma jm_get_memD: "jm_get m k = Some v \<Longrightarrow> (k, v) \<in> set m"
  by (rule map_of_SomeD)

text \<open>Properties that hold of every entry are kept by \<open>set\<close> and \<open>delete\<close>.\<close>

definition jm_all :: "('k \<Rightarrow> 'v \<Rightarrow> bool) \<Rightarrow> ('k, 'v) jsmap \<Rightarrow> bool" where
  "jm_all P m \<longleftrightarrow> list_all (\<lambda>(k, v). P k v) m"

lemma jm_all_Nil [simp]: "jm_all P []"
  by (simp add: jm_all_def)

lemma jm_all_set [intro]: "jm_all P m \<Longrightarrow> P k v \<Longrightarrow> jm_all P (jm_set k v m)"
  by (induction m) (auto simp: jm_all_def)

lemma jm_all_delete [intro]: "jm_all P m \<Longrightarrow> jm_all P (jm_delete k m)"
  by (auto simp: jm_all_def list_all_iff AList.delete_eq)

lemma jm_all_getD: "jm_all P m \<Longrightarrow> jm_get m k = Some v \<Longrightarrow> P k v"
  by (auto simp: jm_all_def list_all_iff dest: map_of_SomeD)

lemma jm_all_mono: "jm_all P m \<Longrightarrow> (\<And>k v. P k v \<Longrightarrow> Q k v) \<Longrightarrow> jm_all Q m"
  by (auto simp: jm_all_def list_all_iff)

text \<open>Object spread \<open>{ ...a, ...b }\<close>: the entries of \<open>b\<close> are set on a copy of \<open>a\<close>.\<close>

definition obj_spread :: "('k, 'v) jsmap \<Rightarrow> ('k, 'v) jsmap \<Rightarrow> ('k, 'v) jsmap" where
  "obj_spread a b = foldl (\<lambda>m (k, v). jm_set k v m) a b"

lemma obj_spread_Nil [simp]: "obj_spread a [] = a"
  by (simp add: obj_spread_def)

lemma obj_spread_Cons: "obj_spread a ((k, v) # b) = obj_spread (jm_set k v a) b"
  by (simp add: obj_spread_def)

lemma jm_get_spread:
  "jm_ok b \<Longrightarrow> jm_get (obj_spread a b) k = (case jm_get b k of None \<Rightarrow> jm_get a k | Some v \<Rightarrow> Some v)"
proof (induction b arbitrary: a)
  case Nil
  then show ?case by simp
next
  case (Cons p b)
  obtain k' v' where p: "p = (k', v')" by (cases p)
  have none: "jm_get b k' = None" using Cons.prems p by (simp add: jm_ok_def map_of_eq_None_iff)
  have IH: "jm_get (obj_spread a' b) k = (case jm_get b k of None \<Rightarrow> jm_get a' k | Some v \<Rightarrow> Some v)" for a'
    using Cons by (simp add: jm_ok_def)
  show ?case using none IH by (cases "k = k'") (auto simp: p obj_spread_Cons split: option.splits)
qed

lemma jm_ok_spread [intro]: "jm_ok a \<Longrightarrow> jm_ok (obj_spread a b)"
  by (induction b arbitrary: a) (auto simp: obj_spread_Cons)

section \<open>Strings and numbers\<close>

text \<open>Decimal rendering of a natural number and its inverse.\<close>

definition digit_char :: "nat \<Rightarrow> char" where
  "digit_char d = char_of (48 + d)"

fun nat_str :: "nat \<Rightarrow> string" where
  "nat_str n = (if n < 10 then [digit_char n] else nat_str (n div 10) @ [digit_char (n mod 10)])"

declare nat_str.simps [simp del]

definition str_nat :: "string \<Rightarrow> nat" where
  "str_nat s = foldl (\<lambda>a c. 10 * a + (of_char c - 48)) 0 s"

lemma str_nat_snoc: "str_nat (s @ [c]) = 10 * str_nat s + (of_char c - 48)"
  by (simp add: str_nat_def)

lemma of_char_digit: "d < 10 \<Longrightarrow> of_char (digit_char d) = 48 + d"
  by (simp add: digit_char_def)

lemma str_nat_nat_str [simp]: "str_nat (nat_str n) = n"
proof (induction n rule: nat_str.induct)
  case (1 n)
  show ?case
  proof (cases "n < 10")
    case True
    then show ?thesis
      using str_nat_snoc [of "[]" "digit_char n"] of_char_digit [of n]
      by (subst nat_str.simps) (simp add: str_nat_def)
  next
    case False
    then have "str_nat (nat_str n) = 10 * (n div 10) + n mod 10"
      using 1 of_char_digit [of "n mod 10"] by (subst nat_str.simps) (simp add: str_nat_snoc)
    then show ?thesis by simp
  qed
qed

lemma nat_str_inj [simp]: "nat_str a = nat_str b \<longleftrightarrow> a = b"
  by (metis str_nat_nat_str)

definition int_str :: "int \<Rightarrow> string" where
  "int_str i = (if i < 0 then CHR ''-'' # nat_str (nat (- i)) else nat_str (nat i))"

definition join_str :: "string \<Rightarrow> string list \<Rightarrow> string" where
  "join_str sep xs = (case xs of [] \<Rightarrow> [] | y # ys \<Rightarrow> y @ concat (map (\<lambda>z. sep @ z) ys))"

text \<open>
  \<open>String(x)\<close>. An element of an array that is \<open>undefined\<close> or \<open>null\<close> renders as the empty
  string, and an error as \<open>name: message\<close>, where an empty half is left out.
\<close>

fun js_String :: "jsv \<Rightarrow> string" where
  "js_String JUndef = ''undefined''"
| "js_String JNull = ''null''"
| "js_String (JBool b) = (if b then ''true'' else ''false'')"
| "js_String (JNum i) = int_str i"
| "js_String (JBig i) = int_str i"
| "js_String (JStr s) = s"
| "js_String (JArr xs) =
     join_str '','' (map (\<lambda>x. if x = JUndef \<or> x = JNull then [] else js_String x) xs)"
| "js_String (JObj _) = ''[object Object]''"
| "js_String (JErr n m _) = (if n = [] then m else if m = [] then n else n @ '': '' @ m)"

text \<open>JavaScript truthiness of an untyped value.\<close>

fun js_truthy :: "jsv \<Rightarrow> bool" where
  "js_truthy JUndef = False"
| "js_truthy JNull = False"
| "js_truthy (JBool b) = b"
| "js_truthy (JNum i) = (i \<noteq> 0)"
| "js_truthy (JBig i) = (i \<noteq> 0)"
| "js_truthy (JStr s) = (s \<noteq> [])"
| "js_truthy _ = True"

text \<open>A property of an options object: an absent one reads as \<open>undefined\<close>.\<close>

definition jprop :: "props \<Rightarrow> string \<Rightarrow> jsv" where
  "jprop ob k = (case jm_get ob k of None \<Rightarrow> JUndef | Some v \<Rightarrow> v)"

definition err_name :: "jsv \<Rightarrow> string" where
  "err_name v = (case v of JErr n _ _ \<Rightarrow> n | _ \<Rightarrow> ''Error'')"

definition err_message :: "jsv \<Rightarrow> string" where
  "err_message v = (case v of JErr _ m _ \<Rightarrow> m | _ \<Rightarrow> js_String v)"

text \<open>\<open>trim\<close>, \<open>toLowerCase\<close> and \<open>toUpperCase\<close> on Latin-1, \<open>includes\<close> and \<open>startsWith\<close>.\<close>

definition is_space :: "char \<Rightarrow> bool" where
  "is_space c \<longleftrightarrow> (let n = (of_char c :: nat) in n = 32 \<or> (9 \<le> n \<and> n \<le> 13) \<or> n = 160)"

definition is_digit :: "char \<Rightarrow> bool" where
  "is_digit c \<longleftrightarrow> (let n = (of_char c :: nat) in 48 \<le> n \<and> n \<le> 57)"

definition js_trim :: "string \<Rightarrow> string" where
  "js_trim s = rev (dropWhile is_space (rev (dropWhile is_space s)))"

definition lower_char :: "char \<Rightarrow> char" where
  "lower_char c = (let n = (of_char c :: nat) in
     if (65 \<le> n \<and> n \<le> 90) \<or> (192 \<le> n \<and> n \<le> 222 \<and> n \<noteq> 215) then char_of (n + 32) else c)"

definition js_lower :: "string \<Rightarrow> string" where
  "js_lower s = map lower_char s"

definition str_starts :: "string \<Rightarrow> string \<Rightarrow> bool" where
  "str_starts s p \<longleftrightarrow> take (length p) s = p"

fun str_includes :: "string \<Rightarrow> string \<Rightarrow> bool" where
  "str_includes [] p = (p = [])"
| "str_includes (c # s) p = (str_starts (c # s) p \<or> str_includes s p)"

lemma digit_char_digit: "d < 10 \<Longrightarrow> is_digit (digit_char d)"
  by (simp add: is_digit_def of_char_digit Let_def)

lemma nat_str_digits: "list_all is_digit (nat_str n)"
proof (induction n rule: nat_str.induct)
  case (1 n)
  then show ?case by (subst nat_str.simps) (simp add: digit_char_digit)
qed

lemma nat_str_nonempty: "0 < length (nat_str n)"
  by (subst nat_str.simps) simp

lemma str_includes_iff: "str_includes s p \<longleftrightarrow> (\<exists>a b. s = a @ p @ b)"
proof (induction s)
  case Nil
  show ?case by simp
next
  case (Cons c s)
  have "str_starts (c # s) p \<longleftrightarrow> (\<exists>b. c # s = p @ b)"
    unfolding str_starts_def by (metis append_eq_conv_conj append_take_drop_id)
  then show ?case using Cons by (auto simp: Cons_eq_append_conv)
qed

lemma js_trim_idem [simp]: "js_trim (js_trim s) = js_trim s"
proof -
  have dw: "dropWhile is_space (rev (dropWhile is_space (rev (dropWhile is_space t))))
      = rev (dropWhile is_space (rev (dropWhile is_space t)))" for t
  proof (cases "rev (dropWhile is_space (rev (dropWhile is_space t)))")
    case (Cons c cs)
    have "prefix (c # cs) (dropWhile is_space t)"
      using suffix_dropWhile [of is_space "rev (dropWhile is_space t)"] Cons
      by (metis rev_rev_ident suffix_to_prefix)
    then obtain us where "dropWhile is_space t = c # us" by (auto simp: prefix_def)
    then have "\<not> is_space c" using hd_dropWhile [of is_space t] by simp
    then show ?thesis by (simp add: Cons)
  qed (simp only: dropWhile.simps)
  show ?thesis unfolding js_trim_def dw by (simp add: dropWhile_idem)
qed

section \<open>Bounded histories\<close>

text \<open>The last elements of a list, which stores with a bound keep.\<close>

definition newest :: "nat \<Rightarrow> 'a list \<Rightarrow> 'a list" where
  "newest n xs = drop (length xs - n) xs"

lemma newest_snoc: "newest n (xs @ [x]) =
    (if n < length (newest n xs @ [x]) then tl (newest n xs @ [x]) else newest n xs @ [x])"
proof (cases "length xs < n")
  case True
  then show ?thesis by (simp add: newest_def)
next
  case False
  then have "length (newest n xs) = n" by (simp add: newest_def)
  moreover have "newest n (xs @ [x]) = tl (newest n xs @ [x])"
  proof -
    have "newest n (xs @ [x]) = drop (Suc (length xs - n)) (xs @ [x])"
      using False by (simp add: newest_def Suc_diff_le)
    also have "\<dots> = tl (drop (length xs - n) (xs @ [x]))" by (simp only: drop_Suc tl_drop)
    finally show ?thesis by (simp add: newest_def)
  qed
  ultimately show ?thesis by simp
qed

section \<open>Shared contracts\<close>

text \<open>A store of values under keys, as a client sees it.\<close>

locale keyed_store =
  fixes ok :: "'s \<Rightarrow> bool"
    and get :: "'s \<Rightarrow> 'k \<Rightarrow> 'v option"
    and put :: "'k \<Rightarrow> 'v \<Rightarrow> 's \<Rightarrow> 's"
    and drop_key :: "'k \<Rightarrow> 's \<Rightarrow> 's"
  assumes ok_put: "ok s \<Longrightarrow> ok (put k v s)"
    and ok_drop: "ok s \<Longrightarrow> ok (drop_key k s)"
    and get_put: "ok s \<Longrightarrow> get (put k v s) k' = (if k' = k then Some v else get s k')"
    and get_drop: "ok s \<Longrightarrow> get (drop_key k s) k' = (if k' = k then None else get s k')"
begin

lemma ok_puts: "ok s \<Longrightarrow> ok (foldl (\<lambda>s (k, v). put k v s) s kvs)"
  by (induction kvs arbitrary: s) (auto simp: ok_put)

text \<open>After a sequence of writes a key holds the last value written to it.\<close>

lemma get_puts:
  "ok s \<Longrightarrow> get (foldl (\<lambda>s (k, v). put k v s) s kvs) k =
    (case map_of (rev kvs) k of None \<Rightarrow> get s k | Some v \<Rightarrow> Some v)"
proof (induction kvs rule: rev_induct)
  case (snoc p kvs)
  then show ?case by (cases p) (auto simp: get_put ok_puts)
qed simp

lemma put_then_drop: "ok s \<Longrightarrow> get (drop_key k (put k v s)) k' = get (drop_key k s) k'"
  by (simp add: get_put get_drop ok_put)

lemma put_other: "ok s \<Longrightarrow> k \<noteq> k' \<Longrightarrow> get (put k v (put k' v' s)) x = get (put k' v' (put k v s)) x"
  by (simp add: get_put ok_put)

end

text \<open>A component driven by operations that keep an invariant.\<close>

locale invariant_machine =
  fixes inv :: "'s \<Rightarrow> bool"
    and step :: "'s \<Rightarrow> 'o \<Rightarrow> 's"
    and init :: "'s"
  assumes inv_init: "inv init"
    and inv_step: "inv s \<Longrightarrow> inv (step s e)"
begin

lemma inv_steps: "inv s \<Longrightarrow> inv (foldl step s es)"
  by (induction es arbitrary: s) (auto simp: inv_step)

lemma inv_run: "inv (foldl step init es)"
  by (rule inv_steps [OF inv_init])

end

text \<open>Exponential backoff with a ceiling, without jitter.\<close>

locale exp_backoff =
  fixes delay :: "nat \<Rightarrow> nat"
    and base :: nat
    and cap :: nat
  assumes delay_eq: "delay n = min (base * 2 ^ n) cap"
begin

lemma delay_bound: "delay n \<le> cap"
  by (simp add: delay_eq)

lemma delay_mono: "m \<le> n \<Longrightarrow> delay m \<le> delay n"
proof -
  assume "m \<le> n"
  then have "base * 2 ^ m \<le> base * 2 ^ n" by simp
  then show ?thesis unfolding delay_eq by linarith
qed

lemma delay_doubles: "base * 2 ^ Suc n \<le> cap \<Longrightarrow> delay (Suc n) = 2 * delay n"
  by (simp add: delay_eq)

lemma delay_saturates: "cap \<le> base * 2 ^ m \<Longrightarrow> m \<le> n \<Longrightarrow> delay n = cap"
  using delay_mono [of m n] delay_bound [of n] by (simp add: delay_eq)

lemma sum_delay_bound: "sum_list (map delay [0..<n]) \<le> n * cap"
proof (induction n)
  case (Suc n)
  then show ?case using delay_bound [of n] by simp
qed simp

end

end
