(* ===== verification/Lifecycle.thy ===== *)
theory Lifecycle
  imports SDK_Prelude
begin

text \<open>
  The transaction lifecycle (\<open>src/src/lifecycle/\<close>): the states, the table of forward
  transitions, the state machine that guards every change of state, and its two errors.
  The table is related to a step relation, of which \<open>canTransition\<close> is the decision
  procedure, and to the linear order of the enum, along which every forward step climbs by one.
\<close>

named_theorems lifecycle_simps \<open>evaluation of the lifecycle state machine\<close>

section \<open>States (types.ts)\<close>

datatype TransactionLifecycleState =
    CREATED | SIMULATING | SIMULATED | SIGNING | SIGNED | SUBMITTING
  | SUBMITTED | CONFIRMING | CONFIRMED | COMPLETED | FAILED

fun lc_value :: "TransactionLifecycleState \<Rightarrow> string" where
  "lc_value CREATED = ''created''"
| "lc_value SIMULATING = ''simulating''"
| "lc_value SIMULATED = ''simulated''"
| "lc_value SIGNING = ''signing''"
| "lc_value SIGNED = ''signed''"
| "lc_value SUBMITTING = ''submitting''"
| "lc_value SUBMITTED = ''submitted''"
| "lc_value CONFIRMING = ''confirming''"
| "lc_value CONFIRMED = ''confirmed''"
| "lc_value COMPLETED = ''completed''"
| "lc_value FAILED = ''failed''"

definition TERMINAL_STATES :: "TransactionLifecycleState list" where
  "TERMINAL_STATES = [COMPLETED, FAILED]"

fun LIFECYCLE_TRANSITIONS :: "TransactionLifecycleState \<Rightarrow> TransactionLifecycleState list" where
  "LIFECYCLE_TRANSITIONS CREATED = [SIMULATING]"
| "LIFECYCLE_TRANSITIONS SIMULATING = [SIMULATED]"
| "LIFECYCLE_TRANSITIONS SIMULATED = [SIGNING]"
| "LIFECYCLE_TRANSITIONS SIGNING = [SIGNED]"
| "LIFECYCLE_TRANSITIONS SIGNED = [SUBMITTING]"
| "LIFECYCLE_TRANSITIONS SUBMITTING = [SUBMITTED]"
| "LIFECYCLE_TRANSITIONS SUBMITTED = [CONFIRMING]"
| "LIFECYCLE_TRANSITIONS CONFIRMING = [CONFIRMED]"
| "LIFECYCLE_TRANSITIONS CONFIRMED = [COMPLETED]"
| "LIFECYCLE_TRANSITIONS COMPLETED = []"
| "LIFECYCLE_TRANSITIONS FAILED = []"

record LifecycleTransitionRecord =
  htr_from :: "TransactionLifecycleState option"
  htr_to :: TransactionLifecycleState
  htr_timestamp :: int
  htr_details :: "props option"

section \<open>Errors (errors.ts)\<close>

text \<open>
  The errors the tracked operations raise: the two classes of the module, the duplicate id of
  \<open>create\<close>, and whatever a listener threw while an event was dispatched.
\<close>

datatype lifecycle_error =
    InvalidLifecycleTransition TransactionLifecycleState TransactionLifecycleState
  | TransactionNotTracked string
  | TransactionAlreadyTracked string
  | ListenerThrew jsv

fun lifecycle_error_message :: "lifecycle_error \<Rightarrow> string" where
  "lifecycle_error_message (InvalidLifecycleTransition a b) =
     ''Invalid transaction lifecycle transition: \"'' @ lc_value a @ ''\" -> \"'' @ lc_value b @ ''\"''"
| "lifecycle_error_message (TransactionNotTracked i) =
     ''No tracked transaction found for id \"'' @ i @ ''\"''"
| "lifecycle_error_message (TransactionAlreadyTracked i) =
     ''A transaction with id \"'' @ i @ ''\" is already being tracked''"
| "lifecycle_error_message (ListenerThrew v) = err_message v"

section \<open>The state machine (stateMachine.ts)\<close>

definition lc_isTerminal :: "TransactionLifecycleState \<Rightarrow> bool" where
  "lc_isTerminal s \<longleftrightarrow> s \<in> set TERMINAL_STATES"

definition canTransition :: "TransactionLifecycleState \<Rightarrow> TransactionLifecycleState \<Rightarrow> bool" where
  "canTransition a b =
    (if lc_isTerminal a then False
     else if b = FAILED then True
     else b \<in> set (LIFECYCLE_TRANSITIONS a))"

definition assertTransition ::
    "TransactionLifecycleState \<Rightarrow> TransactionLifecycleState \<Rightarrow> lifecycle_error + unit" where
  "assertTransition a b =
    (if \<not> canTransition a b then Inl (InvalidLifecycleTransition a b) else Inr ())"

definition getAllowedNext :: "TransactionLifecycleState \<Rightarrow> TransactionLifecycleState list" where
  "getAllowedNext s = (if lc_isTerminal s then [] else LIFECYCLE_TRANSITIONS s @ [FAILED])"

lemma lc_isTerminal_iff [simp, lifecycle_simps]: "lc_isTerminal s \<longleftrightarrow> s = COMPLETED \<or> s = FAILED"
  by (auto simp: lc_isTerminal_def TERMINAL_STATES_def)

section \<open>The order of the enum\<close>

fun lc_rank :: "TransactionLifecycleState \<Rightarrow> nat" where
  "lc_rank CREATED = 0"
| "lc_rank SIMULATING = 1"
| "lc_rank SIMULATED = 2"
| "lc_rank SIGNING = 3"
| "lc_rank SIGNED = 4"
| "lc_rank SUBMITTING = 5"
| "lc_rank SUBMITTED = 6"
| "lc_rank CONFIRMING = 7"
| "lc_rank CONFIRMED = 8"
| "lc_rank COMPLETED = 9"
| "lc_rank FAILED = 10"

lemma lc_rank_inj: "lc_rank a = lc_rank b \<Longrightarrow> a = b"
  by (cases a; cases b) simp_all

instantiation TransactionLifecycleState :: linorder
begin

definition less_eq_TransactionLifecycleState ::
    "TransactionLifecycleState \<Rightarrow> TransactionLifecycleState \<Rightarrow> bool" where
  "less_eq_TransactionLifecycleState a b \<longleftrightarrow> lc_rank a \<le> lc_rank b"

definition less_TransactionLifecycleState ::
    "TransactionLifecycleState \<Rightarrow> TransactionLifecycleState \<Rightarrow> bool" where
  "less_TransactionLifecycleState a b \<longleftrightarrow> lc_rank a < lc_rank b"

instance
  by standard
     (auto simp: less_eq_TransactionLifecycleState_def less_TransactionLifecycleState_def
           intro: lc_rank_inj)

end

lemma lc_less_iff [lifecycle_simps]: "(a :: TransactionLifecycleState) < b \<longleftrightarrow> lc_rank a < lc_rank b"
  by (simp add: less_TransactionLifecycleState_def)

text \<open>The intended protocol: one step forward, or failure from a state that is not terminal.\<close>

inductive lc_step :: "TransactionLifecycleState \<Rightarrow> TransactionLifecycleState \<Rightarrow> bool" where
  forward: "lc_rank b = Suc (lc_rank a) \<Longrightarrow> a \<noteq> COMPLETED \<Longrightarrow> a \<noteq> FAILED \<Longrightarrow> lc_step a b"
| failure: "a \<noteq> COMPLETED \<Longrightarrow> a \<noteq> FAILED \<Longrightarrow> lc_step a FAILED"

inductive_simps lc_step_iff: "lc_step a b"
inductive_cases lc_stepE: "lc_step a b"

lemma canTransition_iff_step: "canTransition a b \<longleftrightarrow> lc_step a b"
  by (cases a; cases b) (simp_all add: lc_step_iff canTransition_def)

lemma canTransition_less: "canTransition a b \<Longrightarrow> a < b"
  by (auto simp: canTransition_iff_step lc_less_iff elim!: lc_stepE) (cases a; simp)

lemma canTransition_next: "canTransition a b \<longleftrightarrow> b \<in> set (getAllowedNext a)"
  by (auto simp: canTransition_def getAllowedNext_def)

lemma lc_rank_le: "lc_rank s \<le> 10"
  by (cases s) simp_all

text \<open>A run of the machine climbs the enum, so it has at most ten steps.\<close>

lemma lc_run_bound: "(lc_step ^^ n) a b \<Longrightarrow> lc_rank a + n \<le> lc_rank b"
proof (induction n arbitrary: b)
  case (Suc n)
  then obtain c where "(lc_step ^^ n) a c" and "lc_step c b" by auto
  then show ?case
    using Suc.IH [of c] canTransition_less [of c b] by (simp add: canTransition_iff_step lc_less_iff)
qed simp

text \<open>The states on the way to a state that is not \<open>FAILED\<close>.\<close>

definition lc_order :: "TransactionLifecycleState list" where
  "lc_order = [CREATED, SIMULATING, SIMULATED, SIGNING, SIGNED, SUBMITTING, SUBMITTED,
    CONFIRMING, CONFIRMED, COMPLETED]"

definition lc_path :: "TransactionLifecycleState \<Rightarrow> TransactionLifecycleState list" where
  "lc_path s = take (Suc (lc_rank s)) lc_order"

lemma lc_path_step: "canTransition a b \<Longrightarrow> b \<noteq> FAILED \<Longrightarrow> lc_path b = lc_path a @ [b]"
  by (cases a; cases b) (simp_all add: lc_path_def lc_order_def canTransition_def)

lemma length_lc_path: "length (lc_path s) \<le> 10"
  by (simp add: lc_path_def lc_order_def)

section \<open>Properties\<close>

text \<open>C4. The guard of every state change decides exactly the intended protocol, one step
  along the enum or a failure from a state that is not terminal; the table of allowed next states
  agrees with it; and no run of the machine has more than ten steps.\<close>

theorem state_machine_protocol:
  "(canTransition a b \<longleftrightarrow> lc_step a b)
   \<and> (b \<in> set (getAllowedNext a) \<longleftrightarrow> lc_step a b)
   \<and> (\<nexists>n. n > 10 \<and> (lc_step ^^ n) a b)"
  using lc_run_bound [of _ a b] lc_rank_le [of b] canTransition_iff_step [of a b]
    canTransition_next [of a b]
  by (meson add_leE leD le_trans)

end
