(* ===== verification/LifecycleEvents.thy ===== *)
theory LifecycleEvents
  imports Lifecycle
begin

text \<open>
  The publisher of lifecycle events (\<open>src/src/events/lifecycleEvents.ts\<close>): subscriptions
  under generated ids, filters, and dispatch in subscription order. A listener is a value of an
  arbitrary type \<open>'l\<close> with a behaviour \<open>'l \<Rightarrow> event \<Rightarrow> jsv option\<close>: \<open>None\<close> when it
  returns, the thrown value otherwise. \<open>emit\<close> has no handler, so a throwing listener ends the
  dispatch; it returns the ids it called beside its result. A listener that calls back into the
  emitter is not modelled.
\<close>

datatype LifecycleEventType = EvCreated | EvTransition | EvCompleted | EvFailed

record LifecycleEvent =
  lev_type :: LifecycleEventType
  lev_transactionId :: string
  lev_previousState :: "TransactionLifecycleState option"
  lev_state :: TransactionLifecycleState
  lev_timestamp :: int
  lev_details :: "props option"
  lev_error :: "(string \<times> string) option"

record LifecycleEventFilter =
  lef_transactionId :: "string option"
  lef_types :: "LifecycleEventType list option"

type_synonym 'l listener_behaviour = "'l \<Rightarrow> LifecycleEvent \<Rightarrow> jsv option"

record 'l LifecycleEventEmitter =
  lee_listeners :: "(string, 'l \<times> LifecycleEventFilter option) jsmap"
  lee_nextId :: nat

definition lee_new :: "'l LifecycleEventEmitter" where
  "lee_new = \<lparr>lee_listeners = [], lee_nextId = 0\<rparr>"

definition lee_sub_id :: "nat \<Rightarrow> string" where
  "lee_sub_id n = ''lifecycle-sub-'' @ nat_str n"

definition lee_subscribe ::
    "'l \<Rightarrow> LifecycleEventFilter option \<Rightarrow> 'l LifecycleEventEmitter
      \<Rightarrow> 'l LifecycleEventEmitter \<times> string" where
  "lee_subscribe l f e =
    (let n = Suc (lee_nextId e); i = lee_sub_id n in
     (e\<lparr>lee_listeners := jm_set i (l, f) (lee_listeners e), lee_nextId := n\<rparr>, i))"

definition lee_unsubscribe ::
    "string \<Rightarrow> 'l LifecycleEventEmitter \<Rightarrow> 'l LifecycleEventEmitter \<times> bool" where
  "lee_unsubscribe i e =
    (e\<lparr>lee_listeners := jm_delete i (lee_listeners e)\<rparr>, jm_has (lee_listeners e) i)"

text \<open>An empty transaction id or an empty list of types is falsy, so it does not filter.\<close>

definition lee_matchesFilter :: "LifecycleEvent \<Rightarrow> LifecycleEventFilter option \<Rightarrow> bool" where
  "lee_matchesFilter ev f =
    (case f of None \<Rightarrow> True
     | Some f \<Rightarrow>
        (case lef_transactionId f of
           Some t \<Rightarrow> t = [] \<or> t = lev_transactionId ev | None \<Rightarrow> True) \<and>
        (case lef_types f of
           Some ts \<Rightarrow> ts = [] \<or> lev_type ev \<in> set ts | None \<Rightarrow> True))"

fun lee_dispatch ::
    "'l listener_behaviour \<Rightarrow> LifecycleEvent
      \<Rightarrow> (string \<times> 'l \<times> LifecycleEventFilter option) list \<Rightarrow> nat
      \<Rightarrow> string list \<times> (jsv + nat)" where
  "lee_dispatch beh ev [] n = ([], Inr n)"
| "lee_dispatch beh ev ((i, l, f) # ls) n =
    (if \<not> lee_matchesFilter ev f then lee_dispatch beh ev ls n
     else case beh l ev of
            Some x \<Rightarrow> ([i], Inl x)
          | None \<Rightarrow> (let (called, r) = lee_dispatch beh ev ls (Suc n) in (i # called, r)))"

definition lee_emit ::
    "'l listener_behaviour \<Rightarrow> LifecycleEvent \<Rightarrow> 'l LifecycleEventEmitter
      \<Rightarrow> string list \<times> (jsv + nat)" where
  "lee_emit beh ev e = lee_dispatch beh ev (lee_listeners e) 0"

definition lee_getListenerCount :: "'l LifecycleEventEmitter \<Rightarrow> nat" where
  "lee_getListenerCount e = length (lee_listeners e)"

section \<open>Ids are fresh\<close>

definition lee_wf :: "'l LifecycleEventEmitter \<Rightarrow> bool" where
  "lee_wf e \<longleftrightarrow> jm_ok (lee_listeners e)
    \<and> list_all (\<lambda>i. List.list_ex (\<lambda>n. i = lee_sub_id n) [1..<Suc (lee_nextId e)])
        (jm_keys (lee_listeners e))"

lemma lee_sub_id_inj [simp]: "lee_sub_id a = lee_sub_id b \<longleftrightarrow> a = b"
  by (simp add: lee_sub_id_def)

lemma lee_wf_iff: "lee_wf e \<longleftrightarrow> jm_ok (lee_listeners e)
    \<and> (\<forall>i. jm_has (lee_listeners e) i \<longrightarrow> (\<exists>n. 1 \<le> n \<and> n \<le> lee_nextId e \<and> i = lee_sub_id n))"
  by (auto simp: lee_wf_def jm_has_iff jm_keys_def list_all_iff list_ex_iff) fastforce+

lemma lee_wf_new [simp]: "lee_wf lee_new"
  by (simp add: lee_wf_iff lee_new_def)

lemma lee_subscribe_fresh: "lee_wf e \<Longrightarrow> \<not> jm_has (lee_listeners e) (snd (lee_subscribe l f e))"
  by (auto simp: lee_wf_iff lee_subscribe_def Let_def)

lemma lee_wf_subscribe [intro]: "lee_wf e \<Longrightarrow> lee_wf (fst (lee_subscribe l f e))"
  by (auto simp: lee_wf_iff lee_subscribe_def Let_def intro: le_SucI exI [of _ "Suc (lee_nextId e)"])

lemma lee_wf_unsubscribe [intro]: "lee_wf e \<Longrightarrow> lee_wf (fst (lee_unsubscribe i e))"
  by (auto simp: lee_wf_iff lee_unsubscribe_def)

section \<open>Dispatch\<close>

text \<open>Without a throwing listener every matching one is called, in subscription order.\<close>

definition lee_matching :: "LifecycleEvent \<Rightarrow> 'l LifecycleEventEmitter \<Rightarrow> string list" where
  "lee_matching ev e = map fst (filter (\<lambda>(i, l, f). lee_matchesFilter ev f) (lee_listeners e))"

lemma lee_dispatch_prefix:
  "prefix (fst (lee_dispatch beh ev ls n))
     (map fst (filter (\<lambda>(i, l, f). lee_matchesFilter ev f) ls))"
  by (induction beh ev ls n rule: lee_dispatch.induct) (auto split: option.split prod.split)

lemma lee_dispatch_ok:
  "snd (lee_dispatch beh ev ls n) = Inr k \<Longrightarrow>
    fst (lee_dispatch beh ev ls n) = map fst (filter (\<lambda>(i, l, f). lee_matchesFilter ev f) ls)
    \<and> k = n + length (fst (lee_dispatch beh ev ls n))"
  by (induction beh ev ls n rule: lee_dispatch.induct)
     (auto split: option.splits prod.splits if_splits)

lemma lee_dispatch_quiet:
  "(\<And>l. beh l ev = None) \<Longrightarrow> \<exists>k. snd (lee_dispatch beh ev ls n) = Inr k"
  by (induction beh ev ls n rule: lee_dispatch.induct) (auto split: prod.split)

text \<open>What the subscriptions see of an event: they stop at the first listener that throws.\<close>

lemma lee_dispatch_throw:
  "snd (lee_dispatch beh ev ls n) = Inl x \<Longrightarrow>
    \<exists>pre i l f post. ls = pre @ (i, l, f) # post \<and> lee_matchesFilter ev f \<and> beh l ev = Some x
      \<and> fst (lee_dispatch beh ev ls n) =
          map fst (filter (\<lambda>(i, l, f). lee_matchesFilter ev f) pre) @ [i]
      \<and> list_all (\<lambda>(i, l, f). lee_matchesFilter ev f \<longrightarrow> beh l ev = None) pre"
proof (induction beh ev ls n rule: lee_dispatch.induct)
  case (2 beh ev i l f ls n)
  show ?case
  proof (cases "lee_matchesFilter ev f")
    case False
    with 2 obtain pre i' l' f' post where "ls = pre @ (i', l', f') # post"
      "lee_matchesFilter ev f'" "beh l' ev = Some x"
      "fst (lee_dispatch beh ev ls n) =
          map fst (filter (\<lambda>(i, l, f). lee_matchesFilter ev f) pre) @ [i']"
      "list_all (\<lambda>(i, l, f). lee_matchesFilter ev f \<longrightarrow> beh l ev = None) pre" by auto
    with False show ?thesis by (intro exI [of _ "(i, l, f) # pre"]) auto
  next
    case True
    show ?thesis
    proof (cases "beh l ev")
      case None
      with True 2 obtain pre i' l' f' post where "ls = pre @ (i', l', f') # post"
        "lee_matchesFilter ev f'" "beh l' ev = Some x"
        "fst (lee_dispatch beh ev ls (Suc n)) =
            map fst (filter (\<lambda>(i, l, f). lee_matchesFilter ev f) pre) @ [i']"
        "list_all (\<lambda>(i, l, f). lee_matchesFilter ev f \<longrightarrow> beh l ev = None) pre"
        by (auto split: prod.splits)
      with True None show ?thesis
        by (intro exI [of _ "(i, l, f) # pre"]) (auto split: prod.split)
    next
      case (Some y)
      with True 2 show ?thesis by - (rule exI [of _ "[]"], auto)
    qed
  qed
qed simp

section \<open>Properties\<close>

text \<open>A dispatch calls the matching subscriptions in subscription order, each once. If it
  returns, it called all of them and returns their number; if it raises, the last subscription it
  called is the one that threw, and those after it did not see the event.\<close>

theorem emit_order:
  "case lee_emit beh ev e of
     (called, Inr n) \<Rightarrow> called = lee_matching ev e \<and> n = length called
   | (called, Inl x) \<Rightarrow>
       (\<exists>pre i l f post. lee_listeners e = pre @ (i, l, f) # post
          \<and> lee_matching ev (e\<lparr>lee_listeners := pre\<rparr>) @ [i] = called
          \<and> lee_matchesFilter ev f \<and> beh l ev = Some x)"
  using lee_dispatch_ok [of beh ev "lee_listeners e" 0]
    lee_dispatch_throw [of beh ev "lee_listeners e" 0]
  by (auto simp: lee_emit_def lee_matching_def split: prod.split sum.split) metis

end
