(* ===== verification/TxManager.thy ===== *)
theory TxManager
  imports LifecycleEvents
begin

text \<open>
  The transaction lifecycle manager (\<open>src/src/transactions/transactionLifecycleManager.ts\<close>):
  a map from ids to records, the state machine that guards every transition, and the emitter that
  is told of it. Each operation returns the new manager, the ids of the subscriptions that were
  called, and an error or its result. The record is changed before the event is emitted, so an
  operation whose listener throws has still changed the state. The clock (\<open>now\<close>) and the
  generated id (\<open>gen\<close>) are arguments. Records are values here: the copies the code takes in
  \<open>cloneRecord\<close> are the identity on well-formed records.
\<close>

section \<open>State (types.ts, transactionLifecycleManager.ts)\<close>

record TransactionLifecycleRecord =
  tlr_id :: string
  tlr_state :: TransactionLifecycleState
  tlr_createdAt :: int
  tlr_updatedAt :: int
  tlr_history :: "LifecycleTransitionRecord list"
  tlr_metadata :: props
  tlr_error :: "(string \<times> string) option"

record TransactionStatusQuery =
  tsq_state :: "TransactionLifecycleState option"
  tsq_terminalOnly :: bool

record 'l TransactionLifecycleManager =
  tlm_records :: "(string, TransactionLifecycleRecord) jsmap"
  tlm_emitter :: "'l LifecycleEventEmitter"

type_synonym ('l, 'a) tlm_result =
  "'l TransactionLifecycleManager \<times> string list \<times> (lifecycle_error + 'a)"

definition tlm_new :: "'l TransactionLifecycleManager" where
  "tlm_new = \<lparr>tlm_records = [], tlm_emitter = lee_new\<rparr>"

definition toErrorInfo :: "jsv \<Rightarrow> string \<times> string" where
  "toErrorInfo e = (err_name e, err_message e)"

definition opt_props :: "props option \<Rightarrow> props" where
  "opt_props d = (case d of None \<Rightarrow> [] | Some d \<Rightarrow> d)"

definition cloneRecord :: "TransactionLifecycleRecord \<Rightarrow> TransactionLifecycleRecord" where
  "cloneRecord r = r\<lparr>tlr_metadata := obj_spread [] (tlr_metadata r),
                     tlr_history := map (\<lambda>e. e) (tlr_history r)\<rparr>"

definition requireRecord ::
    "string \<Rightarrow> 'l TransactionLifecycleManager \<Rightarrow> lifecycle_error + TransactionLifecycleRecord" where
  "requireRecord i m =
    (case jm_get (tlm_records m) i of None \<Rightarrow> Inl (TransactionNotTracked i) | Some r \<Rightarrow> Inr r)"

section \<open>Operations\<close>

definition tlm_emit ::
    "'l listener_behaviour \<Rightarrow> LifecycleEvent \<Rightarrow> 'a \<Rightarrow> 'l TransactionLifecycleManager
      \<Rightarrow> ('l, 'a) tlm_result" where
  "tlm_emit beh ev r m =
    (case lee_emit beh ev (tlm_emitter m) of
       (called, Inl x) \<Rightarrow> (m, called, Inl (ListenerThrew x))
     | (called, Inr _) \<Rightarrow> (m, called, Inr r))"

definition tlm_create ::
    "'l listener_behaviour \<Rightarrow> string \<Rightarrow> int \<Rightarrow> string option \<Rightarrow> props option
      \<Rightarrow> 'l TransactionLifecycleManager \<Rightarrow> ('l, TransactionLifecycleRecord) tlm_result" where
  "tlm_create beh gen now oid meta m =
    (let i = (case oid of None \<Rightarrow> gen | Some i \<Rightarrow> i) in
     if jm_has (tlm_records m) i then (m, [], Inl (TransactionAlreadyTracked i))
     else
       let r = \<lparr>tlr_id = i, tlr_state = CREATED, tlr_createdAt = now, tlr_updatedAt = now,
                tlr_history = [\<lparr>htr_from = None, htr_to = CREATED, htr_timestamp = now,
                                htr_details = None\<rparr>],
                tlr_metadata = obj_spread [] (opt_props meta), tlr_error = None\<rparr>;
           m' = m\<lparr>tlm_records := jm_set i r (tlm_records m)\<rparr>;
           ev = \<lparr>lev_type = EvCreated, lev_transactionId = i, lev_previousState = None,
                 lev_state = CREATED, lev_timestamp = now, lev_details = None,
                 lev_error = None\<rparr>
       in tlm_emit beh ev (cloneRecord r) m')"

definition tlm_apply_transition ::
    "TransactionLifecycleState \<Rightarrow> int \<Rightarrow> props option \<Rightarrow> TransactionLifecycleRecord
      \<Rightarrow> TransactionLifecycleRecord" where
  "tlm_apply_transition b now details r =
    r\<lparr>tlr_state := b, tlr_updatedAt := now,
      tlr_history := tlr_history r @ [\<lparr>htr_from = Some (tlr_state r), htr_to = b,
                                       htr_timestamp = now, htr_details = details\<rparr>],
      tlr_metadata := (case details of None \<Rightarrow> tlr_metadata r
                       | Some d \<Rightarrow> obj_spread (obj_spread [] (tlr_metadata r)) d),
      tlr_error := (if b = FAILED \<and> jprop (opt_props details) ''error'' \<noteq> JUndef
                    then Some (toErrorInfo (jprop (opt_props details) ''error''))
                    else tlr_error r)\<rparr>"

definition tlm_transition ::
    "'l listener_behaviour \<Rightarrow> int \<Rightarrow> string \<Rightarrow> TransactionLifecycleState \<Rightarrow> props option
      \<Rightarrow> 'l TransactionLifecycleManager \<Rightarrow> ('l, TransactionLifecycleRecord) tlm_result" where
  "tlm_transition beh now i b details m =
    (case requireRecord i m of Inl e \<Rightarrow> (m, [], Inl e)
     | Inr r \<Rightarrow>
       (case assertTransition (tlr_state r) b of Inl e \<Rightarrow> (m, [], Inl e)
        | Inr _ \<Rightarrow>
          let r' = tlm_apply_transition b now details r;
              m' = m\<lparr>tlm_records := jm_set i r' (tlm_records m)\<rparr>;
              ev = \<lparr>lev_type = (if b = FAILED then EvFailed
                               else if b = COMPLETED then EvCompleted else EvTransition),
                    lev_transactionId = i, lev_previousState = Some (tlr_state r),
                    lev_state = b, lev_timestamp = now, lev_details = details,
                    lev_error = tlr_error r'\<rparr>
          in tlm_emit beh ev (cloneRecord r') m'))"

definition markSimulating where "markSimulating beh now i d m = tlm_transition beh now i SIMULATING d m"
definition markSimulated where "markSimulated beh now i d m = tlm_transition beh now i SIMULATED d m"
definition markSigning where "markSigning beh now i d m = tlm_transition beh now i SIGNING d m"
definition markSigned where "markSigned beh now i d m = tlm_transition beh now i SIGNED d m"
definition markSubmitting where "markSubmitting beh now i d m = tlm_transition beh now i SUBMITTING d m"
definition markSubmitted where "markSubmitted beh now i d m = tlm_transition beh now i SUBMITTED d m"
definition markConfirming where "markConfirming beh now i d m = tlm_transition beh now i CONFIRMING d m"
definition markConfirmed where "markConfirmed beh now i d m = tlm_transition beh now i CONFIRMED d m"
definition markCompleted where "markCompleted beh now i d m = tlm_transition beh now i COMPLETED d m"

lemmas mark_defs = markSimulating_def markSimulated_def markSigning_def markSigned_def
  markSubmitting_def markSubmitted_def markConfirming_def markConfirmed_def markCompleted_def

definition tlm_fail ::
    "'l listener_behaviour \<Rightarrow> int \<Rightarrow> string \<Rightarrow> jsv \<Rightarrow> props option
      \<Rightarrow> 'l TransactionLifecycleManager \<Rightarrow> ('l, TransactionLifecycleRecord) tlm_result" where
  "tlm_fail beh now i x details m =
    tlm_transition beh now i FAILED
      (Some (jm_set ''error'' x (obj_spread [] (opt_props details)))) m"

definition tlm_getStatus ::
    "string \<Rightarrow> 'l TransactionLifecycleManager \<Rightarrow> lifecycle_error + TransactionLifecycleState" where
  "tlm_getStatus i m = map_sum id tlr_state (requireRecord i m)"

definition tlm_getRecord ::
    "string \<Rightarrow> 'l TransactionLifecycleManager \<Rightarrow> lifecycle_error + TransactionLifecycleRecord" where
  "tlm_getRecord i m = map_sum id cloneRecord (requireRecord i m)"

definition tlm_getHistory ::
    "string \<Rightarrow> 'l TransactionLifecycleManager
      \<Rightarrow> lifecycle_error + LifecycleTransitionRecord list" where
  "tlm_getHistory i m = map_sum id tlr_history (requireRecord i m)"

definition tlm_isTerminal ::
    "string \<Rightarrow> 'l TransactionLifecycleManager \<Rightarrow> lifecycle_error + bool" where
  "tlm_isTerminal i m =
    map_sum id (\<lambda>r. tlr_state r \<in> set TERMINAL_STATES) (requireRecord i m)"

definition tlm_has :: "string \<Rightarrow> 'l TransactionLifecycleManager \<Rightarrow> bool" where
  "tlm_has i m = jm_has (tlm_records m) i"

definition tlm_list ::
    "TransactionStatusQuery \<Rightarrow> 'l TransactionLifecycleManager \<Rightarrow> TransactionLifecycleRecord list" where
  "tlm_list q m = map cloneRecord (filter
     (\<lambda>r. (case tsq_state q of None \<Rightarrow> True | Some s \<Rightarrow> tlr_state r = s)
          \<and> \<not> (tsq_terminalOnly q \<and> tlr_state r \<notin> set TERMINAL_STATES))
     (jm_values (tlm_records m)))"

definition tlm_remove ::
    "string \<Rightarrow> 'l TransactionLifecycleManager \<Rightarrow> 'l TransactionLifecycleManager \<times> bool" where
  "tlm_remove i m =
    (m\<lparr>tlm_records := jm_delete i (tlm_records m)\<rparr>, jm_has (tlm_records m) i)"

definition tlm_clear :: "'l TransactionLifecycleManager \<Rightarrow> 'l TransactionLifecycleManager" where
  "tlm_clear m = m\<lparr>tlm_records := []\<rparr>"

definition tlm_onEvent ::
    "'l \<Rightarrow> LifecycleEventFilter option \<Rightarrow> 'l TransactionLifecycleManager
      \<Rightarrow> 'l TransactionLifecycleManager \<times> string" where
  "tlm_onEvent l f m =
    (let (e, i) = lee_subscribe l f (tlm_emitter m) in (m\<lparr>tlm_emitter := e\<rparr>, i))"

definition tlm_offEvent ::
    "string \<Rightarrow> 'l TransactionLifecycleManager \<Rightarrow> 'l TransactionLifecycleManager \<times> bool" where
  "tlm_offEvent i m =
    (let (e, b) = lee_unsubscribe i (tlm_emitter m) in (m\<lparr>tlm_emitter := e\<rparr>, b))"

section \<open>Runs of the manager\<close>

datatype 'l tlm_op =
    OpCreate string int "string option" "props option"
  | OpTransition int string TransactionLifecycleState "props option"
  | OpFail int string jsv "props option"
  | OpRemove string
  | OpClear
  | OpOnEvent 'l "LifecycleEventFilter option"
  | OpOffEvent string

fun tlm_step ::
    "'l listener_behaviour \<Rightarrow> 'l TransactionLifecycleManager \<Rightarrow> 'l tlm_op
      \<Rightarrow> 'l TransactionLifecycleManager" where
  "tlm_step beh m (OpCreate gen now oid meta) = fst (tlm_create beh gen now oid meta m)"
| "tlm_step beh m (OpTransition now i b d) = fst (tlm_transition beh now i b d m)"
| "tlm_step beh m (OpFail now i x d) = fst (tlm_fail beh now i x d m)"
| "tlm_step beh m (OpRemove i) = fst (tlm_remove i m)"
| "tlm_step beh m OpClear = tlm_clear m"
| "tlm_step beh m (OpOnEvent l f) = fst (tlm_onEvent l f m)"
| "tlm_step beh m (OpOffEvent i) = fst (tlm_offEvent i m)"

definition tlm_run ::
    "'l listener_behaviour \<Rightarrow> 'l TransactionLifecycleManager \<Rightarrow> 'l tlm_op list
      \<Rightarrow> 'l TransactionLifecycleManager" where
  "tlm_run beh m ops = foldl (tlm_step beh) m ops"

text \<open>A history starts with the creation, and every later entry continues the one before it.\<close>

fun htr_chain ::
    "TransactionLifecycleState option \<Rightarrow> LifecycleTransitionRecord list \<Rightarrow> bool" where
  "htr_chain p [] = True"
| "htr_chain p (e # es) =
    (htr_from e = p
     \<and> (case p of None \<Rightarrow> htr_to e = CREATED | Some a \<Rightarrow> canTransition a (htr_to e))
     \<and> htr_chain (Some (htr_to e)) es)"

definition tlr_ok :: "string \<Rightarrow> TransactionLifecycleRecord \<Rightarrow> bool" where
  "tlr_ok i r \<longleftrightarrow> tlr_id r = i \<and> tlr_history r \<noteq> [] \<and> htr_chain None (tlr_history r)
     \<and> htr_to (last (tlr_history r)) = tlr_state r
     \<and> htr_timestamp (hd (tlr_history r)) = tlr_createdAt r
     \<and> htr_timestamp (last (tlr_history r)) = tlr_updatedAt r"

definition tlm_wf :: "'l TransactionLifecycleManager \<Rightarrow> bool" where
  "tlm_wf m \<longleftrightarrow> jm_ok (tlm_records m) \<and> jm_all tlr_ok (tlm_records m) \<and> lee_wf (tlm_emitter m)"

lemma htr_chain_snoc:
  "htr_chain p (es @ [e]) \<longleftrightarrow> htr_chain p es \<and>
    (let q = (if es = [] then p else Some (htr_to (last es))) in
     htr_from e = q \<and> (case q of None \<Rightarrow> htr_to e = CREATED | Some a \<Rightarrow> canTransition a (htr_to e)))"
  by (induction es arbitrary: p) (auto simp: Let_def)

lemma htr_chain_path:
  "htr_chain None es \<Longrightarrow> es \<noteq> [] \<Longrightarrow>
    (if htr_to (last es) = FAILED
     then \<exists>s. \<not> lc_isTerminal s \<and> map htr_to es = lc_path s @ [FAILED]
     else map htr_to es = lc_path (htr_to (last es)))"
proof (induction es rule: rev_induct)
  case (snoc e es)
  show ?case
  proof (cases "es = []")
    case True
    with snoc.prems show ?thesis by (simp add: lc_path_def lc_order_def)
  next
    case False
    let ?s = "htr_to (last es)"
    have chain: "htr_chain None es" and step: "canTransition ?s (htr_to e)"
      using snoc.prems False by (simp_all add: htr_chain_snoc Let_def)
    have nt: "\<not> lc_isTerminal ?s" using step by (auto simp: canTransition_def)
    have path: "map htr_to es = lc_path ?s" using snoc.IH [OF chain False] nt by auto
    show ?thesis
      using path nt lc_path_step [OF step] by (cases "htr_to e = FAILED") auto
  qed
qed simp

lemma htr_chain_pairs:
  "htr_chain p es \<Longrightarrow>
    map (\<lambda>e. (htr_from e, htr_to e)) es = zip (p # map Some (map htr_to es)) (map htr_to es)"
  by (induction es arbitrary: p) auto

section \<open>Every operation keeps the invariant\<close>

lemma tlm_emit_fst [simp]: "fst (tlm_emit beh ev r m) = m"
  by (simp add: tlm_emit_def split: prod.split sum.split)

lemma tlm_emit_result:
  "snd (snd (tlm_emit beh ev r m)) = Inr r
   \<or> (\<exists>x. snd (snd (tlm_emit beh ev r m)) = Inl (ListenerThrew x))"
  by (auto simp: tlm_emit_def split: prod.split sum.split)

lemma tlr_ok_apply:
  "tlr_ok i r \<Longrightarrow> canTransition (tlr_state r) b \<Longrightarrow> tlr_ok i (tlm_apply_transition b now d r)"
  by (simp add: tlr_ok_def tlm_apply_transition_def htr_chain_snoc Let_def hd_append)

lemma tlm_transition_cases:
  "tlm_transition beh now i b d m =
    (case jm_get (tlm_records m) i of None \<Rightarrow> (m, [], Inl (TransactionNotTracked i))
     | Some r \<Rightarrow>
        if \<not> canTransition (tlr_state r) b
        then (m, [], Inl (InvalidLifecycleTransition (tlr_state r) b))
        else tlm_transition beh now i b d m)"
  by (simp add: tlm_transition_def requireRecord_def assertTransition_def split: option.split)

lemma tlm_transition_state:
  "fst (tlm_transition beh now i b d m) =
    (case jm_get (tlm_records m) i of None \<Rightarrow> m
     | Some r \<Rightarrow> if canTransition (tlr_state r) b
                 then m\<lparr>tlm_records := jm_set i (tlm_apply_transition b now d r) (tlm_records m)\<rparr>
                 else m)"
  by (simp add: tlm_transition_def requireRecord_def assertTransition_def Let_def split: option.split)

lemma tlm_wf_transition: "tlm_wf m \<Longrightarrow> tlm_wf (fst (tlm_transition beh now i b d m))"
  by (auto simp: tlm_transition_state tlm_wf_def intro!: jm_all_set tlr_ok_apply
           dest: jm_all_getD split: option.split)

lemma tlm_create_state:
  "fst (tlm_create beh gen now oid meta m) =
    (let i = (case oid of None \<Rightarrow> gen | Some i \<Rightarrow> i) in
     if jm_has (tlm_records m) i then m
     else m\<lparr>tlm_records := jm_set i
        \<lparr>tlr_id = i, tlr_state = CREATED, tlr_createdAt = now, tlr_updatedAt = now,
         tlr_history = [\<lparr>htr_from = None, htr_to = CREATED, htr_timestamp = now,
                         htr_details = None\<rparr>],
         tlr_metadata = obj_spread [] (opt_props meta), tlr_error = None\<rparr> (tlm_records m)\<rparr>)"
  by (simp add: tlm_create_def Let_def)

lemma tlm_wf_create: "tlm_wf m \<Longrightarrow> tlm_wf (fst (tlm_create beh gen now oid meta m))"
  by (auto simp: tlm_create_state tlm_wf_def tlr_ok_def Let_def intro!: jm_all_set)

lemma tlm_wf_step: "tlm_wf m \<Longrightarrow> tlm_wf (tlm_step beh m e)"
proof (cases e)
  case (OpCreate gen now oid meta)
  then show "tlm_wf m \<Longrightarrow> ?thesis" by (simp add: tlm_wf_create)
next
  case (OpTransition now i b d)
  then show "tlm_wf m \<Longrightarrow> ?thesis" by (simp add: tlm_wf_transition)
next
  case (OpFail now i x d)
  then show "tlm_wf m \<Longrightarrow> ?thesis" by (simp add: tlm_fail_def tlm_wf_transition)
qed (auto simp: tlm_wf_def tlm_remove_def tlm_clear_def tlm_onEvent_def tlm_offEvent_def
        split: prod.splits dest: lee_wf_subscribe lee_wf_unsubscribe
        intro!: jm_all_delete, (metis fst_conv lee_wf_subscribe lee_wf_unsubscribe)+)

lemma tlm_wf_new: "tlm_wf tlm_new"
  by (simp add: tlm_wf_def tlm_new_def)

interpretation tlm: invariant_machine tlm_wf "tlm_step beh" tlm_new for beh
  by unfold_locales (simp_all add: tlm_wf_new tlm_wf_step)

lemmas tlm_wf_run = tlm.inv_run [folded tlm_run_def]

lemma tlm_run_record:
  "jm_get (tlm_records (tlm_run beh tlm_new ops)) i = Some r \<Longrightarrow> tlr_ok i r"
  using tlm_wf_run [of beh ops] by (auto simp: tlm_wf_def dest: jm_all_getD)

text \<open>The record other operations leave under an id, as a function of the old one.\<close>

definition tlm_touches :: "string \<Rightarrow> 'l tlm_op \<Rightarrow> bool" where
  "tlm_touches i e = (case e of OpRemove j \<Rightarrow> i = j | OpClear \<Rightarrow> True | _ \<Rightarrow> False)"

lemma tlm_terminal_step:
  assumes "jm_get (tlm_records m) i = Some r" "lc_isTerminal (tlr_state r)" "\<not> tlm_touches i e"
  shows "jm_get (tlm_records (tlm_step beh m e)) i = Some r"
proof -
  have no: "\<not> canTransition (tlr_state r) b" for b
    using assms(2) by (auto simp: canTransition_def)
  have tr: "jm_get (tlm_records (fst (tlm_transition beh now j b d m))) i = Some r" for now j b d
    using assms(1) no by (auto simp: tlm_transition_state split: option.split)
  have cr: "jm_get (tlm_records (fst (tlm_create beh gen now oid meta m))) i = Some r"
    for gen now oid meta
    using assms(1) by (auto simp: tlm_create_state Let_def jm_has_get)
  show ?thesis
    using assms(1,3)
    by (cases e) (auto simp: tr cr tlm_fail_def tlm_remove_def tlm_onEvent_def tlm_offEvent_def
        tlm_touches_def split: prod.split)
qed

lemma tlm_store_get_run:
  "jm_get (tlm_records m) i = Some r \<Longrightarrow> lc_isTerminal (tlr_state r) \<Longrightarrow>
    \<not> list_ex (tlm_touches i) ops \<Longrightarrow> jm_get (tlm_records (tlm_run beh m ops)) i = Some r"
  unfolding tlm_run_def
  by (induction ops arbitrary: m) (simp_all add: tlm_terminal_step del: lc_isTerminal_iff)

text \<open>Driving a transaction forward through the remaining states.\<close>

definition tlm_drive ::
    "'l listener_behaviour \<Rightarrow> int \<Rightarrow> string \<Rightarrow> TransactionLifecycleState list
      \<Rightarrow> 'l TransactionLifecycleManager \<Rightarrow> 'l TransactionLifecycleManager" where
  "tlm_drive beh now i ss m = foldl (\<lambda>m s. fst (tlm_transition beh now i s None m)) m ss"

lemma tlm_drive_Nil [simp]: "tlm_drive beh now i [] m = m"
  by (simp add: tlm_drive_def)

lemma tlm_drive_Cons [simp]:
  "tlm_drive beh now i (s # ss) m = tlm_drive beh now i ss (fst (tlm_transition beh now i s None m))"
  by (simp add: tlm_drive_def)

lemma tlm_state_apply [simp]: "tlr_state (tlm_apply_transition b now d r) = b"
  by (simp add: tlm_apply_transition_def)

lemma tlm_transition_get:
  "jm_get (tlm_records m) i = Some r \<Longrightarrow> canTransition (tlr_state r) b \<Longrightarrow>
    jm_get (tlm_records (fst (tlm_transition beh now i b d m))) i
      = Some (tlm_apply_transition b now d r)"
  by (simp add: tlm_transition_state)

lemma tlm_drive_reaches:
  "jm_get (tlm_records m) i = Some r \<Longrightarrow> drop (lc_rank (tlr_state r)) lc_order = tlr_state r # ss \<Longrightarrow>
    \<exists>r'. jm_get (tlm_records (tlm_drive beh now i ss m)) i = Some r' \<and> tlr_state r' = COMPLETED"
proof (induction ss arbitrary: m r)
  case Nil
  then show ?case by (cases "tlr_state r") (auto simp: lc_order_def)
next
  case (Cons s ss)
  have "canTransition (tlr_state r) s \<and> drop (lc_rank s) lc_order = s # ss"
    using Cons.prems(2) by (cases "tlr_state r") (auto simp: lc_order_def canTransition_def)
  then show ?case
    using tlm_transition_get [OF Cons.prems(1), of s beh now None] Cons.IH by simp
qed

section \<open>Properties\<close>

text \<open>C1. Whatever operations run and whichever listeners throw, the history of every tracked
  transaction is the path of the protocol to its state: exactly the states of the enum up to it,
  or such a path to a state that is not terminal followed by the failure. Each entry leads from
  the state the entry before it led to, the first from none; the first entry has the time of
  creation and the last that of the last update. In particular a completed transaction went
  through all ten states.\<close>

theorem tracked_history_is_path:
  assumes "jm_get (tlm_records (tlm_run beh tlm_new ops)) i = Some r"
  shows "tlr_id r = i \<and>
    (\<exists>path. (if tlr_state r = FAILED
             then \<exists>s. \<not> lc_isTerminal s \<and> path = lc_path s @ [FAILED]
             else path = lc_path (tlr_state r)) \<and>
       map (\<lambda>e. (htr_from e, htr_to e)) (tlr_history r) = zip (None # map Some path) path)
    \<and> htr_timestamp (hd (tlr_history r)) = tlr_createdAt r
    \<and> htr_timestamp (last (tlr_history r)) = tlr_updatedAt r"
proof -
  have ok: "tlr_ok i r" by (rule tlm_run_record [OF assms])
  let ?path = "map htr_to (tlr_history r)"
  have pairs: "map (\<lambda>e. (htr_from e, htr_to e)) (tlr_history r) = zip (None # map Some ?path) ?path"
    using ok by (intro htr_chain_pairs) (simp add: tlr_ok_def)
  have path: "if tlr_state r = FAILED
      then \<exists>s. \<not> lc_isTerminal s \<and> ?path = lc_path s @ [FAILED] else ?path = lc_path (tlr_state r)"
    using ok htr_chain_path [of "tlr_history r"] by (cases "tlr_state r = FAILED") (auto simp: tlr_ok_def)
  from ok have "tlr_id r = i" "htr_timestamp (hd (tlr_history r)) = tlr_createdAt r"
    "htr_timestamp (last (tlr_history r)) = tlr_updatedAt r" by (simp_all add: tlr_ok_def)
  with path pairs show ?thesis by blast
qed

definition wit_beh :: "unit listener_behaviour" where
  "wit_beh l ev = (if lev_type ev = EvFailed then Some JNull else None)"

definition wit_ops :: "unit tlm_op list" where
  "wit_ops = [OpOnEvent () None, OpCreate ''g'' 1 None None,
              OpTransition 2 ''g'' SIMULATING (Some [(''fee'', JNum 7)]),
              OpFail 3 ''g'' (JErr ''TypeError'' ''boom'' []) None]"

definition wit_manager :: "unit TransactionLifecycleManager" where
  "wit_manager = tlm_run wit_beh tlm_new wit_ops"

lemmas tlm_eval = wit_ops_def wit_beh_def tlm_run_def tlm_new_def lee_new_def tlm_create_def
  tlm_transition_def tlm_fail_def tlm_onEvent_def lee_subscribe_def tlm_emit_def lee_emit_def
  lee_matchesFilter_def requireRecord_def assertTransition_def canTransition_def
  tlm_apply_transition_def cloneRecord_def opt_props_def obj_spread_def jm_has_def jprop_def
  toErrorInfo_def err_name_def err_message_def Let_def

definition wit_record :: TransactionLifecycleRecord where
  "wit_record = \<lparr>tlr_id = ''g'', tlr_state = FAILED, tlr_createdAt = 1, tlr_updatedAt = 3,
     tlr_history =
       [\<lparr>htr_from = None, htr_to = CREATED, htr_timestamp = 1, htr_details = None\<rparr>,
        \<lparr>htr_from = Some CREATED, htr_to = SIMULATING, htr_timestamp = 2,
         htr_details = Some [(''fee'', JNum 7)]\<rparr>,
        \<lparr>htr_from = Some SIMULATING, htr_to = FAILED, htr_timestamp = 3,
         htr_details = Some [(''error'', JErr ''TypeError'' ''boom'' [])]\<rparr>],
     tlr_metadata = [(''fee'', JNum 7), (''error'', JErr ''TypeError'' ''boom'' [])],
     tlr_error = Some (''TypeError'', ''boom'')\<rparr>"

lemma wit_get: "jm_get (tlm_records (tlm_run wit_beh tlm_new wit_ops)) ''g'' = Some wit_record"
  by (simp add: tlm_eval wit_record_def)

lemma tracked_history_is_path_witness:
  "tlr_id wit_record = ''g'' \<and> htr_timestamp (last (tlr_history wit_record)) = 3"
  using tracked_history_is_path [OF wit_get] by (simp add: wit_record_def)

text \<open>C5. A transition on an id that is not tracked, or one the protocol does not allow, raises and
  changes nothing. An allowed one sets the state, appends exactly one entry to the history and
  leaves every other record alone, also when a listener throws and the call itself raises.\<close>

theorem transition_behaviour:
  "case jm_get (tlm_records m) i of
     None \<Rightarrow> tlm_transition beh now i b d m = (m, [], Inl (TransactionNotTracked i))
   | Some r \<Rightarrow>
       (if canTransition (tlr_state r) b then
         let (m', called, res) = tlm_transition beh now i b d m;
             r' = tlm_apply_transition b now d r in
         jm_get (tlm_records m') = (jm_get (tlm_records m))(i := Some r')
         \<and> tlm_emitter m' = tlm_emitter m
         \<and> tlr_state r' = b
         \<and> map htr_to (tlr_history r') = map htr_to (tlr_history r) @ [b]
         \<and> (res = Inr (cloneRecord r') \<or> (\<exists>x. res = Inl (ListenerThrew x)))
        else tlm_transition beh now i b d m =
          (m, [], Inl (InvalidLifecycleTransition (tlr_state r) b)))"
proof (cases "jm_get (tlm_records m) i")
  case None
  then show ?thesis by (simp add: tlm_transition_def requireRecord_def)
next
  case (Some r)
  show ?thesis
  proof (cases "canTransition (tlr_state r) b")
    case False
    with Some show ?thesis
      by (simp add: tlm_transition_def requireRecord_def assertTransition_def)
  next
    case True
    let ?t = "tlm_transition beh now i b d m" and ?r = "tlm_apply_transition b now d r"
    have st: "fst ?t = m\<lparr>tlm_records := jm_set i ?r (tlm_records m)\<rparr>"
      using Some True by (simp add: tlm_transition_state)
    have res: "snd (snd ?t) = Inr (cloneRecord ?r) \<or> (\<exists>x. snd (snd ?t) = Inl (ListenerThrew x))"
      unfolding tlm_transition_def requireRecord_def assertTransition_def Let_def
      using Some True by (simp add: tlm_emit_result)
    obtain m' called w where t: "?t = (m', called, w)" by (cases ?t)
    have "map htr_to (tlr_history ?r) = map htr_to (tlr_history r) @ [b]"
      by (simp add: tlm_apply_transition_def)
    then show ?thesis using Some True st res by (simp add: t Let_def update_conv')
  qed
qed

text \<open>C30. A record in a terminal state is final: no sequence of operations changes it in any
  field, unless the sequence removes it.\<close>

theorem terminal_record_is_final:
  assumes "jm_get (tlm_records m) i = Some r" and "lc_isTerminal (tlr_state r)"
    and "\<not> list_ex (tlm_touches i) ops"
  shows "jm_get (tlm_records (tlm_run beh m ops)) i = Some r"
  using assms by (rule tlm_store_get_run)

lemma terminal_record_is_final_witness:
  "jm_get (tlm_records (tlm_run wit_beh (tlm_run wit_beh tlm_new wit_ops)
     [OpTransition 9 ''g'' SIMULATED None, OpFail 9 ''g'' JNull None, OpCreate ''g'' 9 None None]))
     ''g'' = Some wit_record"
  by (rule terminal_record_is_final [OF wit_get]) (simp_all add: wit_record_def tlm_touches_def)

text \<open>Every tracked transaction that has not failed can be brought to completion: taking the
  remaining states of the enum in order succeeds at each step, even with throwing listeners.\<close>

theorem completion_is_reachable:
  assumes "jm_get (tlm_records m) i = Some r" and "tlr_state r \<noteq> FAILED"
  shows "tlm_getStatus i (tlm_drive beh now i (drop (Suc (lc_rank (tlr_state r))) lc_order) m)
    = Inr COMPLETED"
proof -
  have "drop (lc_rank (tlr_state r)) lc_order =
      tlr_state r # drop (Suc (lc_rank (tlr_state r))) lc_order"
    using assms(2) by (cases "tlr_state r") (simp_all add: lc_order_def)
  from tlm_drive_reaches [OF assms(1) this, of beh now] show ?thesis
    by (auto simp: tlm_getStatus_def requireRecord_def)
qed

lemma completion_is_reachable_witness:
  "tlm_getStatus ''g'' (tlm_drive wit_beh 5 ''g'' (tl lc_order)
     (tlm_run wit_beh tlm_new [OpCreate ''g'' 1 None None])) = Inr COMPLETED"
  using completion_is_reachable
    [of "tlm_run wit_beh tlm_new [OpCreate ''g'' 1 None None]" "''g''"
        "\<lparr>tlr_id = ''g'', tlr_state = CREATED, tlr_createdAt = 1, tlr_updatedAt = 1,
         tlr_history = [\<lparr>htr_from = None, htr_to = CREATED, htr_timestamp = 1,
                         htr_details = None\<rparr>], tlr_metadata = [], tlr_error = None\<rparr>" wit_beh 5]
  by (simp add: tlm_eval drop_Suc)

end
