(* ===== verification/ConcQueue.thy ===== *)
theory ConcQueue
  imports SDK_Prelude
begin

text \<open>
  The concurrency limiter of the HTTP client (\<open>src/src/utils/concurrencyQueue.ts\<close>). Its
  callbacks are the events of a step relation: a caller enqueues a request, a queue timeout
  fires, a running request settles, the throttle timer fires, and the maintenance operations.
  Beside the fields of the class the state keeps what the promise runtime keeps and what is needed
  to state the contract: the running requests, the armed queue timeouts, the ids issued and
  started so far, and the outcome each promise was settled with. A request is assumed to return a promise (it does not throw before it yields), and
  a generated id to be fresh: that is the only premise a caller's event has.
\<close>

section \<open>State\<close>

record ConcurrencyConfig =
  ccf_maxConcurrentRequests :: nat
  ccf_queueTimeout :: nat
  ccf_enableThrottling :: bool
  ccf_throttleRate :: nat
  ccf_throttleInterval :: int

record ConcurrencyConfigPatch =
  ccp_maxConcurrentRequests :: "nat option"
  ccp_queueTimeout :: "nat option"
  ccp_enableThrottling :: "bool option"
  ccp_throttleRate :: "nat option"
  ccp_throttleInterval :: "int option"

definition opt_or :: "'a option \<Rightarrow> 'a \<Rightarrow> 'a" where
  "opt_or a d = (case a of None \<Rightarrow> d | Some x \<Rightarrow> x)"

definition ccf_merge :: "ConcurrencyConfig \<Rightarrow> ConcurrencyConfigPatch \<Rightarrow> ConcurrencyConfig" where
  "ccf_merge c p =
    \<lparr>ccf_maxConcurrentRequests = opt_or (ccp_maxConcurrentRequests p) (ccf_maxConcurrentRequests c),
     ccf_queueTimeout = opt_or (ccp_queueTimeout p) (ccf_queueTimeout c),
     ccf_enableThrottling = opt_or (ccp_enableThrottling p) (ccf_enableThrottling c),
     ccf_throttleRate = opt_or (ccp_throttleRate p) (ccf_throttleRate c),
     ccf_throttleInterval = opt_or (ccp_throttleInterval p) (ccf_throttleInterval c)\<rparr>"

definition cq_default_config :: "nat \<Rightarrow> ConcurrencyConfig" where
  "cq_default_config n =
    \<lparr>ccf_maxConcurrentRequests = n, ccf_queueTimeout = 30000, ccf_enableThrottling = False,
     ccf_throttleRate = 10, ccf_throttleInterval = 1000\<rparr>"

definition DEFAULT_CONCURRENCY_CONFIG :: ConcurrencyConfigPatch where
  "DEFAULT_CONCURRENCY_CONFIG =
    \<lparr>ccp_maxConcurrentRequests = Some 5, ccp_queueTimeout = Some 30000,
     ccp_enableThrottling = None, ccp_throttleRate = None, ccp_throttleInterval = None\<rparr>"

record QueuedRequest =
  q_id :: string
  q_timestamp :: int
  q_timed :: bool

datatype 'v cq_outcome =
    QResolved 'v
  | QRejected jsv
  | QTimedOut nat
  | QCleared

record 'v ConcurrencyQueue =
  cq_active :: nat
  cq_queue :: "QueuedRequest list"
  cq_config :: ConcurrencyConfig
  cq_throttleTimer :: "int option"
  cq_inInterval :: nat
  cq_lastReset :: int
  cq_running :: "string list"
  cq_armed :: "string list"
  cq_issued :: "string list"
  cq_started :: "string list"
  cq_settled :: "(string \<times> 'v cq_outcome) list"

definition cq_new :: "ConcurrencyConfigPatch \<Rightarrow> int \<Rightarrow> 'v ConcurrencyQueue" where
  "cq_new p now =
    \<lparr>cq_active = 0, cq_queue = [], cq_config = ccf_merge (cq_default_config 0) p,
     cq_throttleTimer = None, cq_inInterval = 0, cq_lastReset = now, cq_running = [],
     cq_armed = [], cq_issued = [], cq_started = [], cq_settled = []\<rparr>"

abbreviation cq_max :: "'v ConcurrencyQueue \<Rightarrow> nat" where
  "cq_max s \<equiv> ccf_maxConcurrentRequests (cq_config s)"

abbreviation cq_ids :: "'v ConcurrencyQueue \<Rightarrow> string list" where
  "cq_ids s \<equiv> map q_id (cq_queue s)"

section \<open>Operations\<close>

definition cq_isThrottled :: "int \<Rightarrow> 'v ConcurrencyQueue \<Rightarrow> 'v ConcurrencyQueue \<times> bool" where
  "cq_isThrottled now s =
    (if now - cq_lastReset s \<ge> ccf_throttleInterval (cq_config s)
     then (s\<lparr>cq_inInterval := 0, cq_lastReset := now\<rparr>, False)
     else (s, cq_inInterval s \<ge> ccf_throttleRate (cq_config s)))"

definition cq_scheduleNextProcess :: "int \<Rightarrow> 'v ConcurrencyQueue \<Rightarrow> 'v ConcurrencyQueue" where
  "cq_scheduleNextProcess now s =
    s\<lparr>cq_throttleTimer :=
        Some (now + max 0 (ccf_throttleInterval (cq_config s) - (now - cq_lastReset s)))\<rparr>"

definition cq_launch :: "QueuedRequest \<Rightarrow> 'v ConcurrencyQueue \<Rightarrow> 'v ConcurrencyQueue" where
  "cq_launch r s =
    s\<lparr>cq_queue := tl (cq_queue s),
      cq_armed := (if q_timed r then removeAll (q_id r) (cq_armed s) else cq_armed s),
      cq_active := Suc (cq_active s),
      cq_inInterval := Suc (cq_inInterval s),
      cq_running := cq_running s @ [q_id r],
      cq_started := cq_started s @ [q_id r]\<rparr>"

function cq_drain :: "'v ConcurrencyQueue \<Rightarrow> 'v ConcurrencyQueue" where
  "cq_drain s =
    (if cq_active s < cq_max s \<and> cq_queue s \<noteq> [] then cq_drain (cq_launch (hd (cq_queue s)) s)
     else s)"
  by auto
termination
  by (relation "measure (\<lambda>s. length (cq_queue s))") (auto simp: cq_launch_def)

declare cq_drain.simps [simp del]

definition cq_processQueue :: "int \<Rightarrow> 'v ConcurrencyQueue \<Rightarrow> 'v ConcurrencyQueue" where
  "cq_processQueue now s =
    (if ccf_enableThrottling (cq_config s) then
       (let (s', t) = cq_isThrottled now s in
        if t then cq_scheduleNextProcess now s' else cq_drain s')
     else cq_drain s)"

definition cq_execute :: "string \<Rightarrow> int \<Rightarrow> 'v ConcurrencyQueue \<Rightarrow> 'v ConcurrencyQueue" where
  "cq_execute i now s =
    (let timed = ccf_queueTimeout (cq_config s) \<noteq> 0 in
     cq_processQueue now
       (s\<lparr>cq_queue := cq_queue s @ [\<lparr>q_id = i, q_timestamp = now, q_timed = timed\<rparr>],
          cq_armed := (if timed then cq_armed s @ [i] else cq_armed s),
          cq_issued := cq_issued s @ [i]\<rparr>))"

fun cq_splice :: "string \<Rightarrow> QueuedRequest list \<Rightarrow> QueuedRequest list" where
  "cq_splice i [] = []"
| "cq_splice i (r # rs) = (if q_id r = i then rs else r # cq_splice i rs)"

definition cq_removeFromQueue :: "string \<Rightarrow> 'v ConcurrencyQueue \<Rightarrow> 'v ConcurrencyQueue" where
  "cq_removeFromQueue i s =
    s\<lparr>cq_queue := cq_splice i (cq_queue s), cq_armed := removeAll i (cq_armed s)\<rparr>"

definition cq_settle :: "string \<Rightarrow> 'v cq_outcome \<Rightarrow> 'v ConcurrencyQueue \<Rightarrow> 'v ConcurrencyQueue" where
  "cq_settle i x s = s\<lparr>cq_settled := cq_settled s @ [(i, x)]\<rparr>"

definition cq_on_timeout :: "string \<Rightarrow> 'v ConcurrencyQueue \<Rightarrow> 'v ConcurrencyQueue" where
  "cq_on_timeout i s =
    cq_settle i (QTimedOut (ccf_queueTimeout (cq_config s))) (cq_removeFromQueue i s)"

definition cq_on_finish ::
    "string \<Rightarrow> jsv + 'v \<Rightarrow> int \<Rightarrow> 'v ConcurrencyQueue \<Rightarrow> 'v ConcurrencyQueue" where
  "cq_on_finish i res now s =
    (let s1 = cq_settle i (case res of Inl e \<Rightarrow> QRejected e | Inr v \<Rightarrow> QResolved v) s in
     cq_processQueue now
       (s1\<lparr>cq_active := cq_active s1 - 1, cq_running := remove1 i (cq_running s1)\<rparr>))"

definition cq_on_throttle :: "int \<Rightarrow> 'v ConcurrencyQueue \<Rightarrow> 'v ConcurrencyQueue" where
  "cq_on_throttle now s = cq_processQueue now (s\<lparr>cq_throttleTimer := None\<rparr>)"

definition cq_clearQueue :: "'v ConcurrencyQueue \<Rightarrow> 'v ConcurrencyQueue" where
  "cq_clearQueue s =
    s\<lparr>cq_throttleTimer := None,
      cq_armed := filter (\<lambda>i. i \<notin> set (map q_id (filter q_timed (cq_queue s)))) (cq_armed s),
      cq_settled := cq_settled s @ map (\<lambda>r. (q_id r, QCleared)) (cq_queue s),
      cq_queue := []\<rparr>"

definition cq_updateConfig ::
    "ConcurrencyConfigPatch \<Rightarrow> 'v ConcurrencyQueue \<Rightarrow> 'v ConcurrencyQueue" where
  "cq_updateConfig p s = s\<lparr>cq_config := ccf_merge (cq_config s) p\<rparr>"

definition cq_destroy :: "'v ConcurrencyQueue \<Rightarrow> 'v ConcurrencyQueue" where
  "cq_destroy s = (cq_clearQueue s)\<lparr>cq_throttleTimer := None\<rparr>"

text \<open>Statistics. A fraction is given by its numerator and denominator.\<close>

record cq_stats =
  st_activeRequests :: nat
  st_queuedRequests :: nat
  st_config :: ConcurrencyConfig
  st_requestsInCurrentInterval :: nat
  st_timeUntilNextThrottleReset :: int
  st_queueTimestamps :: "int list"

definition cq_getStats :: "int \<Rightarrow> 'v ConcurrencyQueue \<Rightarrow> cq_stats" where
  "cq_getStats now s =
    \<lparr>st_activeRequests = cq_active s, st_queuedRequests = length (cq_queue s),
     st_config = cq_config s, st_requestsInCurrentInterval = cq_inInterval s,
     st_timeUntilNextThrottleReset =
       max 0 (ccf_throttleInterval (cq_config s) - (now - cq_lastReset s)),
     st_queueTimestamps = map q_timestamp (cq_queue s)\<rparr>"

record cq_status =
  ss_stats :: cq_stats
  ss_oldestRequestWaitTime :: int
  ss_averageWaitTime :: "int \<times> nat"
  ss_isThrottled :: bool
  ss_utilizationRate :: "nat \<times> nat"

definition cq_getQueueStatus ::
    "int \<Rightarrow> 'v ConcurrencyQueue \<Rightarrow> 'v ConcurrencyQueue \<times> cq_status" where
  "cq_getQueueStatus now s =
    (let st = cq_getStats now s; q = cq_queue s;
         (s', t) = (if ccf_enableThrottling (cq_config s) then cq_isThrottled now s else (s, False)) in
     (s', \<lparr>ss_stats = st,
           ss_oldestRequestWaitTime =
             (case map q_timestamp q of [] \<Rightarrow> 0 | t # ts \<Rightarrow> now - foldl min t ts),
           ss_averageWaitTime =
             (if q = [] then (0, 1) else (sum_list (map (\<lambda>r. now - q_timestamp r) q), length q)),
           ss_isThrottled = t,
           ss_utilizationRate = (cq_active s * 100, cq_max s)\<rparr>))"

section \<open>Steps\<close>

datatype 'v cq_event =
    QExecute string int
  | QTimeout string
  | QFinish string "jsv + 'v" int
  | QThrottle int
  | QClear
  | QDestroy
  | QUpdate ConcurrencyConfigPatch
  | QStatus int

inductive cq_step :: "'v ConcurrencyQueue \<Rightarrow> 'v cq_event \<Rightarrow> 'v ConcurrencyQueue \<Rightarrow> bool" where
  execute: "i \<notin> set (cq_issued s) \<Longrightarrow> cq_step s (QExecute i now) (cq_execute i now s)"
| timeout: "i \<in> set (cq_armed s) \<Longrightarrow> cq_step s (QTimeout i) (cq_on_timeout i s)"
| finish: "i \<in> set (cq_running s) \<Longrightarrow> cq_step s (QFinish i r now) (cq_on_finish i r now s)"
| throttle: "cq_throttleTimer s \<noteq> None \<Longrightarrow> cq_step s (QThrottle now) (cq_on_throttle now s)"
| clear: "cq_step s QClear (cq_clearQueue s)"
| destroy: "cq_step s QDestroy (cq_destroy s)"
| update: "cq_step s (QUpdate p) (cq_updateConfig p s)"
| status: "cq_step s (QStatus now) (fst (cq_getQueueStatus now s))"

inductive_cases cq_stepE: "cq_step s e s'"

inductive cq_reach :: "'v ConcurrencyQueue \<Rightarrow> bool" where
  new: "cq_reach (cq_new p now)"
| step: "cq_reach s \<Longrightarrow> cq_step s e s' \<Longrightarrow> cq_reach s'"

section \<open>The invariant\<close>

definition cq_ran :: "'v cq_outcome \<Rightarrow> bool" where
  "cq_ran x = (case x of QResolved _ \<Rightarrow> True | QRejected _ \<Rightarrow> True | _ \<Rightarrow> False)"

definition cq_ran_ids :: "'v ConcurrencyQueue \<Rightarrow> string list" where
  "cq_ran_ids s = map fst (filter (\<lambda>(i, x). cq_ran x) (cq_settled s))"

definition cq_inv :: "'v ConcurrencyQueue \<Rightarrow> bool" where
  "cq_inv s \<longleftrightarrow>
    cq_active s = length (cq_running s)
    \<and> distinct (cq_ids s @ cq_running s @ map fst (cq_settled s))
    \<and> set (cq_issued s) = set (cq_ids s @ cq_running s @ map fst (cq_settled s))
    \<and> set (cq_armed s) \<subseteq> set (map q_id (filter q_timed (cq_queue s)))
    \<and> subseq (cq_started s @ cq_ids s) (cq_issued s)
    \<and> set (cq_started s) = set (cq_running s) \<union> set (cq_ran_ids s)
    \<and> distinct (cq_started s)"

lemma cq_invI:
  assumes "cq_active s = length (cq_running s)"
    "distinct (cq_ids s @ cq_running s @ map fst (cq_settled s))"
    "set (cq_issued s) = set (cq_ids s @ cq_running s @ map fst (cq_settled s))"
    "set (cq_armed s) \<subseteq> set (map q_id (filter q_timed (cq_queue s)))"
    "subseq (cq_started s @ cq_ids s) (cq_issued s)"
    "set (cq_started s) = set (cq_running s) \<union> set (cq_ran_ids s)"
    "distinct (cq_started s)"
  shows "cq_inv s"
  using assms unfolding cq_inv_def by blast

lemma cq_splice_absent: "i \<notin> q_id ` set q \<Longrightarrow> cq_splice i q = q"
  by (induction q) auto

lemma cq_splice_filter: "distinct (map q_id q) \<Longrightarrow> cq_splice i q = filter (\<lambda>r. q_id r \<noteq> i) q"
proof (induction q)
  case (Cons r rs)
  have "filter (\<lambda>r. q_id r \<noteq> i) rs = rs" if "q_id r = i"
    using Cons.prems that by (auto simp: filter_id_conv) (metis image_eqI)
  then show ?case using Cons by (cases "q_id r = i") auto
qed simp

lemma cq_ran_ids_sub: "set (cq_ran_ids s) \<subseteq> set (map fst (cq_settled s))"
  by (auto simp: cq_ran_ids_def)

lemma cq_inv_launch:
  assumes "cq_inv s" "cq_queue s = r # rs"
  shows "cq_inv (cq_launch r s)"
proof (rule cq_invI)
  have d: "distinct (q_id r # map q_id rs @ cq_running s @ map fst (cq_settled s))"
    and armed: "set (cq_armed s) \<subseteq> set (map q_id (filter q_timed (r # rs)))"
    and sub: "subseq (cq_started s @ q_id r # map q_id rs) (cq_issued s)"
    and st: "set (cq_started s) = set (cq_running s) \<union> set (cq_ran_ids s)"
    using assms by (simp_all add: cq_inv_def)
  show "set (cq_armed (cq_launch r s)) \<subseteq> set (map q_id (filter q_timed (cq_queue (cq_launch r s))))"
    using armed d by (auto simp: cq_launch_def assms(2))
  show "distinct (cq_started (cq_launch r s))"
    using assms d st cq_ran_ids_sub [of s] by (auto simp: cq_launch_def cq_inv_def)
  show "subseq (cq_started (cq_launch r s) @ cq_ids (cq_launch r s)) (cq_issued (cq_launch r s))"
    using sub by (simp add: cq_launch_def assms(2))
qed (use assms in \<open>auto simp: cq_launch_def cq_inv_def cq_ran_ids_def\<close>)

lemma cq_inv_drain: "cq_inv s \<Longrightarrow> cq_inv (cq_drain s)"
proof (induction s rule: cq_drain.induct)
  case (1 s)
  then show ?case
    by (subst cq_drain.simps) (cases "cq_queue s"; simp add: cq_inv_launch)
qed

lemma cq_inv_throttled: "cq_inv s \<Longrightarrow> cq_inv (fst (cq_isThrottled now s))"
  by (simp add: cq_isThrottled_def cq_inv_def cq_ran_ids_def)

lemma cq_inv_timer: "cq_inv s \<Longrightarrow> cq_inv (s\<lparr>cq_throttleTimer := t\<rparr>)"
  by (simp add: cq_inv_def cq_ran_ids_def)

lemma cq_inv_process: "cq_inv s \<Longrightarrow> cq_inv (cq_processQueue now s)"
  using cq_inv_throttled [of s now]
  by (auto simp: cq_processQueue_def cq_inv_drain cq_scheduleNextProcess_def cq_inv_timer
           split: prod.split)

lemma cq_inv_execute:
  assumes "cq_inv s" "i \<notin> set (cq_issued s)"
  shows "cq_inv (cq_execute i now s)"
  unfolding cq_execute_def Let_def
proof (rule cq_inv_process, rule cq_invI, goal_cases)
  case 5
  then show ?case
    using assms(1) subseq_append [of "cq_started s @ cq_ids s" "[i]" "cq_issued s"]
    by (simp add: cq_inv_def)
qed (use assms in \<open>auto simp: cq_inv_def cq_ran_ids_def\<close>)

lemma subseq_drop_mid: "subseq (xs @ filter P ys) (xs @ ys)"
  by (simp add: subseq_append' subseq_filter_left)

lemma cq_inv_timeout:
  assumes "cq_inv s" "i \<in> set (cq_armed s)"
  shows "cq_inv (cq_on_timeout i s)"
proof (rule cq_invI)
  have d: "distinct (cq_ids s @ cq_running s @ map fst (cq_settled s))"
    and sub: "subseq (cq_started s @ cq_ids s) (cq_issued s)"
    and armed: "set (cq_armed s) \<subseteq> set (map q_id (filter q_timed (cq_queue s)))"
    using assms by (simp_all add: cq_inv_def)
  have i: "i \<in> set (cq_ids s)" using armed assms(2) by auto
  have sp: "cq_splice i (cq_queue s) = filter (\<lambda>r. q_id r \<noteq> i) (cq_queue s)"
    using d by (simp add: cq_splice_filter)
  have sp': "map q_id (filter (\<lambda>r. q_id r \<noteq> i) (cq_queue s)) = filter (\<lambda>j. j \<noteq> i) (cq_ids s)"
    by (simp add: filter_map o_def)
  show "subseq (cq_started (cq_on_timeout i s) @ cq_ids (cq_on_timeout i s))
      (cq_issued (cq_on_timeout i s))"
    using sub subseq_drop_mid [of "cq_started s" "\<lambda>j. j \<noteq> i" "cq_ids s"]
    by (simp add: cq_on_timeout_def cq_settle_def cq_removeFromQueue_def sp sp')
  show "distinct (cq_ids (cq_on_timeout i s) @ cq_running (cq_on_timeout i s)
      @ map fst (cq_settled (cq_on_timeout i s)))"
    using d i by (auto simp: cq_on_timeout_def cq_settle_def cq_removeFromQueue_def sp sp')
  show "set (cq_issued (cq_on_timeout i s)) = set (cq_ids (cq_on_timeout i s)
      @ cq_running (cq_on_timeout i s) @ map fst (cq_settled (cq_on_timeout i s)))"
    using assms(1) i
    by (auto simp: cq_on_timeout_def cq_settle_def cq_removeFromQueue_def sp cq_inv_def)
qed (use assms in \<open>auto simp: cq_on_timeout_def cq_settle_def cq_removeFromQueue_def cq_inv_def
      cq_ran_ids_def cq_ran_def cq_splice_filter\<close>)

lemma cq_inv_finish:
  assumes "cq_inv s" "i \<in> set (cq_running s)"
  shows "cq_inv (cq_on_finish i r now s)"
  unfolding cq_on_finish_def Let_def
proof (rule cq_inv_process, rule cq_invI, goal_cases)
  case 1
  then show ?case using assms by (simp add: cq_inv_def cq_settle_def length_remove1)
next
  case 2
  then show ?case using assms by (auto simp: cq_inv_def cq_settle_def dest: notin_set_remove1)
next
  case 3
  have "distinct (cq_running s)" using assms(1) by (simp add: cq_inv_def)
  then show ?case using assms by (auto simp: cq_inv_def cq_settle_def)
next
  case 6
  have "distinct (cq_running s)" using assms(1) by (simp add: cq_inv_def)
  then show ?case
    using assms by (auto simp: cq_inv_def cq_settle_def cq_ran_ids_def cq_ran_def split: sum.split)
qed (use assms in \<open>auto simp: cq_inv_def cq_settle_def\<close>)

lemma cq_inv_clear: "cq_inv s \<Longrightarrow> cq_inv (cq_clearQueue s)"
proof (rule cq_invI, goal_cases)
  case 5
  then show ?case
    by (auto simp: cq_inv_def cq_clearQueue_def intro: subseq_order.order_trans)
qed (auto simp: cq_inv_def cq_clearQueue_def cq_ran_ids_def cq_ran_def o_def)

lemma cq_inv_step: "cq_step s e s' \<Longrightarrow> cq_inv s \<Longrightarrow> cq_inv s'"
proof (induction rule: cq_step.induct)
  case (status s now)
  then show ?case using cq_inv_throttled [of s now]
    by (cases "cq_isThrottled now s") (simp add: cq_getQueueStatus_def Let_def)
next
  case (update s p)
  then show ?case by (simp add: cq_updateConfig_def cq_inv_def cq_ran_ids_def)
qed (auto simp: cq_inv_execute cq_inv_timeout cq_inv_finish cq_inv_clear cq_on_throttle_def
       cq_inv_process cq_inv_timer cq_destroy_def)

lemma cq_inv_reach: "cq_reach s \<Longrightarrow> cq_inv s"
proof (induction rule: cq_reach.induct)
  case (new p now)
  then show ?case by (simp add: cq_new_def cq_inv_def cq_ran_ids_def)
qed (rule cq_inv_step)

section \<open>Concurrency limit and wake-ups\<close>

lemma cq_launch_simps [simp]:
  "cq_active (cq_launch r s) = Suc (cq_active s)"
  "cq_queue (cq_launch r s) = tl (cq_queue s)"
  "cq_config (cq_launch r s) = cq_config s"
  "cq_throttleTimer (cq_launch r s) = cq_throttleTimer s"
  "cq_started (cq_launch r s) = cq_started s @ [q_id r]"
  by (simp_all add: cq_launch_def)

lemma cq_drain_stop: "cq_max s \<le> cq_active s \<or> cq_queue s = [] \<Longrightarrow> cq_drain s = s"
  by (subst cq_drain.simps) auto

lemma cq_drain_step:
  "cq_active s < cq_max s \<Longrightarrow> cq_queue s = r # rs \<Longrightarrow> cq_drain s = cq_drain (cq_launch r s)"
  by (subst cq_drain.simps) simp

lemma cq_drain_induct [case_names stop step]:
  assumes "\<And>s. cq_max s \<le> cq_active s \<or> cq_queue s = [] \<Longrightarrow> P s"
    and "\<And>s r rs. cq_active s < cq_max s \<Longrightarrow> cq_queue s = r # rs \<Longrightarrow> P (cq_launch r s) \<Longrightarrow> P s"
  shows "P s"
proof (induction s rule: cq_drain.induct)
  case (1 s)
  then show ?case
    using assms(1) [of s] assms(2) [of s] by (cases "cq_queue s") force+
qed

lemma cq_config_drain [simp]:
  "cq_config (cq_drain s) = cq_config s" "cq_throttleTimer (cq_drain s) = cq_throttleTimer s"
  by (induction s rule: cq_drain_induct) (simp_all add: cq_drain_stop cq_drain_step)

lemma cq_config_throttled [simp]:
  "cq_config (fst (cq_isThrottled now s)) = cq_config s"
  "cq_active (fst (cq_isThrottled now s)) = cq_active s"
  "cq_queue (fst (cq_isThrottled now s)) = cq_queue s"
  "cq_throttleTimer (fst (cq_isThrottled now s)) = cq_throttleTimer s"
  by (simp_all add: cq_isThrottled_def)

lemma cq_drain_active:
  "cq_active (cq_drain s) = (if cq_active s < cq_max s
     then min (cq_max s) (cq_active s + length (cq_queue s)) else cq_active s)"
  by (induction s rule: cq_drain_induct) (auto simp: cq_drain_stop cq_drain_step)

lemma cq_drain_queue: "cq_queue (cq_drain s) = drop (cq_max s - cq_active s) (cq_queue s)"
proof (induction s rule: cq_drain_induct)
  case (step s r rs)
  then obtain k where "cq_max s - cq_active s = Suc k" "cq_max s - Suc (cq_active s) = k"
    by (metis Suc_diff_Suc)
  with step show ?case by (simp add: cq_drain_step)
qed (auto simp: cq_drain_stop)

definition cq_awake :: "'v ConcurrencyQueue \<Rightarrow> bool" where
  "cq_awake s \<longleftrightarrow> cq_active s \<le> cq_max s
    \<and> (cq_queue s = [] \<or> cq_active s = cq_max s \<or> cq_throttleTimer s \<noteq> None)"

lemma cq_awake_drain: "cq_active s \<le> cq_max s \<Longrightarrow> cq_awake (cq_drain s)"
  by (auto simp: cq_awake_def cq_drain_active cq_drain_queue)

lemma cq_awake_process: "cq_active s \<le> cq_max s \<Longrightarrow> cq_awake (cq_processQueue now s)"
  using cq_config_throttled [of now s] cq_awake_drain [of "fst (cq_isThrottled now s)"]
  by (cases "cq_isThrottled now s")
     (simp add: cq_processQueue_def cq_awake_drain, simp add: cq_scheduleNextProcess_def cq_awake_def)

lemma cq_processQueue_config [simp]: "cq_config (cq_processQueue now s) = cq_config s"
  using cq_config_throttled(1) [of now s]
  by (cases "cq_isThrottled now s") (simp add: cq_processQueue_def cq_scheduleNextProcess_def)

lemma cq_length_splice: "length (cq_splice i q) \<le> length q"
  by (induction q) auto

lemma cq_awakeD: "cq_awake s \<Longrightarrow> cq_active s \<le> cq_max s"
  by (simp add: cq_awake_def)

lemma cq_awake_step:
  assumes "cq_step s e s'" "cq_awake s" "\<nexists>p. e = QUpdate p"
  shows "cq_awake s' \<and> cq_config s' = cq_config s"
  using assms
proof (cases rule: cq_step.cases)
  case (execute i now)
  with cq_awakeD [OF assms(2)] show ?thesis
    by (simp add: cq_execute_def Let_def cq_awake_process)
next
  case (finish i r now)
  with cq_awakeD [OF assms(2)] show ?thesis
    by (simp add: cq_on_finish_def cq_settle_def Let_def cq_awake_process)
next
  case (throttle now)
  with cq_awakeD [OF assms(2)] show ?thesis
    by (simp add: cq_on_throttle_def cq_awake_process)
next
  case (timeout i)
  then show ?thesis using assms(2)
    by (auto simp: cq_on_timeout_def cq_settle_def cq_removeFromQueue_def cq_awake_def)
next
  case (status now)
  then show ?thesis using assms(2) cq_config_throttled [of now s]
    by (cases "cq_isThrottled now s")
       (auto simp: cq_getQueueStatus_def Let_def cq_awake_def split: if_splits)
qed (auto simp: cq_clearQueue_def cq_destroy_def cq_awake_def)

text \<open>Runs in which the configuration is not changed.\<close>

inductive cq_steady :: "'v ConcurrencyQueue \<Rightarrow> bool" where
  new: "cq_steady (cq_new p now)"
| step: "cq_steady s \<Longrightarrow> cq_step s e s' \<Longrightarrow> \<nexists>p. e = QUpdate p \<Longrightarrow> cq_steady s'"

lemma cq_steady_awake: "cq_steady s \<Longrightarrow> cq_awake s"
proof (induction rule: cq_steady.induct)
  case (new p now)
  then show ?case by (simp add: cq_awake_def cq_new_def)
qed (simp add: cq_awake_step)

lemma cq_steady_reach: "cq_steady s \<Longrightarrow> cq_reach s"
  by (induction rule: cq_steady.induct) (auto intro: cq_reach.intros)

lemma cq_drain_started:
  "cq_started (cq_drain s) = cq_started s @ take (cq_max s - cq_active s) (cq_ids s)"
proof (induction s rule: cq_drain_induct)
  case (step s r rs)
  then obtain k where "cq_max s - cq_active s = Suc k" "cq_max s - Suc (cq_active s) = k"
    by (metis Suc_diff_Suc)
  with step show ?case by (simp add: cq_drain_step)
qed (auto simp: cq_drain_stop)

section \<open>Properties\<close>

text \<open>C2. In every reachable state the counter of active requests is the number of running ones;
  every id issued is in exactly one place, waiting, running or settled once; requests start in the
  order in which they were submitted, ahead of those still waiting; and a request that timed out
  in the queue or was cancelled never ran and is not waiting.\<close>

theorem queue_contract:
  assumes "cq_reach s"
  shows "cq_active s = length (cq_running s)
    \<and> distinct (cq_ids s @ cq_running s @ map fst (cq_settled s))
    \<and> set (cq_issued s) = set (cq_ids s @ cq_running s @ map fst (cq_settled s))
    \<and> subseq (cq_started s @ cq_ids s) (cq_issued s)
    \<and> (\<nexists>i x. (i, x) \<in> set (cq_settled s) \<and> \<not> cq_ran x \<and> i \<in> set (cq_started s @ cq_ids s))"
proof -
  note inv = cq_inv_reach [OF assms, unfolded cq_inv_def]
  have "i \<notin> set (cq_started s @ cq_ids s)" if "(i, x) \<in> set (cq_settled s)" "\<not> cq_ran x" for i x
  proof
    assume "i \<in> set (cq_started s @ cq_ids s)"
    moreover have "i \<in> set (map fst (cq_settled s))" using that(1) by force
    ultimately have "i \<in> set (cq_ran_ids s)" using inv by auto
    then obtain y where "(i, y) \<in> set (cq_settled s)" "cq_ran y" by (auto simp: cq_ran_ids_def)
    moreover have "distinct (map fst (cq_settled s))" using inv by simp
    ultimately show False using that by (metis eq_key_imp_eq_value)
  qed
  then show ?thesis using inv by blast
qed

definition wit_patch :: ConcurrencyConfigPatch where
  "wit_patch = \<lparr>ccp_maxConcurrentRequests = Some 5, ccp_queueTimeout = None,
     ccp_enableThrottling = Some True, ccp_throttleRate = Some 1, ccp_throttleInterval = None\<rparr>"

definition wit_queue :: "nat ConcurrencyQueue" where
  "wit_queue = cq_on_throttle 1000 (cq_execute ''d'' 2 (cq_execute ''c'' 2 (cq_execute ''b'' 1
     (cq_execute ''a'' 0 (cq_new wit_patch 0)))))"

lemmas cq_eval = cq_new_def cq_execute_def cq_on_throttle_def cq_processQueue_def cq_isThrottled_def
  cq_scheduleNextProcess_def cq_launch_def wit_patch_def ccf_merge_def cq_default_config_def
  opt_or_def Let_def cq_drain.simps

lemma wit_queue_eval:
  "wit_queue = \<lparr>cq_active = 4, cq_queue = [], cq_config =
     \<lparr>ccf_maxConcurrentRequests = 5, ccf_queueTimeout = 30000, ccf_enableThrottling = True,
      ccf_throttleRate = 1, ccf_throttleInterval = 1000\<rparr>, cq_throttleTimer = None,
     cq_inInterval = 3, cq_lastReset = 1000, cq_running = [''a'', ''b'', ''c'', ''d''],
     cq_armed = [], cq_issued = [''a'', ''b'', ''c'', ''d''],
     cq_started = [''a'', ''b'', ''c'', ''d''], cq_settled = []\<rparr>"
  by (simp add: wit_queue_def cq_eval)

lemma wit_queue_steady: "cq_steady wit_queue"
proof -
  let ?a = "cq_execute ''a'' 0 (cq_new wit_patch 0) :: nat ConcurrencyQueue"
  let ?b = "cq_execute ''b'' 1 ?a" and ?c = "cq_execute ''c'' 2 (cq_execute ''b'' 1 ?a)"
  let ?d = "cq_execute ''d'' 2 ?c"
  have a: "cq_steady ?a"
    by (rule cq_steady.step [OF cq_steady.new cq_step.execute]) (simp_all add: cq_eval)
  have b: "cq_steady ?b"
    by (rule cq_steady.step [OF a cq_step.execute]) (simp_all add: cq_eval)
  have c: "cq_steady ?c"
    by (rule cq_steady.step [OF b cq_step.execute]) (simp_all add: cq_eval)
  have d: "cq_steady ?d"
    by (rule cq_steady.step [OF c cq_step.execute]) (simp_all add: cq_eval)
  show ?thesis unfolding wit_queue_def
    by (rule cq_steady.step [OF d cq_step.throttle]) (simp_all add: cq_eval)
qed

lemma queue_contract_witness: "cq_active wit_queue = length (cq_running wit_queue)"
  using queue_contract [OF cq_steady_reach [OF wit_queue_steady]] by simp

text \<open>C3. While the configuration is not changed, at most the configured number of requests runs,
  and no wake-up is lost: when a request waits, either all slots are taken, so that a finishing
  request takes it up, or the throttle timer is set.\<close>

theorem limit_and_no_lost_wakeup:
  assumes "cq_steady s"
  shows "cq_active s \<le> cq_max s
    \<and> (cq_queue s = [] \<or> cq_active s = cq_max s \<or> cq_throttleTimer s \<noteq> None)"
  using cq_steady_awake [OF assms] by (simp add: cq_awake_def)

lemma limit_and_no_lost_wakeup_witness: "cq_active wit_queue \<le> cq_max wit_queue"
  using limit_and_no_lost_wakeup [OF wit_queue_steady] by simp

text \<open>Without throttling, processing the queue starts exactly the requests that fit, in queue
  order, and leaves the rest in order.\<close>

theorem process_starts_what_fits:
  assumes "\<not> ccf_enableThrottling (cq_config s)"
  shows "cq_started (cq_processQueue now s) = cq_started s @ take (cq_max s - cq_active s) (cq_ids s)
    \<and> cq_queue (cq_processQueue now s) = drop (cq_max s - cq_active s) (cq_queue s)"
  using assms by (simp add: cq_processQueue_def cq_drain_started cq_drain_queue)

lemma process_starts_what_fits_witness:
  "cq_queue (cq_processQueue 7 (cq_new wit_patch 0\<lparr>cq_config := cq_default_config 1,
     cq_queue := [\<lparr>q_id = ''a'', q_timestamp = 0, q_timed = True\<rparr>,
                  \<lparr>q_id = ''b'', q_timestamp = 0, q_timed = True\<rparr>]\<rparr>)) =
   [\<lparr>q_id = ''b'', q_timestamp = 0, q_timed = True\<rparr>]"
  by (subst process_starts_what_fits [THEN conjunct2])
     (simp_all add: cq_default_config_def cq_new_def)

text \<open>The throttle is checked once per round and not per request, so a reachable state has
  started more requests in the current interval than the configured rate allows.\<close>

theorem throttle_rate_exceeded:
  "\<exists>s :: nat ConcurrencyQueue. cq_steady s \<and> ccf_enableThrottling (cq_config s)
     \<and> cq_inInterval s > ccf_throttleRate (cq_config s)"
proof (intro exI conjI)
  show "cq_steady wit_queue" by (rule wit_queue_steady)
qed (simp_all add: wit_queue_eval)

end
