(* ===== verification/Errors.thy ===== *)
theory Errors
  imports SDK_Prelude
begin

text \<open>
  The SDK's errors (\<open>src/src/errors/axionveraError.ts\<close>): the class hierarchy, the readers
  that dig a status code, a request id and a message out of an arbitrary thrown value, and the
  functions that normalize one to an SDK error. A thrown value is an SDK error or a raw
  JavaScript value. The \<open>get\<close> method that a headers object of the HTTP client may have is the
  parameter \<open>hget\<close>: \<open>hget h = None\<close> when \<open>h.get\<close> is not a function.
\<close>

section \<open>Classes\<close>

datatype ValidationKind = KParams | KResult

record ValidationIssue =
  vi_path :: string
  vi_message :: string
  vi_received :: jsv

datatype ax_class =
    CAxionveraError
  | CNetworkError
  | CAuthenticationError
  | CRateLimitError
  | CValidationError
  | CTransactionError
  | CRpcError
  | CContractError
  | CTimeoutError
  | CTransactionTimeoutError
  | CInsufficientFundsError
  | CInvalidSignatureError
  | CInvalidXDRError string
  | CSimulationError
  | CWalletNotInstalledError
  | CFaucetRateLimitError
  | CNetworkMismatchError
  | CInsecureNetworkError
  | CAxionveraRPCError string
  | CSimulationFailedError jsv
  | CSlippageToleranceExceededError int int int
  | CWalletConnectionError "string option"
  | CSchemaValidationError string string ValidationKind "ValidationIssue list"
  | CMigrationStateValidationError string string "ValidationIssue list"
  | CMigrationPathNotFoundError string string string
  | CRPCValidationMismatchError string jsv

text \<open>The name of an error is the name of its class.\<close>

fun ax_class_name :: "ax_class \<Rightarrow> string" where
  "ax_class_name CAxionveraError = ''AxionveraError''"
| "ax_class_name CNetworkError = ''NetworkError''"
| "ax_class_name CAuthenticationError = ''AuthenticationError''"
| "ax_class_name CRateLimitError = ''RateLimitError''"
| "ax_class_name CValidationError = ''ValidationError''"
| "ax_class_name CTransactionError = ''TransactionError''"
| "ax_class_name CRpcError = ''RpcError''"
| "ax_class_name CContractError = ''ContractError''"
| "ax_class_name CTimeoutError = ''TimeoutError''"
| "ax_class_name CTransactionTimeoutError = ''TransactionTimeoutError''"
| "ax_class_name CInsufficientFundsError = ''InsufficientFundsError''"
| "ax_class_name CInvalidSignatureError = ''InvalidSignatureError''"
| "ax_class_name (CInvalidXDRError _) = ''InvalidXDRError''"
| "ax_class_name CSimulationError = ''SimulationError''"
| "ax_class_name CWalletNotInstalledError = ''WalletNotInstalledError''"
| "ax_class_name CFaucetRateLimitError = ''FaucetRateLimitError''"
| "ax_class_name CNetworkMismatchError = ''NetworkMismatchError''"
| "ax_class_name CInsecureNetworkError = ''InsecureNetworkError''"
| "ax_class_name (CAxionveraRPCError _) = ''AxionveraRPCError''"
| "ax_class_name (CSimulationFailedError _) = ''SimulationFailedError''"
| "ax_class_name (CSlippageToleranceExceededError _ _ _) = ''SlippageToleranceExceededError''"
| "ax_class_name (CWalletConnectionError _) = ''WalletConnectionError''"
| "ax_class_name (CSchemaValidationError _ _ _ _) = ''SchemaValidationError''"
| "ax_class_name (CMigrationStateValidationError _ _ _) = ''MigrationStateValidationError''"
| "ax_class_name (CMigrationPathNotFoundError _ _ _) = ''MigrationPathNotFoundError''"
| "ax_class_name (CRPCValidationMismatchError _ _) = ''RPCValidationMismatchError''"

datatype thrown =
    Raw jsv
  | AxErr (ax_class: ax_class) (ax_message: string) (ax_statusCode: "int option")
      (ax_requestId: "string option") (ax_originalError: "thrown option")

text \<open>\<open>input.slice(0, 64)\<close> with an ellipsis, which is outside the 8-bit range and rendered here as three dots.\<close>

definition newInvalidXDRError :: "string \<Rightarrow> string \<Rightarrow> thrown" where
  "newInvalidXDRError m input =
    AxErr (CInvalidXDRError (if length input > 64 then take 64 input @ ''...'' else input))
      m None None None"

definition newSlippageToleranceExceededError :: "int \<Rightarrow> int \<Rightarrow> int \<Rightarrow> thrown" where
  "newSlippageToleranceExceededError expected actual tolerance =
    AxErr (CSlippageToleranceExceededError expected actual tolerance)
      (''Slippage tolerance exceeded: expected at least '' @ int_str expected @ '' shares, '' @
       ''but simulation returned '' @ int_str actual @ ''. Tolerance was '' @ int_str tolerance @ ''.'')
      None None None"

definition newMigrationPathNotFoundError :: "string \<Rightarrow> string \<Rightarrow> string \<Rightarrow> thrown" where
  "newMigrationPathNotFoundError c a b =
    AxErr (CMigrationPathNotFoundError c a b)
      (''No migration path found for contract \"'' @ c @ ''\" from version \"'' @ a @
       ''\" to \"'' @ b @ ''\"'') None None None"

section \<open>Reading an arbitrary value\<close>

definition isObject :: "jsv \<Rightarrow> bool" where
  "isObject v = (case v of JArr _ \<Rightarrow> True | JObj _ \<Rightarrow> True | JErr _ _ _ \<Rightarrow> True | _ \<Rightarrow> False)"

text \<open>A property access \<open>v?.k\<close>; only objects and errors have the properties that are read.\<close>

definition jget :: "jsv \<Rightarrow> string \<Rightarrow> jsv" where
  "jget v k =
    (case v of JObj ps \<Rightarrow> jprop ps k
     | JErr n m ps \<Rightarrow> jprop ((''name'', JStr n) # (''message'', JStr m) # ps) k
     | _ \<Rightarrow> JUndef)"

definition asErrorLike :: "jsv \<Rightarrow> jsv" where
  "asErrorLike v = (if isObject v then v else JObj [])"

definition is_nullish :: "jsv \<Rightarrow> bool" where
  "is_nullish v \<longleftrightarrow> v = JUndef \<or> v = JNull"

definition coalesce :: "jsv \<Rightarrow> jsv \<Rightarrow> jsv" where
  "coalesce a b = (if is_nullish a then b else a)"

definition as_string :: "jsv \<Rightarrow> string option" where
  "as_string v = (case v of JStr s \<Rightarrow> Some s | _ \<Rightarrow> None)"

definition as_number :: "jsv \<Rightarrow> int option" where
  "as_number v = (case v of JNum n \<Rightarrow> Some n | _ \<Rightarrow> None)"

definition nonblank :: "string \<Rightarrow> bool" where
  "nonblank s \<longleftrightarrow> js_trim s \<noteq> []"

text \<open>The header names that are looked up are ASCII and in lower case.\<close>

definition upper_char :: "char \<Rightarrow> char" where
  "upper_char c = (let n = (of_char c :: nat) in if 97 \<le> n \<and> n \<le> 122 then char_of (n - 32) else c)"

definition js_upper :: "string \<Rightarrow> string" where
  "js_upper s = map upper_char s"

type_synonym header_get = "jsv \<Rightarrow> (string \<Rightarrow> jsv) option"

definition getHeaderValue :: "header_get \<Rightarrow> jsv \<Rightarrow> string \<Rightarrow> string option" where
  "getHeaderValue hget headers key =
    (if \<not> js_truthy headers then None
     else
       let viaGet = (case hget headers of None \<Rightarrow> None
                     | Some g \<Rightarrow> as_string (coalesce (g key) (g (js_lower key)))) in
       case viaGet of Some s \<Rightarrow> Some s
       | None \<Rightarrow> as_string (coalesce (coalesce (jget headers key) (jget headers (js_lower key)))
                                   (jget headers (js_upper key))))"

definition first_some :: "'a option \<Rightarrow> 'a option \<Rightarrow> 'a option" where
  "first_some a b = (case a of None \<Rightarrow> b | Some x \<Rightarrow> Some x)"

definition nonblank_str :: "jsv \<Rightarrow> string option" where
  "nonblank_str v = (case v of JStr s \<Rightarrow> if nonblank s then Some s else None | _ \<Rightarrow> None)"

definition getMessageFromResponseData :: "jsv \<Rightarrow> string option" where
  "getMessageFromResponseData data =
    (case data of JStr s \<Rightarrow> Some s
     | _ \<Rightarrow> if \<not> isObject data then None
           else first_some (nonblank_str (jget data ''message'')) (nonblank_str (jget data ''error'')))"

fun getErrorStatusCode :: "thrown \<Rightarrow> int option" where
  "getErrorStatusCode (AxErr c m st rid x) = st"
| "getErrorStatusCode (Raw v) =
    (let e = asErrorLike v in
     case as_number (jget (jget e ''response'') ''status'') of
       Some n \<Rightarrow> Some n
     | None \<Rightarrow> as_number (jget e ''status''))"

fun getErrorRequestId :: "header_get \<Rightarrow> thrown \<Rightarrow> string option" where
  "getErrorRequestId hget (AxErr c m st rid x) = rid"
| "getErrorRequestId hget (Raw v) =
    (let e = asErrorLike v; h = jget (jget e ''response'') ''headers'' in
     first_some (getHeaderValue hget h ''x-request-id'')
     (first_some (getHeaderValue hget h ''x-requestid'')
     (first_some (getHeaderValue hget h ''request-id'')
     (first_some (getHeaderValue hget h ''x-correlation-id'')
       (as_string (jget e ''requestId''))))))"

definition getErrorMessage :: "jsv \<Rightarrow> string \<Rightarrow> string" where
  "getErrorMessage v fallback =
    (let e = asErrorLike v;
         own = (case v of JErr n m ps \<Rightarrow> nonblank_str (JStr m) | _ \<Rightarrow> None) in
     case first_some own (nonblank_str (jget e ''message'')) of
       Some m \<Rightarrow> m
     | None \<Rightarrow>
        (case getMessageFromResponseData (jget (jget e ''response'') ''data'') of
           Some s \<Rightarrow> if s \<noteq> [] then s else fallback
         | None \<Rightarrow> fallback))"

definition isNetworkCode :: "jsv \<Rightarrow> bool" where
  "isNetworkCode c =
    (case c of JStr s \<Rightarrow> s \<in> set [''ECONNABORTED'', ''ECONNRESET'', ''ENOTFOUND'', ''ETIMEDOUT'', ''ERR_NETWORK'']
     | _ \<Rightarrow> False)"

section \<open>Normalization\<close>

definition toAxionveraError :: "header_get \<Rightarrow> string \<Rightarrow> thrown \<Rightarrow> thrown" where
  "toAxionveraError hget fallback t =
    (case t of AxErr _ _ _ _ _ \<Rightarrow> t
     | Raw v \<Rightarrow>
       (let st = getErrorStatusCode t; rid = getErrorRequestId hget t;
            m = getErrorMessage v fallback; e = asErrorLike v;
            mk = (\<lambda>c. AxErr c m st rid (Some t)) in
        if st = Some 401 \<or> st = Some 403 then mk CAuthenticationError
        else if st = Some 429 then mk CRateLimitError
        else if (case st of Some n \<Rightarrow> 400 \<le> n \<and> n < 500 | None \<Rightarrow> False) then mk CValidationError
        else if (case st of None \<Rightarrow> True | Some n \<Rightarrow> 500 \<le> n) \<or> isNetworkCode (jget e ''code'')
        then mk CNetworkError
        else mk CAxionveraError))"

definition normalizeRpcError :: "string \<Rightarrow> thrown \<Rightarrow> thrown" where
  "normalizeRpcError operation t =
    (case t of AxErr _ _ _ _ _ \<Rightarrow> t
     | Raw v \<Rightarrow>
       (let m = getErrorMessage v (''RPC operation failed: '' @ operation);
            mk = (\<lambda>c. AxErr c m None None (Some t)) in
        case jget (asErrorLike v) ''code'' of
          JStr code \<Rightarrow>
            if str_includes code ''TIMEOUT'' \<or> str_includes (js_lower m) ''timeout''
            then mk CTimeoutError
            else if str_includes code ''NETWORK'' \<or> str_includes (js_lower m) ''network''
            then mk CNetworkError
            else mk CRpcError
        | _ \<Rightarrow> mk CRpcError))"

definition with_hash :: "string \<Rightarrow> string option \<Rightarrow> string" where
  "with_hash m h = (case h of Some x \<Rightarrow> if x = [] then m else m @ '' ('' @ x @ '')'' | None \<Rightarrow> m)"

definition normalizeTransactionError :: "string option \<Rightarrow> thrown \<Rightarrow> thrown" where
  "normalizeTransactionError txHash t =
    (case t of AxErr _ _ _ _ _ \<Rightarrow> t
     | Raw v \<Rightarrow>
       (let m = getErrorMessage v ''Transaction failed''; l = js_lower m;
            mk = (\<lambda>c m. AxErr c m None None (Some t)) in
        if str_includes l ''insufficient'' \<and> str_includes l ''fund''
        then mk CInsufficientFundsError (with_hash ''Insufficient funds for transaction'' txHash)
        else if str_includes l ''invalid'' \<and> str_includes l ''signature''
        then mk CInvalidSignatureError (with_hash ''Invalid signature for transaction'' txHash)
        else if str_includes l ''timeout'' \<or> str_includes l ''timed out''
        then mk CTimeoutError (with_hash ''Transaction timeout'' txHash)
        else mk CTransactionError m))"

definition normalizeContractError :: "string \<Rightarrow> string \<Rightarrow> thrown \<Rightarrow> thrown" where
  "normalizeContractError contractId mth t =
    (case t of AxErr _ _ _ _ _ \<Rightarrow> t
     | Raw v \<Rightarrow> AxErr CContractError (''Contract call failed: '' @ mth @ '' on '' @ contractId)
         None None (Some t))"

definition normalizeSimulationError :: "thrown \<Rightarrow> thrown" where
  "normalizeSimulationError t =
    (case t of AxErr _ _ _ _ _ \<Rightarrow> t
     | Raw v \<Rightarrow> AxErr CSimulationError (getErrorMessage v ''Transaction simulation failed'')
         None None (Some t))"

text \<open>An SDK error passes every normalizer unchanged, and each of them yields one.\<close>

definition is_ax :: "thrown \<Rightarrow> bool" where
  "is_ax t = (case t of Raw _ \<Rightarrow> False | _ \<Rightarrow> True)"

lemmas normalize_defs = toAxionveraError_def normalizeRpcError_def normalizeTransactionError_def
  normalizeContractError_def normalizeSimulationError_def

lemma normalize_id [simp]:
  assumes "is_ax t"
  shows "toAxionveraError hget fb t = t" "normalizeRpcError o' t = t"
    "normalizeTransactionError h t = t" "normalizeContractError c m t = t"
    "normalizeSimulationError t = t"
  using assms by (simp_all add: normalize_defs is_ax_def split: thrown.splits)

lemma normalize_is_ax [simp]:
  "is_ax (toAxionveraError hget fb t)" "is_ax (normalizeRpcError o' t)"
  "is_ax (normalizeTransactionError h t)" "is_ax (normalizeContractError c m t)"
  "is_ax (normalizeSimulationError t)"
  by (simp_all add: normalize_defs is_ax_def Let_def split: thrown.splits jsv.splits)

lemma nonblank_str_nonempty: "nonblank_str v = Some s \<Longrightarrow> s \<noteq> []"
  by (auto simp: nonblank_str_def nonblank_def js_trim_def split: jsv.splits if_splits)

lemma first_some_cases: "first_some a b = Some x \<Longrightarrow> a = Some x \<or> b = Some x"
  by (auto simp: first_some_def split: option.splits)

lemma getErrorMessage_nonempty:
  assumes "fb \<noteq> []"
  shows "getErrorMessage v fb \<noteq> []"
proof -
  have own: "(case v of JErr n m ps \<Rightarrow> nonblank_str (JStr m) | _ \<Rightarrow> None) = Some x \<Longrightarrow> x \<noteq> []" for x
    by (cases v) (auto dest: nonblank_str_nonempty)
  show ?thesis
    unfolding getErrorMessage_def Let_def
    using assms own by (auto split: option.split dest!: first_some_cases nonblank_str_nonempty)
qed

text \<open>The class of a raw error is a function of its status code and network code alone.\<close>

definition status_class :: "int option \<Rightarrow> bool \<Rightarrow> ax_class" where
  "status_class st net =
    (case st of None \<Rightarrow> CNetworkError
     | Some n \<Rightarrow>
        if n = 401 \<or> n = 403 then CAuthenticationError
        else if n = 429 then CRateLimitError
        else if 400 \<le> n \<and> n < 500 then CValidationError
        else if 500 \<le> n \<or> net then CNetworkError
        else CAxionveraError)"

lemma toAxionveraError_raw:
  "toAxionveraError hget fb (Raw v) =
    AxErr (status_class (getErrorStatusCode (Raw v)) (isNetworkCode (jget (asErrorLike v) ''code'')))
      (getErrorMessage v fb) (getErrorStatusCode (Raw v)) (getErrorRequestId hget (Raw v)) (Some (Raw v))"
  unfolding toAxionveraError_def status_class_def Let_def
  by (simp del: getErrorStatusCode.simps getErrorRequestId.simps split: option.split)

section \<open>Properties\<close>

text \<open>C20. Normalizing an error for the caller keeps what a retry decision or a log reads from it,
  its status code and request id. An error of the SDK is returned as it is, whatever its message
  and class. Any other value becomes one that has a message, where the fallback text is not
  empty, and the class that its status selects. On the result every normalizer is the identity.\<close>

theorem normalization_preserves_diagnosis:
  assumes "fb \<noteq> []"
  shows "getErrorStatusCode (toAxionveraError hget fb t) = getErrorStatusCode t
    \<and> getErrorRequestId hget (toAxionveraError hget fb t) = getErrorRequestId hget t
    \<and> (case t of AxErr _ _ _ _ _ \<Rightarrow> toAxionveraError hget fb t = t
       | Raw v \<Rightarrow> ax_message (toAxionveraError hget fb t) \<noteq> []
          \<and> ax_class (toAxionveraError hget fb t) =
             status_class (getErrorStatusCode t) (isNetworkCode (jget (asErrorLike v) ''code'')))
    \<and> normalizeRpcError op1 (toAxionveraError hget fb t) = toAxionveraError hget fb t
    \<and> normalizeTransactionError h (toAxionveraError hget fb t) = toAxionveraError hget fb t"
  using getErrorMessage_nonempty [OF assms]
  by (cases t) (simp_all add: toAxionveraError_raw is_ax_def
      del: getErrorStatusCode.simps(2) getErrorRequestId.simps(2))

lemma normalization_preserves_diagnosis_witness:
  "getErrorStatusCode (toAxionveraError (\<lambda>_. None) ''API request failed''
     (Raw (JObj [(''response'', JObj [(''status'', JNum 503)])]))) = Some 503"
  using normalization_preserves_diagnosis [of "''API request failed''" "\<lambda>_. None"
      "Raw (JObj [(''response'', JObj [(''status'', JNum 503)])])"]
  by (simp add: asErrorLike_def isObject_def jget_def jprop_def as_number_def)

end
