(* ===== verification/HttpRetry.thy ===== *)
theory HttpRetry
  imports Errors
begin

text \<open>
  Retries of HTTP requests (\<open>src/src/utils/httpInterceptor.ts\<close>): the loop of \<open>retry\<close> and
  the response interceptor that re-sends a failed request. The function or the request is the
  sequence of its outcomes, \<open>outs k\<close> being that of the \<open>k\<close>-th call. A run returns its result,
  the number of calls made and the delays waited, in order. The HTTP client (axios) hands an
  error's \<open>config\<close> with its retry count on to the next dispatch, as documented.
\<close>

record RetryConfig =
  rc_enabled :: bool
  rc_maxRetries :: int
  rc_baseDelayMs :: nat
  rc_maxDelayMs :: nat
  rc_retryableMethods :: "string list"
  rc_retryableStatusCodes :: "int list"

definition DEFAULT_RETRY_CONFIG :: RetryConfig where
  "DEFAULT_RETRY_CONFIG =
    \<lparr>rc_enabled = True, rc_maxRetries = 3, rc_baseDelayMs = 1000, rc_maxDelayMs = 8000,
     rc_retryableMethods = [''GET'', ''PUT''],
     rc_retryableStatusCodes = [429, 500, 502, 503, 504]\<rparr>"

definition calculateDelay :: "nat \<Rightarrow> nat \<Rightarrow> nat \<Rightarrow> nat" where
  "calculateDelay attemptNumber baseDelayMs maxDelayMs =
    min (baseDelayMs * 2 ^ (attemptNumber - 1)) maxDelayMs"

text \<open>\<open>config.method\<close> may be missing; an empty name is falsy.\<close>

definition isRetryableRequest :: "string option \<Rightarrow> RetryConfig \<Rightarrow> bool" where
  "isRetryableRequest mth c =
    (case mth of None \<Rightarrow> False
     | Some m \<Rightarrow> if js_upper m = [] then False else js_upper m \<in> set (rc_retryableMethods c))"

definition isRetryableError :: "thrown \<Rightarrow> RetryConfig \<Rightarrow> bool" where
  "isRetryableError e c =
    (case getErrorStatusCode e of None \<Rightarrow> False | Some n \<Rightarrow> n \<in> set (rc_retryableStatusCodes c))"

type_synonym 'v outcomes = "nat \<Rightarrow> thrown + 'v"

record 'v retry_run =
  rr_result :: "thrown + 'v"
  rr_calls :: nat
  rr_delays :: "nat list"

definition fallback_message :: string where
  "fallback_message = ''API request failed''"

text \<open>The loop \<open>for (attempt = 1; attempt <= maxRetries + 1; attempt++)\<close>; \<open>last\<close> is
  \<open>lastError\<close>.\<close>

function retry_loop ::
    "header_get \<Rightarrow> RetryConfig \<Rightarrow> 'v outcomes \<Rightarrow> thrown \<Rightarrow> nat \<Rightarrow> nat list \<Rightarrow> 'v retry_run" where
  "retry_loop hget c outs lastError attempt delays =
    (if int attempt \<le> rc_maxRetries c + 1 then
       (case outs attempt of
          Inr v \<Rightarrow> \<lparr>rr_result = Inr v, rr_calls = attempt, rr_delays = delays\<rparr>
        | Inl e \<Rightarrow>
           if \<not> isRetryableError e c \<or> int attempt > rc_maxRetries c
           then \<lparr>rr_result = Inl (toAxionveraError hget fallback_message e), rr_calls = attempt,
                 rr_delays = delays\<rparr>
           else retry_loop hget c outs e (Suc attempt)
                  (delays @ [calculateDelay attempt (rc_baseDelayMs c) (rc_maxDelayMs c)]))
     else \<lparr>rr_result = Inl (toAxionveraError hget fallback_message lastError),
           rr_calls = attempt - 1, rr_delays = delays\<rparr>)"
  by auto
termination
  by (relation "measure (\<lambda>(hget, c, outs, l, attempt, d). nat (rc_maxRetries c + 2 - int attempt))") auto

declare retry_loop.simps [simp del]

definition retry :: "header_get \<Rightarrow> RetryConfig \<Rightarrow> 'v outcomes \<Rightarrow> 'v retry_run" where
  "retry hget c outs =
    (if \<not> rc_enabled c then
       \<lparr>rr_result = map_sum (toAxionveraError hget fallback_message) id (outs 1),
        rr_calls = 1, rr_delays = []\<rparr>
     else retry_loop hget c outs (Raw JUndef) 1 [])"

text \<open>The interceptor: \<open>count\<close> is the \<open>_retryCount\<close> of the request, \<open>mth\<close> its method;
  \<open>has_config\<close> tells whether the error carries the request.\<close>

function http_dispatch ::
    "header_get \<Rightarrow> RetryConfig \<Rightarrow> bool \<Rightarrow> string option \<Rightarrow> 'v outcomes \<Rightarrow> nat \<Rightarrow> nat list
      \<Rightarrow> 'v retry_run" where
  "http_dispatch hget c has_config mth outs count delays =
    (case outs (Suc count) of
       Inr v \<Rightarrow> \<lparr>rr_result = Inr v, rr_calls = Suc count, rr_delays = delays\<rparr>
     | Inl e \<Rightarrow>
        if \<not> has_config \<or> \<not> isRetryableRequest mth c \<or> \<not> isRetryableError e c
        then \<lparr>rr_result = Inl (toAxionveraError hget fallback_message e), rr_calls = Suc count,
              rr_delays = delays\<rparr>
        else if int count \<ge> rc_maxRetries c
        then \<lparr>rr_result = Inl (toAxionveraError hget fallback_message e), rr_calls = Suc count,
              rr_delays = delays\<rparr>
        else http_dispatch hget c has_config mth outs (Suc count)
               (delays @ [calculateDelay (Suc count) (rc_baseDelayMs c) (rc_maxDelayMs c)]))"
  by auto
termination
  by (relation "measure (\<lambda>(hget, c, h, m, outs, count, d). nat (rc_maxRetries c - int count))") auto

declare http_dispatch.simps [simp del]

definition createHttpClientWithRetry ::
    "header_get \<Rightarrow> RetryConfig \<Rightarrow> bool \<Rightarrow> string option \<Rightarrow> 'v outcomes \<Rightarrow> 'v retry_run" where
  "createHttpClientWithRetry hget c has_config mth outs =
    (if \<not> rc_enabled c
     then \<lparr>rr_result = outs 1, rr_calls = 1, rr_delays = []\<rparr>
     else http_dispatch hget c has_config mth outs 0 [])"

section \<open>Backoff\<close>

interpretation http_backoff: exp_backoff "\<lambda>n. calculateDelay (Suc n) base cap" base cap
  for base cap
  by unfold_locales (simp add: calculateDelay_def)

lemma calculateDelay_bound: "calculateDelay n b c \<le> c"
  by (simp add: calculateDelay_def)

section \<open>The loop\<close>

text \<open>The outcome at a given attempt decides whether the loop goes on.\<close>

definition goes_on :: "RetryConfig \<Rightarrow> 'v outcomes \<Rightarrow> nat \<Rightarrow> bool" where
  "goes_on c outs k \<longleftrightarrow> (case outs k of Inr _ \<Rightarrow> False | Inl e \<Rightarrow> isRetryableError e c)"

lemma retry_loop_spec:
  assumes "1 \<le> attempt" "int attempt \<le> rc_maxRetries c + 1"
  shows "\<exists>n. attempt \<le> n \<and> int n \<le> rc_maxRetries c + 1
    \<and> rr_calls (retry_loop hget c outs l attempt ds) = n
    \<and> rr_delays (retry_loop hget c outs l attempt ds) =
        ds @ map (\<lambda>k. calculateDelay k (rc_baseDelayMs c) (rc_maxDelayMs c)) [attempt..<n]
    \<and> rr_result (retry_loop hget c outs l attempt ds) =
        map_sum (toAxionveraError hget fallback_message) id (outs n)
    \<and> list_all (goes_on c outs) [attempt..<n]
    \<and> (\<not> goes_on c outs n \<or> int n = rc_maxRetries c + 1)"
  using assms
proof (induction "nat (rc_maxRetries c + 1 - int attempt)" arbitrary: attempt l ds)
  case 0
  then have "int attempt = rc_maxRetries c + 1" by simp
  then show ?case
    by (intro exI [of _ attempt], subst (1 2 3) retry_loop.simps) (auto split: sum.split)
next
  case (Suc x)
  show ?case
  proof (cases "goes_on c outs attempt")
    case False
    then show ?thesis using Suc.prems
      by (intro exI [of _ attempt], subst (1 2 3) retry_loop.simps)
         (auto simp: goes_on_def split: sum.split)
  next
    case True
    then obtain e where e: "outs attempt = Inl e" "isRetryableError e c"
      by (auto simp: goes_on_def split: sum.splits)
    have lt: "int attempt \<le> rc_maxRetries c" using Suc.hyps(2) by simp
    let ?d = "calculateDelay attempt (rc_baseDelayMs c) (rc_maxDelayMs c)"
    have unf: "retry_loop hget c outs l attempt ds = retry_loop hget c outs e (Suc attempt) (ds @ [?d])"
      using e lt by (subst retry_loop.simps) simp
    have "x = nat (rc_maxRetries c + 1 - int (Suc attempt))" "1 \<le> Suc attempt"
      "int (Suc attempt) \<le> rc_maxRetries c + 1"
      using Suc.hyps(2) lt by auto
    from Suc.hyps(1) [OF this, where l = e and ds = "ds @ [?d]"] obtain n where
      n: "Suc attempt \<le> n" "int n \<le> rc_maxRetries c + 1"
        "rr_calls (retry_loop hget c outs e (Suc attempt) (ds @ [?d])) = n"
        "rr_delays (retry_loop hget c outs e (Suc attempt) (ds @ [?d])) = (ds @ [?d]) @
          map (\<lambda>k. calculateDelay k (rc_baseDelayMs c) (rc_maxDelayMs c)) [Suc attempt..<n]"
        "rr_result (retry_loop hget c outs e (Suc attempt) (ds @ [?d])) =
          map_sum (toAxionveraError hget fallback_message) id (outs n)"
        "list_all (goes_on c outs) [Suc attempt..<n]"
        "\<not> goes_on c outs n \<or> int n = rc_maxRetries c + 1"
      by blast
    then show ?thesis
      using True by (intro exI [of _ n]) (simp add: unf upt_conv_Cons)
  qed
qed

lemma http_dispatch_retry:
  assumes "isRetryableRequest mth c" "int count \<le> rc_maxRetries c"
  shows "http_dispatch hget c True mth outs count ds = retry_loop hget c outs l (Suc count) ds"
  using assms(2)
proof (induction "nat (rc_maxRetries c - int count)" arbitrary: count ds l)
  case 0
  then show ?case
    using assms(1) by (subst http_dispatch.simps, subst retry_loop.simps) (auto split: sum.split)
next
  case (Suc x)
  have IH: "http_dispatch hget c True mth outs (Suc count) ds'
      = retry_loop hget c outs l' (Suc (Suc count)) ds'" for ds' l'
    using Suc.hyps(1) [of "Suc count"] Suc.hyps(2) by simp
  show ?case
    using assms(1) Suc.hyps(2) IH
    by (subst http_dispatch.simps, subst retry_loop.simps) (auto split: sum.split)
qed

section \<open>Properties\<close>

text \<open>C6. With retries enabled and a non-negative limit, \<open>retry\<close> makes \<open>n\<close> calls, at least one and at
  most one more than the limit, waits the backoff sequence between them, and returns the outcome of
  the last one. Every call before it failed with a retryable status, and it stopped there because
  that call succeeded, failed otherwise, or exhausted the limit.\<close>

theorem retry_contract:
  assumes "rc_enabled c" and "0 \<le> rc_maxRetries c"
  shows "\<exists>n. 1 \<le> n \<and> int n \<le> rc_maxRetries c + 1
    \<and> rr_calls (retry hget c outs) = n
    \<and> rr_delays (retry hget c outs) =
        map (\<lambda>k. calculateDelay k (rc_baseDelayMs c) (rc_maxDelayMs c)) [1..<n]
    \<and> rr_result (retry hget c outs) = map_sum (toAxionveraError hget fallback_message) id (outs n)
    \<and> list_all (goes_on c outs) [1..<n]
    \<and> (\<not> goes_on c outs n \<or> int n = rc_maxRetries c + 1)"
  using retry_loop_spec [of 1 c hget outs "Raw JUndef" "[]"] assms
  by (simp add: retry_def)

definition wit_outs :: "nat outcomes" where
  "wit_outs k = (if k \<le> 2 then Inl (AxErr CNetworkError ''down'' (Some 503) None None) else Inr k)"

lemma retry_contract_witness:
  "\<exists>n. rr_calls (retry (\<lambda>_. None) DEFAULT_RETRY_CONFIG wit_outs) = n \<and> 1 \<le> n \<and> n \<le> 4"
  using retry_contract [of DEFAULT_RETRY_CONFIG "\<lambda>_. None" wit_outs]
  by (auto simp: DEFAULT_RETRY_CONFIG_def)

text \<open>C17. For a request with a retryable method the interceptor of the HTTP client and the function
  \<open>retry\<close> are the same: the same result after the same calls and the same delays.\<close>

theorem interceptor_is_retry:
  assumes "rc_enabled c" and "0 \<le> rc_maxRetries c" and "isRetryableRequest mth c"
  shows "createHttpClientWithRetry hget c True mth outs = retry hget c outs"
  using http_dispatch_retry [OF assms(3), of 0] assms
  by (simp add: createHttpClientWithRetry_def retry_def)

lemma interceptor_is_retry_witness:
  "createHttpClientWithRetry (\<lambda>_. None) DEFAULT_RETRY_CONFIG True (Some ''get'') wit_outs
     = \<lparr>rr_result = Inr 3, rr_calls = 3, rr_delays = [1000, 2000]\<rparr>"
proof -
  have "createHttpClientWithRetry (\<lambda>_. None) DEFAULT_RETRY_CONFIG True (Some ''get'') wit_outs
      = retry (\<lambda>_. None) DEFAULT_RETRY_CONFIG wit_outs"
    by (rule interceptor_is_retry)
       (simp_all add: DEFAULT_RETRY_CONFIG_def isRetryableRequest_def js_upper_def upper_char_def
          Let_def char_of_def bit_0)
  also have "\<dots> = \<lparr>rr_result = Inr 3, rr_calls = 3, rr_delays = [1000, 2000]\<rparr>"
    by (simp add: retry_def DEFAULT_RETRY_CONFIG_def retry_loop.simps wit_outs_def
        isRetryableError_def calculateDelay_def eval_nat_numeral)
  finally show ?thesis .
qed

text \<open>A request whose method is not retryable, or whose error carries no request, is sent once
  and its error is returned at once.\<close>

theorem not_retryable_sent_once:
  assumes "rc_enabled c" and "\<not> has_config \<or> \<not> isRetryableRequest mth c"
  shows "createHttpClientWithRetry hget c has_config mth outs =
    \<lparr>rr_result = map_sum (toAxionveraError hget fallback_message) id (outs 1), rr_calls = 1,
     rr_delays = []\<rparr>"
  using assms
  by (simp add: createHttpClientWithRetry_def, subst http_dispatch.simps) (auto split: sum.split)

lemma not_retryable_sent_once_witness:
  "rr_calls (createHttpClientWithRetry (\<lambda>_. None) DEFAULT_RETRY_CONFIG True (Some ''POST'') wit_outs)
    = 1"
  by (subst not_retryable_sent_once)
     (simp_all add: DEFAULT_RETRY_CONFIG_def isRetryableRequest_def js_upper_def upper_char_def Let_def)

end
