(* ===== verification/Reconnect.thy ===== *)
theory Reconnect
  imports SDK_Prelude
begin

text \<open>
  The reconnection manager (\<open>src/src/network/reconnectionManager.ts\<close>) with its
  configuration (\<open>src/src/events/types.ts\<close>). The fields of the class come with what the
  timers and promises of the runtime keep: the pending timers with their delays and the number of
  connect calls in flight; \<open>rm_log\<close> is what the listeners are told. Exceptions of
  listeners are swallowed by the code, so they have no effect on the model.
\<close>

datatype ConnectionState = Connected | Connecting | Disconnected | Reconnecting

record ReconnectionConfig =
  rcf_maxAttempts :: nat
  rcf_baseDelay :: nat
  rcf_maxDelay :: nat
  rcf_heartbeatInterval :: nat

definition DEFAULT_RECONNECTION_CONFIG :: ReconnectionConfig where
  "DEFAULT_RECONNECTION_CONFIG =
    \<lparr>rcf_maxAttempts = 10, rcf_baseDelay = 1000, rcf_maxDelay = 30000,
     rcf_heartbeatInterval = 30000\<rparr>"

record 'l ReconnectionManager =
  rm_state :: ConnectionState
  rm_attempts :: nat
  rm_timer :: "nat option"
  rm_listeners :: "'l list"
  rm_config :: ReconnectionConfig
  rm_pending :: "(nat \<times> nat) list"
  rm_nextHandle :: nat
  rm_inflight :: nat
  rm_log :: "('l \<times> ConnectionState \<times> nat option) list"

definition rm_new :: "ReconnectionConfig \<Rightarrow> 'l ReconnectionManager" where
  "rm_new c = \<lparr>rm_state = Disconnected, rm_attempts = 0, rm_timer = None, rm_listeners = [],
     rm_config = c, rm_pending = [], rm_nextHandle = 1, rm_inflight = 0, rm_log = []\<rparr>"

definition rm_isConnected :: "'l ReconnectionManager \<Rightarrow> bool" where
  "rm_isConnected s \<longleftrightarrow> rm_state s = Connected"

text \<open>A \<open>Set\<close> of callbacks keeps one entry per callback, in insertion order.\<close>

definition rm_onStateChange :: "'l \<Rightarrow> 'l ReconnectionManager \<Rightarrow> 'l ReconnectionManager" where
  "rm_onStateChange l s = s\<lparr>rm_listeners :=
     (if l \<in> set (rm_listeners s) then rm_listeners s else rm_listeners s @ [l])\<rparr>"

definition rm_offStateChange :: "'l \<Rightarrow> 'l ReconnectionManager \<Rightarrow> 'l ReconnectionManager" where
  "rm_offStateChange l s = s\<lparr>rm_listeners := removeAll l (rm_listeners s)\<rparr>"

definition rm_transition ::
    "ConnectionState \<Rightarrow> nat option \<Rightarrow> 'l ReconnectionManager \<Rightarrow> 'l ReconnectionManager" where
  "rm_transition st att s =
    s\<lparr>rm_state := st, rm_log := rm_log s @ map (\<lambda>l. (l, st, att)) (rm_listeners s)\<rparr>"

definition rm_clearTimer :: "'l ReconnectionManager \<Rightarrow> 'l ReconnectionManager" where
  "rm_clearTimer s =
    (case rm_timer s of None \<Rightarrow> s
     | Some h \<Rightarrow> s\<lparr>rm_pending := filter (\<lambda>(k, d). k \<noteq> h) (rm_pending s), rm_timer := None\<rparr>)"

definition rm_markConnected :: "'l ReconnectionManager \<Rightarrow> 'l ReconnectionManager" where
  "rm_markConnected s = rm_transition Connected None (rm_clearTimer (s\<lparr>rm_attempts := 0\<rparr>))"

definition rm_markDisconnected :: "'l ReconnectionManager \<Rightarrow> 'l ReconnectionManager" where
  "rm_markDisconnected s = rm_transition Disconnected None (rm_clearTimer s)"

definition rm_reset :: "'l ReconnectionManager \<Rightarrow> 'l ReconnectionManager" where
  "rm_reset s = rm_transition Disconnected None (rm_clearTimer (s\<lparr>rm_attempts := 0\<rparr>))"

definition rm_delay :: "ReconnectionConfig \<Rightarrow> nat \<Rightarrow> nat" where
  "rm_delay c n = min (rcf_baseDelay c * 2 ^ n) (rcf_maxDelay c)"

definition rm_scheduleReconnect :: "'l ReconnectionManager \<Rightarrow> 'l ReconnectionManager" where
  "rm_scheduleReconnect s =
    (if rm_attempts s \<ge> rcf_maxAttempts (rm_config s) then rm_transition Disconnected None s
     else
       let s1 = rm_transition Reconnecting (Some (rm_attempts s + 1)) s;
           d = rm_delay (rm_config s1) (rm_attempts s1);
           h = rm_nextHandle s1 in
       s1\<lparr>rm_timer := Some h, rm_pending := rm_pending s1 @ [(h, d)],
          rm_nextHandle := Suc h\<rparr>)"

text \<open>The timer callback runs up to \<open>await connectFn()\<close>, then the promise settles.\<close>

definition rm_fire :: "nat \<Rightarrow> 'l ReconnectionManager \<Rightarrow> 'l ReconnectionManager" where
  "rm_fire h s = s\<lparr>rm_pending := filter (\<lambda>(k, d). k \<noteq> h) (rm_pending s),
     rm_attempts := Suc (rm_attempts s), rm_inflight := Suc (rm_inflight s)\<rparr>"

definition rm_connectFailed :: "'l ReconnectionManager \<Rightarrow> 'l ReconnectionManager" where
  "rm_connectFailed s = rm_scheduleReconnect (s\<lparr>rm_inflight := rm_inflight s - 1\<rparr>)"

definition rm_connectReturned :: "'l ReconnectionManager \<Rightarrow> 'l ReconnectionManager" where
  "rm_connectReturned s = s\<lparr>rm_inflight := rm_inflight s - 1\<rparr>"

interpretation rm_backoff: exp_backoff "rm_delay c" "rcf_baseDelay c" "rcf_maxDelay c" for c
  by unfold_locales (simp add: rm_delay_def)

section \<open>Steps\<close>

text \<open>
  \<open>rm_step\<close> allows any order of calls and timer events. \<open>rm_one\<close> is the protocol of a
  client that asks for a reconnection only when none is under way.
\<close>

datatype rm_event =
    RMarkConnected | RMarkDisconnected | RReset | RSchedule | RFire nat | RFailed | RReturned

inductive rm_step :: "'l ReconnectionManager \<Rightarrow> rm_event \<Rightarrow> 'l ReconnectionManager \<Rightarrow> bool" where
  connected: "rm_step s RMarkConnected (rm_markConnected s)"
| disconnected: "rm_step s RMarkDisconnected (rm_markDisconnected s)"
| reset: "rm_step s RReset (rm_reset s)"
| schedule: "rm_step s RSchedule (rm_scheduleReconnect s)"
| fire: "(h, d) \<in> set (rm_pending s) \<Longrightarrow> rm_step s (RFire h) (rm_fire h s)"
| failed: "0 < rm_inflight s \<Longrightarrow> rm_step s RFailed (rm_connectFailed s)"
| returned: "0 < rm_inflight s \<Longrightarrow> rm_step s RReturned (rm_connectReturned s)"

definition rm_idle :: "'l ReconnectionManager \<Rightarrow> bool" where
  "rm_idle s \<longleftrightarrow> rm_pending s = [] \<and> rm_inflight s = 0"

inductive rm_one :: "'l ReconnectionManager \<Rightarrow> bool" where
  new: "rm_one (rm_new c)"
| request: "rm_one s \<Longrightarrow> rm_idle s \<Longrightarrow> rm_step s RSchedule s' \<Longrightarrow> rm_one s'"
| other: "rm_one s \<Longrightarrow> rm_step s e s' \<Longrightarrow> e \<noteq> RSchedule \<Longrightarrow> rm_one s'"

definition rm_inv :: "'l ReconnectionManager \<Rightarrow> bool" where
  "rm_inv s \<longleftrightarrow> length (rm_pending s) + rm_inflight s \<le> 1
    \<and> rm_attempts s + length (rm_pending s) \<le> rcf_maxAttempts (rm_config s)
    \<and> (\<forall>h d. (h, d) \<in> set (rm_pending s) \<longrightarrow> rm_timer s = Some h \<and> h < rm_nextHandle s)"

lemma rm_clearTimer_simps [simp]:
  "rm_attempts (rm_clearTimer s) = rm_attempts s"
  "rm_config (rm_clearTimer s) = rm_config s"
  "rm_inflight (rm_clearTimer s) = rm_inflight s"
  by (simp_all add: rm_clearTimer_def split: option.split)

lemma rm_inv_pending: "rm_inv s \<Longrightarrow> rm_pending s = [] \<or> (\<exists>h d. rm_pending s = [(h, d)] \<and> rm_timer s = Some h)"
  by (cases "rm_pending s") (auto simp: rm_inv_def)

lemma rm_clear_pending: "rm_inv s \<Longrightarrow> rm_pending (rm_clearTimer s) = []"
  using rm_inv_pending [of s] by (auto simp: rm_clearTimer_def split: option.split)

lemma rm_inv_step:
  assumes "rm_inv s" "rm_step s e s'" and "e = RSchedule \<Longrightarrow> rm_idle s"
  shows "rm_inv s'"
  using assms(2)
proof cases
  case connected
  then show ?thesis using assms(1) rm_clear_pending [of s]
    by (auto simp: rm_inv_def rm_markConnected_def rm_transition_def rm_clearTimer_def
             split: option.splits)
next
  case disconnected
  then show ?thesis using assms(1) rm_clear_pending [OF assms(1)]
    by (simp add: rm_inv_def rm_markDisconnected_def rm_transition_def)
next
  case reset
  then show ?thesis using assms(1) rm_clear_pending [of s]
    by (auto simp: rm_inv_def rm_reset_def rm_transition_def rm_clearTimer_def
             split: option.splits)
next
  case schedule
  then have "rm_idle s" using assms(3) by simp
  then show ?thesis using schedule assms(1)
    by (auto simp: rm_inv_def rm_scheduleReconnect_def rm_transition_def rm_idle_def Let_def)
next
  case (fire h d)
  then show ?thesis using assms(1) rm_inv_pending [OF assms(1)]
    by (auto simp: rm_inv_def rm_fire_def)
next
  case failed
  then have "rm_pending s = []" "rm_inflight s = 1" using assms(1)
    by (auto simp: rm_inv_def, cases "rm_pending s", auto)
  then show ?thesis using failed assms(1)
    by (auto simp: rm_inv_def rm_connectFailed_def rm_scheduleReconnect_def rm_transition_def Let_def)
next
  case returned
  then show ?thesis using assms(1) by (auto simp: rm_inv_def rm_connectReturned_def)
qed

lemma rm_inv_one: "rm_one s \<Longrightarrow> rm_inv s"
proof (induction rule: rm_one.induct)
  case (new c)
  then show ?case by (simp add: rm_inv_def rm_new_def)
qed (blast intro: rm_inv_step)+

section \<open>A peer that never answers\<close>

definition rm_round :: "'l ReconnectionManager \<Rightarrow> 'l ReconnectionManager" where
  "rm_round s = (case rm_pending s of [] \<Rightarrow> s | (h, d) # ps \<Rightarrow> rm_connectFailed (rm_fire h s))"

lemma rm_round_step:
  assumes "rm_pending s = [(h, d)]" "rm_inflight s = 0"
    "rm_attempts s < rcf_maxAttempts (rm_config s)"
  shows "rm_inflight (rm_round s) = 0 \<and> rm_config (rm_round s) = rm_config s
    \<and> rm_attempts (rm_round s) = Suc (rm_attempts s)
    \<and> (if Suc (rm_attempts s) = rcf_maxAttempts (rm_config s)
       then rm_state (rm_round s) = Disconnected \<and> rm_pending (rm_round s) = []
       else rm_pending (rm_round s) =
         [(rm_nextHandle s, rm_delay (rm_config s) (Suc (rm_attempts s)))])"
  using assms
  by (auto simp: rm_round_def rm_fire_def rm_connectFailed_def rm_scheduleReconnect_def
        rm_transition_def Let_def)

lemma rm_rounds:
  assumes "rm_pending s = [(h, d)]" "rm_inflight s = 0"
    "rm_attempts s + Suc k = rcf_maxAttempts (rm_config s)"
  shows "rm_state ((rm_round ^^ Suc k) s) = Disconnected \<and> rm_pending ((rm_round ^^ Suc k) s) = []
    \<and> rm_attempts ((rm_round ^^ Suc k) s) = rcf_maxAttempts (rm_config s)
    \<and> rm_inflight ((rm_round ^^ Suc k) s) = 0"
  using assms
proof (induction k arbitrary: s h d)
  case 0
  then show ?case using rm_round_step [of s h d] by simp
next
  case (Suc k)
  have st: "rm_pending (rm_round s) =
        [(rm_nextHandle s, rm_delay (rm_config s) (Suc (rm_attempts s)))]"
      "rm_inflight (rm_round s) = 0"
      "rm_attempts (rm_round s) + Suc k = rcf_maxAttempts (rm_config (rm_round s))"
      "rm_config (rm_round s) = rm_config s"
    using rm_round_step [of s h d] Suc.prems by auto
  show ?case
    using Suc.IH [OF st(1-3)] by (simp add: st(4) funpow_swap1 del: funpow.simps(2))
       (simp add: funpow_swap1)
qed

section \<open>Properties\<close>

text \<open>C7. A client that asks for a reconnection only when none is under way never has two of them: at
  most one timer is pending or one connect call is in flight, the attempts counted never exceed the
  configured maximum, and the pending timer is the one the manager can cancel.\<close>

theorem reconnect_single_flight:
  assumes "rm_one s"
  shows "length (rm_pending s) + rm_inflight s \<le> 1
    \<and> rm_attempts s \<le> rcf_maxAttempts (rm_config s)
    \<and> rm_pending (rm_markDisconnected s) = []"
  using rm_inv_one [OF assms] rm_clear_pending [OF rm_inv_one [OF assms]]
  by (auto simp: rm_inv_def rm_markDisconnected_def rm_transition_def)

lemma reconnect_single_flight_witness:
  "length (rm_pending (rm_scheduleReconnect (rm_new DEFAULT_RECONNECTION_CONFIG)
     :: nat ReconnectionManager)) \<le> 1"
proof -
  have "rm_one (rm_scheduleReconnect (rm_new DEFAULT_RECONNECTION_CONFIG)
      :: nat ReconnectionManager)"
    by (rule rm_one.request [OF rm_one.new]) (auto simp: rm_idle_def rm_new_def intro: rm_step.intros)
  from reconnect_single_flight [OF this] show ?thesis by linarith
qed

text \<open>Against a peer that never answers the manager gives up: from the first request on an idle
  manager with a positive limit, exactly the configured number of attempts is made, and then the
  state is disconnected and no timer is pending.\<close>

theorem reconnect_gives_up:
  assumes "rm_idle s" "rm_attempts s = 0" "rcf_maxAttempts (rm_config s) = Suc k"
  shows "let s' = (rm_round ^^ Suc k) (rm_scheduleReconnect s) in
    rm_state s' = Disconnected \<and> rm_idle s' \<and> rm_attempts s' = rcf_maxAttempts (rm_config s)"
proof -
  let ?s = "rm_scheduleReconnect s"
  have "rm_pending ?s = [(rm_nextHandle s, rm_delay (rm_config s) 0)]" "rm_inflight ?s = 0"
    "rm_attempts ?s + Suc k = rcf_maxAttempts (rm_config ?s)" "rm_config ?s = rm_config s"
    using assms by (simp_all add: rm_scheduleReconnect_def rm_idle_def rm_transition_def Let_def)
  from rm_rounds [OF this(1-3)] this(4) show ?thesis by (simp add: rm_idle_def Let_def)
qed

lemma reconnect_gives_up_witness:
  "rm_state ((rm_round ^^ 10) (rm_scheduleReconnect
     (rm_new DEFAULT_RECONNECTION_CONFIG :: nat ReconnectionManager))) = Disconnected"
  using reconnect_gives_up [of "rm_new DEFAULT_RECONNECTION_CONFIG :: nat ReconnectionManager" 9]
  by (simp add: rm_idle_def rm_new_def DEFAULT_RECONNECTION_CONFIG_def Let_def)

text \<open>The manager does not enforce that protocol: two requests in a row leave two timers, of which
  a later disconnect cancels only the second, so the first still opens a connection.\<close>

theorem overlapping_reconnect_leaks_timer:
  "\<exists>s h s' :: nat ReconnectionManager. rm_step (rm_new DEFAULT_RECONNECTION_CONFIG) RSchedule s
    \<and> rm_state (rm_markDisconnected (rm_scheduleReconnect s)) = Disconnected
    \<and> rm_step (rm_markDisconnected (rm_scheduleReconnect s)) (RFire h) s'
    \<and> rm_inflight s' = 1"
proof (intro exI conjI)
  let ?n = "rm_new DEFAULT_RECONNECTION_CONFIG :: nat ReconnectionManager"
  let ?m = "rm_markDisconnected (rm_scheduleReconnect (rm_scheduleReconnect ?n))"
  show "rm_step ?n RSchedule (rm_scheduleReconnect ?n)" by (rule rm_step.schedule)
  show "rm_state ?m = Disconnected" by (simp add: rm_markDisconnected_def rm_transition_def)
  have "rm_pending ?m = [(1, rm_delay DEFAULT_RECONNECTION_CONFIG 0)]" "rm_inflight ?m = 0"
    by (simp_all add: rm_new_def rm_scheduleReconnect_def rm_transition_def rm_markDisconnected_def
        rm_clearTimer_def DEFAULT_RECONNECTION_CONFIG_def Let_def)
  note m = this
  show "rm_step ?m (RFire 1) (rm_fire 1 ?m)"
    by (rule rm_step.fire [where d = "rm_delay DEFAULT_RECONNECTION_CONFIG 0"]) (simp add: m)
  show "rm_inflight (rm_fire 1 ?m) = 1" by (simp add: rm_fire_def m)
qed

end
