(* ===== verification/Session.thy ===== *)
theory Session
  imports Errors
begin

text \<open>
  Contract sessions (\<open>src/src/session/\<close>): the session object with its lifecycle and its
  registry of contracts, and the manager that tracks sessions by id. A client may hold on to a
  session the manager tracks and close it directly, so sessions live in a heap and the manager
  keeps references. The shared client is of type \<open>'c\<close> and the wallet of type \<open>'w\<close>;
  contract instances are of type \<open>'i\<close>. The clock is an argument.
\<close>

section \<open>State (types.ts)\<close>

datatype SessionStatus = SActive | SSuspended | SClosed

record 'i ContractContext =
  cc_name :: string
  cc_contractId :: string
  cc_instance :: "'i option"
  cc_registeredAt :: int
  cc_metadata :: props

record 'i RegisterContractParams =
  rp_name :: "string option"
  rp_contractId :: "string option"
  rp_instance :: "'i option"
  rp_metadata :: "props option"

record ('c, 'w, 'i) SessionConfig =
  sc_id :: "string option"
  sc_client :: "'c option"
  sc_wallet :: "'w option"
  sc_contracts :: "'i RegisterContractParams list option"
  sc_metadata :: "props option"

record ('c, 'w, 'i) ContractSession =
  cs_id :: string
  cs_client :: 'c
  cs_wallet :: "'w option"
  cs_createdAt :: int
  cs_metadata :: props
  cs_status :: SessionStatus
  cs_updatedAt :: int
  cs_contracts :: "(string, 'i ContractContext) jsmap"

definition some_props :: "props option \<Rightarrow> props" where
  "some_props m = obj_spread [] (case m of None \<Rightarrow> [] | Some p \<Rightarrow> p)"

definition validationError :: "string \<Rightarrow> thrown" where
  "validationError m = AxErr CValidationError m None None None"

definition quoted :: "string \<Rightarrow> string" where
  "quoted s = ''\"'' @ s @ ''\"''"

section \<open>The session (contractSession.ts)\<close>

definition cs_touch :: "int \<Rightarrow> ('c, 'w, 'i) ContractSession \<Rightarrow> ('c, 'w, 'i) ContractSession" where
  "cs_touch now s = s\<lparr>cs_updatedAt := now\<rparr>"

definition assertNotClosed :: "('c, 'w, 'i) ContractSession \<Rightarrow> thrown + unit" where
  "assertNotClosed s =
    (if cs_status s = SClosed
     then Inl (validationError (''Session '' @ quoted (cs_id s) @ '' is closed and cannot be modified''))
     else Inr ())"

definition assertActive :: "('c, 'w, 'i) ContractSession \<Rightarrow> thrown + unit" where
  "assertActive s =
    (if cs_status s = SClosed
     then Inl (validationError (''Session '' @ quoted (cs_id s) @ '' is closed and cannot be used''))
     else if cs_status s = SSuspended
     then Inl (validationError (''Session '' @ quoted (cs_id s) @ '' is suspended; call resume() first''))
     else Inr ())"

definition opt_trim :: "string option \<Rightarrow> string" where
  "opt_trim x = (case x of None \<Rightarrow> [] | Some s \<Rightarrow> js_trim s)"

definition cs_registerContract ::
    "int \<Rightarrow> 'i RegisterContractParams \<Rightarrow> ('c, 'w, 'i) ContractSession
      \<Rightarrow> ('c, 'w, 'i) ContractSession \<times> (thrown + 'i ContractContext)" where
  "cs_registerContract now p s =
    (case assertNotClosed s of Inl e \<Rightarrow> (s, Inl e)
     | Inr _ \<Rightarrow>
       let nm = opt_trim (rp_name p); cid = opt_trim (rp_contractId p) in
       if nm = [] then (s, Inl (validationError ''A non-empty contract name is required''))
       else if cid = []
       then (s, Inl (validationError (''A non-empty contract id is required for '' @ quoted nm)))
       else if jm_has (cs_contracts s) nm
       then (s, Inl (validationError (''A contract named '' @ quoted nm @
               '' is already registered in session '' @ quoted (cs_id s))))
       else
         let ctx = \<lparr>cc_name = nm, cc_contractId = cid, cc_instance = rp_instance p,
                    cc_registeredAt = now, cc_metadata = some_props (rp_metadata p)\<rparr> in
         (cs_touch now (s\<lparr>cs_contracts := jm_set nm ctx (cs_contracts s)\<rparr>), Inr ctx))"

fun cs_register_all ::
    "int \<Rightarrow> 'i RegisterContractParams list \<Rightarrow> ('c, 'w, 'i) ContractSession
      \<Rightarrow> thrown + ('c, 'w, 'i) ContractSession" where
  "cs_register_all now [] s = Inr s"
| "cs_register_all now (p # ps) s =
    (case cs_registerContract now p s of
       (s', Inl e) \<Rightarrow> Inl e
     | (s', Inr _) \<Rightarrow> cs_register_all now ps s')"

text \<open>\<open>generateId\<close> advances the process-wide counter, also when a contract is then rejected.\<close>

definition cs_generateId :: "nat \<Rightarrow> nat \<times> string" where
  "cs_generateId n = (Suc n, ''session-'' @ nat_str (Suc n))"

definition newContractSession ::
    "int \<Rightarrow> nat \<Rightarrow> ('c, 'w, 'i) SessionConfig option
      \<Rightarrow> nat \<times> (thrown + ('c, 'w, 'i) ContractSession)" where
  "newContractSession now counter config =
    (case config of
       None \<Rightarrow> (counter, Inl (validationError ''A StellarClient is required to create a session''))
     | Some c \<Rightarrow>
       (case sc_client c of
          None \<Rightarrow> (counter, Inl (validationError ''A StellarClient is required to create a session''))
        | Some client \<Rightarrow>
          let (counter', i) = (if opt_trim (sc_id c) \<noteq> [] then (counter, opt_trim (sc_id c))
                               else cs_generateId counter);
              s = \<lparr>cs_id = i, cs_client = client, cs_wallet = sc_wallet c, cs_createdAt = now,
                   cs_metadata = some_props (sc_metadata c), cs_status = SActive,
                   cs_updatedAt = now, cs_contracts = []\<rparr>
          in (counter', cs_register_all now (case sc_contracts c of None \<Rightarrow> [] | Some l \<Rightarrow> l) s)))"

definition cs_isActive :: "('c, 'w, 'i) ContractSession \<Rightarrow> bool" where
  "cs_isActive s \<longleftrightarrow> cs_status s = SActive"

definition cs_isClosed :: "('c, 'w, 'i) ContractSession \<Rightarrow> bool" where
  "cs_isClosed s \<longleftrightarrow> cs_status s = SClosed"

definition cs_size :: "('c, 'w, 'i) ContractSession \<Rightarrow> nat" where
  "cs_size s = length (cs_contracts s)"

definition cs_unregisterContract ::
    "int \<Rightarrow> string \<Rightarrow> ('c, 'w, 'i) ContractSession
      \<Rightarrow> ('c, 'w, 'i) ContractSession \<times> (thrown + bool)" where
  "cs_unregisterContract now nm s =
    (case assertNotClosed s of Inl e \<Rightarrow> (s, Inl e)
     | Inr _ \<Rightarrow>
       let removed = jm_has (cs_contracts s) nm;
           s' = s\<lparr>cs_contracts := jm_delete nm (cs_contracts s)\<rparr> in
       (if removed then cs_touch now s' else s', Inr removed))"

definition cs_hasContract :: "string \<Rightarrow> ('c, 'w, 'i) ContractSession \<Rightarrow> bool" where
  "cs_hasContract nm s = jm_has (cs_contracts s) nm"

definition cs_getContract ::
    "string \<Rightarrow> ('c, 'w, 'i) ContractSession \<Rightarrow> thrown + 'i ContractContext" where
  "cs_getContract nm s =
    (case jm_get (cs_contracts s) nm of
       None \<Rightarrow> Inl (validationError (''No contract named '' @ quoted nm @
                 '' is registered in session '' @ quoted (cs_id s)))
     | Some c \<Rightarrow> Inr c)"

definition cs_getContractInstance ::
    "string \<Rightarrow> ('c, 'w, 'i) ContractSession \<Rightarrow> thrown + 'i" where
  "cs_getContractInstance nm s =
    (case cs_getContract nm s of Inl e \<Rightarrow> Inl e
     | Inr c \<Rightarrow>
       (case cc_instance c of
          None \<Rightarrow> Inl (validationError (''Contract '' @ quoted nm @ '' in session '' @
                    quoted (cs_id s) @ '' has no instance attached''))
        | Some i \<Rightarrow> Inr i))"

definition cs_listContracts :: "('c, 'w, 'i) ContractSession \<Rightarrow> 'i ContractContext list" where
  "cs_listContracts s = jm_values (cs_contracts s)"

definition cs_suspend ::
    "int \<Rightarrow> ('c, 'w, 'i) ContractSession \<Rightarrow> ('c, 'w, 'i) ContractSession \<times> (thrown + unit)" where
  "cs_suspend now s =
    (case assertNotClosed s of Inl e \<Rightarrow> (s, Inl e)
     | Inr _ \<Rightarrow> (if cs_status s = SActive then cs_touch now (s\<lparr>cs_status := SSuspended\<rparr>) else s, Inr ()))"

definition cs_resume ::
    "int \<Rightarrow> ('c, 'w, 'i) ContractSession \<Rightarrow> ('c, 'w, 'i) ContractSession \<times> (thrown + unit)" where
  "cs_resume now s =
    (case assertNotClosed s of Inl e \<Rightarrow> (s, Inl e)
     | Inr _ \<Rightarrow> (if cs_status s = SSuspended then cs_touch now (s\<lparr>cs_status := SActive\<rparr>) else s, Inr ()))"

definition cs_close :: "int \<Rightarrow> ('c, 'w, 'i) ContractSession \<Rightarrow> ('c, 'w, 'i) ContractSession" where
  "cs_close now s =
    (if cs_status s = SClosed then s
     else cs_touch now (s\<lparr>cs_status := SClosed, cs_contracts := []\<rparr>))"

definition cs_run ::
    "(('c, 'w, 'i) ContractSession \<Rightarrow> ('c, 'w, 'i) ContractSession \<times> (thrown + 'r))
      \<Rightarrow> ('c, 'w, 'i) ContractSession \<Rightarrow> ('c, 'w, 'i) ContractSession \<times> (thrown + 'r)" where
  "cs_run fn s = (case assertActive s of Inl e \<Rightarrow> (s, Inl e) | Inr _ \<Rightarrow> fn s)"

definition cs_validate :: "('c, 'w, 'i) ContractSession \<Rightarrow> thrown + unit" where
  "cs_validate s =
    (if cs_status s = SClosed
     then Inl (validationError (''Session '' @ quoted (cs_id s) @ '' is closed'')) else Inr ())"

record SessionSnapshot =
  sn_id :: string
  sn_status :: SessionStatus
  sn_network :: string
  sn_hasWallet :: bool
  sn_createdAt :: int
  sn_updatedAt :: int
  sn_contracts :: "(string \<times> string \<times> int \<times> props) list"
  sn_metadata :: props

text \<open>\<open>network\<close> reads the network of the shared client.\<close>

definition cs_toJSON :: "('c \<Rightarrow> string) \<Rightarrow> ('c, 'w, 'i) ContractSession \<Rightarrow> SessionSnapshot" where
  "cs_toJSON network s =
    \<lparr>sn_id = cs_id s, sn_status = cs_status s, sn_network = network (cs_client s),
     sn_hasWallet = (case cs_wallet s of None \<Rightarrow> False | Some _ \<Rightarrow> True),
     sn_createdAt = cs_createdAt s, sn_updatedAt = cs_updatedAt s,
     sn_contracts = map (\<lambda>c. (cc_name c, cc_contractId c, cc_registeredAt c, cc_metadata c))
                      (cs_listContracts s),
     sn_metadata = cs_metadata s\<rparr>"

section \<open>The manager (sessionManager.ts)\<close>

record ('c, 'w, 'i) SessionManager =
  sm_heap :: "('c, 'w, 'i) ContractSession list"
  sm_counter :: nat
  sm_sessions :: "(string, nat) jsmap"
  sm_defaultClient :: "'c option"
  sm_defaultWallet :: "'w option"
  sm_maxSessions :: "int option"

definition sm_new ::
    "'c option \<Rightarrow> 'w option \<Rightarrow> int option \<Rightarrow> thrown + ('c, 'w, 'i) SessionManager" where
  "sm_new client wallet maxSessions =
    (case maxSessions of
       Some n \<Rightarrow> if n \<le> 0 then Inl (validationError ''maxSessions must be a positive number'')
         else Inr \<lparr>sm_heap = [], sm_counter = 0, sm_sessions = [], sm_defaultClient = client,
                   sm_defaultWallet = wallet, sm_maxSessions = Some n\<rparr>
     | None \<Rightarrow> Inr \<lparr>sm_heap = [], sm_counter = 0, sm_sessions = [], sm_defaultClient = client,
                    sm_defaultWallet = wallet, sm_maxSessions = None\<rparr>)"

definition sm_size :: "('c, 'w, 'i) SessionManager \<Rightarrow> nat" where
  "sm_size m = length (sm_sessions m)"

definition opt_else :: "'a option \<Rightarrow> 'a option \<Rightarrow> 'a option" where
  "opt_else a b = (case a of None \<Rightarrow> b | Some x \<Rightarrow> Some x)"

definition sm_full :: "('c, 'w, 'i) SessionManager \<Rightarrow> bool" where
  "sm_full m = (case sm_maxSessions m of None \<Rightarrow> False | Some n \<Rightarrow> int (length (sm_sessions m)) \<ge> n)"

text \<open>Returns the reference of the new session.\<close>

definition sm_createSession ::
    "int \<Rightarrow> ('c, 'w, 'i) SessionConfig \<Rightarrow> ('c, 'w, 'i) SessionManager
      \<Rightarrow> ('c, 'w, 'i) SessionManager \<times> (thrown + nat)" where
  "sm_createSession now c m =
    (if sm_full m
     then (m, Inl (validationError (''Cannot create session: maximum of '' @
             (case sm_maxSessions m of None \<Rightarrow> ''Infinity'' | Some n \<Rightarrow> int_str n) @
             '' open sessions reached'')))
     else case opt_else (sc_client c) (sm_defaultClient m) of
       None \<Rightarrow> (m, Inl (validationError
         ''No StellarClient provided and no default client configured on the SessionManager''))
     | Some client \<Rightarrow>
        if (case sc_id c of None \<Rightarrow> False | Some i \<Rightarrow> i \<noteq> [] \<and> jm_has (sm_sessions m) i)
        then (m, Inl (validationError (''A session with id '' @
                quoted (case sc_id c of None \<Rightarrow> [] | Some i \<Rightarrow> i) @ '' already exists'')))
        else
          (case newContractSession now (sm_counter m)
                  (Some (c\<lparr>sc_client := Some client,
                           sc_wallet := opt_else (sc_wallet c) (sm_defaultWallet m)\<rparr>)) of
             (n, Inl e) \<Rightarrow> (m\<lparr>sm_counter := n\<rparr>, Inl e)
           | (n, Inr s) \<Rightarrow>
              if jm_has (sm_sessions m) (cs_id s)
              then (m\<lparr>sm_counter := n\<rparr>, Inl (validationError (''A session with id '' @
                      quoted (cs_id s) @ '' already exists'')))
              else (m\<lparr>sm_counter := n, sm_heap := sm_heap m @ [s],
                      sm_sessions := jm_set (cs_id s) (length (sm_heap m)) (sm_sessions m)\<rparr>,
                    Inr (length (sm_heap m)))))"

definition sm_hasSession :: "string \<Rightarrow> ('c, 'w, 'i) SessionManager \<Rightarrow> bool" where
  "sm_hasSession i m = jm_has (sm_sessions m) i"

definition sm_getSession :: "string \<Rightarrow> ('c, 'w, 'i) SessionManager \<Rightarrow> thrown + nat" where
  "sm_getSession i m =
    (case jm_get (sm_sessions m) i of
       None \<Rightarrow> Inl (validationError (''No session found with id '' @ quoted i)) | Some r \<Rightarrow> Inr r)"

definition sm_tryGetSession :: "string \<Rightarrow> ('c, 'w, 'i) SessionManager \<Rightarrow> nat option" where
  "sm_tryGetSession i m = jm_get (sm_sessions m) i"

definition sm_listSessions :: "('c, 'w, 'i) SessionManager \<Rightarrow> nat list" where
  "sm_listSessions m = jm_values (sm_sessions m)"

definition sm_findByContract :: "string \<Rightarrow> ('c, 'w, 'i) SessionManager \<Rightarrow> nat list" where
  "sm_findByContract cid m =
    filter (\<lambda>r. list_ex (\<lambda>c. cc_contractId c = cid) (cs_listContracts (sm_heap m ! r)))
      (sm_listSessions m)"

text \<open>A change of the session behind a reference, by the manager or by a client that holds it.\<close>

definition sm_update ::
    "nat \<Rightarrow> (('c, 'w, 'i) ContractSession \<Rightarrow> ('c, 'w, 'i) ContractSession)
      \<Rightarrow> ('c, 'w, 'i) SessionManager \<Rightarrow> ('c, 'w, 'i) SessionManager" where
  "sm_update r f m = m\<lparr>sm_heap := (sm_heap m)[r := f (sm_heap m ! r)]\<rparr>"

definition sm_closeSession ::
    "int \<Rightarrow> string \<Rightarrow> ('c, 'w, 'i) SessionManager \<Rightarrow> ('c, 'w, 'i) SessionManager \<times> bool" where
  "sm_closeSession now i m =
    (case jm_get (sm_sessions m) i of
       None \<Rightarrow> (m, False)
     | Some r \<Rightarrow>
        ((sm_update r (cs_close now) m)\<lparr>sm_sessions := jm_delete i (sm_sessions m)\<rparr>, True))"

definition sm_closeAll :: "int \<Rightarrow> ('c, 'w, 'i) SessionManager \<Rightarrow> ('c, 'w, 'i) SessionManager" where
  "sm_closeAll now m =
    (foldl (\<lambda>m r. sm_update r (cs_close now) m) m (jm_values (sm_sessions m)))\<lparr>sm_sessions := []\<rparr>"

section \<open>Sessions keep their registry in order\<close>

datatype 'i cs_op =
    SRegister "'i RegisterContractParams"
  | SUnregister string
  | SSuspend
  | SResume
  | SClose

fun cs_apply ::
    "int \<Rightarrow> 'i cs_op \<Rightarrow> ('c, 'w, 'i) ContractSession \<Rightarrow> ('c, 'w, 'i) ContractSession" where
  "cs_apply now (SRegister p) s = fst (cs_registerContract now p s)"
| "cs_apply now (SUnregister nm) s = fst (cs_unregisterContract now nm s)"
| "cs_apply now SSuspend s = fst (cs_suspend now s)"
| "cs_apply now SResume s = fst (cs_resume now s)"
| "cs_apply now SClose s = cs_close now s"

definition cs_inv :: "('c, 'w, 'i) ContractSession \<Rightarrow> bool" where
  "cs_inv s \<longleftrightarrow> jm_ok (cs_contracts s)
    \<and> jm_all (\<lambda>k c. cc_name c = k \<and> k \<noteq> [] \<and> js_trim k = k \<and> cc_contractId c \<noteq> []) (cs_contracts s)
    \<and> (cs_status s = SClosed \<longrightarrow> cs_contracts s = [])
    \<and> cs_id s \<noteq> []"

lemmas cs_op_defs = cs_registerContract_def cs_unregisterContract_def cs_suspend_def cs_resume_def
  cs_close_def assertNotClosed_def cs_touch_def Let_def

lemma opt_trim_trim [simp]: "js_trim (opt_trim x) = opt_trim x"
  by (simp add: opt_trim_def split: option.split) (simp add: js_trim_def)

lemma cs_inv_register: "cs_inv s \<Longrightarrow> cs_inv (fst (cs_registerContract now p s))"
  by (auto simp: cs_inv_def cs_op_defs intro!: jm_all_set)

lemma cs_inv_apply: "cs_inv s \<Longrightarrow> cs_inv (cs_apply now e s)"
  by (cases e) (auto simp: cs_inv_register, auto simp: cs_inv_def cs_op_defs intro!: jm_all_delete)

lemma cs_id_apply [simp]: "cs_id (cs_apply now e s) = cs_id s"
  by (cases e) (auto simp: cs_op_defs)

lemma cs_register_all_inv:
  "cs_register_all now ps s = Inr s' \<Longrightarrow> cs_inv s \<Longrightarrow> cs_inv s' \<and> cs_id s' = cs_id s"
proof (induction now ps s rule: cs_register_all.induct)
  case (2 now p ps s)
  then show ?case
    using cs_inv_register [of s now p] cs_id_apply [of now "SRegister p" s]
    by (auto split: prod.splits sum.splits)
qed simp

lemma cs_inv_fresh [simp]:
  "cs_inv \<lparr>cs_id = i, cs_client = cl, cs_wallet = w, cs_createdAt = now, cs_metadata = md,
     cs_status = SActive, cs_updatedAt = t, cs_contracts = []\<rparr> \<longleftrightarrow> i \<noteq> []"
  by (simp add: cs_inv_def)

lemma cs_generateId_nonempty: "snd (cs_generateId n) \<noteq> []"
  by (simp add: cs_generateId_def)

lemma newContractSession_inv: "newContractSession now n c = (n', Inr s) \<Longrightarrow> cs_inv s"
  using cs_generateId_nonempty [of n]
  by (auto simp: newContractSession_def Let_def split: option.splits if_splits prod.splits
      dest!: cs_register_all_inv)

lemma cs_closed_inert:
  "cs_status s = SClosed \<Longrightarrow> cs_apply now e s = s"
  by (cases e) (simp_all add: cs_op_defs)

section \<open>The manager keeps its table in order\<close>

definition sm_inv :: "('c, 'w, 'i) SessionManager \<Rightarrow> bool" where
  "sm_inv m \<longleftrightarrow> jm_ok (sm_sessions m) \<and> distinct (jm_values (sm_sessions m))
    \<and> (\<forall>i r. (i, r) \<in> set (sm_sessions m) \<longrightarrow> r < length (sm_heap m) \<and> cs_id (sm_heap m ! r) = i)
    \<and> (\<forall>s \<in> set (sm_heap m). cs_inv s)
    \<and> (\<forall>n. sm_maxSessions m = Some n \<longrightarrow> int (length (sm_sessions m)) \<le> n)"

lemma sm_inv_new: "sm_new c w k = Inr m \<Longrightarrow> sm_inv m"
  by (auto simp: sm_new_def sm_inv_def jm_values_def split: option.splits if_splits)

lemma sm_inv_update:
  assumes "sm_inv m" "cs_inv (f (sm_heap m ! r))" "cs_id (f (sm_heap m ! r)) = cs_id (sm_heap m ! r)"
  shows "sm_inv (sm_update r f m)"
proof -
  let ?h = "(sm_heap m)[r := f (sm_heap m ! r)]"
  have ids: "cs_id (?h ! k) = cs_id (sm_heap m ! k)" for k
    using assms(3) by (cases "k = r \<and> r < length (sm_heap m)") (auto simp: nth_list_update list_update_beyond)
  have "cs_inv s" if "s \<in> set ?h" for s
    using that assms(1,2) set_update_subset_insert [of "sm_heap m" r "f (sm_heap m ! r)"]
    by (auto simp: sm_inv_def)
  then show ?thesis using assms(1) unfolding sm_inv_def by (simp add: sm_update_def ids)
qed

lemma sm_createSession_cases:
  assumes "sm_createSession now c m = (m', res)"
  shows "(\<exists>e n. res = Inl e \<and> m' = m\<lparr>sm_counter := n\<rparr>)
    \<or> (\<exists>s n. res = Inr (length (sm_heap m)) \<and> \<not> sm_full m \<and> cs_inv s
        \<and> \<not> jm_has (sm_sessions m) (cs_id s)
        \<and> m' = m\<lparr>sm_counter := n, sm_heap := sm_heap m @ [s],
                sm_sessions := jm_set (cs_id s) (length (sm_heap m)) (sm_sessions m)\<rparr>)"
proof -
  have same: "\<exists>n. m = m\<lparr>sm_counter := n\<rparr>" by (rule exI [of _ "sm_counter m"]) simp
  show ?thesis
    using assms same unfolding sm_createSession_def
    by (auto split: if_splits option.splits prod.splits sum.splits intro: newContractSession_inv)
qed

lemma sm_inv_create:
  assumes "sm_inv m" shows "sm_inv (fst (sm_createSession now c m))"
proof -
  obtain m' res where r: "sm_createSession now c m = (m', res)" by fastforce
  from sm_createSession_cases [OF r] show ?thesis
  proof (elim disjE exE conjE)
    fix s n
    assume full: "\<not> sm_full m" and s: "cs_inv s" and new: "\<not> jm_has (sm_sessions m) (cs_id s)"
      and m': "m' = m\<lparr>sm_counter := n, sm_heap := sm_heap m @ [s],
                sm_sessions := jm_set (cs_id s) (length (sm_heap m)) (sm_sessions m)\<rparr>"
    have refs: "r < length (sm_heap m) \<and> cs_id (sm_heap m ! r) = i"
      if "(i, r) \<in> set (sm_sessions m)" for i r
      using that assms by (auto simp: sm_inv_def)
    have fresh: "length (sm_heap m) \<notin> snd ` set (sm_sessions m)" using refs by force
    have "int (Suc (length (sm_sessions m))) \<le> k" if "sm_maxSessions m = Some k" for k
      using full that by (simp add: sm_full_def)
    moreover have "r < length (sm_heap m @ [s]) \<and> cs_id ((sm_heap m @ [s]) ! r) = i"
      if "(i, r) \<in> set (sm_sessions m) \<or> (i = cs_id s \<and> r = length (sm_heap m))" for i r
      using that refs by (auto simp: nth_append)
    moreover have "jm_ok (jm_set (cs_id s) (length (sm_heap m)) (sm_sessions m))"
      using assms by (auto simp: sm_inv_def)
    ultimately show ?thesis
      using assms s fresh unfolding r m'
      by (simp add: sm_inv_def jm_set_new [OF new] jm_values_def split: option.splits)
         (meson less_SucI)+
  next
    fix e n assume "m' = m\<lparr>sm_counter := n\<rparr>"
    then show ?thesis using assms by (simp add: r sm_inv_def)
  qed
qed

definition sm_live :: "nat \<Rightarrow> ('c, 'w, 'i) SessionManager \<Rightarrow> bool" where
  "sm_live r m \<longleftrightarrow> r \<in> set (jm_values (sm_sessions m))"

lemma sm_inv_drop:
  assumes "sm_inv m" shows "sm_inv (m\<lparr>sm_sessions := jm_delete i (sm_sessions m)\<rparr>)"
proof -
  have sub: "set (jm_delete i (sm_sessions m)) \<subseteq> set (sm_sessions m)"
    by (auto simp: jm_delete_mem)
  have "distinct (map snd (jm_delete i (sm_sessions m)))"
    using assms by (auto simp: sm_inv_def jm_values_def AList.delete_eq intro: distinct_map_filter)
  moreover have "jm_ok (jm_delete i (sm_sessions m))" using assms by (auto simp: sm_inv_def)
  moreover have "length (jm_delete i (sm_sessions m)) \<le> length (sm_sessions m)"
    by (simp add: AList.length_delete_le)
  ultimately show ?thesis
    using assms sub unfolding sm_inv_def
    by (auto simp: jm_values_def split: option.splits)
qed

lemma sm_inv_close: "sm_inv m \<Longrightarrow> sm_inv (fst (sm_closeSession now i m))"
proof (cases "jm_get (sm_sessions m) i")
  case (Some r)
  assume inv: "sm_inv m"
  have "r < length (sm_heap m)" using inv jm_get_memD [OF Some] by (auto simp: sm_inv_def)
  then have "cs_inv (sm_heap m ! r)" using inv by (auto simp: sm_inv_def)
  then have "sm_inv (sm_update r (cs_close now) m)"
    using cs_inv_apply [of "sm_heap m ! r" now SClose] cs_id_apply [of now SClose "sm_heap m ! r"]
    by (intro sm_inv_update [OF inv]) auto
  from sm_inv_drop [OF this, of i] show ?thesis
    by (simp add: sm_closeSession_def Some sm_update_def)
qed (simp add: sm_closeSession_def)

lemma sm_closed_all_heap:
  "sm_heap (foldl (\<lambda>m r. sm_update r (cs_close now) m) m rs) =
     foldl (\<lambda>h r. h[r := cs_close now (h ! r)]) (sm_heap m) rs
   \<and> sm_maxSessions (foldl (\<lambda>m r. sm_update r (cs_close now) m) m rs) = sm_maxSessions m"
  by (induction rs arbitrary: m) (auto simp: sm_update_def)

lemma close_all_nth:
  "\<forall>r\<in>set rs. r < length h \<Longrightarrow> k < length h \<Longrightarrow>
    foldl (\<lambda>h r. h[r := cs_close now (h ! r)]) h rs ! k =
      (if k \<in> set rs then cs_close now (h ! k) else h ! k)"
proof (induction rs arbitrary: h)
  case (Cons r rs)
  have idem: "cs_close now (cs_close now s) = cs_close now s" for s :: "('a, 'b, 'c) ContractSession"
    by (simp add: cs_close_def cs_touch_def)
  show ?case using Cons by (simp add: nth_list_update idem)
qed simp

lemma close_all_length: "length (foldl (\<lambda>h r. h[r := cs_close now (h ! r)]) h rs) = length h"
  by (induction rs arbitrary: h) auto

lemma sm_inv_closeAll:
  assumes "sm_inv m" shows "sm_inv (sm_closeAll now m)"
proof -
  let ?rs = "jm_values (sm_sessions m)"
  let ?h = "foldl (\<lambda>h r. h[r := cs_close now (h ! r)]) (sm_heap m) ?rs"
  have rs: "\<forall>r\<in>set ?rs. r < length (sm_heap m)" using assms by (auto simp: sm_inv_def jm_values_def)
  have "cs_inv s" if mem: "s \<in> set ?h" for s
  proof -
    obtain k where k: "k < length ?h" "?h ! k = s"
      using mem unfolding in_set_conv_nth by blast
    then have "k < length (sm_heap m)" "s = ?h ! k" by (simp_all only: close_all_length)
    moreover from this have "cs_inv (sm_heap m ! k)" using assms by (auto simp: sm_inv_def)
    ultimately show ?thesis
      using close_all_nth [OF rs] cs_inv_apply [of "sm_heap m ! k" now SClose] by auto
  qed
  then show ?thesis
    using assms sm_closed_all_heap [of now m ?rs]
    by (auto simp: sm_inv_def sm_closeAll_def jm_values_def split: option.splits)
qed

datatype ('c, 'w, 'i) sm_op =
    MCreate int "('c, 'w, 'i) SessionConfig"
  | MClose int string
  | MCloseAll int
  | MDirect int nat "'i cs_op"

text \<open>A direct operation on a reference that does not exist has no effect.\<close>

fun sm_step ::
    "('c, 'w, 'i) SessionManager \<Rightarrow> ('c, 'w, 'i) sm_op \<Rightarrow> ('c, 'w, 'i) SessionManager" where
  "sm_step m (MCreate now c) = fst (sm_createSession now c m)"
| "sm_step m (MClose now i) = fst (sm_closeSession now i m)"
| "sm_step m (MCloseAll now) = sm_closeAll now m"
| "sm_step m (MDirect now r e) = (if r < length (sm_heap m) then sm_update r (cs_apply now e) m else m)"

lemma sm_inv_step: "sm_inv m \<Longrightarrow> sm_inv (sm_step m e)"
proof (cases e)
  case (MDirect now r x)
  assume inv: "sm_inv m"
  have "sm_inv (sm_update r (cs_apply now x) m)" if "r < length (sm_heap m)"
  proof (rule sm_inv_update [OF inv])
    have "cs_inv (sm_heap m ! r)" using inv that by (auto simp: sm_inv_def)
    then show "cs_inv (cs_apply now x (sm_heap m ! r))" by (rule cs_inv_apply)
  qed simp
  then show ?thesis using inv by (simp add: MDirect)
qed (simp_all add: sm_inv_create sm_inv_close sm_inv_closeAll)

definition sm_initial :: "'c option \<Rightarrow> 'w option \<Rightarrow> int option \<Rightarrow> ('c, 'w, 'i) SessionManager" where
  "sm_initial c w k = \<lparr>sm_heap = [], sm_counter = 0, sm_sessions = [], sm_defaultClient = c,
     sm_defaultWallet = w, sm_maxSessions = (case k of None \<Rightarrow> None | Some n \<Rightarrow> if n \<le> 0 then None else Some n)\<rparr>"

lemma sm_new_initial: "sm_new c w k = Inr m \<Longrightarrow> m = sm_initial c w k"
  by (auto simp: sm_new_def sm_initial_def split: option.splits if_splits)

lemma sm_inv_initial: "sm_inv (sm_initial c w k)"
  by (auto simp: sm_initial_def sm_inv_def jm_values_def split: option.splits if_splits)

interpretation sm: invariant_machine sm_inv sm_step "sm_initial c w k" for c w k
  by unfold_locales
     (rule sm_inv_initial, rule sm_inv_step)

section \<open>Properties\<close>

text \<open>C10. Whatever a manager's clients do, through it or directly on the sessions they hold, it
  tracks each session once, under that session's own id, and never more of them than its limit;
  and every session keeps its contracts under unique, trimmed, non-empty names, none when closed.\<close>

theorem session_table_consistent:
  assumes "sm_new c w k = Inr m" "m' = foldl sm_step m ops"
  shows "jm_ok (sm_sessions m') \<and> distinct (jm_values (sm_sessions m'))
    \<and> (\<forall>i r. jm_get (sm_sessions m') i = Some r \<longrightarrow> cs_id (sm_heap m' ! r) = i)
    \<and> (\<forall>n. sm_maxSessions m' = Some n \<longrightarrow> int (length (sm_sessions m')) \<le> n)
    \<and> list_all cs_inv (sm_heap m')"
  using sm.inv_run [of c w k ops] assms(2) sm_new_initial [OF assms(1)]
  by (auto simp: sm_inv_def list_all_iff dest: jm_get_memD)

definition wit_config :: "(nat, nat, nat) SessionConfig" where
  "wit_config = \<lparr>sc_id = Some '' a '', sc_client = Some 7, sc_wallet = None,
     sc_contracts = Some [\<lparr>rp_name = Some ''vault '', rp_contractId = Some ''C1'', rp_instance = None,
                           rp_metadata = None\<rparr>],
     sc_metadata = None\<rparr>"

definition wit_session :: "(nat, nat, nat) ContractSession" where
  "wit_session = \<lparr>cs_id = ''a'', cs_client = 7, cs_wallet = None, cs_createdAt = 1, cs_metadata = [],
     cs_status = SActive, cs_updatedAt = 1,
     cs_contracts = [(''vault'', \<lparr>cc_name = ''vault'', cc_contractId = ''C1'', cc_instance = None,
                       cc_registeredAt = 1, cc_metadata = []\<rparr>)]\<rparr>"

lemmas sm_eval = sm_createSession_def sm_initial_def sm_full_def opt_else_def newContractSession_def
  opt_trim_def js_trim_def is_space_def cs_registerContract_def assertNotClosed_def cs_touch_def
  some_props_def jm_has_def Let_def

lemma wit_create:
  "sm_createSession 1 wit_config (sm_initial None None (Some 1)) =
    (\<lparr>sm_heap = [wit_session], sm_counter = 0, sm_sessions = [(''a'', 0)], sm_defaultClient = None,
      sm_defaultWallet = None, sm_maxSessions = Some 1\<rparr>, Inr 0)"
  by (simp add: sm_eval wit_config_def wit_session_def)

lemma session_table_consistent_witness:
  "jm_ok (sm_sessions (foldl sm_step (sm_initial None None (Some 1)) [MCreate 1 wit_config]))"
  using session_table_consistent
    [of None None "Some 1" "sm_initial None None (Some 1)" _ "[MCreate 1 wit_config]"]
  by (simp add: sm_new_def sm_initial_def)

text \<open>C38. A closed session is final: no operation changes it, and running work on it, registering
  a contract in it or resuming it raises.\<close>

theorem closed_session_is_final:
  assumes "cs_status s = SClosed"
  shows "cs_apply now e s = s
    \<and> (\<exists>m. cs_run fn s = (s, Inl (validationError m)))
    \<and> (\<exists>m. cs_registerContract now p s = (s, Inl (validationError m)))
    \<and> (\<exists>m. snd (cs_resume now s) = Inl (validationError m))
    \<and> cs_close now s = s"
  using assms cs_closed_inert [OF assms, of now e]
  by (simp add: cs_run_def assertActive_def cs_op_defs validationError_def)

lemma closed_session_is_final_witness:
  "cs_apply 9 SResume (cs_close 5 wit_session) = cs_close 5 wit_session"
  by (rule closed_session_is_final [THEN conjunct1])
     (simp add: wit_session_def cs_close_def cs_touch_def)

text \<open>Closing a tracked session through the manager closes that session, empties its contracts,
  forgets its id, and changes neither another session nor another id.\<close>

theorem close_session_effect:
  assumes "sm_inv m" "jm_get (sm_sessions m) i = Some r"
  shows "let m' = fst (sm_closeSession now i m) in
    cs_status (sm_heap m' ! r) = SClosed \<and> cs_contracts (sm_heap m' ! r) = []
    \<and> jm_get (sm_sessions m') = (jm_get (sm_sessions m))(i := None)
    \<and> (\<forall>k. k \<noteq> r \<longrightarrow> sm_heap m' ! k = sm_heap m ! k)"
proof -
  have r: "r < length (sm_heap m)" using assms jm_get_memD [OF assms(2)] by (auto simp: sm_inv_def)
  then have "cs_inv (sm_heap m ! r)" using assms(1) by (auto simp: sm_inv_def)
  then have "cs_status (cs_close now (sm_heap m ! r)) = SClosed
      \<and> cs_contracts (cs_close now (sm_heap m ! r)) = []"
    by (simp add: cs_inv_def cs_close_def cs_touch_def)
  then show ?thesis using r assms(2)
    by (simp add: sm_closeSession_def sm_update_def Let_def delete_conv')
qed

lemma close_session_effect_witness:
  "cs_contracts (sm_heap (fst (sm_closeSession 5 ''a''
     (fst (sm_createSession 1 wit_config (sm_initial None None (Some 1)))))) ! 0) = []"
  using close_session_effect
    [of "fst (sm_createSession 1 wit_config (sm_initial None None (Some 1)))" "''a''" 0 5]
    sm_inv_create [OF sm_inv_initial, of 1 wit_config None None "Some 1"]
  by (simp add: wit_create Let_def)

text \<open>The manager's size counts the sessions it tracks and not the open ones: a session closed by
  its holder still counts against the limit, so a manager without a single open session can refuse
  to create one.\<close>

theorem limit_counts_closed_sessions:
  "\<exists>m :: (nat, nat, nat) SessionManager. sm_inv m \<and> sm_size m = 1
     \<and> list_all (\<lambda>r. cs_isClosed (sm_heap m ! r)) (sm_listSessions m)
     \<and> (\<exists>e. sm_createSession 9 (wit_config\<lparr>sc_id := Some ''b''\<rparr>) m = (m, Inl e))"
proof -
  let ?m = "fst (sm_createSession 1 wit_config (sm_initial None None (Some 1)))"
  let ?m' = "sm_step ?m (MDirect 5 0 SClose)"
  have "sm_inv ?m'"
    by (rule sm_inv_step [OF sm_inv_create [OF sm_inv_initial]])
  moreover have "sm_size ?m' = 1"
    "list_all (\<lambda>r. cs_isClosed (sm_heap ?m' ! r)) (sm_listSessions ?m')"
    "\<exists>e. sm_createSession 9 (wit_config\<lparr>sc_id := Some ''b''\<rparr>) ?m' = (?m', Inl e)"
    unfolding wit_create fst_conv
    by (simp_all add: sm_update_def cs_close_def cs_touch_def wit_session_def sm_size_def
        sm_listSessions_def jm_values_def cs_isClosed_def sm_createSession_def sm_full_def)
  ultimately show ?thesis by blast
qed

end
