(* ===== verification/Events.thy ===== *)
theory Events
  imports Errors
begin

text \<open>
  The dispatcher of contract events (\<open>src/src/events/eventDispatcher.ts\<close>) and the event and
  filter types it shares with the WebSocket client (\<open>src/src/events/types.ts\<close>). A callback
  is a value of type \<open>'l\<close> with a behaviour that returns or throws; unlike the lifecycle emitter
  the dispatcher catches what a callback throws and goes on. The code of \<open>generateId\<close> returns
  the undeclared identifier \<open>sub__\<close>, which raises a \<open>ReferenceError\<close> when it runs.
\<close>

datatype SorobanEventType = EtContract | EtLedger

record EventFilter =
  ef_contractIds :: "string list option"
  ef_topics :: "string list option"
  ef_eventTypes :: "SorobanEventType list option"

record SorobanEvent =
  se_id :: string
  se_type :: SorobanEventType
  se_contractId :: "string option"
  se_topic :: "string option"
  se_topics :: "string list option"
  se_topicNames :: "string list option"
  se_eventName :: "string option"
  se_value :: jsv
  se_ledger :: int
  se_timestamp :: int

record 'l EventSubscription =
  es_id :: string
  es_filter :: EventFilter
  es_callback :: 'l
  es_isActive :: bool
  es_createdAt :: int

type_synonym 'l event_behaviour = "'l \<Rightarrow> SorobanEvent \<Rightarrow> jsv option"

record 'l EventDispatcher =
  ed_subscriptions :: "(string, 'l EventSubscription) jsmap"
  ed_eventCounts :: "(string, nat) jsmap"

definition ed_new :: "'l EventDispatcher" where
  "ed_new = \<lparr>ed_subscriptions = [], ed_eventCounts = []\<rparr>"

definition ed_generateId :: "thrown + string" where
  "ed_generateId = Inl (Raw (JErr ''ReferenceError'' ''sub__ is not defined'' []))"

definition ed_subscribe ::
    "int \<Rightarrow> EventFilter \<Rightarrow> 'l \<Rightarrow> string option \<Rightarrow> 'l EventDispatcher
      \<Rightarrow> 'l EventDispatcher \<times> (thrown + string)" where
  "ed_subscribe now f cb sid d =
    (case (case sid of None \<Rightarrow> ed_generateId | Some i \<Rightarrow> Inr i) of
       Inl e \<Rightarrow> (d, Inl e)
     | Inr i \<Rightarrow>
        (d\<lparr>ed_subscriptions := jm_set i \<lparr>es_id = i, es_filter = f, es_callback = cb,
             es_isActive = True, es_createdAt = now\<rparr> (ed_subscriptions d)\<rparr>, Inr i))"

definition ed_unsubscribe :: "string \<Rightarrow> 'l EventDispatcher \<Rightarrow> 'l EventDispatcher \<times> bool" where
  "ed_unsubscribe i d =
    (d\<lparr>ed_eventCounts := jm_delete i (ed_eventCounts d),
       ed_subscriptions := jm_delete i (ed_subscriptions d)\<rparr>, jm_has (ed_subscriptions d) i)"

definition ed_getSubscription :: "string \<Rightarrow> 'l EventDispatcher \<Rightarrow> 'l EventSubscription option" where
  "ed_getSubscription i d = jm_get (ed_subscriptions d) i"

definition ed_getSubscriptionCount :: "'l EventDispatcher \<Rightarrow> nat" where
  "ed_getSubscriptionCount d = length (ed_subscriptions d)"

definition ed_getEventCount :: "string \<Rightarrow> 'l EventDispatcher \<Rightarrow> nat" where
  "ed_getEventCount i d = (case jm_get (ed_eventCounts d) i of None \<Rightarrow> 0 | Some n \<Rightarrow> n)"

text \<open>A list that is missing or empty does not filter, nor does an event without the field.\<close>

definition filter_allows :: "string list option \<Rightarrow> string option \<Rightarrow> bool" where
  "filter_allows allowed x =
    (case allowed of None \<Rightarrow> True
     | Some xs \<Rightarrow> if xs = [] then True
         else (case x of None \<Rightarrow> True | Some y \<Rightarrow> if y = [] then True else y \<in> set xs))"

definition ed_matchesFilter :: "SorobanEvent \<Rightarrow> EventFilter \<Rightarrow> bool" where
  "ed_matchesFilter ev f \<longleftrightarrow>
    filter_allows (ef_contractIds f) (se_contractId ev)
    \<and> filter_allows (ef_topics f) (se_topic ev)
    \<and> (case ef_eventTypes f of None \<Rightarrow> True | Some ts \<Rightarrow> ts = [] \<or> se_type ev \<in> set ts)"

definition ed_incrementCount :: "string \<Rightarrow> 'l EventDispatcher \<Rightarrow> 'l EventDispatcher" where
  "ed_incrementCount i d =
    d\<lparr>ed_eventCounts := jm_set i (ed_getEventCount i d + 1) (ed_eventCounts d)\<rparr>"

text \<open>The loop, over the subscriptions held when it starts; the last component are the ids called.\<close>

fun ed_loop ::
    "'l event_behaviour \<Rightarrow> SorobanEvent \<Rightarrow> 'l EventSubscription list \<Rightarrow> nat \<Rightarrow> 'l EventDispatcher
      \<Rightarrow> 'l EventDispatcher \<times> nat \<times> string list" where
  "ed_loop beh ev [] n d = (d, n, [])"
| "ed_loop beh ev (s # ss) n d =
    (if \<not> es_isActive s \<or> \<not> ed_matchesFilter ev (es_filter s) then ed_loop beh ev ss n d
     else case beh (es_callback s) ev of
            Some _ \<Rightarrow> (let (d', m, called) = ed_loop beh ev ss n d in (d', m, es_id s # called))
          | None \<Rightarrow> (let (d', m, called) = ed_loop beh ev ss (n + 1) (ed_incrementCount (es_id s) d)
                     in (d', m, es_id s # called)))"

definition ed_dispatch ::
    "'l event_behaviour \<Rightarrow> SorobanEvent \<Rightarrow> 'l EventDispatcher
      \<Rightarrow> 'l EventDispatcher \<times> nat \<times> string list" where
  "ed_dispatch beh ev d = ed_loop beh ev (jm_values (ed_subscriptions d)) 0 d"

section \<open>Dispatch reaches every match\<close>

definition ed_target :: "SorobanEvent \<Rightarrow> 'l EventSubscription \<Rightarrow> bool" where
  "ed_target ev s \<longleftrightarrow> es_isActive s \<and> ed_matchesFilter ev (es_filter s)"

definition ed_ok :: "'l EventDispatcher \<Rightarrow> bool" where
  "ed_ok d \<longleftrightarrow> jm_ok (ed_subscriptions d) \<and> jm_all (\<lambda>i s. es_id s = i) (ed_subscriptions d)"

lemma ed_ok_new: "ed_ok ed_new"
  by (simp add: ed_ok_def ed_new_def)

lemma ed_ok_subscribe: "ed_ok d \<Longrightarrow> ed_ok (fst (ed_subscribe now f cb sid d))"
  by (auto simp: ed_ok_def ed_subscribe_def split: option.split sum.split intro!: jm_all_set)

lemma ed_ok_unsubscribe: "ed_ok d \<Longrightarrow> ed_ok (fst (ed_unsubscribe i d))"
  by (auto simp: ed_ok_def ed_unsubscribe_def)

lemma ed_incrementCount_simps [simp]:
  "ed_subscriptions (ed_incrementCount i d) = ed_subscriptions d"
  "ed_getEventCount j (ed_incrementCount i d) = ed_getEventCount j d + (if i = j then 1 else 0)"
  by (simp_all add: ed_incrementCount_def ed_getEventCount_def)

lemma ed_loop_spec:
  "case ed_loop beh ev ss n d of (d', m, called) \<Rightarrow>
     called = map es_id (filter (ed_target ev) ss)
     \<and> ed_subscriptions d' = ed_subscriptions d
     \<and> m = n + length (filter (\<lambda>s. ed_target ev s \<and> beh (es_callback s) ev = None) ss)
     \<and> (\<forall>i. ed_getEventCount i d' = ed_getEventCount i d
          + length (filter (\<lambda>s. ed_target ev s \<and> beh (es_callback s) ev = None \<and> es_id s = i) ss))"
proof (induction beh ev ss n d rule: ed_loop.induct)
  case (2 beh ev s ss n d)
  show ?case
  proof (cases "ed_target ev s")
    case True
    with 2 show ?thesis
      by (cases "beh (es_callback s) ev") (auto simp: ed_target_def split: prod.splits)
  qed (use 2 in \<open>auto simp: ed_target_def\<close>)
qed simp

section \<open>Properties\<close>

text \<open>One failing callback does not affect the others: a dispatch calls every active subscription
  whose filter matches, in subscription order, returns how many of them did not throw, adds one to
  the count of exactly those, and changes no subscription.\<close>

theorem dispatch_isolates_callbacks:
  "case ed_dispatch beh ev d of (d', m, called) \<Rightarrow>
     called = map es_id (filter (ed_target ev) (jm_values (ed_subscriptions d)))
     \<and> ed_subscriptions d' = ed_subscriptions d
     \<and> m = length (filter (\<lambda>s. ed_target ev s \<and> beh (es_callback s) ev = None)
                     (jm_values (ed_subscriptions d)))
     \<and> (\<forall>i. ed_getEventCount i d' = ed_getEventCount i d
          + length (filter (\<lambda>s. ed_target ev s \<and> beh (es_callback s) ev = None \<and> es_id s = i)
                     (jm_values (ed_subscriptions d))))"
  using ed_loop_spec [where beh = beh and ev = ev and ss = "jm_values (ed_subscriptions d)" and n = 0
      and d = d]
  by (simp add: ed_dispatch_def)

end
