(* ===== verification/WebSocketClient.thy ===== *)
theory WebSocketClient
  imports Events
begin

text \<open>
  The WebSocket client (\<open>src/src/client/websocket/websocketManager.ts\<close>). Its state is the
  class's fields together with what the browser keeps: every socket the client ever created with
  its ready state, the pending reconnect timers, what was sent on which socket, and what the
  connection callback was told. The socket events and the reconnect timer are operations. The
  decoding of a message (\<open>JSON.parse\<close> and \<open>parseEvents\<close>) is its argument.
\<close>

datatype ReadyState = WsConnecting | WsOpen | WsClosing | WsClosed

record WebSocketConfig =
  wc_reconnectAttempts :: nat
  wc_reconnectDelay :: nat
  wc_maxReconnectDelay :: nat
  wc_heartbeatInterval :: nat

definition ws_default_config :: WebSocketConfig where
  "ws_default_config = \<lparr>wc_reconnectAttempts = 5, wc_reconnectDelay = 1000,
     wc_maxReconnectDelay = 30000, wc_heartbeatInterval = 30000\<rparr>"

datatype ws_out = WSubscribe string EventFilter | WUnsubscribe string | WPing

record 'l WebSocketEventSubscription =
  wss_id :: string
  wss_filter :: EventFilter
  wss_callback :: 'l
  wss_isActive :: bool

record 'l WebSocketManager =
  ws_current :: "nat option"
  ws_subscriptions :: "(string, 'l WebSocketEventSubscription) jsmap"
  ws_reconnectAttempts :: nat
  ws_reconnectTimer :: "nat option"
  ws_heartbeat :: bool
  ws_isConnecting :: bool
  ws_isDestroyed :: bool
  ws_config :: WebSocketConfig
  ws_sockets :: "ReadyState list"
  ws_pending :: "(nat \<times> nat) list"
  ws_nextHandle :: nat
  ws_sent :: "(nat \<times> ws_out) list"
  ws_notices :: "bool list"

definition ws_new :: "WebSocketConfig \<Rightarrow> 'l WebSocketManager" where
  "ws_new c = \<lparr>ws_current = None, ws_subscriptions = [], ws_reconnectAttempts = 0,
     ws_reconnectTimer = None, ws_heartbeat = False, ws_isConnecting = False,
     ws_isDestroyed = False, ws_config = c, ws_sockets = [], ws_pending = [], ws_nextHandle = 1,
     ws_sent = [], ws_notices = []\<rparr>"

text \<open>\<open>rpcUrl.replace(/^http/, 'ws')\<close>\<close>

definition ws_url :: "string \<Rightarrow> string" where
  "ws_url u = (if str_starts u ''http'' then ''ws'' @ drop 4 u else u)"

definition ws_state_is :: "ReadyState \<Rightarrow> 'l WebSocketManager \<Rightarrow> bool" where
  "ws_state_is st w =
    (case ws_current w of None \<Rightarrow> False | Some k \<Rightarrow> k < length (ws_sockets w) \<and> ws_sockets w ! k = st)"

definition ws_isConnected :: "'l WebSocketManager \<Rightarrow> bool" where
  "ws_isConnected w = ws_state_is WsOpen w"

definition ws_getSubscriptionCount :: "'l WebSocketManager \<Rightarrow> nat" where
  "ws_getSubscriptionCount w = length (ws_subscriptions w)"

text \<open>\<open>send\<close> throws while the socket connects, and drops the message once it is closing.\<close>

definition ws_send :: "ws_out \<Rightarrow> 'l WebSocketManager \<Rightarrow> 'l WebSocketManager \<times> (jsv + unit)" where
  "ws_send msg w =
    (case ws_current w of None \<Rightarrow> (w, Inr ())
     | Some k \<Rightarrow>
        if ws_state_is WsConnecting w
        then (w, Inl (JErr ''InvalidStateError'' ''Still in CONNECTING state'' []))
        else if ws_state_is WsOpen w then (w\<lparr>ws_sent := ws_sent w @ [(k, msg)]\<rparr>, Inr ())
        else (w, Inr ()))"

definition sendSubscriptionMessage ::
    "'l WebSocketEventSubscription \<Rightarrow> 'l WebSocketManager \<Rightarrow> 'l WebSocketManager \<times> (jsv + unit)" where
  "sendSubscriptionMessage s w = ws_send (WSubscribe (wss_id s) (wss_filter s)) w"

definition sendUnsubscriptionMessage ::
    "string \<Rightarrow> 'l WebSocketManager \<Rightarrow> 'l WebSocketManager \<times> (jsv + unit)" where
  "sendUnsubscriptionMessage i w = ws_send (WUnsubscribe i) w"

fun resubscribe_loop ::
    "'l WebSocketEventSubscription list \<Rightarrow> 'l WebSocketManager \<Rightarrow> 'l WebSocketManager \<times> (jsv + unit)" where
  "resubscribe_loop [] w = (w, Inr ())"
| "resubscribe_loop (s # ss) w =
    (if wss_isActive s then
       (case sendSubscriptionMessage s w of
          (w', Inl e) \<Rightarrow> (w', Inl e)
        | (w', Inr _) \<Rightarrow> resubscribe_loop ss w')
     else resubscribe_loop ss w)"

definition resubscribeAll :: "'l WebSocketManager \<Rightarrow> 'l WebSocketManager \<times> (jsv + unit)" where
  "resubscribeAll w = resubscribe_loop (jm_values (ws_subscriptions w)) w"

definition ws_stopHeartbeat :: "'l WebSocketManager \<Rightarrow> 'l WebSocketManager" where
  "ws_stopHeartbeat w = w\<lparr>ws_heartbeat := False\<rparr>"

definition ws_startHeartbeat :: "'l WebSocketManager \<Rightarrow> 'l WebSocketManager" where
  "ws_startHeartbeat w = (ws_stopHeartbeat w)\<lparr>ws_heartbeat := True\<rparr>"

definition ws_onHeartbeat :: "'l WebSocketManager \<Rightarrow> 'l WebSocketManager" where
  "ws_onHeartbeat w = (if ws_state_is WsOpen w then fst (ws_send WPing w) else w)"

text \<open>The constructor of a socket may throw (\<open>fails\<close>).\<close>

definition ws_connect :: "jsv option \<Rightarrow> 'l WebSocketManager \<Rightarrow> 'l WebSocketManager \<times> (jsv + unit)" where
  "ws_connect fails w =
    (if ws_isConnecting w \<or> ws_isDestroyed w then (w, Inr ())
     else case fails of
       Some e \<Rightarrow> (w\<lparr>ws_isConnecting := False\<rparr>, Inl e)
     | None \<Rightarrow> (w\<lparr>ws_isConnecting := True, ws_sockets := ws_sockets w @ [WsConnecting],
                 ws_current := Some (length (ws_sockets w))\<rparr>, Inr ()))"

definition ws_set_state :: "nat \<Rightarrow> ReadyState \<Rightarrow> 'l WebSocketManager \<Rightarrow> 'l WebSocketManager" where
  "ws_set_state k st w = w\<lparr>ws_sockets := (ws_sockets w)[k := st]\<rparr>"

definition ws_notify :: "bool \<Rightarrow> 'l WebSocketManager \<Rightarrow> 'l WebSocketManager" where
  "ws_notify b w = w\<lparr>ws_notices := ws_notices w @ [b]\<rparr>"

definition ws_onopen :: "nat \<Rightarrow> 'l WebSocketManager \<Rightarrow> 'l WebSocketManager \<times> (jsv + unit)" where
  "ws_onopen k w =
    (let w1 = ws_set_state k WsOpen w;
         w2 = w1\<lparr>ws_isConnecting := False, ws_reconnectAttempts := 0\<rparr> in
     resubscribeAll (ws_notify True (ws_startHeartbeat w2)))"

definition ws_delay :: "WebSocketConfig \<Rightarrow> nat \<Rightarrow> nat" where
  "ws_delay c n = min (wc_reconnectDelay c * 2 ^ n) (wc_maxReconnectDelay c)"

interpretation ws_backoff: exp_backoff "ws_delay c" "wc_reconnectDelay c" "wc_maxReconnectDelay c" for c
  by unfold_locales (simp add: ws_delay_def)

definition ws_handleReconnect :: "'l WebSocketManager \<Rightarrow> 'l WebSocketManager" where
  "ws_handleReconnect w =
    (if ws_isDestroyed w \<or> ws_reconnectAttempts w \<ge> wc_reconnectAttempts (ws_config w) then w
     else let h = ws_nextHandle w in
       w\<lparr>ws_reconnectTimer := Some h, ws_nextHandle := Suc h,
         ws_pending := ws_pending w @ [(h, ws_delay (ws_config w) (ws_reconnectAttempts w))]\<rparr>)"

definition ws_onReconnectTimer ::
    "nat \<Rightarrow> jsv option \<Rightarrow> 'l WebSocketManager \<Rightarrow> 'l WebSocketManager" where
  "ws_onReconnectTimer h fails w =
    fst (ws_connect fails (w\<lparr>ws_pending := filter (\<lambda>(k, d). k \<noteq> h) (ws_pending w),
                             ws_reconnectAttempts := Suc (ws_reconnectAttempts w)\<rparr>))"

definition ws_onclose :: "nat \<Rightarrow> 'l WebSocketManager \<Rightarrow> 'l WebSocketManager" where
  "ws_onclose k w =
    (let w1 = ws_set_state k WsClosed w in
     ws_handleReconnect (ws_notify False (ws_stopHeartbeat (w1\<lparr>ws_isConnecting := False\<rparr>))))"

definition ws_onerror :: "'l WebSocketManager \<Rightarrow> 'l WebSocketManager" where
  "ws_onerror w = w\<lparr>ws_isConnecting := False\<rparr>"

definition ws_clearReconnectTimer :: "'l WebSocketManager \<Rightarrow> 'l WebSocketManager" where
  "ws_clearReconnectTimer w =
    (case ws_reconnectTimer w of None \<Rightarrow> w
     | Some h \<Rightarrow> w\<lparr>ws_pending := filter (\<lambda>(k, d). k \<noteq> h) (ws_pending w), ws_reconnectTimer := None\<rparr>)"

text \<open>\<open>close\<close> on a socket that is not closed yet starts its closing handshake.\<close>

definition ws_disconnect :: "'l WebSocketManager \<Rightarrow> 'l WebSocketManager" where
  "ws_disconnect w =
    (let w1 = ws_clearReconnectTimer (ws_stopHeartbeat (w\<lparr>ws_isDestroyed := True\<rparr>)) in
     case ws_current w1 of None \<Rightarrow> w1
     | Some k \<Rightarrow>
        (if ws_state_is WsClosed w1 then w1 else ws_set_state k WsClosing w1)\<lparr>ws_current := None\<rparr>)"

definition ws_subscribe ::
    "string \<Rightarrow> EventFilter \<Rightarrow> 'l \<Rightarrow> 'l WebSocketManager \<Rightarrow> 'l WebSocketManager \<times> string" where
  "ws_subscribe i f cb w =
    (let s = \<lparr>wss_id = i, wss_filter = f, wss_callback = cb, wss_isActive = True\<rparr>;
         w1 = w\<lparr>ws_subscriptions := jm_set i s (ws_subscriptions w)\<rparr> in
     (if ws_state_is WsOpen w1 then fst (sendSubscriptionMessage s w1) else w1, i))"

definition ws_unsubscribe :: "string \<Rightarrow> 'l WebSocketManager \<Rightarrow> 'l WebSocketManager" where
  "ws_unsubscribe i w =
    (case jm_get (ws_subscriptions w) i of None \<Rightarrow> w
     | Some s \<Rightarrow>
        let w1 = w\<lparr>ws_subscriptions := jm_delete i (ws_subscriptions w)\<rparr> in
        if ws_state_is WsOpen w1 then fst (sendUnsubscriptionMessage i w1) else w1)"

text \<open>A list filters when it is present, even when it is empty.\<close>

definition ws_allows :: "string list option \<Rightarrow> string option \<Rightarrow> bool" where
  "ws_allows allowed x =
    (case allowed of None \<Rightarrow> True
     | Some xs \<Rightarrow> (case x of None \<Rightarrow> True | Some y \<Rightarrow> if y = [] then True else y \<in> set xs))"

definition eventMatchesFilter :: "SorobanEvent \<Rightarrow> EventFilter \<Rightarrow> bool" where
  "eventMatchesFilter ev f \<longleftrightarrow>
    ws_allows (ef_contractIds f) (se_contractId ev)
    \<and> ws_allows (ef_topics f) (se_topic ev)
    \<and> (case ef_eventTypes f of None \<Rightarrow> True | Some ts \<Rightarrow> se_type ev \<in> set ts)"

fun ws_deliver ::
    "'l event_behaviour \<Rightarrow> SorobanEvent \<Rightarrow> 'l WebSocketEventSubscription list
      \<Rightarrow> string list \<times> jsv option" where
  "ws_deliver beh ev [] = ([], None)"
| "ws_deliver beh ev (s # ss) =
    (if wss_isActive s \<and> eventMatchesFilter ev (wss_filter s) then
       (case beh (wss_callback s) ev of
          Some e \<Rightarrow> ([wss_id s], Some e)
        | None \<Rightarrow> (let (called, r) = ws_deliver beh ev ss in (wss_id s # called, r)))
     else ws_deliver beh ev ss)"

text \<open>
  What a message decodes to: a thrown parse error, an event, or anything else. The result is
  the subscriptions called, with the error that was caught and logged.
\<close>

datatype ws_in = WIError jsv | WIEvent SorobanEvent | WIOther

definition ws_handleMessage ::
    "(SorobanEvent \<Rightarrow> jsv option) \<Rightarrow> 'l event_behaviour \<Rightarrow> ws_in \<Rightarrow> 'l WebSocketManager
      \<Rightarrow> string list \<times> jsv option" where
  "ws_handleMessage onEvent beh msg w =
    (case msg of
       WIError e \<Rightarrow> ([], Some e)
     | WIOther \<Rightarrow> ([], None)
     | WIEvent ev \<Rightarrow>
        (case onEvent ev of Some e \<Rightarrow> ([], Some e)
         | None \<Rightarrow> ws_deliver beh ev (jm_values (ws_subscriptions w))))"

section \<open>Steps\<close>

datatype 'l ws_event =
    WConnect "jsv option"
  | WOnOpen nat
  | WOnClose nat
  | WOnError
  | WTimer nat "jsv option"
  | WHeartbeat
  | WDisconnect
  | WSub string EventFilter 'l
  | WUnsub string

fun ws_step :: "'l WebSocketManager \<Rightarrow> 'l ws_event \<Rightarrow> 'l WebSocketManager" where
  "ws_step w (WConnect f) = fst (ws_connect f w)"
| "ws_step w (WOnOpen k) = fst (ws_onopen k w)"
| "ws_step w (WOnClose k) = ws_onclose k w"
| "ws_step w WOnError = ws_onerror w"
| "ws_step w (WTimer h f) = ws_onReconnectTimer h f w"
| "ws_step w WHeartbeat = ws_onHeartbeat w"
| "ws_step w WDisconnect = ws_disconnect w"
| "ws_step w (WSub i f cb) = fst (ws_subscribe i f cb w)"
| "ws_step w (WUnsub i) = ws_unsubscribe i w"

section \<open>What each operation leaves alone\<close>

definition ws_frame :: "'l WebSocketManager \<Rightarrow> nat \<times> bool \<times> WebSocketConfig" where
  "ws_frame w = (length (ws_sockets w), ws_isDestroyed w, ws_config w)"

lemma ws_send_frame [simp]:
  "ws_frame (fst (ws_send msg w)) = ws_frame w"
  "ws_sockets (fst (ws_send msg w)) = ws_sockets w"
  "ws_current (fst (ws_send msg w)) = ws_current w"
  "ws_subscriptions (fst (ws_send msg w)) = ws_subscriptions w"
  by (auto simp: ws_send_def ws_frame_def split: option.split)

lemma resubscribe_frame [simp]:
  "ws_frame (fst (resubscribe_loop ss w)) = ws_frame w"
proof (induction ss w rule: resubscribe_loop.induct)
  case (2 s ss w)
  have "ws_frame (fst (sendSubscriptionMessage s w)) = ws_frame w"
    by (simp add: sendSubscriptionMessage_def)
  with 2 show ?case by (auto split: prod.split sum.split)
qed simp

lemma ws_step_destroyed:
  assumes "ws_isDestroyed w"
  shows "ws_isDestroyed (ws_step w e) \<and> length (ws_sockets (ws_step w e)) = length (ws_sockets w)"
proof (cases e)
  case (WOnOpen k)
  let ?w = "ws_notify True (ws_startHeartbeat ((ws_set_state k WsOpen w)\<lparr>ws_isConnecting := False,
      ws_reconnectAttempts := 0\<rparr>))"
  have "ws_frame (fst (resubscribeAll ?w)) = ws_frame ?w" by (simp add: resubscribeAll_def)
  then show ?thesis
    using assms by (simp add: WOnOpen ws_onopen_def ws_frame_def ws_notify_def ws_startHeartbeat_def
        ws_stopHeartbeat_def ws_set_state_def)
next
  case WHeartbeat
  then show ?thesis using assms ws_send_frame(1) [of WPing w]
    by (simp add: ws_onHeartbeat_def ws_frame_def)
next
  case (WSub i f cb)
  let ?s = "\<lparr>wss_id = i, wss_filter = f, wss_callback = cb, wss_isActive = True\<rparr>"
  show ?thesis
    using assms ws_send_frame(1) [of "WSubscribe i f" "w\<lparr>ws_subscriptions := jm_set i ?s (ws_subscriptions w)\<rparr>"]
    by (simp add: WSub ws_subscribe_def sendSubscriptionMessage_def ws_frame_def Let_def)
next
  case (WUnsub i)
  show ?thesis
    using assms ws_send_frame(1) [of "WUnsubscribe i" "w\<lparr>ws_subscriptions := jm_delete i (ws_subscriptions w)\<rparr>"]
    by (auto simp: WUnsub ws_unsubscribe_def sendUnsubscriptionMessage_def ws_frame_def Let_def
        split: option.split)
next
  case WDisconnect
  then show ?thesis using assms
    by (auto simp: ws_disconnect_def ws_clearReconnectTimer_def ws_stopHeartbeat_def ws_set_state_def
        Let_def split: option.split)
qed (use assms in \<open>auto simp: ws_connect_def ws_onclose_def ws_onerror_def ws_onReconnectTimer_def
      ws_handleReconnect_def ws_notify_def ws_stopHeartbeat_def ws_set_state_def Let_def\<close>)

section \<open>Resubscription\<close>

lemma resubscribe_open:
  "ws_current w = Some k \<Longrightarrow> k < length (ws_sockets w) \<Longrightarrow> ws_sockets w ! k = WsOpen \<Longrightarrow>
    resubscribe_loop ss w =
      (w\<lparr>ws_sent := ws_sent w @ map (\<lambda>s. (k, WSubscribe (wss_id s) (wss_filter s)))
           (filter wss_isActive ss)\<rparr>, Inr ())"
proof (induction ss arbitrary: w)
  case (Cons s ss)
  have st: "ws_state_is WsOpen w" "\<not> ws_state_is WsConnecting w"
    using Cons.prems by (simp_all add: ws_state_is_def)
  have snd: "sendSubscriptionMessage s w =
      (w\<lparr>ws_sent := ws_sent w @ [(k, WSubscribe (wss_id s) (wss_filter s))]\<rparr>, Inr ())"
    using Cons.prems st by (simp add: sendSubscriptionMessage_def ws_send_def)
  show ?case
    using Cons.prems Cons.IH [of "w\<lparr>ws_sent := ws_sent w @ [(k, WSubscribe (wss_id s) (wss_filter s))]\<rparr>"]
      Cons.IH [of w]
    by (simp add: snd)
qed simp

section \<open>Properties\<close>

text \<open>C32. Once the client is disconnected it stays disconnected: whatever events, timers and calls
  follow, it never creates another socket.\<close>

theorem disconnect_is_permanent:
  "ws_isDestroyed (foldl ws_step (ws_disconnect w) es)
    \<and> length (ws_sockets (foldl ws_step (ws_disconnect w) es)) = length (ws_sockets w)"
proof -
  have "ws_isDestroyed v \<Longrightarrow> ws_isDestroyed (foldl ws_step v es)
      \<and> length (ws_sockets (foldl ws_step v es)) = length (ws_sockets v)" for v :: "'a WebSocketManager"
    by (induction es arbitrary: v) (simp_all add: ws_step_destroyed)
  moreover have "ws_isDestroyed (ws_disconnect w)"
    "length (ws_sockets (ws_disconnect w)) = length (ws_sockets w)"
    by (auto simp: ws_disconnect_def ws_clearReconnectTimer_def ws_stopHeartbeat_def ws_set_state_def
        Let_def split: option.split)
  ultimately show ?thesis by metis
qed

text \<open>When the current socket opens, every active subscription is sent on it once, in subscription
  order, whatever the number of reconnections, and the attempt counter starts over.\<close>

theorem open_resubscribes_all:
  assumes "ws_current w = Some k" "k < length (ws_sockets w)"
  shows "let w' = fst (ws_onopen k w) in
    ws_sent w' = ws_sent w @ map (\<lambda>s. (k, WSubscribe (wss_id s) (wss_filter s)))
                   (filter wss_isActive (jm_values (ws_subscriptions w)))
    \<and> ws_reconnectAttempts w' = 0 \<and> ws_isConnected w' \<and> ws_heartbeat w'"
  using assms resubscribe_open
    [of "ws_notify True (ws_startHeartbeat ((ws_set_state k WsOpen w)\<lparr>ws_isConnecting := False,
      ws_reconnectAttempts := 0\<rparr>))" k "jm_values (ws_subscriptions w)"]
  by (simp add: ws_onopen_def resubscribeAll_def ws_notify_def ws_startHeartbeat_def
      ws_stopHeartbeat_def ws_set_state_def ws_isConnected_def ws_state_is_def Let_def)

definition wit_filter :: EventFilter where
  "wit_filter = \<lparr>ef_contractIds = None, ef_topics = None, ef_eventTypes = None\<rparr>"

definition wit_ws :: "nat WebSocketManager" where
  "wit_ws = fst (ws_connect None (fst (ws_subscribe ''s1'' wit_filter 7 (ws_new ws_default_config))))"

lemma wit_ws_eval:
  "ws_current wit_ws = Some 0" "ws_sockets wit_ws = [WsConnecting]" "ws_sent wit_ws = []"
  "ws_subscriptions wit_ws = [(''s1'', \<lparr>wss_id = ''s1'', wss_filter = wit_filter,
     wss_callback = 7, wss_isActive = True\<rparr>)]"
  by (simp_all add: wit_ws_def ws_connect_def ws_subscribe_def ws_new_def ws_state_is_def Let_def)

lemma open_resubscribes_all_witness:
  "ws_sent (fst (ws_onopen 0 wit_ws)) = [(0, WSubscribe ''s1'' wit_filter)]"
  using open_resubscribes_all [of wit_ws 0] by (simp add: wit_ws_eval Let_def jm_values_def)

text \<open>The client does not check for an open connection: connecting while connected opens a second
  socket and forgets the first one, which stays open and is not closed by a later disconnect.\<close>

theorem reconnect_leaks_open_socket:
  "\<exists>w :: nat WebSocketManager. ws_isConnected w
     \<and> (let w' = ws_disconnect (fst (ws_connect None w)) in
        list_ex (\<lambda>st. st = WsOpen) (ws_sockets w') \<and> ws_current w' = None)"
proof -
  let ?w = "fst (ws_onopen 0 wit_ws)"
  have w: "ws_current ?w = Some 0" "ws_sockets ?w = [WsOpen]" "\<not> ws_isConnecting ?w" "\<not> ws_isDestroyed ?w"
    by (simp_all add: ws_onopen_def resubscribeAll_def ws_notify_def ws_startHeartbeat_def
      ws_stopHeartbeat_def ws_set_state_def ws_state_is_def Let_def wit_ws_eval jm_values_def
      sendSubscriptionMessage_def ws_send_def)
     (simp add: wit_ws_def ws_connect_def ws_subscribe_def ws_new_def ws_state_is_def Let_def)
  have "ws_isConnected ?w" by (simp add: ws_isConnected_def ws_state_is_def w)
  moreover have "let w' = ws_disconnect (fst (ws_connect None ?w)) in
      list_ex (\<lambda>st. st = WsOpen) (ws_sockets w') \<and> ws_current w' = None"
    by (auto simp: ws_disconnect_def ws_connect_def w ws_clearReconnectTimer_def ws_stopHeartbeat_def
        ws_state_is_def ws_set_state_def Let_def split: option.split)
  ultimately show ?thesis by blast
qed

end
