(* ===== verification/Subscriptions.thy ===== *)
theory Subscriptions
  imports WebSocketClient Reconnect
begin

text \<open>
  The subscription service (\<open>src/src/subscriptions/subscriptionService.ts\<close>), which composes the
  dispatcher, the WebSocket client and the reconnection manager: the client's events go to the
  dispatcher and its connection changes to the manager. Cleanup timers are in the state with their
  delay. Callbacks of one-shot subscriptions are marked as such.
\<close>

record SubscriptionOptions =
  so_maxEvents :: "nat option"
  so_timeout :: "nat option"

datatype 'l sub_callback = Plain 'l | Once 'l

record ('l, 'n) SubscriptionService =
  sv_dispatcher :: "'l sub_callback EventDispatcher"
  sv_ws :: "'l sub_callback WebSocketManager"
  sv_reconnection :: "'n ReconnectionManager"
  sv_cleanupTimers :: "(string, nat) jsmap"

definition sv_new :: "('l, 'n) SubscriptionService" where
  "sv_new = \<lparr>sv_dispatcher = ed_new, sv_ws = ws_new ws_default_config,
     sv_reconnection = rm_new DEFAULT_RECONNECTION_CONFIG, sv_cleanupTimers = []\<rparr>"

definition positive :: "nat option \<Rightarrow> bool" where
  "positive n = (case n of None \<Rightarrow> False | Some k \<Rightarrow> k \<noteq> 0)"

definition sv_scheduleCleanup ::
    "string \<Rightarrow> SubscriptionOptions \<Rightarrow> ('l, 'n) SubscriptionService \<Rightarrow> ('l, 'n) SubscriptionService" where
  "sv_scheduleCleanup i opts s =
    (if positive (so_timeout opts)
     then s\<lparr>sv_cleanupTimers := jm_set i (case so_timeout opts of None \<Rightarrow> 0 | Some t \<Rightarrow> t)
              (sv_cleanupTimers s)\<rparr>
     else s)"

definition sv_onCleanupTimer :: "string \<Rightarrow> ('l, 'n) SubscriptionService \<Rightarrow> ('l, 'n) SubscriptionService" where
  "sv_onCleanupTimer i s =
    s\<lparr>sv_dispatcher := fst (ed_unsubscribe i (sv_dispatcher s)),
      sv_cleanupTimers := jm_delete i (sv_cleanupTimers s)\<rparr>"

text \<open>\<open>dispatcher.subscribe(filter, callback)\<close> passes no id.\<close>

definition sv_subscribe_callback ::
    "int \<Rightarrow> EventFilter \<Rightarrow> 'l sub_callback \<Rightarrow> SubscriptionOptions option
      \<Rightarrow> ('l, 'n) SubscriptionService \<Rightarrow> ('l, 'n) SubscriptionService \<times> (thrown + string)" where
  "sv_subscribe_callback now f cb opts s =
    (case ed_subscribe now f cb None (sv_dispatcher s) of
       (d, Inl e) \<Rightarrow> (s\<lparr>sv_dispatcher := d\<rparr>, Inl e)
     | (d, Inr i) \<Rightarrow>
        let s1 = s\<lparr>sv_dispatcher := d\<rparr> in
        ((case opts of None \<Rightarrow> s1
          | Some p \<Rightarrow> if positive (so_maxEvents p) \<or> positive (so_timeout p)
                      then sv_scheduleCleanup i p s1 else s1), Inr i))"

definition sv_subscribe ::
    "int \<Rightarrow> EventFilter \<Rightarrow> 'l \<Rightarrow> SubscriptionOptions option
      \<Rightarrow> ('l, 'n) SubscriptionService \<Rightarrow> ('l, 'n) SubscriptionService \<times> (thrown + string)" where
  "sv_subscribe now f cb opts s = sv_subscribe_callback now f (Plain cb) opts s"

definition sv_subscribeOnce ::
    "int \<Rightarrow> EventFilter \<Rightarrow> 'l \<Rightarrow> ('l, 'n) SubscriptionService
      \<Rightarrow> ('l, 'n) SubscriptionService \<times> (thrown + string)" where
  "sv_subscribeOnce now f cb s = sv_subscribe_callback now f (Once cb) None s"

definition sv_start :: "jsv option \<Rightarrow> ('l, 'n) SubscriptionService
      \<Rightarrow> ('l, 'n) SubscriptionService \<times> (jsv + unit)" where
  "sv_start fails s = (let (w, r) = ws_connect fails (sv_ws s) in (s\<lparr>sv_ws := w\<rparr>, r))"

definition sv_onConnectionChange :: "bool \<Rightarrow> ('l, 'n) SubscriptionService \<Rightarrow> ('l, 'n) SubscriptionService" where
  "sv_onConnectionChange connected s =
    (if connected then s\<lparr>sv_reconnection := rm_markConnected (sv_reconnection s)\<rparr>
     else s\<lparr>sv_reconnection := rm_scheduleReconnect (rm_markDisconnected (sv_reconnection s))\<rparr>)"

text \<open>The events of the socket, with the callback the service installs.\<close>

definition sv_onopen :: "nat \<Rightarrow> ('l, 'n) SubscriptionService \<Rightarrow> ('l, 'n) SubscriptionService" where
  "sv_onopen k s = sv_onConnectionChange True (s\<lparr>sv_ws := fst (ws_onopen k (sv_ws s))\<rparr>)"

definition sv_onclose :: "nat \<Rightarrow> ('l, 'n) SubscriptionService \<Rightarrow> ('l, 'n) SubscriptionService" where
  "sv_onclose k s = sv_onConnectionChange False (s\<lparr>sv_ws := ws_onclose k (sv_ws s)\<rparr>)"

definition sv_onevent ::
    "'l sub_callback event_behaviour \<Rightarrow> SorobanEvent \<Rightarrow> ('l, 'n) SubscriptionService
      \<Rightarrow> ('l, 'n) SubscriptionService" where
  "sv_onevent beh ev s = s\<lparr>sv_dispatcher := fst (ed_dispatch beh ev (sv_dispatcher s))\<rparr>"

definition sv_stop :: "('l, 'n) SubscriptionService \<Rightarrow> ('l, 'n) SubscriptionService" where
  "sv_stop s = s\<lparr>sv_ws := ws_disconnect (sv_ws s), sv_reconnection := rm_reset (sv_reconnection s),
     sv_cleanupTimers := []\<rparr>"

definition sv_isConnected :: "('l, 'n) SubscriptionService \<Rightarrow> bool" where
  "sv_isConnected s = ws_isConnected (sv_ws s)"

definition sv_watch :: "'n \<Rightarrow> ('l, 'n) SubscriptionService \<Rightarrow> ('l, 'n) SubscriptionService" where
  "sv_watch cb s = s\<lparr>sv_reconnection := rm_onStateChange cb (sv_reconnection s)\<rparr>"

section \<open>Properties\<close>

text \<open>No subscription can be made through the service: it passes no id, the dispatcher then
  generates one by an identifier that is not declared, and the call raises and changes nothing.\<close>

theorem subscribe_always_raises:
  "sv_subscribe now f cb opts s = (s, Inl (Raw (JErr ''ReferenceError'' ''sub__ is not defined'' [])))
   \<and> sv_subscribeOnce now f cb s = (s, Inl (Raw (JErr ''ReferenceError'' ''sub__ is not defined'' [])))"
  by (simp add: sv_subscribe_def sv_subscribeOnce_def sv_subscribe_callback_def ed_subscribe_def
      ed_generateId_def)

text \<open>When a socket closes while both budgets last, the WebSocket client and the reconnection manager
  each set a timer, so one disconnect leads to two reconnections.\<close>

theorem close_schedules_two_reconnects:
  assumes "\<not> ws_isDestroyed (sv_ws s)"
    and "ws_reconnectAttempts (sv_ws s) < wc_reconnectAttempts (ws_config (sv_ws s))"
    and "rm_attempts (sv_reconnection s) < rcf_maxAttempts (rm_config (sv_reconnection s))"
  shows "length (ws_pending (sv_ws (sv_onclose k s))) = Suc (length (ws_pending (sv_ws s)))
    \<and> rm_state (sv_reconnection (sv_onclose k s)) = Reconnecting
    \<and> rm_pending (sv_reconnection (sv_onclose k s)) \<noteq> []"
  using assms
  by (simp add: sv_onclose_def sv_onConnectionChange_def ws_onclose_def ws_handleReconnect_def
      ws_notify_def ws_stopHeartbeat_def ws_set_state_def rm_scheduleReconnect_def
      rm_markDisconnected_def rm_transition_def Let_def)

lemma close_schedules_two_reconnects_witness:
  "length (ws_pending (sv_ws (sv_onclose 0 (sv_new :: (nat, nat) SubscriptionService)))) = 1"
  using close_schedules_two_reconnects [of "sv_new :: (nat, nat) SubscriptionService" 0]
  by (simp add: sv_new_def ws_new_def ws_default_config_def rm_new_def DEFAULT_RECONNECTION_CONFIG_def)

end
