(* ===== verification/Pipeline.thy ===== *)
theory Pipeline
  imports SDK_Prelude "HOL-Library.Multiset" "HOL-Library.Product_Lexorder"
begin

text \<open>
  The middleware pipeline (\<open>src/src/middleware/pipeline.ts\<close>). A hook is a function of the
  context that may change it in place and then throws, returns nothing, or returns another
  context; so its result is the changed argument and \<open>jsv + context option\<close>. Payloads are of
  type \<open>'p\<close>. \<open>execute\<close> also returns which hooks it called, in order. Hooks that change
  the pipeline while it runs are not modelled.
\<close>

section \<open>State (types.ts)\<close>

datatype MiddlewareWorkflow = WfRequest | WfTransaction

datatype MiddlewareStage = StPre | StNext | StPost | StError

record 'p MiddlewareContext =
  mx_workflow :: MiddlewareWorkflow
  mx_operation :: string
  mx_payload :: 'p
  mx_result :: jsv
  mx_error :: jsv
  mx_metadata :: props

type_synonym 'p hook =
  "'p MiddlewareContext \<Rightarrow> 'p MiddlewareContext \<times> (jsv + 'p MiddlewareContext option)"

record 'p Middleware =
  mw_name :: string
  mw_order :: "int option"
  mw_pre :: "'p hook option"
  mw_post :: "'p hook option"
  mw_onError :: "'p hook option"

record 'p mw_entry =
  me_mw :: "'p Middleware"
  me_order :: int
  me_sequence :: nat

record 'p MiddlewarePipeline =
  mp_middleware :: "'p mw_entry list"
  mp_nextSequence :: nat

definition mp_empty :: "'p MiddlewarePipeline" where
  "mp_empty = \<lparr>mp_middleware = [], mp_nextSequence = 0\<rparr>"

abbreviation me_name :: "'p mw_entry \<Rightarrow> string" where
  "me_name e \<equiv> mw_name (me_mw e)"

abbreviation me_key :: "'p mw_entry \<Rightarrow> int \<times> nat" where
  "me_key e \<equiv> (me_order e, me_sequence e)"

section \<open>Registration\<close>

definition sortMiddleware :: "'p mw_entry list \<Rightarrow> 'p mw_entry list" where
  "sortMiddleware es = sort_key me_key es"

definition mp_remove :: "string \<Rightarrow> 'p MiddlewarePipeline \<Rightarrow> 'p MiddlewarePipeline \<times> bool" where
  "mp_remove nm p =
    (case List.extract (\<lambda>e. me_name e = nm) (mp_middleware p) of
       None \<Rightarrow> (p, False)
     | Some (xs, e, ys) \<Rightarrow> (p\<lparr>mp_middleware := xs @ ys\<rparr>, True))"

text \<open>The registration returned by \<open>use\<close> is the removal by name.\<close>

definition mp_use ::
    "'p Middleware \<Rightarrow> 'p MiddlewarePipeline
      \<Rightarrow> 'p MiddlewarePipeline \<times> (string + ('p MiddlewarePipeline \<Rightarrow> 'p MiddlewarePipeline \<times> bool))" where
  "mp_use m p =
    (if mw_name m = [] then (p, Inl ''Middleware must include a non-empty name'')
     else
       let e = \<lparr>me_mw = m, me_order = (case mw_order m of None \<Rightarrow> 0 | Some k \<Rightarrow> k),
                me_sequence = mp_nextSequence p\<rparr> in
       (p\<lparr>mp_middleware := sortMiddleware (mp_middleware p @ [e]),
          mp_nextSequence := Suc (mp_nextSequence p)\<rparr>,
        Inr (mp_remove (mw_name m))))"

fun mp_use_all :: "'p Middleware list \<Rightarrow> 'p MiddlewarePipeline \<Rightarrow> string + 'p MiddlewarePipeline" where
  "mp_use_all [] p = Inr p"
| "mp_use_all (m # ms) p =
    (case mp_use m p of (p', Inl e) \<Rightarrow> Inl e | (p', Inr _) \<Rightarrow> mp_use_all ms p')"

definition newMiddlewarePipeline :: "'p Middleware list \<Rightarrow> string + 'p MiddlewarePipeline" where
  "newMiddlewarePipeline ms = mp_use_all ms mp_empty"

definition mp_list :: "'p MiddlewarePipeline \<Rightarrow> 'p Middleware list" where
  "mp_list p = map me_mw (mp_middleware p)"

definition mp_clear :: "'p MiddlewarePipeline \<Rightarrow> 'p MiddlewarePipeline" where
  "mp_clear p = p\<lparr>mp_middleware := []\<rparr>"

section \<open>Execution\<close>

type_synonym call = "MiddlewareStage \<times> nat"

definition applyHook ::
    "'p hook \<Rightarrow> 'p MiddlewareContext \<Rightarrow> 'p MiddlewareContext \<times> (jsv + 'p MiddlewareContext)" where
  "applyHook h c =
    (case h c of (c', Inl e) \<Rightarrow> (c', Inl e)
     | (c', Inr None) \<Rightarrow> (c', Inr c')
     | (c', Inr (Some d)) \<Rightarrow> (c', Inr d))"

text \<open>One loop over the entries: the context the variable holds at the end, the error if a hook
  threw, and the calls made.\<close>

fun run_hooks ::
    "MiddlewareStage \<Rightarrow> ('p Middleware \<Rightarrow> 'p hook option) \<Rightarrow> 'p mw_entry list
      \<Rightarrow> 'p MiddlewareContext \<Rightarrow> 'p MiddlewareContext \<times> jsv option \<times> call list" where
  "run_hooks st sel [] c = (c, None, [])"
| "run_hooks st sel (e # es) c =
    (case sel (me_mw e) of
       None \<Rightarrow> run_hooks st sel es c
     | Some h \<Rightarrow>
        (case applyHook h c of
           (c', Inl x) \<Rightarrow> (c', Some x, [(st, me_sequence e)])
         | (_, Inr d) \<Rightarrow>
            (let (d', r, calls) = run_hooks st sel es d in (d', r, (st, me_sequence e) # calls))))"

definition mp_catch ::
    "'p mw_entry list \<Rightarrow> jsv \<Rightarrow> 'p MiddlewareContext \<Rightarrow> jsv \<times> call list" where
  "mp_catch es x c =
    (case run_hooks StError mw_onError (rev es) (c\<lparr>mx_error := x\<rparr>) of
       (c', Some y, calls) \<Rightarrow> (y, calls)
     | (c', None, calls) \<Rightarrow> (if mx_error c' \<noteq> x then mx_error c' else x, calls))"

definition mp_execute ::
    "MiddlewareWorkflow \<Rightarrow> string \<Rightarrow> 'p
      \<Rightarrow> ('p \<Rightarrow> 'p MiddlewareContext \<Rightarrow> 'p MiddlewareContext \<times> (jsv + jsv)) \<Rightarrow> props
      \<Rightarrow> 'p MiddlewarePipeline \<Rightarrow> (jsv + jsv) \<times> call list" where
  "mp_execute wkf op payload nxt metadata p =
    (let es = mp_middleware p;
         c0 = \<lparr>mx_workflow = wkf, mx_operation = op, mx_payload = payload, mx_result = JUndef,
               mx_error = JUndef, mx_metadata = obj_spread [] metadata\<rparr> in
     case run_hooks StPre mw_pre es c0 of
       (c1, Some x, calls1) \<Rightarrow>
         (let (y, calls2) = mp_catch es x c1 in (Inl y, calls1 @ calls2))
     | (c1, None, calls1) \<Rightarrow>
        (case nxt (mx_payload c1) c1 of
           (c2, Inl x) \<Rightarrow>
             (let (y, calls2) = mp_catch es x c2 in (Inl y, calls1 @ (StNext, 0) # calls2))
         | (c2, Inr r) \<Rightarrow>
            (case run_hooks StPost mw_post (rev es) (c2\<lparr>mx_result := r\<rparr>) of
               (c3, Some x, calls2) \<Rightarrow>
                 (let (y, calls3) = mp_catch es x c3 in
                  (Inl y, calls1 @ (StNext, 0) # calls2 @ calls3))
             | (c3, None, calls2) \<Rightarrow> (Inr (mx_result c3), calls1 @ (StNext, 0) # calls2))))"

section \<open>The order of the entries\<close>

definition mp_inv :: "'p MiddlewarePipeline \<Rightarrow> bool" where
  "mp_inv p \<longleftrightarrow> sorted (map me_key (mp_middleware p))
    \<and> distinct (map me_sequence (mp_middleware p))
    \<and> list_all (\<lambda>e. me_sequence e < mp_nextSequence p) (mp_middleware p)"

lemma mp_inv_use: "mp_inv p \<Longrightarrow> mp_inv (fst (mp_use m p))"
proof -
  assume inv: "mp_inv p"
  let ?e = "\<lparr>me_mw = m, me_order = (case mw_order m of None \<Rightarrow> 0 | Some k \<Rightarrow> k),
                me_sequence = mp_nextSequence p\<rparr>"
  have "mset (sortMiddleware (mp_middleware p @ [?e])) = mset (mp_middleware p @ [?e])"
    by (simp add: sortMiddleware_def)
  then have "distinct (map me_sequence (sortMiddleware (mp_middleware p @ [?e])))
      = distinct (map me_sequence (mp_middleware p @ [?e]))"
    by (metis mset_map mset_eq_imp_distinct_iff)
  then show ?thesis
    using inv by (auto simp: mp_inv_def mp_use_def Let_def sortMiddleware_def list_all_iff)
qed

lemma mp_inv_remove: "mp_inv p \<Longrightarrow> mp_inv (fst (mp_remove nm p))"
proof (cases "List.extract (\<lambda>e. me_name e = nm) (mp_middleware p)")
  case (Some t)
  assume inv: "mp_inv p"
  obtain xs e ys where t: "t = (xs, e, ys)" by (cases t)
  then have "mp_middleware p = xs @ e # ys" using Some by (simp add: extract_Some_iff)
  moreover have "fst (mp_remove nm p) = p\<lparr>mp_middleware := xs @ ys\<rparr>"
    by (simp add: mp_remove_def Some t)
  ultimately show ?thesis using inv by (auto simp: mp_inv_def sorted_append)
qed (simp add: mp_remove_def)

section \<open>The calls made\<close>

lemma run_hooks_ok:
  "run_hooks st sel es c = (d, None, calls) \<Longrightarrow>
    calls = map (\<lambda>e. (st, me_sequence e)) (filter (\<lambda>e. sel (me_mw e) \<noteq> None) es)"
  by (induction st sel es c arbitrary: calls rule: run_hooks.induct)
     (auto split: option.splits prod.splits sum.splits)


definition stage_calls ::
    "MiddlewareStage \<Rightarrow> ('p Middleware \<Rightarrow> 'p hook option) \<Rightarrow> 'p mw_entry list \<Rightarrow> call list" where
  "stage_calls st sel es = map (\<lambda>e. (st, me_sequence e)) (filter (\<lambda>e. sel (me_mw e) \<noteq> None) es)"



section \<open>Properties\<close>

text \<open>The pipeline is always in the order of \<open>order\<close> and then of registration, whatever is
  registered or removed, and registering adds exactly the new entry.\<close>

theorem pipeline_stays_ordered:
  assumes "mp_inv p"
  shows "mp_inv (fst (mp_use m p)) \<and> mp_inv (fst (mp_remove nm p)) \<and> mp_inv (mp_clear p)
    \<and> (mw_name m = [] \<or> mset (mp_list (fst (mp_use m p))) = add_mset m (mset (mp_list p)))"
proof -
  have "mp_inv (mp_clear p)" by (simp add: mp_inv_def mp_clear_def)
  moreover have "mset (mp_list (fst (mp_use m p))) = add_mset m (mset (mp_list p))"
    if "mw_name m \<noteq> []"
    using that by (simp add: mp_use_def mp_list_def Let_def sortMiddleware_def flip: mset_map)
                  (simp only: mset_map mset_sort, simp)
  ultimately show ?thesis using mp_inv_use [OF assms] mp_inv_remove [OF assms] by blast
qed

definition wit_mw :: "string \<Rightarrow> int \<Rightarrow> nat Middleware" where
  "wit_mw nm k = \<lparr>mw_name = nm, mw_order = Some k, mw_pre = None, mw_post = None, mw_onError = None\<rparr>"

lemma pipeline_stays_ordered_witness:
  "mp_inv (fst (mp_use (wit_mw ''b'' 1) (fst (mp_use (wit_mw ''a'' 2) mp_empty))))"
  by (intro pipeline_stays_ordered [THEN conjunct1])
     (simp add: mp_inv_def mp_use_def mp_empty_def wit_mw_def Let_def sortMiddleware_def)


text \<open>When a \<open>pre\<close> hook or the operation throws, the execution throws: no \<open>onError\<close> hook can
  turn the failure into a result.\<close>

theorem execute_never_swallows:
  assumes "fst (mp_execute wkf op payload nxt metadata p) = Inr r"
  shows "\<exists>c c' v. run_hooks StPre mw_pre (mp_middleware p)
      \<lparr>mx_workflow = wkf, mx_operation = op, mx_payload = payload, mx_result = JUndef,
       mx_error = JUndef, mx_metadata = obj_spread [] metadata\<rparr>
      = (c, None, stage_calls StPre mw_pre (mp_middleware p))
    \<and> nxt (mx_payload c) c = (c', Inr v)"
  using assms unfolding mp_execute_def Let_def
  by (auto split: prod.splits option.splits sum.splits dest: run_hooks_ok simp: stage_calls_def)

lemma execute_never_swallows_witness:
  "\<exists>c c' v. (\<lambda>n c. (c, Inr (JNum (int n)))) (mx_payload c) c = (c' :: nat MiddlewareContext, Inr v :: jsv + jsv)"
  using execute_never_swallows [of WfRequest "''op''" 3 "\<lambda>n c. (c, Inr (JNum (int n)))" "[]" mp_empty "JNum 3"]
  by (auto simp: mp_execute_def mp_empty_def)

text \<open>The disposer that \<open>use\<close> returns removes by name: when two entries share a name, the
  disposer of the second can remove the first and leave its own.\<close>

theorem disposer_removes_wrong_entry:
  "\<exists>p d m. mp_use m (fst (mp_use (wit_mw ''log'' 0) mp_empty)) = (p, Inr d)
    \<and> mw_name m = ''log'' \<and> mp_list (fst (d p)) = [m]"
proof -
  let ?p = "fst (mp_use (wit_mw ''log'' 0) mp_empty)"
  obtain p' d where u: "mp_use (wit_mw ''log'' 1) ?p = (p', Inr d)" and
    d: "d = mp_remove ''log''"
    by (auto simp: mp_use_def wit_mw_def Let_def)
  have "p' = fst (mp_use (wit_mw ''log'' 1) ?p)" by (simp add: u)
  then have "mp_list (fst (d p')) = [wit_mw ''log'' 1]"
    by (simp add: d mp_use_def wit_mw_def mp_empty_def Let_def sortMiddleware_def mp_list_def
        mp_remove_def extract_def)
  moreover have "mw_name (wit_mw ''log'' 1) = ''log''" by (simp add: wit_mw_def)
  ultimately show ?thesis using u by blast
qed

end
