(* ===== verification/Validation.thy ===== *)
theory Validation
  imports Errors
begin

text \<open>
  Schema validation (\<open>src/src/validation/engine.ts\<close>, \<open>rules.ts\<close>). The schema library
  (valibot) is the parameter \<open>safeParse\<close>, from a schema of type \<open>'s\<close> and a value to the
  issues found or the parsed output. The engine is a keyed store under the composite key of
  contract and method; it is an interpretation of the store contract of the prelude.
\<close>

section \<open>Issues\<close>

record BaseIssue =
  bi_path :: "jsv list option"
  bi_message :: string
  bi_input :: jsv

type_synonym 's safe_parse = "'s \<Rightarrow> jsv \<Rightarrow> BaseIssue list + jsv"

definition issuePath :: "BaseIssue \<Rightarrow> string" where
  "issuePath i =
    (case bi_path i of None \<Rightarrow> ''(root)''
     | Some ks \<Rightarrow> if ks = [] then ''(root)'' else join_str ''.'' (map js_String ks))"

definition toValidationIssues :: "BaseIssue list \<Rightarrow> ValidationIssue list" where
  "toValidationIssues is =
    map (\<lambda>i. \<lparr>vi_path = issuePath i, vi_message = bi_message i, vi_received = bi_input i\<rparr>) is"

definition summarizeIssues :: "ValidationIssue list \<Rightarrow> string" where
  "summarizeIssues is = join_str ''; '' (map (\<lambda>i. vi_path i @ '': '' @ vi_message i) is)"

text \<open>The \<open>originalError\<close> of the thrown error, the raw issues, is left out.\<close>

definition validateAgainstSchema ::
    "'s safe_parse \<Rightarrow> 's \<Rightarrow> jsv \<Rightarrow> string \<Rightarrow> string \<Rightarrow> ValidationKind \<Rightarrow> thrown + jsv" where
  "validateAgainstSchema safeParse sch val cid mth kind =
    (case safeParse sch val of
       Inr out \<Rightarrow> Inr out
     | Inl raw \<Rightarrow>
        let issues = toValidationIssues raw;
            label = (if kind = KParams then ''Input'' else ''Output'') in
        Inl (AxErr (CSchemaValidationError cid mth kind issues)
          (label @ '' validation failed for \"'' @ mth @ ''\" on contract \"'' @ cid @ ''\": '' @
           summarizeIssues issues) None None None))"

section \<open>The engine\<close>

record 's ContractMethodSchema =
  ms_params :: "'s option"
  ms_result :: "'s option"
  ms_description :: "string option"

record 's ContractValidationEngine =
  ve_schemas :: "(string, 's ContractMethodSchema) jsmap"

definition ve_new :: "'s ContractValidationEngine" where
  "ve_new = \<lparr>ve_schemas = []\<rparr>"

definition composite_key :: "string \<Rightarrow> string \<Rightarrow> string" where
  "composite_key a b = a @ ''::'' @ b"

definition registerSchema ::
    "string \<Rightarrow> string \<Rightarrow> 's ContractMethodSchema \<Rightarrow> 's ContractValidationEngine
      \<Rightarrow> 's ContractValidationEngine" where
  "registerSchema c m sch e = e\<lparr>ve_schemas := jm_set (composite_key c m) sch (ve_schemas e)\<rparr>"

definition unregisterSchema ::
    "string \<Rightarrow> string \<Rightarrow> 's ContractValidationEngine \<Rightarrow> 's ContractValidationEngine" where
  "unregisterSchema c m e = e\<lparr>ve_schemas := jm_delete (composite_key c m) (ve_schemas e)\<rparr>"

definition hasSchema :: "string \<Rightarrow> string \<Rightarrow> 's ContractValidationEngine \<Rightarrow> bool" where
  "hasSchema c m e = jm_has (ve_schemas e) (composite_key c m)"

definition getSchema ::
    "string \<Rightarrow> string \<Rightarrow> 's ContractValidationEngine \<Rightarrow> 's ContractMethodSchema option" where
  "getSchema c m e = jm_get (ve_schemas e) (composite_key c m)"

definition validateParams ::
    "'s safe_parse \<Rightarrow> string \<Rightarrow> string \<Rightarrow> jsv \<Rightarrow> 's ContractValidationEngine \<Rightarrow> thrown + jsv" where
  "validateParams safeParse c m p e =
    (case getSchema c m e of None \<Rightarrow> Inr p
     | Some sch \<Rightarrow>
        (case ms_params sch of None \<Rightarrow> Inr p
         | Some s \<Rightarrow> validateAgainstSchema safeParse s p c m KParams))"

definition validateResult ::
    "'s safe_parse \<Rightarrow> string \<Rightarrow> string \<Rightarrow> jsv \<Rightarrow> 's ContractValidationEngine \<Rightarrow> thrown + jsv" where
  "validateResult safeParse c m r e =
    (case getSchema c m e of None \<Rightarrow> Inr r
     | Some sch \<Rightarrow>
        (case ms_result sch of None \<Rightarrow> Inr r
         | Some s \<Rightarrow> validateAgainstSchema safeParse s r c m KResult))"

text \<open>The wrapped method acts on a world of type \<open>'w\<close>.\<close>

definition withSchemaValidation ::
    "'s safe_parse \<Rightarrow> 's ContractValidationEngine \<Rightarrow> string \<Rightarrow> string
      \<Rightarrow> (jsv \<Rightarrow> 'w \<Rightarrow> 'w \<times> (thrown + jsv)) \<Rightarrow> jsv \<Rightarrow> 'w \<Rightarrow> 'w \<times> (thrown + jsv)" where
  "withSchemaValidation safeParse e c m fn p w =
    (case validateParams safeParse c m p e of Inl x \<Rightarrow> (w, Inl x)
     | Inr p' \<Rightarrow>
        (case fn p' w of (w', Inl x) \<Rightarrow> (w', Inl x)
         | (w', Inr r) \<Rightarrow> (w', validateResult safeParse c m r e)))"

section \<open>Rules (rules.ts)\<close>

text \<open>A rule is a base schema of the library with a predicate and the message shown when it fails.\<close>

datatype base_schema = VBigint | VString | VNumber

record rule =
  ru_base :: base_schema
  ru_check :: "jsv \<Rightarrow> bool"
  ru_message :: string

definition positiveBigIntSchema :: "string option \<Rightarrow> rule" where
  "positiveBigIntSchema msg = \<lparr>ru_base = VBigint,
     ru_check = (\<lambda>v. case v of JBig n \<Rightarrow> n > 0 | _ \<Rightarrow> False),
     ru_message = (case msg of None \<Rightarrow> ''Value must be a positive bigint'' | Some m \<Rightarrow> m)\<rparr>"

definition nonNegativeBigIntSchema :: "string option \<Rightarrow> rule" where
  "nonNegativeBigIntSchema msg = \<lparr>ru_base = VBigint,
     ru_check = (\<lambda>v. case v of JBig n \<Rightarrow> n \<ge> 0 | _ \<Rightarrow> False),
     ru_message = (case msg of None \<Rightarrow> ''Value must be a non-negative bigint'' | Some m \<Rightarrow> m)\<rparr>"

definition nonEmptyStringSchema :: "string option \<Rightarrow> rule" where
  "nonEmptyStringSchema msg = \<lparr>ru_base = VString,
     ru_check = (\<lambda>v. case v of JStr s \<Rightarrow> length (js_trim s) > 0 | _ \<Rightarrow> False),
     ru_message = (case msg of None \<Rightarrow> ''Value must not be an empty string'' | Some m \<Rightarrow> m)\<rparr>"

text \<open>\<open>StrKey.isValidEd25519PublicKey\<close> and \<open>StrKey.isValidContract\<close> are parameters.\<close>

definition stellarAccountIdSchema :: "(string \<Rightarrow> bool) \<Rightarrow> string option \<Rightarrow> rule" where
  "stellarAccountIdSchema isValidKey msg = \<lparr>ru_base = VString,
     ru_check = (\<lambda>v. case v of JStr s \<Rightarrow> isValidKey s | _ \<Rightarrow> False),
     ru_message = (case msg of None \<Rightarrow> ''Value must be a valid Stellar account ID (G...)'' | Some m \<Rightarrow> m)\<rparr>"

definition stellarContractIdSchema :: "(string \<Rightarrow> bool) \<Rightarrow> string option \<Rightarrow> rule" where
  "stellarContractIdSchema isValidContract msg = \<lparr>ru_base = VString,
     ru_check = (\<lambda>v. case v of JStr s \<Rightarrow> isValidContract s | _ \<Rightarrow> False),
     ru_message = (case msg of None \<Rightarrow> ''Value must be a valid Stellar contract ID (C...)'' | Some m \<Rightarrow> m)\<rparr>"

definition numberInRangeSchema :: "int \<Rightarrow> int \<Rightarrow> string option \<Rightarrow> rule" where
  "numberInRangeSchema lo hi msg = \<lparr>ru_base = VNumber,
     ru_check = (\<lambda>v. case v of JNum n \<Rightarrow> n \<ge> lo \<and> n \<le> hi | _ \<Rightarrow> False),
     ru_message = (case msg of
         None \<Rightarrow> ''Value must be between '' @ int_str lo @ '' and '' @ int_str hi | Some m \<Rightarrow> m)\<rparr>"

section \<open>The engine as a keyed store\<close>

definition ve_ok :: "'s ContractValidationEngine \<Rightarrow> bool" where
  "ve_ok e = jm_ok (ve_schemas e)"

interpretation ve: keyed_store ve_ok "\<lambda>e k. jm_get (ve_schemas e) k"
    "\<lambda>k v e. e\<lparr>ve_schemas := jm_set k v (ve_schemas e)\<rparr>"
    "\<lambda>k e. e\<lparr>ve_schemas := jm_delete k (ve_schemas e)\<rparr>"
  by unfold_locales (auto simp: ve_ok_def)

text \<open>The composite key separates its parts when the contract ids have no colon.\<close>

definition no_colon :: "string \<Rightarrow> bool" where
  "no_colon s \<longleftrightarrow> CHR '':'' \<notin> set s"

lemma split_at_first:
  "x \<notin> set a \<Longrightarrow> x \<notin> set b \<Longrightarrow> a @ x # c = b @ x # d \<Longrightarrow> a = b \<and> c = d"
proof (induction a arbitrary: b)
  case Nil
  then show ?case by (cases b) auto
next
  case (Cons y a)
  then show ?case by (cases b) auto
qed

lemma composite_key_inj:
  assumes "no_colon a" "no_colon b" "composite_key a m = composite_key b n"
  shows "a = b \<and> m = n"
  using split_at_first [of "CHR '':''" a b "'':'' @ m" "'':'' @ n"] assms
  by (auto simp: composite_key_def no_colon_def)

lemma composite_key_iff:
  "no_colon a \<Longrightarrow> no_colon b \<Longrightarrow> composite_key a m = composite_key b n \<longleftrightarrow> a = b \<and> m = n"
  using composite_key_inj by blast

definition schema_of ::
    "(string \<times> string \<times> 's ContractMethodSchema) \<Rightarrow> string \<times> 's ContractMethodSchema" where
  "schema_of t = (case t of (c, m, s) \<Rightarrow> (composite_key c m, s))"

lemma registerSchema_puts:
  "foldl (\<lambda>e (c, m, s). registerSchema c m s e) e regs =
    foldl (\<lambda>e (k, v). e\<lparr>ve_schemas := jm_set k v (ve_schemas e)\<rparr>) e (map schema_of regs)"
  by (induction regs arbitrary: e) (auto simp: registerSchema_def schema_of_def)

section \<open>Properties\<close>

text \<open>The engine finds the schema registered last: after any sequence of registrations of contracts
  whose ids have no colon, looking up a contract and method gives the last schema registered for
  exactly that pair, and the earlier one, if any, for every other pair.\<close>

theorem last_schema_wins:
  assumes "ve_ok e" "no_colon c" "list_all (\<lambda>(a, m, s). no_colon a) regs"
  shows "getSchema c m (foldl (\<lambda>e (a, b, s). registerSchema a b s e) e regs) =
    (case map_of (rev (map (\<lambda>(a, b, s). ((a, b), s)) regs)) (c, m) of
       None \<Rightarrow> getSchema c m e | Some s \<Rightarrow> Some s)"
proof -
  have "map_of (rev (map schema_of regs)) (composite_key c m) =
      map_of (rev (map (\<lambda>(a, b, s). ((a, b), s)) regs)) (c, m)"
    using assms(3)
  proof (induction regs rule: rev_induct)
    case (snoc t regs)
    then show ?case using assms(2) by (cases t) (auto simp: schema_of_def composite_key_iff)
  qed simp
  then show ?thesis
    unfolding getSchema_def registerSchema_puts using ve.get_puts [OF assms(1)] by simp
qed

lemma last_schema_wins_witness:
  "getSchema ''Vault'' ''deposit''
     (foldl (\<lambda>e (a, b, s). registerSchema a b s e) (ve_new :: nat ContractValidationEngine)
       [(''Vault'', ''deposit'', \<lparr>ms_params = Some 1, ms_result = None, ms_description = None\<rparr>),
        (''Vault'', ''deposit'', \<lparr>ms_params = Some 2, ms_result = None, ms_description = None\<rparr>)])
   = Some \<lparr>ms_params = Some 2, ms_result = None, ms_description = None\<rparr>"
  by (subst last_schema_wins) (simp_all add: ve_ok_def ve_new_def no_colon_def)

text \<open>The key does not separate ids that contain the separator: registering one contract's method
  changes the schema found for another.\<close>

theorem schema_keys_collide:
  "\<exists>a m b n. (a, m) \<noteq> (b, n) \<and>
    (\<forall>s e. getSchema b n (registerSchema a m (s :: nat ContractMethodSchema) e) = Some s)"
  by (intro exI [of _ "''A''"] exI [of _ "''B::C''"] exI [of _ "''A::B''"] exI [of _ "''C''"])
     (simp add: getSchema_def registerSchema_def composite_key_def)

text \<open>A wrapped method runs only on parameters that the registered schema accepts, in their parsed
  form, and returns only results that it accepts: when parsing the parameters fails, the world is
  unchanged and the error lists the issues; otherwise the method's error passes through, and its
  result is checked. Without schemas the wrapper is the method.\<close>

theorem wrapper_enforces_schemas:
  "(case getSchema c m e of
      None \<Rightarrow> withSchemaValidation sp e c m fn p w = fn p w
    | Some sch \<Rightarrow>
       (case ms_params sch of None \<Rightarrow> True
        | Some s \<Rightarrow>
          (case sp s p of
             Inl raw \<Rightarrow> \<exists>msg. withSchemaValidation sp e c m fn p w =
               (w, Inl (AxErr (CSchemaValidationError c m KParams (toValidationIssues raw)) msg None None None))
           | Inr p' \<Rightarrow> fst (withSchemaValidation sp e c m fn p w) = fst (fn p' w)
               \<and> (case snd (fn p' w) of
                    Inl x \<Rightarrow> snd (withSchemaValidation sp e c m fn p w) = Inl x
                  | Inr r \<Rightarrow>
                     (case ms_result sch of
                        None \<Rightarrow> snd (withSchemaValidation sp e c m fn p w) = Inr r
                      | Some s' \<Rightarrow>
                         (case sp s' r of
                            Inr out \<Rightarrow> snd (withSchemaValidation sp e c m fn p w) = Inr out
                          | Inl raw \<Rightarrow> \<exists>msg. snd (withSchemaValidation sp e c m fn p w) =
                              Inl (AxErr (CSchemaValidationError c m KResult (toValidationIssues raw))
                                     msg None None None)))))))"
proof (cases "getSchema c m e")
  case None
  then show ?thesis
    by (auto simp: withSchemaValidation_def validateParams_def validateResult_def
        split: prod.split sum.split)
next
  case (Some sch)
  show ?thesis
  proof (cases "ms_params sch")
    case (Some s)
    note ps = Some
    show ?thesis
    proof (cases "sp s p")
      case (Inl raw)
      then show ?thesis
        by (simp add: \<open>getSchema c m e = Some sch\<close> ps withSchemaValidation_def validateParams_def
            validateAgainstSchema_def Let_def)
    next
      case (Inr p')
      obtain w' r where fn: "fn p' w = (w', r)" by fastforce
      show ?thesis
        by (cases r)
           (simp_all add: \<open>getSchema c m e = Some sch\<close> ps Inr fn withSchemaValidation_def
             validateParams_def validateResult_def validateAgainstSchema_def Let_def
             split: option.split sum.split)
    qed
  qed (simp add: \<open>getSchema c m e = Some sch\<close>)
qed

end
