(* ===== verification/MigrationRegistry.thy ===== *)
theory MigrationRegistry
  imports Validation
begin

text \<open>
  The migration registry (\<open>src/src/migrations/migrationRegistry.ts\<close>) with the step, plan and
  context types (\<open>src/src/types/migration.ts\<close>). A step's functions are functions of the state,
  an untyped value, and the context, and may throw. \<open>resolvePath\<close> is the breadth-first
  search of the code, shown to find a shortest chain of registered steps exactly when there is one.
\<close>

section \<open>Steps and plans (types/migration.ts)\<close>

datatype MigrationStatus = MCompleted | MFailed | MRolledBack

datatype MigrationStepStatus = MsSucceeded | MsFailed

record MigrationContext =
  mc_contractId :: string
  mc_dryRun :: bool
  mc_metadata :: "props option"

type_synonym migrate_fun = "jsv \<Rightarrow> MigrationContext \<Rightarrow> thrown + jsv"

record MigrationStep =
  mg_id :: string
  mg_from :: string
  mg_to :: string
  mg_description :: "string option"
  mg_migrate :: migrate_fun
  mg_rollback :: "migrate_fun option"

record MigrationPlan =
  pl_contractId :: string
  pl_from :: string
  pl_to :: string
  pl_steps :: "MigrationStep list"

section \<open>The registry\<close>

record MigrationRegistry =
  mr_steps :: "(string, MigrationStep list) jsmap"

definition mr_new :: MigrationRegistry where
  "mr_new = \<lparr>mr_steps = []\<rparr>"

definition bucket :: "('k, 'v list) jsmap \<Rightarrow> 'k \<Rightarrow> 'v list" where
  "bucket m k = (case jm_get m k of None \<Rightarrow> [] | Some vs \<Rightarrow> vs)"

definition mr_register :: "string \<Rightarrow> MigrationStep \<Rightarrow> MigrationRegistry \<Rightarrow> MigrationRegistry" where
  "mr_register c s r =
    r\<lparr>mr_steps := jm_set c (filter (\<lambda>x. mg_id x \<noteq> mg_id s) (bucket (mr_steps r) c) @ [s])
                    (mr_steps r)\<rparr>"

definition mr_unregister :: "string \<Rightarrow> string \<Rightarrow> MigrationRegistry \<Rightarrow> MigrationRegistry \<times> bool" where
  "mr_unregister c i r =
    (case jm_get (mr_steps r) c of None \<Rightarrow> (r, False)
     | Some steps \<Rightarrow>
        let nxt = filter (\<lambda>x. mg_id x \<noteq> i) steps in
        (r\<lparr>mr_steps := jm_set c nxt (mr_steps r)\<rparr>, length nxt \<noteq> length steps))"

definition mr_listSteps :: "string \<Rightarrow> MigrationRegistry \<Rightarrow> MigrationStep list" where
  "mr_listSteps c r = bucket (mr_steps r) c"

definition edges_by_from :: "MigrationStep list \<Rightarrow> (string, MigrationStep list) jsmap" where
  "edges_by_from steps = foldl (\<lambda>m s. jm_set (mg_from s) (bucket m (mg_from s) @ [s]) m) [] steps"

text \<open>The inner loop: \<open>Inl\<close> is the chain found, \<open>Inr\<close> the visited versions and the queue after it.\<close>

fun bfs_edges ::
    "string \<Rightarrow> MigrationStep list \<Rightarrow> MigrationStep list \<Rightarrow> string list
      \<Rightarrow> (string \<times> MigrationStep list) list
      \<Rightarrow> MigrationStep list + string list \<times> (string \<times> MigrationStep list) list" where
  "bfs_edges t path [] vis q = Inr (vis, q)"
| "bfs_edges t path (e # es) vis q =
    (if mg_to e = t then Inl (path @ [e])
     else if mg_to e \<notin> set vis
     then bfs_edges t path es (vis @ [mg_to e]) (q @ [(mg_to e, path @ [e])])
     else bfs_edges t path es vis q)"

lemma bucket_set [simp]: "bucket (jm_set k vs m) k' = (if k' = k then vs else bucket m k')"
  by (simp add: bucket_def)

lemma bucket_edges: "bucket (edges_by_from steps) v = filter (\<lambda>s. mg_from s = v) steps"
proof -
  have "bucket (foldl (\<lambda>m s. jm_set (mg_from s) (bucket m (mg_from s) @ [s]) m) m steps) v
      = bucket m v @ filter (\<lambda>s. mg_from s = v) steps" for m
    by (induction steps arbitrary: m) simp_all
  from this [of "[]"] show ?thesis by (simp add: edges_by_from_def bucket_def)
qed

lemma bfs_edges_visited:
  "bfs_edges t path es vis q = Inr (vis', q') \<Longrightarrow>
    set vis' = set vis \<union> mg_to ` set es \<and> t \<notin> mg_to ` set es"
proof (induction t path es vis q rule: bfs_edges.induct)
  case (2 t path e es vis q)
  have ne: "mg_to e \<noteq> t" using "2.prems" by (auto split: if_splits)
  show ?case
  proof (cases "mg_to e \<in> set vis")
    case True
    then have "bfs_edges t path es vis q = Inr (vis', q')" using "2.prems" ne by simp
    with "2.IH"(2) ne True have "set vis' = set vis \<union> mg_to ` set es \<and> t \<notin> mg_to ` set es" by simp
    then show ?thesis using ne True by auto
  next
    case False
    then have "bfs_edges t path es (vis @ [mg_to e]) (q @ [(mg_to e, path @ [e])]) = Inr (vis', q')"
      using "2.prems" ne by simp
    with "2.IH"(1) ne False
    have "set vis' = set (vis @ [mg_to e]) \<union> mg_to ` set es \<and> t \<notin> mg_to ` set es" by simp
    then show ?thesis using ne by auto
  qed
qed simp

lemma bfs_edges_queue:
  "bfs_edges t path es vis q = Inr (vis', q') \<Longrightarrow>
    \<exists>new. q' = q @ new \<and>
      (\<forall>x \<in> set new. \<exists>e \<in> set es. x = (mg_to e, path @ [e]) \<and> mg_to e \<notin> set vis)"
proof (induction t path es vis q rule: bfs_edges.induct)
  case (2 t path e es vis q)
  have ne: "mg_to e \<noteq> t" using "2.prems" by (auto split: if_splits)
  show ?case
  proof (cases "mg_to e \<in> set vis")
    case True
    with 2 ne show ?thesis by fastforce
  next
    case False
    with 2 ne obtain new where new: "q' = (q @ [(mg_to e, path @ [e])]) @ new"
      "\<forall>x\<in>set new. \<exists>e'\<in>set es. x = (mg_to e', path @ [e']) \<and> mg_to e' \<notin> set (vis @ [mg_to e])"
      by auto
    show ?thesis
      by (rule exI [of _ "(mg_to e, path @ [e]) # new"]) (use new False in auto)
  qed
qed simp

lemma bfs_edges_queued:
  "bfs_edges t path es vis q = Inr (vis', q') \<Longrightarrow> w \<in> set vis' \<Longrightarrow> w \<notin> set vis \<Longrightarrow>
    \<exists>p. (w, p) \<in> set q'"
proof (induction t path es vis q rule: bfs_edges.induct)
  case (2 t path e es vis q)
  have ne: "mg_to e \<noteq> t" using "2.prems" by (auto split: if_splits)
  show ?case
  proof (cases "mg_to e \<in> set vis")
    case True
    with 2 ne show ?thesis by auto
  next
    case False
    then have st: "bfs_edges t path es (vis @ [mg_to e]) (q @ [(mg_to e, path @ [e])]) = Inr (vis', q')"
      using "2.prems"(1) ne by simp
    show ?thesis
    proof (cases "w = mg_to e")
      case True
      then show ?thesis using bfs_edges_queue [OF st] by auto
    next
      case False
      with 2 ne \<open>mg_to e \<notin> set vis\<close> st show ?thesis by auto
    qed
  qed
qed simp

lemma bfs_edges_measure:
  "bfs_edges t path es vis q = Inr (vis', q') \<Longrightarrow> finite T \<Longrightarrow> mg_to ` set es \<subseteq> T \<Longrightarrow>
    length q' + card (T - set vis') \<le> length q + card (T - set vis)"
proof (induction t path es vis q rule: bfs_edges.induct)
  case (2 t path e es vis q)
  have ne: "mg_to e \<noteq> t" using "2.prems" by (auto split: if_splits)
  show ?case
  proof (cases "mg_to e \<in> set vis")
    case True
    with 2 ne show ?thesis by auto
  next
    case False
    then have in': "mg_to e \<in> T - set vis" using "2.prems" by auto
    have "T - set (vis @ [mg_to e]) = (T - set vis) - {mg_to e}" by auto
    then have "Suc (card (T - set (vis @ [mg_to e]))) = card (T - set vis)"
      using in' "2.prems"(2) by (metis card.remove finite_Diff)
    moreover have "length q' + card (T - set vis')
        \<le> length (q @ [(mg_to e, path @ [e])]) + card (T - set (vis @ [mg_to e]))"
      using 2 ne False by auto
    ultimately show ?thesis by simp
  qed
qed simp

lemma bfs_edges_Inl:
  "bfs_edges t path es vis q = Inl p \<Longrightarrow> \<exists>e \<in> set es. p = path @ [e] \<and> mg_to e = t"
  by (induction t path es vis q rule: bfs_edges.induct) (auto split: if_splits)

text \<open>The outer loop. Each round takes one entry from the queue and puts in at most as many as it
  marks visited, which bounds the number of rounds.\<close>

function bfs ::
    "string \<Rightarrow> MigrationStep list \<Rightarrow> string list \<Rightarrow> (string \<times> MigrationStep list) list
      \<Rightarrow> MigrationStep list option" where
  "bfs t steps vis [] = None"
| "bfs t steps vis ((v, path) # q) =
    (case bfs_edges t path (bucket (edges_by_from steps) v) vis q of
       Inl p \<Rightarrow> Some p
     | Inr (vis', q') \<Rightarrow> bfs t steps vis' q')"
  by pat_completeness auto
termination
proof (relation "measure (\<lambda>(t, steps, vis, q). length q + card (mg_to ` set steps - set vis))", goal_cases)
  case (2 t steps vis v path q b vis' q')
  then have "bfs_edges t path (bucket (edges_by_from steps) v) vis q = Inr (vis', q')" by simp
  then have "length q' + card (mg_to ` set steps - set vis')
      \<le> length q + card (mg_to ` set steps - set vis)"
    by (rule bfs_edges_measure) (auto simp: bucket_edges)
  then show ?case by simp
qed simp

declare bfs.simps [simp del]

definition resolvePath :: "string \<Rightarrow> string \<Rightarrow> string \<Rightarrow> MigrationRegistry \<Rightarrow> thrown + MigrationPlan" where
  "resolvePath c a b r =
    (if a = b then Inr \<lparr>pl_contractId = c, pl_from = a, pl_to = b, pl_steps = []\<rparr>
     else case bfs b (mr_listSteps c r) [a] [(a, [])] of
            Some p \<Rightarrow> Inr \<lparr>pl_contractId = c, pl_from = a, pl_to = b, pl_steps = p\<rparr>
          | None \<Rightarrow> Inl (newMigrationPathNotFoundError c a b))"

section \<open>Chains of steps\<close>

fun chain :: "MigrationStep list \<Rightarrow> string \<Rightarrow> MigrationStep list \<Rightarrow> string \<Rightarrow> bool" where
  "chain steps a [] b \<longleftrightarrow> a = b"
| "chain steps a (e # p) b \<longleftrightarrow> e \<in> set steps \<and> mg_from e = a \<and> chain steps (mg_to e) p b"

lemma chain_append: "chain steps a (p @ p') b \<longleftrightarrow> (\<exists>m. chain steps a p m \<and> chain steps m p' b)"
  by (induction p arbitrary: a) auto

text \<open>A chain that leaves a set of versions has a first step that does.\<close>

lemma chain_leaves:
  "chain steps a p b \<Longrightarrow> a \<in> V \<Longrightarrow> b \<notin> V \<Longrightarrow>
    \<exists>p1 e p2. p = p1 @ e # p2 \<and> chain steps a p1 (mg_from e) \<and> e \<in> set steps
      \<and> mg_from e \<in> V \<and> mg_to e \<notin> V"
proof (induction p arbitrary: a)
  case (Cons e p)
  show ?case
  proof (cases "mg_to e \<in> V")
    case True
    have "chain steps (mg_to e) p b" using Cons.prems by simp
    from Cons.IH [OF this True Cons.prems(3)] obtain p1 e' p2 where
      "p = p1 @ e' # p2" "chain steps (mg_to e) p1 (mg_from e')"
      "e' \<in> set steps" "mg_from e' \<in> V" "mg_to e' \<notin> V" by blast
    with Cons.prems show ?thesis
      by (intro exI [of _ "e # p1"] exI [of _ e'] exI [of _ p2]) simp
  next
    case False
    with Cons.prems show ?thesis by - (rule exI [of _ "[]"], auto)
  qed
qed simp

lemma sorted_const: "(\<And>x. x \<in> set xs \<Longrightarrow> length (snd x) = n) \<Longrightarrow> sorted (map (length \<circ> snd) xs)"
  by (induction xs) auto

text \<open>The invariant of the search: what is queued is reached by a shortest chain, the queue is sorted
  by length within one, and every visited version is queued or fully explored.\<close>

definition bfs_inv ::
    "string \<Rightarrow> string \<Rightarrow> MigrationStep list \<Rightarrow> string list \<Rightarrow> (string \<times> MigrationStep list) list \<Rightarrow> bool" where
  "bfs_inv a t steps vis q \<longleftrightarrow>
    a \<in> set vis \<and> t \<notin> set vis
    \<and> (\<forall>(v, p) \<in> set q. v \<in> set vis \<and> chain steps a p v
         \<and> (\<forall>p'. chain steps a p' v \<longrightarrow> length p \<le> length p'))
    \<and> sorted (map (length \<circ> snd) q)
    \<and> (\<forall>x \<in> set q. length (snd x) \<le> Suc (length (snd (hd q))))
    \<and> (\<forall>v \<in> set vis. (\<exists>p. (v, p) \<in> set q) \<or>
         (\<forall>e \<in> set steps. mg_from e = v \<longrightarrow> mg_to e \<in> set vis))"

lemma bfs_inv_frontier:
  assumes "bfs_inv a t steps vis ((v, p) # q)" "chain steps a p' x" "x \<notin> set vis"
  shows "length p < length p'"
proof -
  obtain p1 e p2 where p': "p' = p1 @ e # p2" "chain steps a p1 (mg_from e)" "e \<in> set steps"
    "mg_from e \<in> set vis" "mg_to e \<notin> set vis"
    using chain_leaves [OF assms(2), of "set vis"] assms by (auto simp: bfs_inv_def)
  then obtain p0 where p0: "(mg_from e, p0) \<in> set ((v, p) # q)"
    using assms(1) unfolding bfs_inv_def by metis
  have "length p0 \<le> length p1" using p0 p' assms(1) by (auto simp: bfs_inv_def)
  moreover have "length p \<le> length p0" using p0 assms(1) by (auto simp: bfs_inv_def)
  ultimately show ?thesis by (simp add: p'(1))
qed

lemma bfs_inv_round:
  assumes inv: "bfs_inv a t steps vis ((v, p) # q)"
    and r: "bfs_edges t p (bucket (edges_by_from steps) v) vis q = Inr (vis', q')"
  shows "bfs_inv a t steps vis' q'"
proof -
  let ?es = "filter (\<lambda>s. mg_from s = v) steps"
  note r' = r [unfolded bucket_edges]
  note vis = bfs_edges_visited [OF r']
  obtain new where q': "q' = q @ new" and
    new: "\<And>x. x \<in> set new \<Longrightarrow> \<exists>e \<in> set ?es. x = (mg_to e, p @ [e]) \<and> mg_to e \<notin> set vis"
    using bfs_edges_queue [OF r'] by blast
  have len: "length (snd x) = Suc (length p)" if "x \<in> set new" for x using new [OF that] by auto
  have old: "length (snd x) \<le> Suc (length p)" if "x \<in> set q" for x
    using inv that by (auto simp: bfs_inv_def)
  have low: "length p \<le> length (snd x)" if "x \<in> set q" for x
    using inv that by (auto simp: bfs_inv_def)
  have cp: "chain steps a p v" using inv by (auto simp: bfs_inv_def)
  have "sorted (map (length \<circ> snd) new)" using len by (rule sorted_const)
  moreover have "sorted (map (length \<circ> snd) q)" using inv by (simp add: bfs_inv_def)
  ultimately have sorted: "sorted (map (length \<circ> snd) q')"
    using len old by (auto simp: q' sorted_append)
  have hd: "length (snd x) \<le> Suc (length (snd (hd q')))" if "x \<in> set q'" for x
  proof -
    have "q' \<noteq> []" using that by auto
    then have "length p \<le> length (snd (hd q'))"
      using low len by (metis Suc_n_not_le_n Un_iff hd_in_set linear set_append q')
    moreover have "length (snd x) \<le> Suc (length p)"
      using that old [of x] len [of x] unfolding q' set_append by fastforce
    ultimately show ?thesis by linarith
  qed
  have entries: "w \<in> set vis' \<and> chain steps a pw w \<and> (\<forall>p'. chain steps a p' w \<longrightarrow> length pw \<le> length p')"
    if mem: "(w, pw) \<in> set q'" for w pw
  proof (cases "(w, pw) \<in> set q")
    case True
    then show ?thesis using inv vis by (auto simp: bfs_inv_def)
  next
    case False
    then obtain e where e: "e \<in> set ?es" "w = mg_to e" "pw = p @ [e]" "w \<notin> set vis"
      using mem new [of "(w, pw)"] unfolding q' set_append by auto
    have "chain steps a pw w" using e cp by (auto simp: chain_append)
    moreover have "length pw \<le> length p'" if "chain steps a p' w" for p'
      using bfs_inv_frontier [OF inv that e(4)] by (simp add: e(3))
    ultimately show ?thesis using e vis by blast
  qed
  have closed: "(\<exists>p. (u, p) \<in> set q') \<or> (\<forall>e \<in> set steps. mg_from e = u \<longrightarrow> mg_to e \<in> set vis')"
    if "u \<in> set vis'" for u
  proof (cases "u \<in> set vis")
    case False
    then show ?thesis using bfs_edges_queued [OF r' that] by blast
  next
    case True
    show ?thesis
    proof (cases "u = v")
      case True
      then show ?thesis using vis by auto
    next
      case False
      then show ?thesis using inv \<open>u \<in> set vis\<close> vis by (auto simp: bfs_inv_def q')
    qed
  qed
  have "t \<notin> set vis'" "a \<in> set vis'" using inv vis by (auto simp: bfs_inv_def)
  then show ?thesis unfolding bfs_inv_def using sorted hd entries closed by auto
qed

lemma bfs_correct:
  "bfs_inv a t steps vis q \<Longrightarrow>
    (case bfs t steps vis q of
       None \<Rightarrow> \<nexists>p. chain steps a p t
     | Some p \<Rightarrow> chain steps a p t \<and> (\<forall>p'. chain steps a p' t \<longrightarrow> length p \<le> length p'))"
proof (induction t steps vis q rule: bfs.induct)
  case (1 t steps vis)
  have "\<not> chain steps a p t" for p
  proof
    assume "chain steps a p t"
    from chain_leaves [OF this, of "set vis"] 1 show False by (auto simp: bfs_inv_def)
  qed
  then show ?case by (simp add: bfs.simps)
next
  case (2 t steps vis v path q)
  show ?case
  proof (cases "bfs_edges t path (bucket (edges_by_from steps) v) vis q")
    case (Inl p)
    from bfs_edges_Inl [OF this] obtain e where e: "e \<in> set steps" "mg_from e = v" "p = path @ [e]" "mg_to e = t"
      by (auto simp: bucket_edges)
    have "chain steps a path v" "t \<notin> set vis" using "2.prems" by (auto simp: bfs_inv_def)
    then have "chain steps a p t" "\<forall>p'. chain steps a p' t \<longrightarrow> length p \<le> length p'"
      using e bfs_inv_frontier [OF "2.prems"] by (auto simp: chain_append Suc_le_eq)
    then show ?thesis using Inl by (simp add: bfs.simps)
  next
    case (Inr s)
    obtain vis' q' where s: "s = (vis', q')" by (cases s)
    have "bfs_inv a t steps vis' q'" using bfs_inv_round [OF "2.prems"] Inr s by simp
    from "2.IH" [OF Inr s [symmetric] this]
    show ?thesis by (simp only: bfs.simps Inr s sum.case prod.case)
  qed
qed

lemma bfs_inv_start: "a \<noteq> t \<Longrightarrow> bfs_inv a t steps [a] [(a, [])]"
  by (simp add: bfs_inv_def)

section \<open>Step ids stay unique\<close>

definition mr_ok :: "MigrationRegistry \<Rightarrow> bool" where
  "mr_ok r \<longleftrightarrow> jm_all (\<lambda>c steps. distinct (map mg_id steps)) (mr_steps r)"

lemma mr_ok_bucket: "mr_ok r \<Longrightarrow> distinct (map mg_id (bucket (mr_steps r) c))"
  by (auto simp: mr_ok_def bucket_def dest: jm_all_getD split: option.split)

lemma distinct_filter_map: "distinct (map f xs) \<Longrightarrow> distinct (map f (filter P xs))"
  by (rule distinct_map_filter)

lemma mr_ok_register: "mr_ok r \<Longrightarrow> mr_ok (mr_register c s r)"
  using mr_ok_bucket [of r c]
  by (auto simp: mr_ok_def mr_register_def intro!: jm_all_set distinct_filter_map)

lemma mr_ok_unregister: "mr_ok r \<Longrightarrow> mr_ok (fst (mr_unregister c i r))"
  by (auto simp: mr_ok_def mr_unregister_def Let_def intro!: jm_all_set distinct_filter_map
      dest: jm_all_getD split: option.split)

section \<open>Plans\<close>

text \<open>What a runner relies on: a plan that is returned is a chain of known steps between the versions
  asked for.\<close>

locale plan_source =
  fixes steps :: "MigrationStep list"
    and resolve :: "string \<Rightarrow> string \<Rightarrow> thrown + MigrationPlan"
  assumes resolve_chain: "resolve a b = Inr p \<Longrightarrow> chain steps a (pl_steps p) b"
    and resolve_complete: "resolve a b = Inl e \<Longrightarrow> \<not> chain steps a q b"
begin

lemma resolve_refl: "\<exists>p. resolve a a = Inr p"
  using resolve_complete [of a a _ "[]"] by (cases "resolve a a") auto

text \<open>Resolvability is transitive, and every prefix of a plan can be resolved.\<close>

lemma resolve_trans:
  assumes "resolve a b = Inr p" "resolve b c = Inr q"
  shows "\<exists>r. resolve a c = Inr r"
proof (cases "resolve a c")
  case (Inl e)
  have "chain steps a (pl_steps p @ pl_steps q) c"
    using resolve_chain [OF assms(1)] resolve_chain [OF assms(2)] by (auto simp: chain_append)
  then show ?thesis using resolve_complete [OF Inl] by blast
qed simp

lemma resolve_step: "s \<in> set steps \<Longrightarrow> \<exists>p. resolve (mg_from s) (mg_to s) = Inr p"
proof (cases "resolve (mg_from s) (mg_to s)")
  case (Inl e)
  assume "s \<in> set steps"
  then have "chain steps (mg_from s) [s] (mg_to s)" by simp
  then show ?thesis using resolve_complete [OF Inl] by blast
qed simp

end

lemma resolvePath_spec:
  "case resolvePath c a b r of
     Inr p \<Rightarrow> chain (mr_listSteps c r) a (pl_steps p) b
       \<and> (\<forall>q. chain (mr_listSteps c r) a q b \<longrightarrow> length (pl_steps p) \<le> length q)
       \<and> pl_contractId p = c \<and> pl_from p = a \<and> pl_to p = b
   | Inl e \<Rightarrow> e = newMigrationPathNotFoundError c a b \<and> (\<nexists>q. chain (mr_listSteps c r) a q b)"
proof (cases "a = b")
  case False
  then show ?thesis
    using bfs_correct [OF bfs_inv_start [OF False], of "mr_listSteps c r"]
    by (simp add: resolvePath_def split: option.splits)
qed (simp add: resolvePath_def)

interpretation mr: plan_source "mr_listSteps c r" "\<lambda>a b. resolvePath c a b r" for c r
proof
  fix a b p assume "resolvePath c a b r = Inr p"
  then show "chain (mr_listSteps c r) a (pl_steps p) b" using resolvePath_spec [of c a b r] by simp
next
  fix a b e q assume "resolvePath c a b r = Inl e"
  then show "\<not> chain (mr_listSteps c r) a q b" using resolvePath_spec [of c a b r] by simp
qed

section \<open>Properties\<close>

text \<open>C9. Resolving a migration path is total, sound, complete and shortest: it returns a chain of
  registered steps from the one version to the other with no more steps than any other such
  chain, and raises the path error exactly when there is none.\<close>

theorem resolvePath_shortest:
  "case resolvePath c a b r of
     Inr p \<Rightarrow> chain (mr_listSteps c r) a (pl_steps p) b
       \<and> (\<forall>q. chain (mr_listSteps c r) a q b \<longrightarrow> length (pl_steps p) \<le> length q)
       \<and> pl_contractId p = c \<and> pl_from p = a \<and> pl_to p = b
   | Inl e \<Rightarrow> e = newMigrationPathNotFoundError c a b \<and> (\<nexists>q. chain (mr_listSteps c r) a q b)"
  by (rule resolvePath_spec)

definition wit_step :: "string \<Rightarrow> string \<Rightarrow> string \<Rightarrow> MigrationStep" where
  "wit_step i a b = \<lparr>mg_id = i, mg_from = a, mg_to = b, mg_description = None,
     mg_migrate = (\<lambda>s c. Inr s), mg_rollback = None\<rparr>"

definition wit_registry :: MigrationRegistry where
  "wit_registry = mr_register ''V'' (wit_step ''s2'' ''v2'' ''v3'')
     (mr_register ''V'' (wit_step ''s1'' ''v1'' ''v2'') mr_new)"

lemma wit_listSteps: "mr_listSteps ''V'' wit_registry = [wit_step ''s1'' ''v1'' ''v2'', wit_step ''s2'' ''v2'' ''v3'']"
  by (simp add: wit_registry_def mr_register_def mr_listSteps_def mr_new_def bucket_def wit_step_def)

lemma resolvePath_shortest_witness:
  "\<exists>p. resolvePath ''V'' ''v1'' ''v3'' wit_registry = Inr p \<and> length (pl_steps p) \<le> 2"
proof -
  have c: "chain (mr_listSteps ''V'' wit_registry) ''v1''
      [wit_step ''s1'' ''v1'' ''v2'', wit_step ''s2'' ''v2'' ''v3''] ''v3''"
    by (simp add: wit_listSteps, simp add: wit_step_def)
  note spec = resolvePath_shortest [of "''V''" "''v1''" "''v3''" wit_registry]
  show ?thesis
  proof (cases "resolvePath ''V'' ''v1'' ''v3'' wit_registry")
    case (Inl e)
    then show ?thesis using spec c by (simp only: Inl sum.case) blast
  next
    case (Inr p)
    then have "length (pl_steps p) \<le>
        length [wit_step ''s1'' ''v1'' ''v2'', wit_step ''s2'' ''v2'' ''v3'']"
      using spec c by (simp only: Inr sum.case)
    with Inr show ?thesis by simp
  qed
qed

text \<open>Registering and unregistering keep the ids of a contract's steps unique, a registered step
  replaces the one with its id, and other contracts are not affected.\<close>

theorem register_replaces_by_id:
  assumes "mr_ok r"
  shows "mr_ok (mr_register c s r) \<and> mr_ok (fst (mr_unregister c i r))
    \<and> mr_listSteps c (mr_register c s r) = filter (\<lambda>x. mg_id x \<noteq> mg_id s) (mr_listSteps c r) @ [s]
    \<and> (c' = c \<or> mr_listSteps c' (mr_register c s r) = mr_listSteps c' r)"
  using mr_ok_register [OF assms] mr_ok_unregister [OF assms]
  by (simp add: mr_listSteps_def mr_register_def)

lemma register_replaces_by_id_witness:
  "mr_listSteps ''V'' (mr_register ''V'' (wit_step ''s1'' ''v1'' ''v9'') wit_registry) =
    [wit_step ''s2'' ''v2'' ''v3'', wit_step ''s1'' ''v1'' ''v9'']"
proof -
  have "mr_ok wit_registry"
    unfolding wit_registry_def by (intro mr_ok_register) (simp add: mr_ok_def mr_new_def)
  from register_replaces_by_id [OF this, of "''V''" "wit_step ''s1'' ''v1'' ''v9''"] show ?thesis
    by (simp add: wit_listSteps wit_step_def)
qed

text \<open>Resolvability is transitive: when a path leads from one version to a second and from there to
  a third, the registry resolves the whole way.\<close>

theorem resolvePath_trans:
  assumes "resolvePath c u v r = Inr p" "resolvePath c v w r = Inr q"
  shows "\<exists>s. resolvePath c u w r = Inr s \<and> length (pl_steps s) \<le> length (pl_steps p) + length (pl_steps q)"
proof -
  obtain s where s: "resolvePath c u w r = Inr s" using mr.resolve_trans [OF assms] by blast
  have "chain (mr_listSteps c r) u (pl_steps p @ pl_steps q) w"
    using mr.resolve_chain [OF assms(1)] mr.resolve_chain [OF assms(2)] by (auto simp: chain_append)
  then have "length (pl_steps s) \<le> length (pl_steps p @ pl_steps q)"
    using resolvePath_spec [of c u w r] by (simp only: s sum.case)
  with s show ?thesis by simp
qed

lemma resolvePath_trans_witness:
  "\<exists>s. resolvePath ''V'' ''v1'' ''v1'' wit_registry = Inr s"
  using resolvePath_trans [of "''V''" "''v1''" "''v1''" wit_registry
      "\<lparr>pl_contractId = ''V'', pl_from = ''v1'', pl_to = ''v1'', pl_steps = []\<rparr>" "''v1''"
      "\<lparr>pl_contractId = ''V'', pl_from = ''v1'', pl_to = ''v1'', pl_steps = []\<rparr>"]
  by (auto simp: resolvePath_def)

end
