(* ===== verification/MigrationRunner.thy ===== *)
theory MigrationRunner
  imports MigrationRegistry
begin

text \<open>
  Running a migration plan (\<open>src/src/migrations/migrationRunner.ts\<close>, \<open>stateValidator.ts\<close>,
  \<open>migrationReporter.ts\<close>) and the built-in vault migrations
  (\<open>src/src/contracts/contractMigrations.ts\<close>). The clock is a function \<open>clk\<close> from the number
  of calls made so far, which the runner threads through. The schema library is the parameter
  \<open>safeParse\<close>.
\<close>

section \<open>State schemas (stateValidator.ts)\<close>

record 's MigrationStateValidator =
  sv_schemas :: "(string, 's) jsmap"

definition msv_new :: "'s MigrationStateValidator" where
  "msv_new = \<lparr>sv_schemas = []\<rparr>"

definition registerStateSchema ::
    "string \<Rightarrow> string \<Rightarrow> 's \<Rightarrow> 's MigrationStateValidator \<Rightarrow> 's MigrationStateValidator" where
  "registerStateSchema c v sch m = m\<lparr>sv_schemas := jm_set (composite_key c v) sch (sv_schemas m)\<rparr>"

definition unregisterStateSchema ::
    "string \<Rightarrow> string \<Rightarrow> 's MigrationStateValidator \<Rightarrow> 's MigrationStateValidator" where
  "unregisterStateSchema c v m = m\<lparr>sv_schemas := jm_delete (composite_key c v) (sv_schemas m)\<rparr>"

definition hasStateSchema :: "string \<Rightarrow> string \<Rightarrow> 's MigrationStateValidator \<Rightarrow> bool" where
  "hasStateSchema c v m = jm_has (sv_schemas m) (composite_key c v)"

definition validateState ::
    "'s safe_parse \<Rightarrow> string \<Rightarrow> string \<Rightarrow> jsv \<Rightarrow> 's MigrationStateValidator \<Rightarrow> thrown + jsv" where
  "validateState safeParse c v st m =
    (case jm_get (sv_schemas m) (composite_key c v) of None \<Rightarrow> Inr st
     | Some sch \<Rightarrow>
        (case safeParse sch st of Inr out \<Rightarrow> Inr out
         | Inl raw \<Rightarrow>
            let issues = toValidationIssues raw;
                summary = join_str ''; '' (map (\<lambda>i. vi_path i @ '': '' @ vi_message i) issues) in
            Inl (AxErr (CMigrationStateValidationError c v issues)
              (''State validation failed for contract \"'' @ c @ ''\" at version \"'' @ v @ ''\": '' @
               summary) None None None)))"

interpretation msv: keyed_store "\<lambda>m. jm_ok (sv_schemas m)" "\<lambda>m k. jm_get (sv_schemas m) k"
    "\<lambda>k v m. m\<lparr>sv_schemas := jm_set k v (sv_schemas m)\<rparr>"
    "\<lambda>k m. m\<lparr>sv_schemas := jm_delete k (sv_schemas m)\<rparr>"
  by unfold_locales auto

section \<open>Results and reports (types/migration.ts)\<close>

record MigrationStepResult =
  sr_stepId :: string
  sr_from :: string
  sr_to :: string
  sr_status :: MigrationStepStatus
  sr_startedAt :: int
  sr_finishedAt :: int
  sr_durationMs :: int
  sr_error :: "(string \<times> string) option"

record RunMigrationOptions =
  ro_dryRun :: "bool option"
  ro_rollbackOnFailure :: "bool option"
  ro_validateState :: "bool option"
  ro_metadata :: "props option"

record MigrationReport =
  rep_contractId :: string
  rep_from :: string
  rep_to :: string
  rep_status :: MigrationStatus
  rep_dryRun :: bool
  rep_startedAt :: int
  rep_finishedAt :: int
  rep_durationMs :: int
  rep_totalSteps :: nat
  rep_succeededSteps :: nat
  rep_failedSteps :: nat
  rep_steps :: "MigrationStepResult list"
  rep_rollbackSteps :: "MigrationStepResult list option"

section \<open>The runner (migrationRunner.ts)\<close>

type_synonym clock = "nat \<Rightarrow> int"

definition thrown_info :: "thrown \<Rightarrow> string \<times> string" where
  "thrown_info t =
    (case t of Raw v \<Rightarrow> (err_name v, err_message v) | AxErr c m st rid x \<Rightarrow> (ax_class_name c, m))"

text \<open>\<open>if (failure)\<close>: an error object is truthy, a thrown primitive may not be.\<close>

definition truthy_thrown :: "thrown \<Rightarrow> bool" where
  "truthy_thrown t = (case t of Raw v \<Rightarrow> js_truthy v | AxErr _ _ _ _ _ \<Rightarrow> True)"

definition step_result ::
    "clock \<Rightarrow> nat \<Rightarrow> string \<Rightarrow> string \<Rightarrow> string \<Rightarrow> thrown option \<Rightarrow> MigrationStepResult" where
  "step_result clk t i a b err =
    \<lparr>sr_stepId = i, sr_from = a, sr_to = b,
     sr_status = (case err of None \<Rightarrow> MsSucceeded | Some _ \<Rightarrow> MsFailed),
     sr_startedAt = clk t, sr_finishedAt = clk (t + 1), sr_durationMs = clk (t + 2) - clk t,
     sr_error = (case err of None \<Rightarrow> None | Some e \<Rightarrow> Some (thrown_info e))\<rparr>"

text \<open>One step's \<open>try\<close> block.\<close>

definition attempt ::
    "'s safe_parse \<Rightarrow> 's MigrationStateValidator \<Rightarrow> bool \<Rightarrow> MigrationContext \<Rightarrow> MigrationStep \<Rightarrow> jsv
      \<Rightarrow> thrown + jsv" where
  "attempt sp val should ctx s st =
    (case (if should then validateState sp (mc_contractId ctx) (mg_from s) st val else Inr st) of
       Inl e \<Rightarrow> Inl e
     | Inr _ \<Rightarrow>
        (case mg_migrate s st ctx of Inl e \<Rightarrow> Inl e
         | Inr nxt \<Rightarrow>
            (case (if should then validateState sp (mc_contractId ctx) (mg_to s) nxt val else Inr nxt) of
               Inl e \<Rightarrow> Inl e
             | Inr _ \<Rightarrow> Inr nxt)))"

record run_state =
  rs_state :: jsv
  rs_results :: "MigrationStepResult list"
  rs_completed :: "MigrationStep list"
  rs_failure :: "thrown option"
  rs_ticks :: nat

fun run_steps ::
    "'s safe_parse \<Rightarrow> 's MigrationStateValidator \<Rightarrow> bool \<Rightarrow> MigrationContext \<Rightarrow> clock
      \<Rightarrow> MigrationStep list \<Rightarrow> run_state \<Rightarrow> run_state" where
  "run_steps sp val should ctx clk [] r = r"
| "run_steps sp val should ctx clk (s # ss) r =
    (case attempt sp val should ctx s (rs_state r) of
       Inr nxt \<Rightarrow>
         run_steps sp val should ctx clk ss
           (r\<lparr>rs_state := nxt, rs_completed := rs_completed r @ [s],
              rs_results := rs_results r @ [step_result clk (rs_ticks r) (mg_id s) (mg_from s) (mg_to s) None],
              rs_ticks := rs_ticks r + 3\<rparr>)
     | Inl e \<Rightarrow>
         r\<lparr>rs_results := rs_results r @ [step_result clk (rs_ticks r) (mg_id s) (mg_from s) (mg_to s) (Some e)],
           rs_failure := Some e, rs_ticks := rs_ticks r + 3\<rparr>)"

record rollback_state =
  rb_state :: jsv
  rb_results :: "MigrationStepResult list"
  rb_all :: bool
  rb_ticks :: nat

fun rollback_steps ::
    "MigrationContext \<Rightarrow> clock \<Rightarrow> MigrationStep list \<Rightarrow> rollback_state \<Rightarrow> rollback_state" where
  "rollback_steps ctx clk [] r = r"
| "rollback_steps ctx clk (s # ss) r =
    (case mg_rollback s of
       None \<Rightarrow> rollback_steps ctx clk ss (r\<lparr>rb_all := False\<rparr>)
     | Some f \<Rightarrow>
        (case f (rb_state r) ctx of
           Inr st \<Rightarrow> rollback_steps ctx clk ss
             (r\<lparr>rb_state := st,
                rb_results := rb_results r @ [step_result clk (rb_ticks r) (mg_id s) (mg_to s) (mg_from s) None],
                rb_ticks := rb_ticks r + 3\<rparr>)
         | Inl e \<Rightarrow> rollback_steps ctx clk ss
             (r\<lparr>rb_all := False,
                rb_results := rb_results r @ [step_result clk (rb_ticks r) (mg_id s) (mg_to s) (mg_from s) (Some e)],
                rb_ticks := rb_ticks r + 3\<rparr>)))"

definition mrun_rollback ::
    "MigrationContext \<Rightarrow> clock \<Rightarrow> MigrationStep list \<Rightarrow> jsv \<Rightarrow> nat \<Rightarrow> rollback_state" where
  "mrun_rollback ctx clk completed st t =
    rollback_steps ctx clk (rev completed)
      \<lparr>rb_state = st, rb_results = [], rb_all = (length completed > 0), rb_ticks = t\<rparr>"

definition opt_default :: "'a option \<Rightarrow> 'a \<Rightarrow> 'a" where
  "opt_default x d = (case x of None \<Rightarrow> d | Some y \<Rightarrow> y)"

definition mrun_run ::
    "'s safe_parse \<Rightarrow> 's MigrationStateValidator \<Rightarrow> clock \<Rightarrow> MigrationPlan \<Rightarrow> jsv
      \<Rightarrow> RunMigrationOptions \<Rightarrow> jsv \<times> MigrationReport" where
  "mrun_run sp val clk plan initial opts =
    (let dry = opt_default (ro_dryRun opts) False;
         should = opt_default (ro_validateState opts) True;
         ctx = \<lparr>mc_contractId = pl_contractId plan, mc_dryRun = dry, mc_metadata = ro_metadata opts\<rparr>;
         started = clk 0;
         r = run_steps sp val should ctx clk (pl_steps plan)
               \<lparr>rs_state = initial, rs_results = [], rs_completed = [], rs_failure = None, rs_ticks = 1\<rparr>;
         failed = (case rs_failure r of None \<Rightarrow> False | Some e \<Rightarrow> truthy_thrown e);
         status = (if failed then MFailed else MCompleted);
         (st, rbs, status', t) =
           (if failed \<and> opt_default (ro_rollbackOnFailure opts) False \<and> \<not> dry then
              (let o' = mrun_rollback ctx clk (rs_completed r) (rs_state r) (rs_ticks r) in
               (rb_state o', Some (rb_results o'), if rb_all o' then MRolledBack else status, rb_ticks o'))
            else (rs_state r, None, status, rs_ticks r));
         finished = clk t in
     (if dry then initial else st,
      \<lparr>rep_contractId = pl_contractId plan, rep_from = pl_from plan, rep_to = pl_to plan,
       rep_status = status', rep_dryRun = dry, rep_startedAt = started, rep_finishedAt = finished,
       rep_durationMs = finished - started, rep_totalSteps = length (pl_steps plan),
       rep_succeededSteps = length (filter (\<lambda>x. sr_status x = MsSucceeded) (rs_results r)),
       rep_failedSteps = length (filter (\<lambda>x. sr_status x = MsFailed) (rs_results r)),
       rep_steps = rs_results r, rep_rollbackSteps = rbs\<rparr>))"

definition mrun_migrate ::
    "'s safe_parse \<Rightarrow> 's MigrationStateValidator \<Rightarrow> MigrationRegistry \<Rightarrow> clock \<Rightarrow> string \<Rightarrow> jsv
      \<Rightarrow> string \<Rightarrow> string \<Rightarrow> RunMigrationOptions \<Rightarrow> thrown + jsv \<times> MigrationReport" where
  "mrun_migrate sp val reg clk c st a b opts =
    (case resolvePath c a b reg of Inl e \<Rightarrow> Inl e | Inr plan \<Rightarrow> Inr (mrun_run sp val clk plan st opts))"

section \<open>The reporter (migrationReporter.ts)\<close>

text \<open>\<open>toISO\<close> stands for \<open>toISOString\<close>; the dash of the code is outside the 8-bit range.\<close>

definition formatStep :: "MigrationStepResult \<Rightarrow> string" where
  "formatStep s =
    ''  ['' @ (if sr_status s = MsSucceeded then ''OK'' else ''FAIL'') @ ''] '' @ sr_from s @ '' -> '' @
    sr_to s @ '' ('' @ sr_stepId s @ '', '' @ int_str (sr_durationMs s) @ ''ms)'' @
    (case sr_error s of None \<Rightarrow> [] | Some (n, m) \<Rightarrow> '' - '' @ n @ '': '' @ m)"

definition status_upper :: "MigrationStatus \<Rightarrow> string" where
  "status_upper st =
    (case st of MCompleted \<Rightarrow> ''COMPLETED'' | MFailed \<Rightarrow> ''FAILED'' | MRolledBack \<Rightarrow> ''ROLLED_BACK'')"

definition summarizeMigrationReport :: "(int \<Rightarrow> string) \<Rightarrow> MigrationReport \<Rightarrow> string" where
  "summarizeMigrationReport toISO r =
    join_str [CHR 0x0A]
      ([''Migration report for \"'' @ rep_contractId r @ ''\" ('' @ rep_from r @ '' -> '' @ rep_to r @ '')'',
        ''Status: '' @ status_upper (rep_status r) @ (if rep_dryRun r then '' (dry run)'' else []),
        ''Steps: '' @ nat_str (rep_succeededSteps r) @ ''/'' @ nat_str (rep_totalSteps r) @ '' succeeded'']
       @ map formatStep (rep_steps r)
       @ (case rep_rollbackSteps r of None \<Rightarrow> []
          | Some rs \<Rightarrow> if rs = [] then [] else ''Rollback:'' # map formatStep rs)
       @ [''Started: '' @ toISO (rep_startedAt r) @ '', Finished: '' @ toISO (rep_finishedAt r) @
          '', Duration: '' @ int_str (rep_durationMs r) @ ''ms''])"

section \<open>Forward runs\<close>

fun forward ::
    "'s safe_parse \<Rightarrow> 's MigrationStateValidator \<Rightarrow> bool \<Rightarrow> MigrationContext
      \<Rightarrow> MigrationStep list \<Rightarrow> jsv \<Rightarrow> jsv \<Rightarrow> bool" where
  "forward sp val should ctx [] a b \<longleftrightarrow> a = b"
| "forward sp val should ctx (s # ss) a b \<longleftrightarrow>
    (\<exists>m. attempt sp val should ctx s a = Inr m \<and> forward sp val should ctx ss m b)"

lemma forward_snoc:
  "forward sp val should ctx (ss @ [s]) a b \<longleftrightarrow>
    (\<exists>m. forward sp val should ctx ss a m \<and> attempt sp val should ctx s m = Inr b)"
  by (induction ss arbitrary: a) auto

definition n_ok :: "MigrationStepResult list \<Rightarrow> nat" where
  "n_ok rs = length (filter (\<lambda>x. sr_status x = MsSucceeded) rs)"

definition n_bad :: "MigrationStepResult list \<Rightarrow> nat" where
  "n_bad rs = length (filter (\<lambda>x. sr_status x = MsFailed) rs)"

lemma n_append [simp]:
  "n_ok (xs @ ys) = n_ok xs + n_ok ys" "n_bad (xs @ ys) = n_bad xs + n_bad ys"
  by (simp_all add: n_ok_def n_bad_def)

lemma n_step [simp]:
  "n_ok [step_result clk t i a b err] = (if err = None then 1 else 0)"
  "n_bad [step_result clk t i a b err] = (if err = None then 0 else 1)"
  by (cases err; simp add: n_ok_def n_bad_def step_result_def)+

text \<open>What a run did: it completed a prefix of the steps, and the next one, if any, failed.\<close>

lemma run_steps_spec:
  assumes "rs_failure r = None"
  shows "\<exists>ok rest. ss = ok @ rest
    \<and> rs_completed (run_steps sp val should ctx clk ss r) = rs_completed r @ ok
    \<and> forward sp val should ctx ok (rs_state r) (rs_state (run_steps sp val should ctx clk ss r))
    \<and> n_ok (rs_results (run_steps sp val should ctx clk ss r)) = n_ok (rs_results r) + length ok
    \<and> (case rs_failure (run_steps sp val should ctx clk ss r) of
         None \<Rightarrow> rest = [] \<and> n_bad (rs_results (run_steps sp val should ctx clk ss r)) = n_bad (rs_results r)
       | Some e \<Rightarrow> rest \<noteq> [] \<and> n_bad (rs_results (run_steps sp val should ctx clk ss r)) = Suc (n_bad (rs_results r))
           \<and> attempt sp val should ctx (hd rest) (rs_state (run_steps sp val should ctx clk ss r)) = Inl e)"
  using assms
proof (induction ss arbitrary: r)
  case Nil
  then show ?case by simp
next
  case (Cons s ss)
  show ?case
  proof (cases "attempt sp val should ctx s (rs_state r)")
    case (Inl e)
    then show ?thesis by - (rule exI [of _ "[]"], rule exI [of _ "s # ss"], simp)
  next
    case (Inr nxt)
    let ?r = "r\<lparr>rs_state := nxt, rs_completed := rs_completed r @ [s],
              rs_results := rs_results r @ [step_result clk (rs_ticks r) (mg_id s) (mg_from s) (mg_to s) None],
              rs_ticks := rs_ticks r + 3\<rparr>"
    have run: "run_steps sp val should ctx clk (s # ss) r = run_steps sp val should ctx clk ss ?r"
      by (simp add: Inr)
    have "rs_failure ?r = None" using Cons.prems by simp
    from Cons.IH [OF this] obtain ok rest where
      "ss = ok @ rest"
      "rs_completed (run_steps sp val should ctx clk ss ?r) = rs_completed ?r @ ok"
      "forward sp val should ctx ok (rs_state ?r) (rs_state (run_steps sp val should ctx clk ss ?r))"
      "n_ok (rs_results (run_steps sp val should ctx clk ss ?r)) = n_ok (rs_results ?r) + length ok"
      "case rs_failure (run_steps sp val should ctx clk ss ?r) of
         None \<Rightarrow> rest = [] \<and> n_bad (rs_results (run_steps sp val should ctx clk ss ?r)) = n_bad (rs_results ?r)
       | Some e \<Rightarrow> rest \<noteq> [] \<and> n_bad (rs_results (run_steps sp val should ctx clk ss ?r)) = Suc (n_bad (rs_results ?r))
           \<and> attempt sp val should ctx (hd rest) (rs_state (run_steps sp val should ctx clk ss ?r)) = Inl e"
      by blast
    then show ?thesis unfolding run
      by - (rule exI [of _ "s # ok"], rule exI [of _ rest], simp add: Inr split: option.splits)
  qed
qed

section \<open>Rolling back\<close>

text \<open>A step whose rollback undoes its migration in a context.\<close>

definition inverts :: "MigrationContext \<Rightarrow> MigrationStep \<Rightarrow> bool" where
  "inverts ctx s \<longleftrightarrow>
    (case mg_rollback s of None \<Rightarrow> False
     | Some f \<Rightarrow> \<forall>a b. mg_migrate s a ctx = Inr b \<longrightarrow> f b ctx = Inr a)"

lemma attempt_migrate: "attempt sp val should ctx s a = Inr b \<Longrightarrow> mg_migrate s a ctx = Inr b"
  by (auto simp: attempt_def split: sum.splits if_splits)

lemma rollback_undoes:
  "\<forall>s \<in> set ss. inverts ctx s \<Longrightarrow> forward sp val should ctx ss a (rb_state r) \<Longrightarrow>
    rb_state (rollback_steps ctx clk (rev ss) r) = a
    \<and> rb_all (rollback_steps ctx clk (rev ss) r) = rb_all r
    \<and> n_ok (rb_results (rollback_steps ctx clk (rev ss) r)) = n_ok (rb_results r) + length ss"
proof (induction ss arbitrary: r rule: rev_induct)
  case Nil
  then show ?case by simp
next
  case (snoc s ss)
  from snoc.prems(2) obtain m where m: "forward sp val should ctx ss a m"
    "attempt sp val should ctx s m = Inr (rb_state r)" by (auto simp: forward_snoc)
  obtain f where f: "mg_rollback s = Some f" "f (rb_state r) ctx = Inr m"
    using snoc.prems(1) attempt_migrate [OF m(2)] by (auto simp: inverts_def split: option.splits)
  let ?r = "r\<lparr>rb_state := m,
     rb_results := rb_results r @ [step_result clk (rb_ticks r) (mg_id s) (mg_to s) (mg_from s) None],
     rb_ticks := rb_ticks r + 3\<rparr>"
  have "forward sp val should ctx ss a (rb_state ?r)" using m by simp
  from snoc.IH [OF _ this] snoc.prems(1) show ?case by (simp add: f)
qed

section \<open>Built-in vault migrations (contractMigrations.ts)\<close>

definition VAULT_MIGRATION_CONTRACT_ID :: string where
  "VAULT_MIGRATION_CONTRACT_ID = ''Vault''"

text \<open>Object spread and rest of an untyped value; destructuring \<open>null\<close> or \<open>undefined\<close> raises.\<close>

definition spread_of :: "jsv \<Rightarrow> props" where
  "spread_of v = (case v of JObj ps \<Rightarrow> obj_spread [] ps | JErr _ _ ps \<Rightarrow> obj_spread [] ps | _ \<Rightarrow> [])"

definition rest_without :: "string list \<Rightarrow> jsv \<Rightarrow> thrown + jsv" where
  "rest_without ks v =
    (if v = JUndef \<or> v = JNull
     then Inl (Raw (JErr ''TypeError'' ''Cannot destructure value'' []))
     else Inr (JObj (foldl (\<lambda>m k. jm_delete k m) (spread_of v) ks)))"

definition vaultV1ToV2Migration :: MigrationStep where
  "vaultV1ToV2Migration =
    \<lparr>mg_id = ''vault-v1-to-v2'', mg_from = ''v1'', mg_to = ''v2'',
     mg_description = Some ''Adds the apy/lockPeriod fields introduced in VaultStateV2, defaulting to 0.'',
     mg_migrate = (\<lambda>st ctx. Inr (JObj (jm_set ''lockPeriod'' (JNum 0)
                                          (jm_set ''apy'' (JNum 0) (spread_of st))))),
     mg_rollback = Some (\<lambda>st ctx. rest_without [''apy'', ''lockPeriod''] st)\<rparr>"

definition vaultV2ToV3Migration :: MigrationStep where
  "vaultV2ToV3Migration =
    \<lparr>mg_id = ''vault-v2-to-v3'', mg_from = ''v2'', mg_to = ''v3'',
     mg_description = Some ''Adds the feeBps field introduced in VaultStateV3, defaulting to 0.'',
     mg_migrate = (\<lambda>st ctx. Inr (JObj (jm_set ''feeBps'' (JNum 0) (spread_of st)))),
     mg_rollback = Some (\<lambda>st ctx. rest_without [''feeBps''] st)\<rparr>"

definition vault_registry :: MigrationRegistry where
  "vault_registry = mr_register VAULT_MIGRATION_CONTRACT_ID vaultV2ToV3Migration
     (mr_register VAULT_MIGRATION_CONTRACT_ID vaultV1ToV2Migration mr_new)"

lemma obj_spread_self: "jm_ok m \<Longrightarrow> obj_spread [] m = m"
proof -
  have "jm_ok (a @ m) \<Longrightarrow> obj_spread a m = a @ m" for a
  proof (induction m arbitrary: a)
    case (Cons p m)
    obtain k v where p: "p = (k, v)" by (cases p)
    have "\<not> jm_has a k" using Cons.prems by (auto simp: jm_ok_def jm_has_iff p)
    then have "obj_spread a (p # m) = obj_spread (a @ [p]) m"
      by (simp only: p obj_spread_Cons jm_set_new not_False_eq_True)
    also have "\<dots> = (a @ [p]) @ m" by (rule Cons.IH) (use Cons.prems in simp)
    finally show ?case by simp
  qed simp
  from this [of "[]"] show "jm_ok m \<Longrightarrow> obj_spread [] m = m" by simp
qed

lemma jm_delete_append: "jm_delete k (m @ m') = jm_delete k m @ jm_delete k m'"
  by (simp add: AList.delete_eq)

lemma jm_delete_snoc: "\<not> jm_has m k \<Longrightarrow> jm_delete k (m @ [(k, v)]) = m"
  by (simp add: jm_delete_append jm_delete_absent)

section \<open>Properties\<close>

definition run_context :: "MigrationPlan \<Rightarrow> RunMigrationOptions \<Rightarrow> MigrationContext" where
  "run_context plan opts = \<lparr>mc_contractId = pl_contractId plan,
     mc_dryRun = opt_default (ro_dryRun opts) False, mc_metadata = ro_metadata opts\<rparr>"

definition run_start :: "jsv \<Rightarrow> run_state" where
  "run_start initial =
    \<lparr>rs_state = initial, rs_results = [], rs_completed = [], rs_failure = None, rs_ticks = 1\<rparr>"

lemma run_start_simps [simp]:
  "rs_state (run_start i) = i" "rs_completed (run_start i) = []" "rs_failure (run_start i) = None"
  "n_ok (rs_results (run_start i)) = 0" "n_bad (rs_results (run_start i)) = 0"
  by (simp_all add: run_start_def n_ok_def n_bad_def)

definition run_result ::
    "'s safe_parse \<Rightarrow> 's MigrationStateValidator \<Rightarrow> clock \<Rightarrow> MigrationPlan \<Rightarrow> jsv
      \<Rightarrow> RunMigrationOptions \<Rightarrow> run_state" where
  "run_result sp val clk plan initial opts =
    run_steps sp val (opt_default (ro_validateState opts) True) (run_context plan opts) clk (pl_steps plan)
      (run_start initial)"

lemma run_result_spec:
  "\<exists>ok rest. pl_steps plan = ok @ rest
    \<and> rs_completed (run_result sp val clk plan initial opts) = ok
    \<and> forward sp val (opt_default (ro_validateState opts) True) (run_context plan opts) ok initial
        (rs_state (run_result sp val clk plan initial opts))
    \<and> n_ok (rs_results (run_result sp val clk plan initial opts)) = length ok
    \<and> (case rs_failure (run_result sp val clk plan initial opts) of
         None \<Rightarrow> rest = [] \<and> n_bad (rs_results (run_result sp val clk plan initial opts)) = 0
       | Some e \<Rightarrow> rest \<noteq> [] \<and> n_bad (rs_results (run_result sp val clk plan initial opts)) = 1
           \<and> attempt sp val (opt_default (ro_validateState opts) True) (run_context plan opts) (hd rest)
               (rs_state (run_result sp val clk plan initial opts)) = Inl e)"
  unfolding run_result_def
  using run_steps_spec [OF run_start_simps(3), where ss = "pl_steps plan" and sp = sp and val = val
      and clk = clk and should = "opt_default (ro_validateState opts) True"
      and ctx = "run_context plan opts" and i1 = initial]
  by (simp only: run_start_simps append_Nil add_0 One_nat_def cong: option.case_cong)

lemma mrun_run_unfold:
  "mrun_run sp val clk plan initial opts =
    (let r = run_result sp val clk plan initial opts; dry = opt_default (ro_dryRun opts) False;
         failed = (case rs_failure r of None \<Rightarrow> False | Some e \<Rightarrow> truthy_thrown e);
         status = (if failed then MFailed else MCompleted);
         (st, rbs, status', t) =
           (if failed \<and> opt_default (ro_rollbackOnFailure opts) False \<and> \<not> dry then
              (let o' = mrun_rollback (run_context plan opts) clk (rs_completed r) (rs_state r) (rs_ticks r) in
               (rb_state o', Some (rb_results o'), if rb_all o' then MRolledBack else status, rb_ticks o'))
            else (rs_state r, None, status, rs_ticks r)) in
     (if dry then initial else st,
      \<lparr>rep_contractId = pl_contractId plan, rep_from = pl_from plan, rep_to = pl_to plan,
       rep_status = status', rep_dryRun = dry, rep_startedAt = clk 0, rep_finishedAt = clk t,
       rep_durationMs = clk t - clk 0, rep_totalSteps = length (pl_steps plan),
       rep_succeededSteps = n_ok (rs_results r), rep_failedSteps = n_bad (rs_results r),
       rep_steps = rs_results r, rep_rollbackSteps = rbs\<rparr>))"
  by (simp add: mrun_run_def run_result_def run_start_def run_context_def n_ok_def n_bad_def Let_def)

text \<open>The parts of a run's result.\<close>

lemma mrun_run_parts:
  fixes sp :: "'s safe_parse"
  assumes "mrun_run sp val clk plan initial opts = (st, rep)"
  defines "r \<equiv> run_result sp val clk plan initial opts"
    and "dry \<equiv> opt_default (ro_dryRun opts) False"
  defines "failed \<equiv> (case rs_failure r of None \<Rightarrow> False | Some e \<Rightarrow> truthy_thrown e)"
    and "rb \<equiv> mrun_rollback (run_context plan opts) clk (rs_completed r) (rs_state r) (rs_ticks r)"
  shows "rep_dryRun rep = dry" "rep_totalSteps rep = length (pl_steps plan)"
    "rep_succeededSteps rep = n_ok (rs_results r)" "rep_failedSteps rep = n_bad (rs_results r)"
    "dry \<Longrightarrow> st = initial"
    "\<not> dry \<Longrightarrow> \<not> failed \<Longrightarrow> st = rs_state r"
    "\<not> failed \<Longrightarrow> rep_status rep = MCompleted"
    "failed \<Longrightarrow> opt_default (ro_rollbackOnFailure opts) False \<Longrightarrow> \<not> dry \<Longrightarrow>
       st = rb_state rb \<and> rep_status rep = (if rb_all rb then MRolledBack else MFailed)
       \<and> rep_rollbackSteps rep = Some (rb_results rb)"
    "\<not> (failed \<and> opt_default (ro_rollbackOnFailure opts) False \<and> \<not> dry) \<Longrightarrow>
       st = (if dry then initial else rs_state r) \<and>
       rep_status rep = (if failed then MFailed else MCompleted) \<and> rep_rollbackSteps rep = None"
    "rep_steps rep = rs_results r"
  using assms(1) unfolding mrun_run_unfold Let_def
  by (auto simp: r_def [symmetric] dry_def [symmetric] failed_def [symmetric] rb_def [symmetric]
      split: if_splits)

text \<open>The lines of a report, times aside: what happened to each step.\<close>

type_synonym step_line = "string \<times> string \<times> string \<times> MigrationStepStatus \<times> (string \<times> string) option"

definition step_line :: "MigrationStepResult \<Rightarrow> step_line" where
  "step_line x = (sr_stepId x, sr_from x, sr_to x, sr_status x, sr_error x)"

definition ok_line :: "MigrationStep \<Rightarrow> step_line" where
  "ok_line s = (mg_id s, mg_from s, mg_to s, MsSucceeded, None)"








lemma line_counts [simp]:
  "filter (\<lambda>(_, _, _, st, _). st = MsSucceeded) (map ok_line ok) = map ok_line ok"
  "filter (\<lambda>(_, _, _, st, _). st = MsFailed) (map ok_line ok) = []"
  by (induction ok) (simp_all add: ok_line_def)


text \<open>C8. A failed run is undone: when every step's rollback undoes its migration and the run that fails is
  neither dry nor without rollback, the caller gets the initial state back; the report says rolled
  back when at least one step had been completed, and failed otherwise.\<close>

theorem rollback_restores_initial:
  assumes "list_all (inverts (run_context plan opts)) (pl_steps plan)"
    and "opt_default (ro_rollbackOnFailure opts) False" "\<not> opt_default (ro_dryRun opts) False"
    and "mrun_run sp val clk plan initial opts = (st, rep)"
    and "rs_failure (run_result sp val clk plan initial opts) = Some e" "truthy_thrown e"
  shows "st = initial
    \<and> rep_status rep = (if rep_succeededSteps rep = 0 then MFailed else MRolledBack)"
proof -
  let ?r = "run_result sp val clk plan initial opts" and ?ctx = "run_context plan opts"
  let ?rb = "mrun_rollback ?ctx clk (rs_completed ?r) (rs_state ?r) (rs_ticks ?r)"
  note parts = mrun_run_parts [OF assms(4)]
  have p: "st = rb_state ?rb" "rep_status rep = (if rb_all ?rb then MRolledBack else MFailed)"
    using parts(8) assms by auto
  from run_result_spec [of plan sp val clk initial opts] obtain ok rest where
    r: "pl_steps plan = ok @ rest" "rs_completed ?r = ok"
      "forward sp val (opt_default (ro_validateState opts) True) ?ctx ok initial (rs_state ?r)"
      "n_ok (rs_results ?r) = length ok" by blast
  have "\<forall>s \<in> set ok. inverts ?ctx s" using assms(1) r(1) by (auto simp: list_all_iff)
  from rollback_undoes [OF this, of sp val "opt_default (ro_validateState opts) True" initial
      "\<lparr>rb_state = rs_state ?r, rb_results = [], rb_all = (length ok > 0), rb_ticks = rs_ticks ?r\<rparr>" clk]
  have "rb_state ?rb = initial" "rb_all ?rb = (length ok > 0)"
    using r(2,3) by (simp_all add: mrun_rollback_def)
  then show ?thesis using p parts(3) r(4) by simp
qed

definition wit_fail :: MigrationStep where
  "wit_fail = \<lparr>mg_id = ''bad'', mg_from = ''v2'', mg_to = ''v3'', mg_description = None,
     mg_migrate = (\<lambda>st ctx. Inl (Raw (JErr ''Error'' ''no'' []))), mg_rollback = Some (\<lambda>st ctx. Inr st)\<rparr>"

definition wit_count :: MigrationStep where
  "wit_count = \<lparr>mg_id = ''inc'', mg_from = ''v1'', mg_to = ''v2'', mg_description = None,
     mg_migrate = (\<lambda>st ctx. case st of JNum n \<Rightarrow> Inr (JNum (n + 1)) | _ \<Rightarrow> Inl (Raw JNull)),
     mg_rollback = Some (\<lambda>st ctx. case st of JNum n \<Rightarrow> Inr (JNum (n - 1)) | _ \<Rightarrow> Inl (Raw JNull))\<rparr>"

definition wit_plan :: MigrationPlan where
  "wit_plan = \<lparr>pl_contractId = ''V'', pl_from = ''v1'', pl_to = ''v3'', pl_steps = [wit_count, wit_fail]\<rparr>"

definition wit_opts :: RunMigrationOptions where
  "wit_opts = \<lparr>ro_dryRun = None, ro_rollbackOnFailure = Some True, ro_validateState = None, ro_metadata = None\<rparr>"

abbreviation wit_parse :: "nat safe_parse" where
  "wit_parse \<equiv> \<lambda>_ v. Inr v"

lemmas run_eval = run_result_def run_start_def attempt_def validateState_def msv_new_def wit_plan_def
  wit_opts_def wit_count_def wit_fail_def opt_default_def step_result_def

lemma wit_failure:
  "rs_failure (run_result wit_parse msv_new int wit_plan (JNum 5) wit_opts) = Some (Raw (JErr ''Error'' ''no'' []))"
  by (simp add: run_eval)

lemma rollback_restores_initial_witness:
  "fst (mrun_run wit_parse msv_new int wit_plan (JNum 5) wit_opts) = JNum 5"
proof -
  obtain st rep where run: "mrun_run wit_parse msv_new int wit_plan (JNum 5) wit_opts = (st, rep)"
    by fastforce
  have inv: "list_all (inverts (run_context wit_plan wit_opts)) (pl_steps wit_plan)"
    by (auto simp: wit_plan_def inverts_def wit_count_def wit_fail_def split: jsv.splits)
  have "st = JNum 5"
    by (rule rollback_restores_initial [OF inv _ _ run wit_failure, THEN conjunct1])
       (simp_all add: wit_opts_def opt_default_def truthy_thrown_def)
  then show ?thesis by (simp add: run)
qed

text \<open>The outcome is decided by the truth value of what was thrown: when a step throws a falsy value
  the run is reported as completed although a step failed, and nothing is rolled back.\<close>

theorem falsy_failure_reported_completed:
  "\<exists>plan. case mrun_run wit_parse msv_new int plan (JNum 5) wit_opts of (st, rep) \<Rightarrow>
     rep_failedSteps rep = 1 \<and> rep_succeededSteps rep = 1 \<and> rep_status rep = MCompleted
     \<and> rep_rollbackSteps rep = None \<and> st = JNum 6"
  by (rule exI [of _ "\<lparr>pl_contractId = ''V'', pl_from = ''v1'', pl_to = ''v3'',
        pl_steps = [wit_count, wit_fail\<lparr>mg_migrate := \<lambda>st ctx. Inl (Raw (JStr []))\<rparr>]\<rparr>"])
     (simp add: mrun_run_unfold run_eval Let_def n_ok_def n_bad_def truthy_thrown_def)

text \<open>The built-in vault migrations round-trip: from a state without the new fields the chain from the
  first version to the third is resolved to the two steps, adds the three fields with value zero,
  and its rollbacks remove exactly those again.\<close>

theorem vault_migrations_roundtrip:
  assumes "jm_ok ps" "\<not> jm_has ps ''apy''" "\<not> jm_has ps ''lockPeriod''" "\<not> jm_has ps ''feeBps''"
  shows "mg_migrate vaultV1ToV2Migration (JObj ps) ctx
      = Inr (JObj (ps @ [(''apy'', JNum 0), (''lockPeriod'', JNum 0)]))
    \<and> mg_migrate vaultV2ToV3Migration (JObj (ps @ [(''apy'', JNum 0), (''lockPeriod'', JNum 0)])) ctx
      = Inr (JObj (ps @ [(''apy'', JNum 0), (''lockPeriod'', JNum 0), (''feeBps'', JNum 0)]))
    \<and> (\<exists>f g. mg_rollback vaultV2ToV3Migration = Some f \<and> mg_rollback vaultV1ToV2Migration = Some g
        \<and> f (JObj (ps @ [(''apy'', JNum 0), (''lockPeriod'', JNum 0), (''feeBps'', JNum 0)])) ctx
          = Inr (JObj (ps @ [(''apy'', JNum 0), (''lockPeriod'', JNum 0)]))
        \<and> g (JObj (ps @ [(''apy'', JNum 0), (''lockPeriod'', JNum 0)])) ctx = Inr (JObj ps))"
proof -
  let ?a = "ps @ [(''apy'', JNum 0)]"
  let ?l = "?a @ [(''lockPeriod'', JNum 0)]"
  let ?f = "?l @ [(''feeBps'', JNum 0)]"
  have na: "\<not> jm_has ?a ''lockPeriod''" and nl: "\<not> jm_has ?l ''feeBps''"
    using assms by (auto simp: jm_has_iff)
  have ok: "jm_ok ?a" "jm_ok ?l" "jm_ok ?f"
    using assms by (auto simp: jm_ok_def jm_has_iff)
  have del: "jm_delete ''apy'' ?l = ps @ [(''lockPeriod'', JNum 0)]"
    by (simp add: jm_delete_append jm_delete_absent assms)
  show ?thesis
    using assms(1) ok na nl
    by (simp add: vaultV1ToV2Migration_def vaultV2ToV3Migration_def spread_of_def rest_without_def
        obj_spread_self jm_set_new [OF assms(2)] jm_set_new [OF na, simplified]
        jm_set_new [OF nl, simplified] jm_delete_append jm_delete_absent assms)
qed

lemma vault_migrations_roundtrip_witness:
  "mg_migrate vaultV1ToV2Migration (JObj [(''totalAssets'', JBig 5)]) (run_context wit_plan wit_opts)
     = Inr (JObj [(''totalAssets'', JBig 5), (''apy'', JNum 0), (''lockPeriod'', JNum 0)])"
  using vault_migrations_roundtrip [of "[(''totalAssets'', JBig 5)]"]
  by (simp add: jm_ok_def jm_has_iff)

end
