(* ===== verification/MetadataRegistry.thy ===== *)
theory MetadataRegistry
  imports Errors
begin

text \<open>
  The registry of contract metadata (\<open>src/src/registry/contractMetadataRegistry.ts\<close>): a map
  from contract names to metadata that is validated when it is registered. The validator reads
  fields that a JavaScript caller may leave out, so a field it guards with \<open>?.\<close> or
  \<open>Array.isArray\<close> is optional here. Every value that enters or leaves the registry is copied by
  \<open>cloneMetadata\<close>; values of the model are immutable, so the copy is the value itself.
\<close>

section \<open>Data\<close>

record ContractDeploymentMetadata =
  cd_environment :: "string option"
  cd_address :: "string option"
  cd_networkPassphrase :: "string option"
  cd_rpcUrl :: "string option"
  cd_deployedAt :: "string option"
  cd_blockHeight :: "int option"

record ContractMetadata =
  cm_name :: "string option"
  cm_version :: "string option"
  cm_capabilities :: "string list option"
  cm_deployments :: "ContractDeploymentMetadata list option"
  cm_supportedFeatures :: "string list option"
  cm_description :: "string option"
  cm_abiName :: "string option"
  cm_tags :: "string list option"

record ContractLookupOptions =
  lo_environment :: "string option"
  lo_capability :: "string option"
  lo_feature :: "string option"

type_synonym ContractMetadataRegistry = "(string, ContractMetadata) jsmap"

definition no_options :: ContractLookupOptions where
  "no_options = \<lparr>lo_environment = None, lo_capability = None, lo_feature = None\<rparr>"

text \<open>\<open>!x?.trim()\<close>: the field is absent or blank.\<close>

definition blank :: "string option \<Rightarrow> bool" where
  "blank x \<longleftrightarrow> (case x of None \<Rightarrow> True | Some s \<Rightarrow> js_trim s = [])"

text \<open>\<open>if (x)\<close> on an optional string: present and not empty.\<close>

definition given :: "string option \<Rightarrow> bool" where
  "given x \<longleftrightarrow> (case x of None \<Rightarrow> False | Some s \<Rightarrow> s \<noteq> [])"

definition listed :: "'a list option \<Rightarrow> 'a list" where
  "listed x = (case x of None \<Rightarrow> [] | Some xs \<Rightarrow> xs)"

section \<open>Operations\<close>

text \<open>The body of the loop over the deployments, at an index and with the environments seen.\<close>

definition cmr_deployment_errors ::
    "nat \<Rightarrow> string set \<Rightarrow> ContractDeploymentMetadata \<Rightarrow> string list" where
  "cmr_deployment_errors i seen d =
     (if blank (cd_environment d)
      then [''deployments['' @ nat_str i @ ''].environment is required''] else [])
   @ (if blank (cd_address d)
      then [''deployments['' @ nat_str i @ ''].address is required''] else [])
   @ (case cd_environment d of None \<Rightarrow> []
      | Some e \<Rightarrow> if e \<noteq> [] \<and> e \<in> seen
                 then [''duplicate deployment environment: '' @ e] else [])
   @ (case cd_blockHeight d of None \<Rightarrow> []
      | Some h \<Rightarrow> if h < 0
                 then [''deployments['' @ nat_str i @ ''].blockHeight must be non-negative'']
                 else [])"

definition cmr_see :: "string set \<Rightarrow> ContractDeploymentMetadata \<Rightarrow> string set" where
  "cmr_see seen d = (case cd_environment d of None \<Rightarrow> seen
     | Some e \<Rightarrow> if e \<noteq> [] then insert e seen else seen)"

fun cmr_deployments_errors ::
    "nat \<Rightarrow> string set \<Rightarrow> ContractDeploymentMetadata list \<Rightarrow> string list" where
  "cmr_deployments_errors i seen [] = []"
| "cmr_deployments_errors i seen (d # ds) =
     cmr_deployment_errors i seen d @ cmr_deployments_errors (Suc i) (cmr_see seen d) ds"

definition cmr_validate :: "ContractMetadata \<Rightarrow> string list" where
  "cmr_validate m =
     (if blank (cm_name m) then [''name is required''] else [])
   @ (if blank (cm_version m) then [''version is required''] else [])
   @ (if listed (cm_capabilities m) = [] then [''at least one capability is required''] else [])
   @ (if listed (cm_deployments m) = [] then [''at least one deployment is required''] else [])
   @ cmr_deployments_errors 0 {} (listed (cm_deployments m))"

definition cmr_key :: "ContractMetadata \<Rightarrow> string" where
  "cmr_key m = (case cm_name m of None \<Rightarrow> [] | Some s \<Rightarrow> s)"

definition cmr_register ::
    "ContractMetadata \<Rightarrow> ContractMetadataRegistry
      \<Rightarrow> ContractMetadataRegistry \<times> (thrown + ContractMetadata)" where
  "cmr_register m r =
    (let errors = cmr_validate m in
     if errors \<noteq> []
     then (r, Inl (Raw (JErr ''Error'' (''Invalid contract metadata for '' @
            (if cmr_key m = [] then ''<unknown>'' else cmr_key m) @ '': '' @
            join_str ''; '' errors) [])))
     else (jm_set (cmr_key m) m r, Inr m))"

fun cmr_register_all ::
    "ContractMetadata list \<Rightarrow> ContractMetadataRegistry \<Rightarrow> thrown + ContractMetadataRegistry" where
  "cmr_register_all [] r = Inr r"
| "cmr_register_all (m # ms) r =
    (case cmr_register m r of (r', Inl e) \<Rightarrow> Inl e | (r', Inr _) \<Rightarrow> cmr_register_all ms r')"

definition newContractMetadataRegistry ::
    "ContractMetadata list \<Rightarrow> thrown + ContractMetadataRegistry" where
  "newContractMetadataRegistry ms = cmr_register_all ms []"

definition cmr_matches :: "ContractMetadata \<Rightarrow> ContractLookupOptions \<Rightarrow> bool" where
  "cmr_matches m op =
    (if given (lo_environment op) \<and>
        \<not> list_ex (\<lambda>d. cd_environment d = lo_environment op) (listed (cm_deployments m))
     then False
     else if given (lo_capability op) \<and>
        \<not> list_ex (\<lambda>c. Some c = lo_capability op) (listed (cm_capabilities m))
     then False
     else if given (lo_feature op) \<and>
        \<not> list_ex (\<lambda>f. Some f = lo_feature op) (listed (cm_supportedFeatures m))
     then False
     else True)"

definition cmr_get ::
    "string \<Rightarrow> ContractLookupOptions \<Rightarrow> ContractMetadataRegistry \<Rightarrow> ContractMetadata option" where
  "cmr_get nm op r =
    (case jm_get r nm of None \<Rightarrow> None
     | Some m \<Rightarrow> if \<not> cmr_matches m op then None else Some m)"

definition cmr_getDeployment ::
    "string \<Rightarrow> string \<Rightarrow> ContractMetadataRegistry \<Rightarrow> ContractDeploymentMetadata option" where
  "cmr_getDeployment nm env r =
    (case jm_get r nm of None \<Rightarrow> None
     | Some m \<Rightarrow> find (\<lambda>d. cd_environment d = Some env) (listed (cm_deployments m)))"

definition cmr_list ::
    "ContractLookupOptions \<Rightarrow> ContractMetadataRegistry \<Rightarrow> ContractMetadata list" where
  "cmr_list op r = filter (\<lambda>m. cmr_matches m op) (jm_values r)"

definition cmr_has :: "string \<Rightarrow> ContractMetadataRegistry \<Rightarrow> bool" where
  "cmr_has nm r = jm_has r nm"

definition cmr_unregister ::
    "string \<Rightarrow> ContractMetadataRegistry \<Rightarrow> ContractMetadataRegistry \<times> bool" where
  "cmr_unregister nm r = (jm_delete nm r, jm_has r nm)"

section \<open>What validation accepts\<close>

text \<open>The contract of the validator, without error texts and indices.\<close>

definition deployment_ok :: "ContractDeploymentMetadata \<Rightarrow> bool" where
  "deployment_ok d \<longleftrightarrow> \<not> blank (cd_environment d) \<and> \<not> blank (cd_address d) \<and>
     (case cd_blockHeight d of None \<Rightarrow> True | Some h \<Rightarrow> 0 \<le> h)"

definition metadata_ok :: "ContractMetadata \<Rightarrow> bool" where
  "metadata_ok m \<longleftrightarrow> \<not> blank (cm_name m) \<and> \<not> blank (cm_version m) \<and>
     listed (cm_capabilities m) \<noteq> [] \<and> listed (cm_deployments m) \<noteq> [] \<and>
     list_all deployment_ok (listed (cm_deployments m)) \<and>
     distinct (map cd_environment (listed (cm_deployments m)))"

lemma js_trim_Nil [simp]: "js_trim [] = []"
  by (simp add: js_trim_def)

lemma not_blankD: "\<not> blank x \<Longrightarrow> \<exists>s. x = Some s \<and> s \<noteq> []"
  by (cases x) (auto simp: blank_def)

lemma deployment_errors_Nil:
  "cmr_deployment_errors i seen d = [] \<longleftrightarrow>
     deployment_ok d \<and> cd_environment d \<notin> Some ` seen"
  by (cases "cd_environment d"; cases "cd_blockHeight d")
     (auto simp: cmr_deployment_errors_def deployment_ok_def blank_def)

lemma cmr_see_ok: "deployment_ok d \<Longrightarrow> Some ` cmr_see seen d = insert (cd_environment d) (Some ` seen)"
  using not_blankD [of "cd_environment d"] by (auto simp: cmr_see_def deployment_ok_def)

lemma deployments_errors_Nil:
  "cmr_deployments_errors i seen ds = [] \<longleftrightarrow>
     list_all deployment_ok ds \<and> distinct (map cd_environment ds) \<and>
     (\<forall>d \<in> set ds. cd_environment d \<notin> Some ` seen)"
proof (induction ds arbitrary: i seen)
  case (Cons d ds)
  show ?case
  proof (cases "deployment_ok d")
    case True
    then show ?thesis
      unfolding cmr_deployments_errors.simps append_is_Nil_conv Cons.IH deployment_errors_Nil
        cmr_see_ok [OF True]
      by (auto simp: image_iff)
  next
    case False
    then show ?thesis by (simp add: deployment_errors_Nil)
  qed
qed simp

lemma validate_Nil: "cmr_validate m = [] \<longleftrightarrow> metadata_ok m"
  by (auto simp: cmr_validate_def metadata_ok_def deployments_errors_Nil)

lemma metadata_ok_key: "metadata_ok m \<Longrightarrow> cm_name m = Some (cmr_key m) \<and> cmr_key m \<noteq> []"
  using not_blankD [of "cm_name m"] by (auto simp: metadata_ok_def cmr_key_def)

section \<open>Sequences of operations\<close>

datatype cmr_op = MRegister ContractMetadata | MUnregister string

definition cmr_step :: "ContractMetadataRegistry \<Rightarrow> cmr_op \<Rightarrow> ContractMetadataRegistry" where
  "cmr_step r e = (case e of MRegister m \<Rightarrow> fst (cmr_register m r)
     | MUnregister nm \<Rightarrow> fst (cmr_unregister nm r))"

definition cmr_run :: "cmr_op list \<Rightarrow> ContractMetadataRegistry \<Rightarrow> ContractMetadataRegistry" where
  "cmr_run es r = foldl cmr_step r es"

definition cmr_ok :: "ContractMetadataRegistry \<Rightarrow> bool" where
  "cmr_ok r \<longleftrightarrow> jm_ok r \<and> jm_all (\<lambda>k m. cm_name m = Some k \<and> metadata_ok m) r"

lemma cmr_register_ok: "metadata_ok m \<Longrightarrow> cmr_register m r = (jm_set (cmr_key m) m r, Inr m)"
  by (simp add: cmr_register_def validate_Nil)

lemma cmr_register_bad: "\<not> metadata_ok m \<Longrightarrow> \<exists>e. cmr_register m r = (r, Inl e)"
  by (auto simp: cmr_register_def validate_Nil)

lemma cmr_ok_register: "cmr_ok r \<Longrightarrow> cmr_ok (fst (cmr_register m r))"
proof (cases "metadata_ok m")
  case True
  assume "cmr_ok r"
  then show ?thesis using metadata_ok_key [OF True] True
    by (simp add: cmr_register_ok [OF True] cmr_ok_def jm_all_set)
next
  case False
  assume "cmr_ok r"
  then show ?thesis using cmr_register_bad [OF False, of r] by auto
qed

lemma cmr_ok_Nil: "cmr_ok []"
  by (simp add: cmr_ok_def)

interpretation metadata_machine: invariant_machine cmr_ok cmr_step "[]"
proof
  show "cmr_ok (cmr_step s e)" if "cmr_ok s" for s e
    using that by (cases e)
      (auto simp: cmr_step_def cmr_ok_register cmr_unregister_def, auto simp: cmr_ok_def)
qed (rule cmr_ok_Nil)

lemma cmr_ok_run: "cmr_ok r \<Longrightarrow> cmr_ok (cmr_run es r)"
  unfolding cmr_run_def by (rule metadata_machine.inv_steps)

lemma cmr_ok_register_all: "cmr_ok r \<Longrightarrow> cmr_register_all ms r = Inr r' \<Longrightarrow> cmr_ok r'"
proof (induction ms arbitrary: r)
  case (Cons m ms)
  obtain s x where s: "cmr_register m r = (s, x)" by force
  have "cmr_ok s" using cmr_ok_register [OF Cons.prems(1), of m] s by simp
  then show ?case using Cons s by (auto split: sum.splits)
qed simp

lemma cmr_ok_new: "newContractMetadataRegistry ms = Inr r \<Longrightarrow> cmr_ok r"
  unfolding newContractMetadataRegistry_def using cmr_ok_Nil by (rule cmr_ok_register_all)

lemma cmr_okD: "cmr_ok r \<Longrightarrow> jm_get r k = Some m \<Longrightarrow> cm_name m = Some k \<and> metadata_ok m"
  unfolding cmr_ok_def by (auto dest: jm_all_getD)

text \<open>Names of the listed entries are the keys, so no two entries share one.\<close>

lemma cmr_names: "cmr_ok r \<Longrightarrow> map cm_name (jm_values r) = map (Some \<circ> fst) r"
  by (auto simp: cmr_ok_def jm_all_def list_all_iff jm_values_def)

lemma cmr_list_distinct: "cmr_ok r \<Longrightarrow> distinct (map cm_name (cmr_list op r))"
proof -
  assume r: "cmr_ok r"
  have "distinct (map (Some \<circ> fst) r)"
    using r by (auto simp: cmr_ok_def jm_ok_def distinct_map inj_on_def)
  then show ?thesis unfolding cmr_list_def cmr_names [OF r, symmetric]
    by (rule distinct_map_filter)
qed

lemma find_unique:
  "distinct (map f xs) \<Longrightarrow> find (\<lambda>x. f x = a) xs = Some x \<longleftrightarrow> x \<in> set xs \<and> f x = a"
  by (induction xs) (auto simp: image_iff)

section \<open>Properties\<close>

text \<open>
  However the registry was built and whatever has been registered and removed since, each
  entry is stored under its own name and satisfies the contract of the validator, and a listing
  never shows a name twice.
\<close>

theorem metadata_registry_valid:
  assumes "newContractMetadataRegistry ms = Inr r0"
  shows "(cmr_get nm op (cmr_run es r0) = Some m \<longrightarrow> cm_name m = Some nm \<and> metadata_ok m) \<and>
         (m \<in> set (cmr_list op (cmr_run es r0)) \<longrightarrow> metadata_ok m) \<and>
         distinct (map cm_name (cmr_list op (cmr_run es r0)))"
proof -
  have r: "cmr_ok (cmr_run es r0)" by (rule cmr_ok_run [OF cmr_ok_new [OF assms]])
  have g: "cmr_get nm op (cmr_run es r0) = Some m \<Longrightarrow> cm_name m = Some nm \<and> metadata_ok m"
    using cmr_okD [OF r, of nm m] by (auto simp: cmr_get_def split: option.splits if_splits)
  have l: "m \<in> set (cmr_list op (cmr_run es r0)) \<Longrightarrow> metadata_ok m"
    using r by (auto simp: cmr_list_def jm_values_def cmr_ok_def jm_all_def list_all_iff)
  show ?thesis using g l cmr_list_distinct [OF r] by blast
qed

definition demo_deployment :: "string \<Rightarrow> ContractDeploymentMetadata" where
  "demo_deployment e = \<lparr>cd_environment = Some e, cd_address = Some ''CAAA'',
     cd_networkPassphrase = None, cd_rpcUrl = None, cd_deployedAt = None, cd_blockHeight = Some 7\<rparr>"

definition demo_metadata :: "string \<Rightarrow> ContractMetadata" where
  "demo_metadata n = \<lparr>cm_name = Some n, cm_version = Some ''1'', cm_capabilities = Some [''read''],
     cm_deployments = Some [demo_deployment ''testnet'', demo_deployment ''mainnet''],
     cm_supportedFeatures = None, cm_description = None, cm_abiName = None, cm_tags = None\<rparr>"

lemma demo_metadata_ok: "metadata_ok (demo_metadata ''vault'')"
  by code_simp

lemma demo_registry: "newContractMetadataRegistry [demo_metadata ''vault''] =
    Inr [(''vault'', demo_metadata ''vault'')]"
  by (simp add: newContractMetadataRegistry_def cmr_register_ok [OF demo_metadata_ok])
     (simp add: cmr_key_def demo_metadata_def)

theorem metadata_registry_valid_witness:
  "(cmr_get ''vault'' no_options (cmr_run [MRegister (demo_metadata '' '')]
      [(''vault'', demo_metadata ''vault'')]) = Some (demo_metadata ''vault'') \<longrightarrow>
    cm_name (demo_metadata ''vault'') = Some ''vault'' \<and> metadata_ok (demo_metadata ''vault'')) \<and>
   distinct (map cm_name (cmr_list no_options (cmr_run [MRegister (demo_metadata '' '')]
      [(''vault'', demo_metadata ''vault'')])))"
  using metadata_registry_valid [OF demo_registry] by blast

text \<open>
  A lookup by environment finds a deployment exactly when the entry has one for it, and
  validation makes that deployment the only one, so the first match that \<open>getDeployment\<close>
  returns is the match; a lookup of the entry filtered by that environment succeeds with it.
\<close>

theorem deployment_lookup_exact:
  assumes "newContractMetadataRegistry ms = Inr r0" and "r = cmr_run es r0"
  shows "(cmr_getDeployment nm env r = Some d \<longleftrightarrow>
            (\<exists>m. cmr_get nm no_options r = Some m \<and> d \<in> set (listed (cm_deployments m)) \<and>
                 cd_environment d = Some env)) \<and>
         (env \<noteq> [] \<longrightarrow> (cmr_getDeployment nm env r \<noteq> None \<longleftrightarrow>
            cmr_get nm (no_options\<lparr>lo_environment := Some env\<rparr>) r \<noteq> None))"
proof -
  have r: "cmr_ok r" using cmr_ok_run [OF cmr_ok_new [OF assms(1)]] assms(2) by simp
  have m0: "cmr_get nm no_options r = jm_get r nm"
    by (simp add: cmr_get_def cmr_matches_def no_options_def given_def split: option.split)
  have d: "distinct (map cd_environment (listed (cm_deployments m)))" if "jm_get r nm = Some m" for m
    using cmr_okD [OF r that] by (simp add: metadata_ok_def)
  have a: "cmr_getDeployment nm env r = Some d \<longleftrightarrow>
      (\<exists>m. jm_get r nm = Some m \<and> d \<in> set (listed (cm_deployments m)) \<and> cd_environment d = Some env)"
    by (cases "jm_get r nm") (simp_all add: cmr_getDeployment_def find_unique [OF d])
  have b: "env \<noteq> [] \<Longrightarrow> cmr_getDeployment nm env r \<noteq> None \<longleftrightarrow>
            cmr_get nm (no_options\<lparr>lo_environment := Some env\<rparr>) r \<noteq> None"
    by (cases "jm_get r nm")
       (auto simp: cmr_getDeployment_def cmr_get_def cmr_matches_def no_options_def given_def
        find_None_iff list_ex_iff simp del: not_None_eq)
  show ?thesis using a b m0 by simp
qed

theorem deployment_lookup_exact_witness:
  "cmr_getDeployment ''vault'' ''mainnet'' [(''vault'', demo_metadata ''vault'')] =
     Some (demo_deployment ''mainnet'')"
  using deployment_lookup_exact [OF demo_registry, where es = "[]" and nm = "''vault''"
      and env = "''mainnet''" and d = "demo_deployment ''mainnet''"]
  by (simp add: cmr_run_def cmr_get_def cmr_matches_def no_options_def given_def
      demo_metadata_def demo_deployment_def listed_def)

text \<open>
  Registering metadata that meets the contract makes it the entry of its name and leaves every
  other name as it was; metadata that does not is refused with an error and changes nothing.
\<close>

theorem metadata_register_behaviour:
  "if metadata_ok m
   then \<exists>r'. cmr_register m r = (r', Inr m) \<and>
          (\<forall>nm op. cmr_get nm op r' =
             (if Some nm = cm_name m then (if cmr_matches m op then Some m else None)
              else cmr_get nm op r))
   else \<exists>msg. cmr_register m r = (r, Inl (Raw (JErr ''Error'' msg [])))"
proof (cases "metadata_ok m")
  case True
  then show ?thesis using metadata_ok_key [OF True]
    by (auto simp: cmr_register_ok [OF True] cmr_get_def)
next
  case False
  then show ?thesis by (simp add: cmr_register_def validate_Nil)
qed

end
