(* ===== verification/CapabilityRegistry.thy ===== *)
theory CapabilityRegistry
  imports MetadataRegistry
begin

text \<open>
  Contract discovery: the capability registry (\<open>src/src/registry/capabilityRegistry.ts\<close>), the
  default descriptors and the discovery service over them (\<open>src/src/discovery/\<close>). A
  descriptor object is stored under its type and, when it has one, under its contract id;
  \<open>list\<close> removes duplicates by object identity, so a stored descriptor carries the stamp of the
  registration that created it. Fields the validator guards with \<open>?.\<close> are optional. The copies
  made on the way out are values.
\<close>

section \<open>Data (discovery/types.ts)\<close>

record ContractMethodDescriptor =
  md_name :: "string option"
  md_capability :: string
  md_mutability :: string
  md_description :: string

record ContractDescriptor =
  ds_type :: "string option"
  ds_displayName :: "string option"
  ds_version :: "string option"
  ds_contractId :: "string option"
  ds_capabilities :: "string list option"
  ds_methods :: "ContractMethodDescriptor list option"
  ds_metadata :: "props option"

record CapabilityRegistry =
  cr_contracts :: "(string, nat \<times> ContractDescriptor) jsmap"
  cr_next :: nat

definition cr_new :: CapabilityRegistry where
  "cr_new = \<lparr>cr_contracts = [], cr_next = 0\<rparr>"

section \<open>Operations\<close>

definition is_hex :: "char \<Rightarrow> bool" where
  "is_hex c = (let n = (of_char c :: nat) in
     (48 \<le> n \<and> n \<le> 57) \<or> (65 \<le> n \<and> n \<le> 70) \<or> (97 \<le> n \<and> n \<le> 102))"

definition is_upper_digit :: "char \<Rightarrow> bool" where
  "is_upper_digit c = (let n = (of_char c :: nat) in (48 \<le> n \<and> n \<le> 57) \<or> (65 \<le> n \<and> n \<le> 90))"

definition CONTRACT_ID_PATTERN :: "string \<Rightarrow> bool" where
  "CONTRACT_ID_PATTERN s =
    ((str_starts s ''0x'' \<and> length s = 42 \<and> list_all is_hex (drop 2 s)) \<or>
     (length s = 56 \<and> list_all is_upper_digit s) \<or>
     (length s = 64 \<and> list_all is_hex s))"

text \<open>\<open>Array.from(new Set(values))\<close>: the first occurrence of each value, in order.\<close>

definition js_unique :: "'a list \<Rightarrow> 'a list" where
  "js_unique xs = rev (remdups (rev xs))"

definition opt_string :: "string option \<Rightarrow> string" where
  "opt_string x = (case x of None \<Rightarrow> ''undefined'' | Some s \<Rightarrow> s)"

definition cr_method_errors :: "string list \<Rightarrow> ContractMethodDescriptor \<Rightarrow> string list" where
  "cr_method_errors caps m =
     (if blank (md_name m) then [''method name is required''] else [])
   @ (if md_capability m \<notin> set caps
      then [''method '' @ opt_string (md_name m) @ '' references unsupported capability '' @
              md_capability m] else [])"

definition cr_validate :: "ContractDescriptor \<Rightarrow> string list" where
  "cr_validate d =
     (if blank (ds_type d) then [''type is required''] else [])
   @ (if blank (ds_displayName d) then [''displayName is required''] else [])
   @ (if blank (ds_version d) then [''version is required''] else [])
   @ (case ds_contractId d of None \<Rightarrow> []
      | Some i \<Rightarrow> if i \<noteq> [] \<and> \<not> CONTRACT_ID_PATTERN i
                 then [''contractId must be a valid EVM, Soroban, or 32-byte hex identifier'']
                 else [])
   @ (if listed (ds_capabilities d) = [] then [''at least one capability is required''] else [])
   @ (if listed (ds_methods d) = [] then [''at least one method is required''] else [])
   @ concat (map (cr_method_errors (listed (ds_capabilities d))) (listed (ds_methods d)))"

definition cr_normalize :: "ContractDescriptor \<Rightarrow> ContractDescriptor" where
  "cr_normalize d = d\<lparr>ds_type := map_option js_trim (ds_type d),
     ds_displayName := map_option js_trim (ds_displayName d),
     ds_version := map_option js_trim (ds_version d),
     ds_contractId := map_option js_trim (ds_contractId d),
     ds_capabilities := map_option js_unique (ds_capabilities d)\<rparr>"

definition ds_key :: "ContractDescriptor \<Rightarrow> string" where
  "ds_key d = (case ds_type d of None \<Rightarrow> ''undefined'' | Some t \<Rightarrow> t)"

definition cr_store :: "ContractDescriptor \<Rightarrow> CapabilityRegistry \<Rightarrow> CapabilityRegistry" where
  "cr_store n r =
    (let e = (cr_next r, n);
         m = jm_set (ds_key n) e (cr_contracts r);
         m' = (case ds_contractId n of None \<Rightarrow> m | Some i \<Rightarrow> if i \<noteq> [] then jm_set i e m else m)
     in \<lparr>cr_contracts = m', cr_next = Suc (cr_next r)\<rparr>)"

definition cr_register ::
    "ContractDescriptor \<Rightarrow> CapabilityRegistry
      \<Rightarrow> CapabilityRegistry \<times> (thrown + ContractDescriptor)" where
  "cr_register d r =
    (let errors = cr_validate d in
     if errors \<noteq> []
     then (r, Inl (AxErr CValidationError
                 (''Invalid contract descriptor: '' @ join_str ''; '' errors) None None None))
     else (cr_store (cr_normalize d) r, Inr (cr_normalize d)))"

fun cr_register_all ::
    "ContractDescriptor list \<Rightarrow> CapabilityRegistry \<Rightarrow> thrown + CapabilityRegistry" where
  "cr_register_all [] r = Inr r"
| "cr_register_all (d # ds) r =
    (case cr_register d r of (r', Inl e) \<Rightarrow> Inl e | (r', Inr _) \<Rightarrow> cr_register_all ds r')"

definition newCapabilityRegistry :: "ContractDescriptor list \<Rightarrow> thrown + CapabilityRegistry" where
  "newCapabilityRegistry ds = cr_register_all ds cr_new"

definition cr_list :: "CapabilityRegistry \<Rightarrow> ContractDescriptor list" where
  "cr_list r = map snd (js_unique (jm_values (cr_contracts r)))"

definition cr_lookup :: "string \<Rightarrow> CapabilityRegistry \<Rightarrow> ContractDescriptor option" where
  "cr_lookup k r = map_option snd (jm_get (cr_contracts r) k)"

definition cr_getCapabilities :: "string \<Rightarrow> CapabilityRegistry \<Rightarrow> string list" where
  "cr_getCapabilities k r =
    (case cr_lookup k r of None \<Rightarrow> [] | Some d \<Rightarrow> listed (ds_capabilities d))"

definition cr_supportsCapability :: "string \<Rightarrow> string \<Rightarrow> CapabilityRegistry \<Rightarrow> bool" where
  "cr_supportsCapability k c r = (c \<in> set (cr_getCapabilities k r))"

section \<open>The default service (discovery/)\<close>

definition view_method :: "string \<Rightarrow> string \<Rightarrow> string \<Rightarrow> string \<Rightarrow> ContractMethodDescriptor" where
  "view_method n c m t =
     \<lparr>md_name = Some n, md_capability = c, md_mutability = m, md_description = t\<rparr>"

definition VaultContractDescriptor :: ContractDescriptor where
  "VaultContractDescriptor = \<lparr>
     ds_type = Some ''vault'',
     ds_displayName = Some ''Axionvera Vault'',
     ds_version = Some ''1.0.0'',
     ds_contractId = None,
     ds_capabilities = Some [''balance:read'', ''assets:read'', ''shares:convert'',
       ''assets:deposit'', ''assets:withdraw'', ''rewards:read'', ''rewards:claim''],
     ds_methods = Some [
       view_method ''getBalance'' ''balance:read'' ''view''
         ''Read vault share balance for an account.'',
       view_method ''getAssetsBalance'' ''assets:read'' ''view''
         ''Read the asset-denominated vault balance.'',
       view_method ''convertToAssets'' ''shares:convert'' ''view''
         ''Convert vault shares to assets.'',
       view_method ''convertToShares'' ''shares:convert'' ''view''
         ''Convert assets to vault shares.'',
       view_method ''deposit'' ''assets:deposit'' ''payable'' ''Deposit assets into the vault.'',
       view_method ''withdraw'' ''assets:withdraw'' ''nonpayable''
         ''Withdraw assets from the vault.'',
       view_method ''pendingRewards'' ''rewards:read'' ''view''
         ''Read pending rewards for an account.'',
       view_method ''claimRewards'' ''rewards:claim'' ''nonpayable''
         ''Claim accrued vault rewards.''],
     ds_metadata = Some [(''abi'', JStr ''VaultABI'')]\<rparr>"

definition DefaultContractDescriptors :: "ContractDescriptor list" where
  "DefaultContractDescriptors = [VaultContractDescriptor]"

definition newDiscoveryService :: "ContractDescriptor list option \<Rightarrow> thrown + CapabilityRegistry" where
  "newDiscoveryService ds =
    newCapabilityRegistry (case ds of None \<Rightarrow> DefaultContractDescriptors | Some l \<Rightarrow> l)"

definition discoverContracts :: "CapabilityRegistry \<Rightarrow> ContractDescriptor list" where
  "discoverContracts r = cr_list r"

definition lookupContract :: "string \<Rightarrow> CapabilityRegistry \<Rightarrow> ContractDescriptor option" where
  "lookupContract k r = cr_lookup k r"

definition disc_getCapabilities :: "string \<Rightarrow> CapabilityRegistry \<Rightarrow> string list" where
  "disc_getCapabilities k r = cr_getCapabilities k r"

definition disc_supportsCapability :: "string \<Rightarrow> string \<Rightarrow> CapabilityRegistry \<Rightarrow> bool" where
  "disc_supportsCapability k c r = cr_supportsCapability k c r"

definition disc_validateContract :: "ContractDescriptor \<Rightarrow> string list" where
  "disc_validateContract d = cr_validate d"

section \<open>What validation accepts\<close>

definition descriptor_ok :: "ContractDescriptor \<Rightarrow> bool" where
  "descriptor_ok d \<longleftrightarrow> \<not> blank (ds_type d) \<and> \<not> blank (ds_displayName d) \<and> \<not> blank (ds_version d) \<and>
     (case ds_contractId d of None \<Rightarrow> True | Some i \<Rightarrow> i = [] \<or> CONTRACT_ID_PATTERN i) \<and>
     listed (ds_capabilities d) \<noteq> [] \<and> listed (ds_methods d) \<noteq> [] \<and>
     list_all (\<lambda>m. \<not> blank (md_name m) \<and> md_capability m \<in> set (listed (ds_capabilities d)))
       (listed (ds_methods d))"

lemma cr_validate_Nil: "cr_validate d = [] \<longleftrightarrow> descriptor_ok d"
  by (cases "ds_contractId d")
     (auto simp: cr_validate_def descriptor_ok_def cr_method_errors_def list_all_iff)


lemma set_js_unique [simp]: "set (js_unique xs) = set xs"
  by (simp add: js_unique_def)

lemma js_unique_Nil [simp]: "js_unique xs = [] \<longleftrightarrow> xs = []"
  by (simp add: js_unique_def)

lemma distinct_js_unique [simp]: "distinct (js_unique xs)"
  by (simp add: js_unique_def)

lemma js_unique_snoc: "js_unique (xs @ [x]) = (if x \<in> set xs then js_unique xs else js_unique xs @ [x])"
  by (simp add: js_unique_def)

lemma listed_map_unique [simp]: "listed (map_option js_unique x) = js_unique (listed x)"
  by (cases x) (simp_all add: listed_def js_unique_def)

lemma blank_trim [simp]: "blank (map_option js_trim x) = blank x"
  by (cases x) (simp_all add: blank_def)

text \<open>An id that the pattern accepts has no blanks, so trimming keeps it.\<close>

lemma js_trim_no_space: "list_all (\<lambda>c. \<not> is_space c) s \<Longrightarrow> js_trim s = s"
proof -
  have dw: "dropWhile is_space t = t" if "list_all (\<lambda>c. \<not> is_space c) t" for t
    using that by (cases t) auto
  assume "list_all (\<lambda>c. \<not> is_space c) s"
  then show ?thesis using dw [of s] dw [of "rev s"] by (simp add: js_trim_def list_all_rev)
qed

lemma hex_no_space: "is_hex c \<Longrightarrow> \<not> is_space c"
  by (auto simp: is_hex_def is_space_def Let_def)

lemma upper_no_space: "is_upper_digit c \<Longrightarrow> \<not> is_space c"
  by (auto simp: is_upper_digit_def is_space_def Let_def)

lemma pattern_no_space: "CONTRACT_ID_PATTERN i \<Longrightarrow> list_all (\<lambda>c. \<not> is_space c) i"
proof -
  assume p: "CONTRACT_ID_PATTERN i"
  have z: "\<not> is_space CHR ''0''" "\<not> is_space CHR ''x''" by (simp_all add: is_space_def)
  have i: "i = take 2 i @ drop 2 i" by simp
  show ?thesis
  proof (cases "str_starts i ''0x'' \<and> list_all is_hex (drop 2 i)")
    case True
    then have "take (length ''0x'') i = ''0x''" unfolding str_starts_def by blast
    then have "take 2 i = ''0x''" by (simp add: numeral_2_eq_2)
    moreover have "list_all (\<lambda>c. \<not> is_space c) (drop 2 i)"
      using True hex_no_space by (auto simp: list_all_iff)
    ultimately have "list_all (\<lambda>c. \<not> is_space c) (take 2 i @ drop 2 i)"
      using z by simp
    then show ?thesis by simp
  next
    case False
    then show ?thesis using p hex_no_space upper_no_space
      by (auto simp: CONTRACT_ID_PATTERN_def list_all_iff)
  qed
qed

lemma pattern_trim: "CONTRACT_ID_PATTERN i \<Longrightarrow> js_trim i = i"
  by (rule js_trim_no_space [OF pattern_no_space])

lemma pattern_nonempty: "CONTRACT_ID_PATTERN i \<Longrightarrow> i \<noteq> []"
  by (auto simp: CONTRACT_ID_PATTERN_def)

lemma cr_normalize_id: "descriptor_ok d \<Longrightarrow> ds_contractId (cr_normalize d) = ds_contractId d"
  by (cases "ds_contractId d")
     (auto simp: cr_normalize_def descriptor_ok_def pattern_trim)

lemma normalize_ok: "descriptor_ok d \<Longrightarrow> descriptor_ok (cr_normalize d)"
  using cr_normalize_id [of d] by (simp add: descriptor_ok_def cr_normalize_def)

section \<open>Registering and looking up\<close>

definition cr_names :: "ContractDescriptor \<Rightarrow> string set" where
  "cr_names n = insert (ds_key n) {i. ds_contractId n = Some i \<and> i \<noteq> []}"

lemma cr_register_ok:
  "descriptor_ok d \<Longrightarrow> cr_register d r = (cr_store (cr_normalize d) r, Inr (cr_normalize d))"
  by (simp add: cr_register_def cr_validate_Nil)

lemma cr_register_bad: "\<not> descriptor_ok d \<Longrightarrow> \<exists>e. cr_register d r = (r, Inl e)"
  by (auto simp: cr_register_def cr_validate_Nil)

lemma get_cr_store:
  "jm_get (cr_contracts (cr_store n r)) k =
     (if k \<in> cr_names n then Some (cr_next r, n) else jm_get (cr_contracts r) k)"
  by (auto simp: cr_store_def Let_def cr_names_def split: option.split)

lemma lookup_store:
  "cr_lookup k (cr_store n r) = (if k \<in> cr_names n then Some n else cr_lookup k r)"
  by (simp add: cr_lookup_def get_cr_store)

definition cr_ok :: "CapabilityRegistry \<Rightarrow> bool" where
  "cr_ok r \<longleftrightarrow> jm_all (\<lambda>k (i, d). i < cr_next r \<and> descriptor_ok d \<and> k \<in> cr_names d \<and>
      distinct (listed (ds_capabilities d))) (cr_contracts r)"

lemma cr_ok_new: "cr_ok cr_new"
  by (simp add: cr_ok_def cr_new_def)

lemma cr_ok_store:
  "cr_ok r \<Longrightarrow> descriptor_ok n \<Longrightarrow> distinct (listed (ds_capabilities n)) \<Longrightarrow> cr_ok (cr_store n r)"
proof -
  let ?P = "\<lambda>b k (i, d). i < b \<and> descriptor_ok d \<and> k \<in> cr_names d \<and>
      distinct (listed (ds_capabilities d))"
  assume r: "cr_ok r" and n: "descriptor_ok n" "distinct (listed (ds_capabilities n))"
  have m: "jm_all (?P (Suc (cr_next r))) (cr_contracts r)"
    using r unfolding cr_ok_def by (rule jm_all_mono) auto
  have e: "?P (Suc (cr_next r)) k (cr_next r, n)" if "k \<in> cr_names n" for k
    using n that by simp
  show ?thesis
  proof (cases "ds_contractId n")
    case None
    then show ?thesis using m e [of "ds_key n"]
      by (auto simp: cr_ok_def cr_store_def Let_def cr_names_def intro!: jm_all_set)
  next
    case (Some i)
    then show ?thesis using m e [of "ds_key n"] e [of i]
      by (auto simp: cr_ok_def cr_store_def Let_def cr_names_def intro!: jm_all_set)
  qed
qed

lemma distinct_caps_normalize: "distinct (listed (ds_capabilities (cr_normalize d)))"
  by (simp add: cr_normalize_def)

definition cr_step :: "CapabilityRegistry \<Rightarrow> ContractDescriptor \<Rightarrow> CapabilityRegistry" where
  "cr_step r d = fst (cr_register d r)"

lemma cr_step_eq: "cr_step r d = (if descriptor_ok d then cr_store (cr_normalize d) r else r)"
  using cr_register_bad [of d r] by (auto simp: cr_step_def cr_register_ok)

interpretation capability_machine: invariant_machine cr_ok cr_step cr_new
  by unfold_locales
     (auto simp: cr_ok_new cr_step_eq intro: cr_ok_store normalize_ok distinct_caps_normalize)

lemma cr_register_all_steps: "cr_register_all ds r = Inr r' \<Longrightarrow> r' = foldl cr_step r ds"
proof (induction ds arbitrary: r)
  case (Cons d ds)
  obtain s x where s: "cr_register d r = (s, x)" by force
  then have "cr_step r d = s" by (simp add: cr_step_def)
  then show ?case using Cons s by (auto split: sum.splits)
qed simp

text \<open>
  Registering a descriptor that meets the contract makes its normalized form what a lookup by
  its trimmed type or by its contract id returns, and no other lookup changes; a descriptor
  that does not meet it raises a \<open>ValidationError\<close> and changes nothing.
\<close>

theorem descriptor_register_behaviour:
  "if descriptor_ok d
   then \<exists>r'. cr_register d r = (r', Inr (cr_normalize d)) \<and>
          (\<forall>k. cr_lookup k r' =
             (if Some k = map_option js_trim (ds_type d) \<or> (k \<noteq> [] \<and> ds_contractId d = Some k)
              then Some (cr_normalize d) else cr_lookup k r))
   else \<exists>msg. cr_register d r = (r, Inl (AxErr CValidationError msg None None None))"
proof (cases "descriptor_ok d")
  case True
  obtain t where t: "ds_type d = Some t"
    using True by (auto simp: descriptor_ok_def blank_def split: option.splits)
  have "k \<in> cr_names (cr_normalize d) \<longleftrightarrow>
      Some k = map_option js_trim (ds_type d) \<or> (k \<noteq> [] \<and> ds_contractId d = Some k)" for k
    using cr_normalize_id [OF True] t by (auto simp: cr_names_def ds_key_def cr_normalize_def)
  then show ?thesis using True by (simp add: cr_register_ok lookup_store)
next
  case False
  then show ?thesis by (simp add: cr_register_def cr_validate_Nil)
qed

text \<open>
  Whatever has been registered, a lookup returns a descriptor that meets the contract of the
  validator and has the key as its type or its id, lists no capability twice, and supports the
  capability of each of its methods.
\<close>

theorem looked_up_descriptor_is_consistent:
  assumes "newCapabilityRegistry ds = Inr r0" and "r = foldl cr_step r0 later"
    and "cr_lookup k r = Some d"
  shows "descriptor_ok d \<and> k \<in> cr_names d \<and> distinct (cr_getCapabilities k r) \<and>
         list_all (\<lambda>m. cr_supportsCapability k (md_capability m) r) (listed (ds_methods d))"
proof -
  have "cr_ok r0" using cr_register_all_steps [of ds cr_new r0] capability_machine.inv_run assms(1)
    by (simp add: newCapabilityRegistry_def)
  then have r: "cr_ok r" unfolding assms(2) by (rule capability_machine.inv_steps)
  obtain i where g: "jm_get (cr_contracts r) k = Some (i, d)"
    using assms(3) by (auto simp: cr_lookup_def)
  have d: "descriptor_ok d" "k \<in> cr_names d" "distinct (listed (ds_capabilities d))"
    using jm_all_getD [OF r [unfolded cr_ok_def] g] by auto
  then show ?thesis using assms(3)
    by (auto simp: cr_getCapabilities_def cr_supportsCapability_def descriptor_ok_def list_all_iff)
qed


definition demo_descriptor :: "string option \<Rightarrow> ContractDescriptor" where
  "demo_descriptor i = VaultContractDescriptor\<lparr>ds_contractId := i\<rparr>"

lemma default_ok: "descriptor_ok VaultContractDescriptor"
  by code_simp

lemma default_normalize: "cr_normalize VaultContractDescriptor = VaultContractDescriptor"
  by code_simp

lemma default_service: "newCapabilityRegistry [VaultContractDescriptor] =
    Inr \<lparr>cr_contracts = [(''vault'', 0, VaultContractDescriptor)], cr_next = 1\<rparr>"
  by (simp add: newCapabilityRegistry_def cr_register_ok [OF default_ok] default_normalize cr_new_def
      cr_store_def) (simp add: ds_key_def VaultContractDescriptor_def)

theorem looked_up_descriptor_is_consistent_witness:
  "list_all (\<lambda>m. cr_supportsCapability ''vault'' (md_capability m)
       \<lparr>cr_contracts = [(''vault'', 0, VaultContractDescriptor)], cr_next = 1\<rparr>)
     (listed (ds_methods VaultContractDescriptor))"
  using looked_up_descriptor_is_consistent [OF default_service, where later = "[]" and k = "''vault''"
      and d = VaultContractDescriptor]
  by (simp add: cr_lookup_def)

section \<open>Listing\<close>

lemma cr_contracts_store:
  "cr_names n \<inter> {k. jm_has (cr_contracts r) k} = {} \<Longrightarrow>
    \<exists>es. cr_contracts (cr_store n r) = cr_contracts r @ es \<and> es \<noteq> [] \<and>
         set (map snd es) = {(cr_next r, n)}"
proof -
  let ?e = "(cr_next r, n)"
  assume f: "cr_names n \<inter> {k. jm_has (cr_contracts r) k} = {}"
  have k: "jm_set (ds_key n) ?e (cr_contracts r) = cr_contracts r @ [(ds_key n, ?e)]"
    using f by (intro jm_set_new) (auto simp: cr_names_def)
  show ?thesis
  proof (cases "\<exists>i. ds_contractId n = Some i \<and> i \<noteq> [] \<and> i \<noteq> ds_key n")
    case True
    then obtain i where i: "ds_contractId n = Some i" "i \<noteq> []" "i \<noteq> ds_key n" by blast
    then have "jm_set i ?e (cr_contracts r @ [(ds_key n, ?e)]) =
        (cr_contracts r @ [(ds_key n, ?e)]) @ [(i, ?e)]"
      using f by (intro jm_set_new) (auto simp: cr_names_def jm_has_iff)
    then show ?thesis using i k by (simp add: cr_store_def Let_def)
  next
    case False
    have same: "jm_set (ds_key n) ?e (jm_set (ds_key n) ?e (cr_contracts r)) =
        jm_set (ds_key n) ?e (cr_contracts r)"
      by (induction "cr_contracts r") (auto simp: update_nonempty)
    then show ?thesis using False k
      by (cases "ds_contractId n") (auto simp: cr_store_def Let_def)
  qed
qed

lemma js_unique_append_same:
  "es \<noteq> [] \<Longrightarrow> set es = {x} \<Longrightarrow> x \<notin> set xs \<Longrightarrow> js_unique (xs @ es) = js_unique xs @ [x]"
proof (induction es rule: rev_induct)
  case (snoc y es)
  then have y: "y = x" by auto
  show ?case
  proof (cases "es = []")
    case True
    then show ?thesis using snoc.prems y by (simp add: js_unique_snoc)
  next
    case False
    then have "set es = {x}" using snoc.prems by (cases es) auto
    then show ?thesis using snoc.IH False snoc.prems y
      by (simp add: js_unique_snoc flip: append_assoc)
  qed
qed simp

lemma cr_list_store:
  assumes "cr_ok r" and "cr_names n \<inter> {k. jm_has (cr_contracts r) k} = {}"
  shows "cr_list (cr_store n r) = cr_list r @ [n]"
proof -
  obtain es where es: "cr_contracts (cr_store n r) = cr_contracts r @ es" "es \<noteq> []"
    "set (map snd es) = {(cr_next r, n)}"
    using cr_contracts_store [OF assms(2)] by blast
  have "(cr_next r, n) \<notin> set (jm_values (cr_contracts r))"
    using assms(1) by (auto simp: cr_ok_def jm_all_def list_all_iff jm_values_def)
  then have "js_unique (jm_values (cr_contracts r) @ map snd es) =
      js_unique (jm_values (cr_contracts r)) @ [(cr_next r, n)]"
    using es by (intro js_unique_append_same) auto
  then show ?thesis using es(1) by (simp add: cr_list_def jm_values_def)
qed

lemma has_steps:
  "list_all descriptor_ok ds \<Longrightarrow> jm_has (cr_contracts (foldl cr_step cr_new ds)) k \<Longrightarrow>
    \<exists>d \<in> set ds. k \<in> cr_names (cr_normalize d)"
proof (induction ds rule: rev_induct)
  case Nil
  then show ?case by (simp add: cr_new_def)
next
  case (snoc d ds)
  then show ?case by (auto simp: jm_has_get cr_step_eq get_cr_store split: if_splits)
qed

text \<open>
  When no two descriptors claim a name, the registry built from them lists each of them once,
  normalized, in the order they were given, however many keys each is stored under.
\<close>

theorem list_returns_each_once:
  assumes "list_all descriptor_ok ds"
    and "sorted_wrt (\<lambda>a b. cr_names a \<inter> cr_names b = {}) (map cr_normalize ds)"
  shows "\<exists>r. newCapabilityRegistry ds = Inr r \<and> cr_list r = map cr_normalize ds"
proof -
  have all: "cr_register_all xs r = Inr (foldl cr_step r xs)" if "list_all descriptor_ok xs" for xs r
    using that by (induction xs arbitrary: r) (auto simp: cr_register_ok cr_step_eq)
  have "cr_list (foldl cr_step cr_new ds) = map cr_normalize ds"
    using assms
  proof (induction ds rule: rev_induct)
    case Nil
    then show ?case by (simp add: cr_list_def cr_new_def jm_values_def)
  next
    case (snoc d ds)
    have "cr_names (cr_normalize d) \<inter>
        {k. jm_has (cr_contracts (foldl cr_step cr_new ds)) k} = {}"
      using has_steps [of ds] snoc.prems by (fastforce simp: sorted_wrt_append)
    moreover have "cr_ok (foldl cr_step cr_new ds)" by (rule capability_machine.inv_run)
    ultimately have "cr_list (cr_store (cr_normalize d) (foldl cr_step cr_new ds)) =
        cr_list (foldl cr_step cr_new ds) @ [cr_normalize d]"
      by (intro cr_list_store)
    then show ?case using snoc cr_step_eq [of "foldl cr_step cr_new ds" d]
      by (simp add: sorted_wrt_append)
  qed
  then show ?thesis using all [OF assms(1)] by (simp add: newCapabilityRegistry_def)
qed

theorem list_returns_each_once_witness:
  "\<exists>r. newCapabilityRegistry [VaultContractDescriptor] = Inr r \<and>
       cr_list r = [VaultContractDescriptor]"
  using list_returns_each_once [of "[VaultContractDescriptor]"]
  by (simp add: default_ok default_normalize)

text \<open>
  Registering a type again with another contract id leaves the old id behind: it still looks up
  the replaced descriptor, and the listing shows two descriptors of one type.
\<close>

theorem stale_contract_id:
  "let d1 = demo_descriptor (Some (replicate 56 CHR ''A''));
       d2 = demo_descriptor (Some (replicate 56 CHR ''B''))
   in case newCapabilityRegistry [d1, d2] of
        Inl _ \<Rightarrow> False
      | Inr r \<Rightarrow> cr_lookup ''vault'' r = Some d2 \<and>
               cr_lookup (replicate 56 CHR ''A'') r = Some d1 \<and>
               map ds_type (cr_list r) = [Some ''vault'', Some ''vault'']"
  by code_simp

end
