(* ===== verification/PluginManager.thy ===== *)
theory PluginManager
  imports SDK_Prelude
begin

text \<open>
  The plugin manager (\<open>src/src/plugin/\<close>). Its operations are asynchronous: \<open>install\<close> waits for the
  plugin's \<open>onInstall\<close> hook and then for each client the plugin is applied to, and other
  operations may run meanwhile. An operation is modelled up to its first \<open>await\<close>; what is left
  of it is a task of the state, and a task goes on when the promise it waits for settles. Plugin
  instances are shared objects (\<open>instance.installed = true\<close> after an \<open>await\<close> reaches the
  instance also when it has left the map), so they live in a heap. Hooks and clients are the
  caller's: the state logs the calls made to them, newest first. The manager iterates over the
  live set of its clients, so a loop keeps its position and sees clients added behind it.
\<close>

section \<open>Data (types.ts)\<close>

text \<open>
  \<open>onInstall\<close>, \<open>afterClientInit\<close> and \<open>onUninstall\<close> are present or not; how a call of one ends is
  decided by the event that settles it.
\<close>

record ('o, 'm, 's) PluginConfig =
  pc_id :: string
  pc_name :: string
  pc_version :: string
  pc_onInstall :: bool
  pc_beforeClientInit :: "('o \<Rightarrow> jsv + 'o) option"
  pc_afterClientInit :: bool
  pc_onUninstall :: bool
  pc_services :: "(string, 's) jsmap option"
  pc_middleware :: "'m list option"

record ('o, 'm, 's) PluginInstance =
  pi_config :: "('o, 'm, 's) PluginConfig"
  pi_installed :: bool

text \<open>The rest of a loop: \<open>install\<close> at a position of the clients, \<open>applyToClient\<close> with plugins to go.\<close>

datatype 'c pm_rest = LoopInstall nat nat | LoopApply "nat list" 'c

datatype 'c pm_task =
    AwaitOnInstall nat
  | AwaitOnUninstall nat
  | AwaitAfterInit nat 'c "'c pm_rest"
  | AwaitApplied "'c pm_rest"

datatype ('c, 'm) pm_call =
    CallOnInstall nat
  | MarkInstalled nat
  | CallOnUninstall nat
  | CallAfterInit nat 'c
  | CallUse nat 'c 'm

record ('o, 'c, 'm, 's) PluginManager =
  pm_heap :: "('o, 'm, 's) PluginInstance list"
  pm_plugins :: "(string, nat) jsmap"
  pm_autoInstall :: bool
  pm_clients :: "'c list"
  pm_tasks :: "(nat \<times> 'c pm_task) list"
  pm_nextTask :: nat
  pm_log :: "('c, 'm) pm_call list"

type_synonym ('o, 'c, 'm, 's) pm = "('o, 'c, 'm, 's) PluginManager"

definition newPluginManager :: "bool option \<Rightarrow> ('o, 'c, 'm, 's) pm" where
  "newPluginManager auto = \<lparr>pm_heap = [], pm_plugins = [],
     pm_autoInstall = (case auto of None \<Rightarrow> False | Some b \<Rightarrow> b),
     pm_clients = [], pm_tasks = [], pm_nextTask = 0, pm_log = []\<rparr>"

definition pm_config :: "('o, 'c, 'm, 's) pm \<Rightarrow> nat \<Rightarrow> ('o, 'm, 's) PluginConfig" where
  "pm_config s i = pi_config (pm_heap s ! i)"

definition pm_is_installed :: "('o, 'c, 'm, 's) pm \<Rightarrow> nat \<Rightarrow> bool" where
  "pm_is_installed s i = pi_installed (pm_heap s ! i)"

definition pm_await :: "'c pm_task \<Rightarrow> ('o, 'c, 'm, 's) pm \<Rightarrow> ('o, 'c, 'm, 's) pm" where
  "pm_await t s = s\<lparr>pm_tasks := pm_tasks s @ [(pm_nextTask s, t)], pm_nextTask := Suc (pm_nextTask s)\<rparr>"

definition pm_call :: "('c, 'm) pm_call \<Rightarrow> ('o, 'c, 'm, 's) pm \<Rightarrow> ('o, 'c, 'm, 's) pm" where
  "pm_call e s = s\<lparr>pm_log := e # pm_log s\<rparr>"

definition pm_set_installed :: "nat \<Rightarrow> bool \<Rightarrow> ('o, 'c, 'm, 's) pm \<Rightarrow> ('o, 'c, 'm, 's) pm" where
  "pm_set_installed i b s = s\<lparr>pm_heap := (pm_heap s)[i := (pm_heap s ! i)\<lparr>pi_installed := b\<rparr>]\<rparr>"

section \<open>Applying plugins to clients\<close>

definition listm :: "'m list option \<Rightarrow> 'm list" where
  "listm x = (case x of None \<Rightarrow> [] | Some l \<Rightarrow> l)"

definition pm_use_all :: "nat \<Rightarrow> 'c \<Rightarrow> ('o, 'c, 'm, 's) pm \<Rightarrow> ('o, 'c, 'm, 's) pm" where
  "pm_use_all i c s =
    foldl (\<lambda>s m. pm_call (CallUse i c m) s) s (listm (pc_middleware (pm_config s i)))"

text \<open>\<open>applyPluginToClient\<close> up to its first \<open>await\<close>, called from a loop.\<close>

definition applyPluginToClient ::
    "nat \<Rightarrow> 'c \<Rightarrow> 'c pm_rest \<Rightarrow> ('o, 'c, 'm, 's) pm \<Rightarrow> ('o, 'c, 'm, 's) pm" where
  "applyPluginToClient i c k s =
    (if pc_afterClientInit (pm_config s i)
     then pm_await (AwaitAfterInit i c k) (pm_call (CallAfterInit i c) s)
     else pm_await (AwaitApplied k) (pm_use_all i c s))"

definition pm_loop :: "'c pm_rest \<Rightarrow> ('o, 'c, 'm, 's) pm \<Rightarrow> ('o, 'c, 'm, 's) pm" where
  "pm_loop k s = (case k of
     LoopInstall i n \<Rightarrow>
       (if n < length (pm_clients s)
        then applyPluginToClient i (pm_clients s ! n) (LoopInstall i (Suc n)) s else s)
   | LoopApply is c \<Rightarrow>
       (case is of [] \<Rightarrow> s | i # is' \<Rightarrow> applyPluginToClient i c (LoopApply is' c) s))"

definition pm_complete_install :: "nat \<Rightarrow> ('o, 'c, 'm, 's) pm \<Rightarrow> ('o, 'c, 'm, 's) pm" where
  "pm_complete_install i s =
    pm_loop (LoopInstall i 0) (pm_call (MarkInstalled i) (pm_set_installed i True s))"

section \<open>Operations\<close>

definition not_found :: "string \<Rightarrow> jsv" where
  "not_found i = JErr ''Error'' (''Plugin with id \"'' @ i @ ''\" not found'') []"

definition pm_install :: "string \<Rightarrow> ('o, 'c, 'm, 's) pm \<Rightarrow> ('o, 'c, 'm, 's) pm \<times> (jsv + unit)" where
  "pm_install pid s =
    (case jm_get (pm_plugins s) pid of
       None \<Rightarrow> (s, Inl (not_found pid))
     | Some i \<Rightarrow>
       if pm_is_installed s i then (s, Inr ())
       else if pc_onInstall (pm_config s i)
       then (pm_await (AwaitOnInstall i) (pm_call (CallOnInstall i) s), Inr ())
       else (pm_complete_install i s, Inr ()))"

definition pm_uninstall :: "string \<Rightarrow> ('o, 'c, 'm, 's) pm \<Rightarrow> ('o, 'c, 'm, 's) pm \<times> (jsv + unit)" where
  "pm_uninstall pid s =
    (case jm_get (pm_plugins s) pid of
       None \<Rightarrow> (s, Inl (not_found pid))
     | Some i \<Rightarrow>
       if \<not> pm_is_installed s i then (s, Inr ())
       else if pc_onUninstall (pm_config s i)
       then (pm_await (AwaitOnUninstall i) (pm_call (CallOnUninstall i) s), Inr ())
       else (pm_set_installed i False s, Inr ()))"

text \<open>\<open>register\<close> and \<open>unregister\<close> do not await the promise of the call they start.\<close>

definition pm_register ::
    "('o, 'm, 's) PluginConfig \<Rightarrow> ('o, 'c, 'm, 's) pm \<Rightarrow> ('o, 'c, 'm, 's) pm \<times> (jsv + unit)" where
  "pm_register p s =
    (if jm_has (pm_plugins s) (pc_id p)
     then (s, Inl (JErr ''Error'' (''Plugin with id \"'' @ pc_id p @ ''\" is already registered'') []))
     else
       let s' = s\<lparr>pm_heap := pm_heap s @ [\<lparr>pi_config = p, pi_installed = False\<rparr>],
                  pm_plugins := jm_set (pc_id p) (length (pm_heap s)) (pm_plugins s)\<rparr> in
       (if pm_autoInstall s then fst (pm_install (pc_id p) s') else s', Inr ()))"

definition pm_unregister :: "string \<Rightarrow> ('o, 'c, 'm, 's) pm \<Rightarrow> ('o, 'c, 'm, 's) pm \<times> (jsv + unit)" where
  "pm_unregister pid s =
    (case jm_get (pm_plugins s) pid of
       None \<Rightarrow> (s, Inl (not_found pid))
     | Some i \<Rightarrow>
       let s' = (if pm_is_installed s i then fst (pm_uninstall pid s) else s) in
       (s'\<lparr>pm_plugins := jm_delete pid (pm_plugins s')\<rparr>, Inr ()))"

definition pm_get :: "string \<Rightarrow> ('o, 'c, 'm, 's) pm \<Rightarrow> nat option" where
  "pm_get pid s = jm_get (pm_plugins s) pid"

definition pm_getAll :: "('o, 'c, 'm, 's) pm \<Rightarrow> nat list" where
  "pm_getAll s = jm_values (pm_plugins s)"

definition pm_getInstalled :: "('o, 'c, 'm, 's) pm \<Rightarrow> nat list" where
  "pm_getInstalled s = filter (pm_is_installed s) (pm_getAll s)"

definition pm_applyToClient :: "'c \<Rightarrow> ('o, 'c, 'm, 's) pm \<Rightarrow> ('o, 'c, 'm, 's) pm" where
  "pm_applyToClient c s =
    (let s' = s\<lparr>pm_clients := (if c \<in> set (pm_clients s) then pm_clients s else pm_clients s @ [c])\<rparr>
     in pm_loop (LoopApply (pm_getInstalled s') c) s')"

fun pm_options_through ::
    "('o, 'm, 's) PluginConfig list \<Rightarrow> 'o \<Rightarrow> jsv + 'o" where
  "pm_options_through [] opts = Inr opts"
| "pm_options_through (p # ps) opts =
    (case pc_beforeClientInit p of
       None \<Rightarrow> pm_options_through ps opts
     | Some h \<Rightarrow> (case h opts of Inl e \<Rightarrow> Inl e | Inr opts' \<Rightarrow> pm_options_through ps opts'))"

definition pm_processClientOptions :: "'o \<Rightarrow> ('o, 'c, 'm, 's) pm \<Rightarrow> jsv + 'o" where
  "pm_processClientOptions opts s =
    pm_options_through (map (pm_config s) (pm_getInstalled s)) opts"

definition pm_getServiceOverrides :: "('o, 'c, 'm, 's) pm \<Rightarrow> (string, 's) jsmap" where
  "pm_getServiceOverrides s =
    foldl (\<lambda>ov i. case pc_services (pm_config s i) of None \<Rightarrow> ov | Some sv \<Rightarrow> obj_spread ov sv)
      [] (pm_getInstalled s)"

definition pm_getMiddleware :: "('o, 'c, 'm, 's) pm \<Rightarrow> 'm list" where
  "pm_getMiddleware s = concat (map (\<lambda>i. listm (pc_middleware (pm_config s i))) (pm_getInstalled s))"

text \<open>
  The promise a task waits for settles: \<open>ok\<close> is whether the hook fulfilled it. A rejected hook
  rejects the operation, whose rest is dropped. The promise of \<open>applyPluginToClient\<close> itself is
  rejected only by its hook, which is the task before it.
\<close>

definition pm_resume :: "'c pm_task \<Rightarrow> bool \<Rightarrow> ('o, 'c, 'm, 's) pm \<Rightarrow> ('o, 'c, 'm, 's) pm" where
  "pm_resume t ok s = (case t of
     AwaitOnInstall i \<Rightarrow> if ok then pm_complete_install i s else s
   | AwaitOnUninstall i \<Rightarrow> if ok then pm_set_installed i False s else s
   | AwaitAfterInit i c k \<Rightarrow> if ok then pm_await (AwaitApplied k) (pm_use_all i c s) else s
   | AwaitApplied k \<Rightarrow> pm_loop k s)"

definition pm_settle :: "nat \<Rightarrow> bool \<Rightarrow> ('o, 'c, 'm, 's) pm \<Rightarrow> ('o, 'c, 'm, 's) pm" where
  "pm_settle tid ok s =
    (case map_of (pm_tasks s) tid of
       None \<Rightarrow> s
     | Some t \<Rightarrow> pm_resume t ok (s\<lparr>pm_tasks := jm_delete tid (pm_tasks s)\<rparr>))"

section \<open>Runs\<close>

datatype ('o, 'c, 'm, 's) pm_event =
    PRegister "('o, 'm, 's) PluginConfig"
  | PUnregister string
  | PInstall string
  | PUninstall string
  | PApplyToClient 'c
  | PSettle nat bool

fun pm_step :: "('o, 'c, 'm, 's) pm \<Rightarrow> ('o, 'c, 'm, 's) pm_event \<Rightarrow> ('o, 'c, 'm, 's) pm" where
  "pm_step s (PRegister p) = fst (pm_register p s)"
| "pm_step s (PUnregister i) = fst (pm_unregister i s)"
| "pm_step s (PInstall i) = fst (pm_install i s)"
| "pm_step s (PUninstall i) = fst (pm_uninstall i s)"
| "pm_step s (PApplyToClient c) = pm_applyToClient c s"
| "pm_step s (PSettle t ok) = pm_settle t ok s"

definition pm_run :: "('o, 'c, 'm, 's) pm_event list \<Rightarrow> ('o, 'c, 'm, 's) pm \<Rightarrow> ('o, 'c, 'm, 's) pm" where
  "pm_run es s = foldl pm_step s es"

section \<open>The invariant\<close>

text \<open>What must have happened before a call, given the configurations of the instances.\<close>

definition call_ok ::
    "('o, 'm, 's) PluginConfig list \<Rightarrow> ('c, 'm) pm_call \<Rightarrow> ('c, 'm) pm_call set \<Rightarrow> bool" where
  "call_ok cs e before = (case e of
     CallOnInstall i \<Rightarrow> i < length cs \<and> pc_onInstall (cs ! i)
   | MarkInstalled i \<Rightarrow> i < length cs \<and> (pc_onInstall (cs ! i) \<longrightarrow> CallOnInstall i \<in> before)
   | CallOnUninstall i \<Rightarrow> i < length cs \<and> pc_onUninstall (cs ! i) \<and> MarkInstalled i \<in> before
   | CallAfterInit i c \<Rightarrow> i < length cs \<and> pc_afterClientInit (cs ! i) \<and> MarkInstalled i \<in> before
   | CallUse i c m \<Rightarrow> i < length cs \<and> m \<in> set (listm (pc_middleware (cs ! i))) \<and>
       MarkInstalled i \<in> before \<and> (pc_afterClientInit (cs ! i) \<longrightarrow> CallAfterInit i c \<in> before))"

fun log_ok :: "('o, 'm, 's) PluginConfig list \<Rightarrow> ('c, 'm) pm_call list \<Rightarrow> bool" where
  "log_ok cs [] = True"
| "log_ok cs (e # l) = (call_ok cs e (set l) \<and> log_ok cs l)"

definition loop_ok :: "('c, 'm) pm_call set \<Rightarrow> 'c pm_rest \<Rightarrow> bool" where
  "loop_ok h k = (case k of LoopInstall i n \<Rightarrow> MarkInstalled i \<in> h
     | LoopApply is c \<Rightarrow> list_all (\<lambda>i. MarkInstalled i \<in> h) is)"

definition task_ok :: "('c, 'm) pm_call set \<Rightarrow> 'c pm_task \<Rightarrow> bool" where
  "task_ok h t = (case t of
     AwaitOnInstall i \<Rightarrow> CallOnInstall i \<in> h
   | AwaitOnUninstall i \<Rightarrow> MarkInstalled i \<in> h
   | AwaitAfterInit i c k \<Rightarrow> CallAfterInit i c \<in> h \<and> MarkInstalled i \<in> h \<and> loop_ok h k
   | AwaitApplied k \<Rightarrow> loop_ok h k)"

definition pm_configs :: "('o, 'c, 'm, 's) pm \<Rightarrow> ('o, 'm, 's) PluginConfig list" where
  "pm_configs s = map pi_config (pm_heap s)"

definition pm_inv :: "('o, 'c, 'm, 's) pm \<Rightarrow> bool" where
  "pm_inv s \<longleftrightarrow> jm_ok (pm_plugins s) \<and>
     jm_all (\<lambda>k i. i < length (pm_heap s) \<and> pc_id (pm_config s i) = k) (pm_plugins s) \<and>
     (\<forall>i < length (pm_heap s). pm_is_installed s i \<longrightarrow> MarkInstalled i \<in> set (pm_log s)) \<and>
     log_ok (pm_configs s) (pm_log s) \<and>
     list_all (\<lambda>(j, t). task_ok (set (pm_log s)) t) (pm_tasks s)"

lemma loop_ok_mono: "loop_ok h k \<Longrightarrow> h \<subseteq> h' \<Longrightarrow> loop_ok h' k"
  by (cases k) (auto simp: loop_ok_def list_all_iff)

lemma task_ok_mono: "task_ok h t \<Longrightarrow> h \<subseteq> h' \<Longrightarrow> task_ok h' t"
  by (cases t) (auto simp: task_ok_def intro: loop_ok_mono)

lemma log_ok_snoc: "log_ok cs l \<Longrightarrow> log_ok (cs @ [p]) l"
  by (induction l) (auto simp: call_ok_def nth_append split: pm_call.splits)

lemma log_ok_index: "log_ok cs l \<Longrightarrow> MarkInstalled i \<in> set l \<or> CallOnInstall i \<in> set l \<Longrightarrow> i < length cs"
  by (induction l) (auto simp: call_ok_def)

lemma inv_index:
  "pm_inv s \<Longrightarrow> MarkInstalled i \<in> set (pm_log s) \<or> CallOnInstall i \<in> set (pm_log s) \<Longrightarrow>
    i < length (pm_heap s)"
  using log_ok_index [of "pm_configs s" "pm_log s" i] by (auto simp: pm_inv_def pm_configs_def)

lemma configs_nth: "i < length (pm_heap s) \<Longrightarrow> pm_configs s ! i = pm_config s i"
  by (simp add: pm_configs_def pm_config_def)

lemma inv_lookup:
  "pm_inv s \<Longrightarrow> jm_get (pm_plugins s) k = Some i \<Longrightarrow> i < length (pm_heap s) \<and> pc_id (pm_config s i) = k"
  unfolding pm_inv_def by (auto dest: jm_all_getD)

lemma inv_installed:
  "pm_inv s \<Longrightarrow> i < length (pm_heap s) \<Longrightarrow> pm_is_installed s i \<Longrightarrow> MarkInstalled i \<in> set (pm_log s)"
  by (simp add: pm_inv_def)

text \<open>The elementary updates.\<close>

lemma len_configs [simp]: "length (pm_configs s) = length (pm_heap s)"
  by (simp add: pm_configs_def)

lemma config_upd: "pi_config (h[i := (h ! i)\<lparr>pi_installed := b\<rparr>] ! j) = pi_config (h ! j)"
  by (cases "i < length h"; cases "i = j") (auto simp: list_update_beyond)

lemma installed_upd: "pi_installed (h[i := (h ! i)\<lparr>pi_installed := b\<rparr>] ! j) =
    (if j = i \<and> i < length h then b else pi_installed (h ! j))"
  by (cases "i < length h"; cases "i = j") (auto simp: list_update_beyond)

lemma inv_call:
  "pm_inv s \<Longrightarrow> call_ok (pm_configs s) e (set (pm_log s)) \<Longrightarrow> pm_inv (pm_call e s)"
proof -
  assume s: "pm_inv s" and e: "call_ok (pm_configs s) e (set (pm_log s))"
  have "list_all (\<lambda>(j, t). task_ok (insert e (set (pm_log s))) t) (pm_tasks s)"
    using s by (auto simp: pm_inv_def list_all_iff intro: task_ok_mono)
  then show ?thesis using s e
    by (auto simp: pm_inv_def pm_call_def pm_config_def pm_configs_def pm_is_installed_def)
qed

lemma inv_await: "pm_inv s \<Longrightarrow> task_ok (set (pm_log s)) t \<Longrightarrow> pm_inv (pm_await t s)"
  by (auto simp: pm_inv_def pm_await_def pm_config_def pm_configs_def pm_is_installed_def)

lemma inv_set_installed:
  "pm_inv s \<Longrightarrow> b \<longrightarrow> MarkInstalled i \<in> set (pm_log s) \<Longrightarrow> pm_inv (pm_set_installed i b s)"
proof -
  assume s: "pm_inv s" and b: "b \<longrightarrow> MarkInstalled i \<in> set (pm_log s)"
  have c: "map pi_config ((pm_heap s)[i := (pm_heap s ! i)\<lparr>pi_installed := b\<rparr>]) = map pi_config (pm_heap s)"
    by (rule nth_equalityI) (auto simp: config_upd)
  show ?thesis using s b c
    by (auto simp: pm_inv_def pm_set_installed_def pm_config_def pm_configs_def
        pm_is_installed_def config_upd installed_upd split: if_splits)
qed

lemma log_call [simp]: "pm_log (pm_call e s) = e # pm_log s"
  and config_call [simp]: "pm_config (pm_call e s) = pm_config s"
  and configs_call [simp]: "pm_configs (pm_call e s) = pm_configs s"
  and heap_call [simp]: "pm_heap (pm_call e s) = pm_heap s"
  and log_await [simp]: "pm_log (pm_await t s) = pm_log s"
  and log_set [simp]: "pm_log (pm_set_installed i b s) = pm_log s"
  and len_set [simp]: "length (pm_heap (pm_set_installed i b s)) = length (pm_heap s)"
  by (auto simp: pm_call_def pm_config_def pm_configs_def pm_await_def pm_set_installed_def)

lemma config_set [simp]: "pm_config (pm_set_installed i b s) = pm_config s"
  by (rule ext) (simp add: pm_config_def pm_set_installed_def config_upd)

lemma inv_use_list:
  "pm_inv s \<Longrightarrow> set ms \<subseteq> set (listm (pc_middleware (pm_config s i))) \<Longrightarrow>
    MarkInstalled i \<in> set (pm_log s) \<Longrightarrow>
    pc_afterClientInit (pm_config s i) \<longrightarrow> CallAfterInit i c \<in> set (pm_log s) \<Longrightarrow>
    pm_inv (foldl (\<lambda>s m. pm_call (CallUse i c m) s) s ms) \<and>
    set (pm_log s) \<subseteq> set (pm_log (foldl (\<lambda>s m. pm_call (CallUse i c m) s) s ms))"
proof (induction ms arbitrary: s)
  case (Cons m ms)
  have i: "i < length (pm_heap s)" using inv_index Cons.prems by blast
  have "pm_inv (pm_call (CallUse i c m) s)"
    using Cons.prems i by (intro inv_call) (auto simp: call_ok_def configs_nth)
  then show ?case using Cons.IH [of "pm_call (CallUse i c m) s"] Cons.prems by auto
qed simp

lemma inv_use_all:
  "pm_inv s \<Longrightarrow> MarkInstalled i \<in> set (pm_log s) \<Longrightarrow>
    pc_afterClientInit (pm_config s i) \<longrightarrow> CallAfterInit i c \<in> set (pm_log s) \<Longrightarrow>
    pm_inv (pm_use_all i c s) \<and> set (pm_log s) \<subseteq> set (pm_log (pm_use_all i c s))"
  unfolding pm_use_all_def by (rule inv_use_list) auto

lemma inv_apply:
  "pm_inv s \<Longrightarrow> MarkInstalled i \<in> set (pm_log s) \<Longrightarrow> loop_ok (set (pm_log s)) k \<Longrightarrow>
    pm_inv (applyPluginToClient i c k s)"
proof -
  assume s: "pm_inv s" and m: "MarkInstalled i \<in> set (pm_log s)" and k: "loop_ok (set (pm_log s)) k"
  have i: "i < length (pm_heap s)" using s m by (blast intro: inv_index)
  show ?thesis
  proof (cases "pc_afterClientInit (pm_config s i)")
    case True
    have "pm_inv (pm_call (CallAfterInit i c) s)"
      using s m i True by (intro inv_call) (auto simp: call_ok_def configs_nth)
    then show ?thesis using True m k
      by (auto simp: applyPluginToClient_def task_ok_def intro!: inv_await
          intro: loop_ok_mono [OF k])
  next
    case False
    then show ?thesis using inv_use_all [OF s m, of c] k
      by (auto simp: applyPluginToClient_def task_ok_def intro!: inv_await intro: loop_ok_mono)
  qed
qed

lemma inv_loop: "pm_inv s \<Longrightarrow> loop_ok (set (pm_log s)) k \<Longrightarrow> pm_inv (pm_loop k s)"
  by (cases k) (auto simp: pm_loop_def loop_ok_def split: list.split intro!: inv_apply)

lemma inv_complete:
  "pm_inv s \<Longrightarrow> i < length (pm_heap s) \<Longrightarrow>
    pc_onInstall (pm_config s i) \<longrightarrow> CallOnInstall i \<in> set (pm_log s) \<Longrightarrow> pm_inv (pm_complete_install i s)"
proof -
  assume s: "pm_inv s" and i: "i < length (pm_heap s)"
    and h: "pc_onInstall (pm_config s i) \<longrightarrow> CallOnInstall i \<in> set (pm_log s)"
  have swap: "pm_call (MarkInstalled i) (pm_set_installed i True s) =
      pm_set_installed i True (pm_call (MarkInstalled i) s)"
    by (simp add: pm_call_def pm_set_installed_def)
  have "pm_inv (pm_call (MarkInstalled i) s)"
    using s i h by (intro inv_call) (auto simp: call_ok_def configs_nth)
  then have "pm_inv (pm_call (MarkInstalled i) (pm_set_installed i True s))"
    unfolding swap by (rule inv_set_installed) simp
  then show ?thesis unfolding pm_complete_install_def by (rule inv_loop) (simp add: loop_ok_def)
qed


lemma inv_install: "pm_inv s \<Longrightarrow> pm_inv (fst (pm_install pid s))"
proof -
  assume s: "pm_inv s"
  show ?thesis
  proof (cases "jm_get (pm_plugins s) pid")
    case None
    then show ?thesis using s by (simp add: pm_install_def)
  next
    case (Some i)
    have i: "i < length (pm_heap s)" using inv_lookup [OF s Some] by simp
    have c: "pm_inv (pm_call (CallOnInstall i) s)" if "pc_onInstall (pm_config s i)"
      using s i that by (intro inv_call) (auto simp: call_ok_def configs_nth)
    show ?thesis using Some s i c
      by (auto simp: pm_install_def task_ok_def intro!: inv_await inv_complete)
  qed
qed

lemma inv_uninstall: "pm_inv s \<Longrightarrow> pm_inv (fst (pm_uninstall pid s))"
proof -
  assume s: "pm_inv s"
  show ?thesis
  proof (cases "jm_get (pm_plugins s) pid")
    case None
    then show ?thesis using s by (simp add: pm_uninstall_def)
  next
    case (Some i)
    have i: "i < length (pm_heap s)" using inv_lookup [OF s Some] by simp
    have c: "pm_inv (pm_call (CallOnUninstall i) s)"
      if "pc_onUninstall (pm_config s i)" "MarkInstalled i \<in> set (pm_log s)"
      using s i that by (intro inv_call) (auto simp: call_ok_def configs_nth)
    show ?thesis using Some s i c inv_installed [OF s i]
      by (auto simp: pm_uninstall_def task_ok_def intro!: inv_await inv_set_installed)
  qed
qed

lemma inv_register: "pm_inv s \<Longrightarrow> pm_inv (fst (pm_register p s))"
proof -
  assume s: "pm_inv s"
  let ?s = "s\<lparr>pm_heap := pm_heap s @ [\<lparr>pi_config = p, pi_installed = False\<rparr>],
              pm_plugins := jm_set (pc_id p) (length (pm_heap s)) (pm_plugins s)\<rparr>"
  have m: "jm_all (\<lambda>k i. i < length (pm_heap ?s) \<and> pc_id (pm_config ?s i) = k) (pm_plugins s)"
    using s unfolding pm_inv_def
    by (auto simp: pm_config_def nth_append elim!: jm_all_mono conjE)
  have "pm_inv ?s"
    using s jm_all_set [OF m, where k = "pc_id p" and v = "length (pm_heap s)"]
    by (auto simp: pm_inv_def pm_configs_def pm_is_installed_def pm_config_def nth_append log_ok_snoc
        less_Suc_eq)
  then show ?thesis using s inv_install [of ?s] by (auto simp: pm_register_def Let_def)
qed

lemma inv_unregister: "pm_inv s \<Longrightarrow> pm_inv (fst (pm_unregister pid s))"
proof -
  assume s: "pm_inv s"
  have d: "pm_inv (t\<lparr>pm_plugins := jm_delete pid (pm_plugins t)\<rparr>)" if "pm_inv t" for t :: "('a, 'b, 'c, 'd) pm"
    using that by (auto simp: pm_inv_def pm_configs_def pm_is_installed_def pm_config_def)
  show ?thesis using s d inv_uninstall [OF s]
    by (auto simp: pm_unregister_def Let_def split: option.split)
qed

lemma inv_applyToClient: "pm_inv s \<Longrightarrow> pm_inv (pm_applyToClient c s)"
proof -
  assume s: "pm_inv s"
  let ?s = "s\<lparr>pm_clients := (if c \<in> set (pm_clients s) then pm_clients s else pm_clients s @ [c])\<rparr>"
  have s': "pm_inv ?s"
    using s by (simp add: pm_inv_def pm_configs_def pm_is_installed_def pm_config_def)
  have "i < length (pm_heap ?s)" if "i \<in> set (pm_getAll ?s)" for i
    using that s' by (auto simp: pm_getAll_def jm_values_def pm_inv_def jm_all_def list_all_iff)
  then have "loop_ok (set (pm_log ?s)) (LoopApply (pm_getInstalled ?s) c)"
    using inv_installed [OF s'] by (auto simp: loop_ok_def list_all_iff pm_getInstalled_def)
  then show ?thesis unfolding pm_applyToClient_def Let_def by (rule inv_loop [OF s'])
qed

lemma inv_settle: "pm_inv s \<Longrightarrow> pm_inv (pm_settle tid ok s)"
proof -
  assume s: "pm_inv s"
  show ?thesis
  proof (cases "map_of (pm_tasks s) tid")
    case None
    then show ?thesis using s by (simp add: pm_settle_def)
  next
    case (Some t)
    let ?s = "s\<lparr>pm_tasks := jm_delete tid (pm_tasks s)\<rparr>"
    have s': "pm_inv ?s"
      using s by (auto simp: pm_inv_def pm_configs_def pm_is_installed_def pm_config_def
          list_all_iff AList.delete_eq)
    have t: "task_ok (set (pm_log ?s)) t"
      using s map_of_SomeD [OF Some] by (auto simp: pm_inv_def list_all_iff)
    have "pm_inv (pm_resume t ok ?s)"
    proof (cases t)
      case (AwaitOnInstall i)
      then show ?thesis using t s' inv_index [OF s', of i]
        by (auto simp: pm_resume_def task_ok_def intro!: inv_complete)
    next
      case (AwaitOnUninstall i)
      then show ?thesis using t s' by (auto simp: pm_resume_def task_ok_def intro!: inv_set_installed)
    next
      case (AwaitAfterInit i c k)
      have "pm_inv (pm_use_all i c ?s) \<and> set (pm_log ?s) \<subseteq> set (pm_log (pm_use_all i c ?s))"
        using t AwaitAfterInit s' by (intro inv_use_all) (auto simp: task_ok_def)
      then show ?thesis using t AwaitAfterInit s'
        by (auto simp: pm_resume_def task_ok_def intro!: inv_await intro: loop_ok_mono)
    next
      case (AwaitApplied k)
      then show ?thesis using t s' by (auto simp: pm_resume_def task_ok_def intro!: inv_loop)
    qed
    then show ?thesis using Some by (simp add: pm_settle_def)
  qed
qed

lemma inv_new: "pm_inv (newPluginManager auto)"
  by (simp add: pm_inv_def newPluginManager_def pm_configs_def)

interpretation plugin_machine: invariant_machine pm_inv pm_step "newPluginManager auto"
proof
  show "pm_inv (pm_step s e)" if "pm_inv s" for s e
    using that by (cases e) (simp_all add: inv_install inv_uninstall inv_register inv_unregister
        inv_applyToClient inv_settle)
qed (rule inv_new)

lemma run_inv: "pm_inv (pm_run es (newPluginManager auto))"
  unfolding pm_run_def by (rule plugin_machine.inv_run)

section \<open>Properties\<close>

lemma log_ok_split: "log_ok cs (later @ e # earlier) \<Longrightarrow> call_ok cs e (set earlier)"
  by (induction later) auto

text \<open>C12. 
  Whatever operations overlap and however the hooks settle, the manager hands a client a plugin's
  middleware (its calls of \<open>client.use\<close>) only after the plugin's installation completed, which
  itself comes after its \<open>onInstall\<close> hook, and after its \<open>afterClientInit\<close> hook was called with
  that client. What it offers through \<open>getMiddleware\<close>, from which the client's constructor fills its
  pipeline without waiting for \<open>afterClientInit\<close>, belongs to plugins whose installation completed;
  and each registered plugin is found under its own id.
\<close>

theorem plugin_hooks_precede_use:
  fixes es :: "('o, 'c, 'm, 's) pm_event list"
  assumes "s = pm_run es (newPluginManager auto)" and "pm_log s = later @ e # earlier"
  shows "call_ok (pm_configs s) e (set earlier) \<and> distinct (map fst (pm_plugins s)) \<and>
         list_all (\<lambda>(k, i). pc_id (pm_config s i) = k) (pm_plugins s) \<and>
         list_all (\<lambda>m. \<exists>i. m \<in> set (listm (pc_middleware (pm_config s i))) \<and>
           MarkInstalled i \<in> set (pm_log s)) (pm_getMiddleware s)"
proof -
  have s: "pm_inv s" unfolding assms(1) by (rule run_inv)
  have "\<exists>i. m \<in> set (listm (pc_middleware (pm_config s i))) \<and> MarkInstalled i \<in> set (pm_log s)"
    if m: "m \<in> set (pm_getMiddleware s)" for m
  proof -
    obtain i where i: "i \<in> set (jm_values (pm_plugins s))" "pm_is_installed s i"
      "m \<in> set (listm (pc_middleware (pm_config s i)))"
      using m unfolding pm_getMiddleware_def pm_getInstalled_def pm_getAll_def set_concat set_map set_filter
      by blast
    then have "i < length (pm_heap s)" using s by (auto simp: pm_inv_def jm_all_def jm_values_def list_all_iff)
    then show ?thesis using i inv_installed [OF s] by blast
  qed
  then show ?thesis using s log_ok_split [of "pm_configs s" later e earlier] assms(2)
    by (auto simp: pm_inv_def jm_ok_def jm_all_def list_all_iff)
qed

definition demo_plugin :: "bool \<Rightarrow> bool \<Rightarrow> (unit, nat, unit) PluginConfig" where
  "demo_plugin install after = \<lparr>pc_id = ''p'', pc_name = ''P'', pc_version = ''1'',
     pc_onInstall = install, pc_beforeClientInit = None, pc_afterClientInit = after,
     pc_onUninstall = False, pc_services = None, pc_middleware = Some [5]\<rparr>"

definition demo_pm :: "(unit, nat, nat, unit) pm_event list \<Rightarrow> (unit, nat, nat, unit) pm" where
  "demo_pm es = pm_run es (newPluginManager None)"

lemma demo_pm_log:
  "pm_log (demo_pm [PRegister (demo_plugin True True), PInstall ''p'', PApplyToClient 1, PSettle 0 True,
      PSettle 1 True]) =
    [CallUse 0 1 5, CallAfterInit 0 1, MarkInstalled 0, CallOnInstall 0]"
  by code_simp

theorem plugin_hooks_precede_use_witness:
  "call_ok (pm_configs (demo_pm [PRegister (demo_plugin True True), PInstall ''p'', PApplyToClient 1,
       PSettle 0 True, PSettle 1 True]))
     (CallUse 0 (1 :: nat) 5) (set [CallAfterInit 0 1, MarkInstalled 0, CallOnInstall 0])"
  by (rule plugin_hooks_precede_use [OF demo_pm_def, where later = "[]", unfolded append_Nil,
      OF demo_pm_log, THEN conjunct1])

text \<open>What applying a plugin to a client calls, in order.\<close>

definition plugin_calls ::
    "('o, 'c, 'm, 's) pm \<Rightarrow> 'c \<Rightarrow> nat \<Rightarrow> ('c, 'm) pm_call list" where
  "plugin_calls s c i =
     (if pc_afterClientInit (pm_config s i) then [CallAfterInit i c] else [])
     @ map (CallUse i c) (listm (pc_middleware (pm_config s i)))"

text \<open>Settle the oldest task, and so on, with every hook fulfilled.\<close>

fun pm_drain :: "nat \<Rightarrow> ('o, 'c, 'm, 's) pm \<Rightarrow> ('o, 'c, 'm, 's) pm" where
  "pm_drain 0 s = s"
| "pm_drain (Suc n) s =
    (case pm_tasks s of [] \<Rightarrow> s | (t, _) # _ \<Rightarrow> pm_drain n (pm_settle t True s))"

lemma pm_drain_done: "pm_tasks s = [] \<Longrightarrow> pm_drain n s = s"
  by (cases n) simp_all

lemma use_all_eq: "pm_use_all i c s =
    s\<lparr>pm_log := rev (map (CallUse i c) (listm (pc_middleware (pm_config s i)))) @ pm_log s\<rparr>"
proof -
  have "foldl (\<lambda>s m. pm_call (CallUse i c m) s) s ms = s\<lparr>pm_log := rev (map (CallUse i c) ms) @ pm_log s\<rparr>"
    for ms by (induction ms arbitrary: s) (auto simp: pm_call_def)
  then show ?thesis by (simp add: pm_use_all_def)
qed

lemma drain_apply:
  "pm_tasks s = [] \<Longrightarrow>
    \<exists>s' n'. pm_drain (Suc (Suc n)) (applyPluginToClient i c k s) = pm_drain (n + n') (pm_loop k s') \<and>
      pm_tasks s' = [] \<and> pm_heap s' = pm_heap s \<and> pm_clients s' = pm_clients s \<and>
      pm_log s' = rev (plugin_calls s c i) @ pm_log s"
proof (cases "pc_afterClientInit (pm_config s i)")
  case True
  assume "pm_tasks s = []"
  then show ?thesis using True
    by (intro exI [of _ "s\<lparr>pm_log := rev (plugin_calls s c i) @ pm_log s,
            pm_nextTask := Suc (Suc (pm_nextTask s)), pm_tasks := []\<rparr>"] exI [of _ 0])
       (simp add: applyPluginToClient_def pm_await_def pm_call_def pm_settle_def pm_resume_def
         use_all_eq plugin_calls_def pm_config_def)
next
  case False
  let ?t = "applyPluginToClient i c k s"
  assume s: "pm_tasks s = []"
  have "pm_drain (Suc (Suc n)) ?t = pm_drain (Suc n) (pm_settle (pm_nextTask s) True ?t)"
    using s False by (simp add: applyPluginToClient_def pm_await_def use_all_eq del: pm_drain.simps(2))
       (simp add: pm_drain.simps(2) [of "Suc n"])
  then show ?thesis using s False
    by (intro exI [of _ "s\<lparr>pm_log := rev (plugin_calls s c i) @ pm_log s,
            pm_nextTask := Suc (pm_nextTask s), pm_tasks := []\<rparr>"] exI [of _ 1])
       (simp del: pm_drain.simps(2) add: applyPluginToClient_def pm_await_def pm_call_def pm_settle_def pm_resume_def
         use_all_eq plugin_calls_def pm_config_def)
qed

lemma drain_loop:
  "pm_tasks s = [] \<Longrightarrow> 2 * length is \<le> n \<Longrightarrow>
    (let s' = pm_drain n (pm_loop (LoopApply is c) s) in
      pm_tasks s' = [] \<and> pm_clients s' = pm_clients s \<and>
      pm_log s' = rev (concat (map (plugin_calls s c) is)) @ pm_log s)"
proof (induction "is" arbitrary: s n)
  case Nil
  then show ?case by (simp add: pm_loop_def pm_drain_done)
next
  case (Cons i "is")
  obtain m where n: "n = Suc (Suc m)" "2 * length is \<le> m"
    using Cons.prems(2) by (cases n; cases "n - 1") auto
  obtain s1 n' where s1: "pm_drain n (applyPluginToClient i c (LoopApply is c) s) =
      pm_drain (m + n') (pm_loop (LoopApply is c) s1)" "pm_tasks s1 = []" "pm_heap s1 = pm_heap s"
      "pm_clients s1 = pm_clients s" "pm_log s1 = rev (plugin_calls s c i) @ pm_log s"
    using drain_apply [OF Cons.prems(1), of m i c "LoopApply is c"] unfolding n by blast
  have cfg: "plugin_calls s1 c = plugin_calls s c"
    by (rule ext) (simp add: plugin_calls_def pm_config_def s1(3))
  show ?case using Cons.IH [OF s1(2), of "m + n'"] n s1 cfg
    by (simp add: pm_loop_def Let_def)
qed

text \<open>
  When nothing overlaps and the hooks fulfil, applying the manager to a client ends, after at
  most two settled promises per plugin, having called each installed plugin's
  \<open>afterClientInit\<close> hook and then handed over its middleware, plugin after plugin in
  registration order, each exactly once.
\<close>

theorem apply_to_client_complete:
  assumes "pm_tasks s = []"
  shows "let s' = pm_drain (2 * length (pm_getInstalled s)) (pm_applyToClient c s) in
           pm_tasks s' = [] \<and> c \<in> set (pm_clients s') \<and>
           rev (pm_log s') = rev (pm_log s) @ concat (map (plugin_calls s c) (pm_getInstalled s))"
proof -
  let ?s = "s\<lparr>pm_clients := (if c \<in> set (pm_clients s) then pm_clients s else pm_clients s @ [c])\<rparr>"
  have g: "pm_getInstalled ?s = pm_getInstalled s"
    by (simp add: pm_getInstalled_def pm_getAll_def pm_is_installed_def cong: filter_cong)
  have p: "plugin_calls ?s c = plugin_calls s c"
    by (rule ext) (simp add: plugin_calls_def pm_config_def)
  have "pm_tasks ?s = []" using assms by simp
  from drain_loop [OF this, of "pm_getInstalled s" "2 * length (pm_getInstalled s)" c]
  show ?thesis unfolding pm_applyToClient_def Let_def g p by simp
qed

theorem apply_to_client_complete_witness:
  "rev (pm_log (pm_drain 2 (pm_applyToClient 1 (demo_pm [PRegister (demo_plugin False True), PInstall ''p''])))) =
     [MarkInstalled 0, CallAfterInit 0 1, CallUse 0 1 5]"
proof -
  have t: "pm_tasks (demo_pm [PRegister (demo_plugin False True), PInstall ''p'']) = []"
    "pm_getInstalled (demo_pm [PRegister (demo_plugin False True), PInstall ''p'']) = [0]"
    "pm_log (demo_pm [PRegister (demo_plugin False True), PInstall ''p'']) = [MarkInstalled 0]"
    "plugin_calls (demo_pm [PRegister (demo_plugin False True), PInstall ''p'']) 1 0 =
       [CallAfterInit 0 1, CallUse 0 1 5]"
    by code_simp+
  show ?thesis using apply_to_client_complete [OF t(1), of 1] by (simp add: t Let_def numeral_2_eq_2 del: One_nat_def)
qed

text \<open>
  Overlapping operations are not serialized: two calls of \<open>install\<close> run the \<open>onInstall\<close> hook
  twice, and a client added while \<open>install\<close> waits for another client is served twice.
\<close>

theorem overlapping_installs_repeat_work:
  "pm_log (demo_pm [PRegister (demo_plugin True False), PInstall ''p'', PInstall ''p'']) =
     [CallOnInstall 0, CallOnInstall 0] \<and>
   count_list (pm_log (demo_pm [PApplyToClient 1, PRegister (demo_plugin False True), PInstall ''p'',
      PApplyToClient 2, PSettle 0 True, PSettle 1 True, PSettle 2 True, PSettle 4 True]))
     (CallUse 0 2 5) = 2"
  by code_simp

end
