(* ===== verification/CoreServices.thy ===== *)
theory CoreServices
  imports SDK_Prelude
begin

text \<open>
  Two small containers of the SDK's core: the registry of contract adapters
  (\<open>src/src/adapters/adapterRegistry.ts\<close>) and the service container
  (\<open>src/src/core/serviceContainer.ts\<close>). An adapter is its name, its version and what its
  asynchronous \<open>supports\<close> answers for a contract id; the registry is not changed while
  \<open>findAdapter\<close> waits.
\<close>

section \<open>Adapters\<close>

record ContractAdapter =
  ad_name :: string
  ad_version :: string
  ad_supports :: "string \<Rightarrow> jsv + bool"

record AdapterRegistry =
  ar_adapters :: "(string, ContractAdapter) jsmap"
  ar_defaultName :: "string option"

text \<open>The vault adapter of \<open>vaultAdapter.ts\<close>.\<close>

definition vault_supports :: "string \<Rightarrow> bool" where
  "vault_supports cid \<longleftrightarrow> str_starts cid ''C'' \<and> length cid = 56"

definition VaultAdapter :: ContractAdapter where
  "VaultAdapter = \<lparr>ad_name = ''vault'', ad_version = ''0.1.0'',
     ad_supports = (\<lambda>cid. Inr (vault_supports cid))\<rparr>"

definition name_given :: "string option \<Rightarrow> bool" where
  "name_given x \<longleftrightarrow> (case x of None \<Rightarrow> False | Some s \<Rightarrow> s \<noteq> [])"

definition newAdapterRegistry :: "string option \<Rightarrow> AdapterRegistry" where
  "newAdapterRegistry dflt =
    \<lparr>ar_adapters = [], ar_defaultName = (if name_given dflt then dflt else None)\<rparr>"

definition ar_register :: "ContractAdapter \<Rightarrow> AdapterRegistry \<Rightarrow> AdapterRegistry" where
  "ar_register a r =
    \<lparr>ar_adapters = jm_set (ad_name a) a (ar_adapters r),
     ar_defaultName = (if \<not> name_given (ar_defaultName r) then Some (ad_name a) else ar_defaultName r)\<rparr>"

definition ar_unregister :: "string \<Rightarrow> AdapterRegistry \<Rightarrow> AdapterRegistry \<times> bool" where
  "ar_unregister nm r =
    (\<lparr>ar_adapters = jm_delete nm (ar_adapters r),
      ar_defaultName = (if ar_defaultName r = Some nm then None else ar_defaultName r)\<rparr>,
     jm_has (ar_adapters r) nm)"

definition ar_get :: "string option \<Rightarrow> AdapterRegistry \<Rightarrow> ContractAdapter option" where
  "ar_get nm r =
    (case (case nm of None \<Rightarrow> ar_defaultName r | Some n \<Rightarrow> Some n) of
       None \<Rightarrow> None
     | Some key \<Rightarrow> if key = [] then None else jm_get (ar_adapters r) key)"

fun ar_search :: "string \<Rightarrow> ContractAdapter list \<Rightarrow> jsv + ContractAdapter option" where
  "ar_search cid [] = Inr None"
| "ar_search cid (a # as) =
    (case ad_supports a cid of Inl e \<Rightarrow> Inl e
     | Inr b \<Rightarrow> if b then Inr (Some a) else ar_search cid as)"

definition ar_findAdapter :: "string \<Rightarrow> AdapterRegistry \<Rightarrow> jsv + ContractAdapter option" where
  "ar_findAdapter cid r = ar_search cid (jm_values (ar_adapters r))"

definition ar_setDefault :: "string \<Rightarrow> AdapterRegistry \<Rightarrow> AdapterRegistry \<times> (jsv + unit)" where
  "ar_setDefault nm r =
    (if \<not> jm_has (ar_adapters r) nm
     then (r, Inl (JErr ''Error'' (''Adapter not registered: '' @ nm) []))
     else (r\<lparr>ar_defaultName := Some nm\<rparr>, Inr ()))"

definition ar_getDefault :: "AdapterRegistry \<Rightarrow> ContractAdapter option" where
  "ar_getDefault r =
    (case ar_defaultName r of None \<Rightarrow> None
     | Some nm \<Rightarrow> if nm = [] then None else jm_get (ar_adapters r) nm)"

definition ar_list :: "AdapterRegistry \<Rightarrow> ContractAdapter list" where
  "ar_list r = jm_values (ar_adapters r)"

definition ar_count :: "AdapterRegistry \<Rightarrow> nat" where
  "ar_count r = length (ar_adapters r)"

datatype ar_op = ARegister ContractAdapter | AUnregister string | ASetDefault string

definition ar_step :: "AdapterRegistry \<Rightarrow> ar_op \<Rightarrow> AdapterRegistry" where
  "ar_step r e = (case e of ARegister a \<Rightarrow> ar_register a r
     | AUnregister nm \<Rightarrow> fst (ar_unregister nm r) | ASetDefault nm \<Rightarrow> fst (ar_setDefault nm r))"

text \<open>Adapters are stored under their names, and the default, once there is one, is registered.\<close>

definition ar_ok :: "AdapterRegistry \<Rightarrow> bool" where
  "ar_ok r \<longleftrightarrow> jm_ok (ar_adapters r) \<and> jm_all (\<lambda>k a. ad_name a = k) (ar_adapters r) \<and>
     (case ar_defaultName r of None \<Rightarrow> True | Some nm \<Rightarrow> jm_has (ar_adapters r) nm)"

interpretation adapter_machine: invariant_machine ar_ok ar_step "newAdapterRegistry None"
proof
  show "ar_ok (newAdapterRegistry None)"
    by (simp add: ar_ok_def newAdapterRegistry_def name_given_def)
  show "ar_ok (ar_step r e)" if "ar_ok r" for r e
    using that
    by (cases e)
       (auto simp: ar_ok_def ar_step_def ar_register_def ar_unregister_def ar_setDefault_def
         intro!: jm_all_set split: option.splits if_splits)
qed

text \<open>
  In a registry created without a configured default, whatever is registered, removed or made
  the default afterwards: adapters are stored under their own names, and the default is always
  a registered adapter, so \<open>getDefault\<close> and \<open>get()\<close> agree and find one unless the default was
  removed, was never set, or has the empty name.
\<close>

theorem adapter_default_registered:
  "let r = foldl ar_step (newAdapterRegistry None) es in
     list_all (\<lambda>(k, a). ad_name a = k) (ar_adapters r) \<and>
     ar_getDefault r = ar_get None r \<and>
     (ar_getDefault r = None \<longleftrightarrow> \<not> name_given (ar_defaultName r)) \<and>
     (case ar_getDefault r of None \<Rightarrow> True
      | Some a \<Rightarrow> a \<in> set (ar_list r) \<and> ar_defaultName r = Some (ad_name a))"
proof -
  let ?r = "foldl ar_step (newAdapterRegistry None) es"
  have r: "ar_ok ?r" by (rule adapter_machine.inv_run)
  then have a: "list_all (\<lambda>(k, a). ad_name a = k) (ar_adapters ?r)"
    by (simp add: ar_ok_def jm_all_def)
  have b: "ar_getDefault ?r = ar_get None ?r"
    by (simp add: ar_getDefault_def ar_get_def)
  show ?thesis
  proof (cases "name_given (ar_defaultName ?r)")
    case False
    then have "ar_getDefault ?r = None"
      by (auto simp: ar_getDefault_def name_given_def split: option.splits)
    then show ?thesis using a b False by (simp add: Let_def)
  next
    case True
    then obtain nm where nm: "ar_defaultName ?r = Some nm" "nm \<noteq> []"
      by (auto simp: name_given_def split: option.splits)
    then obtain ad where ad: "jm_get (ar_adapters ?r) nm = Some ad"
      using r by (auto simp: ar_ok_def jm_has_get)
    have "ad_name ad = nm" using r ad by (auto simp: ar_ok_def dest: jm_all_getD)
    moreover have "ad \<in> set (ar_list ?r)"
      using jm_get_memD [OF ad] by (force simp: ar_list_def jm_values_def)
    moreover have "ar_getDefault ?r = Some ad" using nm ad by (simp add: ar_getDefault_def)
    ultimately show ?thesis using a nm True by (simp add: Let_def flip: b)
  qed
qed

section \<open>Services (core/serviceContainer.ts)\<close>

text \<open>
  A service slot holds an instance or a factory; an override that is present with the value
  \<open>undefined\<close> is \<open>Some None\<close>. The default factories build third-party clients and are the
  parameter \<open>df\<close>: four functions from the options of the request. \<open>'q\<close> is the type
  of those options and \<open>'v\<close> of the services.
\<close>

datatype ('q, 'v) slot = SInstance 'v | SFactory "'q \<Rightarrow> 'v"

type_synonym ('q, 'v) services = "(string, ('q, 'v) slot option) jsmap"

record ('q, 'v) default_factories =
  df_rpc :: "'q \<Rightarrow> 'v"
  df_http :: "'q \<Rightarrow> 'v"
  df_logger :: "'q \<Rightarrow> 'v"
  df_ws :: "'q \<Rightarrow> 'v"

definition default_services :: "('q, 'v) default_factories \<Rightarrow> ('q, 'v) services" where
  "default_services df =
     [(''rpcClientFactory'', Some (SFactory (df_rpc df))),
      (''httpClientFactory'', Some (SFactory (df_http df))),
      (''loggerFactory'', Some (SFactory (df_logger df))),
      (''webSocketManagerFactory'', Some (SFactory (df_ws df)))]"

definition newServiceContainer ::
    "('q, 'v) default_factories \<Rightarrow> ('q, 'v) services \<Rightarrow> ('q, 'v) services" where
  "newServiceContainer df overrides = obj_spread (default_services df) overrides"

definition slot_value :: "('q, 'v) services \<Rightarrow> string \<Rightarrow> ('q, 'v) slot option" where
  "slot_value sv k = (case jm_get sv k of None \<Rightarrow> None | Some x \<Rightarrow> x)"

text \<open>\<open>services.x ?? services.xFactory(options)\<close>\<close>

definition sc_resolve :: "string \<Rightarrow> string \<Rightarrow> 'q \<Rightarrow> ('q, 'v) services \<Rightarrow> jsv + ('q, 'v) slot" where
  "sc_resolve inst factory q sv =
    (case slot_value sv inst of
       Some x \<Rightarrow> Inr x
     | None \<Rightarrow>
       (case slot_value sv factory of
          Some (SFactory f) \<Rightarrow> Inr (SInstance (f q))
        | _ \<Rightarrow> Inl (JErr ''TypeError'' (''this.services.'' @ factory @ '' is not a function'') [])))"

definition sc_getLogger :: "'q \<Rightarrow> ('q, 'v) services \<Rightarrow> jsv + ('q, 'v) slot" where
  "sc_getLogger q sv = sc_resolve ''logger'' ''loggerFactory'' q sv"

definition sc_getHttpClient :: "'q \<Rightarrow> ('q, 'v) services \<Rightarrow> jsv + ('q, 'v) slot" where
  "sc_getHttpClient q sv = sc_resolve ''httpClient'' ''httpClientFactory'' q sv"

definition sc_getRpcClient :: "'q \<Rightarrow> ('q, 'v) services \<Rightarrow> jsv + ('q, 'v) slot" where
  "sc_getRpcClient q sv = sc_resolve ''rpcClient'' ''rpcClientFactory'' q sv"

definition sc_getWebSocketManager :: "'q \<Rightarrow> ('q, 'v) services \<Rightarrow> jsv + ('q, 'v) slot" where
  "sc_getWebSocketManager q sv = sc_resolve ''webSocketManager'' ''webSocketManagerFactory'' q sv"

definition sc_extend ::
    "('q, 'v) default_factories \<Rightarrow> ('q, 'v) services \<Rightarrow> ('q, 'v) services \<Rightarrow> ('q, 'v) services" where
  "sc_extend df overrides sv = newServiceContainer df (obj_spread (obj_spread [] sv) overrides)"

definition createServiceContainer ::
    "('q, 'v) default_factories \<Rightarrow> ('q, 'v) services \<Rightarrow> ('q, 'v) services" where
  "createServiceContainer df overrides = newServiceContainer df overrides"

lemma get_new: "jm_ok overrides \<Longrightarrow> jm_get (newServiceContainer df overrides) k =
    (case jm_get overrides k of None \<Rightarrow> jm_get (default_services df) k | Some x \<Rightarrow> Some x)"
  by (simp add: newServiceContainer_def jm_get_spread)

lemma get_extend: "jm_ok overrides \<Longrightarrow> jm_ok sv \<Longrightarrow> jm_get (sc_extend df overrides sv) k =
    (case jm_get overrides k of
       None \<Rightarrow> (case jm_get sv k of None \<Rightarrow> jm_get (default_services df) k | Some x \<Rightarrow> Some x)
     | Some x \<Rightarrow> Some x)"
  by (simp add: sc_extend_def get_new jm_get_spread jm_ok_spread split: option.split)

text \<open>
  Overrides given in two steps act like their union: after creating a container and extending
  it, every slot that the extension names has its value, every other slot that the creation
  named has that one, and the rest have the defaults; so extending twice is extending once with
  the combined overrides.
\<close>

theorem extend_composes:
  assumes "jm_ok a" and "jm_ok b"
  shows "slot_value (sc_extend df b (createServiceContainer df a)) =
         slot_value (createServiceContainer df (obj_spread a b))"
proof
  fix k
  have "jm_ok (newServiceContainer df a)"
    unfolding newServiceContainer_def by (rule jm_ok_spread) (simp add: jm_ok_def default_services_def)
  then show "slot_value (sc_extend df b (createServiceContainer df a)) k =
      slot_value (createServiceContainer df (obj_spread a b)) k"
    using assms
    by (simp add: slot_value_def createServiceContainer_def get_extend get_new jm_get_spread
        jm_ok_spread split: option.split)
qed


definition demo_factories :: "(nat, nat) default_factories" where
  "demo_factories = \<lparr>df_rpc = (\<lambda>q. q + 1), df_http = (\<lambda>q. q + 2), df_logger = (\<lambda>q. q + 3),
     df_ws = (\<lambda>q. q + 4)\<rparr>"

theorem extend_composes_witness:
  "slot_value (sc_extend demo_factories [(''rpcClient'', Some (SInstance 9))]
     (createServiceContainer demo_factories [(''rpcClient'', Some (SInstance 8)), (''logger'', None)]))
     ''rpcClient'' = Some (SInstance 9)"
  by (subst extend_composes)
     (simp_all add: jm_ok_def slot_value_def createServiceContainer_def newServiceContainer_def
       default_services_def obj_spread_def)

end
