(* ===== verification/RpcHealth.thy ===== *)
theory RpcHealth
  imports SDK_Prelude Complex_Main
begin

text \<open>
  The RPC health monitor (\<open>src/src/monitoring/rpcHealthMonitor.ts\<close>): endpoints with their
  statuses and metrics, the interval timer, and rounds of concurrent checks. A round calls
  every endpoint's \<open>getHealth\<close>; the clients are outside, and how a call ends (a response, an
  error, the timeout of \<open>withTimeout\<close>) is an event. The clock is an argument; latencies are
  integers and the averages exact rationals, where the code rounds to doubles.
\<close>

section \<open>Data\<close>

datatype EndpointHealthState = HUnknown | HHealthy | HDegraded | HUnhealthy

record RpcHealthResponse =
  hr_status :: "string option"
  hr_version :: "string option"

record RpcEndpointConfig =
  ec_id :: "string option"
  ec_url :: string
  ec_network :: "string option"
  ec_allowHttp :: "bool option"

record RpcHealthMonitorConfig =
  mc_endpoints :: "RpcEndpointConfig list"
  mc_intervalMs :: "int option"
  mc_timeoutMs :: "int option"
  mc_degradedLatencyMs :: "int option"
  mc_unhealthyAfterFailures :: "nat option"
  mc_autoStart :: bool

record RpcEndpointMetrics =
  em_totalChecks :: nat
  em_successfulChecks :: nat
  em_failedChecks :: nat
  em_consecutiveFailures :: nat
  em_lastLatencyMs :: "int option"
  em_averageLatencyMs :: "rat option"
  em_minLatencyMs :: "int option"
  em_maxLatencyMs :: "int option"
  em_availabilityPercentage :: rat

record RpcEndpointStatus =
  es_id :: string
  es_url :: string
  es_network :: "string option"
  es_state :: EndpointHealthState
  es_available :: bool
  es_checkedAt :: "int option"
  es_error :: "string option"
  es_response :: "RpcHealthResponse option"
  es_metrics :: RpcEndpointMetrics

record InternalEndpoint =
  ie_id :: string
  ie_url :: string
  ie_status :: RpcEndpointStatus
  ie_latencySamples :: "int list"

text \<open>
  \<open>hm_round\<close> is \<open>checkInProgress\<close> together with what the round still waits for: the indices
  of the endpoints with an open call and the time the round started.
\<close>

record RpcHealthMonitor =
  hm_intervalMs :: int
  hm_timeoutMs :: int
  hm_degradedLatencyMs :: int
  hm_unhealthyAfterFailures :: nat
  hm_endpoints :: "InternalEndpoint list"
  hm_running :: bool
  hm_round :: "(int \<times> nat list) option"

record RpcHealthSummary =
  hs_total :: nat
  hs_healthy :: nat
  hs_degraded :: nat
  hs_unhealthy :: nat
  hs_unknown :: nat
  hs_available :: nat

record RpcHealthStatusReport =
  rr_generatedAt :: int
  rr_running :: bool
  rr_intervalMs :: int
  rr_timeoutMs :: int
  rr_endpoints :: "RpcEndpointStatus list"
  rr_summary :: RpcHealthSummary

definition DEFAULT_INTERVAL_MS :: int where "DEFAULT_INTERVAL_MS = 30000"
definition DEFAULT_TIMEOUT_MS :: int where "DEFAULT_TIMEOUT_MS = 5000"
definition DEFAULT_DEGRADED_LATENCY_MS :: int where "DEFAULT_DEGRADED_LATENCY_MS = 1500"
definition DEFAULT_UNHEALTHY_AFTER_FAILURES :: nat where "DEFAULT_UNHEALTHY_AFTER_FAILURES = 2"

definition createDefaultMetrics :: RpcEndpointMetrics where
  "createDefaultMetrics = \<lparr>em_totalChecks = 0, em_successfulChecks = 0, em_failedChecks = 0,
     em_consecutiveFailures = 0, em_lastLatencyMs = None, em_averageLatencyMs = None,
     em_minLatencyMs = None, em_maxLatencyMs = None, em_availabilityPercentage = 0\<rparr>"

section \<open>Construction\<close>

definition or_default :: "'a option \<Rightarrow> 'a \<Rightarrow> 'a" where
  "or_default x d = (case x of None \<Rightarrow> d | Some v \<Rightarrow> v)"

text \<open>Whether a client the monitor builds itself allows plain HTTP.\<close>

definition hm_allowHttp :: "RpcEndpointConfig \<Rightarrow> bool" where
  "hm_allowHttp e = or_default (ec_allowHttp e) (str_starts (ec_url e) ''http://'')"

definition newEndpoint :: "RpcEndpointConfig \<Rightarrow> InternalEndpoint" where
  "newEndpoint e =
    (let i = or_default (ec_id e) (ec_url e) in
     \<lparr>ie_id = i, ie_url = ec_url e,
      ie_status = \<lparr>es_id = i, es_url = ec_url e, es_network = ec_network e, es_state = HUnknown,
        es_available = False, es_checkedAt = None, es_error = None, es_response = None,
        es_metrics = createDefaultMetrics\<rparr>,
      ie_latencySamples = []\<rparr>)"

definition hm_base :: "RpcHealthMonitorConfig \<Rightarrow> RpcHealthMonitor" where
  "hm_base c = \<lparr>hm_intervalMs = or_default (mc_intervalMs c) DEFAULT_INTERVAL_MS,
     hm_timeoutMs = or_default (mc_timeoutMs c) DEFAULT_TIMEOUT_MS,
     hm_degradedLatencyMs = or_default (mc_degradedLatencyMs c) DEFAULT_DEGRADED_LATENCY_MS,
     hm_unhealthyAfterFailures =
       or_default (mc_unhealthyAfterFailures c) DEFAULT_UNHEALTHY_AFTER_FAILURES,
     hm_endpoints = map newEndpoint (mc_endpoints c), hm_running = False, hm_round = None\<rparr>"

section \<open>Recording the outcome of a check\<close>

definition percentage :: "nat \<Rightarrow> nat \<Rightarrow> rat" where
  "percentage succ_n total_n = of_nat succ_n / of_nat total_n * 100"

definition recordSuccess ::
    "int \<Rightarrow> int \<Rightarrow> EndpointHealthState \<Rightarrow> RpcHealthResponse \<Rightarrow> InternalEndpoint \<Rightarrow> InternalEndpoint" where
  "recordSuccess now latency state response e =
    (let samples = ie_latencySamples e @ [latency];
         m = es_metrics (ie_status e);
         m' = m\<lparr>em_totalChecks := em_totalChecks m + 1,
                em_successfulChecks := em_successfulChecks m + 1,
                em_consecutiveFailures := 0,
                em_lastLatencyMs := Some latency,
                em_minLatencyMs := Some (case em_minLatencyMs m of None \<Rightarrow> latency
                                         | Some x \<Rightarrow> min x latency),
                em_maxLatencyMs := Some (case em_maxLatencyMs m of None \<Rightarrow> latency
                                         | Some x \<Rightarrow> max x latency),
                em_averageLatencyMs :=
                  Some (of_int (foldl (+) 0 samples) / of_nat (length samples)),
                em_availabilityPercentage :=
                  percentage (em_successfulChecks m + 1) (em_totalChecks m + 1)\<rparr>
     in e\<lparr>ie_latencySamples := samples,
          ie_status := (ie_status e)\<lparr>es_state := state, es_available := (state \<noteq> HUnhealthy),
            es_checkedAt := Some now, es_error := None, es_response := Some response,
            es_metrics := m'\<rparr>\<rparr>)"

definition recordFailure :: "nat \<Rightarrow> int \<Rightarrow> string \<Rightarrow> InternalEndpoint \<Rightarrow> InternalEndpoint" where
  "recordFailure threshold now error e =
    (let m = es_metrics (ie_status e);
         m' = m\<lparr>em_totalChecks := em_totalChecks m + 1,
                em_failedChecks := em_failedChecks m + 1,
                em_consecutiveFailures := em_consecutiveFailures m + 1,
                em_availabilityPercentage :=
                  percentage (em_successfulChecks m) (em_totalChecks m + 1)\<rparr>
     in e\<lparr>ie_status := (ie_status e)\<lparr>
            es_state := (if threshold \<le> em_consecutiveFailures m' then HUnhealthy else HDegraded),
            es_available := False, es_checkedAt := Some now, es_error := Some error,
            es_response := None, es_metrics := m'\<rparr>\<rparr>)"

text \<open>How a call of \<open>getHealth\<close> ends: a response, a thrown value, or the timeout.\<close>

datatype health_outcome = HResponse RpcHealthResponse | HThrown jsv | HTimeout

definition response_state :: "int \<Rightarrow> int \<Rightarrow> RpcHealthResponse \<Rightarrow> EndpointHealthState" where
  "response_state degraded latency r =
    (let healthy = (case hr_status r of None \<Rightarrow> True | Some s \<Rightarrow> js_lower s = ''healthy'') in
     if healthy then (if degraded < latency then HDegraded else HHealthy) else HUnhealthy)"

definition timeout_error :: "int \<Rightarrow> jsv" where
  "timeout_error t = JErr ''Error'' (''RPC health check timed out after '' @ int_str t @ ''ms'') []"

definition check_message :: "jsv \<Rightarrow> string" where
  "check_message v = (case v of JErr _ m _ \<Rightarrow> m | _ \<Rightarrow> ''RPC health check failed'')"

definition checkEndpoint ::
    "RpcHealthMonitor \<Rightarrow> int \<Rightarrow> int \<Rightarrow> health_outcome \<Rightarrow> InternalEndpoint \<Rightarrow> InternalEndpoint" where
  "checkEndpoint s startedAt now out e =
    (case out of
       HResponse r \<Rightarrow>
         (let latency = now - startedAt in
          recordSuccess now latency (response_state (hm_degradedLatencyMs s) latency r) r e)
     | HThrown v \<Rightarrow> recordFailure (hm_unhealthyAfterFailures s) now (check_message v) e
     | HTimeout \<Rightarrow> recordFailure (hm_unhealthyAfterFailures s) now
                    (check_message (timeout_error (hm_timeoutMs s))) e)"

section \<open>Operations\<close>

definition hm_runHealthChecks :: "int \<Rightarrow> RpcHealthMonitor \<Rightarrow> RpcHealthMonitor" where
  "hm_runHealthChecks now s =
    (case hm_round s of
       Some _ \<Rightarrow> s
     | None \<Rightarrow> s\<lparr>hm_round := Some (now, [0..<length (hm_endpoints s)])\<rparr>)"

definition hm_start :: "int \<Rightarrow> RpcHealthMonitor \<Rightarrow> RpcHealthMonitor" where
  "hm_start now s = (if hm_running s then s else hm_runHealthChecks now (s\<lparr>hm_running := True\<rparr>))"

definition hm_stop :: "RpcHealthMonitor \<Rightarrow> RpcHealthMonitor" where
  "hm_stop s = (if \<not> hm_running s then s else s\<lparr>hm_running := False\<rparr>)"

text \<open>The interval timer fires.\<close>

definition hm_tick :: "int \<Rightarrow> RpcHealthMonitor \<Rightarrow> RpcHealthMonitor" where
  "hm_tick now s = (if hm_running s then hm_runHealthChecks now s else s)"

text \<open>
  The call for endpoint \<open>i\<close> of the current round ends; \<open>Promise.all\<close> ends the round with the
  last one.
\<close>

definition hm_outcome :: "nat \<Rightarrow> health_outcome \<Rightarrow> int \<Rightarrow> RpcHealthMonitor \<Rightarrow> RpcHealthMonitor" where
  "hm_outcome i out now s =
    (case hm_round s of
       None \<Rightarrow> s
     | Some (startedAt, waiting) \<Rightarrow>
       if i \<in> set waiting
       then s\<lparr>hm_endpoints := (hm_endpoints s)[i := checkEndpoint s startedAt now out (hm_endpoints s ! i)],
              hm_round := (if removeAll i waiting = [] then None else Some (startedAt, removeAll i waiting))\<rparr>
       else s)"

definition newRpcHealthMonitor :: "int \<Rightarrow> RpcHealthMonitorConfig \<Rightarrow> jsv + RpcHealthMonitor" where
  "newRpcHealthMonitor now c =
    (if mc_endpoints c = []
     then Inl (JErr ''Error'' ''RpcHealthMonitor requires at least one endpoint'' [])
     else Inr (if mc_autoStart c then hm_start now (hm_base c) else hm_base c))"

definition hm_getEndpointStatus :: "string \<Rightarrow> RpcHealthMonitor \<Rightarrow> RpcEndpointStatus option" where
  "hm_getEndpointStatus k s =
    map_option ie_status (find (\<lambda>e. ie_id e = k \<or> ie_url e = k) (hm_endpoints s))"

definition hm_getEndpointStatuses :: "RpcHealthMonitor \<Rightarrow> RpcEndpointStatus list" where
  "hm_getEndpointStatuses s = map ie_status (hm_endpoints s)"

definition summarize :: "RpcHealthSummary \<Rightarrow> RpcEndpointStatus \<Rightarrow> RpcHealthSummary" where
  "summarize a e =
    (let a1 = a\<lparr>hs_total := hs_total a + 1\<rparr>;
         a2 = (case es_state e of
            HHealthy \<Rightarrow> a1\<lparr>hs_healthy := hs_healthy a1 + 1\<rparr>
          | HDegraded \<Rightarrow> a1\<lparr>hs_degraded := hs_degraded a1 + 1\<rparr>
          | HUnhealthy \<Rightarrow> a1\<lparr>hs_unhealthy := hs_unhealthy a1 + 1\<rparr>
          | HUnknown \<Rightarrow> a1\<lparr>hs_unknown := hs_unknown a1 + 1\<rparr>)
     in if es_available e then a2\<lparr>hs_available := hs_available a2 + 1\<rparr> else a2)"

definition hm_getHealthReport :: "int \<Rightarrow> RpcHealthMonitor \<Rightarrow> RpcHealthStatusReport" where
  "hm_getHealthReport now s =
    (let es = hm_getEndpointStatuses s in
     \<lparr>rr_generatedAt = now, rr_running = hm_running s, rr_intervalMs = hm_intervalMs s,
      rr_timeoutMs = hm_timeoutMs s, rr_endpoints = es,
      rr_summary = foldl summarize \<lparr>hs_total = 0, hs_healthy = 0, hs_degraded = 0,
        hs_unhealthy = 0, hs_unknown = 0, hs_available = 0\<rparr> es\<rparr>)"

datatype hm_event =
    HStart int
  | HStop
  | HRun int
  | HTick int
  | HEnd nat health_outcome int

fun hm_step :: "RpcHealthMonitor \<Rightarrow> hm_event \<Rightarrow> RpcHealthMonitor" where
  "hm_step s (HStart now) = hm_start now s"
| "hm_step s HStop = hm_stop s"
| "hm_step s (HRun now) = hm_runHealthChecks now s"
| "hm_step s (HTick now) = hm_tick now s"
| "hm_step s (HEnd i out now) = hm_outcome i out now s"

definition hm_run :: "hm_event list \<Rightarrow> RpcHealthMonitor \<Rightarrow> RpcHealthMonitor" where
  "hm_run es s = foldl hm_step s es"


section \<open>Endpoints\<close>

text \<open>
  What an endpoint's status says, in terms of the latencies of its successful checks and the
  counters: the contract that recording an outcome keeps.
\<close>

definition sample_metrics_ok :: "int list \<Rightarrow> RpcEndpointMetrics \<Rightarrow> bool" where
  "sample_metrics_ok xs m \<longleftrightarrow>
     (if xs = []
      then em_lastLatencyMs m = None \<and> em_averageLatencyMs m = None \<and>
           em_minLatencyMs m = None \<and> em_maxLatencyMs m = None
      else em_lastLatencyMs m = Some (last xs) \<and>
           em_averageLatencyMs m = Some (of_int (sum_list xs) / of_nat (length xs)) \<and>
           em_minLatencyMs m = Some (Min (set xs)) \<and> em_maxLatencyMs m = Some (Max (set xs)))"

definition state_ok :: "nat \<Rightarrow> RpcEndpointStatus \<Rightarrow> bool" where
  "state_ok threshold st \<longleftrightarrow> (let m = es_metrics st in
     if em_totalChecks m = 0 then es_state st = HUnknown \<and> \<not> es_available st
     else if em_consecutiveFailures m = 0
     then es_state st \<noteq> HUnknown \<and> es_available st = (es_state st \<noteq> HUnhealthy) \<and> es_error st = None
     else es_state st = (if threshold \<le> em_consecutiveFailures m then HUnhealthy else HDegraded) \<and>
          \<not> es_available st \<and> es_response st = None)"

definition endpoint_ok :: "nat \<Rightarrow> InternalEndpoint \<Rightarrow> bool" where
  "endpoint_ok threshold e \<longleftrightarrow> (let st = ie_status e; m = es_metrics st in
     es_id st = ie_id e \<and> es_url st = ie_url e \<and>
     em_totalChecks m = em_successfulChecks m + em_failedChecks m \<and>
     em_consecutiveFailures m \<le> em_failedChecks m \<and>
     em_successfulChecks m = length (ie_latencySamples e) \<and>
     em_availabilityPercentage m = percentage (em_successfulChecks m) (em_totalChecks m) \<and>
     sample_metrics_ok (ie_latencySamples e) m \<and> state_ok threshold st)"

lemma foldl_plus: "foldl (+) (a :: int) xs = a + sum_list xs"
  by (induction xs arbitrary: a) (auto simp: add.assoc)

lemma endpoint_ok_new: "endpoint_ok t (newEndpoint e)"
  by (simp add: endpoint_ok_def newEndpoint_def createDefaultMetrics_def sample_metrics_ok_def
      state_ok_def percentage_def Let_def)

lemma endpoint_ok_success:
  "endpoint_ok t e \<Longrightarrow> st \<noteq> HUnknown \<Longrightarrow> endpoint_ok t (recordSuccess now l st r e)"
  by (cases "ie_latencySamples e = []")
     (auto simp: endpoint_ok_def recordSuccess_def Let_def sample_metrics_ok_def state_ok_def
       foldl_plus min.commute max.commute)

lemma endpoint_ok_failure: "endpoint_ok t e \<Longrightarrow> endpoint_ok t (recordFailure t now er e)"
  by (auto simp: endpoint_ok_def recordFailure_def Let_def sample_metrics_ok_def state_ok_def
      split: if_splits)

lemma endpoint_ok_check:
  "endpoint_ok (hm_unhealthyAfterFailures s) e \<Longrightarrow>
    endpoint_ok (hm_unhealthyAfterFailures s) (checkEndpoint s t now out e)"
  by (cases out) (auto simp: checkEndpoint_def Let_def response_state_def endpoint_ok_failure
      intro!: endpoint_ok_success split: option.split)

lemma check_total: "em_totalChecks (es_metrics (ie_status (checkEndpoint s t now out e))) =
    em_totalChecks (es_metrics (ie_status e)) + 1"
  by (cases out) (auto simp: checkEndpoint_def recordSuccess_def recordFailure_def Let_def)

section \<open>The monitor\<close>

definition hm_total :: "RpcHealthMonitor \<Rightarrow> nat \<Rightarrow> nat" where
  "hm_total s i = em_totalChecks (es_metrics (ie_status (hm_endpoints s ! i)))"

definition hm_waiting :: "RpcHealthMonitor \<Rightarrow> nat list" where
  "hm_waiting s = (case hm_round s of None \<Rightarrow> [] | Some (_, w) \<Rightarrow> w)"

text \<open>
  In round number \<open>r\<close> an endpoint has been checked \<open>r\<close> times, or \<open>r - 1\<close> times while its call
  is open.
\<close>

definition hm_ok :: "RpcHealthMonitor \<Rightarrow> bool" where
  "hm_ok s \<longleftrightarrow> hm_endpoints s \<noteq> [] \<and>
     list_all (endpoint_ok (hm_unhealthyAfterFailures s)) (hm_endpoints s) \<and>
     set (hm_waiting s) \<subseteq> {..<length (hm_endpoints s)} \<and>
     (hm_round s = None \<longleftrightarrow> hm_waiting s = []) \<and>
     (\<exists>r. \<forall>i < length (hm_endpoints s). hm_total s i + (if i \<in> set (hm_waiting s) then 1 else 0) = r)"

lemma hm_ok_run_checks: "hm_ok s \<Longrightarrow> hm_ok (hm_runHealthChecks now s)"
proof (cases "hm_round s")
  case None
  assume s: "hm_ok s"
  then obtain r where "\<forall>i < length (hm_endpoints s). hm_total s i = r"
    using None by (auto simp: hm_ok_def hm_waiting_def)
  then show ?thesis using s None
    by (auto simp: hm_ok_def hm_runHealthChecks_def hm_waiting_def hm_total_def intro!: exI [of _ "r + 1"])
next
  case (Some p)
  then show "hm_ok s \<Longrightarrow> hm_ok (hm_runHealthChecks now s)" by (simp add: hm_runHealthChecks_def)
qed

lemma hm_ok_running: "hm_ok (s\<lparr>hm_running := b\<rparr>) = hm_ok s"
  by (simp add: hm_ok_def hm_waiting_def hm_total_def)

lemma hm_ok_outcome: "hm_ok s \<Longrightarrow> hm_ok (hm_outcome i out now s)"
proof (cases "i \<in> set (hm_waiting s)")
  case False
  assume "hm_ok s"
  then show ?thesis using False by (auto simp: hm_outcome_def hm_waiting_def split: option.split)
next
  case True
  assume s: "hm_ok s"
  obtain t w where w: "hm_round s = Some (t, w)" "i \<in> set w"
    using True by (cases "hm_round s") (auto simp: hm_waiting_def)
  have i: "i < length (hm_endpoints s)" using s w by (auto simp: hm_ok_def hm_waiting_def)
  obtain r where r: "\<And>j. j < length (hm_endpoints s) \<Longrightarrow> hm_total s j + (if j \<in> set w then 1 else 0) = r"
    using s w by (auto simp: hm_ok_def hm_waiting_def)
  let ?s = "hm_outcome i out now s"
  have e: "hm_endpoints ?s = (hm_endpoints s)[i := checkEndpoint s t now out (hm_endpoints s ! i)]"
    "hm_waiting ?s = removeAll i w" "hm_unhealthyAfterFailures ?s = hm_unhealthyAfterFailures s"
    "hm_round ?s = None \<longleftrightarrow> removeAll i w = []"
    using w by (auto simp: hm_outcome_def hm_waiting_def)
  have "endpoint_ok (hm_unhealthyAfterFailures s) (hm_endpoints s ! i)"
    using s i by (simp add: hm_ok_def list_all_length)
  then have a: "list_all (endpoint_ok (hm_unhealthyAfterFailures s)) (hm_endpoints ?s)"
    using s i endpoint_ok_check by (auto simp: e(1) hm_ok_def list_all_length nth_list_update)
  have b: "hm_total ?s j + (if j \<in> set (hm_waiting ?s) then 1 else 0) = r"
    if "j < length (hm_endpoints ?s)" for j
    using r [of j] that i w by (cases "j = i") (auto simp: hm_total_def e check_total)
  have ne: "hm_endpoints ?s \<noteq> []" using i e(1) by (metis length_greater_0_conv length_list_update less_zeroE list.size(3) not_gr_zero)
  have sub: "set (hm_waiting ?s) \<subseteq> {..<length (hm_endpoints ?s)}"
    using s w by (auto simp: hm_ok_def e hm_waiting_def [of s])
  have ex: "\<exists>r. \<forall>j < length (hm_endpoints ?s).
      hm_total ?s j + (if j \<in> set (hm_waiting ?s) then 1 else 0) = r"
    using b by blast
  show ?thesis unfolding hm_ok_def using ne a sub ex by (simp only: e(2-4)) simp
qed

lemma hm_ok_step: "hm_ok s \<Longrightarrow> hm_ok (hm_step s e)"
  by (cases e) (auto simp: hm_start_def hm_stop_def hm_tick_def hm_ok_running
      hm_ok_run_checks hm_ok_outcome)

lemma hm_ok_base: "mc_endpoints c \<noteq> [] \<Longrightarrow> hm_ok (hm_base c)"
  by (simp add: hm_ok_def hm_base_def hm_waiting_def hm_total_def newEndpoint_def
      createDefaultMetrics_def Let_def list_all_iff endpoint_ok_new [unfolded newEndpoint_def Let_def
        createDefaultMetrics_def])

lemma hm_ok_new: "newRpcHealthMonitor now c = Inr s \<Longrightarrow> hm_ok s"
  by (auto simp: newRpcHealthMonitor_def hm_start_def hm_ok_base hm_ok_running hm_ok_run_checks
      split: if_splits)


text \<open>
  The monitor as a machine that keeps the invariant, for any configuration that the constructor
  accepts.
\<close>

definition hm_boot :: "RpcHealthMonitorConfig \<Rightarrow> RpcHealthMonitor" where
  "hm_boot c = hm_base (if mc_endpoints c = []
     then c\<lparr>mc_endpoints := [\<lparr>ec_id = None, ec_url = [], ec_network = None, ec_allowHttp = None\<rparr>]\<rparr>
     else c)"

interpretation health_machine: invariant_machine hm_ok hm_step "hm_boot c"
  by unfold_locales (auto simp: hm_ok_step hm_boot_def intro!: hm_ok_base)

lemma hm_ok_reached: "newRpcHealthMonitor now c = Inr s0 \<Longrightarrow> hm_ok (hm_run es s0)"
  unfolding hm_run_def by (rule health_machine.inv_steps [OF hm_ok_new])

section \<open>Properties\<close>




definition demo_health :: RpcHealthMonitorConfig where
  "demo_health = \<lparr>mc_endpoints = [\<lparr>ec_id = None, ec_url = ''u'', ec_network = None, ec_allowHttp = None\<rparr>],
     mc_intervalMs = None, mc_timeoutMs = None, mc_degradedLatencyMs = None,
     mc_unhealthyAfterFailures = None, mc_autoStart = False\<rparr>"

definition demo_round :: "health_outcome \<Rightarrow> hm_event list" where
  "demo_round out = [HRun 100, HEnd 0 out 103]"

lemma demo_health_new: "newRpcHealthMonitor 0 demo_health = Inr (hm_base demo_health)"
  by (simp add: newRpcHealthMonitor_def demo_health_def)

lemmas demo_health_simps = demo_health_def demo_round_def hm_run_def hm_base_def newEndpoint_def
  or_default_def createDefaultMetrics_def hm_runHealthChecks_def hm_outcome_def checkEndpoint_def
  recordSuccess_def recordFailure_def response_state_def Let_def



text \<open>
  Rounds never overlap: at any time every endpoint has been checked equally often, but for the
  one call per endpoint that the current round may still wait for; when no round is open the
  counts are equal.
\<close>

theorem health_rounds_never_overlap:
  assumes "newRpcHealthMonitor now c = Inr s0" and "s = hm_run es s0"
  shows "\<exists>r. \<forall>i < length (hm_endpoints s).
           hm_total s i + (if i \<in> set (hm_waiting s) then 1 else 0) = r"
  using hm_ok_reached [OF assms(1), of es] assms(2) by (simp add: hm_ok_def)

theorem health_rounds_never_overlap_witness:
  "\<exists>r. \<forall>i < length (hm_endpoints (hm_run [HRun 1, HRun 2] (hm_base demo_health))).
     hm_total (hm_run [HRun 1, HRun 2] (hm_base demo_health)) i +
     (if i \<in> set (hm_waiting (hm_run [HRun 1, HRun 2] (hm_base demo_health))) then 1 else 0) = r"
  by (rule health_rounds_never_overlap [OF demo_health_new refl])

lemma foldl_summary:
  fixes a :: RpcHealthSummary
  shows "let b = foldl summarize a es in
     hs_total b = hs_total a + length es \<and>
     hs_healthy b = hs_healthy a + length (filter (\<lambda>e. es_state e = HHealthy) es) \<and>
     hs_degraded b = hs_degraded a + length (filter (\<lambda>e. es_state e = HDegraded) es) \<and>
     hs_unhealthy b = hs_unhealthy a + length (filter (\<lambda>e. es_state e = HUnhealthy) es) \<and>
     hs_unknown b = hs_unknown a + length (filter (\<lambda>e. es_state e = HUnknown) es) \<and>
     hs_available b = hs_available a + length (filter es_available es)"
proof (induction es arbitrary: a)
  case (Cons e es)
  show ?case using Cons [of "summarize a e"]
    by (cases "es_state e") (auto simp: summarize_def Let_def)
qed simp

lemma state_partition:
  "length es = length (filter (\<lambda>e. es_state e = HHealthy) es) +
     length (filter (\<lambda>e. es_state e = HDegraded) es) +
     length (filter (\<lambda>e. es_state e = HUnhealthy) es) +
     length (filter (\<lambda>e. es_state e = HUnknown) es)"
proof (induction es)
  case (Cons e es)
  then show ?case by (cases "es_state e") auto
qed simp

lemma available_states:
  "list_all (\<lambda>e. es_available e \<longrightarrow> es_state e = HHealthy \<or> es_state e = HDegraded) es \<Longrightarrow>
    length (filter es_available es) \<le> length (filter (\<lambda>e. es_state e = HHealthy) es) +
      length (filter (\<lambda>e. es_state e = HDegraded) es)"
  by (induction es) auto

text \<open>
  The report counts every endpoint once: its total is the number of endpoints and the sum of
  the four states, and only healthy or degraded endpoints are counted as available.
\<close>

theorem health_report_adds_up:
  assumes "newRpcHealthMonitor now c = Inr s0" and "s = hm_run es s0"
    and "y = rr_summary (hm_getHealthReport later s)"
  shows "hs_total y = length (hm_endpoints s) \<and>
         hs_total y = hs_healthy y + hs_degraded y + hs_unhealthy y + hs_unknown y \<and>
         hs_available y \<le> hs_healthy y + hs_degraded y"
proof -
  have ok: "hm_ok s" using hm_ok_reached [OF assms(1)] assms(2) by simp
  have st: "es_available (ie_status e) \<Longrightarrow>
      es_state (ie_status e) = HHealthy \<or> es_state (ie_status e) = HDegraded"
    if "endpoint_ok t e" for e t
    using that by (cases "es_state (ie_status e)")
      (auto simp: endpoint_ok_def state_ok_def Let_def split: if_splits)
  have av: "list_all (\<lambda>e. es_available e \<longrightarrow> es_state e = HHealthy \<or> es_state e = HDegraded)
      (hm_getEndpointStatuses s)"
    using ok st by (auto simp: hm_ok_def hm_getEndpointStatuses_def list_all_iff)
  show ?thesis
    using foldl_summary [of "\<lparr>hs_total = 0, hs_healthy = 0, hs_degraded = 0,
        hs_unhealthy = 0, hs_unknown = 0, hs_available = 0\<rparr>" "hm_getEndpointStatuses s"]
      state_partition [of "hm_getEndpointStatuses s"] available_states [OF av]
    by (simp add: assms(3) hm_getHealthReport_def Let_def) (simp add: hm_getEndpointStatuses_def)
qed


theorem health_report_adds_up_witness:
  "hs_total (rr_summary (hm_getHealthReport 9 (hm_run (demo_round HTimeout) (hm_base demo_health)))) = 1"
proof -
  have "length (hm_endpoints (hm_run (demo_round HTimeout) (hm_base demo_health))) = 1"
    by (simp add: demo_health_simps)
  then show ?thesis using health_report_adds_up [OF demo_health_new refl refl] by simp
qed

text \<open>
  An endpoint that answers but reports another status than healthy is recorded as a successful
  check: a single such answer makes it unhealthy at once, whatever
  \<open>unhealthyAfterFailures\<close> is, without counting as a failure.
\<close>

theorem unhealthy_answer_counts_as_success:
  "let s = hm_run (demo_round (HResponse \<lparr>hr_status = Some ''down'', hr_version = None\<rparr>)) (hm_base demo_health);
       st = ie_status (hm_endpoints s ! 0)
   in es_state st = HUnhealthy \<and> \<not> es_available st \<and> em_successfulChecks (es_metrics st) = 1 \<and>
      em_failedChecks (es_metrics st) = 0 \<and> em_availabilityPercentage (es_metrics st) = 100"
  by (simp add: demo_health_simps js_lower_def lower_char_def percentage_def)

end
