(* ===== verification/FeeBuffer.thy ===== *)
theory FeeBuffer
  imports Session Complex_Main
begin

text \<open>
  The fee buffer of the RPC client (\<open>src/src/client/stellarClient.ts\<close>: \<open>toFraction\<close>,
  \<open>multiplyAndCeil\<close>, \<open>applyFeeBuffer\<close> and the constructor's checks of its two options). The
  multiplier is a JavaScript number that the code turns into a fraction of two big integers by
  way of its decimal text, so that fees are scaled without rounding errors. A number is what the
  code reads of it: whether it is finite, its value, and the texts that \<open>toString()\<close> and
  \<open>toFixed(12)\<close> give. The Stellar SDK's transaction is the fee it carries and, for a Soroban
  transaction, the resources and the resource fee; what \<open>cloneFrom\<close> is called with is the
  result.
\<close>

section \<open>Numbers and their decimal text\<close>

record js_number =
  nm_finite :: bool
  nm_value :: rat
  nm_text :: string
  nm_fixed12 :: string

text \<open>\<open>replace(/0+$/, "")\<close> and \<open>replace(/\.$/, "")\<close>\<close>

definition strip_zeros :: "string \<Rightarrow> string" where
  "strip_zeros s = rev (dropWhile (\<lambda>c. c = CHR ''0'') (rev s))"

definition strip_dot :: "string \<Rightarrow> string" where
  "strip_dot s = (case rev s of [] \<Rightarrow> [] | c # r \<Rightarrow> if c = CHR ''.'' then rev r else s)"

definition decimal_string :: "js_number \<Rightarrow> string" where
  "decimal_string m = (if CHR ''e'' \<in> set (nm_text m) then strip_dot (strip_zeros (nm_fixed12 m))
                       else nm_text m)"

text \<open>\<open>const [wholePart, fractionalPart = ""] = s.split(".")\<close>\<close>

definition split_dot :: "string \<Rightarrow> string \<times> string" where
  "split_dot s = (takeWhile (\<lambda>c. c \<noteq> CHR ''.'') s,
     case dropWhile (\<lambda>c. c \<noteq> CHR ''.'') s of [] \<Rightarrow> [] | _ # r \<Rightarrow> takeWhile (\<lambda>c. c \<noteq> CHR ''.'') r)"

definition toFraction :: "js_number \<Rightarrow> thrown + int \<times> int" where
  "toFraction m =
    (if \<not> nm_finite m \<or> nm_value m < 0
     then Inl (validationError ''feeBufferMultiplier must be a finite number greater than or equal to 0'')
     else
       let (w, f) = split_dot (decimal_string m) in
       if w = [] \<or> \<not> list_all is_digit w \<or> \<not> list_all is_digit f
       then Inl (validationError ''feeBufferMultiplier must be a valid decimal number'')
       else let denominator = (10 :: int) ^ length f in
            Inr (int (str_nat (w @ f)), if denominator = 0 then 1 else denominator))"

definition multiplyAndCeil :: "int \<Rightarrow> js_number \<Rightarrow> thrown + int" where
  "multiplyAndCeil v m =
    (if v < 0 then Inl (validationError ''Cannot buffer a non-finite or negative resource value'')
     else (case toFraction m of
             Inl e \<Rightarrow> Inl e
           | Inr (n, d) \<Rightarrow> Inr ((v * n + (d - 1)) div d)))"

section \<open>The buffer\<close>

record SorobanData =
  sd_instructions :: int
  sd_diskReadBytes :: int
  sd_writeBytes :: int
  sd_resourceFee :: int

record SorobanTx =
  st_fee :: int
  st_sorobanData :: "SorobanData option"

text \<open>The options of the client that govern fees, as the constructor checks them.\<close>

record FeeOptions =
  fo_multiplier :: js_number
  fo_maxFeeLimit :: "int option"

definition DEFAULT_FEE_BUFFER_MULTIPLIER :: js_number where
  "DEFAULT_FEE_BUFFER_MULTIPLIER =
     \<lparr>nm_finite = True, nm_value = 115 / 100, nm_text = ''1.15'', nm_fixed12 = ''1.150000000000''\<rparr>"

text \<open>\<open>limit\<close> is the number given for \<open>maxFeeLimit\<close>: \<open>None\<close> when it is no integer.\<close>

definition newFeeOptions :: "js_number option \<Rightarrow> int option option \<Rightarrow> thrown + FeeOptions" where
  "newFeeOptions mult limit =
    (let m = (case mult of None \<Rightarrow> DEFAULT_FEE_BUFFER_MULTIPLIER | Some x \<Rightarrow> x) in
     if \<not> nm_finite m \<or> nm_value m < 1
     then Inl (validationError ''feeBufferMultiplier must be a finite number greater than or equal to 1'')
     else
       case limit of
         None \<Rightarrow> Inr \<lparr>fo_multiplier = m, fo_maxFeeLimit = None\<rparr>
       | Some l \<Rightarrow>
          (case l of
             None \<Rightarrow> Inl (validationError ''maxFeeLimit must be a positive integer'')
           | Some n \<Rightarrow> if n \<le> 0 then Inl (validationError ''maxFeeLimit must be a positive integer'')
                       else Inr \<lparr>fo_multiplier = m, fo_maxFeeLimit = Some n\<rparr>))"

text \<open>The transaction as it is, or rebuilt with a base fee and the buffered data.\<close>

datatype buffered_tx = Unchanged | Rebuilt int SorobanData

definition above_limit :: "FeeOptions \<Rightarrow> int \<Rightarrow> int \<Rightarrow> thrown option" where
  "above_limit opts simulatedTotal bufferedTotal =
    (case fo_maxFeeLimit opts of None \<Rightarrow> None
     | Some l \<Rightarrow>
        if l < simulatedTotal
        then Some (validationError (''maxFeeLimit ('' @ int_str l @
               '') is below the simulated minimum fee ('' @ int_str simulatedTotal @ '')''))
        else if l < bufferedTotal
        then Some (validationError (''Buffered fee ('' @ int_str bufferedTotal @
               '') exceeds maxFeeLimit ('' @ int_str l @ '')''))
        else None)"

text \<open>The scaled values in the order they are computed; the first that raises ends the call.\<close>

fun scale_all :: "js_number \<Rightarrow> int list \<Rightarrow> thrown + int list" where
  "scale_all m [] = Inr []"
| "scale_all m (v # vs) =
    (case multiplyAndCeil v m of Inl e \<Rightarrow> Inl e
     | Inr x \<Rightarrow> (case scale_all m vs of Inl e \<Rightarrow> Inl e | Inr xs \<Rightarrow> Inr (x # xs)))"

definition applyFeeBuffer :: "FeeOptions \<Rightarrow> SorobanTx \<Rightarrow> thrown + buffered_tx" where
  "applyFeeBuffer opts tx =
    (case st_sorobanData tx of
       None \<Rightarrow> Inr Unchanged
     | Some d \<Rightarrow>
       let m = fo_multiplier opts;
           resourceFee = sd_resourceFee d;
           totalFee = st_fee tx;
           baseFee = (if totalFee > resourceFee then totalFee - resourceFee else 0)
       in case scale_all m [resourceFee, baseFee] of
            Inl e \<Rightarrow> Inl e
          | Inr fees \<Rightarrow>
            (let bufferedResourceFee = fees ! 0; bufferedBaseFee = fees ! 1 in
             case above_limit opts totalFee (bufferedBaseFee + bufferedResourceFee) of
               Some e \<Rightarrow> Inl e
             | None \<Rightarrow>
               (case scale_all m [sd_instructions d, sd_diskReadBytes d, sd_writeBytes d] of
                  Inl e \<Rightarrow> Inl e
                | Inr rs \<Rightarrow> Inr (Rebuilt bufferedBaseFee
                    \<lparr>sd_instructions = rs ! 0, sd_diskReadBytes = rs ! 1, sd_writeBytes = rs ! 2,
                     sd_resourceFee = bufferedResourceFee\<rparr>))))"

section \<open>Decimal text\<close>

text \<open>
  What \<open>Number.prototype.toString\<close> documents for a number that is not negative and
  needs no exponent: digits, and after a dot the digits of the fraction, if there is one.
\<close>

definition decimal_value :: "string \<Rightarrow> string \<Rightarrow> rat" where
  "decimal_value w f = of_nat (str_nat w) + of_nat (str_nat f) / 10 ^ length f"

definition plain_decimal :: "js_number \<Rightarrow> string \<Rightarrow> string \<Rightarrow> bool" where
  "plain_decimal m w f \<longleftrightarrow> nm_finite m \<and> w \<noteq> [] \<and> list_all is_digit w \<and> list_all is_digit f \<and>
     nm_text m = (if f = [] then w else w @ ''.'' @ f) \<and> nm_value m = decimal_value w f"

lemma str_nat_append: "str_nat (a @ b) = str_nat a * 10 ^ length b + str_nat b"
proof (induction b rule: rev_induct)
  case Nil
  show ?case by (simp add: str_nat_def)
next
  case (snoc c b)
  then show ?case
    using str_nat_snoc [of "a @ b" c] str_nat_snoc [of b c] by (simp add: algebra_simps)
qed

lemma digit_not: "is_digit c \<Longrightarrow> c \<noteq> CHR ''e'' \<and> c \<noteq> CHR ''.''"
  by (auto simp: is_digit_def)

lemma split_plain:
  assumes "list_all is_digit w" and "list_all is_digit f"
  shows "split_dot (if f = [] then w else w @ ''.'' @ f) = (w, f)"
proof -
  have n: "c \<in> set w \<Longrightarrow> c \<noteq> CHR ''.''" "c \<in> set f \<Longrightarrow> c \<noteq> CHR ''.''" for c
    using assms digit_not by (auto simp: list_all_iff)
  have tw: "takeWhile (\<lambda>c. c \<noteq> CHR ''.'') w = w" and dw: "dropWhile (\<lambda>c. c \<noteq> CHR ''.'') w = []"
    and tf: "takeWhile (\<lambda>c. c \<noteq> CHR ''.'') f = f"
    unfolding takeWhile_eq_all_conv dropWhile_eq_Nil_conv using n by blast+
  have "takeWhile (\<lambda>c. c \<noteq> CHR ''.'') (w @ ''.'' @ f) = w"
    "dropWhile (\<lambda>c. c \<noteq> CHR ''.'') (w @ ''.'' @ f) = ''.'' @ f"
    using n by (auto simp: takeWhile_append2 dropWhile_append2)
  then show ?thesis using tf
    by (cases "f = []") (simp_all only: split_dot_def tw dw refl if_True if_False list.case append.simps)
qed

lemma toFraction_plain:
  assumes "plain_decimal m w f"
  shows "toFraction m = Inr (int (str_nat (w @ f)), 10 ^ length f)"
proof -
  have d: "list_all is_digit w" "list_all is_digit f" "w \<noteq> []" "nm_finite m"
    and t: "nm_text m = (if f = [] then w else w @ ''.'' @ f)"
    using assms by (auto simp: plain_decimal_def)
  have "0 \<le> nm_value m" using assms by (simp add: plain_decimal_def decimal_value_def)
  moreover have "CHR ''e'' \<notin> set (nm_text m)"
    using d digit_not by (auto simp: t list_all_iff)
  ultimately show ?thesis
    using d split_plain [OF d(1,2)] by (simp add: toFraction_def decimal_string_def t Let_def)
qed

lemma fraction_value:
  "(of_int (int (str_nat (w @ f))) :: rat) / of_int (10 ^ length f) = decimal_value w f"
  by (simp add: str_nat_append decimal_value_def field_simps)

lemma ceil_div: "0 < d \<Longrightarrow> (a + (d - 1)) div d = \<lceil>(of_int a :: rat) / of_int d\<rceil>"
proof -
  assume d: "0 < d"
  let ?k = "(a + (d - 1)) div d"
  have m: "?k * d = a + (d - 1) - (a + (d - 1)) mod d" by (simp add: minus_mod_eq_div_mult)
  have b: "0 \<le> (a + (d - 1)) mod d" "(a + (d - 1)) mod d < d" using d by simp_all
  have "a \<le> ?k * d" and "(?k - 1) * d < a" using m b by (auto simp: left_diff_distrib)
  then have i: "(of_int a :: rat) \<le> of_int (?k * d)" "(of_int ((?k - 1) * d) :: rat) < of_int a"
    by (simp_all only: of_int_le_iff of_int_less_iff)
  have "\<lceil>(of_int a :: rat) / of_int d\<rceil> = ?k"
    using i d by (intro ceiling_unique) (simp_all add: pos_divide_le_eq pos_less_divide_eq)
  then show ?thesis by simp
qed

section \<open>Properties\<close>

text \<open>
  Scaling is exact: for a number with a plain decimal text the result is the value times the
  number that the text denotes, rounded up to the next integer, computed without rounding
  errors on the way; a negative value is refused.
\<close>

theorem multiplyAndCeil_exact:
  assumes "plain_decimal m w f"
  shows "if v < 0 then \<exists>msg. multiplyAndCeil v m = Inl (validationError msg)
         else multiplyAndCeil v m = Inr \<lceil>of_int v * nm_value m\<rceil>"
proof -
  have v: "nm_value m = decimal_value w f" using assms by (simp add: plain_decimal_def)
  have "(v * int (str_nat (w @ f)) + (10 ^ length f - 1)) div 10 ^ length f =
      \<lceil>of_int v * nm_value m\<rceil>"
    using ceil_div [of "10 ^ length f" "v * int (str_nat (w @ f))"] fraction_value [of w f]
    by (simp add: v flip: times_divide_eq_right)
  then show ?thesis using toFraction_plain [OF assms] by (auto simp: multiplyAndCeil_def)
qed

lemma default_plain: "plain_decimal DEFAULT_FEE_BUFFER_MULTIPLIER ''1'' ''15''"
  by (simp add: plain_decimal_def DEFAULT_FEE_BUFFER_MULTIPLIER_def decimal_value_def is_digit_def
      str_nat_def)

theorem multiplyAndCeil_exact_witness:
  "multiplyAndCeil 7 DEFAULT_FEE_BUFFER_MULTIPLIER = Inr 9"
proof -
  have "\<lceil>of_int 7 * nm_value DEFAULT_FEE_BUFFER_MULTIPLIER\<rceil> = 9"
    by (intro ceiling_unique) (simp_all add: DEFAULT_FEE_BUFFER_MULTIPLIER_def)
  then show ?thesis using multiplyAndCeil_exact [OF default_plain, of 7] by simp
qed

lemma newFeeOptions_ok:
  "newFeeOptions mult limit = Inr opts \<Longrightarrow>
    1 \<le> nm_value (fo_multiplier opts) \<and> (case fo_maxFeeLimit opts of None \<Rightarrow> True | Some l \<Rightarrow> 0 < l)"
  by (auto simp: newFeeOptions_def Let_def split: if_splits option.splits)

lemma scaled_le: "plain_decimal m w f \<Longrightarrow> 1 \<le> nm_value m \<Longrightarrow> multiplyAndCeil v m = Inr x \<Longrightarrow> v \<le> x"
proof -
  assume m: "plain_decimal m w f" "1 \<le> nm_value m" and x: "multiplyAndCeil v m = Inr x"
  have v: "0 \<le> v" using x by (auto simp: multiplyAndCeil_def split: if_splits)
  then have "x = \<lceil>of_int v * nm_value m\<rceil>" using multiplyAndCeil_exact [OF m(1), of v] x by simp
  moreover have "(of_int v :: rat) \<le> of_int v * nm_value m"
    using mult_left_mono [OF m(2), of "of_int v"] v by simp
  ultimately show ?thesis by (simp add: le_ceiling_iff ceiling_mono [THEN order_trans [rotated]])
qed

lemma scale_all_Inr: "scale_all m vs = Inr xs \<Longrightarrow>
    length xs = length vs \<and> list_all2 (\<lambda>v x. multiplyAndCeil v m = Inr x) vs xs"
  by (induction vs arbitrary: xs) (auto split: sum.splits)

lemma scale_all_Inl: "scale_all m vs = Inl e \<Longrightarrow> \<exists>v \<in> set vs. multiplyAndCeil v m = Inl e"
  by (induction vs) (auto split: sum.splits)

lemma scale_refused: "plain_decimal m w f \<Longrightarrow> multiplyAndCeil v m = Inl e \<Longrightarrow>
    v < 0 \<and> (\<exists>msg. e = validationError msg)"
  by (auto simp: multiplyAndCeil_def toFraction_plain split: if_splits)

text \<open>C25. 
  A buffered transaction has room: with options the constructor accepted, every resource and the
  resource fee are at least what was simulated, so is the total fee, and the total never exceeds
  the limit if one is set; a limit below the simulated fee is refused.
\<close>

theorem fee_buffer_bounds:
  assumes "newFeeOptions mult limit = Inr opts" and "plain_decimal (fo_multiplier opts) w f"
    and "st_sorobanData tx = Some d" and "0 \<le> sd_resourceFee d" and "0 \<le> st_fee tx"
  shows "case applyFeeBuffer opts tx of
           Inr (Rebuilt base b) \<Rightarrow>
             sd_instructions d \<le> sd_instructions b \<and> sd_diskReadBytes d \<le> sd_diskReadBytes b \<and>
             sd_writeBytes d \<le> sd_writeBytes b \<and> sd_resourceFee d \<le> sd_resourceFee b \<and>
             st_fee tx \<le> base + sd_resourceFee b \<and>
             (case fo_maxFeeLimit opts of None \<Rightarrow> True | Some l \<Rightarrow> base + sd_resourceFee b \<le> l)
         | Inr Unchanged \<Rightarrow> False
         | Inl e \<Rightarrow> (\<exists>msg. e = validationError msg) \<and>
             (fo_maxFeeLimit opts \<noteq> None \<or> sd_instructions d < 0 \<or> sd_diskReadBytes d < 0 \<or>
              sd_writeBytes d < 0)"
proof -
  let ?m = "fo_multiplier opts"
  have m1: "1 \<le> nm_value ?m" using newFeeOptions_ok [OF assms(1)] by simp
  note le = scaled_le [OF assms(2) m1]
  let ?base = "if st_fee tx > sd_resourceFee d then st_fee tx - sd_resourceFee d else 0"
  have "0 \<le> ?base" by simp
  obtain rf bf where rf: "multiplyAndCeil (sd_resourceFee d) ?m = Inr rf"
    and bf: "multiplyAndCeil ?base ?m = Inr bf"
    using multiplyAndCeil_exact [OF assms(2), of "sd_resourceFee d"]
      multiplyAndCeil_exact [OF assms(2), of ?base] assms(4) \<open>0 \<le> ?base\<close>
    by (simp only: if_False linorder_not_less [THEN iffD2])
  have fees: "scale_all ?m [sd_resourceFee d, ?base] = Inr [rf, bf]"
    using rf bf by simp
  have ge: "sd_resourceFee d \<le> rf" "st_fee tx \<le> bf + rf"
    using le [OF rf] le [OF bf] by (auto split: if_splits)
  show ?thesis
  proof (cases "above_limit opts (st_fee tx) (bf + rf)")
    case (Some e)
    then have "(\<exists>msg. e = validationError msg) \<and> fo_maxFeeLimit opts \<noteq> None"
      by (auto simp: above_limit_def split: option.splits if_splits)
    then show ?thesis using fees Some by (simp add: applyFeeBuffer_def assms(3) Let_def)
  next
    case None
    then have lim: "case fo_maxFeeLimit opts of None \<Rightarrow> True | Some l \<Rightarrow> bf + rf \<le> l"
      by (auto simp: above_limit_def split: option.splits if_splits)
    show ?thesis
    proof (cases "scale_all ?m [sd_instructions d, sd_diskReadBytes d, sd_writeBytes d]")
      case (Inl e)
      then have "(\<exists>msg. e = validationError msg) \<and> (sd_instructions d < 0 \<or> sd_diskReadBytes d < 0 \<or>
          sd_writeBytes d < 0)"
        using scale_all_Inl [OF Inl] scale_refused [OF assms(2)] by fastforce
      then show ?thesis using fees None Inl by (simp add: applyFeeBuffer_def assms(3) Let_def)
    next
      case (Inr rs)
      then obtain a b c where rs: "rs = [a, b, c]"
        "multiplyAndCeil (sd_instructions d) ?m = Inr a" "multiplyAndCeil (sd_diskReadBytes d) ?m = Inr b"
        "multiplyAndCeil (sd_writeBytes d) ?m = Inr c"
        by (auto split: sum.splits)
      show ?thesis using fees None Inr le [OF rs(2)] le [OF rs(3)] le [OF rs(4)] ge lim
        by (cases "fo_maxFeeLimit opts") (simp_all add: applyFeeBuffer_def assms(3) Let_def rs(1))
    qed
  qed
qed

definition demo_tx :: SorobanTx where
  "demo_tx = \<lparr>st_fee = 150, st_sorobanData = Some \<lparr>sd_instructions = 10, sd_diskReadBytes = 20,
     sd_writeBytes = 30, sd_resourceFee = 100\<rparr>\<rparr>"

lemma demo_options: "newFeeOptions None (Some (Some 100)) =
    Inr \<lparr>fo_multiplier = DEFAULT_FEE_BUFFER_MULTIPLIER, fo_maxFeeLimit = Some 100\<rparr>"
  by (simp add: newFeeOptions_def DEFAULT_FEE_BUFFER_MULTIPLIER_def)

theorem fee_buffer_bounds_witness:
  "applyFeeBuffer \<lparr>fo_multiplier = DEFAULT_FEE_BUFFER_MULTIPLIER, fo_maxFeeLimit = Some 100\<rparr> demo_tx \<noteq>
     Inr Unchanged"
  using fee_buffer_bounds [where mult = None and limit = "Some (Some 100)" and tx = demo_tx
      and opts = "\<lparr>fo_multiplier = DEFAULT_FEE_BUFFER_MULTIPLIER, fo_maxFeeLimit = Some 100\<rparr>"
      and w = "''1''" and f = "''15''"]
  by (cases "applyFeeBuffer \<lparr>fo_multiplier = DEFAULT_FEE_BUFFER_MULTIPLIER, fo_maxFeeLimit = Some 100\<rparr> demo_tx")
     (auto simp: demo_tx_def default_plain demo_options)

end
