(* ===== verification/EventPaging.thy ===== *)
theory EventPaging
  imports Errors
begin

text \<open>
  Fetching the events of a contract over a range of ledgers
  (\<open>src/src/client/stellarClient.ts\<close>: \<open>getContractEvents\<close> and what it calls). The loop follows
  paging tokens, and when the server refuses a range as too large it fetches the two halves
  instead. The server, behind \<open>retry\<close>, is the parameter \<open>srv\<close>: a function from the request to a
  response or an error, so its answers do not change while a fetch runs. Decoding one base64 value is
  the Stellar SDK's and the parameter \<open>dec\<close>, \<open>None\<close> when it throws. Nothing bounds the loop but the
  server's tokens, so it runs on fuel; enough fuel is stated where a result is claimed.
\<close>

section \<open>Requests and responses\<close>

record EventsParams =
  ep_contractId :: string
  ep_topicFilters :: "string list list option"
  ep_startLedger :: int
  ep_endLedger :: int
  ep_limit :: "int option"
  ep_fetchAll :: bool

record EventsFilter =
  ef_contractIds :: "string list"
  ef_topics :: "string list list option"

text \<open>\<open>pagination\<close> is present when a limit or a cursor is given.\<close>

record EventsRequest =
  er_startLedger :: int
  er_endLedger :: int
  er_filter :: EventsFilter
  er_pagination :: "(int option \<times> string option) option"

type_synonym event_server = "EventsRequest \<Rightarrow> thrown + jsv"

definition buildGetEventsRequest :: "EventsParams \<Rightarrow> string option \<Rightarrow> EventsRequest" where
  "buildGetEventsRequest p cursor =
    \<lparr>er_startLedger = ep_startLedger p, er_endLedger = ep_endLedger p,
     er_filter = \<lparr>ef_contractIds = [ep_contractId p],
       ef_topics = (case ep_topicFilters p of None \<Rightarrow> None
                    | Some ts \<Rightarrow> if ts \<noteq> [] then Some ts else None)\<rparr>,
     er_pagination = (if ep_limit p \<noteq> None \<or> cursor \<noteq> None then Some (ep_limit p, cursor) else None)\<rparr>"

definition dec_scval :: "(jsv \<Rightarrow> jsv option) \<Rightarrow> jsv \<Rightarrow> jsv" where
  "dec_scval dec v = (case dec v of None \<Rightarrow> v | Some x \<Rightarrow> x)"

definition js_entries :: "jsv \<Rightarrow> props" where
  "js_entries v = (case v of JObj ps \<Rightarrow> ps | _ \<Rightarrow> [])"

definition decodeContractEvent :: "(jsv \<Rightarrow> jsv option) \<Rightarrow> jsv \<Rightarrow> jsv" where
  "decodeContractEvent dec ev =
    (let decodedTopic = (case jget ev ''topic'' of JArr ts \<Rightarrow> map (dec_scval dec) ts | _ \<Rightarrow> []);
         decodedValue = (case jget ev ''value'' of JStr s \<Rightarrow> dec_scval dec (JStr s) | v \<Rightarrow> v)
     in JObj (obj_spread (obj_spread [] (js_entries ev))
                [(''topic'', JArr decodedTopic), (''value'', decodedValue)]))"

definition token_of :: "jsv \<Rightarrow> string option" where
  "token_of v = (case v of JStr s \<Rightarrow> if s \<noteq> [] then Some s else None | _ \<Rightarrow> None)"

definition extractPagingToken :: "jsv \<Rightarrow> jsv list \<Rightarrow> string option" where
  "extractPagingToken response events =
    (case token_of (jget response ''pagingToken'') of
       Some t \<Rightarrow> Some t
     | None \<Rightarrow> if events = [] then None else token_of (jget (last events) ''pagingToken''))"

definition page_events :: "jsv \<Rightarrow> jsv list" where
  "page_events response = (case jget response ''events'' of JArr es \<Rightarrow> es | _ \<Rightarrow> [])"

text \<open>\<open>error.response?.status ?? error.status\<close> and \<open>error.message\<close> of any thrown value.\<close>

definition thrown_get :: "thrown \<Rightarrow> string \<Rightarrow> jsv" where
  "thrown_get e k = (case e of Raw v \<Rightarrow> jget v k
     | AxErr c m st rid orig \<Rightarrow> if k = ''message'' then JStr m else JUndef)"

definition isPayloadTooLarge :: "thrown \<Rightarrow> bool" where
  "isPayloadTooLarge e =
    (let statusCode = coalesce (jget (thrown_get e ''response'') ''status'') (thrown_get e ''status'');
         message = js_lower (case thrown_get e ''message'' of JStr s \<Rightarrow> s | _ \<Rightarrow> [])
     in statusCode = JNum 413 \<or> str_includes message ''payload too large'' \<or>
        str_includes message ''request entity too large'' \<or> str_includes message ''413'')"

section \<open>The loop\<close>

record EventsResult =
  ev_events :: "jsv list"
  ev_pagingToken :: "string option"

fun fetchContractEventsRange ::
    "event_server \<Rightarrow> (jsv \<Rightarrow> jsv option) \<Rightarrow> nat \<Rightarrow> EventsParams \<Rightarrow> string option \<Rightarrow> jsv list
      \<Rightarrow> string set \<Rightarrow> (thrown + EventsResult) option" where
  "fetchContractEventsRange srv dec 0 p cursor events seen = None"
| "fetchContractEventsRange srv dec (Suc fuel) p cursor events seen =
    (case srv (buildGetEventsRequest p cursor) of
       Inr response \<Rightarrow>
         (let pageEvents = page_events response;
              events' = events @ map (decodeContractEvent dec) pageEvents;
              token = extractPagingToken response pageEvents
          in case token of
               None \<Rightarrow> Some (Inr \<lparr>ev_events = events', ev_pagingToken = None\<rparr>)
             | Some t \<Rightarrow>
                 if \<not> ep_fetchAll p \<or> t \<in> seen
                 then Some (Inr \<lparr>ev_events = events', ev_pagingToken = Some t\<rparr>)
                 else fetchContractEventsRange srv dec fuel p (Some t) events' (insert t seen))
     | Inl err \<Rightarrow>
         if isPayloadTooLarge err \<and> ep_startLedger p < ep_endLedger p
         then
           let midpoint = (ep_startLedger p + ep_endLedger p) div 2 in
           (case fetchContractEventsRange srv dec fuel (p\<lparr>ep_endLedger := midpoint\<rparr>) cursor [] {} of
              None \<Rightarrow> None
            | Some (Inl e) \<Rightarrow> Some (Inl e)
            | Some (Inr firstHalf) \<Rightarrow>
                if \<not> ep_fetchAll p then Some (Inr firstHalf)
                else
                  (case fetchContractEventsRange srv dec fuel (p\<lparr>ep_startLedger := midpoint + 1\<rparr>)
                          None [] {} of
                     None \<Rightarrow> None
                   | Some (Inl e) \<Rightarrow> Some (Inl e)
                   | Some (Inr secondHalf) \<Rightarrow>
                       Some (Inr \<lparr>ev_events = ev_events firstHalf @ ev_events secondHalf,
                         ev_pagingToken = (case ev_pagingToken secondHalf of
                            None \<Rightarrow> ev_pagingToken firstHalf | Some t \<Rightarrow> Some t)\<rparr>)))
         else Some (Inl err))"

section \<open>Resolving the range\<close>

datatype start_time = Last24Hours | StartDate int | StartNumber int | StartText string

record GetContractEventsOptions =
  go_startLedger :: "int option"
  go_endLedger :: "int option"
  go_limit :: "int option"
  go_cursor :: "string option"
  go_fetchAll :: "bool option"
  go_startTime :: "start_time option"

text \<open>\<open>latest\<close> is what the latest-ledger call gave: its sequence number, if that is one.\<close>

definition resolveEndLedger :: "thrown + int option \<Rightarrow> int option \<Rightarrow> thrown + int" where
  "resolveEndLedger latest provided =
    (case provided of
       Some e \<Rightarrow> Inr (max 1 e)
     | None \<Rightarrow> (case latest of Inl x \<Rightarrow> Inl x
               | Inr sq \<Rightarrow> Inr (case sq of None \<Rightarrow> 1 | Some n \<Rightarrow> if n > 0 then n else 1)))"

text \<open>\<open>Date.parse\<close> is the parameter \<open>dparse\<close>.\<close>

definition resolveStartTimeMs :: "(string \<Rightarrow> int option) \<Rightarrow> start_time \<Rightarrow> int \<Rightarrow> thrown + int" where
  "resolveStartTimeMs dparse st now =
    (case st of
       Last24Hours \<Rightarrow> Inr (now - 24 * 60 * 60 * 1000)
     | StartDate t \<Rightarrow> Inr t
     | StartNumber t \<Rightarrow> Inr t
     | StartText s \<Rightarrow>
        (case dparse s of
           Some t \<Rightarrow> Inr t
         | None \<Rightarrow> Inl (AxErr CAxionveraError (''Invalid startTime value: '' @ s) None None None)))"

definition resolveStartLedger ::
    "(string \<Rightarrow> int option) \<Rightarrow> int \<Rightarrow> GetContractEventsOptions \<Rightarrow> int \<Rightarrow> thrown + int" where
  "resolveStartLedger dparse now opts endLedger =
    (case go_startLedger opts of
       Some s \<Rightarrow> Inr (max 1 s)
     | None \<Rightarrow>
        (case go_startTime opts of
           None \<Rightarrow> Inr endLedger
         | Some st \<Rightarrow>
            (case resolveStartTimeMs dparse st now of
               Inl e \<Rightarrow> Inl e
             | Inr t \<Rightarrow>
                 let elapsed = max 0 (now - t); rewind = (elapsed + 4999) div 5000
                 in Inr (max 1 (endLedger - rewind)))))"

definition rpc_error :: "string \<Rightarrow> thrown \<Rightarrow> thrown" where
  "rpc_error method e =
    (let m = (case e of AxErr c msg st rid orig \<Rightarrow> msg
              | Raw (JErr n msg ps) \<Rightarrow> msg
              | _ \<Rightarrow> ''RPC operation failed: '' @ method)
     in AxErr (CAxionveraRPCError method) m None None (Some e))"

definition eventsParams ::
    "string \<Rightarrow> string list list option \<Rightarrow> GetContractEventsOptions \<Rightarrow> int \<Rightarrow> int \<Rightarrow> EventsParams" where
  "eventsParams cid topics opts startLedger endLedger =
    \<lparr>ep_contractId = cid, ep_topicFilters = topics,
     ep_startLedger = min startLedger endLedger, ep_endLedger = max startLedger endLedger,
     ep_limit = go_limit opts,
     ep_fetchAll = (case go_fetchAll opts of None \<Rightarrow> False | Some b \<Rightarrow> b)\<rparr>"

definition getContractEvents ::
    "event_server \<Rightarrow> (jsv \<Rightarrow> jsv option) \<Rightarrow> (string \<Rightarrow> int option) \<Rightarrow> int \<Rightarrow> thrown + int option \<Rightarrow> nat
      \<Rightarrow> string \<Rightarrow> string list list option \<Rightarrow> GetContractEventsOptions
      \<Rightarrow> (thrown + EventsResult) option" where
  "getContractEvents srv dec dparse now latest fuel cid topics opts =
    (case resolveEndLedger latest (go_endLedger opts) of
       Inl e \<Rightarrow> Some (Inl (rpc_error ''getEvents'' e))
     | Inr endLedger \<Rightarrow>
        (case resolveStartLedger dparse now opts endLedger of
           Inl e \<Rightarrow> Some (Inl (rpc_error ''getEvents'' e))
         | Inr startLedger \<Rightarrow>
            map_option (map_sum (rpc_error ''getEvents'') id)
              (fetchContractEventsRange srv dec fuel (eventsParams cid topics opts startLedger endLedger)
                 (go_cursor opts) [] {})))"

section \<open>Pages\<close>

text \<open>
  The pages a server gives for the requests of one range, where it refuses none and repeats no
  token: each under the token of the one before, the last without a token. Which field of the
  request the server takes the token from is its own affair.
\<close>

fun pages_from ::
    "event_server \<Rightarrow> EventsParams \<Rightarrow> string option \<Rightarrow> string set \<Rightarrow> jsv list list \<Rightarrow> bool" where
  "pages_from srv p c seen [] = False"
| "pages_from srv p c seen (pg # pgs) =
    (case srv (buildGetEventsRequest p c) of
       Inl e \<Rightarrow> False
     | Inr resp \<Rightarrow> page_events resp = pg \<and>
        (case extractPagingToken resp pg of
           None \<Rightarrow> pgs = []
         | Some t \<Rightarrow> t \<notin> seen \<and> pages_from srv p (Some t) (insert t seen) pgs))"

section \<open>Properties\<close>

lemma fetch_pages:
  "pages_from srv p c seen pages \<Longrightarrow> ep_fetchAll p \<Longrightarrow> length pages \<le> fuel \<Longrightarrow>
    fetchContractEventsRange srv dec fuel p c events seen =
      Some (Inr \<lparr>ev_events = events @ map (decodeContractEvent dec) (concat pages),
                 ev_pagingToken = None\<rparr>)"
proof (induction srv p c seen pages arbitrary: fuel events rule: pages_from.induct)
  case (2 srv p c seen pg pgs)
  obtain n where fuel: "fuel = Suc n" "length pgs \<le> n" using "2.prems"(3) by (cases fuel) auto
  obtain resp where resp: "srv (buildGetEventsRequest p c) = Inr resp" "page_events resp = pg"
    using "2.prems"(1) by (auto split: sum.splits)
  show ?case
  proof (cases "extractPagingToken resp pg")
    case None
    then show ?thesis using "2.prems"(1) resp by (simp add: fuel)
  next
    case (Some t)
    then show ?thesis using "2.prems"(1,2) "2.IH" [OF resp(1) Some] resp fuel(2)
      by (simp add: fuel(1))
  qed
qed simp

definition demo_params :: EventsParams where
  "demo_params = \<lparr>ep_contractId = ''C'', ep_topicFilters = None, ep_startLedger = 1, ep_endLedger = 2,
     ep_limit = None, ep_fetchAll = True\<rparr>"

definition demo_event :: "int \<Rightarrow> jsv" where
  "demo_event l = JObj [(''ledger'', JNum l)]"

definition too_large :: thrown where
  "too_large = Raw (JErr ''Error'' ''payload too large'' [])"

text \<open>A server that answers one ledger at a time and refuses wider ranges.\<close>

definition demo_server :: event_server where
  "demo_server r = (if er_startLedger r < er_endLedger r then Inl too_large
     else Inr (JObj [(''events'', JArr [demo_event (er_startLedger r)])]))"

text \<open>C31. 
  The fetch ends whatever the server answers, as long as its tokens come from a finite set:
  the fuel needed grows with the number of tokens times the width of the range.
\<close>

theorem fetch_terminates:
  assumes "finite T" and "\<And>r resp t. srv r = Inr resp \<Longrightarrow>
    extractPagingToken resp (page_events resp) = Some t \<Longrightarrow> t \<in> T"
    and "(card T + 1) * nat (ep_endLedger p - ep_startLedger p) + card (T - seen) + 1 \<le> fuel"
  shows "fetchContractEventsRange srv dec fuel p cursor events seen \<noteq> None"
  using assms(3)
proof (induction fuel arbitrary: p cursor events seen)
  case (Suc n)
  show ?case
  proof (cases "srv (buildGetEventsRequest p cursor)")
    case (Inr resp)
    have "fetchContractEventsRange srv dec n p (Some t) ev (insert t seen) \<noteq> None"
      if t: "extractPagingToken resp (page_events resp) = Some t" "t \<notin> seen" for t ev
    proof -
      have "t \<in> T - seen" using assms(2) [OF Inr t(1)] t(2) by simp
      then have "card (T - insert t seen) < card (T - seen)"
        using assms(1) by (intro psubset_card_mono) auto
      then show ?thesis using Suc.prems by (intro Suc.IH) linarith
    qed
    then show ?thesis using Inr by (auto simp: Let_def split: option.split)
  next
    case (Inl e)
    have "fetchContractEventsRange srv dec n q c ev {} \<noteq> None"
      if w: "nat (ep_endLedger q - ep_startLedger q) < nat (ep_endLedger p - ep_startLedger p)" for q c ev
    proof (rule Suc.IH)
      have "(card T + 1) * (nat (ep_endLedger q - ep_startLedger q) + 1) \<le>
          (card T + 1) * nat (ep_endLedger p - ep_startLedger p)"
        by (rule mult_le_mono2) (use w in linarith)
      then show "(card T + 1) * nat (ep_endLedger q - ep_startLedger q) + card (T - {}) + 1 \<le> n"
        using Suc.prems by (simp add: algebra_simps)
    qed
    from this [of "p\<lparr>ep_endLedger := (ep_startLedger p + ep_endLedger p) div 2\<rparr>"]
      this [of "p\<lparr>ep_startLedger := (ep_startLedger p + ep_endLedger p) div 2 + 1\<rparr>"]
    have "ep_startLedger p < ep_endLedger p \<longrightarrow> (\<exists>r1 r2.
        fetchContractEventsRange srv dec n
          (p\<lparr>ep_endLedger := (ep_startLedger p + ep_endLedger p) div 2\<rparr>) cursor [] {} = Some r1 \<and>
        fetchContractEventsRange srv dec n
          (p\<lparr>ep_startLedger := (ep_startLedger p + ep_endLedger p) div 2 + 1\<rparr>) None [] {} = Some r2)"
      by (auto simp del: split_paired_Ex)
    then show ?thesis using Inl by (auto simp: Let_def split: sum.split)
  qed
qed simp

theorem fetch_terminates_witness:
  "fetchContractEventsRange demo_server (\<lambda>_. None) 2 demo_params None [] {} \<noteq> None"
proof -
  have "extractPagingToken resp (page_events resp) = Some t \<Longrightarrow> t \<in> {}" if "demo_server r = Inr resp" for r resp t
    using that by (auto simp: demo_server_def extractPagingToken_def page_events_def jget_def jprop_def
        token_of_def demo_event_def split: if_splits)
  then show ?thesis
    by (rule fetch_terminates [where T = "{}" and srv = demo_server, rotated]) (simp_all add: demo_params_def)
qed

text \<open>
  A later page that is refused loses what earlier pages gave: the halves replace the events
  collected so far, although the first half goes on from the current cursor.
\<close>

definition lossy_server :: event_server where
  "lossy_server r =
    (case er_pagination r of
       None \<Rightarrow> if er_startLedger r = 1 then Inr (JObj [(''events'', JArr [demo_event 1]), (''pagingToken'', JStr ''t'')])
               else Inr (JObj [(''events'', JArr [demo_event 2])])
     | Some _ \<Rightarrow> if er_startLedger r < er_endLedger r then Inl too_large
                else Inr (JObj [(''events'', JArr [])]))"

theorem refused_page_loses_events:
  "fetchContractEventsRange lossy_server (\<lambda>_. None) 5 demo_params None [] {} =
     Some (Inr \<lparr>ev_events = [decodeContractEvent (\<lambda>_. None) (demo_event 2)], ev_pagingToken = None\<rparr>)"
  by code_simp

text \<open>The range that is fetched starts at the first ledger or later and is never reversed.\<close>

lemma resolved_range:
  assumes "resolveEndLedger latest (go_endLedger opts) = Inr e"
    and "resolveStartLedger dparse now opts e = Inr s"
  shows "1 \<le> ep_startLedger (eventsParams cid topics opts s e) \<and>
         ep_startLedger (eventsParams cid topics opts s e) \<le> ep_endLedger (eventsParams cid topics opts s e)"
proof -
  have "1 \<le> e" using assms(1) by (auto simp: resolveEndLedger_def split: option.splits sum.splits if_splits)
  moreover have "1 \<le> s" using assms(2) \<open>1 \<le> e\<close>
    by (auto simp: resolveStartLedger_def Let_def split: option.splits sum.splits)
  ultimately show ?thesis by (simp add: eventsParams_def)
qed

end
