(* ===== verification/AccountCache.thy ===== *)
theory AccountCache
  imports EventPaging
begin

text \<open>
  The cache of account sequence numbers of the RPC client, and the operations that rest on it
  (\<open>getAccountWithCache\<close>, \<open>updateCache\<close>, \<open>getCachedSequence\<close>, \<open>clearCache\<close>,
  \<open>handleSubmissionError\<close>, \<open>cleanupExpiredCache\<close>, \<open>submitTransactionsSequentially\<close> and
  \<open>validateFee\<close> of \<open>src/src/client/stellarClient.ts\<close>). Which of the two promises of the timed
  fetch settles first, and with what, is an argument; so are the readings of the clock and the
  outcomes of the submissions. An account of the Stellar SDK is its id and its sequence number;
  the decimal text between the two forms of a sequence number is not modelled.
\<close>

section \<open>The cache\<close>

record CachedSequence =
  csq_sequence :: int
  csq_timestamp :: int

type_synonym sequence_cache = "(string, CachedSequence) jsmap"

record Account =
  ac_id :: string
  ac_sequence :: int

datatype account_race = FetchSettled "thrown + Account" | TimerFired

definition fetch_timeout :: "int \<Rightarrow> thrown" where
  "fetch_timeout ms = Raw (JErr ''Error'' (''Account fetch timeout after '' @ int_str ms @ ''ms'') [])"

definition getAccountWithTimeout :: "int \<Rightarrow> account_race \<Rightarrow> thrown + Account" where
  "getAccountWithTimeout ms r = (case r of FetchSettled res \<Rightarrow> res | TimerFired \<Rightarrow> Inl (fetch_timeout ms))"

definition updateCache :: "int \<Rightarrow> string \<Rightarrow> int \<Rightarrow> sequence_cache \<Rightarrow> sequence_cache" where
  "updateCache now pk sq c = jm_set pk \<lparr>csq_sequence = sq, csq_timestamp = now\<rparr> c"

definition csq_expired :: "int \<Rightarrow> int \<Rightarrow> CachedSequence \<Rightarrow> bool" where
  "csq_expired ttl now e \<longleftrightarrow> now - csq_timestamp e > ttl"

definition getCachedSequence ::
    "int \<Rightarrow> int \<Rightarrow> string \<Rightarrow> sequence_cache \<Rightarrow> sequence_cache \<times> CachedSequence option" where
  "getCachedSequence ttl now pk c =
    (case jm_get c pk of
       None \<Rightarrow> (c, None)
     | Some e \<Rightarrow> if csq_expired ttl now e then (jm_delete pk c, None) else (c, Some e))"

text \<open>\<open>if (publicKey)\<close>: an empty key clears everything, like no key.\<close>

definition clearCache :: "string option \<Rightarrow> sequence_cache \<Rightarrow> sequence_cache" where
  "clearCache pk c = (case pk of None \<Rightarrow> [] | Some k \<Rightarrow> if k = [] then [] else jm_delete k c)"

fun cleanup_loop :: "int \<Rightarrow> int \<Rightarrow> sequence_cache \<Rightarrow> sequence_cache \<Rightarrow> nat \<Rightarrow> sequence_cache \<times> nat" where
  "cleanup_loop ttl now [] c removed = (c, removed)"
| "cleanup_loop ttl now ((pk, e) # es) c removed =
    (if csq_expired ttl now e then cleanup_loop ttl now es (jm_delete pk c) (removed + 1)
     else cleanup_loop ttl now es c removed)"

definition cleanupExpiredCache :: "int \<Rightarrow> int \<Rightarrow> sequence_cache \<Rightarrow> sequence_cache \<times> nat" where
  "cleanupExpiredCache ttl now c = cleanup_loop ttl now c c 0"

definition no_account :: "string \<Rightarrow> thrown \<Rightarrow> thrown" where
  "no_account pk err = AxErr CAxionveraError
     (''Failed to fetch account and no valid cache available for '' @ pk) None None (Some err)"

text \<open>The clock is read once by the lookup and once by the update: \<open>now\<close> and \<open>now'\<close>.\<close>

definition getAccountWithCache ::
    "int \<Rightarrow> int \<Rightarrow> int \<Rightarrow> int \<Rightarrow> string \<Rightarrow> account_race \<Rightarrow> sequence_cache
      \<Rightarrow> sequence_cache \<times> (thrown + Account)" where
  "getAccountWithCache ttl timeout now now' pk r c =
    (case getAccountWithTimeout timeout r of
       Inr account \<Rightarrow> (updateCache now' pk (ac_sequence account) c, Inr account)
     | Inl err \<Rightarrow>
        (case getCachedSequence ttl now pk c of
           (c', Some e) \<Rightarrow>
             let newSequence = csq_sequence e + 1 in
             (updateCache now' pk newSequence c', Inr \<lparr>ac_id = pk, ac_sequence = newSequence\<rparr>)
         | (c', None) \<Rightarrow>
             (c', Inl (no_account pk err))))"

section \<open>Submission\<close>

definition error_text :: "thrown \<Rightarrow> string" where
  "error_text e = (case e of AxErr c m st rid orig \<Rightarrow> m | Raw (JErr n m ps) \<Rightarrow> m | Raw v \<Rightarrow> js_String v)"

definition sequenceErrorPatterns :: "string list" where
  "sequenceErrorPatterns = [''tx_bad_seq'', ''bad sequence'', ''sequence number'', ''sequence mismatch'']"

definition isSequenceError :: "thrown \<Rightarrow> bool" where
  "isSequenceError e = list_ex (str_includes (js_lower (error_text e))) sequenceErrorPatterns"

definition handleSubmissionError ::
    "thrown \<Rightarrow> string option \<Rightarrow> sequence_cache \<Rightarrow> sequence_cache \<times> bool" where
  "handleSubmissionError e pk c = (if isSequenceError e then (clearCache pk c, True) else (c, False))"

type_synonym progress = "nat \<Rightarrow> jsv \<Rightarrow> thrown option"

definition submission_failed :: "nat \<Rightarrow> nat \<Rightarrow> bool \<Rightarrow> thrown \<Rightarrow> thrown" where
  "submission_failed i n cleared e =
    Raw (JErr ''Error''
      (''Transaction '' @ nat_str (i + 1) @ ''/'' @ nat_str n @ '' failed'' @
       (if cleared then '' (cache cleared due to sequence error)'' else []) @ '': '' @ error_text e) [])"

text \<open>
  \<open>outs\<close> holds what each submission from the \<open>i\<close>-th on gives; \<open>sent\<close> counts the calls of
  \<open>sendTransaction\<close>. The progress callback runs inside the same \<open>try\<close> as the submission.
\<close>

fun submit_loop ::
    "progress option \<Rightarrow> string option \<Rightarrow> nat \<Rightarrow> nat \<Rightarrow> (thrown + jsv) list \<Rightarrow> jsv list
      \<Rightarrow> sequence_cache \<Rightarrow> sequence_cache \<times> nat \<times> (thrown + jsv list)" where
  "submit_loop prog pk n i [] results c = (c, i, Inr results)"
| "submit_loop prog pk n i (Inl e # outs) results c =
    (let (c', cleared) = handleSubmissionError e pk c
     in (c', i + 1, Inl (submission_failed i n cleared e)))"
| "submit_loop prog pk n i (Inr r # outs) results c =
    (case (case prog of None \<Rightarrow> None | Some f \<Rightarrow> f i r) of
       Some e \<Rightarrow>
         (let (c', cleared) = handleSubmissionError e pk c
          in (c', i + 1, Inl (submission_failed i n cleared e)))
     | None \<Rightarrow> submit_loop prog pk n (i + 1) outs (results @ [r]) c)"

definition submitTransactionsSequentially ::
    "progress option \<Rightarrow> string option \<Rightarrow> (thrown + jsv) list \<Rightarrow> sequence_cache
      \<Rightarrow> sequence_cache \<times> nat \<times> (thrown + jsv list)" where
  "submitTransactionsSequentially prog pk outs c = submit_loop prog pk (length outs) 0 outs [] c"

section \<open>The fee check\<close>

record FeeCheckOptions =
  fc_minFee :: "int option"
  fc_maxFee :: "int option"
  fc_simulate :: "bool option"

text \<open>
  \<open>currentFee\<close> is \<open>parseInt\<close> of the transaction's fee, \<open>None\<close> standing for \<open>NaN\<close>. A simulation
  gives an error, a response that is no success, or the minimal resource fee of a success, if
  it has one. The comparison with \<open>currentFee * 1.2\<close> is exact here.
\<close>

datatype fee_simulation = SimFailed thrown | SimNotSuccess | SimSuccess "int option"

definition fee_error :: "string \<Rightarrow> thrown" where
  "fee_error m = Raw (JErr ''Error'' m [])"

definition or_int :: "int option \<Rightarrow> int \<Rightarrow> int" where
  "or_int x d = (case x of None \<Rightarrow> d | Some v \<Rightarrow> v)"

definition validateFee :: "FeeCheckOptions \<Rightarrow> int option \<Rightarrow> fee_simulation \<Rightarrow> thrown + int option" where
  "validateFee fo currentFee sim =
    (let simulate = (case fc_simulate fo of None \<Rightarrow> True | Some b \<Rightarrow> b);
         minFee = or_int (fc_minFee fo) 100000;
         maxFee = or_int (fc_maxFee fo) 1000000
     in case currentFee of
          None \<Rightarrow> Inr None
        | Some fee \<Rightarrow>
           if fee < minFee
           then Inl (fee_error (''Transaction fee '' @ int_str fee @ '' is below minimum '' @ int_str minFee))
           else if fee > maxFee
           then Inl (fee_error (''Transaction fee '' @ int_str fee @ '' exceeds maximum '' @ int_str maxFee))
           else if simulate
           then (case sim of
                   SimSuccess m \<Rightarrow>
                     let recommended = or_int m 100000 in
                     if 10 * recommended > 12 * fee then Inr (Some recommended) else Inr (Some fee)
                 | _ \<Rightarrow> Inr (Some fee))
           else Inr (Some fee))"

section \<open>The cache under any operations\<close>

datatype cache_op =
    OpGetAccount int int string account_race
  | OpClear "string option"
  | OpSubmitError thrown "string option"
  | OpCleanup int

definition cache_step :: "int \<Rightarrow> int \<Rightarrow> sequence_cache \<Rightarrow> cache_op \<Rightarrow> sequence_cache" where
  "cache_step ttl timeout c p =
    (case p of
       OpGetAccount now now' pk r \<Rightarrow> fst (getAccountWithCache ttl timeout now now' pk r c)
     | OpClear pk \<Rightarrow> clearCache pk c
     | OpSubmitError e pk \<Rightarrow> fst (handleSubmissionError e pk c)
     | OpCleanup now \<Rightarrow> fst (cleanupExpiredCache ttl now c))"

lemma clearCache_ok [intro]: "jm_ok c \<Longrightarrow> jm_ok (clearCache pk c)"
  by (auto simp: clearCache_def split: option.split)

lemma cleanup_loop_filter:
  "jm_ok (done @ es) \<Longrightarrow> cleanup_loop ttl now es (filter (\<lambda>p. \<not> csq_expired ttl now (snd p)) done @ es) n =
     (filter (\<lambda>p. \<not> csq_expired ttl now (snd p)) (done @ es),
      n + length (filter (\<lambda>p. csq_expired ttl now (snd p)) es))"
proof (induction es arbitrary: "done" n)
  case (Cons p es)
  obtain k e where p: "p = (k, e)" by (cases p)
  let ?fresh = "filter (\<lambda>p. \<not> csq_expired ttl now (snd p))"
  have ok: "jm_ok ((done @ [p]) @ es)" using Cons.prems by simp
  have absent: "k \<notin> fst ` set done" "k \<notin> fst ` set es" using Cons.prems by (auto simp: jm_ok_def p)
  have keep: "jm_delete k xs = xs" if "k \<notin> fst ` set xs" for xs :: sequence_cache
    using that by (intro jm_delete_absent) (simp add: jm_has_iff)
  have "jm_delete k (xs @ (k, e) # ys) = jm_delete k xs @ jm_delete k ys" for xs ys :: sequence_cache
    by (simp add: AList.delete_eq)
  then have "jm_delete k (?fresh done @ (k, e) # es) = ?fresh done @ es"
    using absent keep [of "?fresh done"] keep [of es] by (simp add: image_iff)
  then show ?case using Cons.IH [OF ok, of n] Cons.IH [OF ok, of "n + 1"]
    by (cases "csq_expired ttl now e") (simp_all add: p)
qed simp

lemma cleanup_filter:
  "jm_ok c \<Longrightarrow> cleanupExpiredCache ttl now c =
     (filter (\<lambda>p. \<not> csq_expired ttl now (snd p)) c,
      length (filter (\<lambda>p. csq_expired ttl now (snd p)) c))"
  using cleanup_loop_filter [of "[]" c ttl now 0] by (simp add: cleanupExpiredCache_def)

lemma cache_step_ok: "jm_ok c \<Longrightarrow> jm_ok (cache_step ttl timeout c p)"
proof (cases p)
  case (OpCleanup now)
  assume "jm_ok c"
  then show ?thesis by (simp add: OpCleanup cache_step_def cleanup_filter) (simp add: jm_ok_def distinct_map_filter)
qed (auto simp: cache_step_def getAccountWithCache_def getCachedSequence_def updateCache_def
    handleSubmissionError_def Let_def split: sum.split option.split)

interpretation seq_cache: invariant_machine jm_ok "cache_step ttl timeout" "[]" for ttl timeout
  by unfold_locales (auto intro: cache_step_ok)

text \<open>
  However the cache was used before, a cleanup removes exactly the expired entries and reports
  how many there were.
\<close>

theorem cleanup_removes_exactly_expired:
  "cleanupExpiredCache ttl now (foldl (cache_step ttl timeout) [] ops) = (c', removed) \<Longrightarrow>
   (\<forall>pk e. jm_get c' pk = Some e \<longleftrightarrow>
      jm_get (foldl (cache_step ttl timeout) [] ops) pk = Some e \<and> \<not> csq_expired ttl now e) \<and>
   length c' + removed = length (foldl (cache_step ttl timeout) [] ops)"
proof -
  let ?c = "foldl (cache_step ttl timeout) [] ops"
  assume "cleanupExpiredCache ttl now ?c = (c', removed)"
  then have c': "c' = filter (\<lambda>p. \<not> csq_expired ttl now (snd p)) ?c"
    and n: "removed = length (filter (\<lambda>p. csq_expired ttl now (snd p)) ?c)"
    using cleanup_filter [OF seq_cache.inv_run] by simp_all
  have ok: "jm_ok ?c" by (rule seq_cache.inv_run)
  then have "jm_ok c'" unfolding c' by (simp add: jm_ok_def distinct_map_filter)
  moreover have "length c' + removed = length ?c"
    unfolding c' n using sum_length_filter_compl [of "\<lambda>p. csq_expired ttl now (snd p)" ?c] by simp
  ultimately show ?thesis using ok by (auto simp: jm_get_mem) (auto simp: c')
qed

definition demo_ops :: "cache_op list" where
  "demo_ops = [OpGetAccount 0 0 ''GA'' (FetchSettled (Inr \<lparr>ac_id = ''GA'', ac_sequence = 7\<rparr>)),
     OpGetAccount 4000 4000 ''GB'' (FetchSettled (Inr \<lparr>ac_id = ''GB'', ac_sequence = 3\<rparr>)),
     OpGetAccount 4500 4501 ''GB'' TimerFired]"

lemma cleanup_removes_exactly_expired_witness:
  "jm_get (fst (cleanupExpiredCache 5000 6000 (foldl (cache_step 5000 2000) [] demo_ops))) ''GA'' = None \<and>
   snd (cleanupExpiredCache 5000 6000 (foldl (cache_step 5000 2000) [] demo_ops)) = 1"
proof -
  have v: "cleanupExpiredCache 5000 6000 (foldl (cache_step 5000 2000) [] demo_ops) =
      ([(''GB'', \<lparr>csq_sequence = 4, csq_timestamp = 4501\<rparr>)], 1)"
    by code_simp
  show ?thesis using cleanup_removes_exactly_expired [OF v] by (simp add: v)
qed

text \<open>Every branch of the lookup with fallback.\<close>

lemma getAccountWithCache_cases:
  "getAccountWithCache ttl timeout now now' pk r c =
    (case (getAccountWithTimeout timeout r, jm_get c pk) of
       (Inr a, _) \<Rightarrow> (updateCache now' pk (ac_sequence a) c, Inr a)
     | (Inl x, Some e) \<Rightarrow>
         if csq_expired ttl now e
         then (jm_delete pk c, Inl (no_account pk x))
         else (updateCache now' pk (csq_sequence e + 1) c,
               Inr \<lparr>ac_id = pk, ac_sequence = csq_sequence e + 1\<rparr>)
     | (Inl x, None) \<Rightarrow> (c, Inl (no_account pk x)))"
  by (simp add: getAccountWithCache_def getCachedSequence_def Let_def split: sum.split option.split)

section \<open>Sequence numbers handed out without the network\<close>

type_synonym account_call = "string \<times> int \<times> int \<times> account_race"

fun account_run ::
    "int \<Rightarrow> int \<Rightarrow> account_call list \<Rightarrow> sequence_cache \<Rightarrow> (string \<times> (thrown + Account)) list" where
  "account_run ttl timeout [] c = []"
| "account_run ttl timeout ((pk, now, now', r) # calls) c =
    (let (c', res) = getAccountWithCache ttl timeout now now' pk r c
     in (pk, res) # account_run ttl timeout calls c')"

text \<open>The calls for \<open>pk\<close> all fail to fetch, each within the time to live of the one before.\<close>

fun offline_within :: "int \<Rightarrow> int \<Rightarrow> string \<Rightarrow> int \<Rightarrow> account_call list \<Rightarrow> bool" where
  "offline_within ttl timeout pk t [] \<longleftrightarrow> True"
| "offline_within ttl timeout pk t ((k, now, now', r) # calls) \<longleftrightarrow>
    (if k = pk
     then isl (getAccountWithTimeout timeout r) \<and> now - t \<le> ttl \<and> offline_within ttl timeout pk now' calls
     else offline_within ttl timeout pk t calls)"

text \<open>C23. 
  While the network is away, the calls for one account hand out consecutive sequence numbers,
  none of them twice, whatever happens to other accounts in between.
\<close>

theorem offline_sequences_consecutive:
  assumes "jm_get c pk = Some e"
    and "offline_within ttl timeout pk (csq_timestamp e) calls"
  shows "[res. (k, res) \<leftarrow> account_run ttl timeout calls c, k = pk] =
    map (\<lambda>i. Inr \<lparr>ac_id = pk, ac_sequence = csq_sequence e + 1 + int i\<rparr>)
      [0..<length (filter (\<lambda>x. fst x = pk) calls)]"
  using assms
proof (induction calls arbitrary: c e)
  case (Cons x calls)
  obtain k now now' r where x: "x = (k, now, now', r)" by (cases x)
  show ?case
  proof (cases "k = pk")
    case True
    then obtain err where fails: "getAccountWithTimeout timeout r = Inl err"
      and fresh: "\<not> csq_expired ttl now e" and rest: "offline_within ttl timeout pk now' calls"
      using Cons.prems(2) by (cases "getAccountWithTimeout timeout r") (auto simp: x csq_expired_def)
    have step: "getAccountWithCache ttl timeout now now' pk r c =
        (updateCache now' pk (csq_sequence e + 1) c, Inr \<lparr>ac_id = pk, ac_sequence = csq_sequence e + 1\<rparr>)"
      using Cons.prems(1) fails fresh by (simp add: getAccountWithCache_cases)
    have "[res. (k, res) \<leftarrow> account_run ttl timeout calls (updateCache now' pk (csq_sequence e + 1) c), k = pk] =
        map (\<lambda>i. Inr \<lparr>ac_id = pk, ac_sequence = csq_sequence e + 1 + 1 + int i\<rparr>)
          [0..<length (filter (\<lambda>x. fst x = pk) calls)]"
      using Cons.IH [of _ "\<lparr>csq_sequence = csq_sequence e + 1, csq_timestamp = now'\<rparr>"] rest
      by (simp add: updateCache_def)
    then show ?thesis
      by (simp add: x True step map_upt_Suc algebra_simps del: upt_Suc)
  next
    case False
    obtain c' res where step: "getAccountWithCache ttl timeout now now' k r c = (c', res)"
      by (cases "getAccountWithCache ttl timeout now now' k r c")
    then have "jm_get c' pk = Some e" using Cons.prems(1) False
      by (auto simp: getAccountWithCache_cases updateCache_def split: sum.splits option.splits if_splits)
    then show ?thesis using Cons False by (simp add: x step)
  qed
qed simp

definition demo_calls :: "account_call list" where
  "demo_calls = [(''GA'', 4000, 4000, TimerFired), (''GB'', 4100, 4100, TimerFired),
     (''GA'', 8000, 8001, FetchSettled (Inl (Raw JUndef))), (''GA'', 12000, 12000, TimerFired)]"

lemma offline_sequences_consecutive_witness:
  "[res. (k, res) \<leftarrow> account_run 5000 2000 demo_calls [(''GA'', \<lparr>csq_sequence = 7, csq_timestamp = 0\<rparr>)], k = ''GA''] =
    [Inr \<lparr>ac_id = ''GA'', ac_sequence = 8\<rparr>, Inr \<lparr>ac_id = ''GA'', ac_sequence = 9\<rparr>,
     Inr \<lparr>ac_id = ''GA'', ac_sequence = 10\<rparr>]"
proof -
  have "offline_within 5000 2000 ''GA'' 0 demo_calls" by code_simp
  then show ?thesis
    using offline_sequences_consecutive [of "[(''GA'', \<lparr>csq_sequence = 7, csq_timestamp = 0\<rparr>)]" "''GA''"
        "\<lparr>csq_sequence = 7, csq_timestamp = 0\<rparr>" "5000" "2000" demo_calls]
    by (simp add: demo_calls_def upt_rec)
qed

section \<open>Submissions in order\<close>



text \<open>
  The documentation says each transaction is waited for to succeed; an answer with the status
  \<open>ERROR\<close> does not stop the run.
\<close>

theorem error_answer_does_not_stop:
  "submitTransactionsSequentially None pk [Inr (JObj [(''status'', JStr ''ERROR'')]), Inr r] c =
    (c, 2, Inr [JObj [(''status'', JStr ''ERROR'')], r])"
  by (simp add: submitTransactionsSequentially_def)

text \<open>A progress callback that raises makes a transaction that was sent count as failed.\<close>

theorem sent_transaction_reported_failed:
  "submitTransactionsSequentially (Some (\<lambda>i r. Some (Raw (JErr ''Error'' ''render'' [])))) None
     [Inr (JStr ''hash''), Inr (JStr ''next'')] [] =
   ([], 1, Inl (Raw (JErr ''Error'' ''Transaction 1/2 failed: render'' [])))"
  by code_simp

text \<open>A fee that passes the check is within the limits, or a fifth below what is recommended.\<close>

lemma validateFee_result:
  "validateFee fo (Some fee) sim = Inr r \<Longrightarrow>
   or_int (fc_minFee fo) 100000 \<le> fee \<and> fee \<le> or_int (fc_maxFee fo) 1000000 \<and>
   (r = Some fee \<or> (\<exists>m. sim = SimSuccess m \<and> r = Some (or_int m 100000) \<and> 12 * fee < 10 * or_int m 100000))"
  by (auto simp: validateFee_def Let_def split: if_splits fee_simulation.splits)

end
