(* ===== verification/PendingTx.thy ===== *)
theory PendingTx
  imports AccountCache
begin

text \<open>
  The registry of transactions the RPC client polls (\<open>trackTransaction\<close>, \<open>pollTransaction\<close>,
  \<open>getPendingTransactions\<close>, \<open>exportState\<close> and \<open>importState\<close> of
  \<open>src/src/client/stellarClient.ts\<close>). Each tracked transaction runs its own polling loop;
  a loop waits for a response, sleeps, or has settled, and the events that move it on (a
  response, a timer, a cancellation) arrive in any order. Dates are milliseconds, \<open>None\<close>
  standing for an invalid one; how the language writes and reads their ISO text are the
  parameters \<open>toISO\<close> and \<open>dparse\<close>, the locale's text of a date is \<open>dtext\<close>, and
  \<open>JSON.parse\<close> is \<open>jparse\<close>. A property named
  \<open>__proto__\<close>, which an assignment does not create, is outside the model.
\<close>

section \<open>Contexts with dates\<close>

datatype sval = SUndef | SNull | SBool bool | SNum int | SStr string | SDate "int option"
  | SArr "sval list" | SObj "(string \<times> sval) list"

definition sprop :: "(string \<times> sval) list \<Rightarrow> string \<Rightarrow> sval" where
  "sprop ps k = (case jm_get ps k of None \<Rightarrow> SUndef | Some v \<Rightarrow> v)"

fun s_truthy :: "sval \<Rightarrow> bool" where
  "s_truthy SUndef = False"
| "s_truthy SNull = False"
| "s_truthy (SBool b) = b"
| "s_truthy (SNum n) = (n \<noteq> 0)"
| "s_truthy (SStr s) = (s \<noteq> [])"
| "s_truthy _ = True"

definition invalid_time :: thrown where
  "invalid_time = Raw (JErr ''RangeError'' ''Invalid time value'' [])"

definition toISOString :: "(int \<Rightarrow> string) \<Rightarrow> int option \<Rightarrow> thrown + string" where
  "toISOString toISO d = (case d of None \<Rightarrow> Inl invalid_time | Some t \<Rightarrow> Inr (toISO t))"

definition DATE_MARKER :: string where
  "DATE_MARKER = ''__date''"

fun freezeDates :: "(int \<Rightarrow> string) \<Rightarrow> sval \<Rightarrow> thrown + sval"
  and freeze_items :: "(int \<Rightarrow> string) \<Rightarrow> sval list \<Rightarrow> thrown + sval list"
  and freeze_props :: "(int \<Rightarrow> string) \<Rightarrow> (string \<times> sval) list \<Rightarrow> thrown + (string \<times> sval) list" where
  "freezeDates toISO (SDate d) =
     (case toISOString toISO d of Inl e \<Rightarrow> Inl e | Inr s \<Rightarrow> Inr (SObj [(DATE_MARKER, SStr s)]))"
| "freezeDates toISO (SArr xs) = (case freeze_items toISO xs of Inl e \<Rightarrow> Inl e | Inr ys \<Rightarrow> Inr (SArr ys))"
| "freezeDates toISO (SObj ps) = (case freeze_props toISO ps of Inl e \<Rightarrow> Inl e | Inr qs \<Rightarrow> Inr (SObj qs))"
| "freezeDates toISO v = Inr v"
| "freeze_items toISO [] = Inr []"
| "freeze_items toISO (x # xs) =
     (case freezeDates toISO x of Inl e \<Rightarrow> Inl e
      | Inr y \<Rightarrow> (case freeze_items toISO xs of Inl e \<Rightarrow> Inl e | Inr ys \<Rightarrow> Inr (y # ys)))"
| "freeze_props toISO [] = Inr []"
| "freeze_props toISO ((k, x) # ps) =
     (case freezeDates toISO x of Inl e \<Rightarrow> Inl e
      | Inr y \<Rightarrow> (case freeze_props toISO ps of Inl e \<Rightarrow> Inl e | Inr qs \<Rightarrow> Inr ((k, y) # qs)))"

definition marked_date :: "(string \<Rightarrow> int option) \<Rightarrow> (string \<times> sval) list \<Rightarrow> int option" where
  "marked_date dparse ps =
    (case sprop ps DATE_MARKER of
       SStr s \<Rightarrow> if length ps = 1 then dparse s else None
     | _ \<Rightarrow> None)"

fun thawDates :: "(string \<Rightarrow> int option) \<Rightarrow> sval \<Rightarrow> sval" where
  "thawDates dparse (SArr xs) = SArr (map (thawDates dparse) xs)"
| "thawDates dparse (SObj ps) =
     (case marked_date dparse ps of
        Some t \<Rightarrow> SDate (Some t)
      | None \<Rightarrow> SObj (map (\<lambda>(k, v). (k, thawDates dparse v)) ps))"
| "thawDates dparse v = v"

definition freezeContext :: "(int \<Rightarrow> string) \<Rightarrow> sval \<Rightarrow> thrown + sval" where
  "freezeContext toISO ctx = (if s_truthy ctx then freezeDates toISO ctx else Inr SUndef)"

definition thawContext :: "(string \<Rightarrow> int option) \<Rightarrow> sval \<Rightarrow> sval" where
  "thawContext dparse ctx = (if s_truthy ctx then thawDates dparse ctx else SUndef)"

section \<open>Tracked transactions\<close>

record TrackTransactionOptions =
  to_hash :: string
  to_simulationContext :: sval
  to_intervalMs :: "int option"
  to_timeoutMs :: "int option"
  to_deadline :: "int option option"
  to_label :: sval

record PendingTransaction =
  pt_hash :: string
  pt_simulationContext :: sval
  pt_submittedAt :: int
  pt_intervalMs :: int
  pt_deadline :: "int option"
  pt_label :: sval

text \<open>Where a polling loop is: waiting for \<open>getTransaction\<close>, asleep until a time, or settled.\<close>

datatype poll_phase = PWaiting | PSleeping int | PSettled "thrown + jsv"

record TrackedTransaction = PendingTransaction +
  tk_cancelled :: bool
  tk_phase :: poll_phase
  tk_requests :: nat

text \<open>The map from hashes to tracked objects, and all tracked objects ever made.\<close>

record PollState =
  ps_pending :: "(string, nat) jsmap"
  ps_polls :: "TrackedTransaction list"

definition newPollState :: PollState where
  "newPollState = \<lparr>ps_pending = [], ps_polls = []\<rparr>"

text \<open>\<open>setTimeout\<close> treats a delay outside its range as one millisecond.\<close>

definition timer_delay :: "int \<Rightarrow> int" where
  "timer_delay ms = (if 1 \<le> ms \<and> ms \<le> 2147483647 then ms else 1)"

definition poll_cancelled :: "string \<Rightarrow> thrown" where
  "poll_cancelled h = AxErr CAxionveraError (''Transaction tracking cancelled for '' @ h) None None None"

definition poll_timeout :: "TrackedTransaction \<Rightarrow> thrown" where
  "poll_timeout p = AxErr CTimeoutError
    (''Timed out waiting for transaction '' @ pt_hash p @ '' after '' @
     (case pt_deadline p of None \<Rightarrow> ''NaN'' | Some d \<Rightarrow> int_str (d - pt_submittedAt p)) @ ''ms'') None None None"

text \<open>A settled loop has run its \<open>finally\<close>: the hash leaves the registry.\<close>

definition poll_settle :: "nat \<Rightarrow> thrown + jsv \<Rightarrow> PollState \<Rightarrow> PollState" where
  "poll_settle i res s =
    (let p = ps_polls s ! i in
     s\<lparr>ps_pending := jm_delete (pt_hash p) (ps_pending s),
       ps_polls := (ps_polls s)[i := p\<lparr>tk_phase := PSettled res\<rparr>]\<rparr>)"

text \<open>\<open>while (!cancelled && Date.now() < deadline)\<close> and what follows the loop\<close>

definition before_deadline :: "int \<Rightarrow> TrackedTransaction \<Rightarrow> bool" where
  "before_deadline now p = (case pt_deadline p of None \<Rightarrow> False | Some d \<Rightarrow> now < d)"

definition poll_check :: "nat \<Rightarrow> int \<Rightarrow> PollState \<Rightarrow> PollState" where
  "poll_check i now s =
    (let p = ps_polls s ! i in
     if \<not> tk_cancelled p \<and> before_deadline now p
     then s\<lparr>ps_polls := (ps_polls s)[i := p\<lparr>tk_phase := PWaiting, tk_requests := tk_requests p + 1\<rparr>]\<rparr>
     else if tk_cancelled p then poll_settle i (Inl (poll_cancelled (pt_hash p))) s
     else poll_settle i (Inl (poll_timeout p)) s)"

definition newTracked :: "int \<Rightarrow> TrackTransactionOptions \<Rightarrow> TrackedTransaction" where
  "newTracked now opts =
    \<lparr>pt_hash = to_hash opts, pt_simulationContext = to_simulationContext opts,
     pt_submittedAt = now, pt_intervalMs = or_int (to_intervalMs opts) 1000,
     pt_deadline = (case to_deadline opts of Some d \<Rightarrow> d
       | None \<Rightarrow> Some (now + or_int (to_timeoutMs opts) 30000)),
     pt_label = to_label opts, tk_cancelled = False, tk_phase = PWaiting, tk_requests = 0\<rparr>"

definition trackTransaction :: "int \<Rightarrow> TrackTransactionOptions \<Rightarrow> PollState \<Rightarrow> PollState \<times> nat" where
  "trackTransaction now opts s =
    (case jm_get (ps_pending s) (to_hash opts) of
       Some i \<Rightarrow> (s, i)
     | None \<Rightarrow>
        let i = length (ps_polls s) in
        (poll_check i now (s\<lparr>ps_pending := jm_set (to_hash opts) i (ps_pending s),
                            ps_polls := ps_polls s @ [newTracked now opts]\<rparr>), i))"

text \<open>The tracked object's \<open>cancel\<close> sets a flag the loop reads when it wakes.\<close>

definition poll_cancel :: "nat \<Rightarrow> PollState \<Rightarrow> PollState" where
  "poll_cancel i s = s\<lparr>ps_polls := (ps_polls s)[i := (ps_polls s ! i)\<lparr>tk_cancelled := True\<rparr>]\<rparr>"

definition final_status :: "jsv \<Rightarrow> bool" where
  "final_status res \<longleftrightarrow> js_truthy (jget res ''status'') \<and> jget res ''status'' \<noteq> JStr ''NOT_FOUND''"

definition poll_response :: "nat \<Rightarrow> int \<Rightarrow> thrown + jsv \<Rightarrow> PollState \<Rightarrow> PollState" where
  "poll_response i now res s =
    (let p = ps_polls s ! i in
     case res of
       Inl e \<Rightarrow> poll_settle i (Inl e) s
     | Inr r \<Rightarrow>
        if final_status r then poll_settle i (Inr r) s
        else s\<lparr>ps_polls := (ps_polls s)[i := p\<lparr>tk_phase := PSleeping (now + timer_delay (pt_intervalMs p))\<rparr>]\<rparr>)"

definition pollTransaction :: "int \<Rightarrow> string \<Rightarrow> int option \<Rightarrow> int option \<Rightarrow> PollState \<Rightarrow> PollState \<times> nat" where
  "pollTransaction now h timeoutMs intervalMs s =
    trackTransaction now \<lparr>to_hash = h, to_simulationContext = SUndef, to_intervalMs = intervalMs,
      to_timeoutMs = timeoutMs, to_deadline = None, to_label = SUndef\<rparr> s"

definition waitForTransaction :: "int \<Rightarrow> string \<Rightarrow> int option \<Rightarrow> int option \<Rightarrow> PollState \<Rightarrow> PollState \<times> nat" where
  "waitForTransaction now h timeoutMs intervalMs s = pollTransaction now h timeoutMs intervalMs s"

definition tracked_values :: "PollState \<Rightarrow> TrackedTransaction list" where
  "tracked_values s = map (\<lambda>i. ps_polls s ! i) (jm_values (ps_pending s))"

definition getPendingTransactions :: "PollState \<Rightarrow> PendingTransaction list" where
  "getPendingTransactions s = map PendingTransaction.truncate (tracked_values s)"

section \<open>Export and import\<close>

definition HYDRATION_STATE_VERSION :: int where
  "HYDRATION_STATE_VERSION = 1"

definition export_entry :: "(int \<Rightarrow> string) \<Rightarrow> TrackedTransaction \<Rightarrow> thrown + sval" where
  "export_entry toISO tx =
    (case freezeContext toISO (pt_simulationContext tx) of
       Inl e \<Rightarrow> Inl e
     | Inr ctx \<Rightarrow>
        (case toISOString toISO (pt_deadline tx) of
           Inl e \<Rightarrow> Inl e
         | Inr d \<Rightarrow> Inr (SObj [(''hash'', SStr (pt_hash tx)), (''simulationContext'', ctx),
             (''submittedAt'', SStr (toISO (pt_submittedAt tx))),
             (''intervalMs'', SNum (pt_intervalMs tx)), (''deadline'', SStr d),
             (''label'', pt_label tx)])))"

fun export_entries :: "(int \<Rightarrow> string) \<Rightarrow> TrackedTransaction list \<Rightarrow> thrown + sval list" where
  "export_entries toISO [] = Inr []"
| "export_entries toISO (tx # txs) =
    (case export_entry toISO tx of Inl e \<Rightarrow> Inl e
     | Inr x \<Rightarrow> (case export_entries toISO txs of Inl e \<Rightarrow> Inl e | Inr xs \<Rightarrow> Inr (x # xs)))"

definition exportState :: "(int \<Rightarrow> string) \<Rightarrow> int \<Rightarrow> PollState \<Rightarrow> thrown + sval" where
  "exportState toISO now s =
    (case export_entries toISO (tracked_values s) of
       Inl e \<Rightarrow> Inl e
     | Inr xs \<Rightarrow> Inr (SObj [(''version'', SNum HYDRATION_STATE_VERSION),
         (''exportedAt'', SStr (toISO now)), (''pending'', SArr xs)]))"

fun s_String :: "(int option \<Rightarrow> string) \<Rightarrow> sval \<Rightarrow> string" where
  "s_String dtext SUndef = ''undefined''"
| "s_String dtext SNull = ''null''"
| "s_String dtext (SBool b) = (if b then ''true'' else ''false'')"
| "s_String dtext (SNum n) = int_str n"
| "s_String dtext (SStr s) = s"
| "s_String dtext (SDate d) = dtext d"
| "s_String dtext (SArr xs) = join_str '','' (map (\<lambda>x. if x = SUndef \<or> x = SNull then [] else s_String dtext x) xs)"
| "s_String dtext (SObj ps) = ''[object Object]''"

definition hydration_error :: "string \<Rightarrow> thrown" where
  "hydration_error m = AxErr CAxionveraError m None None None"

definition entry_props :: "sval \<Rightarrow> (string \<times> sval) list option" where
  "entry_props v = (case v of SObj ps \<Rightarrow> Some ps | SArr _ \<Rightarrow> Some [] | SDate _ \<Rightarrow> Some [] | _ \<Rightarrow> None)"

definition import_deadline :: "(string \<Rightarrow> int option) \<Rightarrow> (string \<times> sval) list \<Rightarrow> int option" where
  "import_deadline dparse ps = (case sprop ps ''deadline'' of SStr d \<Rightarrow> dparse d | _ \<Rightarrow> None)"

definition import_options ::
    "(string \<Rightarrow> int option) \<Rightarrow> string \<Rightarrow> int \<Rightarrow> (string \<times> sval) list \<Rightarrow> TrackTransactionOptions" where
  "import_options dparse h d ps =
    \<lparr>to_hash = h, to_simulationContext = thawContext dparse (sprop ps ''simulationContext''),
     to_intervalMs = Some (case sprop ps ''intervalMs'' of SNum n \<Rightarrow> if n > 0 then n else 1000 | _ \<Rightarrow> 1000),
     to_timeoutMs = None, to_deadline = Some (Some d), to_label = sprop ps ''label''\<rparr>"

definition import_hash :: "(string \<times> sval) list \<Rightarrow> string" where
  "import_hash ps = (case sprop ps ''hash'' of SStr h \<Rightarrow> h | _ \<Rightarrow> [])"

text \<open>A hash that is no string is skipped like an empty one.\<close>

definition import_entry ::
    "(string \<Rightarrow> int option) \<Rightarrow> int \<Rightarrow> sval \<Rightarrow> PollState \<Rightarrow> PollState \<times> nat option" where
  "import_entry dparse now candidate s =
    (case entry_props candidate of
       None \<Rightarrow> (s, None)
     | Some ps \<Rightarrow>
        let h = import_hash ps in
        if h = [] then (s, None)
        else
          (case jm_get (ps_pending s) h of
             Some i \<Rightarrow> (s, Some i)
           | None \<Rightarrow>
              (case import_deadline dparse ps of
                 None \<Rightarrow> (s, None)
               | Some d \<Rightarrow>
                  if d \<le> now then (s, None)
                  else let (s', i) = trackTransaction now (import_options dparse h d ps) s in (s', Some i))))"

fun import_entries ::
    "(string \<Rightarrow> int option) \<Rightarrow> int \<Rightarrow> sval list \<Rightarrow> PollState \<Rightarrow> nat list \<Rightarrow> PollState \<times> nat list" where
  "import_entries dparse now [] s restored = (s, restored)"
| "import_entries dparse now (c # cs) s restored =
    (case import_entry dparse now c s of
       (s', None) \<Rightarrow> import_entries dparse now cs s' restored
     | (s', Some i) \<Rightarrow> import_entries dparse now cs s' (restored @ [i]))"

definition import_raw :: "(string \<Rightarrow> thrown + sval) \<Rightarrow> sval \<Rightarrow> thrown + sval" where
  "import_raw jparse state = (case state of SStr t \<Rightarrow> jparse t | _ \<Rightarrow> Inr state)"

definition import_pending :: "(int option \<Rightarrow> string) \<Rightarrow> sval \<Rightarrow> thrown + sval list" where
  "import_pending dtext raw =
    (case entry_props raw of
       None \<Rightarrow> Inl (hydration_error ''Invalid hydration state: expected object or JSON string'')
     | Some ps \<Rightarrow>
        if sprop ps ''version'' \<noteq> SNum HYDRATION_STATE_VERSION
        then Inl (hydration_error (''Unsupported hydration state version: '' @
               s_String dtext (sprop ps ''version'') @ '' (expected '' @ int_str HYDRATION_STATE_VERSION @ '')''))
        else
          (case sprop ps ''pending'' of
             SArr cs \<Rightarrow> Inr cs
           | _ \<Rightarrow> Inl (hydration_error ''Invalid hydration state: `pending` must be an array'')))"

definition importState ::
    "(int option \<Rightarrow> string) \<Rightarrow> (string \<Rightarrow> thrown + sval) \<Rightarrow> (string \<Rightarrow> int option) \<Rightarrow> int \<Rightarrow> sval
      \<Rightarrow> PollState \<Rightarrow> PollState \<times> (thrown + nat list)" where
  "importState dtext jparse dparse now state s =
    (case import_raw jparse state of
       Inl e \<Rightarrow> (s, Inl e)
     | Inr raw \<Rightarrow>
        (case import_pending dtext raw of
           Inl e \<Rightarrow> (s, Inl e)
         | Inr cs \<Rightarrow> let (s', restored) = import_entries dparse now cs s [] in (s', Inr restored)))"

section \<open>Freezing and thawing\<close>

fun date_free :: "sval \<Rightarrow> bool" where
  "date_free (SDate _) = False"
| "date_free (SArr xs) = list_all date_free xs"
| "date_free (SObj ps) = list_all (\<lambda>(k, v). date_free v) ps"
| "date_free _ = True"

fun dates_valid :: "sval \<Rightarrow> bool" where
  "dates_valid (SDate d) = (case d of None \<Rightarrow> False | Some _ \<Rightarrow> True)"
| "dates_valid (SArr xs) = list_all dates_valid xs"
| "dates_valid (SObj ps) = list_all (\<lambda>(k, v). dates_valid v) ps"
| "dates_valid _ = True"

text \<open>No object of the value is itself a marker that reads as a date.\<close>

fun unmarked :: "(string \<Rightarrow> int option) \<Rightarrow> sval \<Rightarrow> bool" where
  "unmarked dparse (SArr xs) = list_all (unmarked dparse) xs"
| "unmarked dparse (SObj ps) =
     ((case marked_date dparse ps of None \<Rightarrow> True | Some _ \<Rightarrow> False) \<and>
      list_all (\<lambda>(k, v). unmarked dparse v) ps)"
| "unmarked dparse _ = True"

text \<open>
  Freezing fails exactly on a value that holds an invalid date, and then with the range error
  of \<open>toISOString\<close>; what it returns holds no date, so it is plain JSON.
\<close>

theorem freeze_is_json:
  "case freezeDates toISO v of
     Inl e \<Rightarrow> \<not> dates_valid v \<and> e = invalid_time
   | Inr w \<Rightarrow> dates_valid v \<and> date_free w"
proof -
  have "(case freezeDates toISO v of Inl e \<Rightarrow> \<not> dates_valid v \<and> e = invalid_time
      | Inr w \<Rightarrow> dates_valid v \<and> date_free w)"
    "(case freeze_items toISO xs of Inl e \<Rightarrow> \<not> list_all dates_valid xs \<and> e = invalid_time
      | Inr ys \<Rightarrow> list_all dates_valid xs \<and> list_all date_free ys)"
    "(case freeze_props toISO ps of Inl e \<Rightarrow> \<not> list_all (\<lambda>(k, v). dates_valid v) ps \<and> e = invalid_time
      | Inr qs \<Rightarrow> list_all (\<lambda>(k, v). dates_valid v) ps \<and> list_all (\<lambda>(k, v). date_free v) qs)" for xs ps
    by (induction v and xs and ps rule: freezeDates_freeze_items_freeze_props.induct)
       (auto simp: toISOString_def split: sum.splits option.splits)
  then show ?thesis by blast
qed

lemma marked_frozen:
  assumes "freezeDates toISO (SObj ps) = Inr (SObj qs)"
  shows "marked_date dparse qs = marked_date dparse ps"
proof -
  have props: "freeze_props toISO ps = Inr qs"
    using assms by (simp split: sum.splits)
  have same: "length qs = length ps \<and> (\<forall>k t. sprop qs k = SStr t \<longleftrightarrow> sprop ps k = SStr t)"
    if "freeze_props toISO ps = Inr qs" for ps qs
    using that
  proof (induction ps arbitrary: qs)
    case (Cons p ps)
    obtain k x where p: "p = (k, x)" by (cases p)
    obtain y rs where y: "freezeDates toISO x = Inr y" "freeze_props toISO ps = Inr rs" "qs = (k, y) # rs"
      using Cons.prems by (auto simp: p split: sum.splits)
    have "\<forall>t. y = SStr t \<longleftrightarrow> x = SStr t"
      using y(1) by (cases x) (auto split: sum.splits)
    then show ?case using Cons.IH [OF y(2)] by (simp add: p y(3) sprop_def)
  qed (simp add: sprop_def)
  have "marked_date dparse qs = (if \<exists>t. sprop qs DATE_MARKER = SStr t \<and> length qs = 1
      then dparse (THE t. sprop qs DATE_MARKER = SStr t) else None)" for qs
    by (auto simp: marked_date_def split: sval.split)
  then show ?thesis using same [OF props] by simp
qed

text \<open>
  Thawing undoes freezing: if the text of a date reads back as that date, every value comes back
  as it was, dates included, unless an object of it looks like a marker.
\<close>

theorem freeze_thaw_roundtrip:
  assumes "\<And>t. dparse (toISO t) = Some t" and "freezeDates toISO v = Inr w" and "unmarked dparse v"
  shows "thawDates dparse w = v"
proof -
  have "(\<forall>t. dparse (toISO t) = Some t) \<longrightarrow>
      (\<forall>w. freezeDates toISO v = Inr w \<longrightarrow> unmarked dparse v \<longrightarrow> thawDates dparse w = v)"
    "(\<forall>t. dparse (toISO t) = Some t) \<longrightarrow>
      (\<forall>ys. freeze_items toISO xs = Inr ys \<longrightarrow> list_all (unmarked dparse) xs \<longrightarrow> map (thawDates dparse) ys = xs)"
    "(\<forall>t. dparse (toISO t) = Some t) \<longrightarrow>
      (\<forall>qs. freeze_props toISO ps = Inr qs \<longrightarrow> list_all (\<lambda>(k, v). unmarked dparse v) ps \<longrightarrow>
       map (\<lambda>(k, v). (k, thawDates dparse v)) qs = ps)" for xs ps
  proof (induction toISO v and toISO xs and toISO ps rule: freezeDates_freeze_items_freeze_props.induct)
    case (1 toISO d)
    show ?case
      by (auto simp: toISOString_def marked_date_def sprop_def DATE_MARKER_def split: option.splits)
  next
    case (3 toISO ps)
    have "thawDates dparse w = SObj ps" if "\<forall>t. dparse (toISO t) = Some t"
      and w: "freezeDates toISO (SObj ps) = Inr w" and un: "unmarked dparse (SObj ps)" for w
    proof -
      obtain qs where qs: "w = SObj qs" "freeze_props toISO ps = Inr qs" using w by (auto split: sum.splits)
      have "marked_date dparse qs = None"
        using marked_frozen [of toISO ps qs dparse] w qs(1) un by (simp split: option.splits)
      then show ?thesis using 3 that(1) qs un by simp
    qed
    then show ?case by blast
  qed (auto split: sum.splits)
  then show ?thesis using assms by blast
qed

text \<open>A codec of dates as the law asks for, to check that it can be met.\<close>

definition demo_ISO :: "int \<Rightarrow> string" where
  "demo_ISO t = (if t < 0 then CHR ''-'' else CHR ''+'') # nat_str (nat \<bar>t\<bar>)"

definition demo_parse :: "string \<Rightarrow> int option" where
  "demo_parse s = (case s of [] \<Rightarrow> None
     | c # r \<Rightarrow> if c = CHR ''-'' then Some (- int (str_nat r))
               else if c = CHR ''+'' then Some (int (str_nat r)) else None)"

lemma demo_codec: "demo_parse (demo_ISO t) = Some t"
  by (simp add: demo_parse_def demo_ISO_def)

definition demo_context :: sval where
  "demo_context = SObj [(''at'', SDate (Some 1700)), (''note'', SArr [SStr ''x'', SDate (Some (-5)), SNull])]"

lemma freeze_thaw_roundtrip_witness:
  "\<exists>w. freezeDates demo_ISO demo_context = Inr w \<and> w \<noteq> demo_context \<and>
       thawDates demo_parse w = demo_context"
proof -
  have "unmarked demo_parse demo_context" by code_simp
  moreover have "case freezeDates demo_ISO demo_context of Inl _ \<Rightarrow> False | Inr w \<Rightarrow> w \<noteq> demo_context" by code_simp
  ultimately show ?thesis using freeze_thaw_roundtrip [of demo_parse demo_ISO, OF demo_codec]
    by (auto split: sum.splits)
qed

text \<open>An object that looks like a marker comes back as a date.\<close>

theorem marker_object_becomes_date:
  "freezeDates demo_ISO (SObj [(''__date'', SStr ''+7'')]) = Inr (SObj [(''__date'', SStr ''+7'')]) \<and>
   thawDates demo_parse (SObj [(''__date'', SStr ''+7'')]) = SDate (Some 7)"
  by code_simp

section \<open>The registry as a machine\<close>

datatype poll_event =
    EvTrack int TrackTransactionOptions
  | EvResponse nat int "thrown + jsv"
  | EvWake nat int
  | EvCancel nat
  | EvImport int sval

definition settled :: "TrackedTransaction \<Rightarrow> bool" where
  "settled p = (case tk_phase p of PSettled _ \<Rightarrow> True | _ \<Rightarrow> False)"

definition poll_step ::
    "(int option \<Rightarrow> string) \<Rightarrow> (string \<Rightarrow> thrown + sval) \<Rightarrow> (string \<Rightarrow> int option)
      \<Rightarrow> PollState \<Rightarrow> poll_event \<Rightarrow> PollState" where
  "poll_step dtext jparse dparse s ev =
    (case ev of
       EvTrack now opts \<Rightarrow> fst (trackTransaction now opts s)
     | EvResponse i now res \<Rightarrow>
         if i < length (ps_polls s) \<and> tk_phase (ps_polls s ! i) = PWaiting
         then poll_response i now res s else s
     | EvWake i now \<Rightarrow>
         if i < length (ps_polls s) \<and>
            (case tk_phase (ps_polls s ! i) of PSleeping t \<Rightarrow> t \<le> now | _ \<Rightarrow> False)
         then poll_check i now s else s
     | EvCancel i \<Rightarrow> if i < length (ps_polls s) then poll_cancel i s else s
     | EvImport now st \<Rightarrow> fst (importState dtext jparse dparse now st s))"

text \<open>The registry holds exactly the transactions whose loop still runs, one per hash.\<close>

definition poll_inv :: "PollState \<Rightarrow> bool" where
  "poll_inv s \<longleftrightarrow> jm_ok (ps_pending s) \<and>
     (\<forall>h i. jm_get (ps_pending s) h = Some i \<longleftrightarrow>
        i < length (ps_polls s) \<and> pt_hash (ps_polls s ! i) = h \<and> \<not> settled (ps_polls s ! i))"

lemma poll_inv_new [simp]: "poll_inv newPollState"
  by (simp add: poll_inv_def newPollState_def)

lemma settled_simps [simp]:
  "settled (p\<lparr>tk_phase := ph\<rparr>) = (case ph of PSettled _ \<Rightarrow> True | _ \<Rightarrow> False)"
  "settled (p\<lparr>tk_phase := ph, tk_requests := n\<rparr>) = (case ph of PSettled _ \<Rightarrow> True | _ \<Rightarrow> False)"
  "settled (p\<lparr>tk_cancelled := c\<rparr>) = settled p"
  by (simp_all add: settled_def)

lemma poll_inv_get:
  "poll_inv s \<Longrightarrow> jm_get (ps_pending s) h = Some i \<longleftrightarrow>
     i < length (ps_polls s) \<and> pt_hash (ps_polls s ! i) = h \<and> \<not> settled (ps_polls s ! i)"
  by (simp add: poll_inv_def)

text \<open>A change of one running loop that keeps its hash and keeps it running.\<close>

lemma poll_inv_update:
  assumes "poll_inv s" and "i < length (ps_polls s)" and "pt_hash p = pt_hash (ps_polls s ! i)"
    and "settled p = settled (ps_polls s ! i)"
  shows "poll_inv (s\<lparr>ps_polls := (ps_polls s)[i := p]\<rparr>)"
  using assms by (auto simp: poll_inv_def nth_list_update)

lemma poll_inv_settle:
  assumes "poll_inv s" and "i < length (ps_polls s)" and "\<not> settled (ps_polls s ! i)"
  shows "poll_inv (poll_settle i res s)"
proof -
  have "j = i" if "j < length (ps_polls s)" "pt_hash (ps_polls s ! j) = pt_hash (ps_polls s ! i)"
    "\<not> settled (ps_polls s ! j)" for j
    using assms that poll_inv_get [OF assms(1)] by (metis option.inject)
  then show ?thesis using assms
    by (auto simp: poll_inv_def poll_settle_def Let_def nth_list_update)
qed

lemma poll_inv_check:
  assumes "poll_inv s" and "i < length (ps_polls s)" and "\<not> settled (ps_polls s ! i)"
  shows "poll_inv (poll_check i now s)"
  using assms unfolding poll_check_def Let_def
  by (auto intro!: poll_inv_settle poll_inv_update)

lemma poll_inv_track: "poll_inv s \<Longrightarrow> poll_inv (fst (trackTransaction now opts s))"
proof (cases "jm_get (ps_pending s) (to_hash opts)")
  case None
  assume inv: "poll_inv s"
  have new: "poll_inv (s\<lparr>ps_pending := jm_set (pt_hash p) (length (ps_polls s)) (ps_pending s),
      ps_polls := ps_polls s @ [p]\<rparr>)"
    if "pt_hash p = to_hash opts" "\<not> settled p" for p
    using inv None that poll_inv_get [OF inv, of "to_hash opts"]
    by (auto simp: poll_inv_def nth_append less_Suc_eq)
  have "pt_hash (newTracked now opts) = to_hash opts" "\<not> settled (newTracked now opts)"
    by (simp_all add: newTracked_def settled_def)
  then show ?thesis using None new [of "newTracked now opts"]
    by (simp add: trackTransaction_def Let_def poll_inv_check)
qed (simp add: trackTransaction_def)

lemma import_entry_tracks:
  "fst (import_entry dparse now c s) = s \<or>
   (\<exists>opts. fst (import_entry dparse now c s) = fst (trackTransaction now opts s))"
  unfolding import_entry_def Let_def
  by (auto simp: case_prod_unfold split: option.split)

lemma poll_inv_import_entry: "poll_inv s \<Longrightarrow> poll_inv (fst (import_entry dparse now c s))"
  using import_entry_tracks [of dparse now c s] poll_inv_track [of s now] by auto

lemma poll_inv_import_entries: "poll_inv s \<Longrightarrow> poll_inv (fst (import_entries dparse now cs s ids))"
proof (induction cs arbitrary: s ids)
  case (Cons c cs)
  then show ?case using poll_inv_import_entry [of s dparse now c]
    by (auto split: prod.split option.split)
qed simp

lemma importState_entries:
  "fst (importState dtext jparse dparse now st s) = s \<or>
   (\<exists>cs. fst (importState dtext jparse dparse now st s) = fst (import_entries dparse now cs s []))"
  unfolding importState_def Let_def
  by (auto simp: case_prod_unfold split: sum.split)

lemma poll_inv_import: "poll_inv s \<Longrightarrow> poll_inv (fst (importState dtext jparse dparse now st s))"
  using importState_entries [of dtext jparse dparse now st s] poll_inv_import_entries [of s dparse now]
  by auto

lemma poll_step_inv: "poll_inv s \<Longrightarrow> poll_inv (poll_step dtext jparse dparse s ev)"
  by (cases ev)
     (auto simp: poll_step_def poll_response_def Let_def settled_def poll_cancel_def
       intro!: poll_inv_track poll_inv_import poll_inv_check poll_inv_settle poll_inv_update
       split: poll_phase.splits sum.splits)

interpretation polls: invariant_machine poll_inv "poll_step dtext jparse dparse" newPollState
  for dtext jparse dparse
  by unfold_locales (auto intro: poll_step_inv)

lemma poll_inv_mem:
  "poll_inv s \<Longrightarrow> (h, i) \<in> set (ps_pending s) \<longleftrightarrow>
      i < length (ps_polls s) \<and> pt_hash (ps_polls s ! i) = h \<and> \<not> settled (ps_polls s ! i)"
  using poll_inv_get [of s h i] jm_get_mem [of "ps_pending s" h i] by (simp add: poll_inv_def)

lemma tracked_hashes: "poll_inv s \<Longrightarrow> map pt_hash (tracked_values s) = map fst (ps_pending s)"
proof -
  assume "poll_inv s"
  then have "map (\<lambda>p. pt_hash (ps_polls s ! snd p)) (ps_pending s) = map fst (ps_pending s)"
    by (intro map_cong refl) (metis poll_inv_mem prod.collapse)
  then show ?thesis by (simp add: tracked_values_def jm_values_def comp_def)
qed

text \<open>C11. 
  Whatever the callers, the network and the timers do, in any order, the registry holds exactly
  the transactions whose polling loop is still running, and never two loops for one hash.
\<close>

theorem registry_is_running_polls:
  "s = foldl (poll_step dtext jparse dparse) newPollState evs \<Longrightarrow>
   (jm_get (ps_pending s) h = Some i \<longleftrightarrow>
      i < length (ps_polls s) \<and> pt_hash (ps_polls s ! i) = h \<and> \<not> settled (ps_polls s ! i)) \<and>
   length (getPendingTransactions s) = card {i. i < length (ps_polls s) \<and> \<not> settled (ps_polls s ! i)} \<and>
   distinct (map pt_hash (tracked_values s))"
proof -
  assume "s = foldl (poll_step dtext jparse dparse) newPollState evs"
  then have inv: "poll_inv s" using polls.inv_run by simp
  have ok: "jm_ok (ps_pending s)" using inv by (simp add: poll_inv_def)
  note mem = poll_inv_mem [OF inv] and hashes = tracked_hashes [OF inv]
  have run: "set (jm_values (ps_pending s)) = {i. i < length (ps_polls s) \<and> \<not> settled (ps_polls s ! i)}"
  proof (rule set_eqI)
    fix i
    have "i \<in> snd ` set (ps_pending s) \<longleftrightarrow> (\<exists>h. (h, i) \<in> set (ps_pending s))" by force
    then show "i \<in> set (jm_values (ps_pending s)) \<longleftrightarrow>
        i \<in> {i. i < length (ps_polls s) \<and> \<not> settled (ps_polls s ! i)}"
      by (simp add: jm_values_def mem)
  qed
  have "distinct (map snd (ps_pending s))"
    using ok unfolding jm_ok_def hashes [symmetric] tracked_values_def jm_values_def
    by (simp add: distinct_map comp_def) (auto simp: inj_on_def)
  then have "length (getPendingTransactions s) = card (set (jm_values (ps_pending s)))"
    using distinct_card [of "map snd (ps_pending s)"]
    by (simp add: getPendingTransactions_def tracked_values_def jm_values_def)
  then show ?thesis using poll_inv_get [OF inv] hashes ok run by (simp add: jm_ok_def)
qed

definition demo_track :: "string \<Rightarrow> int \<Rightarrow> TrackTransactionOptions" where
  "demo_track h d = \<lparr>to_hash = h, to_simulationContext = SObj [(''at'', SDate (Some 5))],
     to_intervalMs = Some 100, to_timeoutMs = None, to_deadline = Some (Some d), to_label = SUndef\<rparr>"

abbreviation demo_step :: "PollState \<Rightarrow> poll_event \<Rightarrow> PollState" where
  "demo_step \<equiv> poll_step (\<lambda>_. []) (\<lambda>s. Inr (SStr s)) (\<lambda>_. None)"

definition demo_polls :: "poll_event list" where
  "demo_polls = [EvTrack 0 (demo_track ''a'' 1000), EvTrack 1 (demo_track ''b'' 1000),
     EvResponse 1 5 (Inr (JObj [(''status'', JStr ''NOT_FOUND'')])),
     EvResponse 0 6 (Inr (JObj [(''status'', JStr ''SUCCESS'')])), EvWake 1 105]"

lemma registry_is_running_polls_witness:
  "jm_get (ps_pending (foldl demo_step newPollState demo_polls)) ''b'' = Some 1"
proof -
  let ?s = "foldl demo_step newPollState demo_polls"
  have "1 < length (ps_polls ?s) \<and> pt_hash (ps_polls ?s ! 1) = ''b'' \<and> \<not> settled (ps_polls ?s ! 1)"
    by code_simp
  then show ?thesis
    using registry_is_running_polls [OF refl, of "\<lambda>_. []" "\<lambda>s. Inr (SStr s)" "\<lambda>_. None" demo_polls "''b''" 1]
    by blast
qed

section \<open>How a poll settles\<close>

lemma poll_settle_nth:
  "i < length (ps_polls s) \<Longrightarrow> ps_polls (poll_settle i res s) ! j =
     (if j = i then (ps_polls s ! i)\<lparr>tk_phase := PSettled res\<rparr> else ps_polls s ! j)"
  by (simp add: poll_settle_def Let_def)

lemma poll_check_nth:
  "i < length (ps_polls s) \<Longrightarrow> ps_polls (poll_check i now s) ! j =
     (if j \<noteq> i then ps_polls s ! j
      else let p = ps_polls s ! i in
        if tk_cancelled p then p\<lparr>tk_phase := PSettled (Inl (poll_cancelled (pt_hash p)))\<rparr>
        else if before_deadline now p then p\<lparr>tk_phase := PWaiting, tk_requests := tk_requests p + 1\<rparr>
        else p\<lparr>tk_phase := PSettled (Inl (poll_timeout p))\<rparr>)"
  by (simp add: poll_check_def Let_def poll_settle_nth)

lemma poll_check_length [simp]: "length (ps_polls (poll_check i now s)) = length (ps_polls s)"
  by (simp add: poll_check_def poll_settle_def Let_def)

text \<open>Tracking leaves the loops there are alone.\<close>

lemma track_nth: "j < length (ps_polls s) \<Longrightarrow>
    ps_polls (fst (trackTransaction now opts s)) ! j = ps_polls s ! j \<and>
    j < length (ps_polls (fst (trackTransaction now opts s)))"
  by (simp add: trackTransaction_def Let_def poll_check_nth nth_append split: option.split)

lemma import_entries_nth: "j < length (ps_polls s) \<Longrightarrow>
    ps_polls (fst (import_entries dparse now cs s ids)) ! j = ps_polls s ! j \<and>
    j < length (ps_polls (fst (import_entries dparse now cs s ids)))"
proof (induction cs arbitrary: s ids)
  case (Cons c cs)
  obtain s' r where step: "import_entry dparse now c s = (s', r)" by (cases "import_entry dparse now c s")
  have "s' = s \<or> (\<exists>opts. s' = fst (trackTransaction now opts s))"
    using import_entry_tracks [of dparse now c s] by (simp add: step)
  then have "ps_polls s' ! j = ps_polls s ! j \<and> j < length (ps_polls s')"
    using track_nth [OF Cons.prems] Cons.prems by auto
  then show ?case using Cons.IH [of s'] by (simp add: step split: option.split)
qed simp

lemma import_nth: "j < length (ps_polls s) \<Longrightarrow>
    ps_polls (fst (importState dtext jparse dparse now st s)) ! j = ps_polls s ! j"
  using importState_entries [of dtext jparse dparse now st s] import_entries_nth [of j s dparse now] by auto

lemma import_nth_length: "j < length (ps_polls s) \<Longrightarrow>
    j < length (ps_polls (fst (importState dtext jparse dparse now st s)))"
  using importState_entries [of dtext jparse dparse now st s] import_entries_nth [of j s dparse now] by auto

lemma track_new:
  assumes "length (ps_polls s) \<le> j" and "j < length (ps_polls (fst (trackTransaction now opts s)))"
    and "tk_phase (ps_polls (fst (trackTransaction now opts s)) ! j) = PSettled res"
  shows "\<not> before_deadline now (ps_polls (fst (trackTransaction now opts s)) ! j) \<and>
    res = Inl (poll_timeout (ps_polls (fst (trackTransaction now opts s)) ! j))"
  using assms
  by (auto simp: trackTransaction_def Let_def poll_check_nth nth_append newTracked_def before_deadline_def
      poll_timeout_def split: option.splits if_splits)

lemma import_entry_new: "length (ps_polls s) \<le> j \<Longrightarrow>
    j < length (ps_polls (fst (import_entry dparse now c s))) \<Longrightarrow>
    tk_phase (ps_polls (fst (import_entry dparse now c s)) ! j) = PWaiting"
  by (auto simp: import_entry_def Let_def case_prod_unfold trackTransaction_def poll_check_nth nth_append
      newTracked_def before_deadline_def import_options_def split: option.splits if_splits)

lemma import_entries_new: "length (ps_polls s) \<le> j \<Longrightarrow>
    j < length (ps_polls (fst (import_entries dparse now cs s ids))) \<Longrightarrow>
    tk_phase (ps_polls (fst (import_entries dparse now cs s ids)) ! j) = PWaiting"
proof (induction cs arbitrary: s ids)
  case (Cons c cs)
  obtain s' r where step: "import_entry dparse now c s = (s', r)" by (cases "import_entry dparse now c s")
  obtain ids' where go: "import_entries dparse now (c # cs) s ids = import_entries dparse now cs s' ids'"
    by (cases r) (simp_all add: step)
  show ?case
  proof (cases "j < length (ps_polls s')")
    case True
    then show ?thesis using import_entry_new [of s j dparse now c] Cons.prems(1)
        import_entries_nth [OF True, of dparse now cs ids'] unfolding go by (simp add: step)
  next
    case False
    then show ?thesis using Cons.IH [of s' ids'] Cons.prems(2) unfolding go by simp
  qed
qed simp

lemma import_new: "length (ps_polls s) \<le> j \<Longrightarrow>
    j < length (ps_polls (fst (importState dtext jparse dparse now st s))) \<Longrightarrow>
    tk_phase (ps_polls (fst (importState dtext jparse dparse now st s)) ! j) = PWaiting"
  using importState_entries [of dtext jparse dparse now st s] import_entries_new [of s j dparse now] by auto

lemma poll_step_length: "i < length (ps_polls s) \<Longrightarrow> i < length (ps_polls (poll_step dtext jparse dparse s ev))"
  using track_nth [of i s] import_nth_length [of i s]
  by (cases ev) (simp_all add: poll_step_def poll_response_def poll_settle_def poll_cancel_def Let_def
      split: sum.split)

lemma settle_cause:
  assumes "i < length (ps_polls s)"
    and "tk_phase (ps_polls (poll_step dtext jparse dparse s ev) ! i) = PSettled res"
  shows "tk_phase (ps_polls s ! i) = PSettled res \<or>
    (tk_phase (ps_polls s ! i) = PWaiting \<and> (\<exists>now. ev = EvResponse i now res) \<and>
       (\<forall>r. res = Inr r \<longrightarrow> final_status r)) \<or>
    (\<exists>t now. tk_phase (ps_polls s ! i) = PSleeping t \<and> t \<le> now \<and> ev = EvWake i now \<and>
       (if tk_cancelled (ps_polls s ! i) then res = Inl (poll_cancelled (pt_hash (ps_polls s ! i)))
        else \<not> before_deadline now (ps_polls s ! i) \<and> res = Inl (poll_timeout (ps_polls s ! i))))"
proof (cases ev)
  case (EvTrack now opts)
  then show ?thesis using assms track_nth [OF assms(1)] by (simp add: poll_step_def)
next
  case (EvResponse k now r)
  then show ?thesis using assms
    by (cases "k = i") (auto simp: poll_step_def poll_response_def Let_def poll_settle_nth
        split: if_splits sum.splits)
next
  case (EvWake k now)
  then show ?thesis using assms
    by (cases "k = i") (auto simp: poll_step_def poll_check_nth Let_def split: if_splits poll_phase.splits)
next
  case (EvCancel k)
  then show ?thesis using assms
    by (cases "k = i") (auto simp: poll_step_def poll_cancel_def split: if_splits)
next
  case (EvImport now st)
  then show ?thesis using assms import_nth [OF assms(1)] by (simp add: poll_step_def)
qed

lemma settled_stays:
  assumes "i < length (ps_polls s)" and "tk_phase (ps_polls s ! i) = PSettled res"
  shows "tk_phase (ps_polls (poll_step dtext jparse dparse s ev) ! i) = PSettled res"
proof (cases ev)
  case (EvResponse k now r)
  then show ?thesis using assms
    by (cases "k = i") (auto simp: poll_step_def poll_response_def Let_def poll_settle_nth split: sum.split)
next
  case (EvWake k now)
  then show ?thesis using assms by (cases "k = i") (auto simp: poll_step_def poll_check_nth Let_def)
qed (use assms track_nth [OF assms(1)] import_nth [OF assms(1)] in
    \<open>simp_all add: poll_step_def poll_cancel_def nth_list_update\<close>)

lemma settle_new:
  assumes "length (ps_polls s) \<le> i" and "i < length (ps_polls (poll_step dtext jparse dparse s ev))"
    and "tk_phase (ps_polls (poll_step dtext jparse dparse s ev) ! i) = PSettled res"
  shows "\<exists>now opts. ev = EvTrack now opts \<and>
    \<not> before_deadline now (ps_polls (poll_step dtext jparse dparse s ev) ! i) \<and>
    res = Inl (poll_timeout (ps_polls (poll_step dtext jparse dparse s ev) ! i))"
proof (cases ev)
  case (EvTrack now opts)
  then show ?thesis using assms track_new [of s i now opts res] by (simp add: poll_step_def)
next
  case (EvImport now st)
  then show ?thesis using assms import_new [OF assms(1), of dtext jparse dparse now st]
    by (simp add: poll_step_def)
qed (use assms in \<open>auto simp: poll_step_def poll_response_def poll_settle_def poll_cancel_def Let_def
    split: sum.splits if_splits\<close>)

text \<open>C19. 
  A tracked transaction settles only by the answer it waits for, final or an error, or when its
  loop wakes up and finds that it was cancelled or that its deadline has passed. One that is
  settled as soon as it is made was tracked with a deadline that had passed already. And no
  step, of whatever kind, changes what a transaction has settled with or forgets it.
\<close>

theorem poll_settles_for_cause:
  fixes dtext jparse dparse s ev defines "s' \<equiv> poll_step dtext jparse dparse s ev"
  shows "(i < length (ps_polls s) \<longrightarrow> i < length (ps_polls s') \<and>
      (\<forall>res. tk_phase (ps_polls s ! i) = PSettled res \<longrightarrow> tk_phase (ps_polls s' ! i) = PSettled res)) \<and>
    (\<forall>res. i < length (ps_polls s') \<and> tk_phase (ps_polls s' ! i) = PSettled res \<longrightarrow>
      (if i < length (ps_polls s)
       then tk_phase (ps_polls s ! i) = PSettled res \<or>
         (tk_phase (ps_polls s ! i) = PWaiting \<and> (\<exists>now. ev = EvResponse i now res) \<and>
            (\<forall>r. res = Inr r \<longrightarrow> final_status r)) \<or>
         (\<exists>t now. tk_phase (ps_polls s ! i) = PSleeping t \<and> t \<le> now \<and> ev = EvWake i now \<and>
            (if tk_cancelled (ps_polls s ! i) then res = Inl (poll_cancelled (pt_hash (ps_polls s ! i)))
             else \<not> before_deadline now (ps_polls s ! i) \<and> res = Inl (poll_timeout (ps_polls s ! i))))
       else \<exists>now opts. ev = EvTrack now opts \<and> \<not> before_deadline now (ps_polls s' ! i) \<and>
              res = Inl (poll_timeout (ps_polls s' ! i))))"
  unfolding s'_def
  using settle_cause [of i s dtext jparse dparse ev] settled_stays [of i s _ dtext jparse dparse ev]
    settle_new [of s i dtext jparse dparse ev] poll_step_length [of i s dtext jparse dparse ev]
  by (auto simp: not_less)

lemma poll_settles_for_cause_witness:
  "tk_phase (ps_polls (foldl demo_step newPollState (take 4 demo_polls)) ! 0) =
     PSettled (Inr (JObj [(''status'', JStr ''SUCCESS'')])) \<and>
   final_status (JObj [(''status'', JStr ''SUCCESS'')])"
proof -
  let ?s = "foldl demo_step newPollState (take 3 demo_polls)"
  have "tk_phase (ps_polls (demo_step ?s (demo_polls ! 3)) ! 0) =
      PSettled (Inr (JObj [(''status'', JStr ''SUCCESS'')]))"
    "tk_phase (ps_polls ?s ! 0) = PWaiting" "0 < length (ps_polls ?s)"
    "tk_phase (ps_polls (foldl demo_step newPollState (take 4 demo_polls)) ! 0) =
      PSettled (Inr (JObj [(''status'', JStr ''SUCCESS'')]))"
    by code_simp+
  then show ?thesis
    using poll_settles_for_cause [where i = 0 and s = ?s and dtext = "\<lambda>_. []"
        and jparse = "\<lambda>s. Inr (SStr s)" and dparse = "\<lambda>_. None" and ev = "demo_polls ! 3"] by auto
qed

text \<open>A transaction that was cancelled while it slept rejects its promise when it wakes.\<close>

theorem cancelled_poll_rejects:
  "tk_phase (ps_polls (foldl demo_step newPollState
     [EvTrack 0 (demo_track ''a'' 1000), EvResponse 0 5 (Inr (JObj [(''status'', JStr ''NOT_FOUND'')])),
      EvCancel 0, EvTrack 50 (demo_track ''a'' 9000), EvWake 0 105]) ! 0) =
   PSettled (Inl (AxErr CAxionveraError ''Transaction tracking cancelled for a'' None None None))"
  by code_simp

section \<open>How often a poll asks\<close>

definition event_time :: "poll_event \<Rightarrow> int option" where
  "event_time ev = (case ev of EvTrack now opts \<Rightarrow> Some now | EvResponse i now res \<Rightarrow> Some now
     | EvWake i now \<Rightarrow> Some now | EvCancel i \<Rightarrow> None | EvImport now st \<Rightarrow> Some now)"

text \<open>The machine with a clock that does not go back.\<close>

definition timed_step ::
    "(int option \<Rightarrow> string) \<Rightarrow> (string \<Rightarrow> thrown + sval) \<Rightarrow> (string \<Rightarrow> int option)
      \<Rightarrow> int \<times> PollState \<Rightarrow> poll_event \<Rightarrow> int \<times> PollState" where
  "timed_step dtext jparse dparse ts ev =
    (case event_time ev of
       None \<Rightarrow> (fst ts, poll_step dtext jparse dparse (snd ts) ev)
     | Some now \<Rightarrow> if fst ts \<le> now then (now, poll_step dtext jparse dparse (snd ts) ev) else ts)"

definition spent :: "TrackedTransaction \<Rightarrow> int \<Rightarrow> int" where
  "spent p n = pt_submittedAt p + n * timer_delay (pt_intervalMs p)"

definition pace :: "int \<Rightarrow> TrackedTransaction \<Rightarrow> bool" where
  "pace t p \<longleftrightarrow>
    (case tk_phase p of
       PWaiting \<Rightarrow> spent p (int (tk_requests p) - 1) \<le> t
     | PSleeping due \<Rightarrow> spent p (int (tk_requests p)) \<le> due
     | PSettled _ \<Rightarrow> True) \<and>
    (0 < tk_requests p \<longrightarrow> before_deadline (spent p (int (tk_requests p) - 1)) p)"

definition paced :: "int \<times> PollState \<Rightarrow> bool" where
  "paced ts \<longleftrightarrow> (\<forall>p \<in> set (ps_polls (snd ts)). pace (fst ts) p)"

lemma pace_mono: "pace t p \<Longrightarrow> t \<le> t' \<Longrightarrow> pace t' p"
  by (auto simp: pace_def split: poll_phase.split)

lemma paced_mono: "paced (t, s) \<Longrightarrow> t \<le> t' \<Longrightarrow> paced (t', s)"
  by (auto simp: paced_def intro: pace_mono)

lemma paced_update: "paced (t, s) \<Longrightarrow> pace t p \<Longrightarrow> paced (t, s\<lparr>ps_polls := (ps_polls s)[i := p]\<rparr>)"
  using set_update_subset_insert [of "ps_polls s" i p] by (auto simp: paced_def)

lemma spent_simps [simp]:
  "spent (p\<lparr>tk_phase := ph\<rparr>) n = spent p n"
  "spent (p\<lparr>tk_phase := ph, tk_requests := m\<rparr>) n = spent p n"
  "spent (p\<lparr>tk_cancelled := c\<rparr>) n = spent p n"
  by (simp_all add: spent_def)

lemma before_deadline_simps [simp]:
  "before_deadline t (p\<lparr>tk_phase := ph\<rparr>) = before_deadline t p"
  "before_deadline t (p\<lparr>tk_phase := ph, tk_requests := m\<rparr>) = before_deadline t p"
  "before_deadline t (p\<lparr>tk_cancelled := c\<rparr>) = before_deadline t p"
  by (simp_all add: before_deadline_def)

lemma spent_Suc: "spent p (n + 1) = spent p n + timer_delay (pt_intervalMs p)"
  by (simp add: spent_def algebra_simps)

lemma paced_settle: "paced (t, s) \<Longrightarrow> i < length (ps_polls s) \<Longrightarrow> paced (t, poll_settle i res s)"
proof -
  assume p: "paced (t, s)" and i: "i < length (ps_polls s)"
  have "pace t ((ps_polls s ! i)\<lparr>tk_phase := PSettled res\<rparr>)"
    using p nth_mem [OF i] by (auto simp: paced_def pace_def)
  then show ?thesis using paced_update [OF p]
    by (simp add: poll_settle_def Let_def paced_def)
qed

lemma paced_check:
  assumes "paced (now, s)" and "i < length (ps_polls s)"
    and "spent (ps_polls s ! i) (int (tk_requests (ps_polls s ! i))) \<le> now"
  shows "paced (now, poll_check i now s)"
proof -
  let ?p = "ps_polls s ! i"
  have "pace now (?p\<lparr>tk_phase := PWaiting, tk_requests := tk_requests ?p + 1\<rparr>)" if "before_deadline now ?p"
    using that assms(3) by (auto simp: pace_def before_deadline_def split: option.splits)
  then show ?thesis using assms
    by (auto simp: poll_check_def Let_def intro!: paced_update paced_settle)
qed

lemma paced_track: "paced (now, s) \<Longrightarrow> paced (now, fst (trackTransaction now opts s))"
proof (cases "jm_get (ps_pending s) (to_hash opts)")
  case None
  assume "paced (now, s)"
  moreover have "pace now (newTracked now opts)"
    by (simp add: pace_def newTracked_def spent_def timer_delay_def)
  ultimately have "paced (now, s\<lparr>ps_pending := jm_set (to_hash opts) (length (ps_polls s)) (ps_pending s),
      ps_polls := ps_polls s @ [newTracked now opts]\<rparr>)"
    by (simp add: paced_def)
  then show ?thesis using None
    by (simp add: trackTransaction_def Let_def paced_check newTracked_def spent_def)
qed (simp add: trackTransaction_def)

lemma paced_import_entries: "paced (now, s) \<Longrightarrow> paced (now, fst (import_entries dparse now cs s ids))"
proof (induction cs arbitrary: s ids)
  case (Cons c cs)
  have "paced (now, fst (import_entry dparse now c s))"
    using import_entry_tracks [of dparse now c s] Cons.prems paced_track [of now s] by auto
  then show ?case using Cons.IH by (auto split: prod.split option.split)
qed simp

lemma paced_step: "paced ts \<Longrightarrow> paced (timed_step dtext jparse dparse ts ev)"
proof -
  assume p: "paced ts"
  obtain t s where ts: "ts = (t, s)" by (cases ts)
  have at: "pace t' (ps_polls s ! i)" if "t \<le> t'" "i < length (ps_polls s)" for i t'
    using p that(1) nth_mem [OF that(2)] pace_mono unfolding ts paced_def by (metis fst_conv snd_conv)
  show ?thesis
  proof (cases ev)
    case (EvTrack now opts)
    then show ?thesis using p paced_track paced_mono
      by (auto simp: ts timed_step_def event_time_def poll_step_def)
  next
    case (EvResponse i now res)
    have "pace now ((ps_polls s ! i)\<lparr>tk_phase := PSleeping (now + timer_delay (pt_intervalMs (ps_polls s ! i)))\<rparr>)"
      if "t \<le> now" "i < length (ps_polls s)" "tk_phase (ps_polls s ! i) = PWaiting"
      using at [OF that(1,2)] that(3) spent_Suc [of "ps_polls s ! i" "int (tk_requests (ps_polls s ! i)) - 1"]
      by (simp add: pace_def)
    then show ?thesis using p paced_mono [of t s now] EvResponse
      by (auto simp: ts timed_step_def event_time_def poll_step_def poll_response_def Let_def
          intro!: paced_settle paced_update split: sum.split)
  next
    case (EvWake i now)
    have "spent (ps_polls s ! i) (int (tk_requests (ps_polls s ! i))) \<le> now"
      if "t \<le> now" "i < length (ps_polls s)" "tk_phase (ps_polls s ! i) = PSleeping due" "due \<le> now" for due
      using at [OF that(1,2)] that(3,4) by (simp add: pace_def)
    then show ?thesis using p paced_mono [of t s now] EvWake
      by (auto simp: ts timed_step_def event_time_def poll_step_def intro!: paced_check
          split: poll_phase.splits)
  next
    case (EvCancel i)
    have "pace t ((ps_polls s ! i)\<lparr>tk_cancelled := True\<rparr>)" if "i < length (ps_polls s)"
      using at [OF order_refl that] by (simp add: pace_def split: poll_phase.splits)
    then show ?thesis using p EvCancel
      by (auto simp: ts timed_step_def event_time_def poll_step_def poll_cancel_def intro!: paced_update)
  next
    case (EvImport now st)
    have "paced (now, fst (importState dtext jparse dparse now st s))" if "t \<le> now"
      using importState_entries [of dtext jparse dparse now st s] paced_import_entries [of now s]
        paced_mono [of t s now] p that by (auto simp: ts)
    then show ?thesis using p EvImport
      by (auto simp: ts timed_step_def event_time_def poll_step_def)
  qed
qed

interpretation timed_polls: invariant_machine paced "timed_step dtext jparse dparse" "(t, newPollState)"
  for dtext jparse dparse t
  by unfold_locales (simp add: paced_def newPollState_def, rule paced_step)

text \<open>
  A poll asks at most once per interval: in every run the requests it has made, but the first,
  fit with their delays between its submission and its deadline.
\<close>

theorem poll_requests_bounded:
  assumes "p \<in> set (ps_polls (snd (foldl (timed_step dtext jparse dparse) (t0, newPollState) evs)))"
    and "pt_deadline p = Some d" and "0 < tk_requests p"
  shows "(int (tk_requests p) - 1) * timer_delay (pt_intervalMs p) < d - pt_submittedAt p"
  using timed_polls.inv_run [where t = t0 and dtext = dtext and jparse = jparse and dparse = dparse and es = evs] assms
  by (auto simp: paced_def pace_def before_deadline_def spent_def)

lemma poll_requests_bounded_witness:
  "\<exists>p. p \<in> set (ps_polls (snd (foldl (timed_step (\<lambda>_. []) (\<lambda>s. Inr (SStr s)) (\<lambda>_. None)) (0, newPollState) demo_polls)))
     \<and> tk_requests p = 2 \<and> (int (tk_requests p) - 1) * timer_delay (pt_intervalMs p) < 1000 - pt_submittedAt p"
proof -
  let ?ps = "ps_polls (snd (foldl (timed_step (\<lambda>_. []) (\<lambda>s. Inr (SStr s)) (\<lambda>_. None)) (0, newPollState) demo_polls))"
  have "1 < length ?ps" "pt_deadline (?ps ! 1) = Some 1000" "tk_requests (?ps ! 1) = 2" by code_simp+
  then have "?ps ! 1 \<in> set ?ps \<and> tk_requests (?ps ! 1) = 2 \<and>
      (int (tk_requests (?ps ! 1)) - 1) * timer_delay (pt_intervalMs (?ps ! 1)) < 1000 - pt_submittedAt (?ps ! 1)"
    using poll_requests_bounded [of "?ps ! 1", OF nth_mem] by (metis nth_mem zero_less_numeral)
  then show ?thesis by blast
qed

section \<open>A session survives a reload\<close>

text \<open>What an import at \<open>now\<close> makes of an exported transaction.\<close>

definition resumed :: "int \<Rightarrow> PendingTransaction \<Rightarrow> PendingTransaction" where
  "resumed now p = p\<lparr>pt_submittedAt := now,
     pt_intervalMs := if pt_intervalMs p > 0 then pt_intervalMs p else 1000\<rparr>"

definition due :: "int \<Rightarrow> PendingTransaction \<Rightarrow> bool" where
  "due now p \<longleftrightarrow> (case pt_deadline p of None \<Rightarrow> False | Some d \<Rightarrow> now < d)"

definition exportable :: "(string \<Rightarrow> int option) \<Rightarrow> PendingTransaction \<Rightarrow> bool" where
  "exportable dparse p \<longleftrightarrow> pt_hash p \<noteq> [] \<and>
     (pt_simulationContext p = SUndef \<or>
      (\<exists>ps. pt_simulationContext p = SObj ps) \<and> unmarked dparse (pt_simulationContext p))"

lemma thaw_freeze_context:
  assumes "\<And>t. dparse (toISO t) = Some t" and "exportable dparse p"
    and "freezeContext toISO (pt_simulationContext p) = Inr w"
  shows "thawContext dparse w = pt_simulationContext p"
proof (cases "pt_simulationContext p = SUndef")
  case True
  then show ?thesis using assms(3) by (auto simp: freezeContext_def thawContext_def)
next
  case False
  then obtain ps where ps: "pt_simulationContext p = SObj ps" "unmarked dparse (SObj ps)"
    using assms(2) by (auto simp: exportable_def)
  then have fr: "freezeDates toISO (SObj ps) = Inr w" using assms(3) by (simp add: freezeContext_def)
  then have "s_truthy w" by (auto split: sum.splits)
  then show ?thesis using freeze_thaw_roundtrip [OF assms(1) fr ps(2)] ps(1) by (simp add: thawContext_def)
qed

text \<open>One entry: an expired one is dropped, any other is tracked again at the end of the list.\<close>

lemma import_exported_entry:
  assumes codec: "\<And>t. dparse (toISO t) = Some t" and ex: "exportable dparse (PendingTransaction.truncate tx)"
    and entry: "export_entry toISO tx = Inr c"
    and inv: "poll_inv s" and new: "\<not> jm_has (ps_pending s) (pt_hash tx)"
  shows "let s' = fst (import_entry dparse now c s) in poll_inv s' \<and>
    getPendingTransactions s' = getPendingTransactions s @
      (if due now (PendingTransaction.truncate tx) then [resumed now (PendingTransaction.truncate tx)] else []) \<and>
    (\<forall>h. jm_has (ps_pending s') h \<longrightarrow> jm_has (ps_pending s) h \<or> h = pt_hash tx)"
proof -
  let ?p = "PendingTransaction.truncate tx"
  obtain ctx d where ctx: "freezeContext toISO (pt_simulationContext tx) = Inr ctx" and d: "pt_deadline tx = Some d"
    and c: "c = SObj [(''hash'', SStr (pt_hash tx)), (''simulationContext'', ctx),
             (''submittedAt'', SStr (toISO (pt_submittedAt tx))),
             (''intervalMs'', SNum (pt_intervalMs tx)), (''deadline'', SStr (toISO d)),
             (''label'', pt_label tx)]"
    using entry by (auto simp: export_entry_def toISOString_def split: sum.splits option.splits)
  have thaw: "thawContext dparse ctx = pt_simulationContext tx"
    using thaw_freeze_context [OF codec ex] ctx by (simp add: PendingTransaction.truncate_def)
  have h: "pt_hash tx \<noteq> []" using ex by (simp add: exportable_def PendingTransaction.truncate_def)
  show ?thesis
  proof (cases "now < d")
    case False
    then show ?thesis using h new inv d
      by (simp add: import_entry_def c entry_props_def import_hash_def sprop_def import_deadline_def codec
          due_def PendingTransaction.truncate_def jm_has_get)
  next
    case True
    let ?ps = "[(''hash'', SStr (pt_hash tx)), (''simulationContext'', ctx),
             (''submittedAt'', SStr (toISO (pt_submittedAt tx))),
             (''intervalMs'', SNum (pt_intervalMs tx)), (''deadline'', SStr (toISO d)),
             (''label'', pt_label tx)]"
    let ?o = "import_options dparse (pt_hash tx) d ?ps"
    have opts: "to_hash ?o = pt_hash tx" by (simp add: import_options_def)
    have new_get: "jm_get (ps_pending s) (pt_hash tx) = None" using new by (simp add: jm_has_get)
    have s': "fst (import_entry dparse now c s) = fst (trackTransaction now ?o s)"
      using True h new_get
      by (simp add: import_entry_def c entry_props_def import_hash_def sprop_def import_deadline_def codec
          case_prod_unfold Let_def)
    let ?n = "newTracked now ?o"
    have live: "\<not> tk_cancelled ?n \<and> before_deadline now ?n" "pt_hash ?n = pt_hash tx"
      using True by (simp_all add: newTracked_def import_options_def before_deadline_def)
    then have track: "fst (trackTransaction now ?o s) =
        s\<lparr>ps_pending := ps_pending s @ [(pt_hash tx, length (ps_polls s))],
          ps_polls := ps_polls s @ [?n\<lparr>tk_phase := PWaiting, tk_requests := tk_requests ?n + 1\<rparr>]\<rparr>"
      using new_get new opts by (simp add: trackTransaction_def Let_def poll_check_def jm_set_new)
    have idx: "i < length (ps_polls s)" if "i \<in> set (jm_values (ps_pending s))" for i
      using that inv by (auto simp: jm_values_def poll_inv_def jm_get_mem)
    have same: "map (\<lambda>i. (ps_polls s @ [q]) ! i) (jm_values (ps_pending s)) = tracked_values s" for q
      using idx by (auto simp: tracked_values_def nth_append)
    have "PendingTransaction.truncate (?n\<lparr>tk_phase := PWaiting, tk_requests := tk_requests ?n + 1\<rparr>) = resumed now ?p"
      by (simp add: newTracked_def import_options_def resumed_def PendingTransaction.truncate_def sprop_def
          thaw d or_int_def)
    then have "getPendingTransactions (fst (trackTransaction now ?o s)) =
        getPendingTransactions s @ [resumed now ?p]"
      using same by (simp add: track getPendingTransactions_def tracked_values_def jm_values_def)
    moreover have "due now ?p" using True d by (simp add: due_def PendingTransaction.truncate_def)
    moreover have "poll_inv (fst (trackTransaction now ?o s))" by (rule poll_inv_track [OF inv])
    ultimately show ?thesis
      by (auto simp: s' Let_def track jm_has_iff)
  qed
qed

lemma import_exported_entries:
  assumes codec: "\<And>t. dparse (toISO t) = Some t"
    and "\<forall>tx \<in> set txs. exportable dparse (PendingTransaction.truncate tx)"
    and "export_entries toISO txs = Inr cs" and "poll_inv s"
    and "distinct (map pt_hash txs)" and "\<forall>tx \<in> set txs. \<not> jm_has (ps_pending s) (pt_hash tx)"
  shows "getPendingTransactions (fst (import_entries dparse now cs s ids)) =
    getPendingTransactions s @
      map (resumed now) (filter (due now) (map PendingTransaction.truncate txs))"
  using assms(2-)
proof (induction txs arbitrary: cs s ids)
  case (Cons tx txs)
  obtain c cs' where c: "export_entry toISO tx = Inr c" "export_entries toISO txs = Inr cs'" "cs = c # cs'"
    using Cons.prems(2) by (auto split: sum.splits)
  let ?s = "fst (import_entry dparse now c s)"
  have one: "poll_inv ?s" "getPendingTransactions ?s = getPendingTransactions s @
      (if due now (PendingTransaction.truncate tx) then [resumed now (PendingTransaction.truncate tx)] else [])"
    "\<forall>h. jm_has (ps_pending ?s) h \<longrightarrow> jm_has (ps_pending s) h \<or> h = pt_hash tx"
    using import_exported_entry [OF codec _ c(1) Cons.prems(3), of now] Cons.prems(1,5) by (auto simp: Let_def)
  have "\<forall>tx' \<in> set txs. \<not> jm_has (ps_pending ?s) (pt_hash tx')"
    using one(3) Cons.prems(4,5) by auto (metis imageI)
  then have "getPendingTransactions (fst (import_entries dparse now cs' ?s ids)) =
      getPendingTransactions ?s @ map (resumed now) (filter (due now) (map PendingTransaction.truncate txs))" for ids
    using Cons.IH [OF _ c(2) one(1)] Cons.prems(1,4) by simp
  then show ?case by (simp add: c(3) one(2) case_prod_unfold split: option.split)
qed simp

text \<open>C22. 
  What is exported comes back: a fresh client that imports the exported state polls the same
  transactions in the same order, with their contexts (dates included), deadlines and labels,
  but for those whose deadline has passed; the time of submission is not restored.
\<close>

theorem export_import_roundtrip:
  assumes "\<And>t. dparse (toISO t) = Some t"
    and "s = foldl (poll_step dtext jparse dparse) newPollState evs"
    and "\<forall>p \<in> set (getPendingTransactions s). exportable dparse p"
    and "exportState toISO t s = Inr st"
  shows "\<exists>s' ids. importState dtext jparse dparse now st newPollState = (s', Inr ids) \<and>
    getPendingTransactions s' = map (resumed now) (filter (due now) (getPendingTransactions s))"
proof -
  obtain xs where xs: "export_entries toISO (tracked_values s) = Inr xs"
    and st: "st = SObj [(''version'', SNum HYDRATION_STATE_VERSION),
         (''exportedAt'', SStr (toISO t)), (''pending'', SArr xs)]"
    using assms(4) by (auto simp: exportState_def split: sum.splits)
  have "poll_inv s" using polls.inv_run assms(2) by simp
  then have "distinct (map pt_hash (tracked_values s))"
    by (simp add: tracked_hashes) (simp add: poll_inv_def jm_ok_def)
  then have "getPendingTransactions (fst (import_entries dparse now xs newPollState [])) =
      map (resumed now) (filter (due now) (getPendingTransactions s))"
    using import_exported_entries [OF assms(1) _ xs poll_inv_new, of now] assms(3)
    by (simp add: getPendingTransactions_def newPollState_def tracked_values_def jm_values_def)
  then show ?thesis
    by (auto simp: importState_def import_raw_def st import_pending_def entry_props_def sprop_def
        HYDRATION_STATE_VERSION_def case_prod_unfold Let_def)
qed

definition demo_export :: sval where
  "demo_export = (case exportState demo_ISO 150 (foldl (poll_step (\<lambda>_. []) (\<lambda>s. Inr (SStr s)) demo_parse)
     newPollState demo_polls) of Inr st \<Rightarrow> st | Inl _ \<Rightarrow> SUndef)"

lemma export_import_roundtrip_witness:
  "\<exists>s' ids. importState (\<lambda>_. []) (\<lambda>s. Inr (SStr s)) demo_parse 500 demo_export newPollState = (s', Inr ids) \<and>
     map pt_hash (getPendingTransactions s') = [''b'']"
proof -
  let ?step = "poll_step (\<lambda>_. []) (\<lambda>s. Inr (SStr s)) demo_parse"
  let ?s = "foldl ?step newPollState demo_polls"
  have "getPendingTransactions ?s = [\<lparr>pt_hash = ''b'', pt_simulationContext = SObj [(''at'', SDate (Some 5))],
      pt_submittedAt = 1, pt_intervalMs = 100, pt_deadline = Some 1000, pt_label = SUndef\<rparr>]"
    by code_simp
  moreover have "unmarked demo_parse (SObj [(''at'', SDate (Some 5))])" by code_simp
  moreover have "exportState demo_ISO 150 ?s = Inr demo_export" by code_simp
  ultimately show ?thesis
    using export_import_roundtrip [of demo_parse demo_ISO ?s "\<lambda>_. []" "\<lambda>s. Inr (SStr s)" demo_polls 150 demo_export 500]
    by (auto simp: demo_codec exportable_def due_def resumed_def)
qed

end
