(* ===== verification/XdrCache.thy ===== *)
theory XdrCache
  imports AccountCache
begin

text \<open>
  The check of XDR strings from outside (\<open>src/src/utils/xdrValidator.ts\<close>) and the cache of
  decoded values (\<open>src/src/utils/xdrCache.ts\<close>). The Stellar SDK's decoder is the parameter
  \<open>fromXDR\<close>, which gives a decoded value of type \<open>'v\<close> or raises. The cache refines two
  specifications: its answers are those of decoding without a cache, and its keys are the most
  recently used inputs.
\<close>

section \<open>The validator\<close>

definition MAX_XDR_STRING_LENGTH :: nat where
  "MAX_XDR_STRING_LENGTH = 65536"

definition base64_char :: "char \<Rightarrow> bool" where
  "base64_char c \<longleftrightarrow>
    (let n = (of_char c :: nat) in
     (65 \<le> n \<and> n \<le> 90) \<or> (97 \<le> n \<and> n \<le> 122) \<or> (48 \<le> n \<and> n \<le> 57) \<or>
     c = CHR ''+'' \<or> c = CHR ''/'' \<or> c = CHR ''-'' \<or> c = CHR ''_'')"

text \<open>\<open>/^[A-Za-z0-9+/\-_]{4,}[=]{0,2}$/\<close>\<close>

definition BASE64_RE :: "string \<Rightarrow> bool" where
  "BASE64_RE s \<longleftrightarrow>
    (let body = takeWhile base64_char s; pad = dropWhile base64_char s
     in 4 \<le> length body \<and> length pad \<le> 2 \<and> list_all (\<lambda>c. c = CHR ''='') pad)"

definition isValidXDR :: "nat \<Rightarrow> jsv \<Rightarrow> bool" where
  "isValidXDR maxLength x =
    (case x of
       JStr s \<Rightarrow> if s = [] then False else if length s > maxLength then False else BASE64_RE s
     | _ \<Rightarrow> False)"

definition js_typeof :: "jsv \<Rightarrow> string" where
  "js_typeof x = (case x of JUndef \<Rightarrow> ''undefined'' | JBool _ \<Rightarrow> ''boolean'' | JNum _ \<Rightarrow> ''number''
     | JBig _ \<Rightarrow> ''bigint'' | JStr _ \<Rightarrow> ''string'' | _ \<Rightarrow> ''object'')"

definition assertValidXDR :: "string option \<Rightarrow> nat \<Rightarrow> jsv \<Rightarrow> thrown + unit" where
  "assertValidXDR context maxLength x =
    (let loc = (case context of None \<Rightarrow> [] | Some c \<Rightarrow> if c = [] then [] else '' in '' @ c) in
     case x of
       JStr s \<Rightarrow>
         if s = [] then Inl (newInvalidXDRError (''XDR input'' @ loc @ '' must not be empty'') s)
         else if length s > maxLength
         then Inl (newInvalidXDRError (''XDR input'' @ loc @
                '' exceeds the maximum allowed length of '' @ nat_str maxLength @ '' characters (received '' @
                nat_str (length s) @ '' characters). Oversized XDR inputs can exhaust server CPU and memory.'') s)
         else if \<not> BASE64_RE s
         then Inl (newInvalidXDRError (''XDR input'' @ loc @ '' contains invalid characters. '' @
                ''Only base64-encoded strings (A-Z, a-z, 0-9, +, /, -, _, with optional = padding) are accepted.'') s)
         else Inr ()
     | _ \<Rightarrow> Inl (newInvalidXDRError (''XDR input'' @ loc @ '' must be a string, received '' @ js_typeof x)
              (js_String x)))"

text \<open>The two forms of the check agree, and every refusal is an error of its own class.\<close>

theorem assert_iff_valid:
  "case assertValidXDR ctx n x of
     Inr _ \<Rightarrow> isValidXDR n x
   | Inl e \<Rightarrow> \<not> isValidXDR n x \<and> (\<exists>shown. ax_class e = CInvalidXDRError shown \<and> length shown \<le> 67)"
  by (cases x) (auto simp: assertValidXDR_def isValidXDR_def newInvalidXDRError_def Let_def)

section \<open>The cache\<close>

definition MAX_CACHE_SIZE :: nat where
  "MAX_CACHE_SIZE = 50"

type_synonym 'v xdr_cache = "(string, 'v) jsmap"

definition xdr_decode_error :: "string \<Rightarrow> thrown \<Rightarrow> thrown" where
  "xdr_decode_error input e =
    (case newInvalidXDRError (''XDR decoding failed in decodeXdrBase64: '' @ error_text e) input of
       AxErr c m st rid orig \<Rightarrow> AxErr c m st rid (Some e) | Raw v \<Rightarrow> Raw v)"

definition decodeXdrBase64 ::
    "(string \<Rightarrow> thrown + 'v) \<Rightarrow> string \<Rightarrow> 'v xdr_cache \<Rightarrow> 'v xdr_cache \<times> (thrown + 'v)" where
  "decodeXdrBase64 fromXDR input c =
    (case assertValidXDR (Some ''decodeXdrBase64'') MAX_XDR_STRING_LENGTH (JStr input) of
       Inl e \<Rightarrow> (c, Inl e)
     | Inr _ \<Rightarrow>
        (case jm_get c input of
           Some cached \<Rightarrow> (jm_set input cached (jm_delete input c), Inr cached)
         | None \<Rightarrow>
            (case fromXDR input of
               Inl err \<Rightarrow> (c, Inl (xdr_decode_error input err))
             | Inr decoded \<Rightarrow>
                let c' = (if length c \<ge> MAX_CACHE_SIZE
                          then (case c of [] \<Rightarrow> c | (k, _) # _ \<Rightarrow> jm_delete k c) else c)
                in (jm_set input decoded c', Inr decoded))))"

definition clearXdrCache :: "'v xdr_cache \<Rightarrow> 'v xdr_cache" where
  "clearXdrCache c = []"

definition getXdrCacheSize :: "'v xdr_cache \<Rightarrow> nat" where
  "getXdrCacheSize c = length c"

section \<open>The specifications\<close>

text \<open>Decoding without a cache.\<close>

definition decode_spec :: "(string \<Rightarrow> thrown + 'v) \<Rightarrow> string \<Rightarrow> thrown + 'v" where
  "decode_spec fromXDR input =
    (case assertValidXDR (Some ''decodeXdrBase64'') MAX_XDR_STRING_LENGTH (JStr input) of
       Inl e \<Rightarrow> Inl e
     | Inr _ \<Rightarrow> (case fromXDR input of Inl err \<Rightarrow> Inl (xdr_decode_error input err) | Inr v \<Rightarrow> Inr v))"

text \<open>The inputs by last use, and the most recently used ones of them.\<close>

definition touch :: "string \<Rightarrow> string list \<Rightarrow> string list" where
  "touch x r = filter (\<lambda>y. y \<noteq> x) r @ [x]"

definition most_recent :: "string list \<Rightarrow> string list" where
  "most_recent r = drop (length r - MAX_CACHE_SIZE) r"

datatype xdr_op = XDecode string | XClear

definition xdr_step ::
    "(string \<Rightarrow> thrown + 'v) \<Rightarrow> xdr_op \<Rightarrow> 'v xdr_cache \<Rightarrow> 'v xdr_cache \<times> (thrown + 'v) option" where
  "xdr_step fromXDR p c =
    (case p of
       XDecode x \<Rightarrow> (let (c', r) = decodeXdrBase64 fromXDR x c in (c', Some r))
     | XClear \<Rightarrow> (clearXdrCache c, None))"

definition xdr_spec_step ::
    "(string \<Rightarrow> thrown + 'v) \<Rightarrow> xdr_op \<Rightarrow> string list \<Rightarrow> string list \<times> (thrown + 'v) option" where
  "xdr_spec_step fromXDR p r =
    (case p of
       XDecode x \<Rightarrow> (case decode_spec fromXDR x of Inl e \<Rightarrow> r | Inr v \<Rightarrow> touch x r, Some (decode_spec fromXDR x))
     | XClear \<Rightarrow> ([], None))"

fun run_steps_of :: "('p \<Rightarrow> 's \<Rightarrow> 's \<times> 'r) \<Rightarrow> 'p list \<Rightarrow> 's \<Rightarrow> 's \<times> 'r list" where
  "run_steps_of step [] s = (s, [])"
| "run_steps_of step (p # ps) s =
    (let (s', r) = step p s; (s'', rs) = run_steps_of step ps s' in (s'', r # rs))"

text \<open>
  The cache and the list of inputs by last use: the cached keys are the most recent of them, in
  that order, and what is cached is what decoding gives.
\<close>

definition cache_rel :: "(string \<Rightarrow> thrown + 'v) \<Rightarrow> 'v xdr_cache \<Rightarrow> string list \<Rightarrow> bool" where
  "cache_rel fromXDR c r \<longleftrightarrow> distinct r \<and> map fst c = most_recent r \<and>
     (\<forall>(k, v) \<in> set c. decode_spec fromXDR k = Inr v)"

lemma touch_distinct: "distinct r \<Longrightarrow> distinct (touch x r)"
  by (simp add: touch_def)

lemma touch_length: "distinct r \<Longrightarrow> length (touch x r) = (if x \<in> set r then length r else Suc (length r))"
proof -
  assume d: "distinct r"
  have "filter (\<lambda>y. y \<noteq> x) r = remove1 x r" using distinct_remove1_removeAll [OF d, of x]
    by (simp add: removeAll_filter_not_eq eq_commute)
  then show ?thesis by (simp add: touch_def length_remove1) (metis Suc_pred length_pos_if_in_set)
qed

text \<open>One use of an input, on the list of the most recent ones.\<close>

lemma most_recent_touch:
  assumes "distinct r"
  shows "most_recent (touch x r) =
    (if x \<in> set (most_recent r) then filter (\<lambda>y. y \<noteq> x) (most_recent r) @ [x]
     else (if length (most_recent r) \<ge> MAX_CACHE_SIZE then tl (most_recent r) else most_recent r) @ [x])"
proof -
  define n where "n = length r - MAX_CACHE_SIZE"
  define a where "a = take n r"
  have r: "r = a @ most_recent r" by (simp add: a_def n_def most_recent_def)
  have la: "length a = n" by (simp add: a_def n_def)
  have len: "length (touch x r) = (if x \<in> set r then length r else Suc (length r))"
    by (rule touch_length [OF assms])
  have d: "distinct a" "distinct (most_recent r)" "set a \<inter> set (most_recent r) = {}"
    using assms r by (metis distinct_append)+
  have t: "touch x r = filter (\<lambda>y. y \<noteq> x) a @ filter (\<lambda>y. y \<noteq> x) (most_recent r) @ [x]"
    using r by (metis append.assoc filter_append touch_def)
  have keep: "filter (\<lambda>y. y \<noteq> x) ys = ys" if "x \<notin> set ys" for ys using that by (simp add: filter_id_conv) blast
  show ?thesis
  proof (cases "x \<in> set (most_recent r)")
    case True
    then have "x \<notin> set a" "x \<in> set r" using d(3) r by (auto, metis Un_iff set_append)
    moreover have "most_recent (touch x r) = drop n (touch x r)"
      using len calculation by (simp add: most_recent_def n_def)
    ultimately show ?thesis using True by (simp add: t keep la)
  next
    case False
    have full: "length (most_recent r) = min (length r) MAX_CACHE_SIZE" by (simp add: most_recent_def)
    show ?thesis
    proof (cases "x \<in> set a")
      case True
      then have "x \<in> set r" "0 < n" using r la by (metis Un_iff set_append, metis length_pos_if_in_set)
      then have ge: "MAX_CACHE_SIZE < length r" by (simp add: n_def)
      have "length (filter (\<lambda>y. y \<noteq> x) a) = n - 1"
        using touch_length [OF d(1), of x] True la by (simp add: touch_def)
      moreover have "most_recent r \<noteq> []" using full ge by (auto simp: MAX_CACHE_SIZE_def)
      moreover have "most_recent (touch x r) = drop n (touch x r)"
        using len \<open>x \<in> set r\<close> by (simp add: most_recent_def n_def)
      moreover have "n - (n - 1) = 1" using \<open>0 < n\<close> by simp
      ultimately show ?thesis using False ge full keep [OF False] \<open>0 < n\<close>
        by (simp add: t drop_Suc) (simp add: MAX_CACHE_SIZE_def)
    next
      case no: False
      then have nr: "x \<notin> set r" using False r by (metis Un_iff set_append)
      then have "most_recent (touch x r) = drop (Suc (length r) - MAX_CACHE_SIZE) (r @ [x])"
        using len by (simp add: most_recent_def touch_def keep)
      also have "\<dots> = (if length (most_recent r) \<ge> MAX_CACHE_SIZE then tl (most_recent r) else most_recent r) @ [x]"
      proof (cases "MAX_CACHE_SIZE \<le> length r")
        case True
        then have "Suc (length r) - MAX_CACHE_SIZE = Suc n" "n < length r"
          by (simp_all add: n_def MAX_CACHE_SIZE_def)
        then show ?thesis using True full
          by (simp add: most_recent_def n_def [symmetric] tl_drop drop_Suc)
      qed (simp add: full most_recent_def)
      finally show ?thesis using False by simp
    qed
  qed
qed

lemma cache_rel_decode:
  assumes rel: "cache_rel fromXDR c r"
  shows "snd (decodeXdrBase64 fromXDR x c) = decode_spec fromXDR x \<and>
    cache_rel fromXDR (fst (decodeXdrBase64 fromXDR x c))
      (case decode_spec fromXDR x of Inl e \<Rightarrow> r | Inr v \<Rightarrow> touch x r)"
proof (cases "assertValidXDR (Some ''decodeXdrBase64'') MAX_XDR_STRING_LENGTH (JStr x)")
  case (Inl e)
  then show ?thesis using rel by (simp add: decodeXdrBase64_def decode_spec_def)
next
  case (Inr u)
  have d: "distinct r" and keys: "map fst c = most_recent r"
    and vals: "\<And>k v. (k, v) \<in> set c \<Longrightarrow> decode_spec fromXDR k = Inr v"
    using rel by (auto simp: cache_rel_def)
  have ok: "jm_ok c" using d keys by (simp add: jm_ok_def most_recent_def)
  have del: "map fst (jm_delete k c) = filter (\<lambda>y. y \<noteq> k) (map fst c)" for k
    by (induction c) auto
  have lc: "length c = length (most_recent r)" using keys by (metis length_map)
  show ?thesis
  proof (cases "jm_get c x")
    case (Some v)
    then have v: "decode_spec fromXDR x = Inr v" using vals jm_get_memD by fast
    have "x \<in> set (most_recent r)" using Some keys by (metis domI dom_map_of_conv_image_fst list.set_map)
    then have "map fst (jm_set x v (jm_delete x c)) = most_recent (touch x r)"
      using most_recent_touch [OF d, of x] by (simp add: jm_set_new del keys)
    moreover have "\<forall>(k, w) \<in> set (jm_set x v (jm_delete x c)). decode_spec fromXDR k = Inr w"
      using vals v by (auto simp: jm_set_new jm_delete_mem)
    ultimately show ?thesis using Inr Some v touch_distinct [OF d]
      by (simp add: decodeXdrBase64_def cache_rel_def)
  next
    case None
    then have new: "x \<notin> set (most_recent r)" using keys by (metis list.set_map map_of_eq_None_iff)
    show ?thesis
    proof (cases "fromXDR x")
      case (Inl err)
      then show ?thesis using Inr None rel by (simp add: decodeXdrBase64_def decode_spec_def)
    next
      case v: (Inr v)
      define c' where "c' = (if length c \<ge> MAX_CACHE_SIZE
          then (case c of [] \<Rightarrow> c | (k, _) # _ \<Rightarrow> jm_delete k c) else c)"
      have "map fst c' = (if length (most_recent r) \<ge> MAX_CACHE_SIZE then tl (most_recent r) else most_recent r)"
      proof (cases c)
        case (Cons p ps)
        then have "fst p \<notin> set (map fst ps)" using ok by (simp add: jm_ok_def)
        then have "jm_delete (fst p) c = ps" using Cons
          by (cases p) (simp add: jm_delete_absent jm_has_iff)
        moreover have "map fst ps = tl (most_recent r)" using keys by (simp add: Cons flip: keys)
        ultimately show ?thesis using keys lc by (cases p) (simp add: c'_def Cons)
      qed (use keys in \<open>simp add: c'_def\<close>)
      moreover have sub: "set c' \<subseteq> set c"
        by (auto simp: c'_def jm_delete_mem split: list.splits if_splits)
      moreover have "\<not> jm_has c' x" using sub None by (auto simp: jm_has_iff map_of_eq_None_iff)
      ultimately have "map fst (jm_set x v c') = most_recent (touch x r)"
        using most_recent_touch [OF d, of x] new by (simp add: jm_set_new)
      moreover have "\<forall>(k, w) \<in> set (jm_set x v c'). decode_spec fromXDR k = Inr w"
        using vals sub v Inr \<open>\<not> jm_has c' x\<close> by (auto simp: jm_set_new decode_spec_def)
      ultimately show ?thesis using Inr None v touch_distinct [OF d]
        by (simp add: decodeXdrBase64_def decode_spec_def cache_rel_def c'_def [symmetric])
    qed
  qed
qed

lemma cache_rel_step:
  assumes "cache_rel fromXDR c r"
  shows "snd (xdr_step fromXDR p c) = snd (xdr_spec_step fromXDR p r) \<and>
    cache_rel fromXDR (fst (xdr_step fromXDR p c)) (fst (xdr_spec_step fromXDR p r))"
  using cache_rel_decode [OF assms]
  by (auto simp: xdr_step_def xdr_spec_step_def case_prod_unfold clearXdrCache_def cache_rel_def
      most_recent_def split: xdr_op.split)

lemma cache_rel_run:
  assumes "cache_rel fromXDR c r"
  shows "snd (run_steps_of (xdr_step fromXDR) ps c) = snd (run_steps_of (xdr_spec_step fromXDR) ps r) \<and>
    cache_rel fromXDR (fst (run_steps_of (xdr_step fromXDR) ps c)) (fst (run_steps_of (xdr_spec_step fromXDR) ps r))"
  using assms
proof (induction ps arbitrary: c r)
  case (Cons p ps)
  show ?case using Cons.IH [of "fst (xdr_step fromXDR p c)" "fst (xdr_spec_step fromXDR p r)"]
      cache_rel_step [OF Cons.prems, of p]
    by (simp add: case_prod_unfold Let_def)
qed simp

text \<open>C13. 
  The cache refines its specification: whatever inputs are decoded and whenever the cache is
  cleared, every answer is the one decoding without a cache gives, errors included, the cached
  inputs are the fifty most recently decoded ones in order of last use, and so there are never
  more than fifty.
\<close>

theorem cache_refines_decoding:
  "snd (run_steps_of (xdr_step fromXDR) ps []) = snd (run_steps_of (xdr_spec_step fromXDR) ps []) \<and>
   map fst (fst (run_steps_of (xdr_step fromXDR) ps [])) =
     most_recent (fst (run_steps_of (xdr_spec_step fromXDR) ps [])) \<and>
   getXdrCacheSize (fst (run_steps_of (xdr_step fromXDR) ps [])) \<le> 50"
proof -
  have "cache_rel fromXDR [] []" by (simp add: cache_rel_def most_recent_def)
  note run = cache_rel_run [OF this, of ps]
  then have keys: "map fst (fst (run_steps_of (xdr_step fromXDR) ps [])) =
     most_recent (fst (run_steps_of (xdr_spec_step fromXDR) ps []))" by (simp add: cache_rel_def)
  moreover have "length (most_recent r) \<le> 50" for r by (simp add: most_recent_def MAX_CACHE_SIZE_def)
  ultimately have "length (fst (run_steps_of (xdr_step fromXDR) ps [])) \<le> 50" by (metis length_map)
  then show ?thesis using run keys by (simp add: getXdrCacheSize_def)
qed

end
