(* ===== verification/ClientOps.thy ===== *)
theory ClientOps
  imports FeeBuffer PendingTx XdrCache HttpRetry Validation
begin

text \<open>
  The calls of the RPC client and their errors (\<open>src/src/client/stellarClient.ts\<close>), with the
  network configuration (\<open>networkConfig.ts\<close>), the response schemas (\<open>rpcSchemas.ts\<close>) and the
  faucet client. A call is what the server answers to each attempt, run through the retry loop
  of theory HttpRetry; \<open>mw\<close> is what the middleware pipeline makes of an operation's outcome
  (the identity for an empty pipeline). The schema library is the parameter \<open>safeParse\<close>, a
  schema being data of the source. The Stellar SDK (building, assembling and parsing
  transactions, its test for a failed simulation) is outside: what these calls give is an
  argument. The metrics and telemetry a call emits are its second result, without durations.
\<close>

section \<open>Network configuration (networkConfig.ts)\<close>

datatype AxionveraNetwork = Testnet | Mainnet | Futurenet

record NetworkConfig =
  nc_network :: AxionveraNetwork
  nc_rpcUrl :: string
  nc_networkPassphrase :: string

record NetworkInput =
  ni_network :: "AxionveraNetwork option"
  ni_rpcUrl :: "string option"
  ni_networkPassphrase :: "string option"

text \<open>The passphrases \<open>TESTNET\<close>, \<open>PUBLIC\<close> and \<open>FUTURENET\<close> of the Stellar SDK.\<close>

record Networks =
  nw_testnet :: string
  nw_public :: string
  nw_futurenet :: string

fun DEFAULT_RPC_URLS :: "AxionveraNetwork \<Rightarrow> string" where
  "DEFAULT_RPC_URLS Testnet = ''https://soroban-testnet.stellar.org''"
| "DEFAULT_RPC_URLS Mainnet = ''https://soroban-mainnet.stellar.org''"
| "DEFAULT_RPC_URLS Futurenet = ''https://rpc-futurenet.stellar.org''"

fun getNetworkPassphrase :: "Networks \<Rightarrow> AxionveraNetwork \<Rightarrow> string" where
  "getNetworkPassphrase nws Testnet = nw_testnet nws"
| "getNetworkPassphrase nws Mainnet = nw_public nws"
| "getNetworkPassphrase nws Futurenet = nw_futurenet nws"

definition getDefaultRpcUrl :: "AxionveraNetwork \<Rightarrow> string" where
  "getDefaultRpcUrl n = DEFAULT_RPC_URLS n"

definition given_or :: "'a option \<Rightarrow> 'a \<Rightarrow> 'a" where
  "given_or x d = (case x of None \<Rightarrow> d | Some v \<Rightarrow> v)"

definition resolveNetworkConfig :: "Networks \<Rightarrow> NetworkInput \<Rightarrow> NetworkConfig" where
  "resolveNetworkConfig nws input =
    (let network = given_or (ni_network input) Testnet in
     \<lparr>nc_network = network,
      nc_rpcUrl = given_or (ni_rpcUrl input) (getDefaultRpcUrl network),
      nc_networkPassphrase = given_or (ni_networkPassphrase input) (getNetworkPassphrase nws network)\<rparr>)"

fun network_name :: "AxionveraNetwork \<Rightarrow> string" where
  "network_name Testnet = ''testnet''"
| "network_name Mainnet = ''mainnet''"
| "network_name Futurenet = ''futurenet''"

definition plain_error :: "string \<Rightarrow> thrown" where
  "plain_error m = AxErr CAxionveraError m None None None"

fun getDefaultNetworkPassphrase :: "Networks \<Rightarrow> AxionveraNetwork \<Rightarrow> thrown + string" where
  "getDefaultNetworkPassphrase nws Testnet = Inr (nw_testnet nws)"
| "getDefaultNetworkPassphrase nws Mainnet = Inr (nw_public nws)"
| "getDefaultNetworkPassphrase nws n = Inl (plain_error (''Unknown network: '' @ network_name n))"

section \<open>The constructor\<close>

text \<open>\<open>hostname\<close> is \<open>new URL(url).hostname\<close>, \<open>None\<close> when the URL does not parse.\<close>

definition isLocalhostUrl :: "(string \<Rightarrow> string option) \<Rightarrow> string \<Rightarrow> bool" where
  "isLocalhostUrl hostname url =
    (case hostname url of None \<Rightarrow> False
     | Some h \<Rightarrow> h = ''localhost'' \<or> h = ''127.0.0.1'' \<or> h = ''::1'')"

definition insecure_message :: string where
  "insecure_message = ''Insecure RPC connection in production: HTTP endpoint detected. '' @
     ''Use HTTPS for production or set allowHttp: true to override. '' @
     ''Note: localhost endpoints are always permitted.''"

definition checkEndpointUrl :: "(string \<Rightarrow> string option) \<Rightarrow> bool \<Rightarrow> bool option \<Rightarrow> string \<Rightarrow> thrown + unit" where
  "checkEndpointUrl hostname isProduction allow rpcUrl =
    (if \<not> str_starts rpcUrl ''http://'' \<and> \<not> str_starts rpcUrl ''https://''
     then Inl (plain_error ''RPC URL must include a protocol (http:// or https://)'')
     else
       let isHttp = str_starts rpcUrl ''http://'';
           isLocalhost = isLocalhostUrl hostname rpcUrl;
           allowHttp = given_or allow False
       in if isProduction \<and> isHttp \<and> \<not> isLocalhost \<and> \<not> allowHttp
          then Inl (AxErr CInsecureNetworkError insecure_message None None None)
          else Inr ())"

record ClientSettings =
  cl_config :: NetworkConfig
  cl_allowHttpTransport :: bool
  cl_accountFetchTimeoutMs :: int
  cl_cacheTtlMs :: int
  cl_fees :: FeeOptions

record ClientOptions =
  co_network :: NetworkInput
  co_allowHttp :: "bool option"
  co_accountFetchTimeoutMs :: "int option"
  co_cacheTtlMs :: "int option"
  co_feeBufferMultiplier :: "js_number option"
  co_maxFeeLimit :: "int option option"

text \<open>The checks of the constructor in their order, and what it derives from its options.\<close>

definition newClient ::
    "Networks \<Rightarrow> (string \<Rightarrow> string option) \<Rightarrow> bool \<Rightarrow> ClientOptions \<Rightarrow> thrown + ClientSettings" where
  "newClient nws hostname isProduction opts =
    (let config = resolveNetworkConfig nws (co_network opts) in
     case checkEndpointUrl hostname isProduction (co_allowHttp opts) (nc_rpcUrl config) of
       Inl e \<Rightarrow> Inl e
     | Inr _ \<Rightarrow>
        (case newFeeOptions (co_feeBufferMultiplier opts) (co_maxFeeLimit opts) of
           Inl e \<Rightarrow> Inl e
         | Inr fees \<Rightarrow> Inr
             \<lparr>cl_config = config, cl_allowHttpTransport = str_starts (nc_rpcUrl config) ''http://'',
              cl_accountFetchTimeoutMs = or_int (co_accountFetchTimeoutMs opts) 2000,
              cl_cacheTtlMs = or_int (co_cacheTtlMs opts) 5000, cl_fees = fees\<rparr>))"

section \<open>Response schemas (rpcSchemas.ts)\<close>

datatype vschema = VStr | VNum | VPicklist "string list" | VArray vschema | VOptional vschema
  | VLoose "(string \<times> vschema) list" | VUnion "vschema list"

definition GetHealthResponseSchema :: vschema where
  "GetHealthResponseSchema = VLoose [(''status'', VStr)]"

definition SimulateTransactionResponseSchema :: vschema where
  "SimulateTransactionResponseSchema = VUnion
    [VLoose [(''latestLedger'', VNum), (''error'', VStr)],
     VLoose [(''latestLedger'', VNum),
       (''results'', VOptional (VArray (VLoose [(''xdr'', VStr), (''auth'', VOptional (VArray VStr))]))),
       (''transactionData'', VOptional VStr), (''events'', VOptional (VArray VStr)),
       (''minResourceFee'', VOptional VStr)]]"

definition GetTransactionResponseSchema :: vschema where
  "GetTransactionResponseSchema = VLoose
    [(''status'', VPicklist [''SUCCESS'', ''FAILED'', ''NOT_FOUND'']), (''latestLedger'', VNum),
     (''latestLedgerCloseTime'', VOptional VNum), (''oldestLedger'', VOptional VNum),
     (''oldestLedgerCloseTime'', VOptional VNum), (''ledger'', VOptional VNum),
     (''createdAt'', VOptional VNum), (''envelopeXdr'', VOptional VStr),
     (''resultXdr'', VOptional VStr), (''resultMetaXdr'', VOptional VStr),
     (''applicationOrder'', VOptional VNum)]"

text \<open>\<open>flatten(issues).root\<close>: the messages of the issues that have no path\<close>

definition root_messages :: "BaseIssue list \<Rightarrow> string list" where
  "root_messages is = map bi_message (filter (\<lambda>i. case bi_path i of None \<Rightarrow> True | Some p \<Rightarrow> p = []) is)"

definition validateRpcResponse :: "vschema safe_parse \<Rightarrow> vschema \<Rightarrow> jsv \<Rightarrow> string \<Rightarrow> thrown + jsv" where
  "validateRpcResponse safeParse sch response rpcMethod =
    (case safeParse sch response of
       Inr out \<Rightarrow> Inr out
     | Inl issues \<Rightarrow>
        let root = root_messages issues;
            summary = (if root = [] then ''validation failed'' else join_str '', '' root)
        in Inl (AxErr (CRPCValidationMismatchError rpcMethod response)
             (''RPC response for \"'' @ rpcMethod @ ''\" did not match expected shape: '' @ summary)
             None None None))"

text \<open>What the schema library documents of the schemas used: which values conform.\<close>

fun conforms :: "vschema \<Rightarrow> jsv \<Rightarrow> bool" where
  "conforms VStr v = (case v of JStr _ \<Rightarrow> True | _ \<Rightarrow> False)"
| "conforms VNum v = (case v of JNum _ \<Rightarrow> True | _ \<Rightarrow> False)"
| "conforms (VPicklist ss) v = (case v of JStr s \<Rightarrow> s \<in> set ss | _ \<Rightarrow> False)"
| "conforms (VArray sch) v = (case v of JArr xs \<Rightarrow> list_all (conforms sch) xs | _ \<Rightarrow> False)"
| "conforms (VOptional sch) v = (v = JUndef \<or> conforms sch v)"
| "conforms (VLoose fs) v =
    (isObject v \<and> list_all (\<lambda>(k, sch). conforms sch (jget v k)) fs)"
| "conforms (VUnion ss) v = list_ex (\<lambda>sch. conforms sch v) ss"

section \<open>Calls\<close>

datatype metric = Count string props | Duration string props | Event string props

type_synonym 'v metered = "(thrown + 'v) \<times> metric list"

text \<open>What the pipeline makes of an operation that is retried, or not.\<close>

definition retried :: "(thrown + 'v \<Rightarrow> thrown + 'v) \<Rightarrow> header_get \<Rightarrow> RetryConfig \<Rightarrow> 'v outcomes \<Rightarrow> thrown + 'v" where
  "retried mw hget cfg outs = mw (rr_result (retry hget cfg outs))"

text \<open>\<open>error instanceof AxionveraError ? error : new AxionveraRPCError(...)\<close>\<close>

definition keep_or_rpc_error :: "string \<Rightarrow> thrown \<Rightarrow> thrown" where
  "keep_or_rpc_error method e = (if is_ax e then e else rpc_error method e)"

definition health_tags :: "string \<Rightarrow> props" where
  "health_tags network = [(''operation'', JStr ''getHealth''), (''network'', JStr network)]"

definition getHealth ::
    "vschema safe_parse \<Rightarrow> (thrown + jsv \<Rightarrow> thrown + jsv) \<Rightarrow> header_get \<Rightarrow> RetryConfig \<Rightarrow> string \<Rightarrow> jsv outcomes
      \<Rightarrow> jsv metered" where
  "getHealth safeParse mw hget cfg network outs =
    (let tags = health_tags network;
         start = Count ''requests.total'' tags;
         res = (case retried mw hget cfg outs of
                  Inl e \<Rightarrow> Inl e
                | Inr response \<Rightarrow> validateRpcResponse safeParse GetHealthResponseSchema response ''getHealth'')
     in case res of
          Inr validated \<Rightarrow>
            (Inr validated, [start, Duration ''requests.duration'' (tags @ [(''status'', JStr ''success'')]),
               Event ''request_success'' tags])
        | Inl e \<Rightarrow>
            (Inl (keep_or_rpc_error ''getHealth'' e),
             [start, Duration ''requests.duration'' (tags @ [(''status'', JStr ''error'')]),
              Count ''requests.errors'' tags,
              Event ''request_error'' (tags @ [(''error'', JStr (error_text e))])]))"

definition getNetwork ::
    "(thrown + jsv \<Rightarrow> thrown + jsv) \<Rightarrow> header_get \<Rightarrow> RetryConfig \<Rightarrow> jsv outcomes \<Rightarrow> thrown + jsv" where
  "getNetwork mw hget cfg outs = map_sum (rpc_error ''getNetwork'') id (retried mw hget cfg outs)"

definition getLatestLedger ::
    "(thrown + jsv \<Rightarrow> thrown + jsv) \<Rightarrow> header_get \<Rightarrow> RetryConfig \<Rightarrow> jsv outcomes \<Rightarrow> thrown + jsv" where
  "getLatestLedger mw hget cfg outs = map_sum (rpc_error ''getLatestLedger'') id (retried mw hget cfg outs)"

definition getAccount ::
    "(thrown + 'v \<Rightarrow> thrown + 'v) \<Rightarrow> header_get \<Rightarrow> RetryConfig \<Rightarrow> 'v outcomes \<Rightarrow> thrown + 'v" where
  "getAccount mw hget cfg outs = retried mw hget cfg outs"

definition getTransaction ::
    "vschema safe_parse \<Rightarrow> (thrown + jsv \<Rightarrow> thrown + jsv) \<Rightarrow> header_get \<Rightarrow> RetryConfig \<Rightarrow> jsv outcomes
      \<Rightarrow> thrown + jsv" where
  "getTransaction safeParse mw hget cfg outs =
    (case retried mw hget cfg outs of
       Inl e \<Rightarrow> Inl e
     | Inr response \<Rightarrow> validateRpcResponse safeParse GetTransactionResponseSchema response ''getTransaction'')"

section \<open>Simulation\<close>

definition simulation_failed :: "string \<Rightarrow> jsv \<Rightarrow> thrown option \<Rightarrow> thrown" where
  "simulation_failed m result orig = AxErr (CSimulationFailedError result) m None None orig"

text \<open>\<open>error instanceof Error ? error.message : fallback\<close> for an error that is none of the SDK's\<close>

definition raw_message :: "string \<Rightarrow> thrown \<Rightarrow> string" where
  "raw_message fallback e = (case e of AxErr c m st rid orig \<Rightarrow> m | Raw (JErr n m ps) \<Rightarrow> m | _ \<Rightarrow> fallback)"

text \<open>\<open>isSimError\<close> is the Stellar SDK's test; \<open>called\<close> what the pipeline made of the RPC call.\<close>

definition simulateTransaction ::
    "vschema safe_parse \<Rightarrow> (jsv \<Rightarrow> bool) \<Rightarrow> string \<Rightarrow> thrown + jsv \<Rightarrow> jsv metered" where
  "simulateTransaction safeParse isSimError network called =
    (let tags = [(''network'', JStr network)];
         start = Count ''transactions.simulate'' tags;
         res = (case called of
                  Inl e \<Rightarrow> Inl e
                | Inr result \<Rightarrow>
                   (case validateRpcResponse safeParse SimulateTransactionResponseSchema result ''simulateTransaction'' of
                      Inl e \<Rightarrow> Inl e
                    | Inr _ \<Rightarrow>
                       if isSimError result
                       then Inl (simulation_failed (js_String (jget result ''error'')) result None)
                       else Inr result))
     in case res of
          Inr result \<Rightarrow>
            (Inr result, [start, Duration ''transactions.simulate_duration'' (tags @ [(''status'', JStr ''success'')]),
               Event ''transaction_simulate_success'' tags])
        | Inl e \<Rightarrow>
            (Inl (if is_ax e then e
                  else simulation_failed (raw_message ''Transaction simulation failed'' e) JUndef (Some e)),
             [start, Duration ''transactions.simulate_duration'' (tags @ [(''status'', JStr ''error'')]),
              Count ''transactions.simulate_errors'' tags,
              Event ''transaction_simulate_error'' (tags @ [(''error'', JStr (error_text e))])]))"

text \<open>The fee of a batch and what the builder and the call give; \<open>built\<close> and \<open>called\<close> are outside.\<close>

definition batch_fee :: "int option \<Rightarrow> nat \<Rightarrow> string" where
  "batch_fee fee n = int_str (or_int fee 100000 * int n)"

definition simulateBatch ::
    "(jsv \<Rightarrow> bool) \<Rightarrow> nat \<Rightarrow> int option \<Rightarrow> int option \<Rightarrow> (string \<Rightarrow> int \<Rightarrow> thrown + 't) \<Rightarrow> ('t \<Rightarrow> thrown + jsv)
      \<Rightarrow> thrown + jsv" where
  "simulateBatch isSimError n fee timeoutInSeconds built called =
    (let res =
       (if n = 0 then Inl (plain_error ''At least one operation is required for batch simulation'')
        else
          (case built (batch_fee fee n) (or_int timeoutInSeconds 60) of
             Inl e \<Rightarrow> Inl e
           | Inr tx \<Rightarrow>
              (case called tx of
                 Inl e \<Rightarrow> Inl e
               | Inr result \<Rightarrow>
                  if isSimError result
                  then Inl (simulation_failed (js_String (jget result ''error'')) result None)
                  else if \<not> js_truthy (jget result ''result'')
                  then Inl (simulation_failed ''No results returned from batch simulation'' result None)
                  else Inr (jget result ''result''))))
     in case res of
          Inr r \<Rightarrow> Inr r
        | Inl e \<Rightarrow> Inl (if is_ax e then e
            else simulation_failed (raw_message ''Batch simulation failed'' e) JUndef (Some e)))"

section \<open>Preparing and sending\<close>

text \<open>
  A fee bump transaction is prepared by the server. Any other is simulated, assembled (outside:
  \<open>assembled\<close>), and buffered inside the pipeline, \<open>mw\<close>.
\<close>

definition preparation_error :: "header_get \<Rightarrow> thrown \<Rightarrow> thrown" where
  "preparation_error hget e = toAxionveraError hget ''Failed to prepare transaction'' e"

definition prepareFeeBump :: "header_get \<Rightarrow> thrown + 't \<Rightarrow> thrown + 't" where
  "prepareFeeBump hget called = map_sum (preparation_error hget) id called"

definition prepareTransaction ::
    "header_get \<Rightarrow> FeeOptions \<Rightarrow> thrown + jsv \<Rightarrow> (jsv \<Rightarrow> thrown + SorobanTx)
      \<Rightarrow> (thrown + buffered_tx \<Rightarrow> thrown + buffered_tx) \<Rightarrow> thrown + buffered_tx" where
  "prepareTransaction hget fees simulated assembled mw =
    (let res = (case simulated of
         Inl e \<Rightarrow> Inl e
       | Inr simulation \<Rightarrow>
          (case assembled simulation of
             Inl e \<Rightarrow> Inl e
           | Inr tx \<Rightarrow> mw (applyFeeBuffer fees tx)))
     in map_sum (\<lambda>e. if is_ax e then e else preparation_error hget e) id res)"

record TransactionSendResult =
  sr_hash :: jsv
  sr_status :: jsv
  sr_raw :: jsv

text \<open>
  With a wallet, what the wallet returned is checked before it is parsed (\<open>fromXDR\<close>, outside);
  without one the transaction is sent as it is.
\<close>

definition unparsable_wallet_xdr :: "string \<Rightarrow> thrown \<Rightarrow> thrown" where
  "unparsable_wallet_xdr signedXdr e =
    (case newInvalidXDRError
        (''sendTransaction: wallet returned an XDR string that could not be parsed: '' @ error_text e) signedXdr of
       AxErr c m st rid orig \<Rightarrow> AxErr c m st rid (Some e) | Raw v \<Rightarrow> Raw v)"

text \<open>
  The SDK's parser and the RPC call act on a world \<open>'w\<close>, so that whether and when they run shows
  in the result; \<open>signed\<close> is what the wallet answered, if there is a wallet.
\<close>

definition wallet_signed ::
    "(string \<Rightarrow> 'w \<Rightarrow> 'w \<times> (thrown + 't)) \<Rightarrow> (thrown + jsv) option \<Rightarrow> 't \<Rightarrow> 'w \<Rightarrow> 'w \<times> (thrown + 't)" where
  "wallet_signed fromXDR signed tx w =
    (case signed of
       None \<Rightarrow> (w, Inr tx)
     | Some (Inl e) \<Rightarrow> (w, Inl e)
     | Some (Inr signedXdr) \<Rightarrow>
        (case assertValidXDR (Some ''sendTransaction (wallet signedXdr)'') MAX_XDR_STRING_LENGTH signedXdr of
           Inl e \<Rightarrow> (w, Inl e)
         | Inr _ \<Rightarrow>
            (case fromXDR (js_String signedXdr) w of
               (w', Inl e) \<Rightarrow> (w', Inl (unparsable_wallet_xdr (js_String signedXdr) e))
             | (w', Inr tx') \<Rightarrow> (w', Inr tx'))))"

definition sendTransaction ::
    "(string \<Rightarrow> 'w \<Rightarrow> 'w \<times> (thrown + 't)) \<Rightarrow> string \<Rightarrow> (thrown + jsv) option \<Rightarrow> 't
      \<Rightarrow> ('t \<Rightarrow> 'w \<Rightarrow> 'w \<times> (thrown + jsv)) \<Rightarrow> 'w \<Rightarrow> 'w \<times> TransactionSendResult metered" where
  "sendTransaction fromXDR network signed tx called w =
    (let tags = [(''network'', JStr network)];
         start = Count ''transactions.send'' tags;
         outcome = (case wallet_signed fromXDR signed tx w of
             (w', Inl e) \<Rightarrow> (w', Inl e)
           | (w', Inr tx') \<Rightarrow> called tx' w')
     in (fst outcome,
       case snd outcome of
          Inr result \<Rightarrow>
            let hash = coalesce (coalesce (jget result ''hash'') (jget result ''id'')) (JStr []);
                status = coalesce (coalesce (jget result ''status'') (jget result ''statusText'')) (JStr ''unknown'')
            in (Inr \<lparr>sr_hash = hash, sr_status = status, sr_raw = result\<rparr>,
                [start, Duration ''transactions.send_duration'' (tags @ [(''status'', JStr ''success'')]),
                 Event ''transaction_send_success'' (tags @ [(''hash'', hash), (''status'', status)])])
        | Inl e \<Rightarrow>
            (Inl (normalizeTransactionError None e),
             [start, Duration ''transactions.send_duration'' (tags @ [(''status'', JStr ''error'')]),
              Count ''transactions.send_errors'' tags,
              Event ''transaction_send_error'' (tags @ [(''error'', JStr (error_text e))])])))"

definition parseTransactionXdr :: "(string \<Rightarrow> thrown + 't) \<Rightarrow> jsv \<Rightarrow> thrown + 't" where
  "parseTransactionXdr fromXDR x =
    (case assertValidXDR (Some ''parseTransactionXdr'') MAX_XDR_STRING_LENGTH x of
       Inl e \<Rightarrow> Inl e
     | Inr _ \<Rightarrow>
        (case fromXDR (js_String x) of
           Inr tx \<Rightarrow> Inr tx
         | Inl e \<Rightarrow>
            (case newInvalidXDRError (''parseTransactionXdr: failed to parse XDR: '' @ error_text e) (js_String x) of
               AxErr c m st rid orig \<Rightarrow> Inl (AxErr c m st rid (Some e)) | Raw v \<Rightarrow> Inl (Raw v))))"

section \<open>The faucet (faucetClient.ts)\<close>

fun faucet_url :: "AxionveraNetwork \<Rightarrow> string \<Rightarrow> thrown + string" where
  "faucet_url Mainnet key = Inl (plain_error
     ''Friendbot is not available on Mainnet. Please use a funded account or a manual bridge.'')"
| "faucet_url Testnet key = Inr (''https://friendbot.stellar.org/?addr='' @ key)"
| "faucet_url Futurenet key = Inr (''https://friendbot-futurenet.stellar.org/?addr='' @ key)"

definition faucet_error :: "jsv \<Rightarrow> thrown" where
  "faucet_error e =
    (let response = jget e ''response'' in
     if js_truthy response \<and> jget response ''status'' = JNum 429
     then AxErr CFaucetRateLimitError ''Friendbot rate limit exceeded. Please try again later.''
            (Some 429) None (Some (Raw e))
     else
       let detail = jget (jget response ''data'') ''detail'';
           message = (if js_truthy detail then detail else jget e ''message'')
       in AxErr CAxionveraError (''Failed to fund account: '' @ js_String message)
            (as_number (jget response ''status'')) None (Some (Raw e)))"

text \<open>The URL requested, if any, and the outcome; \<open>http\<close> is what the GET request gives.\<close>

definition fundAccount :: "AxionveraNetwork \<Rightarrow> string \<Rightarrow> (string \<Rightarrow> jsv + jsv) \<Rightarrow> string list \<times> (thrown + unit)" where
  "fundAccount network key http =
    (case faucet_url network key of
       Inl e \<Rightarrow> ([], Inl e)
     | Inr url \<Rightarrow> ([url], case http url of Inl e \<Rightarrow> Inl (faucet_error e) | Inr _ \<Rightarrow> Inr ()))"

section \<open>Properties\<close>

text \<open>
  A client that is constructed speaks to an endpoint with a protocol, and in production over
  plain HTTP only when that was asked for or the host is the local one; the transport allows
  HTTP exactly for an HTTP URL, and its fee options passed their checks.
\<close>

theorem production_client_is_secure:
  assumes "newClient nws hostname production opts = Inr c"
  shows "((str_starts (nc_rpcUrl (cl_config c)) ''https://'' \<and> \<not> cl_allowHttpTransport c) \<or>
     (str_starts (nc_rpcUrl (cl_config c)) ''http://'' \<and> cl_allowHttpTransport c \<and>
      (\<not> production \<or> co_allowHttp opts = Some True \<or> isLocalhostUrl hostname (nc_rpcUrl (cl_config c))))) \<and>
    1 \<le> nm_value (fo_multiplier (cl_fees c))"
proof -
  let ?config = "resolveNetworkConfig nws (co_network opts)"
  have ok: "checkEndpointUrl hostname production (co_allowHttp opts) (nc_rpcUrl ?config) = Inr ()"
    and fees: "newFeeOptions (co_feeBufferMultiplier opts) (co_maxFeeLimit opts) = Inr (cl_fees c)"
    and c: "cl_config c = ?config" "cl_allowHttpTransport c = str_starts (nc_rpcUrl ?config) ''http://''"
    using assms by (auto simp: newClient_def Let_def split: sum.splits)
  show ?thesis
    using ok newFeeOptions_ok [OF fees]
    by (auto simp: c checkEndpointUrl_def Let_def given_or_def split: if_splits option.splits)
qed

definition demo_networks :: Networks where
  "demo_networks = \<lparr>nw_testnet = ''test'', nw_public = ''public'', nw_futurenet = ''future''\<rparr>"

definition demo_client :: "bool option \<Rightarrow> string \<Rightarrow> ClientOptions" where
  "demo_client allow url = \<lparr>co_network = \<lparr>ni_network = None, ni_rpcUrl = Some url, ni_networkPassphrase = None\<rparr>,
     co_allowHttp = allow, co_accountFetchTimeoutMs = None, co_cacheTtlMs = None,
     co_feeBufferMultiplier = None, co_maxFeeLimit = None\<rparr>"

lemma production_client_is_secure_witness:
  "case newClient demo_networks (\<lambda>_. Some ''rpc.example'') True (demo_client None ''https://rpc.example'') of
     Inl _ \<Rightarrow> False | Inr c \<Rightarrow> \<not> cl_allowHttpTransport c"
proof -
  let ?n = "newClient demo_networks (\<lambda>_. Some ''rpc.example'') True (demo_client None ''https://rpc.example'')"
  have run: "checkEndpointUrl (\<lambda>_. Some ''rpc.example'') True None ''https://rpc.example'' = Inr ()"
    "\<not> isLocalhostUrl (\<lambda>_. Some ''rpc.example'') ''https://rpc.example''"
    by code_simp+
  then obtain c where c: "?n = Inr c" "nc_rpcUrl (cl_config c) = ''https://rpc.example''"
    by (simp add: newClient_def demo_client_def resolveNetworkConfig_def given_or_def newFeeOptions_def
        DEFAULT_FEE_BUFFER_MULTIPLIER_def Let_def)
  show ?thesis using production_client_is_secure [OF c(1)] run(2) c by (simp add: demo_client_def)
qed

lemma rpc_error_is_ax [simp]: "is_ax (rpc_error m e)"
  by (simp add: rpc_error_def is_ax_def Let_def)

lemma simulation_failed_is_ax [simp]: "is_ax (simulation_failed m r x)"
  by (simp add: simulation_failed_def is_ax_def)

definition sdk_failure :: "thrown + 'v \<Rightarrow> bool" where
  "sdk_failure r \<longleftrightarrow> (case r of Inl e \<Rightarrow> is_ax e | Inr _ \<Rightarrow> True)"

text \<open>Each call ends in the same way: its error is turned into another, its result returned.\<close>

lemma fst_attempt:
  "fst (case res of Inl e \<Rightarrow> (Inl (f e), b e) | Inr v \<Rightarrow> (Inr (g v), a v)) = map_sum f g res"
  by (simp split: sum.split)

lemma snd_attempt:
  "snd (case res of Inl e \<Rightarrow> (Inl (f e), b e) | Inr v \<Rightarrow> (Inr (g v), a v)) = case_sum b a res"
  by (simp split: sum.split)

lemma plain_attempt: "(case res of Inl e \<Rightarrow> Inl (f e) | Inr v \<Rightarrow> Inr v) = map_sum f id res"
  by (simp split: sum.split)

lemma sdk_failure_map: "(\<And>e. is_ax (f e)) \<Longrightarrow> sdk_failure (map_sum f g res)"
  by (cases res) (simp_all add: sdk_failure_def)

text \<open>
  Every error of these calls is one of the SDK's own, whatever the network, the middleware, the
  wallet or the Stellar SDK raised.
\<close>

theorem call_errors_are_sdk_errors:
  "sdk_failure (fst (getHealth safeParse mw hget cfg network outs)) \<and>
   sdk_failure (getNetwork mw hget cfg outs) \<and>
   sdk_failure (getLatestLedger mw hget cfg outs) \<and>
   sdk_failure (fst (simulateTransaction safeParse isSimError network called)) \<and>
   sdk_failure (simulateBatch isSimError n fee timeout built callb) \<and>
   sdk_failure (prepareTransaction hget fees simulated assembled mwp) \<and>
   sdk_failure (fst (snd (sendTransaction fromXDR network signed tx calls w)))"
  unfolding getHealth_def getNetwork_def getLatestLedger_def simulateTransaction_def simulateBatch_def
    prepareTransaction_def sendTransaction_def Let_def snd_conv fst_attempt plain_attempt
  by (intro conjI sdk_failure_map) (simp_all add: keep_or_rpc_error_def preparation_error_def)

definition counted :: "string \<Rightarrow> metric list \<Rightarrow> nat" where
  "counted k ms = length (filter (\<lambda>m. case m of Count k' _ \<Rightarrow> k' = k | _ \<Rightarrow> False) ms)"

definition timed :: "string \<Rightarrow> metric list \<Rightarrow> nat" where
  "timed k ms = length (filter (\<lambda>m. case m of Duration k' _ \<Rightarrow> k' = k | _ \<Rightarrow> False) ms)"

definition failed :: "'v metered \<Rightarrow> nat" where
  "failed r = (case fst r of Inl _ \<Rightarrow> 1 | Inr _ \<Rightarrow> 0)"

definition balanced :: "string \<Rightarrow> string \<Rightarrow> string \<Rightarrow> 'v metered \<Rightarrow> bool" where
  "balanced calls durations errors r \<longleftrightarrow>
     counted calls (snd r) = 1 \<and> timed durations (snd r) = 1 \<and> counted errors (snd r) = failed r"

lemma balanced_attempt:
  assumes "\<And>e. counted calls (b e) = 1 \<and> timed durations (b e) = 1 \<and> counted errors (b e) = 1"
    and "\<And>v. counted calls (a v) = 1 \<and> timed durations (a v) = 1 \<and> counted errors (a v) = 0"
  shows "balanced calls durations errors (case res of Inl e \<Rightarrow> (Inl (f e), b e) | Inr v \<Rightarrow> (Inr (g v), a v))"
  using assms by (simp add: balanced_def failed_def split: sum.split)

text \<open>
  A call is counted once, its duration is recorded once, and its error is counted exactly when
  it fails.
\<close>

theorem metrics_match_outcomes:
  "balanced ''requests.total'' ''requests.duration'' ''requests.errors''
     (getHealth safeParse mw hget cfg network outs) \<and>
   balanced ''transactions.simulate'' ''transactions.simulate_duration'' ''transactions.simulate_errors''
     (simulateTransaction safeParse isSimError network called) \<and>
   balanced ''transactions.send'' ''transactions.send_duration'' ''transactions.send_errors''
     (snd (sendTransaction fromXDR network signed tx calls w))"
  unfolding getHealth_def simulateTransaction_def sendTransaction_def Let_def snd_conv
  by (intro conjI balanced_attempt) (simp_all add: counted_def timed_def)

lemma validated_conforms:
  assumes "\<And>sch v out. safeParse sch v = Inr out \<Longrightarrow> conforms sch out"
    and "validateRpcResponse safeParse sch v m = Inr out"
  shows "conforms sch out"
  using assms by (auto simp: validateRpcResponse_def Let_def split: sum.splits)

lemma conforming_transaction:
  assumes "conforms GetTransactionResponseSchema r"
  shows "jget r ''status'' \<in> JStr ` {''SUCCESS'', ''FAILED'', ''NOT_FOUND''} \<and>
    (\<exists>n. jget r ''latestLedger'' = JNum n) \<and>
    (final_status r \<longleftrightarrow> jget r ''status'' \<in> JStr ` {''SUCCESS'', ''FAILED''})"
proof -
  have "case jget r ''status'' of JStr s \<Rightarrow> s \<in> set [''SUCCESS'', ''FAILED'', ''NOT_FOUND''] | _ \<Rightarrow> False"
    and led: "case jget r ''latestLedger'' of JNum _ \<Rightarrow> True | _ \<Rightarrow> False"
    using assms by (simp_all add: GetTransactionResponseSchema_def)
  then obtain s where s: "jget r ''status'' = JStr s" "s \<in> {''SUCCESS'', ''FAILED'', ''NOT_FOUND''}"
    by (cases "jget r ''status''") simp_all
  obtain n where "jget r ''latestLedger'' = JNum n" using led by (cases "jget r ''latestLedger''") simp_all
  then show ?thesis using s(2) by (auto simp: s(1) final_status_def)
qed

text \<open>
  Validation types the answers: if the schema library returns only values that conform to their
  schema, a health answer has a status text and a transaction answer one of the three statuses,
  so a poll ends on an answer exactly when its status is success or failure.
\<close>

theorem validated_answers_are_typed:
  assumes "\<And>sch v out. safeParse sch v = Inr out \<Longrightarrow> conforms sch out"
  shows "(\<forall>h. fst (getHealth safeParse mw hget cfg network outs) = Inr h \<longrightarrow> (\<exists>s. jget h ''status'' = JStr s)) \<and>
    (\<forall>r. getTransaction safeParse mw hget cfg outs' = Inr r \<longrightarrow>
      jget r ''status'' \<in> JStr ` {''SUCCESS'', ''FAILED'', ''NOT_FOUND''} \<and>
      (\<exists>n. jget r ''latestLedger'' = JNum n) \<and>
      (final_status r \<longleftrightarrow> jget r ''status'' \<in> JStr ` {''SUCCESS'', ''FAILED''}))"
proof (intro conjI allI impI)
  fix h assume "fst (getHealth safeParse mw hget cfg network outs) = Inr h"
  then have "conforms GetHealthResponseSchema h"
    using validated_conforms [of safeParse, OF assms] by (auto simp: getHealth_def Let_def split: sum.splits)
  then have "case jget h ''status'' of JStr _ \<Rightarrow> True | _ \<Rightarrow> False" by (simp add: GetHealthResponseSchema_def)
  then show "\<exists>s. jget h ''status'' = JStr s" by (cases "jget h ''status''") simp_all
next
  fix r assume "getTransaction safeParse mw hget cfg outs' = Inr r"
  then have "conforms GetTransactionResponseSchema r"
    using validated_conforms [of safeParse, OF assms] by (auto simp: getTransaction_def split: sum.splits)
  then show "jget r ''status'' \<in> JStr ` {''SUCCESS'', ''FAILED'', ''NOT_FOUND''}"
    "\<exists>n. jget r ''latestLedger'' = JNum n"
    "final_status r \<longleftrightarrow> jget r ''status'' \<in> JStr ` {''SUCCESS'', ''FAILED''}"
    using conforming_transaction by blast+
qed

definition demo_parse_schema :: "vschema safe_parse" where
  "demo_parse_schema sch v = (if conforms sch v then Inr v else Inl [])"

lemma validated_answers_are_typed_witness:
  "final_status (JObj [(''status'', JStr ''FAILED''), (''latestLedger'', JNum 9)])"
proof -
  let ?r = "JObj [(''status'', JStr ''FAILED''), (''latestLedger'', JNum 9)]"
  have "conforms GetTransactionResponseSchema ?r" by code_simp
  then have run: "getTransaction demo_parse_schema id (\<lambda>_. None) (DEFAULT_RETRY_CONFIG\<lparr>rc_enabled := False\<rparr>)
      (\<lambda>_. Inr ?r) = Inr ?r"
    by (simp add: getTransaction_def retried_def retry_def validateRpcResponse_def demo_parse_schema_def)
  have law: "demo_parse_schema sch v = Inr out \<Longrightarrow> conforms sch out" for sch v out
    unfolding demo_parse_schema_def by (metis Inl_Inr_False sum.inject(2))
  have "final_status ?r \<longleftrightarrow> jget ?r ''status'' \<in> JStr ` {''SUCCESS'', ''FAILED''}"
    by (rule validated_answers_are_typed [of demo_parse_schema, OF law, THEN conjunct2, rule_format, OF _ run,
          THEN conjunct2, THEN conjunct2]) 
  then show ?thesis by (simp add: jget_def jprop_def)
qed

text \<open>C36. 
  What a wallet returns is checked before anything else happens to it. An answer that is no
  base64 text of at most 65536 characters makes the call fail with the world untouched: nothing
  was parsed and nothing sent. Any other answer is parsed once, and sent is exactly the
  transaction it parsed to; when it does not parse, nothing is sent and the call fails.
\<close>

theorem wallet_answer_is_checked:
  "case sendTransaction fromXDR network (Some (Inr x)) tx called w of (w', res, metrics) \<Rightarrow>
    if isValidXDR 65536 x
    then \<exists>s. x = JStr s \<and>
      (case fromXDR s w of
         (w1, Inl e) \<Rightarrow> w' = w1 \<and> (\<exists>e'. res = Inl e')
       | (w1, Inr tx') \<Rightarrow>
          (case called tx' w1 of
             (w2, Inl e) \<Rightarrow> w' = w2 \<and> (\<exists>e'. res = Inl e')
           | (w2, Inr r) \<Rightarrow> w' = w2 \<and> (\<exists>v. res = Inr v \<and> sr_raw v = r)))
    else w' = w \<and> (\<exists>e'. res = Inl e')"
proof -
  note check = assert_iff_valid [where ctx = "Some ''sendTransaction (wallet signedXdr)''"
        and n = MAX_XDR_STRING_LENGTH and x = x]
  show ?thesis
  proof (cases "assertValidXDR (Some ''sendTransaction (wallet signedXdr)'') MAX_XDR_STRING_LENGTH x")
    case (Inl e)
    then have "\<not> isValidXDR 65536 x" using check by (simp add: MAX_XDR_STRING_LENGTH_def)
    then show ?thesis by (simp add: sendTransaction_def wallet_signed_def Inl Let_def)
  next
    case (Inr u)
    then have valid: "isValidXDR 65536 x" using check by (simp add: MAX_XDR_STRING_LENGTH_def)
    then obtain s where x: "x = JStr s" by (cases x) (simp_all add: isValidXDR_def)
    show ?thesis using valid Inr unfolding x
      by (auto simp: sendTransaction_def wallet_signed_def Let_def split: prod.splits sum.splits)
  qed
qed

text \<open>A default passphrase exists for every network but the one the client's method refuses.\<close>

lemma futurenet_passphrase_refused:
  "getDefaultNetworkPassphrase nws n = Inr (getNetworkPassphrase nws n) \<longleftrightarrow> n \<noteq> Futurenet"
  by (cases n) simp_all

text \<open>The wrapper of \<open>getNetwork\<close> drops the status that the retry loop had put on the error.\<close>

lemma wrapper_drops_status: "getErrorStatusCode (rpc_error m e) = None"
  by (simp add: rpc_error_def Let_def)

end
