(* ===== verification/EventEmitter.thy ===== *)
theory EventEmitter
  imports Errors
begin

text \<open>
  The polling event emitter (\<open>src/src/contracts/ContractEventEmitter.ts\<close>) and the client
  methods that own emitters. A callback is known by its identity; it may throw, which the
  emitter swallows, and a wrapper made by \<open>once\<close> first removes itself. What a callback does to the
  emitter, such as closing it, is the parameter \<open>beh\<close>; callbacks that emit are not modelled. A poll is in one of its two requests or idle, and the
  answers of the server arrive as events. What the Stellar SDK says of a topic (a symbol, a
  string, something else, or an error) is the datatype \<open>topic\<close>.
\<close>

section \<open>Events\<close>

datatype topic = TSymbol string | TString string | TOther | TFails

record RpcEvent =
  re_ledger :: int
  re_topic :: "topic list option"
  re_contractId :: "string option"
  re_value :: jsv

record ContractEvent = RpcEvent +
  cv_topicNames :: "string list"
  cv_eventName :: "string option"

definition topicToName :: "topic \<Rightarrow> string option" where
  "topicToName t = (case t of TSymbol s \<Rightarrow> Some s | TString s \<Rightarrow> Some s | _ \<Rightarrow> None)"

definition normalizeEvent :: "RpcEvent \<Rightarrow> ContractEvent" where
  "normalizeEvent e =
    (let topicNames = filter (\<lambda>s. s \<noteq> [])
           (List.map_filter topicToName (case re_topic e of None \<Rightarrow> [] | Some ts \<Rightarrow> ts))
     in \<lparr>re_ledger = re_ledger e, re_topic = re_topic e,
         re_contractId = (case re_contractId e of None \<Rightarrow> None | Some c \<Rightarrow> if c = [] then None else Some c),
         re_value = re_value e, cv_topicNames = topicNames,
         cv_eventName = (case topicNames of [] \<Rightarrow> None | n # _ \<Rightarrow> Some n)\<rparr>)"

section \<open>The emitter\<close>

text \<open>A callback of the user, or the wrapper of one made by \<open>once\<close> for an event name.\<close>

datatype callback = Plain nat | OnceWrapper nat string nat

datatype emitter_phase = Idle | AwaitLedger | AwaitEvents

record ContractEventEmitter =
  ee_contractId :: string
  ee_topics :: "string list"
  ee_listeners :: "(string, callback list) jsmap"
  ee_interval :: bool
  ee_lastLedger :: "int option"
  ee_lastCursor :: "string option"
  ee_poll :: emitter_phase
  ee_isClosed :: bool
  ee_closeCalls :: nat
  ee_wrappers :: nat

definition newEmitter :: "string \<Rightarrow> string list \<Rightarrow> ContractEventEmitter" where
  "newEmitter cid topics = \<lparr>ee_contractId = cid, ee_topics = topics, ee_listeners = [], ee_interval = False,
     ee_lastLedger = None, ee_lastCursor = None, ee_poll = Idle, ee_isClosed = False,
     ee_closeCalls = 0, ee_wrappers = 0\<rparr>"

definition ee_isPolling :: "ContractEventEmitter \<Rightarrow> bool" where
  "ee_isPolling e \<longleftrightarrow> ee_poll e \<noteq> Idle"

definition listeners_of :: "ContractEventEmitter \<Rightarrow> string \<Rightarrow> callback list" where
  "listeners_of e ev = (case jm_get (ee_listeners e) ev of None \<Rightarrow> [] | Some cs \<Rightarrow> cs)"

definition ee_start :: "ContractEventEmitter \<Rightarrow> ContractEventEmitter" where
  "ee_start e = (if ee_isClosed e \<or> ee_interval e then e else e\<lparr>ee_interval := True\<rparr>)"

definition ee_stop :: "ContractEventEmitter \<Rightarrow> ContractEventEmitter" where
  "ee_stop e = (if ee_interval e then e\<lparr>ee_interval := False\<rparr> else e)"

text \<open>\<open>ee_closeCalls\<close> counts the calls of \<open>onClose\<close>.\<close>

definition ee_close :: "ContractEventEmitter \<Rightarrow> ContractEventEmitter" where
  "ee_close e =
    (if ee_isClosed e then e
     else (ee_stop (e\<lparr>ee_isClosed := True\<rparr>))\<lparr>ee_listeners := [], ee_closeCalls := ee_closeCalls e + 1\<rparr>)"

definition set_add :: "'a \<Rightarrow> 'a list \<Rightarrow> 'a list" where
  "set_add x xs = (if x \<in> set xs then xs else xs @ [x])"

definition ee_on :: "string \<Rightarrow> callback \<Rightarrow> ContractEventEmitter \<Rightarrow> ContractEventEmitter" where
  "ee_on ev c e =
    (if ee_isClosed e then e
     else ee_start (e\<lparr>ee_listeners := jm_set ev (set_add c (listeners_of e ev)) (ee_listeners e)\<rparr>))"

definition ee_once :: "string \<Rightarrow> nat \<Rightarrow> ContractEventEmitter \<Rightarrow> ContractEventEmitter" where
  "ee_once ev c e =
    (let w = ee_wrappers e in
     ee_on ev (OnceWrapper w ev c) (e\<lparr>ee_wrappers := w + 1\<rparr>))"

definition close_if_empty :: "ContractEventEmitter \<Rightarrow> ContractEventEmitter" where
  "close_if_empty e = (if ee_listeners e = [] then ee_close e else e)"

definition ee_off :: "string \<Rightarrow> callback \<Rightarrow> ContractEventEmitter \<Rightarrow> ContractEventEmitter" where
  "ee_off ev c e =
    close_if_empty
      (case jm_get (ee_listeners e) ev of
         None \<Rightarrow> e
       | Some cs \<Rightarrow>
          let cs' = removeAll c cs in
          e\<lparr>ee_listeners := (if cs' = [] then jm_delete ev (ee_listeners e)
                             else jm_set ev cs' (ee_listeners e))\<rparr>)"

definition ee_removeAllListeners :: "string option \<Rightarrow> ContractEventEmitter \<Rightarrow> ContractEventEmitter" where
  "ee_removeAllListeners ev e =
    close_if_empty
      (case ev of
         None \<Rightarrow> e\<lparr>ee_listeners := []\<rparr>
       | Some n \<Rightarrow> if n = [] then e\<lparr>ee_listeners := []\<rparr>
                   else e\<lparr>ee_listeners := jm_delete n (ee_listeners e)\<rparr>)"

definition ee_listenerCount :: "string option \<Rightarrow> ContractEventEmitter \<Rightarrow> nat" where
  "ee_listenerCount ev e =
    (case ev of
       None \<Rightarrow> sum_list (map length (jm_values (ee_listeners e)))
     | Some n \<Rightarrow> if n = [] then sum_list (map length (jm_values (ee_listeners e)))
                 else length (listeners_of e n))"

section \<open>Emitting\<close>

text \<open>
  What a callback does to the emitter while it runs: the methods it calls, in order. A callback
  that emits is not modelled.
\<close>

datatype emitter_method =
    MOn string nat
  | MOnce string nat
  | MOff string callback
  | MRemoveAll "string option"
  | MStart
  | MStop
  | MClose

fun run_method :: "emitter_method \<Rightarrow> ContractEventEmitter \<Rightarrow> ContractEventEmitter" where
  "run_method (MOn ev c) e = ee_on ev (Plain c) e"
| "run_method (MOnce ev c) e = ee_once ev c e"
| "run_method (MOff ev c) e = ee_off ev c e"
| "run_method (MRemoveAll ev) e = ee_removeAllListeners ev e"
| "run_method MStart e = ee_start e"
| "run_method MStop e = ee_stop e"
| "run_method MClose e = ee_close e"

type_synonym behaviour = "nat \<Rightarrow> emitter_method list"

definition run_callback :: "behaviour \<Rightarrow> nat \<Rightarrow> ContractEventEmitter \<Rightarrow> ContractEventEmitter" where
  "run_callback beh c e = fold run_method (beh c) e"

text \<open>The calls of user callbacks, in order. A wrapper removes itself and calls its callback. The
  targets are a copy, so all of them are called whatever the callbacks do.\<close>

fun call_all :: "behaviour \<Rightarrow> callback list \<Rightarrow> ContractEventEmitter \<Rightarrow> ContractEventEmitter \<times> nat list" where
  "call_all beh [] e = (e, [])"
| "call_all beh (Plain c # cs) e =
    (let (e', calls) = call_all beh cs (run_callback beh c e) in (e', c # calls))"
| "call_all beh (OnceWrapper w ev c # cs) e =
    (let (e', calls) = call_all beh cs (run_callback beh c (ee_off ev (OnceWrapper w ev c) e)) in (e', c # calls))"

definition emit_targets :: "string \<Rightarrow> ContractEventEmitter \<Rightarrow> callback list" where
  "emit_targets ev e = listeners_of e ev @ listeners_of e ''event'' @ listeners_of e ''*''"

definition ee_emit :: "behaviour \<Rightarrow> string \<Rightarrow> ContractEventEmitter \<Rightarrow> ContractEventEmitter \<times> nat list \<times> bool" where
  "ee_emit beh ev e =
    (let targets = emit_targets ev e in
     if targets = [] then (e, [], False)
     else (let (e', calls) = call_all beh targets e in (e', calls, True)))"

definition matchesTopics :: "ContractEvent \<Rightarrow> ContractEventEmitter \<Rightarrow> bool" where
  "matchesTopics ev e =
    (if ee_topics e = [] then True
     else
       let names = (if cv_topicNames ev \<noteq> [] then cv_topicNames ev
                    else case cv_eventName ev of None \<Rightarrow> [] | Some n \<Rightarrow> if n = [] then [] else [n])
       in list_ex (\<lambda>n. n \<in> set (ee_topics e)) names)"

fun emit_all :: "behaviour \<Rightarrow> string list \<Rightarrow> ContractEventEmitter \<Rightarrow> ContractEventEmitter \<times> nat list" where
  "emit_all beh [] e = (e, [])"
| "emit_all beh (n # ns) e =
    (let (e', calls, _) = ee_emit beh n e; (e'', calls') = emit_all beh ns e' in (e'', calls @ calls'))"

text \<open>The names an event is emitted under, in order.\<close>

definition emitted_names :: "ContractEvent \<Rightarrow> string list" where
  "emitted_names ev = [''event'', ''*''] @
     (case cv_eventName ev of None \<Rightarrow> [] | Some n \<Rightarrow> if n = [] then [] else [n, ''event:'' @ n])"

definition handle_event :: "behaviour \<Rightarrow> RpcEvent \<Rightarrow> ContractEventEmitter \<Rightarrow> ContractEventEmitter \<times> nat list" where
  "handle_event beh raw e =
    (let e = e\<lparr>ee_lastLedger := Some (case ee_lastLedger e of None \<Rightarrow> re_ledger raw
               | Some l \<Rightarrow> max l (re_ledger raw))\<rparr>;
         ev = normalizeEvent raw
     in if \<not> matchesTopics ev e then (e, []) else emit_all beh (emitted_names ev) e)"

fun handle_events :: "behaviour \<Rightarrow> RpcEvent list \<Rightarrow> ContractEventEmitter \<Rightarrow> ContractEventEmitter \<times> nat list" where
  "handle_events beh [] e = (e, [])"
| "handle_events beh (raw # raws) e =
    (let (e', calls) = handle_event beh raw e; (e'', calls') = handle_events beh raws e' in (e'', calls @ calls'))"

section \<open>Polling\<close>

datatype poll_request = LatestLedger | FromCursor string | FromLedger int

definition cursor_given :: "ContractEventEmitter \<Rightarrow> bool" where
  "cursor_given e = (case ee_lastCursor e of None \<Rightarrow> False | Some c \<Rightarrow> c \<noteq> [])"

definition events_request :: "ContractEventEmitter \<Rightarrow> poll_request" where
  "events_request e =
    (if cursor_given e then FromCursor (the (ee_lastCursor e))
     else FromLedger (case ee_lastLedger e of None \<Rightarrow> 0 | Some l \<Rightarrow> l))"

text \<open>The interval's callback: the requests it makes at once.\<close>

definition poll_tick :: "ContractEventEmitter \<Rightarrow> ContractEventEmitter \<times> poll_request list" where
  "poll_tick e =
    (if ee_isPolling e \<or> ee_isClosed e then (e, [])
     else if ee_lastLedger e = None \<and> \<not> cursor_given e
     then (e\<lparr>ee_poll := AwaitLedger\<rparr>, [LatestLedger])
     else (e\<lparr>ee_poll := AwaitEvents\<rparr>, [events_request e]))"

definition poll_ledger :: "thrown + int \<Rightarrow> ContractEventEmitter \<Rightarrow> ContractEventEmitter \<times> poll_request list" where
  "poll_ledger res e =
    (case res of
       Inl x \<Rightarrow> (e\<lparr>ee_poll := Idle\<rparr>, [])
     | Inr sq \<Rightarrow> (let e' = e\<lparr>ee_lastLedger := Some sq\<rparr> in
                 (e'\<lparr>ee_poll := AwaitEvents\<rparr>, [events_request e'])))"

definition poll_events ::
    "behaviour \<Rightarrow> thrown + string option \<times> RpcEvent list \<Rightarrow> ContractEventEmitter \<Rightarrow> ContractEventEmitter \<times> nat list" where
  "poll_events beh res e =
    (case res of
       Inl x \<Rightarrow> (e\<lparr>ee_poll := Idle\<rparr>, [])
     | Inr (cursor, events) \<Rightarrow>
         (let (e', calls) = handle_events beh events (e\<lparr>ee_lastCursor := cursor\<rparr>)
          in (e'\<lparr>ee_poll := Idle\<rparr>, calls)))"

section \<open>The emitter as a machine\<close>

datatype emitter_op =
    EOn string nat
  | EOnce string nat
  | EOff string callback
  | ERemoveAll "string option"
  | EEmit string
  | EStart
  | EStop
  | EClose
  | ETick
  | ELedger "thrown + int"
  | EEvents "thrown + string option \<times> RpcEvent list"

text \<open>
  What a step does to the emitter, the user callbacks it calls and the requests it makes. The
  interval ticks only while it is set, and an answer arrives only where it is awaited.
\<close>

definition emitter_step ::
    "behaviour \<Rightarrow> emitter_op \<Rightarrow> ContractEventEmitter \<Rightarrow> ContractEventEmitter \<times> nat list \<times> poll_request list" where
  "emitter_step beh p e =
    (case p of
       EOn ev c \<Rightarrow> (ee_on ev (Plain c) e, [], [])
     | EOnce ev c \<Rightarrow> (ee_once ev c e, [], [])
     | EOff ev c \<Rightarrow> (ee_off ev c e, [], [])
     | ERemoveAll ev \<Rightarrow> (ee_removeAllListeners ev e, [], [])
     | EEmit ev \<Rightarrow> (let (e', calls, _) = ee_emit beh ev e in (e', calls, []))
     | EStart \<Rightarrow> (ee_start e, [], [])
     | EStop \<Rightarrow> (ee_stop e, [], [])
     | EClose \<Rightarrow> (ee_close e, [], [])
     | ETick \<Rightarrow> if ee_interval e then (let (e', rs) = poll_tick e in (e', [], rs)) else (e, [], [])
     | ELedger res \<Rightarrow> if ee_poll e = AwaitLedger then (let (e', rs) = poll_ledger res e in (e', [], rs))
                      else (e, [], [])
     | EEvents res \<Rightarrow> if ee_poll e = AwaitEvents then (let (e', calls) = poll_events beh res e in (e', calls, []))
                      else (e, [], []))"

definition emitter_next :: "behaviour \<Rightarrow> ContractEventEmitter \<Rightarrow> emitter_op \<Rightarrow> ContractEventEmitter" where
  "emitter_next beh e p = fst (emitter_step beh p e)"

section \<open>The client's emitters\<close>

text \<open>All emitters a client made, and those it still owns (\<open>eventEmitters\<close>).\<close>

record EmitterOwner =
  ow_emitters :: "ContractEventEmitter list"
  ow_owned :: "nat list"

definition subscribeToEvents :: "string \<Rightarrow> string list \<Rightarrow> EmitterOwner \<Rightarrow> EmitterOwner \<times> nat" where
  "subscribeToEvents cid topics o1 =
    (let i = length (ow_emitters o1) in
     (o1\<lparr>ow_emitters := ow_emitters o1 @ [ee_start (newEmitter cid topics)], ow_owned := ow_owned o1 @ [i]\<rparr>, i))"

text \<open>A closed emitter's \<open>onClose\<close> takes it out of the set.\<close>

definition owner_close :: "nat \<Rightarrow> EmitterOwner \<Rightarrow> EmitterOwner" where
  "owner_close i o1 =
    (let e = ow_emitters o1 ! i in
     o1\<lparr>ow_emitters := (ow_emitters o1)[i := ee_close e],
        ow_owned := (if ee_isClosed e then ow_owned o1 else removeAll i (ow_owned o1))\<rparr>)"

text \<open>A step of one emitter; if it closes the emitter, its \<open>onClose\<close> has run.\<close>

definition owner_apply :: "behaviour \<Rightarrow> nat \<Rightarrow> emitter_op \<Rightarrow> EmitterOwner \<Rightarrow> EmitterOwner" where
  "owner_apply beh i p o1 =
    (if i < length (ow_emitters o1) then
       (let e = ow_emitters o1 ! i; e' = emitter_next beh e p in
        o1\<lparr>ow_emitters := (ow_emitters o1)[i := e'],
           ow_owned := (if ee_isClosed e \<or> \<not> ee_isClosed e' then ow_owned o1 else removeAll i (ow_owned o1))\<rparr>)
     else o1)"

definition client_removeAllListeners :: "EmitterOwner \<Rightarrow> EmitterOwner" where
  "client_removeAllListeners o1 = (fold owner_close (ow_owned o1) o1)\<lparr>ow_owned := []\<rparr>"

section \<open>Well-formed emitters\<close>

definition listener_sets :: "(string, callback list) jsmap \<Rightarrow> bool" where
  "listener_sets ls \<longleftrightarrow> jm_ok ls \<and> jm_all (\<lambda>_ cs. cs \<noteq> [] \<and> distinct cs) ls"

lemma listener_sets_simps [simp]: "listener_sets []"
  by (simp add: listener_sets_def)

lemma listener_sets_set [intro]: "listener_sets ls \<Longrightarrow> cs \<noteq> [] \<Longrightarrow> distinct cs \<Longrightarrow> listener_sets (jm_set ev cs ls)"
  unfolding listener_sets_def by (metis (mono_tags, lifting) jm_all_set jm_ok_set)

lemma listener_sets_delete [intro]: "listener_sets ls \<Longrightarrow> listener_sets (jm_delete ev ls)"
  unfolding listener_sets_def by (metis jm_all_delete jm_ok_delete)

lemma listener_sets_get: "listener_sets ls \<Longrightarrow> jm_get ls ev = Some cs \<Longrightarrow> cs \<noteq> [] \<and> distinct cs"
  unfolding listener_sets_def using jm_all_getD by fastforce

text \<open>
  No empty or repeating listener set, nothing registered or ticking after the close, which
  happened at most once, and the ledger is asked for only while it is unknown.
\<close>

definition emitter_inv :: "ContractEventEmitter \<Rightarrow> bool" where
  "emitter_inv e \<longleftrightarrow>
     listener_sets (ee_listeners e) \<and>
     (ee_isClosed e \<longrightarrow> ee_listeners e = [] \<and> \<not> ee_interval e) \<and>
     ee_closeCalls e = (if ee_isClosed e then 1 else 0) \<and>
     (ee_poll e = AwaitLedger \<longrightarrow> ee_lastLedger e = None)"

named_theorems emitter_intros \<open>operations keep emitters well-formed\<close>

lemma inv_start [emitter_intros]: "emitter_inv e \<Longrightarrow> emitter_inv (ee_start e)"
  by (simp add: emitter_inv_def ee_start_def)

lemma inv_stop [emitter_intros]: "emitter_inv e \<Longrightarrow> emitter_inv (ee_stop e)"
  by (simp add: emitter_inv_def ee_stop_def)

lemma inv_close [emitter_intros]: "emitter_inv e \<Longrightarrow> emitter_inv (ee_close e)"
  by (simp add: emitter_inv_def ee_close_def ee_stop_def)

lemma listeners_distinct: "emitter_inv e \<Longrightarrow> distinct (listeners_of e ev)"
  using listener_sets_get [of "ee_listeners e" ev] by (simp add: listeners_of_def emitter_inv_def split: option.split)

lemma inv_on [emitter_intros]: "emitter_inv e \<Longrightarrow> emitter_inv (ee_on ev c e)"
proof -
  assume e: "emitter_inv e"
  have "set_add c (listeners_of e ev) \<noteq> []" "distinct (set_add c (listeners_of e ev))"
    using listeners_distinct [OF e, of ev] by (auto simp: set_add_def)
  then have "listener_sets (jm_set ev (set_add c (listeners_of e ev)) (ee_listeners e))"
    using e by (auto simp: emitter_inv_def)
  then show ?thesis using e by (simp add: ee_on_def emitter_inv_def ee_start_def)
qed

lemma inv_listeners: "emitter_inv e \<Longrightarrow> listener_sets ls \<Longrightarrow>
    (ee_isClosed e \<longrightarrow> ls = []) \<Longrightarrow> emitter_inv (close_if_empty (e\<lparr>ee_listeners := ls\<rparr>))"
  by (simp add: close_if_empty_def emitter_inv_def ee_close_def ee_stop_def)

lemma inv_off [emitter_intros]: "emitter_inv e \<Longrightarrow> emitter_inv (ee_off ev c e)"
proof (cases "jm_get (ee_listeners e) ev")
  case None
  assume "emitter_inv e"
  then show ?thesis using inv_listeners [of e "ee_listeners e"] None
    by (simp add: ee_off_def emitter_inv_def)
next
  case (Some cs)
  assume e: "emitter_inv e"
  then have "distinct cs" "\<not> ee_isClosed e" "listener_sets (ee_listeners e)"
    using Some listener_sets_get [of "ee_listeners e" ev cs] by (auto simp: emitter_inv_def)
  then show ?thesis using Some
    by (auto simp: ee_off_def Let_def distinct_removeAll intro!: inv_listeners [OF e])
qed

lemma inv_removeAll [emitter_intros]: "emitter_inv e \<Longrightarrow> emitter_inv (ee_removeAllListeners ev e)"
proof -
  assume e: "emitter_inv e"
  then have "listener_sets (ee_listeners e)" "ee_isClosed e \<longrightarrow> ee_listeners e = []"
    by (auto simp: emitter_inv_def)
  then show ?thesis using inv_listeners [OF e]
    by (auto simp: ee_removeAllListeners_def split: option.split)
qed

lemma inv_once [emitter_intros]: "emitter_inv e \<Longrightarrow> emitter_inv (ee_once ev c e)"
proof -
  assume "emitter_inv e"
  then have "emitter_inv (e\<lparr>ee_wrappers := w\<rparr>)" for w by (simp add: emitter_inv_def)
  then show ?thesis by (simp add: ee_once_def Let_def emitter_intros)
qed

lemma inv_method: "emitter_inv e \<Longrightarrow> emitter_inv (run_method m e)"
  by (cases m) (simp_all add: emitter_intros)

lemma inv_callback [emitter_intros]: "emitter_inv e \<Longrightarrow> emitter_inv (run_callback beh c e)"
proof -
  have "emitter_inv e \<Longrightarrow> emitter_inv (fold run_method ms e)" for ms
    by (induction ms arbitrary: e) (simp_all add: inv_method)
  then show "emitter_inv e \<Longrightarrow> emitter_inv (run_callback beh c e)" by (simp add: run_callback_def)
qed

lemma inv_call_all: "emitter_inv e \<Longrightarrow> emitter_inv (fst (call_all beh cs e))"
  by (induction beh cs e rule: call_all.induct) (auto simp: case_prod_unfold Let_def intro: emitter_intros)

lemma inv_emit [emitter_intros]: "emitter_inv e \<Longrightarrow> emitter_inv (fst (ee_emit beh ev e))"
  using inv_call_all by (simp add: ee_emit_def Let_def case_prod_unfold)

lemma inv_emit_all: "emitter_inv e \<Longrightarrow> emitter_inv (fst (emit_all beh ns e))"
  by (induction ns arbitrary: e) (auto simp: case_prod_unfold Let_def intro: emitter_intros)

text \<open>Calling listeners does not touch what the poll keeps.\<close>

lemma close_keeps [simp]: "ee_lastLedger (ee_close e) = ee_lastLedger e" "ee_poll (ee_close e) = ee_poll e"
  by (simp_all add: ee_close_def ee_stop_def)

lemma off_keeps [simp]: "ee_lastLedger (ee_off ev c e) = ee_lastLedger e" "ee_poll (ee_off ev c e) = ee_poll e"
  by (simp_all add: ee_off_def close_if_empty_def Let_def split: option.split)

lemma method_keeps [simp]: "ee_lastLedger (run_method m e) = ee_lastLedger e" "ee_poll (run_method m e) = ee_poll e"
  by (cases m; simp add: ee_on_def ee_once_def ee_start_def ee_stop_def ee_removeAllListeners_def
      close_if_empty_def Let_def split: option.split)+

lemma callback_keeps [simp]: "ee_lastLedger (run_callback beh c e) = ee_lastLedger e"
  "ee_poll (run_callback beh c e) = ee_poll e"
proof -
  have "ee_lastLedger (fold run_method ms e) = ee_lastLedger e \<and> ee_poll (fold run_method ms e) = ee_poll e" for ms
    by (induction ms arbitrary: e) simp_all
  then show "ee_lastLedger (run_callback beh c e) = ee_lastLedger e" "ee_poll (run_callback beh c e) = ee_poll e"
    by (simp_all add: run_callback_def)
qed

lemma call_all_keeps [simp]: "ee_lastLedger (fst (call_all beh cs e)) = ee_lastLedger e \<and>
    ee_poll (fst (call_all beh cs e)) = ee_poll e"
  by (induction beh cs e rule: call_all.induct) (auto simp: case_prod_unfold Let_def)

lemma emit_all_keeps [simp]: "ee_lastLedger (fst (emit_all beh ns e)) = ee_lastLedger e \<and>
    ee_poll (fst (emit_all beh ns e)) = ee_poll e"
  by (induction ns arbitrary: e) (auto simp: case_prod_unfold Let_def ee_emit_def)

lemma handle_event_ledger:
  "\<exists>l. ee_lastLedger (fst (handle_event beh raw e)) = Some l \<and> re_ledger raw \<le> l \<and>
     (\<forall>l0. ee_lastLedger e = Some l0 \<longrightarrow> l0 \<le> l)"
  by (auto simp: handle_event_def Let_def split: option.split)

lemma inv_handle_event: "emitter_inv e \<Longrightarrow> ee_poll e = AwaitEvents \<Longrightarrow>
    emitter_inv (fst (handle_event beh raw e)) \<and> ee_poll (fst (handle_event beh raw e)) = AwaitEvents"
  by (auto simp: handle_event_def Let_def intro!: inv_emit_all) (simp_all add: emitter_inv_def)

lemma inv_handle_events: "emitter_inv e \<Longrightarrow> ee_poll e = AwaitEvents \<Longrightarrow>
    emitter_inv (fst (handle_events beh raws e)) \<and> ee_poll (fst (handle_events beh raws e)) = AwaitEvents"
proof (induction raws arbitrary: e)
  case (Cons r raws)
  then show ?case using inv_handle_event [of e beh r] by (simp add: case_prod_unfold Let_def)
qed simp

lemma inv_idle: "emitter_inv e \<Longrightarrow> emitter_inv (e\<lparr>ee_poll := Idle\<rparr>)"
  by (simp add: emitter_inv_def)

lemma emitter_next_inv: "emitter_inv e \<Longrightarrow> emitter_inv (emitter_next beh e p)"
proof -
  assume e: "emitter_inv e"
  show ?thesis
  proof (cases p)
    case ETick
    then show ?thesis using e
      by (auto simp: emitter_next_def emitter_step_def poll_tick_def emitter_inv_def)
  next
    case (ELedger res)
    then show ?thesis using e
      by (cases res) (auto simp: emitter_next_def emitter_step_def poll_ledger_def Let_def emitter_inv_def)
  next
    case (EEvents res)
    have "emitter_inv (e\<lparr>ee_lastCursor := c\<rparr>)" for c using e by (simp add: emitter_inv_def)
    then show ?thesis using e EEvents inv_handle_events inv_idle
      by (auto simp: emitter_next_def emitter_step_def poll_events_def Let_def case_prod_unfold split: sum.split)
  qed (use e in \<open>auto simp: emitter_next_def emitter_step_def Let_def case_prod_unfold intro: emitter_intros\<close>)
qed

lemma emitter_inv_new: "emitter_inv (newEmitter cid topics)"
  by (simp add: emitter_inv_def newEmitter_def)

interpretation emitter: invariant_machine emitter_inv "emitter_next beh" "newEmitter cid topics" for beh cid topics
  by unfold_locales (simp_all add: emitter_inv_new emitter_next_inv)

section \<open>Closing is final\<close>

lemma closed_emit_all: "ee_isClosed e \<Longrightarrow> emitter_inv e \<Longrightarrow> emit_all beh ns e = (e, [])"
  by (induction ns) (simp_all add: ee_emit_def emit_targets_def listeners_of_def emitter_inv_def)

lemma closed_handle_events:
  "ee_isClosed e \<Longrightarrow> emitter_inv e \<Longrightarrow> ee_poll e = AwaitEvents \<Longrightarrow>
    ee_isClosed (fst (handle_events beh raws e)) \<and> snd (handle_events beh raws e) = []"
proof (induction raws arbitrary: e)
  case (Cons r raws)
  have one: "ee_isClosed (fst (handle_event beh r e)) \<and> snd (handle_event beh r e) = []"
  proof -
    have "emitter_inv (e\<lparr>ee_lastLedger := l\<rparr>)" for l
      using Cons.prems by (simp add: emitter_inv_def)
    then show ?thesis using Cons.prems closed_emit_all [of "e\<lparr>ee_lastLedger := _\<rparr>"]
      by (simp add: handle_event_def Let_def)
  qed
  then show ?case using Cons.IH inv_handle_event [OF Cons.prems(2,3), of beh r]
    by (simp add: case_prod_unfold Let_def)
qed simp

lemma closed_step:
  assumes "ee_isClosed e" and "emitter_inv e" and "emitter_step beh p e = (e', calls, rs)"
  shows "ee_isClosed e' \<and> calls = [] \<and> (rs \<noteq> [] \<longrightarrow> ee_poll e = AwaitLedger)"
proof -
  have no: "ee_listeners e = []" "\<not> ee_interval e" using assms(1,2) by (auto simp: emitter_inv_def)
  show ?thesis
  proof (cases p)
    case (EEvents res)
    have "emitter_inv (e\<lparr>ee_lastCursor := c\<rparr>)" for c using assms(2) by (simp add: emitter_inv_def)
    then show ?thesis using assms closed_handle_events [of "e\<lparr>ee_lastCursor := _\<rparr>"]
      by (auto simp: EEvents emitter_step_def poll_events_def Let_def case_prod_unfold split: sum.splits if_splits)
  qed (use assms no in \<open>auto simp: emitter_step_def ee_on_def ee_once_def ee_off_def ee_removeAllListeners_def
      close_if_empty_def ee_close_def ee_emit_def emit_targets_def listeners_of_def ee_start_def ee_stop_def
      poll_ledger_def Let_def split: if_splits option.splits sum.splits\<close>)
qed

fun emitter_calls :: "behaviour \<Rightarrow> emitter_op list \<Rightarrow> ContractEventEmitter \<Rightarrow> nat list" where
  "emitter_calls beh [] e = []"
| "emitter_calls beh (p # ps) e = (let (e', calls, _) = emitter_step beh p e in calls @ emitter_calls beh ps e')"

text \<open>
  In the middle of a step, a closed emitter that is well-formed calls nobody under any name and for
  no event: once an emission whose callbacks closed the emitter is over, the rest of the poll is
  silent.
\<close>

lemma closed_mid_poll_is_silent:
  assumes "ee_isClosed e" and "emitter_inv e" and "ee_poll e = AwaitEvents"
  shows "snd (emit_all beh names e) = [] \<and> snd (handle_events beh raws e) = []"
  using closed_emit_all [OF assms(1,2)] closed_handle_events [OF assms] by simp

text \<open>C29. 
  Closing is final: whatever happened before, and whatever callbacks do to the emitter, closing it
  included, once a step has left it closed nothing reopens it, its \<open>onClose\<close> has run once and never
  runs again, it holds no listener and no timer, and no later step calls a callback, also not a
  poll that was under way. (Within the step that closes it, a callback that closes does not stop
  the emission it is called by: see \<open>closing_does_not_stop_emission\<close>.)
\<close>

theorem closed_emitter_is_silent:
  assumes "e = foldl (emitter_next beh) (newEmitter cid topics) before" and "ee_isClosed e"
  shows "emitter_calls beh after e = [] \<and> ee_isClosed (foldl (emitter_next beh) e after) \<and>
    ee_closeCalls (foldl (emitter_next beh) e after) = 1 \<and>
    ee_listeners (foldl (emitter_next beh) e after) = [] \<and> \<not> ee_interval (foldl (emitter_next beh) e after)"
proof -
  have inv: "emitter_inv e" using emitter.inv_run assms(1) by simp
  have calls: "emitter_calls beh after e = [] \<and> ee_isClosed (foldl (emitter_next beh) e after)"
    using assms(2) inv
  proof (induction after arbitrary: e)
    case (Cons p ps)
    obtain e' calls rs where step: "emitter_step beh p e = (e', calls, rs)" by (cases "emitter_step beh p e")
    then show ?case using Cons.IH [of e'] closed_step [OF Cons.prems step] emitter_next_inv [OF Cons.prems(2), of beh p]
      by (simp add: emitter_next_def)
  qed simp
  moreover have "emitter_inv (foldl (emitter_next beh) e after)" by (rule emitter.inv_steps [OF inv])
  ultimately show ?thesis by (simp add: emitter_inv_def)
qed

definition demo_emitter :: "emitter_op list" where
  "demo_emitter = [EOn ''paid'' 1, ETick, ELedger (Inr 9), EClose]"

lemma closed_emitter_is_silent_witness:
  "emitter_calls (\<lambda>_. []) [EEvents (Inr (None, [\<lparr>re_ledger = 9, re_topic = Some [TSymbol ''paid''], re_contractId = None,
      re_value = JNull\<rparr>])), EOn ''paid'' 2, ETick] (foldl (emitter_next (\<lambda>_. [])) (newEmitter ''C'' []) demo_emitter) = []"
proof -
  have "ee_isClosed (foldl (emitter_next (\<lambda>_. [])) (newEmitter ''C'' []) demo_emitter)" by code_simp
  from closed_emitter_is_silent [OF refl this] show ?thesis by (rule conjunct1)
qed

text \<open>
  An emission calls a copy of the listeners: with two listeners of which the first closes the
  emitter, the second is still called, on an emitter that is closed. The emissions that follow in
  the same poll call nobody.
\<close>

theorem closing_does_not_stop_emission:
  "let beh = (\<lambda>k. if k = 1 then [MClose] else []);
       e = foldl (emitter_next beh) (newEmitter ''C'' [])
             [EOn ''*'' 1, EOn ''*'' 2, ETick, ELedger (Inr 9)];
       p = EEvents (Inr (None, [\<lparr>re_ledger = 9, re_topic = Some [TSymbol ''paid''], re_contractId = None,
             re_value = JNull\<rparr>]))
   in emitter_calls beh [p] e = [1, 2] \<and> ee_isClosed (emitter_next beh e p)"
  by code_simp

section \<open>Who hears an event\<close>

definition plain_only :: "ContractEventEmitter \<Rightarrow> bool" where
  "plain_only e \<longleftrightarrow> (\<forall>ev. \<forall>c \<in> set (listeners_of e ev). case c of Plain _ \<Rightarrow> True | OnceWrapper _ _ _ \<Rightarrow> False)"

definition callee :: "callback \<Rightarrow> nat" where
  "callee c = (case c of Plain k \<Rightarrow> k | OnceWrapper _ _ k \<Rightarrow> k)"

lemma call_all_plain:
  "\<forall>c \<in> set cs. case c of Plain _ \<Rightarrow> True | OnceWrapper _ _ _ \<Rightarrow> False \<Longrightarrow>
    call_all (\<lambda>_. []) cs e = (e, map callee cs)"
  by (induction "\<lambda>_ :: nat. [] :: emitter_method list" cs e rule: call_all.induct)
     (simp_all add: callee_def run_callback_def)

lemma emit_all_plain: "plain_only e \<Longrightarrow>
    emit_all (\<lambda>_. []) ns e = (e, concat (map (\<lambda>n. map callee (emit_targets n e)) ns))"
proof (induction ns)
  case (Cons n ns)
  have "\<forall>c \<in> set (emit_targets n e). case c of Plain _ \<Rightarrow> True | OnceWrapper _ _ _ \<Rightarrow> False"
    using Cons.prems by (auto simp: emit_targets_def plain_only_def)
  then have "ee_emit (\<lambda>_. []) n e = (e, map callee (emit_targets n e), emit_targets n e \<noteq> [])"
    by (simp add: ee_emit_def Let_def call_all_plain)
  then show ?case using Cons by simp
qed simp

text \<open>How often callback \<open>k\<close> is registered under a name.\<close>

definition registered :: "nat \<Rightarrow> ContractEventEmitter \<Rightarrow> string \<Rightarrow> nat" where
  "registered k e ev = count_list (map callee (listeners_of e ev)) k"

text \<open>
  An event of the contract is emitted under up to four names, and each emission also reaches
  the listeners of \<open>event\<close> and of \<open>*\<close>: a callback registered under the event's name hears it
  once, one registered under \<open>event\<close> or \<open>*\<close> hears it five times, or three if it has no name.
\<close>

theorem event_delivery_counts:
  assumes "plain_only e" and "matchesTopics (normalizeEvent raw) e"
  shows "count_list (snd (handle_event (\<lambda>_. []) raw e)) k =
    (case cv_eventName (normalizeEvent raw) of
       None \<Rightarrow> 3 * registered k e ''event'' + 3 * registered k e ''*''
     | Some n \<Rightarrow> 5 * registered k e ''event'' + 5 * registered k e ''*'' +
                 registered k e n + registered k e (''event:'' @ n))"
proof -
  let ?e = "e\<lparr>ee_lastLedger := Some (case ee_lastLedger e of None \<Rightarrow> re_ledger raw
               | Some l \<Rightarrow> max l (re_ledger raw))\<rparr>"
  have same: "listeners_of ?e = listeners_of e" by (rule ext) (simp add: listeners_of_def)
  have plain: "plain_only ?e" using assms(1) by (simp add: plain_only_def same)
  have named: "n \<noteq> []" if "cv_eventName (normalizeEvent raw) = Some n" for n
    using that by (auto simp: normalizeEvent_def Let_def filter_eq_Cons_iff split: list.splits)
  have "handle_event (\<lambda>_. []) raw e = emit_all (\<lambda>_. []) (emitted_names (normalizeEvent raw)) ?e"
  proof -
    have "matchesTopics (normalizeEvent raw) ?e" using assms(2) by (simp add: matchesTopics_def)
    then show ?thesis by (simp add: handle_event_def Let_def)
  qed
  then show ?thesis using named
    by (simp add: emit_all_plain [OF plain] emitted_names_def emit_targets_def same registered_def
        split: option.split)
qed

text \<open>A listener added with \<open>once\<close> hears its event twice.\<close>

definition demo_paid :: RpcEvent where
  "demo_paid = \<lparr>re_ledger = 9, re_topic = Some [TSymbol ''paid''], re_contractId = None, re_value = JNull\<rparr>"

lemma event_delivery_counts_witness:
  "count_list (snd (handle_event (\<lambda>_. []) demo_paid (ee_on ''event'' (Plain 7) (newEmitter ''C'' [])))) 7 = 5"
proof -
  let ?e = "ee_on ''event'' (Plain 7) (newEmitter ''C'' [])"
  have "plain_only ?e"
    by (simp add: plain_only_def ee_on_def newEmitter_def ee_start_def listeners_of_def set_add_def)
  moreover have "matchesTopics (normalizeEvent demo_paid) ?e" by code_simp
  moreover have "cv_eventName (normalizeEvent demo_paid) = Some ''paid''" by code_simp
  moreover have "registered 7 ?e ''event'' = 1" "registered 7 ?e ''*'' = 0" "registered 7 ?e ''paid'' = 0"
    "registered 7 ?e (''event:'' @ ''paid'') = 0"
    by code_simp+
  ultimately show ?thesis using event_delivery_counts [of ?e demo_paid 7] by simp
qed

theorem once_listener_called_twice:
  "emitter_calls (\<lambda>_. []) [EOnce ''event'' 7, ETick, ELedger (Inr 9), EEvents (Inr (Some ''c'', [demo_paid]))]
     (newEmitter ''C'' []) = [7, 7]"
  by code_simp

text \<open>The ledger a poll starts from never goes back.\<close>

lemma last_ledger_monotone:
  assumes "emitter_inv e" and "ee_lastLedger e = Some l"
  shows "\<exists>l'. ee_lastLedger (emitter_next beh e p) = Some l' \<and> l \<le> l'"
proof -
  have many: "\<exists>l'. ee_lastLedger (fst (handle_events beh raws e)) = Some l' \<and> l \<le> l'"
    if "ee_lastLedger e = Some l" for raws e l
    using that
  proof (induction raws arbitrary: e l)
    case (Cons r raws)
    obtain l1 where "ee_lastLedger (fst (handle_event beh r e)) = Some l1" "l \<le> l1"
      using handle_event_ledger [of beh r e] Cons.prems by auto
    then show ?case using Cons.IH [of "fst (handle_event beh r e)" l1]
      by (auto simp: case_prod_unfold Let_def)
  qed simp
  show ?thesis
  proof (cases p)
    case (EEvents res)
    then show ?thesis using assms(2) many [of "e\<lparr>ee_lastCursor := _\<rparr>" l]
      by (auto simp: emitter_next_def emitter_step_def poll_events_def Let_def case_prod_unfold split: sum.split)
  next
    case (ELedger res)
    then show ?thesis using assms by (simp add: emitter_next_def emitter_step_def emitter_inv_def)
  qed (use assms(2) in \<open>auto simp: emitter_next_def emitter_step_def ee_on_def ee_once_def ee_removeAllListeners_def
      close_if_empty_def ee_start_def ee_stop_def ee_emit_def poll_tick_def Let_def case_prod_unfold
      split: option.split\<close>)
qed

section \<open>The client owns its open emitters\<close>

datatype owner_op = OSubscribe string "string list" | OEmitter nat emitter_op | ORemoveAll

definition owner_next :: "behaviour \<Rightarrow> EmitterOwner \<Rightarrow> owner_op \<Rightarrow> EmitterOwner" where
  "owner_next beh o1 p =
    (case p of
       OSubscribe cid topics \<Rightarrow> fst (subscribeToEvents cid topics o1)
     | OEmitter i q \<Rightarrow> owner_apply beh i q o1
     | ORemoveAll \<Rightarrow> client_removeAllListeners o1)"

definition newOwner :: EmitterOwner where
  "newOwner = \<lparr>ow_emitters = [], ow_owned = []\<rparr>"

text \<open>Exactly the open emitters are owned, each once, and every emitter is well-formed.\<close>

definition owner_inv :: "EmitterOwner \<Rightarrow> bool" where
  "owner_inv o1 \<longleftrightarrow> distinct (ow_owned o1) \<and> (\<forall>e \<in> set (ow_emitters o1). emitter_inv e) \<and>
     (\<forall>i. i \<in> set (ow_owned o1) \<longleftrightarrow> i < length (ow_emitters o1) \<and> \<not> ee_isClosed (ow_emitters o1 ! i))"

lemma owner_inv_update:
  assumes "owner_inv o1" and "i < length (ow_emitters o1)" and "emitter_inv e'"
    and "ee_isClosed (ow_emitters o1 ! i) \<Longrightarrow> ee_isClosed e'"
  shows "owner_inv (o1\<lparr>ow_emitters := (ow_emitters o1)[i := e'],
     ow_owned := (if ee_isClosed (ow_emitters o1 ! i) \<or> \<not> ee_isClosed e' then ow_owned o1
                  else removeAll i (ow_owned o1))\<rparr>)"
  using assms unfolding owner_inv_def
  by (auto simp: nth_list_update distinct_removeAll dest: set_update_subset_insert [THEN subsetD])

lemma owner_close_step:
  assumes "owner_inv o1" and "i < length (ow_emitters o1)"
  shows "owner_inv (owner_close i o1)"
proof -
  have "emitter_inv (ow_emitters o1 ! i)" using assms by (auto simp: owner_inv_def)
  then have "emitter_inv (ee_close (ow_emitters o1 ! i))" by (rule inv_close)
  moreover have "ee_isClosed (ee_close e)" for e by (simp add: ee_close_def ee_stop_def)
  ultimately show ?thesis using owner_inv_update [OF assms, of "ee_close (ow_emitters o1 ! i)"]
    by (simp add: owner_close_def Let_def)
qed

lemma owner_close_all:
  "owner_inv o1 \<Longrightarrow> \<forall>i \<in> set ixs. i < length (ow_emitters o1) \<Longrightarrow>
    owner_inv (fold owner_close ixs o1) \<and> length (ow_emitters (fold owner_close ixs o1)) = length (ow_emitters o1) \<and>
    (\<forall>j < length (ow_emitters o1). ee_isClosed (ow_emitters (fold owner_close ixs o1) ! j) \<longleftrightarrow>
        ee_isClosed (ow_emitters o1 ! j) \<or> j \<in> set ixs)"
proof (induction ixs arbitrary: o1)
  case (Cons i ixs)
  have i: "i < length (ow_emitters o1)" using Cons.prems by simp
  have len: "length (ow_emitters (owner_close i o1)) = length (ow_emitters o1)"
    by (simp add: owner_close_def Let_def)
  have closed: "ee_isClosed (ow_emitters (owner_close i o1) ! j) \<longleftrightarrow> ee_isClosed (ow_emitters o1 ! j) \<or> j = i"
    if "j < length (ow_emitters o1)" for j
    using i that by (auto simp: owner_close_def Let_def nth_list_update ee_close_def ee_stop_def)
  show ?case
    using Cons.IH [OF owner_close_step [OF Cons.prems(1) i]] Cons.prems(2) closed len by auto
qed simp

lemma owner_removeAll:
  assumes "owner_inv o1"
  shows "owner_inv (client_removeAllListeners o1) \<and> ow_owned (client_removeAllListeners o1) = [] \<and>
    (\<forall>e \<in> set (ow_emitters (client_removeAllListeners o1)). ee_isClosed e)"
proof -
  let ?o = "fold owner_close (ow_owned o1) o1"
  have all: "owner_inv ?o" "length (ow_emitters ?o) = length (ow_emitters o1)"
    and closed: "\<forall>j < length (ow_emitters o1). ee_isClosed (ow_emitters ?o ! j)"
    using owner_close_all [OF assms, of "ow_owned o1"] assms by (auto simp: owner_inv_def)
  then have none: "ow_owned ?o = []"
    unfolding owner_inv_def by (metis list.set_intros(1) neq_Nil_conv)
  show ?thesis using all closed none
    by (auto simp: client_removeAllListeners_def owner_inv_def in_set_conv_nth)
qed

lemma owner_next_inv: "owner_inv o1 \<Longrightarrow> owner_inv (owner_next beh o1 p)"
proof (cases p)
  case (OSubscribe cid topics)
  assume "owner_inv o1"
  moreover have "emitter_inv (ee_start (newEmitter cid topics))" "\<not> ee_isClosed (ee_start (newEmitter cid topics))"
    by (simp_all add: inv_start emitter_inv_new) (simp add: ee_start_def newEmitter_def)
  ultimately show ?thesis
    by (auto simp: OSubscribe owner_next_def subscribeToEvents_def Let_def owner_inv_def nth_append less_Suc_eq)
next
  case (OEmitter i q)
  assume inv: "owner_inv o1"
  show ?thesis
  proof (cases "i < length (ow_emitters o1)")
    case True
    let ?e = "ow_emitters o1 ! i"
    have e: "emitter_inv ?e" using inv True by (auto simp: owner_inv_def)
    have "ee_isClosed (emitter_next beh ?e q)" if "ee_isClosed ?e"
      using closed_step [OF that e] by (metis emitter_next_def prod.collapse)
    then show ?thesis using owner_inv_update [OF inv True emitter_next_inv [OF e, of beh q]] True
      by (simp add: OEmitter owner_next_def owner_apply_def Let_def)
  qed (use inv in \<open>simp add: OEmitter owner_next_def owner_apply_def\<close>)
qed (simp add: owner_next_def owner_removeAll)

interpretation owner: invariant_machine owner_inv "owner_next beh" newOwner for beh
  by unfold_locales (simp_all add: owner_next_inv, simp add: owner_inv_def newOwner_def)

text \<open>
  Whatever a client's emitters went through, releasing them closes every one that was ever
  made, and the client owns none afterwards.
\<close>

theorem release_closes_every_emitter:
  "let o1 = client_removeAllListeners (foldl (owner_next beh) newOwner ops)
   in ow_owned o1 = [] \<and> list_all (\<lambda>e. ee_isClosed e \<and> ee_closeCalls e = 1 \<and> \<not> ee_interval e) (ow_emitters o1)"
  using owner_removeAll [OF owner.inv_run [of beh ops]]
  by (auto simp: Let_def list_all_iff owner_inv_def emitter_inv_def)

end
