(* ===== verification/Replay.thy ===== *)
theory Replay
  imports AccountCache
begin

text \<open>
  Recording and replay of contract calls (\<open>src/src/replay/\<close>): the recorder, the engine that
  dispatches recorded calls to handlers, and the validator that compares the outcomes. Handlers
  act on a world of type \<open>'w\<close>. Ids and timestamps are arguments; durations are not modelled.
  \<open>JSON.stringify\<close> with the validator's replacer is written out over untyped values, whose
  objects have no \<open>toJSON\<close> of their own.
\<close>

section \<open>Recorded interactions (types.ts)\<close>

record ErrorInfo =
  ei_name :: string
  ei_message :: string

record RecordedInteraction =
  ri_id :: string
  ri_timestamp :: string
  ri_contractId :: string
  ri_method :: string
  ri_args :: "jsv list"
  ri_result :: jsv
  ri_error :: "ErrorInfo option"
  ri_metadata :: "props option"

record ReplaySession =
  rs_id :: string
  rs_createdAt :: string
  rs_interactions :: "RecordedInteraction list"

record ReplayResult =
  rr_interactionId :: string
  rr_contractId :: string
  rr_method :: string
  rr_success :: bool
  rr_value :: jsv
  rr_error :: "ErrorInfo option"

record ValidationResult =
  vr_interactionId :: string
  vr_passed :: bool
  vr_diff :: "string option"

record ReplayValidationReport =
  vp_sessionId :: string
  vp_total :: nat
  vp_passed :: nat
  vp_failed :: int
  vp_results :: "ValidationResult list"

definition error_info :: "thrown \<Rightarrow> ErrorInfo" where
  "error_info e =
    \<lparr>ei_name = (case e of AxErr c m st rid orig \<Rightarrow> ax_class_name c | Raw v \<Rightarrow> err_name v),
     ei_message = error_text e\<rparr>"

section \<open>The recorder (recorder.ts)\<close>

record InteractionRecorder =
  ir_interactions :: "RecordedInteraction list"

definition newRecorder :: InteractionRecorder where
  "newRecorder = \<lparr>ir_interactions = []\<rparr>"

text \<open>The interaction is appended when the call settles, and the outcome passed on.\<close>

definition ir_record ::
    "string \<Rightarrow> string \<Rightarrow> string \<Rightarrow> string \<Rightarrow> jsv list \<Rightarrow> thrown + jsv \<Rightarrow> props option
      \<Rightarrow> InteractionRecorder \<Rightarrow> InteractionRecorder \<times> (thrown + jsv)" where
  "ir_record uid ts cid method args outcome meta r =
    (let i = \<lparr>ri_id = uid, ri_timestamp = ts, ri_contractId = cid, ri_method = method, ri_args = args,
              ri_result = JUndef, ri_error = None, ri_metadata = meta\<rparr>;
         i' = (case outcome of Inr v \<Rightarrow> i\<lparr>ri_result := v\<rparr> | Inl e \<Rightarrow> i\<lparr>ri_error := Some (error_info e)\<rparr>)
     in (r\<lparr>ir_interactions := ir_interactions r @ [i']\<rparr>, outcome))"

definition ir_getInteractions :: "InteractionRecorder \<Rightarrow> RecordedInteraction list" where
  "ir_getInteractions r = ir_interactions r"

definition ir_clear :: "InteractionRecorder \<Rightarrow> InteractionRecorder" where
  "ir_clear r = r\<lparr>ir_interactions := []\<rparr>"

definition ir_exportSession :: "string \<Rightarrow> string \<Rightarrow> InteractionRecorder \<Rightarrow> ReplaySession" where
  "ir_exportSession uid ts r = \<lparr>rs_id = uid, rs_createdAt = ts, rs_interactions = ir_getInteractions r\<rparr>"

definition ir_importSession :: "ReplaySession \<Rightarrow> InteractionRecorder \<Rightarrow> InteractionRecorder" where
  "ir_importSession s r = r\<lparr>ir_interactions := ir_interactions r @ rs_interactions s\<rparr>"

section \<open>The engine (engine.ts)\<close>

type_synonym 'w handler = "jsv list \<Rightarrow> 'w \<Rightarrow> 'w \<times> (thrown + jsv)"
type_synonym 'w handlers = "string \<Rightarrow> string \<Rightarrow> 'w handler option"

definition replayOne :: "'w handlers \<Rightarrow> RecordedInteraction \<Rightarrow> 'w \<Rightarrow> 'w \<times> ReplayResult" where
  "replayOne hs i w =
    (let base = \<lparr>rr_interactionId = ri_id i, rr_contractId = ri_contractId i, rr_method = ri_method i,
                 rr_success = False, rr_value = JUndef, rr_error = None\<rparr> in
     case hs (ri_contractId i) (ri_method i) of
       None \<Rightarrow> (w, base\<lparr>rr_error := Some \<lparr>ei_name = ''Error'',
          ei_message = ''No handler registered for '' @ ri_contractId i @ ''.'' @ ri_method i\<rparr>\<rparr>)
     | Some h \<Rightarrow>
        (case h (ri_args i) w of
           (w', Inr v) \<Rightarrow> (w', base\<lparr>rr_success := True, rr_value := v\<rparr>)
         | (w', Inl e) \<Rightarrow> (w', base\<lparr>rr_error := Some (error_info e)\<rparr>)))"

fun replay_loop ::
    "'w handlers \<Rightarrow> bool \<Rightarrow> RecordedInteraction list \<Rightarrow> ReplayResult list \<Rightarrow> 'w \<Rightarrow> 'w \<times> ReplayResult list" where
  "replay_loop hs stop [] results w = (w, results)"
| "replay_loop hs stop (i # is) results w =
    (let (w', r) = replayOne hs i w; results' = results @ [r] in
     if stop \<and> \<not> rr_success r then (w', results') else replay_loop hs stop is results' w')"

definition re_replay ::
    "'w handlers \<Rightarrow> ReplaySession \<Rightarrow> bool option \<Rightarrow> 'w \<Rightarrow> 'w \<times> ReplayResult list" where
  "re_replay hs session stopOnFailure w =
    replay_loop hs (case stopOnFailure of None \<Rightarrow> False | Some b \<Rightarrow> b) (rs_interactions session) [] w"

section \<open>JSON text\<close>

text \<open>Quoting escapes the quote, the backslash and control characters.\<close>

definition hex_digit :: "nat \<Rightarrow> char" where
  "hex_digit n = char_of (if n < 10 then 48 + n else 87 + n)"

definition json_char :: "char \<Rightarrow> string" where
  "json_char c =
    (let n = (of_char c :: nat) in
     if n = 34 then [char_of (92 :: nat), c]
     else if n = 92 then [c, c]
     else if n = 8 then [char_of (92 :: nat), CHR ''b'']
     else if n = 9 then [char_of (92 :: nat), CHR ''t'']
     else if n = 10 then [char_of (92 :: nat), CHR ''n'']
     else if n = 12 then [char_of (92 :: nat), CHR ''f'']
     else if n = 13 then [char_of (92 :: nat), CHR ''r'']
     else if n < 32 then [char_of (92 :: nat), CHR ''u'', CHR ''0'', CHR ''0'',
                          hex_digit (n div 16), hex_digit (n mod 16)]
     else [c])"

definition json_quote :: "string \<Rightarrow> string" where
  "json_quote s = [char_of (34 :: nat)] @ concat (map json_char s) @ [char_of (34 :: nat)]"

text \<open>The replacer turns a bigint into a string; \<open>undefined\<close> has no text.\<close>

definition bigint_text :: "int \<Rightarrow> string" where
  "bigint_text n = ''__bigint__'' @ int_str n"

fun json_text :: "jsv \<Rightarrow> string option" where
  "json_text JUndef = None"
| "json_text JNull = Some ''null''"
| "json_text (JBool b) = Some (if b then ''true'' else ''false'')"
| "json_text (JNum n) = Some (int_str n)"
| "json_text (JBig n) = Some (json_quote (bigint_text n))"
| "json_text (JStr s) = Some (json_quote s)"
| "json_text (JArr xs) = Some (''['' @ join_str '',''
     (map (\<lambda>x. case json_text x of None \<Rightarrow> ''null'' | Some t \<Rightarrow> t) xs) @ '']'')"
| "json_text (JObj ps) = Some (''{'' @ join_str '',''
     (concat (map (\<lambda>(k, v). case json_text v of None \<Rightarrow> [] | Some t \<Rightarrow> [json_quote k @ '':'' @ t]) ps)) @ ''}'')"
| "json_text (JErr n m ps) = Some (''{'' @ join_str '',''
     (concat (map (\<lambda>(k, v). case json_text v of None \<Rightarrow> [] | Some t \<Rightarrow> [json_quote k @ '':'' @ t]) ps)) @ ''}'')"

section \<open>The validator (validator.ts)\<close>

definition shown :: "string option \<Rightarrow> string" where
  "shown t = (case t of None \<Rightarrow> ''undefined'' | Some s \<Rightarrow> s)"

definition replayed_message :: "ReplayResult \<Rightarrow> string option" where
  "replayed_message r = map_option ei_message (rr_error r)"

definition in_quotes :: "string \<Rightarrow> string" where
  "in_quotes s = ''\"'' @ s @ ''\"''"

definition new_line :: string where
  "new_line = [char_of (10 :: nat)]"

definition compareOne :: "RecordedInteraction \<Rightarrow> ReplayResult \<Rightarrow> ValidationResult" where
  "compareOne recorded replayed =
    (let result = (\<lambda>ok diff. \<lparr>vr_interactionId = ri_id recorded, vr_passed = ok,
                              vr_diff = (if ok then None else Some diff)\<rparr>) in
     case ri_error recorded of
       Some x \<Rightarrow>
         if \<not> rr_success replayed
         then result (replayed_message replayed = Some (ei_message x))
                (''Error mismatch: recorded '' @ in_quotes (ei_message x) @ '' vs replayed '' @
                 in_quotes (shown (replayed_message replayed)))
         else result False (''Expected an error ('' @ in_quotes (ei_message x) @ '') but replay succeeded'')
     | None \<Rightarrow>
         if \<not> rr_success replayed
         then result False (''Expected success but replay errored: '' @ in_quotes (shown (replayed_message replayed)))
         else
           let recordedJson = json_text (ri_result recorded); replayedJson = json_text (rr_value replayed)
           in result (recordedJson = replayedJson)
                (''Result mismatch:'' @ new_line @ ''  recorded: '' @ shown recordedJson @ new_line @
                ''  replayed: '' @ shown replayedJson))"

definition result_map :: "ReplayResult list \<Rightarrow> (string, ReplayResult) jsmap" where
  "result_map rs = foldl (\<lambda>m r. jm_set (rr_interactionId r) r m) [] rs"

definition rv_validate :: "ReplaySession \<Rightarrow> ReplayResult list \<Rightarrow> ReplayValidationReport" where
  "rv_validate session replayResults =
    (let resultMap = result_map replayResults;
         results = map (\<lambda>i. case jm_get resultMap (ri_id i) of
             None \<Rightarrow> \<lparr>vr_interactionId = ri_id i, vr_passed = False,
                      vr_diff = Some ''Interaction was not replayed''\<rparr>
           | Some r \<Rightarrow> compareOne i r) (rs_interactions session);
         passed = length (filter vr_passed results)
     in \<lparr>vp_sessionId = rs_id session, vp_total = length results, vp_passed = passed,
         vp_failed = int (length results) - int passed, vp_results = results\<rparr>)"

section \<open>Properties\<close>

lemma result_map_get:
  "jm_get (foldl (\<lambda>m r. jm_set (rr_interactionId r) r m) m rs) k =
    (case List.find (\<lambda>r. rr_interactionId r = k) (rev rs) of None \<Rightarrow> jm_get m k | Some r \<Rightarrow> Some r)"
  by (induction rs rule: rev_induct) (auto split: option.split)

lemma result_map_distinct:
  assumes "distinct (map rr_interactionId rs)" and "r \<in> set rs"
  shows "jm_get (result_map rs) (rr_interactionId r) = Some r"
proof -
  have "List.find (\<lambda>x. rr_interactionId x = rr_interactionId r) (rev rs) = Some r"
    using assms by (induction rs rule: rev_induct) (auto simp: image_iff)
  then show ?thesis by (simp add: result_map_def result_map_get)
qed

text \<open>What it means that a replayed outcome agrees with the recorded one.\<close>

definition agrees :: "RecordedInteraction \<Rightarrow> ReplayResult \<Rightarrow> bool" where
  "agrees i r \<longleftrightarrow>
    (case ri_error i of
       Some x \<Rightarrow> \<not> rr_success r \<and> replayed_message r = Some (ei_message x)
     | None \<Rightarrow> rr_success r \<and> json_text (ri_result i) = json_text (rr_value r))"

lemma compareOne_iff: "vr_passed (compareOne i r) \<longleftrightarrow> agrees i r"
  by (simp add: compareOne_def agrees_def Let_def split: option.split)

text \<open>
  A report is exact: it has one result per recorded interaction, in order, which passes exactly
  when the last replayed result with its id agrees with the recording, and its counts add up.
\<close>

theorem validation_report_exact:
  "let rep = rv_validate session rs in
   vp_total rep = length (rs_interactions session) \<and>
   map vr_interactionId (vp_results rep) = map ri_id (rs_interactions session) \<and>
   map vr_passed (vp_results rep) =
     map (\<lambda>i. case List.find (\<lambda>r. rr_interactionId r = ri_id i) (rev rs) of
            None \<Rightarrow> False | Some r \<Rightarrow> agrees i r) (rs_interactions session) \<and>
   int (vp_passed rep) + vp_failed rep = int (vp_total rep) \<and>
   list_all (\<lambda>v. vr_passed v = (vr_diff v = None)) (vp_results rep)"
proof -
  have "vr_passed (compareOne i r) = (vr_diff (compareOne i r) = None)"
    "vr_interactionId (compareOne i r) = ri_id i" for i r
    by (simp_all add: compareOne_def Let_def split: option.split)
  then show ?thesis
    by (auto simp: rv_validate_def Let_def result_map_def result_map_get compareOne_iff list_all_iff
        split: option.split)
qed

text \<open>A call that is recorded: its id, time, contract, method and arguments.\<close>

type_synonym call_plan = "string \<times> string \<times> string \<times> string \<times> jsv list"

text \<open>The calls run against the handlers, each one recorded.\<close>

fun record_calls :: "'w handlers \<Rightarrow> call_plan list \<Rightarrow> InteractionRecorder \<Rightarrow> 'w \<Rightarrow> InteractionRecorder" where
  "record_calls hs [] r w = r"
| "record_calls hs ((uid, ts, cid, m, args) # calls) r w =
    (case hs cid m of
       None \<Rightarrow> record_calls hs calls r w
     | Some h \<Rightarrow>
        (let (w', res) = h args w; (r', _) = ir_record uid ts cid m args res None r
         in record_calls hs calls r' w'))"

lemma replay_recorded:
  assumes "\<forall>(uid, ts, cid, m, args) \<in> set calls. hs cid m \<noteq> None"
  shows "\<exists>new. ir_interactions (record_calls hs calls r w) = ir_interactions r @ new \<and>
    map ri_id new = map fst calls \<and>
    (\<exists>rs. \<forall>acc. snd (replay_loop hs False new acc w) = acc @ rs \<and>
       list_all2 (\<lambda>i q. rr_interactionId q = ri_id i \<and> agrees i q) new rs)"
  using assms
proof (induction calls arbitrary: r w)
  case (Cons c calls)
  obtain uid ts cid m args where c: "c = (uid, ts, cid, m, args)" by (cases c)
  obtain h where h: "hs cid m = Some h" using Cons.prems by (auto simp: c)
  obtain w' res where run: "h args w = (w', res)" by (cases "h args w")
  define i where "i = \<lparr>ri_id = uid, ri_timestamp = ts, ri_contractId = cid, ri_method = m, ri_args = args,
     ri_result = (case res of Inr v \<Rightarrow> v | Inl _ \<Rightarrow> JUndef),
     ri_error = (case res of Inr _ \<Rightarrow> None | Inl e \<Rightarrow> Some (error_info e)), ri_metadata = None\<rparr>"
  have rec: "ir_record uid ts cid m args res None r = (r\<lparr>ir_interactions := ir_interactions r @ [i]\<rparr>, res)"
    by (simp add: ir_record_def i_def split: sum.split)
  define q where "q = snd (replayOne hs i w)"
  have one: "replayOne hs i w = (w', q)" "rr_interactionId q = ri_id i \<and> agrees i q"
    using h run by (cases res; simp add: replayOne_def i_def q_def agrees_def replayed_message_def)+
  obtain new rs where IH: "ir_interactions (record_calls hs calls (r\<lparr>ir_interactions := ir_interactions r @ [i]\<rparr>) w')
      = (ir_interactions r @ [i]) @ new" "map ri_id new = map fst calls"
    "\<forall>acc. snd (replay_loop hs False new acc w') = acc @ rs \<and>
       list_all2 (\<lambda>i q. rr_interactionId q = ri_id i \<and> agrees i q) new rs"
    using Cons.IH [of "r\<lparr>ir_interactions := ir_interactions r @ [i]\<rparr>" w'] Cons.prems by auto
  show ?case
    using IH h run rec one
    by (intro exI [of _ "i # new"] conjI exI [of _ "q # rs"]) (simp_all add: c i_def)
qed simp

text \<open>
  A faithful recording passes: calls recorded against handlers under distinct ids, and replayed
  against the same handlers from the same world, all pass validation, those that raised
  included.
\<close>

theorem recorded_session_replays:
  assumes "distinct (map fst calls)"
    and "\<forall>(uid, ts, cid, m, args) \<in> set calls. hs cid m \<noteq> None"
  shows "let session = ir_exportSession sid now (record_calls hs calls newRecorder w);
             rep = rv_validate session (snd (re_replay hs session None w))
         in vp_total rep = length calls \<and> vp_passed rep = length calls \<and> vp_failed rep = 0"
proof -
  obtain new rs where new: "ir_interactions (record_calls hs calls newRecorder w) = new"
    "map ri_id new = map fst calls" "snd (replay_loop hs False new [] w) = rs"
    "list_all2 (\<lambda>i q. rr_interactionId q = ri_id i \<and> agrees i q) new rs"
    using replay_recorded [OF assms(2), of newRecorder w] by (auto simp: newRecorder_def)
  have ids: "map rr_interactionId rs = map ri_id new"
    using new(4) by (induction rule: list_all2_induct) auto
  have pass: "vr_passed (case jm_get (result_map rs) (ri_id i) of
      None \<Rightarrow> \<lparr>vr_interactionId = ri_id i, vr_passed = False, vr_diff = Some ''Interaction was not replayed''\<rparr>
    | Some r \<Rightarrow> compareOne i r)" if "i \<in> set new" for i
  proof -
    obtain k where k: "k < length new" "i = new ! k" using \<open>i \<in> set new\<close> by (metis in_set_conv_nth)
    then have q: "rs ! k \<in> set rs" "rr_interactionId (rs ! k) = ri_id i" "agrees i (rs ! k)"
      using new(4) by (auto simp: list_all2_conv_all_nth)
    have "jm_get (result_map rs) (ri_id i) = Some (rs ! k)"
      using result_map_distinct [of rs "rs ! k"] q ids new(2) assms(1) by simp
    then show ?thesis using q(3) by (simp add: compareOne_iff)
  qed
  have "length new = length calls" using new(2) by (metis length_map)
  then show ?thesis using new pass
    by (simp add: ir_exportSession_def ir_getInteractions_def re_replay_def rv_validate_def Let_def
        filter_map comp_def filter_True)
qed

definition demo_handlers :: "int handlers" where
  "demo_handlers cid m =
    (if cid = ''V'' \<and> m = ''deposit'' then Some (\<lambda>args w.
       case args of [JBig n] \<Rightarrow> if n > 0 then (w + n, Inr (JBig (w + n))) else (w, Inl (Raw (JStr ''amount'')))
       | _ \<Rightarrow> (w, Inl (Raw JUndef))) else None)"

definition demo_plan :: "call_plan list" where
  "demo_plan = [(''1'', ''t1'', ''V'', ''deposit'', [JBig 5]), (''2'', ''t2'', ''V'', ''deposit'', [JBig (-1)]),
     (''3'', ''t3'', ''V'', ''deposit'', [JBig 7])]"

lemma recorded_session_replays_witness:
  "vp_passed (let session = ir_exportSession ''s'' ''t'' (record_calls demo_handlers demo_plan newRecorder 100)
     in rv_validate session (snd (re_replay demo_handlers session None 100))) = 3"
proof -
  have "distinct (map fst demo_plan)" by code_simp
  moreover have "\<forall>(uid, ts, cid, m, args) \<in> set demo_plan. demo_handlers cid m \<noteq> None"
    by (simp add: demo_plan_def demo_handlers_def)
  ultimately have "let session = ir_exportSession ''s'' ''t'' (record_calls demo_handlers demo_plan newRecorder 100);
      rep = rv_validate session (snd (re_replay demo_handlers session None 100))
    in vp_total rep = length demo_plan \<and> vp_passed rep = length demo_plan \<and> vp_failed rep = 0"
    by (rule recorded_session_replays)
  then show ?thesis by (simp add: Let_def demo_plan_def)
qed

text \<open>Different results can agree: a bigint and a string, an absent and an undefined property, two errors.\<close>

theorem different_results_pass:
  "json_text (JBig 5) = json_text (JStr ''__bigint__5'') \<and>
   json_text (JObj [(''a'', JUndef)]) = json_text (JObj []) \<and>
   json_text (JErr ''Error'' ''denied'' []) = json_text (JErr ''Error'' ''accepted'' [])"
  by code_simp

text \<open>With \<open>stopOnFailure\<close> a faithful replay of a recorded error leaves the rest out, which then fails.\<close>

theorem stop_on_failure_fails_faithful_replay:
  "vp_failed (let session = ir_exportSession ''s'' ''t'' (record_calls demo_handlers demo_plan newRecorder 100)
     in rv_validate session (snd (re_replay demo_handlers session (Some True) 100))) = 1"
  by code_simp

end
