(* ===== verification/WasmReader.thy ===== *)
theory WasmReader
  imports SDK_Prelude "HOL-Library.Word"
begin

unbundle bit_operations_syntax

text \<open>
  The reader of WebAssembly modules of the code generator
  (\<open>packages/core/src/codegen/wasmParser.ts\<close>): the LEB128 decoder and the loop over the sections
  of a module, which collects the entries of the custom sections named \<open>contractspecv0\<close>.

  A buffer is a list of bytes. A byte outside of it reads as \<open>undefined\<close>, which the bitwise
  operators take as zero; these operators work on signed 32-bit integers and take shift counts
  modulo 32. The loop over the sections need not end, so it returns an option, \<open>None\<close> for a
  run that never returns.

  The lemmas show that the LEB128 decoder inverts the encoding below \<open>2 ^ 31\<close>, that a
  module in the framing the reader expects gives the entries of its specification sections in order, that it
  returns when no size reads negative, and a module of fourteen bytes on which it never returns.
\<close>

type_synonym bytes = "8 word list"

section \<open>Bytes\<close>

definition byte_at :: "bytes \<Rightarrow> int \<Rightarrow> 8 word option" where
  "byte_at buf i = (if 0 \<le> i \<and> i < int (length buf) then Some (buf ! nat i) else None)"

definition to_int32 :: "8 word option \<Rightarrow> 32 word" where
  "to_int32 byte = (case byte of None \<Rightarrow> 0 | Some w \<Rightarrow> ucast w)"

text \<open>\<open>slice\<close> counts negative positions from the end and stays inside the buffer.\<close>

definition slice_pos :: "bytes \<Rightarrow> int \<Rightarrow> int" where
  "slice_pos buf i = (let n = int (length buf) in if i < 0 then max 0 (n + i) else min n i)"

definition buf_slice :: "bytes \<Rightarrow> int \<Rightarrow> int \<Rightarrow> bytes" where
  "buf_slice buf s e =
     take (nat (slice_pos buf e - slice_pos buf s)) (drop (nat (slice_pos buf s)) buf)"

datatype read_error = OutOfRange int

definition readUInt32BE :: "bytes \<Rightarrow> int \<Rightarrow> read_error + int" where
  "readUInt32BE buf pos =
     (if 0 \<le> pos \<and> pos + 4 \<le> int (length buf)
      then Inr (uint (buf ! nat pos) * 2 ^ 24 + uint (buf ! (nat pos + 1)) * 2 ^ 16 +
                uint (buf ! (nat pos + 2)) * 2 ^ 8 + uint (buf ! (nat pos + 3)))
      else Inl (OutOfRange pos))"

section \<open>The reader\<close>

function leb_loop :: "bytes \<Rightarrow> int \<Rightarrow> nat \<Rightarrow> 32 word \<Rightarrow> nat \<Rightarrow> int \<times> nat" where
  "leb_loop buf offset shift result bytesRead =
     (let byte = to_int32 (byte_at buf (offset + int bytesRead));
          result' = result OR push_bit (shift mod 32) (byte AND 0x7f)
      in if byte AND 0x80 = 0 then (sint result', bytesRead + 1)
         else leb_loop buf offset (shift + 7) result' (bytesRead + 1))"
  by pat_completeness auto
termination
  by (relation "measure (\<lambda>(buf, offset, shift, result, bytesRead).
      nat (int (length buf) - (offset + int bytesRead)))")
    (auto simp: to_int32_def byte_at_def split: option.splits if_splits)

declare leb_loop.simps [simp del]

definition readLEB128 :: "bytes \<Rightarrow> int \<Rightarrow> int \<times> nat" where
  "readLEB128 buf offset = leb_loop buf offset 0 0 0"

lemma readUInt32BE_nonneg: "readUInt32BE buf pos = Inr n \<Longrightarrow> 0 \<le> n"
  by (auto simp: readUInt32BE_def split: if_splits)

function read_entries :: "bytes \<Rightarrow> int \<Rightarrow> int \<Rightarrow> bytes list \<Rightarrow> read_error + bytes list" where
  "read_entries wasm sectionEnd pos entries =
     (if pos < sectionEnd
      then (case readUInt32BE wasm pos of
              Inl e \<Rightarrow> Inl e
            | Inr entryLen \<Rightarrow> read_entries wasm sectionEnd (pos + 4 + entryLen)
                (entries @ [buf_slice wasm (pos + 4) (pos + 4 + entryLen)]))
      else Inr entries)"
  by pat_completeness auto
termination
  by (relation "measure (\<lambda>(wasm, sectionEnd, pos, entries). nat (sectionEnd - pos))")
    (auto dest: readUInt32BE_nonneg)

declare read_entries.simps [simp del]

text \<open>
  The name is compared as the UTF-8 text of its bytes; it equals an ASCII text exactly when the
  bytes are the codes of its characters.
\<close>

definition SPEC_SECTION_NAME :: bytes where
  "SPEC_SECTION_NAME = map of_char ''contractspecv0''"

definition section_entries ::
    "bytes \<Rightarrow> 8 word option \<Rightarrow> int \<Rightarrow> int \<Rightarrow> bytes list \<Rightarrow> read_error + bytes list" where
  "section_entries wasm sectionId offset sectionEnd entries =
     (if sectionId = Some 0 then
        let nameLen = fst (readLEB128 wasm offset);
            nameStart = offset + int (snd (readLEB128 wasm offset));
            payloadStart = nameStart + nameLen
        in if buf_slice wasm nameStart (nameStart + nameLen) = SPEC_SECTION_NAME
           then read_entries wasm sectionEnd payloadStart entries
           else Inr entries
      else Inr entries)"

definition section_start :: "bytes \<Rightarrow> int \<Rightarrow> int" where
  "section_start wasm offset = offset + 1 + int (snd (readLEB128 wasm (offset + 1)))"

definition section_end :: "bytes \<Rightarrow> int \<Rightarrow> int" where
  "section_end wasm offset = section_start wasm offset + fst (readLEB128 wasm (offset + 1))"

partial_function (option) read_sections ::
    "bytes \<Rightarrow> int \<Rightarrow> bytes list \<Rightarrow> (read_error + bytes list) option" where
  "read_sections wasm offset entries =
     (if offset < int (length wasm) then
        (case section_entries wasm (byte_at wasm offset) (section_start wasm offset)
                (section_end wasm offset) entries of
           Inl e \<Rightarrow> Some (Inl e)
         | Inr entries' \<Rightarrow> read_sections wasm (section_end wasm offset) entries')
      else Some (Inr entries))"

definition readSpecSection :: "bytes \<Rightarrow> (read_error + bytes list) option" where
  "readSpecSection wasm = read_sections wasm 8 []"

section \<open>The decoder inverts the encoding\<close>

text \<open>The unsigned LEB128 encoding, as the WebAssembly format has it.\<close>

fun leb128 :: "nat \<Rightarrow> bytes" where
  "leb128 n = (if n < 128 then [of_nat n] else of_nat (128 + n mod 128) # leb128 (n div 128))"

declare leb128.simps [simp del]

lemma byte_at_append: "p = int (length pre) \<Longrightarrow> byte_at (pre @ b # post) p = Some b"
  by (simp add: byte_at_def nth_append)

lemma to_int32_of_nat: "m < 256 \<Longrightarrow> to_int32 (Some (of_nat m)) = of_nat m"
  by (simp add: to_int32_def unsigned_of_nat take_bit_eq_mod)

lemma low_bits: "(of_nat m :: 32 word) AND 0x7f = of_nat (m mod 128)"
proof -
  have "(0x7f :: 32 word) = mask 7" by (simp add: mask_eq_exp_minus_1)
  then have "(of_nat m :: 32 word) AND 0x7f = take_bit 7 (of_nat m)" by (simp add: take_bit_eq_mask)
  also have "\<dots> = of_nat (take_bit 7 m)" by (simp add: of_nat_take_bit)
  finally show ?thesis by (simp add: take_bit_eq_mod)
qed

lemma high_bit: "m < 256 \<Longrightarrow> (of_nat m :: 32 word) AND 0x80 = 0 \<longleftrightarrow> m < 128"
proof -
  assume m: "m < 256"
  have "(0x80 :: 32 word) = 2 ^ 7" by simp
  then have "(of_nat m :: 32 word) AND 0x80 = 0 \<longleftrightarrow> \<not> bit (of_nat m :: 32 word) 7"
    by (simp only: and_exp_eq_0_iff_not_bit)
  also have "\<dots> \<longleftrightarrow> \<not> bit m 7" by (simp add: bit_simps)
  also have "\<dots> \<longleftrightarrow> \<not> odd (m div 128)" by (simp add: bit_iff_odd)
  also have "\<dots> \<longleftrightarrow> m < 128"
  proof -
    have "m div 128 < 2" using m by simp
    then have "m div 128 = 0 \<or> m div 128 = 1" by linarith
    then show ?thesis by auto
  qed
  finally show ?thesis .
qed

lemma split_seven: "(of_nat n :: 32 word) = of_nat (n mod 128) OR push_bit 7 (of_nat (n div 128))"
proof -
  have "n mod 128 = take_bit 7 n" "n div 128 = drop_bit 7 n"
    by (simp_all add: take_bit_eq_mod drop_bit_eq_div)
  then show ?thesis by (intro bit_eqI) (auto simp: bit_simps)
qed

lemma leb_step:
  assumes "byte_at buf (offset + int k) = Some (of_nat m)" and "m < 256" and "s < 32"
  shows "leb_loop buf offset s r k =
    (if m < 128 then (sint (r OR push_bit s (of_nat (m mod 128))), k + 1)
     else leb_loop buf offset (s + 7) (r OR push_bit s (of_nat (m mod 128))) (k + 1))"
proof -
  have v: "to_int32 (byte_at buf (offset + int k)) = of_nat m"
    using assms(1,2) by (simp only: to_int32_of_nat)
  have "s mod 32 = s" using assms(3) by simp
  then show ?thesis
    using assms(2) by (subst leb_loop.simps) (simp only: v low_bits high_bit Let_def)
qed

text \<open>Where the encoding of \<open>n\<close> stands at the next position, the loop adds \<open>n\<close> above the bits read so far.\<close>

lemma leb_loop_encoded:
  assumes "offset + int k = int (length pre)" and "n * 2 ^ s < 2 ^ 31" and "s < 32"
  shows "leb_loop (pre @ leb128 n @ post) offset s r k =
    (sint (r OR push_bit s (of_nat n)), k + length (leb128 n))"
  using assms
proof (induction n arbitrary: pre s r k rule: leb128.induct)
  case (1 n)
  show ?case
  proof (cases "n < 128")
    case True
    then have e: "leb128 n = [of_nat n]" by (subst leb128.simps) simp
    have "byte_at (pre @ leb128 n @ post) (offset + int k) = Some (of_nat n)"
      using "1.prems"(1) by (simp add: e byte_at_append)
    from leb_step [OF this _ "1.prems"(3)] show ?thesis using True by (simp add: e)
  next
    case False
    let ?b = "of_nat (128 + n mod 128) :: 8 word"
    have e: "leb128 n = ?b # leb128 (n div 128)" using False by (subst leb128.simps) simp
    have at: "byte_at (pre @ leb128 n @ post) (offset + int k) = Some ?b"
      using "1.prems"(1) by (simp add: e byte_at_append del: of_nat_add)
    have byte: "128 + n mod 128 < 256" using mod_less_divisor [of 128 n] by simp
    have "2 ^ 7 * 2 ^ s \<le> n * 2 ^ s" using False by simp
    then have "(2::nat) ^ (7 + s) < 2 ^ 31"
      unfolding power_add using "1.prems"(2) by (rule le_less_trans)
    then have s: "7 + s < 31" by (simp only: power_strict_increasing_iff)
    have "n div 128 * 2 ^ (s + 7) \<le> n * 2 ^ s" by (simp add: power_add)
    then have bound: "n div 128 * 2 ^ (s + 7) < 2 ^ 31" using "1.prems"(2) by linarith
    have rest: "(r OR push_bit s (of_nat (n mod 128))) OR push_bit (s + 7) (of_nat (n div 128)) =
        r OR push_bit s (of_nat n :: 32 word)"
      by (subst (3) split_seven) (simp add: push_bit_or ac_simps)
    have "leb_loop (pre @ leb128 n @ post) offset s r k =
        leb_loop ((pre @ [?b]) @ leb128 (n div 128) @ post) offset (s + 7)
          (r OR push_bit s (of_nat (n mod 128))) (k + 1)"
      using leb_step [OF at byte "1.prems"(3)] by (simp add: e)
    also have "\<dots> = (sint ((r OR push_bit s (of_nat (n mod 128))) OR push_bit (s + 7) (of_nat (n div 128))),
        k + 1 + length (leb128 (n div 128)))"
      using s bound "1.prems"(1) by (intro "1.IH") (use False in simp_all)
    finally show ?thesis by (simp add: rest e)
  qed
qed

lemma sint_small: "n < 2 ^ 31 \<Longrightarrow> sint (word_of_nat n :: 32 word) = int n"
  by (simp add: sint_uint unsigned_of_nat take_bit_eq_mod signed_take_bit_int_eq_self)

text \<open>The decoder reads back every number below \<open>2 ^ 31\<close>, wherever its encoding stands.\<close>

theorem leb128_roundtrip:
  assumes "n < 2 ^ 31"
  shows "readLEB128 (pre @ leb128 n @ post) (int (length pre)) = (int n, length (leb128 n))"
proof -
  show ?thesis
    using leb_loop_encoded [of "int (length pre)" 0 pre n 0 post 0] assms sint_small [OF assms]
    by (simp add: readLEB128_def)
qed

section \<open>Modules in the framing the reader expects\<close>

text \<open>Entries as the reader expects them, each after its length in four bytes.\<close>

definition be32 :: "nat \<Rightarrow> bytes" where
  "be32 n = map of_nat [n div 2 ^ 24, n div 2 ^ 16 mod 256, n div 2 ^ 8 mod 256, n mod 256]"

definition framed :: "bytes \<Rightarrow> bytes" where
  "framed e = be32 (length e) @ e"

lemma length_be32 [simp]: "length (be32 n) = 4"
  by (simp add: be32_def)

lemma uint_byte: "m < 256 \<Longrightarrow> uint (of_nat m :: 8 word) = int m"
  by (simp add: unsigned_of_nat take_bit_eq_mod)

lemma bytes_sum:
  "int (n div 2 ^ 24) * 2 ^ 24 + int (n div 2 ^ 16 mod 256) * 2 ^ 16 + int (n div 2 ^ 8 mod 256) * 2 ^ 8 +
    int (n mod 256) = int n"
proof -
  have "n div 256 div 256 = n div 65536" "n div 65536 div 256 = n div 16777216"
    by (simp_all flip: div_mult2_eq)
  then have "n = n div 256 * 256 + n mod 256" "n div 256 = n div 65536 * 256 + n div 256 mod 256"
    "n div 65536 = n div 16777216 * 256 + n div 65536 mod 256"
    by (metis div_mult_mod_eq)+
  then have "n div 16777216 * 16777216 + n div 65536 mod 256 * 65536 + n div 256 mod 256 * 256 + n mod 256 = n"
    by linarith
  moreover have "(2::nat) ^ 24 = 16777216" "(2::nat) ^ 16 = 65536" "(2::nat) ^ 8 = 256" by simp_all
  ultimately have "n div 2 ^ 24 * 2 ^ 24 + n div 2 ^ 16 mod 256 * 2 ^ 16 + n div 2 ^ 8 mod 256 * 2 ^ 8 + n mod 256 = n"
    by (simp only:)
  then show ?thesis by (metis (mono_tags, opaque_lifting) of_nat_add of_nat_mult of_nat_numeral of_nat_power)
qed

lemma readUInt32BE_be32:
  assumes "n < 2 ^ 32"
  shows "readUInt32BE (pre @ be32 n @ post) (int (length pre)) = Inr (int n)"
proof -
  have top: "n div 2 ^ 24 < 256" using assms by (simp add: less_mult_imp_div_less)
  show ?thesis
    using bytes_sum [of n] uint_byte [OF top] uint_byte [of "n div 2 ^ 16 mod 256"]
      uint_byte [of "n div 2 ^ 8 mod 256"] uint_byte [of "n mod 256"]
    by (simp add: readUInt32BE_def be32_def nth_append)
qed

lemma buf_slice_mid:
  assumes "s = int (length pre)" and "e = s + int (length x)"
  shows "buf_slice (pre @ x @ post) s e = x"
  using assms by (simp add: buf_slice_def slice_pos_def Let_def)

lemma read_entries_framed:
  assumes "\<forall>e \<in> set es. length e < 2 ^ 32" and "pos = int (length pre)"
    and "sectionEnd = pos + int (length (concat (map framed es)))"
  shows "read_entries (pre @ concat (map framed es) @ post) sectionEnd pos acc = Inr (acc @ es)"
  using assms
proof (induction es arbitrary: pre pos acc)
  case Nil
  then show ?case by (subst read_entries.simps) simp
next
  case (Cons e es)
  let ?buf = "pre @ concat (map framed (e # es)) @ post"
  have buf: "?buf = pre @ be32 (length e) @ (e @ concat (map framed es) @ post)"
    "?buf = (pre @ be32 (length e)) @ e @ (concat (map framed es) @ post)"
    "?buf = (pre @ framed e) @ concat (map framed es) @ post"
    by (simp_all add: framed_def)
  have len: "readUInt32BE ?buf pos = Inr (int (length e))"
    using Cons.prems(1,2) by (subst buf(1)) (simp only: readUInt32BE_be32 list.set_intros ball_simps)
  have slice: "buf_slice ?buf (pos + 4) (pos + 4 + int (length e)) = e"
    using Cons.prems(2) by (subst buf(2), intro buf_slice_mid) simp_all
  have "read_entries ?buf sectionEnd (pos + 4 + int (length e)) (acc @ [e]) = Inr ((acc @ [e]) @ es)"
    using Cons.prems by (subst buf(3), intro Cons.IH) (simp_all add: framed_def)
  moreover have "pos < sectionEnd" using Cons.prems(3) by (simp add: framed_def)
  then have "read_entries ?buf sectionEnd pos acc =
      read_entries ?buf sectionEnd (pos + 4 + int (length e)) (acc @ [e])"
    by (subst read_entries.simps) (simp only: len slice sum.case if_True)
  ultimately show ?case by simp
qed

datatype wasm_section =
    SpecSection "bytes list"
  | CustomSection bytes bytes
  | OtherSection "8 word" bytes

fun section_id :: "wasm_section \<Rightarrow> 8 word" where
  "section_id (OtherSection i _) = i"
| "section_id _ = 0"

fun section_body :: "wasm_section \<Rightarrow> bytes" where
  "section_body (SpecSection es) = leb128 (length SPEC_SECTION_NAME) @ SPEC_SECTION_NAME @ concat (map framed es)"
| "section_body (CustomSection nm body) = leb128 (length nm) @ nm @ body"
| "section_body (OtherSection _ body) = body"

fun spec_entries :: "wasm_section \<Rightarrow> bytes list" where
  "spec_entries (SpecSection es) = es"
| "spec_entries _ = []"

fun section_ok :: "wasm_section \<Rightarrow> bool" where
  "section_ok (SpecSection _) = True"
| "section_ok (CustomSection nm _) = (nm \<noteq> SPEC_SECTION_NAME)"
| "section_ok (OtherSection i _) = (i \<noteq> 0)"

definition encode_section :: "wasm_section \<Rightarrow> bytes" where
  "encode_section sec = section_id sec # leb128 (length (section_body sec)) @ section_body sec"

definition encode_module :: "bytes \<Rightarrow> wasm_section list \<Rightarrow> bytes" where
  "encode_module header secs = header @ concat (map encode_section secs)"

lemma section_bounds:
  assumes "buf = pre @ encode_section sec @ post" and "length buf < 2 ^ 31"
  shows "section_start buf (int (length pre)) = int (length pre) + 1 + int (length (leb128 (length (section_body sec))))"
    and "section_end buf (int (length pre)) = int (length (pre @ encode_section sec))"
proof -
  have "buf = (pre @ [section_id sec]) @ leb128 (length (section_body sec)) @ (section_body sec @ post)"
    by (simp add: assms(1) encode_section_def)
  moreover have "length (section_body sec) < 2 ^ 31"
    using assms by (simp add: encode_section_def)
  ultimately have "readLEB128 buf (int (length pre) + 1) =
      (int (length (section_body sec)), length (leb128 (length (section_body sec))))"
    using leb128_roundtrip [of "length (section_body sec)" "pre @ [section_id sec]"] by (simp add: add.commute)
  then show "section_start buf (int (length pre)) = int (length pre) + 1 + int (length (leb128 (length (section_body sec))))"
    "section_end buf (int (length pre)) = int (length (pre @ encode_section sec))"
    by (simp_all add: section_start_def section_end_def encode_section_def)
qed

text \<open>The name of a custom section, where its body starts.\<close>

lemma custom_name:
  assumes "buf = pre @ leb128 (length nm) @ nm @ post" and "length nm < 2 ^ 31"
    and "start = int (length pre)"
  shows "section_entries buf (Some 0) start fin acc =
    (if nm = SPEC_SECTION_NAME
     then read_entries buf fin (int (length (pre @ leb128 (length nm) @ nm))) acc else Inr acc)"
proof -
  have len: "readLEB128 buf start = (int (length nm), length (leb128 (length nm)))"
    using leb128_roundtrip [OF assms(2), of pre] by (simp add: assms(1,3))
  have "buf = (pre @ leb128 (length nm)) @ nm @ post" by (simp add: assms(1))
  then have "buf_slice buf (start + int (length (leb128 (length nm))))
      (start + int (length (leb128 (length nm))) + int (length nm)) = nm"
    by (simp only:) (intro buf_slice_mid; simp add: assms(3))
  moreover have "int (length (pre @ leb128 (length nm) @ nm)) =
      start + int (length (leb128 (length nm))) + int (length nm)" by (simp add: assms(3))
  ultimately show ?thesis by (simp only: section_entries_def len Let_def fst_conv snd_conv simp_thms if_True)
qed

lemma section_read:
  assumes "buf = pre @ encode_section sec @ post" and "length buf < 2 ^ 31" and "section_ok sec"
  shows "section_entries buf (byte_at buf (int (length pre))) (section_start buf (int (length pre)))
    (section_end buf (int (length pre))) acc = Inr (acc @ spec_entries sec)"
proof -
  let ?pre = "pre @ section_id sec # leb128 (length (section_body sec))"
  have id: "byte_at buf (int (length pre)) = Some (section_id sec)"
    by (simp add: assms(1) encode_section_def byte_at_append)
  have start: "section_start buf (int (length pre)) = int (length ?pre)"
    using section_bounds(1) [OF assms(1,2)] by simp
  have fin: "section_end buf (int (length pre)) = int (length (?pre @ section_body sec))"
    using section_bounds(2) [OF assms(1,2)] by (simp add: encode_section_def)
  show ?thesis
  proof (cases sec)
    case (OtherSection i body)
    then show ?thesis using assms(3) by (simp add: id section_entries_def)
  next
    case (CustomSection nm body)
    have b: "buf = ?pre @ leb128 (length nm) @ nm @ (body @ post)"
      by (simp add: assms(1) encode_section_def CustomSection)
    have "length nm \<le> length buf" by (simp add: b)
    then have "length nm < 2 ^ 31" using assms(2) by simp
    from custom_name [OF b this start] show ?thesis using id assms(3) by (simp add: CustomSection)
  next
    case (SpecSection es)
    let ?pre' = "?pre @ leb128 (length SPEC_SECTION_NAME) @ SPEC_SECTION_NAME"
    have buf: "buf = ?pre' @ concat (map framed es) @ post"
      by (simp add: assms(1) encode_section_def SpecSection)
    have small: "length SPEC_SECTION_NAME < 2 ^ 31" by (simp add: SPEC_SECTION_NAME_def)
    have "\<forall>e \<in> set es. length e < 2 ^ 32"
    proof
      fix e assume "e \<in> set es"
      then have "framed e \<in> set (map framed es)" by simp
      from split_list [OF this] obtain a b where "map framed es = a @ framed e # b" by blast
      then have "length e \<le> length (concat (map framed es))" by (simp add: framed_def)
      then have "length e \<le> length buf" using buf by simp
      then show "length e < 2 ^ 32" using assms(2) by simp
    qed
    then have "read_entries (?pre' @ concat (map framed es) @ post) (section_end buf (int (length pre)))
        (int (length ?pre')) acc = Inr (acc @ es)"
      by (rule read_entries_framed [OF _ refl]) (simp add: fin SpecSection)
    then have "read_entries buf (section_end buf (int (length pre))) (int (length ?pre')) acc = Inr (acc @ es)"
      by (simp only: buf)
    moreover have "buf = ?pre @ leb128 (length SPEC_SECTION_NAME) @ SPEC_SECTION_NAME @ (concat (map framed es) @ post)"
      by (simp add: buf)
    from custom_name [OF this small start, of "section_end buf (int (length pre))" acc]
    have "section_entries buf (Some 0) (section_start buf (int (length pre)))
        (section_end buf (int (length pre))) acc =
      read_entries buf (section_end buf (int (length pre))) (int (length ?pre')) acc"
      by (simp only: simp_thms if_True append.assoc append_Cons)
    ultimately show ?thesis using id by (simp only: SpecSection section_id.simps spec_entries.simps)
  qed
qed

lemma read_sections_encoded:
  assumes "list_all section_ok secs" and "length (pre @ concat (map encode_section secs)) < 2 ^ 31"
  shows "read_sections (pre @ concat (map encode_section secs)) (int (length pre)) acc =
    Some (Inr (acc @ concat (map spec_entries secs)))"
  using assms
proof (induction secs arbitrary: pre acc)
  case Nil
  then show ?case by (subst read_sections.simps) simp
next
  case (Cons sec secs)
  let ?buf = "pre @ encode_section sec @ concat (map encode_section secs)"
  have small: "length ?buf < 2 ^ 31" using Cons.prems(2) by simp
  have inside: "int (length pre) < int (length ?buf)" by (simp add: encode_section_def)
  have entries: "section_entries ?buf (byte_at ?buf (int (length pre))) (section_start ?buf (int (length pre)))
      (section_end ?buf (int (length pre))) acc = Inr (acc @ spec_entries sec)"
    using section_read [OF refl small] Cons.prems(1) by simp
  have "read_sections ((pre @ encode_section sec) @ concat (map encode_section secs))
      (int (length (pre @ encode_section sec))) (acc @ spec_entries sec) =
      Some (Inr ((acc @ spec_entries sec) @ concat (map spec_entries secs)))"
    using Cons.prems by (intro Cons.IH) simp_all
  then have rest: "read_sections ?buf (section_end ?buf (int (length pre))) (acc @ spec_entries sec) =
      Some (Inr (acc @ spec_entries sec @ concat (map spec_entries secs)))"
    unfolding section_bounds(2) [OF refl small] by simp
  have "read_sections ?buf (int (length pre)) acc = Some (Inr (acc @ spec_entries sec @ concat (map spec_entries secs)))"
    by (subst read_sections.simps) (simp only: inside entries rest if_True sum.case)
  then show ?case by simp
qed

lemma leb128_roundtrip_witness: "readLEB128 [7, 0x90, 0x4E, 1] 1 = (10000, 2)"
  using leb128_roundtrip [of 10000 "[7]" "[1]"] by (simp add: leb128.simps)

text \<open>
  A module of sections in that framing gives the entries of its specification sections, in order, and
  nothing else, whatever the header, the other sections and the number of specification sections.
\<close>

theorem module_entries_roundtrip:
  assumes "length header = 8" and "list_all section_ok secs" and "length (encode_module header secs) < 2 ^ 31"
  shows "readSpecSection (encode_module header secs) = Some (Inr (concat (map spec_entries secs)))"
  using read_sections_encoded [OF assms(2), of header "[]"] assms(1,3)
  by (simp add: readSpecSection_def encode_module_def)

definition demo_module :: "wasm_section list" where
  "demo_module = [OtherSection 1 [7, 7], CustomSection [110] [1], SpecSection [[1, 2, 3], []], SpecSection [[9]]]"

lemma module_entries_roundtrip_witness:
  "readSpecSection (encode_module (replicate 8 0) demo_module) = Some (Inr [[1, 2, 3], [], [9]])"
proof -
  have "list_all section_ok demo_module" by (simp add: demo_module_def SPEC_SECTION_NAME_def)
  moreover have "length (encode_module (replicate 8 0) demo_module) < 2 ^ 31"
    by (simp add: demo_module_def encode_module_def encode_section_def framed_def SPEC_SECTION_NAME_def
        leb128.simps)
  ultimately show ?thesis
    using module_entries_roundtrip [of "replicate 8 0" demo_module] by (simp add: demo_module_def)
qed

section \<open>Whether the reader returns\<close>

lemma section_end_grows:
  assumes "0 \<le> fst (readLEB128 wasm (offset + 1))"
  shows "offset < section_end wasm offset"
  using assms by (simp add: section_end_def section_start_def)

text \<open>A module in which no position reads as a negative size is read to the end.\<close>

theorem reader_returns:
  assumes "\<And>i. 0 \<le> fst (readLEB128 wasm i)"
  shows "readSpecSection wasm \<noteq> None"
proof -
  have "read_sections wasm offset acc \<noteq> None" for offset acc
  proof (induction "nat (int (length wasm) - offset)" arbitrary: offset acc rule: less_induct)
    case less
    show ?case
    proof (cases "offset < int (length wasm)")
      case True
      then have "nat (int (length wasm) - section_end wasm offset) < nat (int (length wasm) - offset)"
        using section_end_grows [OF assms, of offset] by simp
      from less [OF this] show ?thesis
        by (subst read_sections.simps) (simp split: sum.split)
    qed (subst read_sections.simps, simp)
  qed
  then show ?thesis by (simp add: readSpecSection_def)
qed

lemma one_byte_size:
  assumes "list_all (\<lambda>b. unat b < 128) wasm"
  shows "0 \<le> fst (readLEB128 wasm i)"
proof (cases "byte_at wasm i")
  case None
  then show ?thesis by (simp add: readLEB128_def leb_loop.simps [of wasm i 0 0 0] to_int32_def)
next
  case (Some b)
  then have "b \<in> set wasm" by (auto simp: byte_at_def split: if_splits)
  then have b: "unat b < 128" using assms by (simp add: list_all_iff)
  have "b = of_nat (unat b)" by simp
  then have "byte_at wasm (i + int 0) = Some (of_nat (unat b))" using Some by simp
  from leb_step [OF this, of 0 0] b
  have "readLEB128 wasm i = (sint (word_of_nat (unat b) :: 32 word), 1)" by (simp add: readLEB128_def)
  moreover have "sint (word_of_nat (unat b) :: 32 word) = int (unat b)"
    using b by (intro sint_small) simp
  ultimately show ?thesis by simp
qed

lemma reader_returns_witness: "readSpecSection [0, 97, 115, 109, 1, 0, 0, 0, 1, 2, 5, 5] \<noteq> None"
  by (rule reader_returns, rule one_byte_size) simp

text \<open>
  A section of size \<open>-6\<close> sends the reader back to where it was: on this module it never returns.
\<close>

definition crafted_module :: bytes where
  "crafted_module = [0, 97, 115, 109, 1, 0, 0, 0, 1, 0xFA, 0xFF, 0xFF, 0xFF, 0x0F]"

theorem reader_loops_forever: "readSpecSection crafted_module = None"
proof -
  have stays: "section_end crafted_module 8 = 8" by code_simp
  have skip: "section_entries crafted_module (byte_at crafted_module 8) a b [] = Inr []" for a b
    by (simp add: section_entries_def byte_at_def crafted_module_def)
  have False if "read_sections crafted_module 8 [] = Some r" for r
  proof -
    have "\<not> (wasm = crafted_module \<and> offset = 8 \<and> acc = [])"
      if "read_sections wasm offset acc = Some r" for wasm offset acc r
    proof (rule read_sections.raw_induct [OF _ that])
      fix rs wasm offset acc and r :: "read_error + bytes list"
      assume hyp: "\<And>wasm offset acc r. rs wasm offset acc = Some r \<Longrightarrow>
          \<not> (wasm = crafted_module \<and> offset = 8 \<and> acc = [])"
        and body: "(if offset < int (length wasm) then
            (case section_entries wasm (byte_at wasm offset) (section_start wasm offset)
                (section_end wasm offset) acc of
               Inl e \<Rightarrow> Some (Inl e) | Inr entries' \<Rightarrow> rs wasm (section_end wasm offset) entries')
          else Some (Inr acc)) = Some r"
      show "\<not> (wasm = crafted_module \<and> offset = 8 \<and> acc = [])"
      proof
        assume at: "wasm = crafted_module \<and> offset = 8 \<and> acc = []"
        have "8 < int (length crafted_module)" by (simp add: crafted_module_def)
        then have "rs crafted_module 8 [] = Some r" using body at by (simp add: stays skip)
        from hyp [OF this] show False by simp
      qed
    qed
    from this [OF \<open>read_sections crafted_module 8 [] = Some r\<close>] show False by simp
  qed
  then show ?thesis unfolding readSpecSection_def by (cases "read_sections crafted_module 8 []") auto
qed

end
