(* ===== verification/ScValDecode.thy ===== *)
theory ScValDecode
  imports XdrCache "HOL-Library.Word"
begin

text \<open>
  Decoding of contract values and simulation results
  (\<open>src/packages/core/src/utils/simulationParser.ts\<close>) and the classification of error codes
  (\<open>errors/errorClassifier.ts\<close>). A value of the Stellar SDK's union \<open>ScVal\<close> is the
  datatype \<open>scval\<close>, its integers kept at their width and the wide ones as their halves, as the
  XDR types have them. JavaScript's bigints are \<open>int\<close>, whose \<open><<\<close> and \<open>|\<close> are
  \<open>push_bit\<close> and \<open>OR\<close>. An address is the text its own class gives.
\<close>

unbundle bit_operations_syntax

section \<open>Contract values\<close>

datatype scval =
    ScvVoid
  | ScvBool bool
  | ScvU32 "32 word"
  | ScvI32 "32 word"
  | ScvU64 "64 word"
  | ScvI64 "64 word"
  | ScvU128 "64 word" "64 word"
  | ScvI128 "64 word" "64 word"
  | ScvU256 "64 word" "64 word" "64 word" "64 word"
  | ScvI256 "64 word" "64 word" "64 word" "64 word"
  | ScvSymbol string
  | ScvString string
  | ScvBytes "8 word list"
  | ScvAddress string
  | ScvVec "scval list"
  | ScvMap "(scval \<times> scval) list"
  | ScvOther string

datatype NativeScVal = NVoid | NBool bool | NNumber int | NBigint int | NString string | NBuffer "8 word list"
  | NArray "NativeScVal list" | NObject "(string \<times> NativeScVal) list"

text \<open>The high half of a signed value is signed, the others are not.\<close>

definition decode_u128 :: "64 word \<Rightarrow> 64 word \<Rightarrow> int" where
  "decode_u128 hi lo = push_bit 64 (uint hi) OR uint lo"

definition decode_i128 :: "64 word \<Rightarrow> 64 word \<Rightarrow> int" where
  "decode_i128 hi lo =
    (let raw = push_bit 64 (sint hi) OR uint lo;
         MAX_I128 = push_bit 127 1 - 1
     in if raw > MAX_I128 then raw - push_bit 128 1 else raw)"

definition decode_u256 :: "64 word \<Rightarrow> 64 word \<Rightarrow> 64 word \<Rightarrow> 64 word \<Rightarrow> int" where
  "decode_u256 hiHi hiLo loHi loLo =
    push_bit 192 (uint hiHi) OR push_bit 128 (uint hiLo) OR push_bit 64 (uint loHi) OR uint loLo"

definition decode_i256 :: "64 word \<Rightarrow> 64 word \<Rightarrow> 64 word \<Rightarrow> 64 word \<Rightarrow> int" where
  "decode_i256 hiHi hiLo loHi loLo =
    (let raw = push_bit 192 (sint hiHi) OR push_bit 128 (uint hiLo) OR push_bit 64 (uint loHi) OR uint loLo;
         MAX_I256 = push_bit 255 1 - 1
     in if raw > MAX_I256 then raw - push_bit 256 1 else raw)"

text \<open>\<open>String(key)\<close>; the UTF-8 text of a buffer is the parameter \<open>utf8\<close>.\<close>

fun native_String :: "(8 word list \<Rightarrow> string) \<Rightarrow> NativeScVal \<Rightarrow> string" where
  "native_String utf8 NVoid = ''undefined''"
| "native_String utf8 (NBool b) = (if b then ''true'' else ''false'')"
| "native_String utf8 (NNumber n) = int_str n"
| "native_String utf8 (NBigint n) = int_str n"
| "native_String utf8 (NString s) = s"
| "native_String utf8 (NBuffer b) = utf8 b"
| "native_String utf8 (NArray xs) =
     join_str '','' (map (\<lambda>x. if x = NVoid then [] else native_String utf8 x) xs)"
| "native_String utf8 (NObject ps) = ''[object Object]''"

definition unsupported_scval :: "string \<Rightarrow> thrown" where
  "unsupported_scval nm = Raw (JErr ''Error'' (''Unsupported scVal type: '' @ nm) [])"

text \<open>
  The entries of a map go into a plain object, so a repeated key keeps its first place and takes
  its last value; the order of keys that look like array indices is not modelled.
\<close>

function (sequential) decodeScVal :: "(8 word list \<Rightarrow> string) \<Rightarrow> scval \<Rightarrow> thrown + NativeScVal"
  and decode_items :: "(8 word list \<Rightarrow> string) \<Rightarrow> scval list \<Rightarrow> thrown + NativeScVal list"
  and decode_entries :: "(8 word list \<Rightarrow> string) \<Rightarrow> (scval \<times> scval) list \<Rightarrow> (string \<times> NativeScVal) list
        \<Rightarrow> thrown + (string \<times> NativeScVal) list" where
  "decodeScVal utf8 ScvVoid = Inr NVoid"
| "decodeScVal utf8 (ScvBool b) = Inr (NBool b)"
| "decodeScVal utf8 (ScvU32 w) = Inr (NNumber (uint w))"
| "decodeScVal utf8 (ScvI32 w) = Inr (NNumber (sint w))"
| "decodeScVal utf8 (ScvU64 w) = Inr (NBigint (uint w))"
| "decodeScVal utf8 (ScvI64 w) = Inr (NBigint (sint w))"
| "decodeScVal utf8 (ScvU128 hi lo) = Inr (NBigint (decode_u128 hi lo))"
| "decodeScVal utf8 (ScvI128 hi lo) = Inr (NBigint (decode_i128 hi lo))"
| "decodeScVal utf8 (ScvU256 a b c d) = Inr (NBigint (decode_u256 a b c d))"
| "decodeScVal utf8 (ScvI256 a b c d) = Inr (NBigint (decode_i256 a b c d))"
| "decodeScVal utf8 (ScvSymbol s) = Inr (NString s)"
| "decodeScVal utf8 (ScvString s) = Inr (NString s)"
| "decodeScVal utf8 (ScvBytes b) = Inr (NBuffer b)"
| "decodeScVal utf8 (ScvAddress s) = Inr (NString s)"
| "decodeScVal utf8 (ScvVec xs) = (case decode_items utf8 xs of Inl e \<Rightarrow> Inl e | Inr ys \<Rightarrow> Inr (NArray ys))"
| "decodeScVal utf8 (ScvMap es) = (case decode_entries utf8 es [] of Inl e \<Rightarrow> Inl e | Inr ps \<Rightarrow> Inr (NObject ps))"
| "decodeScVal utf8 (ScvOther nm) = Inl (unsupported_scval nm)"
| "decode_items utf8 [] = Inr []"
| "decode_items utf8 (x # xs) =
     (case decodeScVal utf8 x of Inl e \<Rightarrow> Inl e
      | Inr y \<Rightarrow> (case decode_items utf8 xs of Inl e \<Rightarrow> Inl e | Inr ys \<Rightarrow> Inr (y # ys)))"
| "decode_entries utf8 [] acc = Inr acc"
| "decode_entries utf8 ((k, v) # es) acc =
     (case decodeScVal utf8 k of Inl e \<Rightarrow> Inl e
      | Inr key \<Rightarrow>
         (case decodeScVal utf8 v of Inl e \<Rightarrow> Inl e
          | Inr val \<Rightarrow> decode_entries utf8 es (jm_set (native_String utf8 key) val acc)))"
  by pat_completeness auto
termination
  by (relation "measure (\<lambda>x. case x of Inl (u, v) \<Rightarrow> size v | Inr (Inl (u, xs)) \<Rightarrow> size_list size xs
      | Inr (Inr (u, es, acc)) \<Rightarrow> size_list (size_prod size size) es)") auto

section \<open>Simulation results\<close>

definition word_char :: "char \<Rightarrow> bool" where
  "word_char c \<longleftrightarrow>
    (let n = (of_char c :: nat) in
     (48 \<le> n \<and> n \<le> 57) \<or> (65 \<le> n \<and> n \<le> 90) \<or> (97 \<le> n \<and> n \<le> 122) \<or> n = 95)"

text \<open>What follows \<open>Error(\<close> in \<open>/Error\([^,]+,\s*#?(\w+)\)/\<close>; each part ends in only one way.\<close>

definition trap_tail :: "string \<Rightarrow> string option" where
  "trap_tail s =
    (let head = takeWhile (\<lambda>c. c \<noteq> CHR '','') s;
         rest = dropWhile is_space (tl (dropWhile (\<lambda>c. c \<noteq> CHR '','') s));
         body = (case rest of [] \<Rightarrow> [] | c # r \<Rightarrow> if c = CHR ''#'' then r else rest);
         code = takeWhile word_char body
     in if head \<noteq> [] \<and> CHR '','' \<in> set s \<and> code \<noteq> [] \<and> str_starts (dropWhile word_char body) '')''
        then Some code else None)"

fun extractTrapCode :: "string \<Rightarrow> string option" where
  "extractTrapCode [] = None"
| "extractTrapCode (c # s) =
    (case (if str_starts (c # s) ''Error('' then trap_tail (drop 6 (c # s)) else None) of
       Some code \<Rightarrow> Some code
     | None \<Rightarrow> extractTrapCode s)"

datatype contract_revert = ContractRevertError string "string option"

datatype simulation = SimulationError string | SimulationResult "string option"

text \<open>
  \<open>base64\<close> is the XDR text of the returned value, if the simulation has one; it is decoded
  through the cache of theory XdrCache.
\<close>

definition parseContractReturnValue ::
    "(string \<Rightarrow> thrown + scval) \<Rightarrow> (8 word list \<Rightarrow> string) \<Rightarrow> simulation \<Rightarrow> scval xdr_cache
      \<Rightarrow> scval xdr_cache \<times> ((contract_revert + thrown) + NativeScVal)" where
  "parseContractReturnValue fromXDR utf8 sim cache =
    (case sim of
       SimulationError msg \<Rightarrow>
         (cache, Inl (Inl (ContractRevertError (''Contract simulation reverted: '' @ msg) (extractTrapCode msg))))
     | SimulationResult None \<Rightarrow> (cache, Inr NVoid)
     | SimulationResult (Some base64) \<Rightarrow>
        (case decodeXdrBase64 fromXDR base64 cache of
           (cache', Inl e) \<Rightarrow> (cache', Inl (Inr e))
         | (cache', Inr v) \<Rightarrow>
             (cache', case decodeScVal utf8 v of Inl e \<Rightarrow> Inl (Inr e) | Inr n \<Rightarrow> Inr n)))"

section \<open>Error codes (errorClassifier.ts)\<close>

datatype ErrorCategory = Retryable | NonRetryable | ClientError | ServerError | NetworkErrorCategory

definition classifyError :: "int \<Rightarrow> ErrorCategory" where
  "classifyError c =
    (if 1000 \<le> c \<and> c < 2000 then NetworkErrorCategory
     else if 2000 \<le> c \<and> c < 3000 then ClientError
     else if 3000 \<le> c \<and> c < 4000 then Retryable
     else if 4000 \<le> c \<and> c < 5000 then NonRetryable
     else if 5000 \<le> c \<and> c < 6000 then NonRetryable
     else if 6000 \<le> c \<and> c < 7000 then ClientError
     else if 8000 \<le> c \<and> c < 9000 then Retryable
     else NonRetryable)"

definition code_isRetryable :: "int \<Rightarrow> bool" where
  "code_isRetryable c = (let category = classifyError c in category = Retryable \<or> category = NetworkErrorCategory)"

definition shouldRetry :: "int option \<Rightarrow> bool" where
  "shouldRetry code = (case code of None \<Rightarrow> False | Some c \<Rightarrow> code_isRetryable c)"

section \<open>Wide integers\<close>

lemma or_disjoint: "0 \<le> b \<Longrightarrow> b < 2 ^ n \<Longrightarrow> push_bit n a OR b = push_bit n a + (b :: int)"
proof -
  assume b: "0 \<le> b" "b < 2 ^ n"
  have "push_bit n a AND b = 0"
  proof (rule bit_eqI)
    fix k
    have "take_bit n b = b" using b by (simp add: take_bit_int_eq_self)
    then have "bit b k \<Longrightarrow> k < n" by (metis bit_take_bit_iff)
    then show "bit (push_bit n a AND b) k \<longleftrightarrow> bit 0 k" by (auto simp: bit_and_iff bit_push_bit_iff)
  qed
  then show ?thesis by (rule disjunctive_add_eq_or [symmetric])
qed

text \<open>The halves together, read at the full width.\<close>

lemma u128_value: "decode_u128 hi lo = 2 ^ 64 * uint hi + uint lo"
  unfolding decode_u128_def using or_disjoint [of "uint lo" 64 "uint hi"] uint_range_size [of lo]
  by (simp add: push_bit_eq_mult word_size mult.commute)

lemma i128_value: "decode_i128 hi lo = 2 ^ 64 * sint hi + uint lo"
proof -
  have lo: "0 \<le> uint lo" "uint lo < 2 ^ 64" using uint_range_size [of lo] by (simp_all add: word_size)
  have hi: "- (2 ^ 63) \<le> sint hi" "sint hi < 2 ^ 63" using sint_range_size [of hi] by (simp_all add: word_size)
  have "push_bit 64 (sint hi) OR uint lo = 2 ^ 64 * sint hi + uint lo"
    using or_disjoint [OF lo, of "sint hi"] by (simp add: push_bit_eq_mult mult.commute)
  then show ?thesis using lo hi by (simp add: decode_i128_def Let_def push_bit_eq_mult)
qed

lemma lane: "push_bit 64 a OR uint (w :: 64 word) = 2 ^ 64 * a + uint w"
  using or_disjoint [of "uint w" 64 a] uint_range_size [of w]
  by (simp add: push_bit_eq_mult word_size mult.commute)

lemma four_lanes:
  "push_bit 192 a OR push_bit 128 (uint (b :: 64 word)) OR push_bit 64 (uint (c :: 64 word)) OR uint (d :: 64 word)
     = 2 ^ 192 * a + 2 ^ 128 * uint b + 2 ^ 64 * uint c + uint d"
proof -
  have "push_bit 192 a OR push_bit 128 (uint b) OR push_bit 64 (uint c) OR uint d =
      push_bit 64 (push_bit 64 (push_bit 64 a OR uint b) OR uint c) OR uint d"
    by (simp add: push_bit_or or.assoc)
  also have "\<dots> = 2 ^ 64 * (2 ^ 64 * (2 ^ 64 * a + uint b) + uint c) + uint d"
    by (simp only: lane)
  finally show ?thesis by (simp add: algebra_simps)
qed

text \<open>Encoding, as a contract does it: the low lanes, and the signed or unsigned rest.\<close>

definition lane_at :: "nat \<Rightarrow> int \<Rightarrow> 64 word" where
  "lane_at k n = word_of_int (n div 2 ^ (64 * k))"

lemma uint_lane: "uint (lane_at k n) = n div 2 ^ (64 * k) mod 2 ^ 64"
  by (simp add: lane_at_def uint_word_of_int)

lemma sint_lane: "- (2 ^ 63) \<le> n div 2 ^ (64 * k) \<Longrightarrow> n div 2 ^ (64 * k) < 2 ^ 63 \<Longrightarrow>
    sint (lane_at k n) = n div 2 ^ (64 * k)"
  by (simp add: lane_at_def sint_sbintrunc' signed_take_bit_int_eq_self)

lemma uint_lanes:
  "uint (lane_at 0 n) = n mod 2 ^ 64" "uint (lane_at 1 n) = n div 2 ^ 64 mod 2 ^ 64"
  "uint (lane_at 2 n) = n div 2 ^ 128 mod 2 ^ 64" "uint (lane_at 3 n) = n div 2 ^ 192 mod 2 ^ 64"
  by (simp_all add: uint_lane)

lemma sint_lane3:
  "- (2 ^ 255) \<le> n \<Longrightarrow> n < 2 ^ 255 \<Longrightarrow> sint (lane_at 3 n) = n div 2 ^ 192"
proof -
  assume "- (2 ^ 255) \<le> n" "n < 2 ^ 255"
  then have "- (2 ^ 255) div 2 ^ 192 \<le> n div (2 ^ 192 :: int)" "n div 2 ^ 192 \<le> (2 ^ 255 - 1) div (2 ^ 192 :: int)"
    by (intro zdiv_mono1; simp)+
  then show ?thesis using sint_lane [of n 3] by simp
qed

lemma radix3:
  "n = A * q1 + r0 \<Longrightarrow> q1 = A * q2 + r1 \<Longrightarrow> q2 = A * q3 + r2 \<Longrightarrow>
    A ^ 3 * q3 + A ^ 2 * r2 + A * r1 + r0 = (n :: int)"
  by (simp add: power3_eq_cube power2_eq_square algebra_simps)

lemma recompose:
  "2 ^ 192 * (n div 2 ^ 192) + 2 ^ 128 * (n div 2 ^ 128 mod 2 ^ 64) + 2 ^ 64 * (n div 2 ^ 64 mod 2 ^ 64)
     + n mod 2 ^ 64 = (n :: int)"
proof -
  define q1 q2 q3 where "q1 = n div 2 ^ 64" and "q2 = q1 div 2 ^ 64" and "q3 = q2 div 2 ^ 64"
  have q: "n div 2 ^ 64 = q1" "n div 2 ^ 128 = q2" "n div 2 ^ 192 = q3"
    by (simp_all add: q1_def q2_def q3_def zdiv_zmult2_eq [symmetric])
  have "n = 2 ^ 64 * q1 + n mod 2 ^ 64" "q1 = 2 ^ 64 * q2 + q1 mod 2 ^ 64" "q2 = 2 ^ 64 * q3 + q2 mod 2 ^ 64"
    unfolding q1_def q2_def q3_def by (simp_all only: mult_div_mod_eq)
  then have "(2 ^ 64) ^ 3 * q3 + (2 ^ 64) ^ 2 * (q2 mod 2 ^ 64) + 2 ^ 64 * (q1 mod 2 ^ 64) + n mod 2 ^ 64 = n"
    by (rule radix3)
  then show ?thesis unfolding q by (simp add: power_mult [symmetric])
qed

text \<open>C37. 
  Every wide integer survives: the decoder reads back each number in the range of its type,
  negative ones included.
\<close>

theorem wide_integers_roundtrip:
  "(\<forall>n \<in> {0..<2 ^ 128}. decode_u128 (lane_at 1 n) (lane_at 0 n) = n) \<and>
   (\<forall>n \<in> {- (2 ^ 127)..<2 ^ 127}. decode_i128 (lane_at 1 n) (lane_at 0 n) = n) \<and>
   (\<forall>n \<in> {0..<2 ^ 256}. decode_u256 (lane_at 3 n) (lane_at 2 n) (lane_at 1 n) (lane_at 0 n) = n) \<and>
   (\<forall>n \<in> {- (2 ^ 255)..<2 ^ 255}. decode_i256 (lane_at 3 n) (lane_at 2 n) (lane_at 1 n) (lane_at 0 n) = n)"
proof (intro conjI ballI)
  have split: "2 ^ 64 * (m div 2 ^ 64) + m mod 2 ^ 64 = m" for m :: int by simp
  show "decode_u128 (lane_at 1 n) (lane_at 0 n) = n" if "n \<in> {0..<2 ^ 128}" for n
  proof -
    have "n div 2 ^ 64 mod 2 ^ 64 = n div 2 ^ 64" using that by (intro mod_pos_pos_trivial) auto
    then show ?thesis using split [of n] by (simp add: u128_value uint_lane)
  qed
  show "decode_i128 (lane_at 1 n) (lane_at 0 n) = n" if "n \<in> {- (2 ^ 127)..<2 ^ 127}" for n
  proof -
    have "sint (lane_at 1 n) = n div 2 ^ 64" using that sint_lane [of n 1] by auto
    then show ?thesis using split [of n] by (simp add: i128_value uint_lane)
  qed
  show "decode_u256 (lane_at 3 n) (lane_at 2 n) (lane_at 1 n) (lane_at 0 n) = n" if "n \<in> {0..<2 ^ 256}" for n
  proof -
    have "n div 2 ^ 192 mod 2 ^ 64 = n div 2 ^ 192" using that by (intro mod_pos_pos_trivial) auto
    then have "2 ^ 192 * uint (lane_at 3 n) + 2 ^ 128 * uint (lane_at 2 n) + 2 ^ 64 * uint (lane_at 1 n)
        + uint (lane_at 0 n) = n"
      unfolding uint_lanes using recompose [of n] by metis
    then show ?thesis unfolding decode_u256_def four_lanes .
  qed
  show "decode_i256 (lane_at 3 n) (lane_at 2 n) (lane_at 1 n) (lane_at 0 n) = n" if n: "n \<in> {- (2 ^ 255)..<2 ^ 255}" for n
  proof -
    have "sint (lane_at 3 n) = n div 2 ^ 192" using n by (intro sint_lane3) auto
    then have "2 ^ 192 * sint (lane_at 3 n) + 2 ^ 128 * uint (lane_at 2 n) + 2 ^ 64 * uint (lane_at 1 n)
        + uint (lane_at 0 n) = n"
      unfolding uint_lanes using recompose [of n] by metis
    then show ?thesis unfolding decode_i256_def four_lanes Let_def 
      using n by (simp add: push_bit_eq_mult)
  qed
qed

lemma wide_integers_roundtrip_witness:
  "decode_i128 (lane_at 1 (-5)) (lane_at 0 (-5)) = -5 \<and> decode_u128 (lane_at 1 (2 ^ 100 + 7)) (lane_at 0 (2 ^ 100 + 7)) = 2 ^ 100 + 7"
proof -
  have r: "(-5 :: int) \<in> {- (2 ^ 127)..<2 ^ 127}" "(2 ^ 100 + 7 :: int) \<in> {0..<2 ^ 128}" by simp_all
  show ?thesis
    using wide_integers_roundtrip [THEN conjunct2, THEN conjunct1, rule_format, OF r(1)]
      wide_integers_roundtrip [THEN conjunct1, rule_format, OF r(2)] by (rule conjI)
qed

section \<open>Types\<close>

text \<open>What a value of each contract type decodes to, ranges included.\<close>
















text \<open>Different keys of a map can become one: a number and its text.\<close>

theorem map_keys_collide:
  "decodeScVal utf8 (ScvMap [(ScvU32 1, ScvSymbol ''a''), (ScvString ''1'', ScvSymbol ''b'')]) =
     Inr (NObject [(''1'', NString ''b'')])"
  by (simp add: int_str_def) code_simp

section \<open>Trap codes\<close>

text \<open>
  The code of a host error is found: after a text without parentheses, the code in
  \<open>Error(Kind, #code)\<close> is what is extracted.
\<close>

theorem trap_code_extracted:
  assumes "list_all word_char code" and "code \<noteq> []" and "list_all (\<lambda>c. c \<noteq> CHR '','') kind" and "kind \<noteq> []"
    and "CHR ''('' \<notin> set pre"
  shows "extractTrapCode (pre @ ''Error('' @ kind @ '', #'' @ code @ '')'' @ rest) = Some code"
proof -
  have comma: "takeWhile (\<lambda>c. c \<noteq> CHR '','') (kind @ CHR '','' # s) = kind"
    "dropWhile (\<lambda>c. c \<noteq> CHR '','') (kind @ CHR '','' # s) = CHR '','' # s" for s
    using assms(3) by (simp_all add: list_all_iff takeWhile_append2 dropWhile_append2)
  have stop: "\<not> word_char (CHR '')'')" "\<not> is_space (CHR ''#'')" "is_space (CHR '' '')"
    by code_simp+
  have word: "takeWhile word_char (code @ CHR '')'' # rest) = code"
    "dropWhile word_char (code @ CHR '')'' # rest) = CHR '')'' # rest"
    using assms(1) stop by (simp_all add: list_all_iff takeWhile_append2 dropWhile_append2)
  have tail: "trap_tail (kind @ '', #'' @ code @ '')'' @ rest) = Some code"
    using assms(2,4) stop by (simp add: trap_tail_def comma word str_starts_def)
  have six: "length ''Error('' = 6" by simp
  show ?thesis using assms(5)
  proof (induction pre)
    case Nil
    then show ?case using tail by (simp add: str_starts_def)
  next
    case (Cons c pre)
    have "\<not> str_starts (c # pre @ ''Error('' @ kind @ '', #'' @ code @ '')'' @ rest) ''Error(''"
    proof
      assume "str_starts (c # pre @ ''Error('' @ kind @ '', #'' @ code @ '')'' @ rest) ''Error(''"
      then have t: "take 6 ((c # pre) @ ''Error('' @ kind @ '', #'' @ code @ '')'' @ rest) = ''Error(''"
        unfolding str_starts_def six append_Cons .
      have "((c # pre) @ ''Error('' @ kind @ '', #'' @ code @ '')'' @ rest) ! 5 = ''Error('' ! 5"
        by (subst t [symmetric]) (rule nth_take [symmetric], simp)
      then have "((c # pre) @ ''Error('' @ kind @ '', #'' @ code @ '')'' @ rest) ! 5 = CHR ''(''"
        by simp
      then show False using Cons.prems
        by (auto simp: nth_append nth_Cons' split: if_splits) (metis nth_mem)
    qed
    then show ?case using Cons by simp
  qed
qed

lemma trap_code_extracted_witness:
  "extractTrapCode ''HostError: Error(Contract, #8) at line 3'' = Some ''8''"
proof -
  have "list_all word_char ''8''" "list_all (\<lambda>c. c \<noteq> CHR '','') ''Contract''" by code_simp+
  then show ?thesis
    using trap_code_extracted [of "''8''" "''Contract''" "''HostError: ''" "'' at line 3''"] by simp
qed

text \<open>A code is retryable exactly in the ranges of the network, of rate limits and of the RPC.\<close>

lemma code_isRetryable_iff:
  "code_isRetryable c \<longleftrightarrow> c \<in> {1000..<2000} \<union> {3000..<4000} \<union> {8000..<9000}"
  by (auto simp: code_isRetryable_def classifyError_def Let_def)

end
