(* ===== verification/CodeGen.thy ===== *)
theory CodeGen
  imports WasmReader ScValDecode
begin

text \<open>
  The code generator of \<open>packages/core\<close>: the interpretation of a contract's specification
  (\<open>codegen/wasmParser.ts\<close>), the TypeScript it renders (\<open>codegen/generator.ts\<close>), and the helpers
  of the class that generated contracts extend (\<open>contracts/BaseContract.ts\<close>).

  The decoder of specification entries belongs to the Stellar SDK and is a parameter. Names are
  ASCII text, as in contract specifications, so upper and lower case are those of Latin-1.

  The lemmas show when the TypeScript type rendered for a contract type is the right one, that a
  module in the framing the reader expects parses to its functions, structs and enums, that snake-case names stay
  apart, which results a generated method decodes, and that generated methods
  that change state call a member the base class does not have.
\<close>

section \<open>Types of a contract specification\<close>

datatype sc_type =
    TyBool | TyVoid | TyError | TyU32 | TyI32 | TyU64 | TyI64 | TyU128 | TyI128 | TyU256 | TyI256
  | TyBytes | TyString | TySymbol | TyAddress
  | TyOption sc_type
  | TyVec sc_type
  | TyMap sc_type sc_type
  | TyTuple "sc_type list"
  | TyUdt string
  | TyOther

text \<open>The pair of the TypeScript type (\<open>ts\<close>) and the name of the contract type (\<open>spec\<close>).\<close>

fun scSpecTypeToTs :: "sc_type \<Rightarrow> string \<times> string" where
  "scSpecTypeToTs TyBool = (''boolean'', ''bool'')"
| "scSpecTypeToTs TyVoid = (''void'', ''void'')"
| "scSpecTypeToTs TyError = (''number'', ''error'')"
| "scSpecTypeToTs TyU32 = (''number'', ''u32'')"
| "scSpecTypeToTs TyI32 = (''number'', ''i32'')"
| "scSpecTypeToTs TyU64 = (''bigint'', ''u64'')"
| "scSpecTypeToTs TyI64 = (''bigint'', ''i64'')"
| "scSpecTypeToTs TyU128 = (''bigint'', ''u128'')"
| "scSpecTypeToTs TyI128 = (''bigint'', ''i128'')"
| "scSpecTypeToTs TyU256 = (''bigint'', ''u256'')"
| "scSpecTypeToTs TyI256 = (''bigint'', ''i256'')"
| "scSpecTypeToTs TyBytes = (''Buffer'', ''bytes'')"
| "scSpecTypeToTs TyString = (''string'', ''string'')"
| "scSpecTypeToTs TySymbol = (''string'', ''symbol'')"
| "scSpecTypeToTs TyAddress = (''string'', ''address'')"
| "scSpecTypeToTs (TyOption t) = (case scSpecTypeToTs t of (ts, spec) \<Rightarrow>
     (ts @ '' | undefined'', ''option<'' @ spec @ ''>''))"
| "scSpecTypeToTs (TyVec t) = (case scSpecTypeToTs t of (ts, spec) \<Rightarrow> (ts @ ''[]'', ''vec<'' @ spec @ ''>''))"
| "scSpecTypeToTs (TyMap k v) = (case scSpecTypeToTs k of (kt, ks) \<Rightarrow> case scSpecTypeToTs v of (vt, vs) \<Rightarrow>
     (''Map<'' @ kt @ '', '' @ vt @ ''>'', ''map<'' @ ks @ '','' @ vs @ ''>''))"
| "scSpecTypeToTs (TyTuple ts) = (''['' @ join_str '', '' (map (\<lambda>t. fst (scSpecTypeToTs t)) ts) @ '']'', ''tuple'')"
| "scSpecTypeToTs (TyUdt nm) = (nm, ''udt:'' @ nm)"
| "scSpecTypeToTs TyOther = (''xdr.ScVal'', ''unknown'')"

definition isReadOnly :: "string \<Rightarrow> bool" where
  "isReadOnly nm = list_ex (str_starts nm)
     [''get'', ''query'', ''view'', ''balance'', ''total'', ''is_'', ''has_'', ''check'', ''fetch'', ''read'', ''list'']"

section \<open>Parsing a module\<close>

record SpecParam =
  sp_name :: string
  sp_type :: string
  sp_scSpecType :: string

record SpecFunction =
  sf_name :: string
  sf_doc :: string
  sf_inputs :: "SpecParam list"
  sf_outputs :: "SpecParam list"
  sf_readonly :: bool

record SpecStructField =
  fld_name :: string
  fld_type :: string

record SpecStruct =
  st_name :: string
  st_doc :: string
  st_fields :: "SpecStructField list"

record SpecEnumCase =
  ec_name :: string
  ec_value :: nat

record SpecEnum =
  en_name :: string
  en_doc :: string
  en_cases :: "SpecEnumCase list"

record ContractSpec =
  spec_functions :: "SpecFunction list"
  spec_structs :: "SpecStruct list"
  spec_enums :: "SpecEnum list"

datatype ScSpecEntry =
    FunctionV0 string string "(string \<times> sc_type) list" "sc_type list"
  | UdtStructV0 string string "(string \<times> sc_type) list"
  | UdtEnumV0 string string "(string \<times> nat) list"
  | OtherEntry

datatype parse_error = ReadFailed read_error | NoSpecSection string | BadEntry thrown

definition to_param :: "string \<Rightarrow> sc_type \<Rightarrow> SpecParam" where
  "to_param nm t = (case scSpecTypeToTs t of (ts, spec) \<Rightarrow> \<lparr>sp_name = nm, sp_type = ts, sp_scSpecType = spec\<rparr>)"

definition to_outputs :: "sc_type list \<Rightarrow> SpecParam list" where
  "to_outputs ts = map (\<lambda>(i, t). to_param (''result'' @ nat_str i) t) (zip [0..<length ts] ts)"

definition to_function :: "string \<Rightarrow> string \<Rightarrow> (string \<times> sc_type) list \<Rightarrow> sc_type list \<Rightarrow> SpecFunction" where
  "to_function nm doc ins outs = \<lparr>sf_name = nm, sf_doc = doc, sf_inputs = map (\<lambda>(n, t). to_param n t) ins,
     sf_outputs = to_outputs outs, sf_readonly = isReadOnly nm\<rparr>"

definition to_struct :: "string \<Rightarrow> string \<Rightarrow> (string \<times> sc_type) list \<Rightarrow> SpecStruct" where
  "to_struct nm doc fs = \<lparr>st_name = nm, st_doc = doc,
     st_fields = map (\<lambda>(n, t). \<lparr>fld_name = n, fld_type = fst (scSpecTypeToTs t)\<rparr>) fs\<rparr>"

definition to_enum :: "string \<Rightarrow> string \<Rightarrow> (string \<times> nat) list \<Rightarrow> SpecEnum" where
  "to_enum nm doc cs = \<lparr>en_name = nm, en_doc = doc, en_cases = map (\<lambda>(n, v). \<lparr>ec_name = n, ec_value = v\<rparr>) cs\<rparr>"

definition add_entry :: "ScSpecEntry \<Rightarrow> ContractSpec \<Rightarrow> ContractSpec" where
  "add_entry entry spec =
     (case entry of
        FunctionV0 nm doc ins outs \<Rightarrow> spec\<lparr>spec_functions := spec_functions spec @ [to_function nm doc ins outs]\<rparr>
      | UdtStructV0 nm doc fs \<Rightarrow> spec\<lparr>spec_structs := spec_structs spec @ [to_struct nm doc fs]\<rparr>
      | UdtEnumV0 nm doc cs \<Rightarrow> spec\<lparr>spec_enums := spec_enums spec @ [to_enum nm doc cs]\<rparr>
      | OtherEntry \<Rightarrow> spec)"

fun add_entries :: "(bytes \<Rightarrow> thrown + ScSpecEntry) \<Rightarrow> bytes list \<Rightarrow> ContractSpec \<Rightarrow> parse_error + ContractSpec" where
  "add_entries fromXDR [] spec = Inr spec"
| "add_entries fromXDR (raw # raws) spec =
     (case fromXDR raw of
        Inl e \<Rightarrow> Inl (BadEntry e)
      | Inr entry \<Rightarrow> add_entries fromXDR raws (add_entry entry spec))"

definition no_section :: "string \<Rightarrow> string" where
  "no_section wasmPath = ''No 'contractspecv0' custom section found in '' @ wasmPath @
     ''. Ensure the contract was compiled with soroban-sdk and the spec feature enabled.''"

definition parseWasm ::
    "(bytes \<Rightarrow> thrown + ScSpecEntry) \<Rightarrow> string \<Rightarrow> bytes \<Rightarrow> (parse_error + ContractSpec) option" where
  "parseWasm fromXDR wasmPath wasm =
     (case readSpecSection wasm of
        None \<Rightarrow> None
      | Some (Inl e) \<Rightarrow> Some (Inl (ReadFailed e))
      | Some (Inr raws) \<Rightarrow>
          Some (if length raws = 0 then Inl (NoSpecSection (no_section wasmPath))
                else add_entries fromXDR raws \<lparr>spec_functions = [], spec_structs = [], spec_enums = []\<rparr>))"

section \<open>Rendering TypeScript\<close>

abbreviation nl :: string where
  "nl \<equiv> [CHR 0x0A]"

abbreviation dq :: string where
  "dq \<equiv> [CHR 0x22]"

definition line_end :: "char \<Rightarrow> bool" where
  "line_end c \<longleftrightarrow> c = CHR 0x0A \<or> c = CHR 0x0D"

text \<open>\<open>s.replace(/[-_](.)/g, (_, c) => c.toUpperCase())\<close>\<close>

fun upper_after_sep :: "string \<Rightarrow> string" where
  "upper_after_sep (c # d # s) =
     (if (c = CHR ''-'' \<or> c = CHR ''_'') \<and> \<not> line_end d then upper_char d # upper_after_sep s
      else c # upper_after_sep (d # s))"
| "upper_after_sep s = s"

definition upper_first :: "string \<Rightarrow> string" where
  "upper_first s = (case s of [] \<Rightarrow> [] | c # cs \<Rightarrow> upper_char c # cs)"

definition toPascalCase :: "string \<Rightarrow> string" where
  "toPascalCase s = upper_first (upper_after_sep s)"

definition toCamelCase :: "string \<Rightarrow> string" where
  "toCamelCase s = (let pascal = toPascalCase s in js_lower (take 1 pascal) @ drop 1 pascal)"

definition encodeExpr :: "string \<Rightarrow> string \<Rightarrow> string" where
  "encodeExpr varName scSpecType =
     (if scSpecType = ''address'' then ''this.encodeAddress('' @ varName @ '')''
      else if scSpecType = ''i128'' then ''this.encodeI128('' @ varName @ '')''
      else if scSpecType = ''u128'' then ''this.encodeU128('' @ varName @ '')''
      else if str_starts scSpecType ''udt:'' then ''this.encodeUdt('' @ varName @ '')''
      else ''nativeToScVal('' @ varName @ '')'')"

definition decodeExpr :: "string \<Rightarrow> string \<Rightarrow> string" where
  "decodeExpr resultExpr scSpecType =
     (if scSpecType = ''bool'' then ''this.decodeBool('' @ resultExpr @ '')''
      else if scSpecType = ''string'' \<or> scSpecType = ''symbol'' then ''this.decodeString('' @ resultExpr @ '')''
      else if scSpecType = ''i128'' then ''this.decodeI128('' @ resultExpr @ '')''
      else if scSpecType = ''u128'' then ''this.decodeU128('' @ resultExpr @ '')''
      else if scSpecType = ''u64'' then ''this.decodeU64('' @ resultExpr @ '')''
      else if scSpecType = ''void'' then ''undefined''
      else resultExpr)"

definition generateArgsInterface :: "SpecFunction \<Rightarrow> string \<Rightarrow> string" where
  "generateArgsInterface fn className =
     (if length (sf_inputs fn) = 0 then []
      else let ifaceName = toPascalCase (sf_name fn) @ ''Args'';
               fields = join_str nl (map (\<lambda>p. ''  '' @ sp_name p @ '': '' @ sp_type p @ '';'') (sf_inputs fn))
           in ''export interface '' @ ifaceName @ '' {'' @ nl @ fields @ nl @ ''}'' @ nl)"

definition generateStructInterface :: "SpecStruct \<Rightarrow> string" where
  "generateStructInterface s =
     (let fields = join_str nl (map (\<lambda>f. ''  '' @ fld_name f @ '': '' @ fld_type f @ '';'') (st_fields s));
          doc = if st_doc s \<noteq> [] then ''/** '' @ st_doc s @ '' */'' @ nl else []
      in doc @ ''export interface '' @ st_name s @ '' {'' @ nl @ fields @ nl @ ''}'' @ nl)"

definition generateEnumType :: "SpecEnum \<Rightarrow> string" where
  "generateEnumType e =
     (let cases = join_str nl (map (\<lambda>c. ''  '' @ ec_name c @ '' = '' @ nat_str (ec_value c) @ '','') (en_cases e));
          doc = if en_doc e \<noteq> [] then ''/** '' @ en_doc e @ '' */'' @ nl else []
      in doc @ ''export enum '' @ en_name e @ '' {'' @ nl @ cases @ nl @ ''}'' @ nl)"

definition doc_lines :: "string \<Rightarrow> string" where
  "doc_lines doc = concat (map (\<lambda>c. if c = CHR 0x0A then nl @ ''   * '' else [c]) doc)"

definition args_array :: "SpecFunction \<Rightarrow> string" where
  "args_array fn =
     (if 0 < length (sf_inputs fn)
      then ''['' @ nl @ ''      '' @
        join_str ('','' @ nl @ ''      '') (map (\<lambda>p. encodeExpr (''args.'' @ sp_name p) (sp_scSpecType p)) (sf_inputs fn)) @
        nl @ ''    ]''
      else ''[]'')"

definition method_head :: "SpecFunction \<Rightarrow> string" where
  "method_head fn =
     (let methodName = toCamelCase (sf_name fn);
          argsIfaceName = toPascalCase (sf_name fn) @ ''Args'';
          returnTs = (case sf_outputs fn of [] \<Rightarrow> ''void'' | r # _ \<Rightarrow> sp_type r);
          promiseReturn = if sf_readonly fn then ''Promise<'' @ returnTs @ ''>'' else ''Promise<any>'';
          paramSig = if 0 < length (sf_inputs fn) then ''args: '' @ argsIfaceName else [];
          doc = if sf_doc fn \<noteq> [] then ''  /**'' @ nl @ ''   * '' @ doc_lines (sf_doc fn) @ nl @ ''   */'' @ nl else []
      in doc @ ''  async '' @ methodName @ ''('' @ paramSig @ ''): '' @ promiseReturn @ '' {'' @ nl)"

definition generateMethod :: "SpecFunction \<Rightarrow> string" where
  "generateMethod fn =
     (if sf_readonly fn then
        (let decode = (case sf_outputs fn of [] \<Rightarrow> ''undefined'' | r # _ \<Rightarrow> decodeExpr ''_result'' (sp_scSpecType r))
         in method_head fn @
            ''    const _result = await this.query('' @ dq @ sf_name fn @ dq @ '', '' @ args_array fn @ '');'' @ nl @
            ''    return '' @ decode @ '';'' @ nl @ ''  }'' @ nl)
      else method_head fn @
            ''    return this.invoke('' @ dq @ sf_name fn @ dq @ '', '' @ args_array fn @ '');'' @ nl @
            ''  }'' @ nl)"

definition args_interfaces :: "ContractSpec \<Rightarrow> string \<Rightarrow> string list" where
  "args_interfaces spec className =
     filter (\<lambda>iface. iface \<noteq> []) (map (\<lambda>fn. generateArgsInterface fn className) (spec_functions spec))"

definition generateContractClass :: "ContractSpec \<Rightarrow> string \<Rightarrow> string \<Rightarrow> string" where
  "generateContractClass spec className coreImport =
     join_str nl
      ([''// Auto-generated by axionvera-cli codegen. DO NOT EDIT.'',
        ''// Re-run `axionvera-cli codegen <contract.wasm>` to regenerate.'' @ nl,
        ''import { nativeToScVal } from '' @ dq @ ''@stellar/stellar-sdk'' @ dq @ '';'',
        ''import { BaseContract, BaseContractConfig } from '' @ dq @ coreImport @ ''/contracts/BaseContract'' @ dq @ '';'' @ nl] @
       map generateStructInterface (spec_structs spec) @
       map generateEnumType (spec_enums spec) @
       args_interfaces spec className @
       [''export class '' @ className @ '' extends BaseContract {'',
        ''  constructor(config: BaseContractConfig) {'',
        ''    super(config);'',
        ''  }'' @ nl] @
       map generateMethod (spec_functions spec) @
       [''}'', []])"

section \<open>The base class\<close>

definition base_members :: "string list" where
  "base_members = [''client'', ''contractId'', ''wallet'', ''signer'', ''invokeMethod'', ''query'', ''decodeI128'',
     ''decodeU128'', ''decodeU64'', ''decodeBool'', ''decodeString'', ''encodeAddress'', ''encodeI128'', ''encodeU128'']"

definition expected :: "string \<Rightarrow> thrown" where
  "expected what = Raw (JErr ''Error'' (''Expected '' @ what) [])"

definition base_decodeU128 :: "scval \<Rightarrow> thrown + int" where
  "base_decodeU128 v = (case v of ScvU128 hi lo \<Rightarrow> Inr (uint lo + push_bit 64 (uint hi)) | _ \<Rightarrow> Inl (expected ''u128''))"

definition base_decodeU64 :: "scval \<Rightarrow> thrown + int" where
  "base_decodeU64 v = (case v of ScvU64 n \<Rightarrow> Inr (uint n) | _ \<Rightarrow> Inl (expected ''u64''))"

definition base_decodeBool :: "scval \<Rightarrow> thrown + bool" where
  "base_decodeBool v = (case v of ScvBool b \<Rightarrow> Inr b | _ \<Rightarrow> Inl (expected ''bool''))"

definition base_decodeString :: "scval \<Rightarrow> thrown + string" where
  "base_decodeString v = (case v of ScvString s \<Rightarrow> Inr s | ScvSymbol s \<Rightarrow> Inr s | _ \<Rightarrow> Inl (expected ''string or symbol''))"

section \<open>The rendered types\<close>

text \<open>What a contract type means in TypeScript, and how such a type is written with the parentheses it needs.\<close>

datatype ts_type = TsName string | TsOrUndefined ts_type | TsArray ts_type | TsMapOf ts_type ts_type | TsTuple "ts_type list"

fun ts_meaning :: "sc_type \<Rightarrow> ts_type" where
  "ts_meaning (TyOption t) = TsOrUndefined (ts_meaning t)"
| "ts_meaning (TyVec t) = TsArray (ts_meaning t)"
| "ts_meaning (TyMap k v) = TsMapOf (ts_meaning k) (ts_meaning v)"
| "ts_meaning (TyTuple ts) = TsTuple (map ts_meaning ts)"
| "ts_meaning t = TsName (fst (scSpecTypeToTs t))"

fun is_union :: "ts_type \<Rightarrow> bool" where
  "is_union (TsOrUndefined _) = True"
| "is_union _ = False"

fun ts_print :: "ts_type \<Rightarrow> string" where
  "ts_print (TsName nm) = nm"
| "ts_print (TsOrUndefined t) = ts_print t @ '' | undefined''"
| "ts_print (TsArray t) = (if is_union t then ''('' @ ts_print t @ '')[]'' else ts_print t @ ''[]'')"
| "ts_print (TsMapOf k v) = ''Map<'' @ ts_print k @ '', '' @ ts_print v @ ''>''"
| "ts_print (TsTuple ts) = ''['' @ join_str '', '' (map ts_print ts) @ '']''"

fun vecs_of_options :: "sc_type \<Rightarrow> nat" where
  "vecs_of_options (TyOption t) = vecs_of_options t"
| "vecs_of_options (TyVec t) = (case t of TyOption _ \<Rightarrow> 1 | _ \<Rightarrow> 0) + vecs_of_options t"
| "vecs_of_options (TyMap k v) = vecs_of_options k + vecs_of_options v"
| "vecs_of_options (TyTuple ts) = sum_list (map vecs_of_options ts)"
| "vecs_of_options _ = 0"

lemma is_union_meaning: "is_union (ts_meaning t) \<longleftrightarrow> (case t of TyOption _ \<Rightarrow> True | _ \<Rightarrow> False)"
  by (cases t) simp_all

lemma length_join_map:
  "\<forall>x \<in> set xs. length (f x) = length (g x) + h x \<Longrightarrow>
    length (join_str sep (map f xs)) = length (join_str sep (map g xs)) + sum_list (map h xs)"
proof -
  assume a: "\<forall>x \<in> set xs. length (f x) = length (g x) + h x"
  have "length (concat (map (\<lambda>z. sep @ z) (map f ys))) =
      length (concat (map (\<lambda>z. sep @ z) (map g ys))) + sum_list (map h ys)"
    if "\<forall>x \<in> set ys. length (f x) = length (g x) + h x" for ys
    using that by (induction ys) simp_all
  then show ?thesis using a by (cases xs) (simp_all add: join_str_def)
qed

lemma ts_print_length:
  "length (ts_print (ts_meaning t)) = length (fst (scSpecTypeToTs t)) + 2 * vecs_of_options t"
proof (induction t)
  case (TyVec t)
  then show ?case by (cases "scSpecTypeToTs t"; cases t) (simp_all add: is_union_meaning)
next
  case (TyTuple ts)
  then show ?case
    using length_join_map [of ts "\<lambda>t. ts_print (ts_meaning t)" "\<lambda>t. fst (scSpecTypeToTs t)"
        "\<lambda>t. 2 * vecs_of_options t" "'', ''"]
    by (simp add: comp_def sum_list_const_mult)
qed (auto split: prod.splits)

lemma ts_print_same: "vecs_of_options t = 0 \<Longrightarrow> ts_print (ts_meaning t) = fst (scSpecTypeToTs t)"
proof (induction t)
  case (TyVec t)
  then show ?case by (cases "scSpecTypeToTs t"; cases t) (simp_all add: is_union_meaning)
next
  case (TyTuple ts)
  then have same: "map (\<lambda>t. ts_print (ts_meaning t)) ts = map (\<lambda>t. fst (scSpecTypeToTs t)) ts" by simp
  show ?case by (simp only: ts_meaning.simps ts_print.simps map_map comp_def same scSpecTypeToTs.simps fst_conv)
qed (auto split: prod.splits)

text \<open>
  The rendered type is the one that is meant exactly when no vector has optional elements: an
  array type binds tighter than a union, and the renderer writes no parentheses.
\<close>

theorem rendered_type_exact:
  "fst (scSpecTypeToTs t) = ts_print (ts_meaning t) \<longleftrightarrow> vecs_of_options t = 0"
proof
  assume "fst (scSpecTypeToTs t) = ts_print (ts_meaning t)"
  then have "length (fst (scSpecTypeToTs t)) = length (ts_print (ts_meaning t))" by simp
  then show "vecs_of_options t = 0" by (simp add: ts_print_length)
qed (simp add: ts_print_same)

lemma vec_of_option_rendering:
  "fst (scSpecTypeToTs (TyVec (TyOption TyU32))) = ''number | undefined[]''"
  "ts_print (ts_meaning (TyVec (TyOption TyU32))) = ''(number | undefined)[]''"
  by simp_all

section \<open>Parsing a module\<close>

lemma add_entries_all:
  "map fromXDR raws = map Inr entries \<Longrightarrow>
    add_entries fromXDR raws spec = Inr \<lparr>
      spec_functions = spec_functions spec @ [to_function nm doc ins outs. FunctionV0 nm doc ins outs \<leftarrow> entries],
      spec_structs = spec_structs spec @ [to_struct nm doc fs. UdtStructV0 nm doc fs \<leftarrow> entries],
      spec_enums = spec_enums spec @ [to_enum nm doc cs. UdtEnumV0 nm doc cs \<leftarrow> entries]\<rparr>"
proof (induction raws arbitrary: entries spec)
  case Nil
  then show ?case by simp
next
  case (Cons raw raws)
  then obtain e es where e: "entries = e # es" "fromXDR raw = Inr e" "map fromXDR raws = map Inr es"
    by (cases entries) auto
  from Cons.IH [OF e(3), of "add_entry e spec"] show ?case
    by (cases e) (simp_all add: e(1,2) add_entry_def)
qed

text \<open>
  A module in the framing that the reader expects (sections as in the WebAssembly format with
  lengths in minimal LEB128, the entries of the specification section each preceded by its length)
  parses to the functions, structs and enums of its entries, in order.
\<close>

theorem module_parses_to_its_entries:
  assumes "length header = 8" and "list_all section_ok secs" and "length (encode_module header secs) < 2 ^ 31"
    and "map fromXDR (concat (map spec_entries secs)) = map Inr entries" and "entries \<noteq> []"
  shows "parseWasm fromXDR path (encode_module header secs) = Some (Inr \<lparr>
      spec_functions = [to_function nm doc ins outs. FunctionV0 nm doc ins outs \<leftarrow> entries],
      spec_structs = [to_struct nm doc fs. UdtStructV0 nm doc fs \<leftarrow> entries],
      spec_enums = [to_enum nm doc cs. UdtEnumV0 nm doc cs \<leftarrow> entries]\<rparr>)"
proof -
  have "concat (map spec_entries secs) \<noteq> []" using assms(4,5) by (metis list.map_disc_iff)
  then show ?thesis
    using add_entries_all [OF assms(4)] read_sections_encoded [OF assms(2), of header "[]"] assms(1,3)
    by (simp add: parseWasm_def readSpecSection_def encode_module_def del: concat_eq_Nil_conv)
qed

definition demo_decode :: "bytes \<Rightarrow> thrown + ScSpecEntry" where
  "demo_decode raw = Inr (if raw = [1] then FunctionV0 ''get_owner'' [] [(''id'', TyU64)] [TyAddress] else OtherEntry)"

lemma module_parses_to_its_entries_witness:
  "parseWasm demo_decode ''a.wasm'' (encode_module (replicate 8 0) [OtherSection 3 [0], SpecSection [[1], [2]]]) =
     Some (Inr \<lparr>spec_functions = [\<lparr>sf_name = ''get_owner'', sf_doc = [],
        sf_inputs = [\<lparr>sp_name = ''id'', sp_type = ''bigint'', sp_scSpecType = ''u64''\<rparr>],
        sf_outputs = [\<lparr>sp_name = ''result0'', sp_type = ''string'', sp_scSpecType = ''address''\<rparr>],
        sf_readonly = True\<rparr>], spec_structs = [], spec_enums = []\<rparr>)"
proof -
  let ?secs = "[OtherSection 3 [0], SpecSection [[1], [2]]]"
  have "length (encode_module (replicate 8 0) ?secs) < 2 ^ 31"
    by (simp add: encode_module_def encode_section_def framed_def SPEC_SECTION_NAME_def leb128.simps)
  from module_parses_to_its_entries [OF _ _ this, of demo_decode
      "[FunctionV0 ''get_owner'' [] [(''id'', TyU64)] [TyAddress], OtherEntry]" "''a.wasm''"]
  have "parseWasm demo_decode ''a.wasm'' (encode_module (replicate 8 0) ?secs) = Some (Inr \<lparr>
      spec_functions = [to_function ''get_owner'' [] [(''id'', TyU64)] [TyAddress]], spec_structs = [], spec_enums = []\<rparr>)"
    by (simp add: demo_decode_def)
  moreover have "isReadOnly ''get_owner''" "digit_char 0 = CHR ''0''" by code_simp+
  ultimately show ?thesis
    by (simp add: to_function_def to_param_def to_outputs_def nat_str.simps)
qed

section \<open>Names of methods\<close>

definition lower_letter :: "char \<Rightarrow> bool" where
  "lower_letter c \<longleftrightarrow> (let n = (of_char c :: nat) in 97 \<le> n \<and> n \<le> 122)"

definition upper_letter :: "char \<Rightarrow> bool" where
  "upper_letter c \<longleftrightarrow> (let n = (of_char c :: nat) in 65 \<le> n \<and> n \<le> 90)"

text \<open>Snake case: lower-case words with digits, each starting with a letter, between single underscores.\<close>

fun snake_rest :: "string \<Rightarrow> bool" where
  "snake_rest [] = True"
| "snake_rest [c] = (lower_letter c \<or> is_digit c)"
| "snake_rest (c # d # s) =
     (if c = CHR ''_'' then lower_letter d \<and> snake_rest (d # s)
      else (lower_letter c \<or> is_digit c) \<and> snake_rest (d # s))"

definition snake_name :: "string \<Rightarrow> bool" where
  "snake_name s \<longleftrightarrow> (case s of [] \<Rightarrow> False | c # cs \<Rightarrow> lower_letter c \<and> snake_rest s)"

definition un_camel :: "string \<Rightarrow> string" where
  "un_camel s = concat (map (\<lambda>c. if upper_letter c then [CHR ''_'', lower_char c] else [c]) s)"

lemma letter_case:
  assumes "lower_letter c"
  shows "upper_letter (upper_char c)" "lower_char (upper_char c) = c" "\<not> upper_letter c" "lower_char c = c"
    "c \<noteq> CHR ''_''" "c \<noteq> CHR ''-''" "\<not> line_end c"
proof -
  have n: "97 \<le> (of_char c :: nat)" "(of_char c :: nat) \<le> 122"
    using assms by (simp_all add: lower_letter_def Let_def)
  define m where "m = (of_char c :: nat) - 32"
  have m: "65 \<le> m" "m \<le> 90" "of_char c = m + 32" using n by (simp_all add: m_def)
  have up: "upper_char c = char_of m" using m by (simp add: upper_char_def)
  have c: "char_of (m + 32) = c" by (simp flip: m(3))
  show "upper_letter (upper_char c)" "lower_char (upper_char c) = c"
    using m by (simp_all add: up c upper_letter_def lower_char_def Let_def)
  show "\<not> upper_letter c" "lower_char c = c"
    using n by (simp_all add: upper_letter_def lower_char_def Let_def)
  show "c \<noteq> CHR ''_''" "c \<noteq> CHR ''-''" "\<not> line_end c" using n by (auto simp: line_end_def)
qed

lemma digit_case:
  assumes "is_digit c"
  shows "\<not> upper_letter c" "c \<noteq> CHR ''_''" "c \<noteq> CHR ''-''"
  using assms by (auto simp: is_digit_def upper_letter_def Let_def)

lemma snake_rest_tl: "lower_letter d \<Longrightarrow> snake_rest (d # s) \<Longrightarrow> snake_rest s"
  by (cases s) (auto simp: letter_case split: if_splits)

lemma un_camel_upper: "snake_rest s \<Longrightarrow> un_camel (upper_after_sep s) = s"
proof (induction s rule: upper_after_sep.induct)
  case (1 c d s)
  show ?case
  proof (cases "c = CHR ''_''")
    case True
    then have d: "lower_letter d" "snake_rest (d # s)" using "1.prems" by auto
    then show ?thesis
      using True "1.IH"(1) letter_case [OF d(1)] snake_rest_tl [OF d] by (simp add: un_camel_def)
  next
    case False
    then have c: "lower_letter c \<or> is_digit c" and "snake_rest (d # s)" using "1.prems" by auto
    moreover have "c \<noteq> CHR ''-''" "\<not> upper_letter c" using c letter_case digit_case by blast+
    ultimately show ?thesis using False "1.IH"(2) by (simp add: un_camel_def)
  qed
qed (use letter_case digit_case in \<open>auto simp: un_camel_def\<close>)

lemma camel_of_snake:
  assumes "snake_name s"
  shows "toCamelCase s = upper_after_sep s"
proof -
  obtain c cs where s: "s = c # cs" "lower_letter c" using assms by (auto simp: snake_name_def split: list.splits)
  then obtain r where "upper_after_sep s = c # r" using letter_case [OF s(2)] by (cases cs) auto
  then show ?thesis using letter_case [OF s(2)]
    by (simp add: toCamelCase_def toPascalCase_def upper_first_def js_lower_def)
qed

text \<open>C33. 
  Functions with different snake-case names get different methods: the name of a function can be
  read off the name of its method.
\<close>

theorem method_names_stay_apart:
  assumes "list_all snake_name names" and "distinct names"
  shows "map (un_camel \<circ> toCamelCase) names = names \<and> distinct (map toCamelCase names)"
proof -
  have "un_camel (toCamelCase s) = s" if "s \<in> set names" for s
  proof -
    have "snake_name s" using assms(1) that by (simp add: list_all_iff)
    then show ?thesis
      using un_camel_upper [of s] by (simp add: camel_of_snake) (auto simp: snake_name_def split: list.splits)
  qed
  then have read: "map (un_camel \<circ> toCamelCase) names = names" by (simp add: map_idI)
  then have "map un_camel (map toCamelCase names) = names" by simp
  then have "distinct (map toCamelCase names)" using assms(2) by (metis distinct_map)
  with read show ?thesis by simp
qed

lemma method_names_stay_apart_witness: "distinct (map toCamelCase [''total_supply'', ''total'', ''supply'', ''get_a''])"
proof -
  have "list_all snake_name [''total_supply'', ''total'', ''supply'', ''get_a'']" by code_simp
  then show ?thesis
    using method_names_stay_apart [of "[''total_supply'', ''total'', ''supply'', ''get_a'']"] by simp
qed

text \<open>Other names can meet: a digit after an underscore, or a name in camel case already.\<close>

lemma method_names_meet: "toCamelCase ''fee_2'' = toCamelCase ''fee2''" "toCamelCase ''get_fee'' = toCamelCase ''getFee''"
  by code_simp+

section \<open>What generated methods rest on\<close>

text \<open>
  The result of a query is decoded exactly for booleans, texts, 128-bit integers, \<open>u64\<close> and no
  value; a method of any other type promises a native value and returns the raw one.
\<close>

theorem decoded_result_types:
  "decodeExpr ''_result'' (snd (scSpecTypeToTs t)) = ''_result'' \<longleftrightarrow>
    t \<notin> {TyBool, TyString, TySymbol, TyI128, TyU128, TyU64, TyVoid}"
  by (cases t) (auto simp: decodeExpr_def split: prod.splits)

lemma u32_result_not_decoded:
  "fst (scSpecTypeToTs TyU32) = ''number'' \<and> decodeExpr ''_result'' (snd (scSpecTypeToTs TyU32)) = ''_result''"
  by (simp add: decodeExpr_def)

text \<open>A generated method that changes state calls \<open>this.invoke\<close>, which the base class does not have.\<close>

theorem mutating_method_calls_missing_member:
  assumes "\<not> sf_readonly fn"
  shows "str_includes (generateMethod fn) ''this.invoke('' \<and> ''invoke'' \<notin> set base_members"
proof
  show "str_includes (generateMethod fn) ''this.invoke(''"
    unfolding str_includes_iff generateMethod_def using assms
    by (intro exI [of _ "method_head fn @ ''    return ''"]
        exI [of _ "dq @ sf_name fn @ dq @ '', '' @ args_array fn @ '');'' @ nl @ ''  }'' @ nl"]) simp
qed (simp add: base_members_def)

lemma mutating_method_calls_missing_member_witness:
  "str_includes (generateMethod \<lparr>sf_name = ''pay'', sf_doc = [], sf_inputs = [], sf_outputs = [], sf_readonly = False\<rparr>)
     ''this.invoke(''"
  using mutating_method_calls_missing_member
    [of "\<lparr>sf_name = ''pay'', sf_doc = [], sf_inputs = [], sf_outputs = [], sf_readonly = False\<rparr>"] by simp

text \<open>The helpers of the base class agree with the decoder of contract values.\<close>

theorem base_decoders_agree:
  "(base_decodeU128 v = Inr n \<longleftrightarrow> (\<exists>hi lo. v = ScvU128 hi lo) \<and> decodeScVal utf8 v = Inr (NBigint n)) \<and>
   (base_decodeU64 v = Inr n \<longleftrightarrow> (\<exists>w. v = ScvU64 w) \<and> decodeScVal utf8 v = Inr (NBigint n)) \<and>
   (base_decodeBool v = Inr b \<longleftrightarrow> decodeScVal utf8 v = Inr (NBool b)) \<and>
   (base_decodeString v = Inr s \<longleftrightarrow> (\<forall>a. v \<noteq> ScvAddress a) \<and> decodeScVal utf8 v = Inr (NString s))"
proof -
  have sum: "uint lo + push_bit 64 (uint hi) = decode_u128 hi lo" for hi lo :: "64 word"
    by (simp add: u128_value push_bit_eq_mult)
  show ?thesis
    unfolding base_decodeU128_def base_decodeU64_def base_decodeBool_def base_decodeString_def
    by (cases v) (auto simp: sum split: sum.splits)
qed

end
