(* ===== verification/TxHistory.thy ===== *)
theory TxHistory
  imports Errors "HOL-Library.Multiset"
begin

text \<open>
  The transaction history (\<open>utils/transactionHistory.ts\<close>): parsing of a transaction as an
  indexer or the RPC server reports it, the filter by action and the sort by time.

  A reported transaction is an untyped value. The time of an entry is \<open>new Date(timestamp).getTime()\<close>
  and is a parameter of the sort; it stands for timestamps that are valid dates, since the order of
  others is left to the JavaScript engine. \<open>Array.prototype.sort\<close> is stable.

  The lemmas show that sorting permutes the entries into descending times and keeps the order
  of entries of one time, that filter and sort commute, that parsing returns for every value
  but \<open>null\<close> and \<open>undefined\<close> with names that are texts, and what status and action it assigns.
\<close>

datatype TransactionActionType = VaultDeposit | VaultWithdraw | ClaimRewards | UnknownAction

datatype entry_status = EntrySuccess | EntryFailed | EntryPending

record TransactionHistoryEntry =
  he_hash :: jsv
  he_timestamp :: jsv
  he_action :: TransactionActionType
  he_amount :: "int option"
  he_contractId :: jsv
  he_status :: entry_status
  he_raw :: jsv

definition js_or :: "jsv \<Rightarrow> jsv \<Rightarrow> jsv" where
  "js_or a b = (if js_truthy a then a else b)"

definition parseActionType :: "string \<Rightarrow> TransactionActionType" where
  "parseActionType method =
     (let methodLower = js_lower method in
      if str_includes methodLower ''deposit'' then VaultDeposit
      else if str_includes methodLower ''withdraw'' then VaultWithdraw
      else if str_includes methodLower ''claim'' \<and> str_includes methodLower ''reward'' then ClaimRewards
      else UnknownAction)"

definition type_error :: "string \<Rightarrow> thrown" where
  "type_error m = Raw (JErr ''TypeError'' m [])"

text \<open>The action of an operation: a name that is no text has no \<open>toLowerCase\<close>.\<close>

definition operation_action :: "jsv \<Rightarrow> thrown + TransactionActionType" where
  "operation_action oper =
     (case js_or (js_or (jget oper ''name'') (jget oper ''type'')) (JStr []) of
        JStr s \<Rightarrow> Inr (parseActionType s)
      | _ \<Rightarrow> Inl (type_error ''method.toLowerCase is not a function''))"

definition operation_amount :: "jsv \<Rightarrow> int option" where
  "operation_amount oper =
     (case jget oper ''args'' of
        JArr (JBig n # _) \<Rightarrow> Some n
      | JArr (JNum n # _) \<Rightarrow> Some n
      | _ \<Rightarrow> None)"

definition operation_contract :: "jsv \<Rightarrow> jsv" where
  "operation_contract oper = js_or (jget oper ''contract_id'') (jget oper ''contractId'')"

text \<open>The first operation, if the transaction has any and it is not falsy.\<close>

definition first_operation :: "jsv \<Rightarrow> jsv option" where
  "first_operation tx =
     (case jget tx ''operations'' of
        JArr (oper # _) \<Rightarrow> (if js_truthy oper then Some oper else None)
      | _ \<Rightarrow> None)"

definition parse_status :: "jsv \<Rightarrow> entry_status" where
  "parse_status tx =
     (if js_truthy (jget tx ''successful'') then EntrySuccess
      else if jget tx ''status'' = JStr ''NOT_FOUND'' then EntryPending else EntryFailed)"

definition parseTransaction :: "string \<Rightarrow> jsv \<Rightarrow> thrown + TransactionHistoryEntry" where
  "parseTransaction now tx =
     (if is_nullish tx then Inl (type_error (''Cannot read properties of '' @ js_String tx @ '' (reading 'hash')'')) else
      let hash = js_or (js_or (jget tx ''hash'') (jget tx ''id'')) (JStr []);
          timestamp = js_or (jget tx ''created_at'') (JStr now)
      in case first_operation tx of
           None \<Rightarrow> Inr \<lparr>he_hash = hash, he_timestamp = timestamp, he_action = UnknownAction, he_amount = None,
             he_contractId = JUndef, he_status = parse_status tx, he_raw = tx\<rparr>
         | Some oper \<Rightarrow>
             (case operation_action oper of
                Inl e \<Rightarrow> Inl e
              | Inr action \<Rightarrow> Inr \<lparr>he_hash = hash, he_timestamp = timestamp, he_action = action,
                  he_amount = operation_amount oper, he_contractId = operation_contract oper,
                  he_status = parse_status tx, he_raw = tx\<rparr>))"

definition filterByActionType ::
    "TransactionHistoryEntry list \<Rightarrow> TransactionActionType \<Rightarrow> TransactionHistoryEntry list" where
  "filterByActionType transactions actionType =
     (if actionType = UnknownAction then transactions
      else filter (\<lambda>tx. he_action tx = actionType) transactions)"

definition sortByTimestamp :: "(jsv \<Rightarrow> int) \<Rightarrow> TransactionHistoryEntry list \<Rightarrow> TransactionHistoryEntry list" where
  "sortByTimestamp time transactions = sort_key (\<lambda>tx. - time (he_timestamp tx)) transactions"

section \<open>Order and contents of a history\<close>

text \<open>
  Sorting keeps the entries and how often each occurs, orders them by descending time, and leaves
  the entries of one time in the order they had.
\<close>

theorem history_sorted:
  "mset (sortByTimestamp time txs) = mset txs \<and>
   sorted_wrt (\<lambda>a b. time (he_timestamp b) \<le> time (he_timestamp a)) (sortByTimestamp time txs) \<and>
   filter (\<lambda>tx. time (he_timestamp tx) = t) (sortByTimestamp time txs) =
     filter (\<lambda>tx. time (he_timestamp tx) = t) txs"
proof (intro conjI)
  show "mset (sortByTimestamp time txs) = mset txs" by (simp add: sortByTimestamp_def)
  have "sorted (map (\<lambda>tx. - time (he_timestamp tx)) (sortByTimestamp time txs))"
    by (simp add: sortByTimestamp_def)
  then show "sorted_wrt (\<lambda>a b. time (he_timestamp b) \<le> time (he_timestamp a)) (sortByTimestamp time txs)"
    by (simp add: sorted_map)
  have "filter (\<lambda>tx. - time (he_timestamp tx) = - t) (sortByTimestamp time txs) =
      filter (\<lambda>tx. - time (he_timestamp tx) = - t) txs"
    unfolding sortByTimestamp_def by (rule sort_key_stable)
  then show "filter (\<lambda>tx. time (he_timestamp tx) = t) (sortByTimestamp time txs) =
      filter (\<lambda>tx. time (he_timestamp tx) = t) txs" by simp
qed

lemma sort_filter_commute:
  "sortByTimestamp time (filterByActionType txs a) = filterByActionType (sortByTimestamp time txs) a"
  by (simp add: sortByTimestamp_def filterByActionType_def filter_sort)

lemma sort_idempotent: "sortByTimestamp time (sortByTimestamp time txs) = sortByTimestamp time txs"
  by (simp add: sortByTimestamp_def sort_key_id_if_sorted)

text \<open>The filter of unknown actions keeps every entry.\<close>

lemma unknown_filter_keeps_all: "filterByActionType txs UnknownAction = txs"
  by (simp add: filterByActionType_def)

section \<open>What parsing assigns\<close>

text \<open>
  Parsing raises exactly for no value at all and for a first operation whose name or type is no
  text; otherwise it keeps the value, reports success exactly for a truthy \<open>successful\<close>, and an
  action only of the first operation.
\<close>

definition named_by_text :: "jsv \<Rightarrow> bool" where
  "named_by_text oper \<longleftrightarrow>
     (case js_or (js_or (jget oper ''name'') (jget oper ''type'')) (JStr []) of JStr _ \<Rightarrow> True | _ \<Rightarrow> False)"

lemma operation_action_named: "(\<exists>a. operation_action oper = Inr a) \<longleftrightarrow> named_by_text oper"
  by (cases "js_or (js_or (jget oper ''name'') (jget oper ''type'')) (JStr [])")
    (simp_all add: operation_action_def named_by_text_def)

theorem parse_transaction_total:
  "case parseTransaction now tx of
     Inl _ \<Rightarrow> is_nullish tx \<or> (\<exists>oper. first_operation tx = Some oper \<and> \<not> named_by_text oper)
   | Inr e \<Rightarrow> he_raw e = tx \<and> (he_status e = EntrySuccess) = js_truthy (jget tx ''successful'') \<and>
       (first_operation tx = None \<longrightarrow> he_action e = UnknownAction \<and> he_amount e = None)"
proof (cases "first_operation tx")
  case None
  then show ?thesis by (simp add: parseTransaction_def Let_def parse_status_def)
next
  case (Some oper)
  show ?thesis
  proof (cases "operation_action oper")
    case (Inl e)
    then have "\<not> named_by_text oper" using operation_action_named [of oper] by auto
    then show ?thesis using Some Inl by (simp add: parseTransaction_def Let_def)
  next
    case (Inr a)
    then show ?thesis using Some by (simp add: parseTransaction_def Let_def parse_status_def)
  qed
qed

lemma parse_transaction_total_witness:
  "he_status (projr (parseTransaction ''now'' (JObj [(''successful'', JBool True)]))) = EntrySuccess"
  using parse_transaction_total [where now = "''now''" and tx = "JObj [(''successful'', JBool True)]"]
  by (simp add: parseTransaction_def Let_def first_operation_def is_nullish_def jget_def jprop_def parse_status_def)

text \<open>A transaction that the RPC server reports as successful, by its status alone, counts as failed.\<close>

lemma rpc_success_reported_failed:
  "parse_status (JObj [(''status'', JStr ''SUCCESS'')]) = EntryFailed"
  by (simp add: parse_status_def jget_def jprop_def)

text \<open>A name that holds both words is a deposit: \<open>withdraw\<close> is looked for afterwards.\<close>

lemma deposit_wins: "parseActionType ''withdraw_deposit'' = VaultDeposit"
  by code_simp

end
