(* ===== verification/CloudWatch.thy ===== *)
theory CloudWatch
  imports Errors "HOL-Library.Multiset"
begin

text \<open>
  The CloudWatch sink of the logger (\<open>utils/logging/cloudwatch/cloudWatchLogger.ts\<close>): lazy
  initialization, batches, retries with backoff and destruction, as a machine over the events of
  the event loop.

  An asynchronous method is cut at its \<open>await\<close>s. A call of \<open>log\<close> that has to initialize waits for
  the import of the client and then for the log group and stream; a flush in flight waits for
  \<open>send\<close> or for its backoff timer. Calls under way stay in the state as tasks with a final phase.
  The client of the AWS SDK is outside; what it answers comes with the events. The fields
  \<open>cw_pushed\<close> and \<open>cw_delivered\<close> record what was accepted into the queue and what the service took.

  The lemmas show that no accepted entry is lost or sent twice, that a batch is tried at most
  \<open>maxRetries\<close> times, that entries arrive in order while flushes do not overlap, and that
  destroying the logger leaves all but one batch undelivered.
\<close>

record LogEntry =
  le_timestamp :: int
  le_message :: string
  le_level :: string
  le_metadata :: jsv

record CloudWatchConfig =
  cwc_batchSize :: nat
  cwc_flushIntervalMs :: nat
  cwc_maxRetries :: nat

text \<open>\<open>config.batchSize || 100\<close> and so on: zero counts as missing.\<close>

definition or_nat :: "nat option \<Rightarrow> nat \<Rightarrow> nat" where
  "or_nat x d = (case x of None \<Rightarrow> d | Some n \<Rightarrow> if n = 0 then d else n)"

definition resolve_cw_config :: "nat option \<Rightarrow> nat option \<Rightarrow> nat option \<Rightarrow> CloudWatchConfig" where
  "resolve_cw_config batchSize flushIntervalMs maxRetries =
     \<lparr>cwc_batchSize = or_nat batchSize 100, cwc_flushIntervalMs = or_nat flushIntervalMs 5000,
      cwc_maxRetries = or_nat maxRetries 3\<rparr>"

datatype init_phase = Importing | Ensuring | Skipping | InitDone

datatype flight_phase = Sending | BackingOff nat | FlightDone

record flight =
  fl_batch :: "LogEntry list"
  fl_token :: "string option"
  fl_attempt :: nat
  fl_phase :: flight_phase
  fl_destroy :: bool

record CloudWatchLogger =
  cw_client :: bool
  cw_queue :: "LogEntry list"
  cw_timer :: bool
  cw_token :: "string option"
  cw_initialized :: bool
  cw_destroyed :: bool
  cw_inits :: "(init_phase \<times> LogEntry) list"
  cw_flights :: "flight list"
  cw_pushed :: "LogEntry list"
  cw_delivered :: "LogEntry list"

definition newCloudWatchLogger :: CloudWatchLogger where
  "newCloudWatchLogger = \<lparr>cw_client = False, cw_queue = [], cw_timer = False, cw_token = None,
     cw_initialized = False, cw_destroyed = False, cw_inits = [], cw_flights = [], cw_pushed = [],
     cw_delivered = []\<rparr>"

definition cw_flush :: "CloudWatchConfig \<Rightarrow> bool \<Rightarrow> CloudWatchLogger \<Rightarrow> CloudWatchLogger" where
  "cw_flush c destroying s =
     (if \<not> cw_client s \<or> cw_queue s = [] then s
      else s\<lparr>cw_queue := drop (cwc_batchSize c) (cw_queue s),
             cw_flights := cw_flights s @ [\<lparr>fl_batch = take (cwc_batchSize c) (cw_queue s),
               fl_token = cw_token s, fl_attempt = 1, fl_phase = Sending, fl_destroy = destroying\<rparr>]\<rparr>)"

text \<open>The rest of \<open>log\<close> once initialization is settled.\<close>

definition cw_push :: "CloudWatchConfig \<Rightarrow> LogEntry \<Rightarrow> CloudWatchLogger \<Rightarrow> CloudWatchLogger" where
  "cw_push c entry s =
     (let s' = s\<lparr>cw_queue := cw_queue s @ [entry], cw_pushed := cw_pushed s @ [entry]\<rparr>
      in if cwc_batchSize c \<le> length (cw_queue s') then cw_flush c False s' else s')"

definition cw_log :: "CloudWatchConfig \<Rightarrow> LogEntry \<Rightarrow> CloudWatchLogger \<Rightarrow> CloudWatchLogger" where
  "cw_log c entry s =
     (if cw_initialized s then cw_push c entry s
      else s\<lparr>cw_inits := cw_inits s @ [(if cw_destroyed s then Skipping else Importing, entry)]\<rparr>)"

text \<open>
  How a step of an initialization ends: the import gives a client, the group and stream exist, or
  one of them raises, which makes \<open>log\<close> raise and forget its entry.
\<close>

definition cw_init_step :: "CloudWatchConfig \<Rightarrow> nat \<Rightarrow> bool \<Rightarrow> CloudWatchLogger \<Rightarrow> CloudWatchLogger" where
  "cw_init_step c i ok s =
     (if i < length (cw_inits s) then
        (case cw_inits s ! i of (phase, entry) \<Rightarrow>
           let close = s\<lparr>cw_inits := (cw_inits s)[i := (InitDone, entry)]\<rparr> in
           (case phase of
              Importing \<Rightarrow> if ok then s\<lparr>cw_inits := (cw_inits s)[i := (Ensuring, entry)], cw_client := True\<rparr> else close
            | Ensuring \<Rightarrow> if ok then cw_push c entry (close\<lparr>cw_timer := True, cw_initialized := True\<rparr>) else close
            | Skipping \<Rightarrow> cw_push c entry close
            | InitDone \<Rightarrow> s))
      else s)"

definition cw_destroy :: "CloudWatchConfig \<Rightarrow> CloudWatchLogger \<Rightarrow> CloudWatchLogger" where
  "cw_destroy c s =
     (let s' = s\<lparr>cw_destroyed := True, cw_timer := False\<rparr> in
      if \<not> cw_client s' \<or> cw_queue s' = [] then s'\<lparr>cw_client := False\<rparr> else cw_flush c True s')"

text \<open>The end of a flush: \<open>destroy\<close> goes on and drops the client.\<close>

definition cw_end_flight :: "nat \<Rightarrow> CloudWatchLogger \<Rightarrow> CloudWatchLogger" where
  "cw_end_flight i s =
     (let f = cw_flights s ! i in
      s\<lparr>cw_flights := (cw_flights s)[i := f\<lparr>fl_phase := FlightDone\<rparr>],
        cw_client := cw_client s \<and> \<not> fl_destroy f\<rparr>)"

definition cw_give_up :: "nat \<Rightarrow> CloudWatchLogger \<Rightarrow> CloudWatchLogger" where
  "cw_give_up i s = cw_end_flight i (s\<lparr>cw_queue := fl_batch (cw_flights s ! i) @ cw_queue s\<rparr>)"

definition cw_backoff :: "nat \<Rightarrow> nat" where
  "cw_backoff attempt = min (1000 * 2 ^ (attempt - 1)) 10000"

text \<open>
  How \<open>send\<close> fails: with an invalid sequence token the latest one is looked up, which may raise or
  find none; any other error is retried as it is.
\<close>

datatype send_failure = OtherFailure | InvalidToken "string option" | LookupFailed

definition cw_send_failed :: "CloudWatchConfig \<Rightarrow> nat \<Rightarrow> send_failure \<Rightarrow> CloudWatchLogger \<Rightarrow> CloudWatchLogger" where
  "cw_send_failed c i err s =
     (let f = cw_flights s ! i;
          wait = f\<lparr>fl_phase := BackingOff (cw_backoff (fl_attempt f))\<rparr>
      in if cwc_maxRetries c \<le> fl_attempt f then cw_give_up i s
         else (case err of
                 LookupFailed \<Rightarrow> cw_give_up i s
               | InvalidToken (Some t) \<Rightarrow> s\<lparr>cw_flights := (cw_flights s)[i := wait\<lparr>fl_token := Some t\<rparr>]\<rparr>
               | _ \<Rightarrow> s\<lparr>cw_flights := (cw_flights s)[i := wait]\<rparr>))"

definition cw_sent :: "nat \<Rightarrow> string option \<Rightarrow> CloudWatchLogger \<Rightarrow> CloudWatchLogger" where
  "cw_sent i nextToken s =
     cw_end_flight i (s\<lparr>cw_delivered := cw_delivered s @ fl_batch (cw_flights s ! i),
       cw_token := (case nextToken of None \<Rightarrow> cw_token s | Some t \<Rightarrow> Some t)\<rparr>)"

datatype cw_event =
    CwLog LogEntry
  | CwInit nat bool
  | CwTick
  | CwFlush
  | CwSent nat "string option"
  | CwFailed nat send_failure
  | CwRetry nat
  | CwDestroy

definition in_phase :: "CloudWatchLogger \<Rightarrow> nat \<Rightarrow> (flight_phase \<Rightarrow> bool) \<Rightarrow> bool" where
  "in_phase s i P \<longleftrightarrow> i < length (cw_flights s) \<and> P (fl_phase (cw_flights s ! i))"

definition is_backing_off :: "flight_phase \<Rightarrow> bool" where
  "is_backing_off ph = (case ph of BackingOff _ \<Rightarrow> True | _ \<Rightarrow> False)"

fun cw_step :: "CloudWatchConfig \<Rightarrow> CloudWatchLogger \<Rightarrow> cw_event \<Rightarrow> CloudWatchLogger" where
  "cw_step c s (CwLog entry) = cw_log c entry s"
| "cw_step c s (CwInit i ok) = cw_init_step c i ok s"
| "cw_step c s CwTick = (if cw_timer s then cw_flush c False s else s)"
| "cw_step c s CwFlush = cw_flush c False s"
| "cw_step c s (CwSent i t) = (if in_phase s i ((=) Sending) then cw_sent i t s else s)"
| "cw_step c s (CwFailed i err) = (if in_phase s i ((=) Sending) then cw_send_failed c i err s else s)"
| "cw_step c s (CwRetry i) =
     (if in_phase s i is_backing_off
      then s\<lparr>cw_flights := (cw_flights s)[i := (cw_flights s ! i)\<lparr>fl_attempt := fl_attempt (cw_flights s ! i) + 1,
             fl_phase := Sending\<rparr>]\<rparr>
      else s)"
| "cw_step c s CwDestroy = cw_destroy c s"

text \<open>The backoff is the shared one, from one second up to ten.\<close>

interpretation cw_delays: exp_backoff "\<lambda>n. cw_backoff (Suc n)" 1000 10000
  by unfold_locales (simp add: cw_backoff_def)

section \<open>Every accepted entry is in one place\<close>

definition pending :: "flight \<Rightarrow> LogEntry list" where
  "pending f = (if fl_phase f = FlightDone then [] else fl_batch f)"

definition in_flight :: "CloudWatchLogger \<Rightarrow> LogEntry list" where
  "in_flight s = concat (map pending (cw_flights s))"

definition flight_ok :: "CloudWatchConfig \<Rightarrow> flight \<Rightarrow> bool" where
  "flight_ok c f \<longleftrightarrow> 1 \<le> fl_attempt f \<and> fl_attempt f \<le> cwc_maxRetries c \<and>
     length (fl_batch f) \<le> cwc_batchSize c \<and> fl_batch f \<noteq> [] \<and>
     (is_backing_off (fl_phase f) \<longrightarrow> fl_attempt f < cwc_maxRetries c)"

definition balanced_log :: "CloudWatchLogger \<Rightarrow> bool" where
  "balanced_log s \<longleftrightarrow> mset (cw_pushed s) = mset (cw_queue s) + mset (in_flight s) + mset (cw_delivered s)"

definition cw_inv :: "CloudWatchConfig \<Rightarrow> CloudWatchLogger \<Rightarrow> bool" where
  "cw_inv c s \<longleftrightarrow> balanced_log s \<and> list_all (flight_ok c) (cw_flights s)"

lemma concat_update:
  assumes "i < length fs"
  shows "mset (concat (map g (fs[i := f]))) + mset (g (fs ! i)) = mset (concat (map g fs)) + mset (g f)"
proof -
  have "mset (concat (map g fs)) = mset (concat (map g (take i fs @ fs ! i # drop (Suc i) fs)))"
    using id_take_nth_drop [OF assms] by simp
  then show ?thesis using assms by (simp add: upd_conv_take_nth_drop)
qed

lemma list_all_update: "list_all P xs \<Longrightarrow> P y \<Longrightarrow> list_all P (xs[i := y])"
  using set_update_subset_insert [of xs i y] by (auto simp: list_all_iff)

lemma flush_inv:
  assumes "cw_inv c s" and "0 < cwc_batchSize c" and "0 < cwc_maxRetries c"
  shows "cw_inv c (cw_flush c d s)"
proof (cases "\<not> cw_client s \<or> cw_queue s = []")
  case True
  then show ?thesis using assms(1) by (simp add: cw_flush_def)
next
  case False
  have "mset (take n q) + mset (drop n q) = mset q" for n and q :: "LogEntry list"
    by (metis append_take_drop_id mset_append)
  then show ?thesis
    using False assms
    by (simp add: cw_flush_def cw_inv_def balanced_log_def in_flight_def pending_def flight_ok_def
        is_backing_off_def ac_simps)
qed

lemma push_inv:
  assumes "cw_inv c s" and "0 < cwc_batchSize c" and "0 < cwc_maxRetries c"
  shows "cw_inv c (cw_push c e s)"
proof -
  have "cw_inv c (s\<lparr>cw_queue := cw_queue s @ [e], cw_pushed := cw_pushed s @ [e]\<rparr>)"
    using assms(1) by (simp add: cw_inv_def balanced_log_def in_flight_def)
  then show ?thesis using flush_inv [OF _ assms(2,3)] by (simp add: cw_push_def Let_def)
qed

text \<open>Fields that no entry passes through.\<close>

lemma inv_frame:
  "cw_queue s' = cw_queue s \<Longrightarrow> cw_flights s' = cw_flights s \<Longrightarrow> cw_pushed s' = cw_pushed s \<Longrightarrow>
    cw_delivered s' = cw_delivered s \<Longrightarrow> cw_inv c s \<Longrightarrow> cw_inv c s'"
  by (simp add: cw_inv_def balanced_log_def in_flight_def)

lemma flight_change_inv:
  assumes "cw_inv c s" and "i < length (cw_flights s)" and "flight_ok c f"
    and "fl_batch f = fl_batch (cw_flights s ! i)" and "fl_phase f \<noteq> FlightDone"
    and "fl_phase (cw_flights s ! i) \<noteq> FlightDone"
  shows "cw_inv c (s\<lparr>cw_flights := (cw_flights s)[i := f]\<rparr>)"
proof -
  have "mset (concat (map pending ((cw_flights s)[i := f]))) = mset (concat (map pending (cw_flights s)))"
    using concat_update [OF assms(2), of pending f] assms(4-6) by (simp add: pending_def)
  then show ?thesis
    using assms(1,3) by (simp add: cw_inv_def balanced_log_def in_flight_def list_all_update)
qed

lemma end_flight_inv:
  assumes "list_all (flight_ok c) (cw_flights s)" and "i < length (cw_flights s)"
    and "fl_phase (cw_flights s ! i) \<noteq> FlightDone"
    and "mset (cw_pushed s) + mset (fl_batch (cw_flights s ! i)) =
      mset (cw_queue s) + mset (in_flight s) + mset (cw_delivered s)"
  shows "cw_inv c (cw_end_flight i s)"
proof -
  let ?f = "cw_flights s ! i"
  have "flight_ok c ?f" using assms(1,2) by (simp add: list_all_iff)
  then have "flight_ok c (?f\<lparr>fl_phase := FlightDone\<rparr>)" by (simp add: flight_ok_def is_backing_off_def)
  moreover have "mset (concat (map pending ((cw_flights s)[i := ?f\<lparr>fl_phase := FlightDone\<rparr>]))) +
      mset (fl_batch ?f) = mset (in_flight s)"
    using concat_update [OF assms(2), of pending "?f\<lparr>fl_phase := FlightDone\<rparr>"] assms(3)
    by (simp add: pending_def in_flight_def)
  then have "mset (cw_pushed s) + mset (fl_batch ?f) = mset (cw_queue s) +
      (mset (concat (map pending ((cw_flights s)[i := ?f\<lparr>fl_phase := FlightDone\<rparr>]))) + mset (fl_batch ?f)) +
      mset (cw_delivered s)" using assms(4) by simp
  ultimately show ?thesis
    using assms(1) by (simp add: cw_end_flight_def Let_def cw_inv_def balanced_log_def in_flight_def
        list_all_update ac_simps)
qed

lemma in_phase_open:
  "in_phase s i ((=) Sending) \<Longrightarrow> i < length (cw_flights s) \<and> fl_phase (cw_flights s ! i) = Sending"
  "in_phase s i is_backing_off \<Longrightarrow> i < length (cw_flights s) \<and> is_backing_off (fl_phase (cw_flights s ! i))"
  by (auto simp: in_phase_def)

lemma give_up_inv:
  assumes "cw_inv c s" and "i < length (cw_flights s)" and "fl_phase (cw_flights s ! i) \<noteq> FlightDone"
  shows "cw_inv c (cw_give_up i s)"
  unfolding cw_give_up_def using assms
  by (intro end_flight_inv) (simp_all add: cw_inv_def balanced_log_def in_flight_def)

lemma cw_step_inv:
  assumes "cw_inv c s" and "0 < cwc_batchSize c" and "0 < cwc_maxRetries c"
  shows "cw_inv c (cw_step c s ev)"
proof (cases ev)
  case (CwLog e)
  then show ?thesis
    using push_inv [OF assms] inv_frame [OF _ _ _ _ assms(1)] by (simp add: cw_log_def)
next
  case (CwInit i ok)
  show ?thesis
  proof (cases "i < length (cw_inits s)")
    case True
    obtain ph e where pe: "cw_inits s ! i = (ph, e)" by fastforce
    have "cw_inv c (s\<lparr>cw_inits := X\<rparr>)" "cw_inv c (s\<lparr>cw_inits := X, cw_client := True\<rparr>)"
      "cw_inv c (s\<lparr>cw_inits := X, cw_timer := True, cw_initialized := True\<rparr>)" for X
      by (rule inv_frame [OF _ _ _ _ assms(1)]; simp)+
    then show ?thesis using CwInit True pe push_inv [OF _ assms(2,3)] assms(1)
      by (cases ph) (simp_all add: cw_init_step_def Let_def)
  qed (simp add: CwInit cw_init_step_def assms(1))
next
  case (CwSent i t)
  show ?thesis
  proof (cases "in_phase s i ((=) Sending)")
    case True
    then have o: "i < length (cw_flights s)" "fl_phase (cw_flights s ! i) \<noteq> FlightDone"
      using in_phase_open(1) [OF True] by simp_all
    have "cw_inv c (cw_sent i t s)"
      unfolding cw_sent_def using assms(1) o
      by (intro end_flight_inv) (simp_all add: cw_inv_def balanced_log_def in_flight_def)
    then show ?thesis using True CwSent by simp
  qed (simp add: CwSent assms(1))
next
  case (CwFailed i err)
  show ?thesis
  proof (cases "in_phase s i ((=) Sending)")
    case True
    let ?f = "cw_flights s ! i"
    have o: "i < length (cw_flights s)" "fl_phase ?f \<noteq> FlightDone" using in_phase_open(1) [OF True] by simp_all
    have ok: "flight_ok c ?f" using assms(1) o(1) by (simp add: cw_inv_def list_all_iff)
    show ?thesis
    proof (cases "cwc_maxRetries c \<le> fl_attempt ?f")
      case False
      then have "flight_ok c (?f\<lparr>fl_phase := BackingOff n\<rparr>)" "flight_ok c (?f\<lparr>fl_phase := BackingOff n, fl_token := t\<rparr>)" for n t
        using ok by (simp_all add: flight_ok_def)
      then show ?thesis
        using True CwFailed False give_up_inv [OF assms(1) o] flight_change_inv [OF assms(1) o(1) _ _ _ o(2)]
        by (simp add: cw_send_failed_def Let_def split: send_failure.split option.split)
    qed (use True CwFailed give_up_inv [OF assms(1) o] in \<open>simp add: cw_send_failed_def Let_def\<close>)
  qed (simp add: CwFailed assms(1))
next
  case (CwRetry i)
  show ?thesis
  proof (cases "in_phase s i is_backing_off")
    case True
    let ?f = "cw_flights s ! i"
    have o: "i < length (cw_flights s)" "is_backing_off (fl_phase ?f)" using in_phase_open(2) [OF True] by simp_all
    then have "fl_phase ?f \<noteq> FlightDone" by (auto simp: is_backing_off_def)
    moreover have "flight_ok c ?f" using assms(1) o(1) by (simp add: cw_inv_def list_all_iff)
    then have "flight_ok c (?f\<lparr>fl_attempt := fl_attempt ?f + 1, fl_phase := Sending\<rparr>)"
      using o(2) by (simp add: flight_ok_def is_backing_off_def)
    ultimately show ?thesis
      using True CwRetry flight_change_inv [OF assms(1) o(1)] by simp
  qed (simp add: CwRetry assms(1))
next
  case CwDestroy
  have "cw_inv c (s\<lparr>cw_destroyed := True, cw_timer := False\<rparr>)"
    "cw_inv c (s\<lparr>cw_destroyed := True, cw_timer := False, cw_client := False\<rparr>)"
    by (rule inv_frame [OF _ _ _ _ assms(1)]; simp)+
  then show ?thesis using CwDestroy flush_inv [OF _ assms(2,3)] by (simp add: cw_destroy_def Let_def)
qed (use flush_inv [OF assms] assms(1) in simp_all)

interpretation cloudwatch: invariant_machine "cw_inv (resolve_cw_config b f m)"
  "cw_step (resolve_cw_config b f m)" newCloudWatchLogger for b f m
proof
  show "cw_inv (resolve_cw_config b f m) newCloudWatchLogger"
    by (simp add: cw_inv_def balanced_log_def in_flight_def newCloudWatchLogger_def)
  show "cw_inv (resolve_cw_config b f m) s \<Longrightarrow> cw_inv (resolve_cw_config b f m) (cw_step (resolve_cw_config b f m) s ev)"
    for s ev
    by (rule cw_step_inv) (simp_all add: resolve_cw_config_def or_nat_def split: option.split)
qed

text \<open>C27. 
  Whatever is logged, sent, refused, retried, flushed and destroyed in any order, each accepted
  entry is in the queue, in one batch under way or delivered once, and no batch is
  larger than the configured size or sent more often than the configured number of times.
\<close>

theorem no_entry_lost:
  assumes "s = foldl (cw_step (resolve_cw_config b f m)) newCloudWatchLogger evs"
  shows "mset (cw_pushed s) = mset (cw_queue s) + mset (in_flight s) + mset (cw_delivered s) \<and>
    (\<forall>fl \<in> set (cw_flights s). length (fl_batch fl) \<le> or_nat b 100 \<and> fl_attempt fl \<le> or_nat m 3)"
  using cloudwatch.inv_run [of b f m evs] assms
  by (simp add: cw_inv_def balanced_log_def list_all_iff flight_ok_def resolve_cw_config_def)

definition demo_entry :: "string \<Rightarrow> LogEntry" where
  "demo_entry msg = \<lparr>le_timestamp = 0, le_message = msg, le_level = ''INFO'', le_metadata = JUndef\<rparr>"

definition demo_log :: "cw_event list" where
  "demo_log = [CwLog (demo_entry ''a''), CwInit 0 True, CwInit 0 True, CwLog (demo_entry ''b''),
     CwFailed 0 OtherFailure, CwLog (demo_entry ''c''), CwRetry 0]"

lemma no_entry_lost_witness:
  "mset (cw_pushed (foldl (cw_step (resolve_cw_config (Some 2) None None)) newCloudWatchLogger demo_log)) =
     {#demo_entry ''a'', demo_entry ''b'', demo_entry ''c''#}"
  using no_entry_lost [OF refl, of "Some 2" None None demo_log]
  by (simp add: demo_log_def newCloudWatchLogger_def cw_log_def cw_init_step_def cw_push_def cw_flush_def
      cw_send_failed_def in_phase_def is_backing_off_def resolve_cw_config_def or_nat_def Let_def)

section \<open>Order of delivery\<close>

definition open_flight :: "flight \<Rightarrow> bool" where
  "open_flight f \<longleftrightarrow> fl_phase f \<noteq> FlightDone"

definition calm :: "CloudWatchLogger \<Rightarrow> bool" where
  "calm s \<longleftrightarrow> length (filter open_flight (cw_flights s)) \<le> 1"

fun calm_run :: "CloudWatchConfig \<Rightarrow> CloudWatchLogger \<Rightarrow> cw_event list \<Rightarrow> bool" where
  "calm_run c s [] = calm s"
| "calm_run c s (ev # evs) = (calm s \<and> calm_run c (cw_step c s ev) evs)"

definition in_order :: "CloudWatchLogger \<Rightarrow> bool" where
  "in_order s \<longleftrightarrow> cw_pushed s = cw_delivered s @ in_flight s @ cw_queue s"

lemma no_open_flight: "filter open_flight fs = [] \<Longrightarrow> concat (map pending fs) = []"
  by (auto simp: filter_empty_conv open_flight_def pending_def)

lemma only_open_flight:
  assumes "i < length fs" and "open_flight (fs ! i)" and "length (filter open_flight fs) \<le> 1"
  shows "concat (map pending (fs[i := f])) = pending f"
proof -
  have "filter open_flight fs = filter open_flight (take i fs) @ fs ! i # filter open_flight (drop (Suc i) fs)"
    using id_take_nth_drop [OF assms(1)] assms(2) by (metis filter.simps(2) filter_append)
  then have "filter open_flight (take i fs) = []" "filter open_flight (drop (Suc i) fs) = []"
    using assms(3) by auto
  from this [THEN no_open_flight] show ?thesis
    using assms(1) by (simp only: upd_conv_take_nth_drop map_append concat_append list.map concat.simps) simp
qed

lemma only_open_batch:
  assumes "i < length (cw_flights s)" and "fl_phase (cw_flights s ! i) \<noteq> FlightDone" and "calm s"
  shows "in_flight s = fl_batch (cw_flights s ! i)"
  using only_open_flight [of i "cw_flights s" "cw_flights s ! i"] assms
  by (simp add: open_flight_def calm_def in_flight_def pending_def)

lemma order_frame:
  "cw_queue s' = cw_queue s \<Longrightarrow> cw_flights s' = cw_flights s \<Longrightarrow> cw_pushed s' = cw_pushed s \<Longrightarrow>
    cw_delivered s' = cw_delivered s \<Longrightarrow> in_order s \<Longrightarrow> in_order s'"
  by (simp add: in_order_def in_flight_def)

lemma flush_order: "in_order s \<Longrightarrow> calm (cw_flush c d s) \<Longrightarrow> in_order (cw_flush c d s)"
  using no_open_flight [of "cw_flights s"]
  by (auto simp: cw_flush_def in_order_def in_flight_def calm_def open_flight_def pending_def split: if_splits)

lemma push_order: "in_order s \<Longrightarrow> calm (cw_push c e s) \<Longrightarrow> in_order (cw_push c e s)"
  using flush_order [of "s\<lparr>cw_queue := cw_queue s @ [e], cw_pushed := cw_pushed s @ [e]\<rparr>" c False]
  by (auto simp: cw_push_def Let_def in_order_def in_flight_def split: if_splits)

lemma flight_order:
  assumes "in_order s" and "calm s" and "i < length (cw_flights s)" and "fl_phase (cw_flights s ! i) \<noteq> FlightDone"
  shows "pending f = fl_batch (cw_flights s ! i) \<Longrightarrow> in_order (s\<lparr>cw_flights := (cw_flights s)[i := f]\<rparr>)"
    and "in_order (cw_sent i t s)" and "in_order (cw_give_up i s)"
proof -
  let ?b = "fl_batch (cw_flights s ! i)"
  have now: "cw_pushed s = cw_delivered s @ ?b @ cw_queue s"
    using assms only_open_batch [OF assms(3,4,2)] by (simp add: in_order_def)
  have upd: "concat (map pending ((cw_flights s)[i := f])) = pending f" for f
    using only_open_flight [OF assms(3), of f] assms(2,4) by (simp add: open_flight_def calm_def)
  show "in_order (s\<lparr>cw_flights := (cw_flights s)[i := f]\<rparr>)" if "pending f = ?b"
    using now that by (simp add: in_order_def in_flight_def upd)
  show "in_order (cw_sent i t s)" "in_order (cw_give_up i s)"
    using now
    by (simp_all add: cw_sent_def cw_give_up_def cw_end_flight_def Let_def in_order_def in_flight_def upd pending_def)
qed

lemma cw_step_order:
  assumes "in_order s" and "calm s" and "calm (cw_step c s ev)"
  shows "in_order (cw_step c s ev)"
proof (cases ev)
  case (CwLog e)
  show ?thesis
  proof (cases "cw_initialized s")
    case True
    then show ?thesis using CwLog assms(3) push_order [OF assms(1)] by (simp add: cw_log_def)
  next
    case False
    then show ?thesis using CwLog order_frame [OF _ _ _ _ assms(1)] by (simp add: cw_log_def)
  qed
next
  case (CwInit i ok)
  show ?thesis
  proof (cases "i < length (cw_inits s)")
    case True
    obtain ph e where pe: "cw_inits s ! i = (ph, e)" by fastforce
    have "in_order (s\<lparr>cw_inits := X\<rparr>)" "in_order (s\<lparr>cw_inits := X, cw_client := True\<rparr>)"
      "in_order (s\<lparr>cw_inits := X, cw_timer := True, cw_initialized := True\<rparr>)" for X
      by (rule order_frame [OF _ _ _ _ assms(1)]; simp)+
    then show ?thesis using CwInit True pe assms(3) push_order assms(1)
      by (cases ph) (simp_all add: cw_init_step_def Let_def split: if_splits)
  qed (simp add: CwInit cw_init_step_def assms(1))
next
  case (CwSent i t)
  then show ?thesis
    using assms(1) flight_order(2) [OF assms(1,2)] in_phase_open(1) [of s i] by simp
next
  case (CwFailed i err)
  show ?thesis
  proof (cases "in_phase s i ((=) Sending)")
    case True
    have o: "i < length (cw_flights s)" "fl_phase (cw_flights s ! i) \<noteq> FlightDone"
      using in_phase_open(1) [OF True] by simp_all
    show ?thesis
      using CwFailed True flight_order [OF assms(1,2) o]
      by (simp add: cw_send_failed_def Let_def pending_def split: send_failure.split option.split)
  qed (simp add: CwFailed assms(1))
next
  case (CwRetry i)
  show ?thesis
  proof (cases "in_phase s i is_backing_off")
    case True
    have o: "i < length (cw_flights s)" "fl_phase (cw_flights s ! i) \<noteq> FlightDone"
      using in_phase_open(2) [OF True] by (auto simp: is_backing_off_def)
    show ?thesis using CwRetry True flight_order(1) [OF assms(1,2) o] by (simp add: pending_def)
  qed (simp add: CwRetry assms(1))
next
  case CwDestroy
  have "in_order (s\<lparr>cw_destroyed := True, cw_timer := False\<rparr>)"
    "in_order (s\<lparr>cw_destroyed := True, cw_timer := False, cw_client := False\<rparr>)"
    by (rule order_frame [OF _ _ _ _ assms(1)]; simp)+
  then show ?thesis using CwDestroy assms(3) flush_order
    by (cases "cw_client s \<and> cw_queue s \<noteq> []") (auto simp: cw_destroy_def Let_def)
qed (use flush_order [OF assms(1)] assms in \<open>simp_all split: if_splits\<close>)

lemma calm_run_order: "in_order s \<Longrightarrow> calm_run c s evs \<Longrightarrow> in_order (foldl (cw_step c) s evs)"
proof (induction evs arbitrary: s)
  case (Cons ev evs)
  have "calm (cw_step c s ev)" using Cons.prems(2) by (cases evs) simp_all
  then show ?case using Cons cw_step_order by simp
qed simp

text \<open>As long as no two flushes overlap, what the service has taken is the beginning of what was logged.\<close>

theorem delivery_in_order:
  assumes "calm_run c newCloudWatchLogger evs" and "s = foldl (cw_step c) newCloudWatchLogger evs"
  shows "cw_pushed s = cw_delivered s @ in_flight s @ cw_queue s"
proof -
  have "in_order newCloudWatchLogger" by (simp add: in_order_def in_flight_def newCloudWatchLogger_def)
  from calm_run_order [OF this assms(1)] show ?thesis by (simp add: assms(2) in_order_def)
qed

lemma delivery_in_order_witness:
  "cw_pushed (foldl (cw_step (resolve_cw_config (Some 2) None None)) newCloudWatchLogger demo_log) =
     cw_delivered (foldl (cw_step (resolve_cw_config (Some 2) None None)) newCloudWatchLogger demo_log) @
     in_flight (foldl (cw_step (resolve_cw_config (Some 2) None None)) newCloudWatchLogger demo_log) @
     cw_queue (foldl (cw_step (resolve_cw_config (Some 2) None None)) newCloudWatchLogger demo_log)"
proof -
  have "calm_run (resolve_cw_config (Some 2) None None) newCloudWatchLogger demo_log" by code_simp
  then show ?thesis by (rule delivery_in_order) (rule refl)
qed

text \<open>Overlapping flushes can deliver out of order: the first batch fails while the second is taken.\<close>

lemma overlapping_flushes_reorder:
  "cw_delivered (foldl (cw_step (resolve_cw_config (Some 1) None (Some 1))) newCloudWatchLogger
     [CwLog (demo_entry ''a''), CwInit 0 True, CwInit 0 True, CwLog (demo_entry ''b''),
      CwFailed 0 OtherFailure, CwSent 1 None, CwFlush, CwSent 2 None]) = [demo_entry ''b'', demo_entry ''a'']"
  by code_simp

section \<open>Destruction\<close>

definition shut_down :: "CloudWatchLogger \<Rightarrow> bool" where
  "shut_down s \<longleftrightarrow> cw_destroyed s \<and> \<not> cw_client s \<and> \<not> cw_timer s \<and>
     list_all (\<lambda>(ph, e). ph = Skipping \<or> ph = InitDone) (cw_inits s) \<and>
     list_all (\<lambda>f. fl_phase f = FlightDone) (cw_flights s)"

lemma shut_down_push: "shut_down s \<Longrightarrow> shut_down (cw_push c e s) \<and> cw_delivered (cw_push c e s) = cw_delivered s"
  by (simp add: cw_push_def Let_def cw_flush_def shut_down_def)

lemma shut_down_step:
  assumes "shut_down s"
  shows "shut_down (cw_step c s ev) \<and> cw_delivered (cw_step c s ev) = cw_delivered s"
proof -
  have idle: "\<not> in_phase s i ((=) Sending)" "\<not> in_phase s i is_backing_off" for i
    using assms by (auto simp: shut_down_def in_phase_def list_all_length is_backing_off_def)
  show ?thesis
  proof (cases ev)
    case (CwInit i ok)
    show ?thesis
    proof (cases "i < length (cw_inits s)")
      case True
      obtain ph e where pe: "cw_inits s ! i = (ph, e)" by fastforce
      then have "ph = Skipping \<or> ph = InitDone" using assms True by (auto simp: shut_down_def list_all_length)
      moreover have "shut_down (s\<lparr>cw_inits := (cw_inits s)[i := (InitDone, e)]\<rparr>)"
        using assms by (simp add: shut_down_def list_all_update)
      ultimately show ?thesis
        using CwInit True pe assms shut_down_push by (auto simp: cw_init_step_def Let_def)
    qed (simp add: CwInit cw_init_step_def assms)
  next
    case (CwLog e)
    then show ?thesis using assms shut_down_push [OF assms] by (simp add: cw_log_def) (simp add: shut_down_def)
  qed (use assms idle in \<open>simp_all add: cw_flush_def cw_destroy_def Let_def shut_down_def\<close>)
qed

text \<open>Once the logger has shut down nothing is delivered any more, whatever is called.\<close>

theorem shut_down_is_final:
  assumes "shut_down s"
  shows "cw_delivered (foldl (cw_step c) s evs) = cw_delivered s"
  using assms
proof (induction evs arbitrary: s)
  case (Cons ev evs)
  then show ?case using shut_down_step [OF Cons.prems, of c ev] by simp
qed simp

text \<open>Destruction flushes one batch: the rest of the queue is never delivered.\<close>

definition stranding_log :: "cw_event list" where
  "stranding_log = [CwLog (demo_entry ''a''), CwInit 0 True, CwInit 0 True, CwLog (demo_entry ''b''),
     CwLog (demo_entry ''c''), CwFailed 0 LookupFailed, CwDestroy, CwSent 1 None]"

lemma shut_down_is_final_witness:
  "cw_delivered (foldl (cw_step (resolve_cw_config (Some 2) None None))
     (foldl (cw_step (resolve_cw_config (Some 2) None None)) newCloudWatchLogger stranding_log) [CwFlush, CwTick]) =
   [demo_entry ''a'', demo_entry ''b'']"
proof -
  have "shut_down (foldl (cw_step (resolve_cw_config (Some 2) None None)) newCloudWatchLogger stranding_log)"
    "cw_delivered (foldl (cw_step (resolve_cw_config (Some 2) None None)) newCloudWatchLogger stranding_log) =
      [demo_entry ''a'', demo_entry ''b'']" by code_simp+
  then show ?thesis by (simp only: shut_down_is_final)
qed

end
