(* ===== verification/Logging.thy ===== *)
theory Logging
  imports CloudWatch
begin

text \<open>
  The logger (\<open>utils/logger.ts\<close>): levels, redaction of secrets in texts and objects, and what
  reaches the console, a custom logger and CloudWatch.

  The two regular expressions of the redaction are written out as matchers at a position, which
  return what follows the match; each of their parts ends in only one way, so no backtracking is
  lost. Property names of \<open>for ... in\<close> are those of the value in their order; the stack of an error
  is a parameter. The parser of \<open>debugXdr\<close> belongs to the Stellar SDK.

  The lemmas show that after redaction every property with a sensitive name is hidden at any
  depth and no bearer token is left, that texts inside objects are not redacted, and that
  CloudWatch gets the message and its arguments as they were.
\<close>

datatype LogLevel = LNone | LError | LWarn | LInfo | LDebug

fun LOG_LEVEL_PRIORITY :: "LogLevel \<Rightarrow> nat" where
  "LOG_LEVEL_PRIORITY LNone = 0"
| "LOG_LEVEL_PRIORITY LError = 1"
| "LOG_LEVEL_PRIORITY LWarn = 2"
| "LOG_LEVEL_PRIORITY LInfo = 3"
| "LOG_LEVEL_PRIORITY LDebug = 4"

section \<open>Redaction of texts\<close>

definition ascii_in :: "char \<Rightarrow> string \<Rightarrow> bool" where
  "ascii_in c marks \<longleftrightarrow> (let n = (of_char (lower_char c) :: nat) in
     (97 \<le> n \<and> n \<le> 122) \<or> (48 \<le> n \<and> n \<le> 57) \<or> lower_char c \<in> set marks)"

definition token_char :: "char \<Rightarrow> bool" where
  "token_char c \<longleftrightarrow> ascii_in c ''-._~+/''"

text \<open>\<open>/Bearer\s+[a-zA-Z0-9\-\._~+/]+=*/i\<close> at the start of a text\<close>

definition bearer_at :: "string \<Rightarrow> string option" where
  "bearer_at s =
     (if js_lower (take 6 s) = ''bearer''
         \<and> takeWhile is_space (drop 6 s) \<noteq> []
         \<and> takeWhile token_char (dropWhile is_space (drop 6 s)) \<noteq> []
      then Some (dropWhile (\<lambda>c. c = CHR ''='') (dropWhile token_char (dropWhile is_space (drop 6 s))))
      else None)"

lemma bearer_at_shorter: "bearer_at s = Some r \<Longrightarrow> length r < length s"
proof -
  assume a: "bearer_at s = Some r"
  then have "r = dropWhile (\<lambda>c. c = CHR ''='') (dropWhile token_char (dropWhile is_space (drop 6 s)))"
    and ne: "takeWhile is_space (drop 6 s) \<noteq> []"
    by (auto simp: bearer_at_def split: if_splits)
  then have "length r \<le> length (drop 6 s)"
    by (metis length_dropWhile_le order_trans)
  moreover have "drop 6 s \<noteq> []" using ne by auto
  ultimately show ?thesis by simp
qed

function replace_bearer :: "string \<Rightarrow> string" where
  "replace_bearer [] = []"
| "replace_bearer (c # cs) =
     (case bearer_at (c # cs) of
        Some rest \<Rightarrow> ''Bearer [REDACTED]'' @ replace_bearer rest
      | None \<Rightarrow> c # replace_bearer cs)"
  by pat_completeness auto
termination
  by (relation "measure length") (auto dest: bearer_at_shorter)

text \<open>The optional quote, and \<open>(api[_-]?key|secret[_-]?key|password|token|private[_-]?key)\<close>.\<close>

definition skip_quote :: "string \<Rightarrow> string" where
  "skip_quote s = (case s of c # cs \<Rightarrow> if c = CHR 0x22 \<or> c = CHR 0x27 then cs else s | [] \<Rightarrow> [])"

definition word_at :: "string \<Rightarrow> string \<Rightarrow> (string \<times> string) option" where
  "word_at w s = (if js_lower (take (length w) s) = w then Some (take (length w) s, drop (length w) s) else None)"

definition two_words_at :: "string \<Rightarrow> string \<Rightarrow> (string \<times> string) option" where
  "two_words_at w s =
     (case word_at w s of
        None \<Rightarrow> None
      | Some (m, r) \<Rightarrow>
          let sep = (case r of c # _ \<Rightarrow> if c = CHR ''_'' \<or> c = CHR ''-'' then [c] else [] | [] \<Rightarrow> []) in
          map_option (\<lambda>(k, r'). (m @ sep @ k, r')) (word_at ''key'' (drop (length sep) r)))"

fun first_match :: "('a \<Rightarrow> 'b option) list \<Rightarrow> 'a \<Rightarrow> 'b option" where
  "first_match [] x = None"
| "first_match (f # fs) x = (case f x of None \<Rightarrow> first_match fs x | Some y \<Rightarrow> Some y)"

definition key_at :: "string \<Rightarrow> (string \<times> string) option" where
  "key_at = first_match [two_words_at ''api'', two_words_at ''secret'', word_at ''password'', word_at ''token'',
     two_words_at ''private'']"

definition secret_char :: "char \<Rightarrow> bool" where
  "secret_char c \<longleftrightarrow> ascii_in c ''-_.''"

definition assignment_at :: "string \<Rightarrow> (string \<times> string) option" where
  "assignment_at s =
     (case key_at s of
        None \<Rightarrow> None
      | Some (key, r) \<Rightarrow>
          (case dropWhile is_space (skip_quote r) of
             [] \<Rightarrow> None
           | c # cs \<Rightarrow>
               let v = skip_quote (dropWhile is_space cs) in
               if (c = CHR '':'' \<or> c = CHR ''='') \<and> takeWhile secret_char v \<noteq> []
               then Some (key, skip_quote (dropWhile secret_char v)) else None))"

lemma skip_quote_length: "length (skip_quote s) \<le> length s"
  by (simp add: skip_quote_def split: list.split)

lemma word_at_length: "word_at w s = Some (m, r) \<Longrightarrow> length r \<le> length s"
  by (auto simp: word_at_def split: if_splits)

lemma two_words_at_length: "two_words_at w s = Some (m, r) \<Longrightarrow> length r \<le> length s"
proof -
  assume "two_words_at w s = Some (m, r)"
  then obtain m1 r1 n k where "word_at w s = Some (m1, r1)" "word_at ''key'' (drop n r1) = Some (k, r)"
    by (auto simp: two_words_at_def Let_def split: option.splits)
  then show ?thesis using word_at_length [of w s m1 r1] word_at_length [of "''key''" "drop n r1" k r] by simp
qed

lemma key_at_length: "key_at s = Some (m, r) \<Longrightarrow> length r \<le> length s"
  unfolding key_at_def
  by (auto split: option.splits dest: word_at_length two_words_at_length)

lemma assignment_at_shorter: "assignment_at s = Some (k, r) \<Longrightarrow> length r < length s"
proof -
  assume "assignment_at s = Some (k, r)"
  then obtain r0 c cs where k: "key_at s = Some (k, r0)" and c: "dropWhile is_space (skip_quote r0) = c # cs"
    and r: "r = skip_quote (dropWhile secret_char (skip_quote (dropWhile is_space cs)))"
    by (auto simp: assignment_at_def Let_def split: option.splits list.splits if_splits)
  have "length r \<le> length cs" unfolding r
    by (meson order_trans skip_quote_length length_dropWhile_le)
  moreover have "length (c # cs) \<le> length r0" unfolding c [symmetric]
    by (meson order_trans skip_quote_length length_dropWhile_le)
  ultimately show ?thesis using key_at_length [OF k] by simp
qed

function replace_assignments :: "string \<Rightarrow> string" where
  "replace_assignments [] = []"
| "replace_assignments (c # cs) =
     (case assignment_at (c # cs) of
        Some (key, rest) \<Rightarrow> key @ '': [REDACTED]'' @ replace_assignments rest
      | None \<Rightarrow> c # replace_assignments cs)"
  by pat_completeness auto
termination
  by (relation "measure length") (auto dest: assignment_at_shorter)

definition redact_text :: "string \<Rightarrow> string" where
  "redact_text s = replace_assignments (replace_bearer s)"

section \<open>Redaction of values\<close>

definition sensitiveKeys :: "string list" where
  "sensitiveKeys = [''authorization'', ''api-key'', ''apikey'', ''secret'', ''password'', ''token'', ''x-api-key'',
     ''privatekey'', ''private_key'']"

definition is_sensitive :: "string \<Rightarrow> bool" where
  "is_sensitive key \<longleftrightarrow> js_lower key \<in> set sensitiveKeys"

definition REDACTED :: jsv where
  "REDACTED = JStr ''[REDACTED]''"

type_synonym stack_of = "string \<Rightarrow> string \<Rightarrow> string option"

lemma size_filter_props: "size_list (size_prod (\<lambda>_. 0) size) (filter P ps) \<le> size_list (size_prod (\<lambda>_. 0) size) (ps :: props)"
  by (induction ps) auto

function (sequential) redactValue :: "stack_of \<Rightarrow> jsv \<Rightarrow> jsv"
  and redact_props :: "stack_of \<Rightarrow> props \<Rightarrow> props"
  and redact_items :: "stack_of \<Rightarrow> jsv list \<Rightarrow> jsv list" where
  "redactValue st (JStr s) = JStr (redact_text s)"
| "redactValue st (JErr n m ps) = JObj (
     [(''name'', JStr n), (''message'', JStr (redact_text m)),
      (''stack'', case st n m of Some s \<Rightarrow> if s = [] then JUndef else JStr (redact_text s) | None \<Rightarrow> JUndef)] @
     redact_props st (filter (\<lambda>(k, v). k \<notin> {''name'', ''message'', ''stack''}) ps))"
| "redactValue st (JArr xs) = JArr (redact_items st xs)"
| "redactValue st (JObj ps) = JObj (redact_props st ps)"
| "redactValue st v = v"
| "redact_props st [] = []"
| "redact_props st ((k, v) # ps) =
     (k, if is_sensitive k then REDACTED else if isObject v then redactValue st v else v) # redact_props st ps"
| "redact_items st [] = []"
| "redact_items st (v # vs) = (if isObject v then redactValue st v else v) # redact_items st vs"
  by pat_completeness auto

termination
  by (relation "measure (\<lambda>x. case x of Inl (st, v) \<Rightarrow> size v
      | Inr (Inl (st, ps)) \<Rightarrow> size_list (size_prod (\<lambda>_. 0) size) ps
      | Inr (Inr (st, vs)) \<Rightarrow> size_list size vs)")
    (auto simp: less_Suc_eq_le intro: order_trans [OF size_filter_props])

section \<open>The logger\<close>

record Logger =
  lg_level :: LogLevel
  lg_cloudWatch :: bool
  lg_custom :: bool

definition newLogger :: "LogLevel \<Rightarrow> bool \<Rightarrow> bool \<Rightarrow> Logger" where
  "newLogger level cloud custom = \<lparr>lg_level = level, lg_cloudWatch = cloud, lg_custom = custom\<rparr>"

definition lg_setLevel :: "LogLevel \<Rightarrow> Logger \<Rightarrow> Logger" where
  "lg_setLevel level lg = lg\<lparr>lg_level := level\<rparr>"

definition shouldLog :: "LogLevel \<Rightarrow> Logger \<Rightarrow> bool" where
  "shouldLog level lg \<longleftrightarrow> LOG_LEVEL_PRIORITY level \<le> LOG_LEVEL_PRIORITY (lg_level lg) \<and> lg_level lg \<noteq> LNone"

fun level_name :: "LogLevel \<Rightarrow> string" where
  "level_name LError = ''ERROR''"
| "level_name LWarn = ''WARN''"
| "level_name LInfo = ''INFO''"
| "level_name LDebug = ''DEBUG''"
| "level_name LNone = ''NONE''"

text \<open>What a call writes: a line to the console or to the custom logger, and an entry for CloudWatch.\<close>

datatype log_output =
    ConsoleLine LogLevel string "jsv list"
  | CustomLine LogLevel string "jsv list"
  | CloudWatchEntry LogEntry

definition sendToCloudWatch :: "int \<Rightarrow> LogLevel \<Rightarrow> string \<Rightarrow> jsv \<Rightarrow> Logger \<Rightarrow> log_output list" where
  "sendToCloudWatch now level message metadata lg =
     (if lg_cloudWatch lg
      then [CloudWatchEntry \<lparr>le_timestamp = now, le_message = message, le_level = level_name level, le_metadata = metadata\<rparr>]
      else [])"

definition logWithCloudWatch ::
    "stack_of \<Rightarrow> int \<Rightarrow> LogLevel \<Rightarrow> string \<Rightarrow> jsv list \<Rightarrow> Logger \<Rightarrow> log_output list" where
  "logWithCloudWatch st now level message args lg =
     (if shouldLog level lg then
        let redactedMessage = redact_text message;
            redactedArgs = map (redactValue st) args
        in (if lg_custom lg then CustomLine level redactedMessage redactedArgs
            else ConsoleLine level (''[Axionvera]['' @ level_name level @ ''] '' @ redactedMessage) redactedArgs) #
           sendToCloudWatch now level message (if 0 < length args then JArr args else JUndef) lg
      else [])"

text \<open>The breakdown of a transaction; an operation that is no object has no properties to read.\<close>

definition op_breakdown :: "jsv \<Rightarrow> jsv" where
  "op_breakdown oper = JObj ([(''type'', jget oper ''type'')] @
     (if jget oper ''contractId'' \<noteq> JUndef then [(''contractId'', jget oper ''contractId'')] else []) @
     (if jget oper ''func'' \<noteq> JUndef then [(''func'', JStr (js_String (jget oper ''func'')))] else []))"

definition debug_passphrases :: "string option \<Rightarrow> string list" where
  "debug_passphrases networkPassphrase =
     (case networkPassphrase of
        Some p \<Rightarrow> if p \<noteq> [] then [p]
          else [''Test SDF Network ; September 2015'', ''Public Global Stellar Network ; September 2015'',
            ''Standalone Network ; February 2017'']
      | None \<Rightarrow> [''Test SDF Network ; September 2015'', ''Public Global Stellar Network ; September 2015'',
            ''Standalone Network ; February 2017''])"

text \<open>
  \<open>fromXDR\<close> gives a transaction or raises. The dash of the message for an unknown network is
  outside the 8-bit range and written as \<open>-\<close>.
\<close>

definition debugXdr ::
    "stack_of \<Rightarrow> (string \<Rightarrow> string \<Rightarrow> jsv option) \<Rightarrow> int \<Rightarrow> string \<Rightarrow> string \<Rightarrow> string option \<Rightarrow> Logger \<Rightarrow> log_output list" where
  "debugXdr st fromXDR now label xdrString networkPassphrase lg =
     (if \<not> shouldLog LDebug lg then []
      else (case first_match (map (\<lambda>p x. fromXDR x p) (debug_passphrases networkPassphrase)) xdrString of
              None \<Rightarrow> logWithCloudWatch st now LDebug
                (''[XDR: '' @ label @ ''] Unable to parse - unknown network passphrase'') [] lg
            | Some tx \<Rightarrow>
                (case jget tx ''operations'' of
                   JArr ops \<Rightarrow>
                     if list_ex is_nullish ops then []
                     else logWithCloudWatch st now LDebug (''[XDR: '' @ label @ '']'')
                       [JObj [(''sourceAccount'', jget tx ''source''), (''fee'', jget tx ''fee''),
                              (''operations'', JArr (map op_breakdown ops))]] lg
                 | _ \<Rightarrow> [])))"

section \<open>What redaction hides\<close>

text \<open>Every property with a sensitive name, at any depth, holds the placeholder.\<close>

fun keys_hidden :: "jsv \<Rightarrow> bool" where
  "keys_hidden (JArr xs) = list_all keys_hidden xs"
| "keys_hidden (JObj ps) = list_all (\<lambda>(k, v). if is_sensitive k then v = REDACTED else keys_hidden v) ps"
| "keys_hidden (JErr _ _ _) = False"
| "keys_hidden _ = True"

lemma plain_hidden: "\<not> isObject v \<Longrightarrow> keys_hidden v"
  by (cases v) (simp_all add: isObject_def)

lemma not_sensitive: "\<not> is_sensitive ''name''" "\<not> is_sensitive ''message''" "\<not> is_sensitive ''stack''"
  by code_simp+

lemma redaction_hides:
  "keys_hidden (redactValue st v)"
  "list_all (\<lambda>(k, v). if is_sensitive k then v = REDACTED else keys_hidden v) (redact_props st ps)"
  "list_all keys_hidden (redact_items st vs)"
  by (induction st v and st ps and st vs rule: redactValue_redact_props_redact_items.induct)
    (auto simp: plain_hidden not_sensitive split: option.split)

text \<open>
  In every value that reaches the console or a custom logger, the properties with a
  sensitive name are hidden at any depth, those of errors included, and the names of an object's properties are kept.
\<close>

theorem logged_values_hide_keys:
  "list_all (\<lambda>out. case out of
      ConsoleLine _ _ args \<Rightarrow> list_all keys_hidden args
    | CustomLine _ _ args \<Rightarrow> list_all keys_hidden args
    | CloudWatchEntry e \<Rightarrow> le_message e = message) (logWithCloudWatch st now level message args lg)"
proof -
  have "list_all keys_hidden (map (redactValue st) args)" by (simp add: list_all_iff redaction_hides)
  then show ?thesis by (simp add: logWithCloudWatch_def sendToCloudWatch_def Let_def)
qed

lemma redact_keeps_names: "map fst (redact_props st ps) = map fst ps"
  by (induction ps) auto

text \<open>A call writes exactly when its level is enabled, and nothing when logging is off.\<close>

lemma level_gate:
  "logWithCloudWatch st now level message args lg \<noteq> [] \<longleftrightarrow>
    lg_level lg \<noteq> LNone \<and> LOG_LEVEL_PRIORITY level \<le> LOG_LEVEL_PRIORITY (lg_level lg)"
  by (auto simp: logWithCloudWatch_def shouldLog_def Let_def)

text \<open>CloudWatch gets the message and the arguments as they were: secrets are hidden on the console only.\<close>

lemma cloudwatch_gets_secrets:
  "logWithCloudWatch st now LInfo ''token=abc'' [JObj [(''password'', JStr ''x'')]] (newLogger LInfo True False) =
     [ConsoleLine LInfo ''[Axionvera][INFO] token: [REDACTED]'' [JObj [(''password'', REDACTED)]],
      CloudWatchEntry \<lparr>le_timestamp = now, le_message = ''token=abc'', le_level = ''INFO'',
        le_metadata = JArr [JObj [(''password'', JStr ''x'')]]\<rparr>]"
proof -
  have "redact_text ''token=abc'' = ''token: [REDACTED]''" "is_sensitive ''password''" by code_simp+
  then show ?thesis
    by (simp add: logWithCloudWatch_def sendToCloudWatch_def newLogger_def shouldLog_def)
qed

text \<open>A secret in a text inside an object is not hidden.\<close>

lemma nested_text_not_redacted:
  "redactValue st (JObj [(''header'', JStr ''Bearer abc'')]) = JObj [(''header'', JStr ''Bearer abc'')]"
  "redactValue st (JStr ''Bearer abc'') = JStr ''Bearer [REDACTED]''"
proof -
  have "\<not> is_sensitive ''header''" "redact_text ''Bearer abc'' = ''Bearer [REDACTED]''" by code_simp+
  then show "redactValue st (JObj [(''header'', JStr ''Bearer abc'')]) = JObj [(''header'', JStr ''Bearer abc'')]"
    "redactValue st (JStr ''Bearer abc'') = JStr ''Bearer [REDACTED]''" by (simp_all add: isObject_def)
qed

section \<open>Bearer tokens\<close>

text \<open>Whether a bearer token stands anywhere in a text.\<close>

fun has_bearer :: "string \<Rightarrow> bool" where
  "has_bearer [] = False"
| "has_bearer (c # cs) = (bearer_at (c # cs) \<noteq> None \<or> has_bearer cs)"

lemma bearer_at_starts: "bearer_at (c # cs) \<noteq> None \<Longrightarrow> lower_char c = CHR ''b''"
  by (auto simp: bearer_at_def js_lower_def split: if_splits)

lemma bearer_at_other: "lower_char c \<noteq> CHR ''b'' \<Longrightarrow> bearer_at (c # cs) = None"
  using bearer_at_starts by blast

lemma lower_B: "lower_char (CHR ''B'') = CHR ''b''"
  by code_simp

text \<open>Replacement keeps every character but those of tokens, whose first is a \<open>b\<close> before and after.\<close>

lemma replaced_head:
  assumes "replace_bearer s = x # xs"
  shows "\<exists>y s'. s = y # s' \<and> lower_char x = lower_char y \<and>
    (lower_char x \<noteq> CHR ''b'' \<longrightarrow> x = y \<and> xs = replace_bearer s')"
proof (cases s)
  case (Cons y s')
  show ?thesis
  proof (cases "bearer_at (y # s')")
    case None
    then show ?thesis using assms Cons by simp
  next
    case (Some r)
    then have "lower_char y = CHR ''b''" using bearer_at_starts [of y s'] by simp
    then show ?thesis using assms Cons Some lower_B by auto
  qed
qed (use assms in simp)

lemma replaced_spaces:
  "takeWhile is_space (replace_bearer s) = takeWhile is_space s \<and>
   dropWhile is_space (replace_bearer s) = replace_bearer (dropWhile is_space s)"
proof (induction s rule: replace_bearer.induct)
  case (2 c cs)
  show ?case
  proof (cases "bearer_at (c # cs)")
    case None
    then show ?thesis using "2.IH" by simp
  next
    case (Some r)
    then have "lower_char c = CHR ''b''" using bearer_at_starts [of c cs] by simp
    moreover have "\<not> is_space x" if "lower_char x = CHR ''b''" for x
    proof
      assume "is_space x"
      then have "lower_char x = x" by (auto simp: is_space_def lower_char_def Let_def)
      then have "x = CHR ''b''" using that by simp
      moreover have "\<not> is_space (CHR ''b'')" by code_simp
      ultimately show False using \<open>is_space x\<close> by blast
    qed
    ultimately have "\<not> is_space c" "\<not> is_space (CHR ''B'')" using lower_B by blast+
    then show ?thesis using Some by simp
  qed
qed simp

lemma token_char_lower: "lower_char x = lower_char y \<Longrightarrow> token_char x = token_char y"
  by (simp add: token_char_def ascii_in_def)

lemma replaced_token: "takeWhile token_char (replace_bearer s) \<noteq> [] \<Longrightarrow> takeWhile token_char s \<noteq> []"
proof -
  assume a: "takeWhile token_char (replace_bearer s) \<noteq> []"
  then obtain x xs where x: "replace_bearer s = x # xs" "token_char x"
    by (cases "replace_bearer s") (auto split: if_splits)
  obtain y s' where y: "s = y # s'" "lower_char x = lower_char y" using replaced_head [OF x(1)] by blast
  then have "token_char y" using x(2) token_char_lower by blast
  then show ?thesis using y(1) by simp
qed

text \<open>No token begins at a character that was kept.\<close>

lemma kept_no_bearer:
  assumes "bearer_at (c # replace_bearer cs) \<noteq> None"
  shows "bearer_at (c # cs) \<noteq> None"
proof -
  let ?R = "replace_bearer cs"
  have low: "js_lower (take 6 (c # ?R)) = ''bearer''"
    and sp: "takeWhile is_space (drop 6 (c # ?R)) \<noteq> []"
    and tk: "takeWhile token_char (dropWhile is_space (drop 6 (c # ?R))) \<noteq> []"
    using assms by (auto simp: bearer_at_def split: if_splits)
  have kept: "\<exists>y s'. s = y # s' \<and> lower_char y = l \<and> tl (replace_bearer s) = replace_bearer s' \<and> hd (replace_bearer s) = y"
    if start: "js_lower (take n (replace_bearer s)) = l # ls" and other: "l \<noteq> CHR ''b''" for s n l ls
  proof -
    obtain x xs where x: "replace_bearer s = x # xs" "lower_char x = l"
      using start by (cases "replace_bearer s"; cases n) (auto simp: js_lower_def)
    from replaced_head [OF x(1)] show ?thesis using x other by auto
  qed
  have l5: "js_lower (take 5 ?R) = ''earer''" using low by (simp add: js_lower_def)
  obtain y1 s1 where 1: "cs = y1 # s1" "?R = y1 # replace_bearer s1"
    using kept [OF l5] l5 by (cases ?R) (auto simp: js_lower_def)
  have l4: "js_lower (take 4 (replace_bearer s1)) = ''arer''" using l5 1 by (simp add: js_lower_def)
  obtain y2 s2 where 2: "s1 = y2 # s2" "replace_bearer s1 = y2 # replace_bearer s2"
    using kept [OF l4] l4 by (cases "replace_bearer s1") (auto simp: js_lower_def)
  have l3: "js_lower (take 3 (replace_bearer s2)) = ''rer''" using l4 2 by (simp add: js_lower_def)
  obtain y3 s3 where 3: "s2 = y3 # s3" "replace_bearer s2 = y3 # replace_bearer s3"
    using kept [OF l3] l3 by (cases "replace_bearer s2") (auto simp: js_lower_def)
  have l2: "js_lower (take 2 (replace_bearer s3)) = ''er''" using l3 3 by (simp add: js_lower_def)
  obtain y4 s4 where 4: "s3 = y4 # s4" "replace_bearer s3 = y4 # replace_bearer s4"
    using kept [OF l2] l2 by (cases "replace_bearer s3") (auto simp: js_lower_def)
  have l1: "js_lower (take 1 (replace_bearer s4)) = ''r''" using l2 4 by (simp add: js_lower_def)
  obtain y5 s5 where 5: "s4 = y5 # s5" "replace_bearer s4 = y5 # replace_bearer s5"
    using kept [OF l1] l1 by (cases "replace_bearer s4") (auto simp: js_lower_def)
  have R: "?R = [y1, y2, y3, y4, y5] @ replace_bearer s5" using 1 2 3 4 5 by simp
  have cs: "cs = [y1, y2, y3, y4, y5] @ s5" using 1 2 3 4 5 by simp
  have "js_lower (take 6 (c # cs)) = ''bearer''" using low unfolding R unfolding cs by simp
  moreover have "takeWhile is_space (drop 6 (c # cs)) \<noteq> []"
    using sp replaced_spaces [of s5] unfolding R unfolding cs by simp
  moreover have "takeWhile token_char (dropWhile is_space (drop 6 (c # cs))) \<noteq> []"
    using tk replaced_token [of "dropWhile is_space s5"] replaced_spaces [of s5] unfolding R unfolding cs by simp
  ultimately show ?thesis by (simp add: bearer_at_def)
qed

lemma placeholder_no_bearer: "has_bearer (''Bearer [REDACTED]'' @ s) = has_bearer s"
proof -
  have "bearer_at (''Bearer [REDACTED]'' @ s) = None"
  proof -
    have "takeWhile token_char (dropWhile is_space (drop 6 (''Bearer [REDACTED]'' @ s))) = []"
      by (simp add: is_space_def token_char_def ascii_in_def lower_char_def)
    then show ?thesis by (simp add: bearer_at_def)
  qed
  moreover have "list_all (\<lambda>c. lower_char c \<noteq> CHR ''b'') ''earer [REDACTED]''" by code_simp
  then have "lower_char c \<noteq> CHR ''b''" if "c \<in> set ''earer [REDACTED]''" for c
    using that unfolding list_all_iff by blast
  then have "has_bearer (t @ s) = has_bearer s" if "set t \<subseteq> set ''earer [REDACTED]''" for t
    using that bearer_at_other by (induction t) auto
  then have "has_bearer (''earer [REDACTED]'' @ s) = has_bearer s" by blast
  ultimately show ?thesis by simp
qed

text \<open>No bearer token is left anywhere in a text after the first replacement.\<close>

theorem bearer_tokens_removed: "\<not> has_bearer (replace_bearer s)"
proof (induction s rule: replace_bearer.induct)
  case (2 c cs)
  show ?case
  proof (cases "bearer_at (c # cs)")
    case None
    then have "bearer_at (c # replace_bearer cs) = None" using kept_no_bearer by blast
    then show ?thesis using None "2.IH" by simp
  next
    case (Some r)
    then show ?thesis using "2.IH"(2) [OF Some] placeholder_no_bearer [of "replace_bearer r"] by simp
  qed
qed simp

end
