(* ===== verification/Tracing.thy ===== *)
theory Tracing
  imports Errors
begin

text \<open>
  Observability: the tracer with its decorator (\<open>observability/tracer.ts\<close>), the diagnostics
  manager (\<open>diagnostics/diagnosticsManager.ts\<close>) and the service that holds both
  (\<open>observability/observabilityService.ts\<close>).

  A span lives in one of two maps, active or completed; the objects are reached through the
  maps only. Callbacks of the diagnostics manager are names, and the result of recording lists
  the calls made; what they raise is swallowed.

  The lemmas show that ids are fresh and a span is in one map, how many spans the tracer can
  hold, that the decorator changes no result, that the diagnostics stay within their bound, hold
  the latest events, and that a report adds up.
\<close>

section \<open>The tracer\<close>

datatype TraceLevel = TOff | TError | TWarn | TInfo | TDebug

record TraceSpan =
  sp_id :: string
  sp_name :: string
  sp_startTime :: int
  sp_endTime :: "int option"
  sp_duration :: "int option"
  sp_tags :: "(string, string) jsmap"
  sp_parentId :: "string option"

record Tracer =
  tr_spans :: "(string, TraceSpan) jsmap"
  tr_active :: "(string, TraceSpan) jsmap"
  tr_level :: TraceLevel
  tr_maxSpans :: nat
  tr_counter :: nat

definition newTracer :: "TraceLevel \<Rightarrow> nat \<Rightarrow> Tracer" where
  "newTracer level maxSpans =
     \<lparr>tr_spans = [], tr_active = [], tr_level = level, tr_maxSpans = maxSpans, tr_counter = 0\<rparr>"

definition tr_setLevel :: "TraceLevel \<Rightarrow> Tracer \<Rightarrow> Tracer" where
  "tr_setLevel level tr = tr\<lparr>tr_level := level\<rparr>"

text \<open>The first of the completed spans with the earliest start.\<close>

definition oldest_span :: "(string, TraceSpan) jsmap \<Rightarrow> string option" where
  "oldest_span spans =
     map_option fst (foldl (\<lambda>oldest (k, sp). case oldest of
         None \<Rightarrow> Some (k, sp_startTime sp)
       | Some (k', t) \<Rightarrow> if sp_startTime sp < t then Some (k, sp_startTime sp) else oldest) None spans)"

definition evictOldest :: "Tracer \<Rightarrow> Tracer" where
  "evictOldest tr =
     (case oldest_span (tr_spans tr) of None \<Rightarrow> tr | Some k \<Rightarrow> tr\<lparr>tr_spans := jm_delete k (tr_spans tr)\<rparr>)"

definition span_id :: "nat \<Rightarrow> string" where
  "span_id n = ''span_'' @ nat_str n"

definition startSpan ::
    "int \<Rightarrow> string \<Rightarrow> (string, string) jsmap \<Rightarrow> string option \<Rightarrow> Tracer \<Rightarrow> Tracer \<times> string" where
  "startSpan now nm tags parentId tr =
     (if tr_level tr = TOff then (tr, [])
      else let k = span_id (tr_counter tr + 1);
               sp = \<lparr>sp_id = k, sp_name = nm, sp_startTime = now, sp_endTime = None, sp_duration = None,
                     sp_tags = tags, sp_parentId = parentId\<rparr>;
               tr' = tr\<lparr>tr_counter := tr_counter tr + 1, tr_active := jm_set k sp (tr_active tr)\<rparr>
           in (if tr_maxSpans tr < length (tr_active tr') + length (tr_spans tr') then evictOldest tr' else tr', k))"

definition endSpan :: "int \<Rightarrow> string \<Rightarrow> Tracer \<Rightarrow> Tracer" where
  "endSpan now k tr =
     (case jm_get (tr_active tr) k of
        None \<Rightarrow> tr
      | Some sp \<Rightarrow> tr\<lparr>tr_active := jm_delete k (tr_active tr),
          tr_spans := jm_set k (sp\<lparr>sp_endTime := Some now, sp_duration := Some (now - sp_startTime sp)\<rparr>) (tr_spans tr)\<rparr>)"

definition addTag :: "string \<Rightarrow> string \<Rightarrow> string \<Rightarrow> Tracer \<Rightarrow> Tracer" where
  "addTag k key val tr =
     (case jm_get (tr_active tr) k of
        None \<Rightarrow> tr
      | Some sp \<Rightarrow> tr\<lparr>tr_active := jm_set k (sp\<lparr>sp_tags := jm_set key val (sp_tags sp)\<rparr>) (tr_active tr)\<rparr>)"

definition getSpan :: "string \<Rightarrow> Tracer \<Rightarrow> TraceSpan option" where
  "getSpan k tr = (case jm_get (tr_active tr) k of None \<Rightarrow> jm_get (tr_spans tr) k | Some sp \<Rightarrow> Some sp)"

definition getAllSpans :: "Tracer \<Rightarrow> TraceSpan list" where
  "getAllSpans tr = jm_values (tr_spans tr)"

definition getActiveSpans :: "Tracer \<Rightarrow> TraceSpan list" where
  "getActiveSpans tr = jm_values (tr_active tr)"

definition tr_clear :: "Tracer \<Rightarrow> Tracer" where
  "tr_clear tr = tr\<lparr>tr_spans := [], tr_active := []\<rparr>"

text \<open>
  The decorator: what the method does when it is called, and for a promise when it settles.
  \<open>Direct\<close> is a value or an error of the call itself, \<open>Settles\<close> a promise with its outcome.
\<close>

datatype 'v method_outcome = Direct "jsv + 'v" | Settles int "jsv + 'v"

definition traced_call ::
    "int \<Rightarrow> int \<Rightarrow> string \<Rightarrow> string \<Rightarrow> 'v method_outcome \<Rightarrow> Tracer option \<Rightarrow> Tracer option \<times> 'v method_outcome" where
  "traced_call t0 t1 propertyKey argsJson outcome tracer =
     (case tracer of
        None \<Rightarrow> (None, outcome)
      | Some tr \<Rightarrow>
          (case startSpan t0 propertyKey [(''args'', take 200 argsJson)] None tr of
             (tr1, k) \<Rightarrow>
               (case outcome of
                  Settles t res \<Rightarrow> (Some (endSpan t k tr1), outcome)
                | Direct (Inr v) \<Rightarrow> (Some (endSpan t1 k tr1), outcome)
                | Direct (Inl e) \<Rightarrow> (Some (endSpan t1 k (addTag k ''error'' (js_String e) tr1)), outcome))))"

datatype tracer_op =
    TrStart int string "(string, string) jsmap" "string option"
  | TrEnd int string
  | TrTag string string string
  | TrLevel TraceLevel
  | TrClear

fun tracer_step :: "Tracer \<Rightarrow> tracer_op \<Rightarrow> Tracer" where
  "tracer_step tr (TrStart now nm tags p) = fst (startSpan now nm tags p tr)"
| "tracer_step tr (TrEnd now k) = endSpan now k tr"
| "tracer_step tr (TrTag k key val) = addTag k key val tr"
| "tracer_step tr (TrLevel l) = tr_setLevel l tr"
| "tracer_step tr TrClear = tr_clear tr"

section \<open>Diagnostics\<close>

record DiagnosticEvent =
  de_id :: string
  de_type :: string
  de_timestamp :: int
  de_data :: props

record DiagnosticsManager =
  dm_events :: "DiagnosticEvent list"
  dm_maxEvents :: nat
  dm_enabled :: bool
  dm_listeners :: "nat list"
  dm_counter :: nat

definition newDiagnostics :: "bool \<Rightarrow> nat \<Rightarrow> DiagnosticsManager" where
  "newDiagnostics enabled maxEvents =
     \<lparr>dm_events = [], dm_maxEvents = maxEvents, dm_enabled = enabled, dm_listeners = [], dm_counter = 0\<rparr>"

definition dm_setEnabled :: "bool \<Rightarrow> DiagnosticsManager \<Rightarrow> DiagnosticsManager" where
  "dm_setEnabled enabled dm = dm\<lparr>dm_enabled := enabled\<rparr>"

definition dm_record :: "int \<Rightarrow> string \<Rightarrow> props \<Rightarrow> DiagnosticsManager \<Rightarrow> DiagnosticsManager \<times> nat list" where
  "dm_record now ty data dm =
     (if \<not> dm_enabled dm then (dm, [])
      else let event = \<lparr>de_id = ''diag_'' @ nat_str (dm_counter dm + 1), de_type = ty, de_timestamp = now, de_data = data\<rparr>;
               events = dm_events dm @ [event]
           in (dm\<lparr>dm_counter := dm_counter dm + 1,
                 dm_events := (if dm_maxEvents dm < length events then tl events else events)\<rparr>,
               dm_listeners dm))"

definition onDiagnosticEvent :: "nat \<Rightarrow> DiagnosticsManager \<Rightarrow> DiagnosticsManager" where
  "onDiagnosticEvent cb dm =
     dm\<lparr>dm_listeners := (if cb \<in> set (dm_listeners dm) then dm_listeners dm else dm_listeners dm @ [cb])\<rparr>"

definition offDiagnosticEvent :: "nat \<Rightarrow> DiagnosticsManager \<Rightarrow> DiagnosticsManager" where
  "offDiagnosticEvent cb dm = dm\<lparr>dm_listeners := removeAll cb (dm_listeners dm)\<rparr>"

text \<open>A filter applies its parts that are not falsy.\<close>

definition getEvents :: "string option \<Rightarrow> int option \<Rightarrow> DiagnosticsManager \<Rightarrow> DiagnosticEvent list" where
  "getEvents ty since dm =
     (let byType = (case ty of Some t \<Rightarrow> if t = [] then dm_events dm
                      else filter (\<lambda>e. de_type e = t) (dm_events dm) | None \<Rightarrow> dm_events dm)
      in case since of Some t \<Rightarrow> if t = 0 then byType else filter (\<lambda>e. t \<le> de_timestamp e) byType | None \<Rightarrow> byType)"

record DiagnosticsReport =
  dr_timestamp :: int
  dr_events :: "DiagnosticEvent list"
  dr_totalEvents :: nat
  dr_byType :: "(string, nat) jsmap"
  dr_errors :: nat
  dr_warnings :: nat

definition count_type :: "(string, nat) jsmap \<Rightarrow> string \<Rightarrow> (string, nat) jsmap" where
  "count_type m ty = jm_set ty ((case jm_get m ty of None \<Rightarrow> 0 | Some n \<Rightarrow> n) + 1) m"

definition dm_generateReport :: "int \<Rightarrow> DiagnosticsManager \<Rightarrow> DiagnosticsReport" where
  "dm_generateReport now dm =
     \<lparr>dr_timestamp = now, dr_events = dm_events dm, dr_totalEvents = length (dm_events dm),
      dr_byType = foldl (\<lambda>m e. count_type m (de_type e)) [] (dm_events dm),
      dr_errors = length (filter (\<lambda>e. str_starts (de_type e) ''error'') (dm_events dm)),
      dr_warnings = length (filter (\<lambda>e. str_starts (de_type e) ''warn'') (dm_events dm))\<rparr>"

definition dm_clear :: "DiagnosticsManager \<Rightarrow> DiagnosticsManager" where
  "dm_clear dm = dm\<lparr>dm_events := []\<rparr>"

datatype diagnostics_op =
    DmRecord int string props
  | DmEnable bool
  | DmListen nat
  | DmUnlisten nat
  | DmClear

fun diagnostics_step :: "DiagnosticsManager \<Rightarrow> diagnostics_op \<Rightarrow> DiagnosticsManager" where
  "diagnostics_step dm (DmRecord now ty data) = fst (dm_record now ty data dm)"
| "diagnostics_step dm (DmEnable b) = dm_setEnabled b dm"
| "diagnostics_step dm (DmListen cb) = onDiagnosticEvent cb dm"
| "diagnostics_step dm (DmUnlisten cb) = offDiagnosticEvent cb dm"
| "diagnostics_step dm DmClear = dm_clear dm"

section \<open>The service\<close>

text \<open>The level of the logger is a number that only the logger reads.\<close>

record ObservabilityConfig =
  oc_logLevel :: nat
  oc_traceLevel :: TraceLevel
  oc_diagnosticsEnabled :: bool
  oc_maxSpans :: nat
  oc_maxDiagnosticEvents :: nat

record ConfigUpdates =
  cu_logLevel :: "nat option"
  cu_traceLevel :: "TraceLevel option"
  cu_diagnosticsEnabled :: "bool option"
  cu_maxSpans :: "nat option"
  cu_maxDiagnosticEvents :: "nat option"

definition DEFAULT_OBSERVABILITY_CONFIG :: ObservabilityConfig where
  "DEFAULT_OBSERVABILITY_CONFIG = \<lparr>oc_logLevel = 0, oc_traceLevel = TOff, oc_diagnosticsEnabled = False,
     oc_maxSpans = 100, oc_maxDiagnosticEvents = 500\<rparr>"

definition override :: "'a option \<Rightarrow> 'a \<Rightarrow> 'a" where
  "override x d = (case x of None \<Rightarrow> d | Some v \<Rightarrow> v)"

definition apply_updates :: "ConfigUpdates \<Rightarrow> ObservabilityConfig \<Rightarrow> ObservabilityConfig" where
  "apply_updates u c = \<lparr>oc_logLevel = override (cu_logLevel u) (oc_logLevel c),
     oc_traceLevel = override (cu_traceLevel u) (oc_traceLevel c),
     oc_diagnosticsEnabled = override (cu_diagnosticsEnabled u) (oc_diagnosticsEnabled c),
     oc_maxSpans = override (cu_maxSpans u) (oc_maxSpans c),
     oc_maxDiagnosticEvents = override (cu_maxDiagnosticEvents u) (oc_maxDiagnosticEvents c)\<rparr>"

record ObservabilityService =
  os_loggerLevel :: nat
  os_tracer :: Tracer
  os_diagnostics :: DiagnosticsManager
  os_config :: ObservabilityConfig

definition newObservability :: "ConfigUpdates \<Rightarrow> ObservabilityService" where
  "newObservability u =
     (let c = apply_updates u DEFAULT_OBSERVABILITY_CONFIG in
      \<lparr>os_loggerLevel = oc_logLevel c, os_tracer = newTracer (oc_traceLevel c) (oc_maxSpans c),
       os_diagnostics = newDiagnostics (oc_diagnosticsEnabled c) (oc_maxDiagnosticEvents c), os_config = c\<rparr>)"

definition os_updateConfig :: "ConfigUpdates \<Rightarrow> ObservabilityService \<Rightarrow> ObservabilityService" where
  "os_updateConfig u os =
     os\<lparr>os_config := apply_updates u (os_config os),
        os_loggerLevel := override (cu_logLevel u) (os_loggerLevel os),
        os_tracer := (case cu_traceLevel u of None \<Rightarrow> os_tracer os | Some l \<Rightarrow> tr_setLevel l (os_tracer os)),
        os_diagnostics := (case cu_diagnosticsEnabled u of None \<Rightarrow> os_diagnostics os
          | Some b \<Rightarrow> dm_setEnabled b (os_diagnostics os))\<rparr>"

definition os_clear :: "ObservabilityService \<Rightarrow> ObservabilityService" where
  "os_clear os = os\<lparr>os_tracer := tr_clear (os_tracer os), os_diagnostics := dm_clear (os_diagnostics os)\<rparr>"

section \<open>Spans\<close>

lemma oldest_step:
  "foldl (\<lambda>oldest (k, sp). case oldest of
         None \<Rightarrow> Some (k, sp_startTime sp)
       | Some (k', t) \<Rightarrow> if sp_startTime sp < t then Some (k, sp_startTime sp) else oldest) (Some (k0, t0)) spans = Some (k, t) \<Longrightarrow>
    k \<in> insert k0 (fst ` set spans) \<and> t \<le> t0 \<and> (\<forall>(k, sp) \<in> set spans. t \<le> sp_startTime sp)"
proof (induction spans arbitrary: k0 t0)
  case (Cons p spans)
  obtain k1 s1 where p: "p = (k1, s1)" by fastforce
  show ?case using Cons.IH [of k1 "sp_startTime s1"] Cons.IH [of k0 t0] Cons.prems
    by (auto simp: p split: if_splits)
qed simp

lemma oldest_none: "foldl (\<lambda>oldest (k, sp). case oldest of
         None \<Rightarrow> Some (k, sp_startTime sp)
       | Some (k', t) \<Rightarrow> if sp_startTime sp < t then Some (k, sp_startTime sp) else oldest) (Some (k0, t0)) spans \<noteq> None"
  by (induction spans arbitrary: k0 t0) auto

lemma oldest_span_present:
  assumes "spans \<noteq> []"
  shows "\<exists>k. oldest_span spans = Some k \<and> k \<in> fst ` set spans"
proof -
  obtain k0 s0 rest where s: "spans = (k0, s0) # rest" using assms by (cases spans) auto
  obtain k t where f: "foldl (\<lambda>oldest (k, sp). case oldest of
         None \<Rightarrow> Some (k, sp_startTime sp)
       | Some (k', t) \<Rightarrow> if sp_startTime sp < t then Some (k, sp_startTime sp) else oldest)
      (Some (k0, sp_startTime s0)) rest = Some (k, t)"
    using oldest_none [of k0 "sp_startTime s0" rest] by fastforce
  from oldest_step [OF this] show ?thesis by (auto simp: oldest_span_def s f)
qed

definition spans_ok :: "Tracer \<Rightarrow> bool" where
  "spans_ok tr \<longleftrightarrow> jm_ok (tr_spans tr) \<and> jm_ok (tr_active tr) \<and>
     (\<forall>k. jm_has (tr_active tr) k \<longrightarrow> \<not> jm_has (tr_spans tr) k) \<and>
     jm_all (\<lambda>k sp. sp_id sp = k \<and> (\<exists>n \<le> tr_counter tr. 0 < n \<and> k = span_id n) \<and> sp_endTime sp = None) (tr_active tr) \<and>
     jm_all (\<lambda>k sp. sp_id sp = k \<and> (\<exists>n \<le> tr_counter tr. 0 < n \<and> k = span_id n) \<and>
       (\<exists>e. sp_endTime sp = Some e \<and> sp_duration sp = Some (e - sp_startTime sp))) (tr_spans tr)"

lemma span_id_inj [simp]: "span_id m = span_id n \<longleftrightarrow> m = n"
  by (simp add: span_id_def)

lemma known_ids:
  assumes "spans_ok tr" and "jm_has (tr_active tr) k \<or> jm_has (tr_spans tr) k"
  shows "\<exists>n \<le> tr_counter tr. k = span_id n"
  using assms by (auto simp: spans_ok_def jm_has_get dest: jm_all_getD)

lemma fresh_span_id:
  assumes "spans_ok tr"
  shows "\<not> jm_has (tr_active tr) (span_id (tr_counter tr + 1))" "\<not> jm_has (tr_spans tr) (span_id (tr_counter tr + 1))"
  using known_ids [OF assms, of "span_id (tr_counter tr + 1)"] by auto

lemma evict_ok:
  assumes "spans_ok tr"
  shows "spans_ok (evictOldest tr)"
  using assms by (auto simp: evictOldest_def spans_ok_def split: option.split)

lemma evict_frees:
  assumes "spans_ok tr" and "tr_spans tr \<noteq> []"
  shows "length (tr_active (evictOldest tr)) + length (tr_spans (evictOldest tr)) + 1 =
    length (tr_active tr) + length (tr_spans tr)"
proof -
  obtain k where k: "oldest_span (tr_spans tr) = Some k" "k \<in> fst ` set (tr_spans tr)"
    using oldest_span_present [OF assms(2)] by blast
  then show ?thesis
    using jm_delete_length [of "tr_spans tr" k] assms(1) by (simp add: evictOldest_def spans_ok_def jm_has_iff)
qed

lemma start_ok:
  assumes "spans_ok tr"
  shows "spans_ok (tr\<lparr>tr_counter := tr_counter tr + 1,
     tr_active := jm_set (span_id (tr_counter tr + 1)) \<lparr>sp_id = span_id (tr_counter tr + 1), sp_name = nm,
       sp_startTime = now, sp_endTime = None, sp_duration = None, sp_tags = tags, sp_parentId = p\<rparr> (tr_active tr)\<rparr>)"
  using assms fresh_span_id [OF assms]
  by (auto simp: spans_ok_def le_Suc_eq intro!: jm_all_set elim!: jm_all_mono)

lemma end_ok:
  assumes "spans_ok tr"
  shows "spans_ok (endSpan now k tr)"
proof (cases "jm_get (tr_active tr) k")
  case (Some sp)
  have "sp_id sp = k \<and> (\<exists>n \<le> tr_counter tr. 0 < n \<and> k = span_id n)"
    using assms Some by (auto simp: spans_ok_def dest: jm_all_getD)
  then show ?thesis using assms Some by (auto simp: endSpan_def spans_ok_def intro!: jm_all_set)
qed (simp add: endSpan_def assms)

lemma tag_ok:
  assumes "spans_ok tr"
  shows "spans_ok (addTag k key val tr)"
proof (cases "jm_get (tr_active tr) k")
  case (Some sp)
  have "sp_id sp = k \<and> (\<exists>n \<le> tr_counter tr. 0 < n \<and> k = span_id n) \<and> sp_endTime sp = None"
    using assms Some by (auto simp: spans_ok_def dest: jm_all_getD)
  moreover have "jm_has (tr_active tr) k" using Some by (simp add: jm_has_get)
  ultimately show ?thesis using assms Some by (auto simp: addTag_def spans_ok_def intro!: jm_all_set)
qed (simp add: addTag_def assms)

definition held :: "Tracer \<Rightarrow> nat" where
  "held tr = length (tr_active tr) + length (tr_spans tr)"

definition started :: "int \<Rightarrow> string \<Rightarrow> (string, string) jsmap \<Rightarrow> string option \<Rightarrow> Tracer \<Rightarrow> Tracer" where
  "started now nm tags p tr = tr\<lparr>tr_counter := tr_counter tr + 1,
     tr_active := jm_set (span_id (tr_counter tr + 1)) \<lparr>sp_id = span_id (tr_counter tr + 1), sp_name = nm,
       sp_startTime = now, sp_endTime = None, sp_duration = None, sp_tags = tags, sp_parentId = p\<rparr> (tr_active tr)\<rparr>"

lemma startSpan_started:
  "startSpan now nm tags p tr =
    (if tr_level tr = TOff then (tr, [])
     else (if tr_maxSpans tr < held (started now nm tags p tr) then evictOldest (started now nm tags p tr)
           else started now nm tags p tr, span_id (tr_counter tr + 1)))"
  by (simp add: startSpan_def started_def held_def Let_def)

lemma started_facts:
  assumes "spans_ok tr"
  shows "spans_ok (started now nm tags p tr)" "length (tr_active (started now nm tags p tr)) = length (tr_active tr) + 1"
    "tr_spans (started now nm tags p tr) = tr_spans tr" "tr_maxSpans (started now nm tags p tr) = tr_maxSpans tr"
  using start_ok [OF assms] fresh_span_id(1) [OF assms] by (simp_all add: started_def jm_set_length)

lemma evict_keeps: "tr_active (evictOldest tr) = tr_active tr" "tr_maxSpans (evictOldest tr) = tr_maxSpans tr"
  by (simp_all add: evictOldest_def split: option.split)

text \<open>The state with the largest number of spans that were active at once.\<close>

definition tracer_peak_step :: "Tracer \<times> nat \<Rightarrow> tracer_op \<Rightarrow> Tracer \<times> nat" where
  "tracer_peak_step s oper = (let tr' = tracer_step (fst s) oper in (tr', max (snd s) (length (tr_active tr'))))"

definition tracer_inv :: "nat \<Rightarrow> Tracer \<times> nat \<Rightarrow> bool" where
  "tracer_inv limit s \<longleftrightarrow> spans_ok (fst s) \<and> tr_maxSpans (fst s) = limit \<and>
     length (tr_active (fst s)) \<le> snd s \<and> held (fst s) \<le> max limit (snd s)"

lemma start_bound:
  assumes "spans_ok tr" and "tr_maxSpans tr = limit" and "held tr \<le> max limit peak"
  shows "let tr' = fst (startSpan now nm tags p tr) in
    spans_ok tr' \<and> tr_maxSpans tr' = limit \<and> held tr' \<le> max limit (max peak (length (tr_active tr')))"
proof (cases "tr_level tr = TOff")
  case False
  let ?s = "started now nm tags p tr"
  note f = started_facts [OF assms(1), of now nm tags p]
  have grown: "held ?s = held tr + 1" using f by (simp add: held_def)
  show ?thesis
  proof (cases "limit < held ?s")
    case True
    have "held (evictOldest ?s) \<le> max limit (max peak (length (tr_active (evictOldest ?s))))"
    proof (cases "tr_spans ?s = []")
      case True
      then have "evictOldest ?s = ?s" by (simp add: evictOldest_def oldest_span_def)
      then show ?thesis using True by (simp add: held_def)
    next
      case False
      then have "held (evictOldest ?s) + 1 = held ?s" using evict_frees [OF f(1)] by (simp add: held_def)
      then show ?thesis using grown assms(3) by simp
    qed
    then show ?thesis
      using True False assms(2) f(4) evict_ok [OF f(1)] evict_keeps(2) [of ?s] by (simp add: startSpan_started Let_def)
  next
    case False
    then show ?thesis
      using \<open>tr_level tr \<noteq> TOff\<close> assms(2) f(1,4) by (simp add: startSpan_started Let_def le_max_iff_disj)
  qed
qed (use assms in \<open>simp add: startSpan_started\<close>)

lemma end_held: "spans_ok tr \<Longrightarrow> held (endSpan now k tr) = held tr \<and> tr_maxSpans (endSpan now k tr) = tr_maxSpans tr"
proof (cases "jm_get (tr_active tr) k")
  case (Some sp)
  assume ok: "spans_ok tr"
  have has: "jm_has (tr_active tr) k" "\<not> jm_has (tr_spans tr) k"
    using ok Some by (auto simp: jm_has_get spans_ok_def)
  then show ?thesis
    using Some ok jm_delete_length [of "tr_active tr" k]
    by (simp add: endSpan_def held_def jm_set_length spans_ok_def)
qed (simp add: endSpan_def)

lemma tag_held: "held (addTag k key val tr) = held tr \<and> tr_maxSpans (addTag k key val tr) = tr_maxSpans tr"
  by (simp add: addTag_def held_def jm_set_length jm_has_get split: option.split)

lemma tracer_inv_step:
  assumes "tracer_inv limit s"
  shows "tracer_inv limit (tracer_peak_step s oper)"
proof -
  obtain tr peak where s: "s = (tr, peak)" by fastforce
  have ok: "spans_ok tr" "tr_maxSpans tr = limit" "held tr \<le> max limit peak"
    using assms by (simp_all add: tracer_inv_def s)
  show ?thesis
  proof (cases oper)
    case (TrStart now nm tags p)
    then show ?thesis using start_bound [OF ok] by (simp add: s tracer_peak_step_def tracer_inv_def Let_def)
  next
    case (TrEnd now k)
    then show ?thesis
      using end_ok [OF ok(1)] end_held [OF ok(1)] ok(2,3)
      by (auto simp: s tracer_peak_step_def tracer_inv_def Let_def le_max_iff_disj)
  next
    case (TrTag k key val)
    then show ?thesis
      using tag_ok [OF ok(1)] tag_held ok(2,3)
      by (auto simp: s tracer_peak_step_def tracer_inv_def Let_def le_max_iff_disj)
  next
    case (TrLevel l)
    then show ?thesis using ok
      by (auto simp: s tracer_peak_step_def tracer_inv_def Let_def tr_setLevel_def spans_ok_def held_def le_max_iff_disj)
  next
    case TrClear
    then show ?thesis using ok
      by (auto simp: s tracer_peak_step_def tracer_inv_def Let_def tr_clear_def spans_ok_def held_def le_max_iff_disj)
  qed
qed

interpretation tracer: invariant_machine "tracer_inv limit" tracer_peak_step "(newTracer level limit, 0)" for limit level
proof
  show "tracer_inv limit (newTracer level limit, 0)"
    by (simp add: tracer_inv_def newTracer_def spans_ok_def held_def)
qed (rule tracer_inv_step)

lemma peak_step_fst: "fst (foldl tracer_peak_step s ops) = foldl tracer_step (fst s) ops"
  by (induction ops arbitrary: s) (simp_all add: tracer_peak_step_def Let_def)

text \<open>
  Whatever is started, ended and tagged, a span is in one place, under its own fresh id, active
  without an end or completed with its duration; and the tracer holds at most the configured
  number of spans, or as many as were active at once if that was more.
\<close>

theorem tracer_holds_bounded:
  "let s = foldl tracer_peak_step (newTracer level limit, 0) ops; tr = fst s
   in tr = foldl tracer_step (newTracer level limit) ops \<and> spans_ok tr \<and>
      length (getActiveSpans tr) + length (getAllSpans tr) \<le> max limit (snd s)"
  using tracer.inv_run [of limit level ops]
  by (simp add: tracer_inv_def Let_def peak_step_fst getActiveSpans_def getAllSpans_def jm_values_def held_def)

text \<open>Spans that were active at once stay held after they end, over the configured number.\<close>

lemma completed_spans_exceed_limit:
  "length (getAllSpans (foldl tracer_step (newTracer TInfo 1)
     [TrStart 0 ''a'' [] None, TrStart 1 ''b'' [] None, TrEnd 2 ''span_1'', TrEnd 3 ''span_2''])) = 2"
  by code_simp

text \<open>The decorator returns what the method does; a promise that rejects leaves no error on its span.\<close>

lemma decorator_transparent: "snd (traced_call t0 t1 key args outcome tracer) = outcome"
  by (simp add: traced_call_def split: option.split prod.split method_outcome.split sum.split)

lemma rejected_promise_not_tagged:
  "map_option (\<lambda>tr. map sp_tags (getAllSpans tr))
     (fst (traced_call 0 1 ''pay'' ''[]'' (Settles 5 (Inl (JStr ''boom'')) :: unit method_outcome) (Some (newTracer TInfo 9)))) =
   Some [[(''args'', ''[]'')]]"
  "map_option (\<lambda>tr. map sp_tags (getAllSpans tr))
     (fst (traced_call 0 1 ''pay'' ''[]'' (Direct (Inl (JStr ''boom'')) :: unit method_outcome) (Some (newTracer TInfo 9)))) =
   Some [[(''args'', ''[]''), (''error'', ''boom'')]]"
  by code_simp+

section \<open>Diagnostics stay bounded\<close>

text \<open>
  What the manager promises: a log of the events recorded while it was enabled, of which it
  keeps the latest, up to its bound.
\<close>

record diagnostics_log =
  dl_enabled :: bool
  dl_counter :: nat
  dl_log :: "DiagnosticEvent list"

fun diagnostics_spec :: "diagnostics_log \<Rightarrow> diagnostics_op \<Rightarrow> diagnostics_log" where
  "diagnostics_spec dl (DmRecord now ty data) =
     (if dl_enabled dl
      then dl\<lparr>dl_counter := dl_counter dl + 1, dl_log := dl_log dl @
        [\<lparr>de_id = ''diag_'' @ nat_str (dl_counter dl + 1), de_type = ty, de_timestamp = now, de_data = data\<rparr>]\<rparr>
      else dl)"
| "diagnostics_spec dl (DmEnable b) = dl\<lparr>dl_enabled := b\<rparr>"
| "diagnostics_spec dl DmClear = dl\<lparr>dl_log := []\<rparr>"
| "diagnostics_spec dl _ = dl"

definition diagnostics_refines :: "nat \<Rightarrow> DiagnosticsManager \<Rightarrow> diagnostics_log \<Rightarrow> bool" where
  "diagnostics_refines limit dm dl \<longleftrightarrow> dm_maxEvents dm = limit \<and> dm_enabled dm = dl_enabled dl \<and>
     dm_counter dm = dl_counter dl \<and> dm_events dm = newest limit (dl_log dl)"

lemma diagnostics_refines_step:
  assumes "diagnostics_refines limit dm dl"
  shows "diagnostics_refines limit (diagnostics_step dm oper) (diagnostics_spec dl oper)"
proof (cases oper)
  case (DmRecord now ty data)
  then show ?thesis
    using assms newest_snoc [of limit "dl_log dl"]
    by (simp add: diagnostics_refines_def dm_record_def Let_def)
qed (use assms in \<open>simp_all add: diagnostics_refines_def dm_setEnabled_def onDiagnosticEvent_def
    offDiagnosticEvent_def dm_clear_def newest_def\<close>)

lemma diagnostics_refines_run:
  "diagnostics_refines limit dm dl \<Longrightarrow>
    diagnostics_refines limit (foldl diagnostics_step dm ops) (foldl diagnostics_spec dl ops)"
  by (induction ops arbitrary: dm dl) (simp_all add: diagnostics_refines_step)

text \<open>The manager holds exactly the latest of the recorded events, as many as its bound allows.\<close>

theorem diagnostics_keep_latest:
  "dm_events (foldl diagnostics_step (newDiagnostics enabled limit) ops) =
     newest limit (dl_log (foldl diagnostics_spec \<lparr>dl_enabled = enabled, dl_counter = 0, dl_log = []\<rparr> ops)) \<and>
   length (dm_events (foldl diagnostics_step (newDiagnostics enabled limit) ops)) \<le> limit"
proof -
  have "diagnostics_refines limit (newDiagnostics enabled limit) \<lparr>dl_enabled = enabled, dl_counter = 0, dl_log = []\<rparr>"
    by (simp add: diagnostics_refines_def newDiagnostics_def newest_def)
  from diagnostics_refines_run [OF this, of ops] show ?thesis
    by (simp add: diagnostics_refines_def newest_def)
qed

text \<open>A report counts every event under its type.\<close>

lemma count_type_get: "jm_get (count_type m ty) k = (if k = ty then Some ((case jm_get m ty of None \<Rightarrow> 0 | Some n \<Rightarrow> n) + 1) else jm_get m k)"
  by (simp add: count_type_def)

lemma counted_types:
  "(case jm_get (foldl (\<lambda>m e. count_type m (de_type e)) m es) k of None \<Rightarrow> 0 | Some n \<Rightarrow> n) =
    (case jm_get m k of None \<Rightarrow> 0 | Some n \<Rightarrow> n) + length (filter (\<lambda>e. de_type e = k) es)"
  by (induction es arbitrary: m) (auto simp: count_type_get split: option.split)

theorem report_counts_types:
  "(case jm_get (dr_byType (dm_generateReport now dm)) ty of None \<Rightarrow> 0 | Some n \<Rightarrow> n) =
     length (getEvents (Some ty) None dm) \<or> ty = []"
  using counted_types [of "[]" "dm_events dm" ty] by (simp add: dm_generateReport_def getEvents_def)

end
