(* ===== verification/Telemetry.thy ===== *)
theory Telemetry
  imports Errors "HOL-Library.Multiset"
begin

text \<open>
  Metrics (\<open>metrics/metricsCollector.ts\<close>) and telemetry (\<open>telemetry/telemetryService.ts\<close>).

  The order of tags is that of \<open>localeCompare\<close>, which is a parameter: \<open>collate\<close> gives the rank of a name.
  The flush handler is outside; a flush gives the batch that it is called with, and what
  it raises is swallowed. Random parts of ids are arguments.

  The lemmas show that a counter is the sum of its increments and a gauge the last value, that
  telemetry events are buffered, handed over once or dropped for want of a handler, in order,
  that the buffer stays below its size, that the timer only runs while telemetry is
  enabled, and that anonymized data hides every sensitive key at any depth.
\<close>

section \<open>Metrics\<close>

type_synonym tags = "(string, string) jsmap"

record MetricCounter =
  mc_name :: string
  mc_value :: int
  mc_tags :: tags

record MetricGauge =
  mg_name :: string
  mg_value :: int
  mg_tags :: tags

record MetricHistogram =
  mh_name :: string
  mh_values :: "int list"
  mh_tags :: tags
  mh_buckets :: "int list"

record MetricsCollector =
  ms_counters :: "(string, MetricCounter) jsmap"
  ms_gauges :: "(string, MetricGauge) jsmap"
  ms_histograms :: "(string, MetricHistogram) jsmap"

definition newMetrics :: MetricsCollector where
  "newMetrics = \<lparr>ms_counters = [], ms_gauges = [], ms_histograms = []\<rparr>"

definition metric_key :: "(string \<Rightarrow> int) \<Rightarrow> string \<Rightarrow> tags \<Rightarrow> string" where
  "metric_key collate nm tags =
     (let tagStr = join_str '','' (map (\<lambda>(k, v). k @ ''='' @ v) (sort_key (\<lambda>(k, v). collate k) tags))
      in if tagStr \<noteq> [] then nm @ ''['' @ tagStr @ '']'' else nm)"

definition increment :: "(string \<Rightarrow> int) \<Rightarrow> string \<Rightarrow> tags \<Rightarrow> int \<Rightarrow> MetricsCollector \<Rightarrow> MetricsCollector" where
  "increment collate nm tags val ms =
     (let key = metric_key collate nm tags in
      ms\<lparr>ms_counters := jm_set key
        (case jm_get (ms_counters ms) key of
           Some c \<Rightarrow> c\<lparr>mc_value := mc_value c + val\<rparr>
         | None \<Rightarrow> \<lparr>mc_name = nm, mc_value = val, mc_tags = tags\<rparr>) (ms_counters ms)\<rparr>)"

definition gauge :: "(string \<Rightarrow> int) \<Rightarrow> string \<Rightarrow> int \<Rightarrow> tags \<Rightarrow> MetricsCollector \<Rightarrow> MetricsCollector" where
  "gauge collate nm val tags ms =
     ms\<lparr>ms_gauges := jm_set (metric_key collate nm tags) \<lparr>mg_name = nm, mg_value = val, mg_tags = tags\<rparr> (ms_gauges ms)\<rparr>"

definition observe ::
    "(string \<Rightarrow> int) \<Rightarrow> string \<Rightarrow> int \<Rightarrow> tags \<Rightarrow> int list \<Rightarrow> MetricsCollector \<Rightarrow> MetricsCollector" where
  "observe collate nm val tags buckets ms =
     (let key = metric_key collate nm tags in
      ms\<lparr>ms_histograms := jm_set key
        (case jm_get (ms_histograms ms) key of
           Some h \<Rightarrow> h\<lparr>mh_values := mh_values h @ [val]\<rparr>
         | None \<Rightarrow> \<lparr>mh_name = nm, mh_values = [val], mh_tags = tags, mh_buckets = buckets\<rparr>) (ms_histograms ms)\<rparr>)"

definition getCounter :: "(string \<Rightarrow> int) \<Rightarrow> string \<Rightarrow> tags \<Rightarrow> MetricsCollector \<Rightarrow> MetricCounter option" where
  "getCounter collate nm tags ms = jm_get (ms_counters ms) (metric_key collate nm tags)"

definition getGauge :: "(string \<Rightarrow> int) \<Rightarrow> string \<Rightarrow> tags \<Rightarrow> MetricsCollector \<Rightarrow> MetricGauge option" where
  "getGauge collate nm tags ms = jm_get (ms_gauges ms) (metric_key collate nm tags)"

record MetricsSnapshot =
  sn_timestamp :: int
  sn_counters :: "MetricCounter list"
  sn_gauges :: "MetricGauge list"
  sn_histograms :: "MetricHistogram list"

definition snapshot :: "int \<Rightarrow> MetricsCollector \<Rightarrow> MetricsSnapshot" where
  "snapshot now ms = \<lparr>sn_timestamp = now, sn_counters = jm_values (ms_counters ms),
     sn_gauges = jm_values (ms_gauges ms), sn_histograms = jm_values (ms_histograms ms)\<rparr>"

section \<open>Telemetry\<close>

record TelemetryConfig =
  tc_enabled :: bool
  tc_anonymize :: bool
  tc_bufferSize :: nat
  tc_flushIntervalMs :: nat

definition DEFAULT_TELEMETRY_CONFIG :: TelemetryConfig where
  "DEFAULT_TELEMETRY_CONFIG =
     \<lparr>tc_enabled = False, tc_anonymize = True, tc_bufferSize = 50, tc_flushIntervalMs = 30000\<rparr>"

record TelemetryUpdates =
  tu_enabled :: "bool option"
  tu_anonymize :: "bool option"
  tu_bufferSize :: "nat option"
  tu_flushIntervalMs :: "nat option"

definition given_value :: "'a option \<Rightarrow> 'a \<Rightarrow> 'a" where
  "given_value x d = (case x of None \<Rightarrow> d | Some v \<Rightarrow> v)"

definition merge_config :: "TelemetryUpdates \<Rightarrow> TelemetryConfig \<Rightarrow> TelemetryConfig" where
  "merge_config u c = \<lparr>tc_enabled = given_value (tu_enabled u) (tc_enabled c),
     tc_anonymize = given_value (tu_anonymize u) (tc_anonymize c),
     tc_bufferSize = given_value (tu_bufferSize u) (tc_bufferSize c),
     tc_flushIntervalMs = given_value (tu_flushIntervalMs u) (tc_flushIntervalMs c)\<rparr>"

definition sensitive_parts :: "string list" where
  "sensitive_parts = [''address'', ''publicKey'', ''email'', ''userId'', ''account'']"

definition sensitive_key :: "string \<Rightarrow> bool" where
  "sensitive_key key \<longleftrightarrow> list_ex (\<lambda>k. str_includes (js_lower key) (js_lower k)) sensitive_parts"

text \<open>
  \<open>Object.entries\<close> lists an array under its indices and of an error only its own enumerable
  properties; the result is an object in each case.
\<close>

fun anonymize :: "jsv \<Rightarrow> jsv"
  and anonymize_entries :: "props \<Rightarrow> props"
  and anonymize_items :: "nat \<Rightarrow> jsv list \<Rightarrow> props" where
  "anonymize (JObj ps) = JObj (anonymize_entries ps)"
| "anonymize (JErr n m ps) = JObj (anonymize_entries ps)"
| "anonymize (JArr xs) = JObj (anonymize_items 0 xs)"
| "anonymize v = v"
| "anonymize_entries [] = []"
| "anonymize_entries ((k, v) # ps) =
     (k, if sensitive_key k then JStr ''[REDACTED]'' else anonymize v) # anonymize_entries ps"
| "anonymize_items i [] = []"
| "anonymize_items i (v # vs) = (nat_str i, anonymize v) # anonymize_items (Suc i) vs"

record TelemetryEvent =
  te_id :: string
  te_type :: string
  te_timestamp :: int
  te_data :: props
  te_anonymized :: bool

text \<open>
  \<open>tl_handler\<close> is whether a flush handler is set; \<open>tl_interval\<close> the interval of the timer that is
  running.
\<close>

record TelemetryService =
  tl_config :: TelemetryConfig
  tl_events :: "TelemetryEvent list"
  tl_metrics :: MetricsCollector
  tl_interval :: "nat option"
  tl_handler :: bool
  tl_counter :: nat

definition startFlushTimer :: "TelemetryService \<Rightarrow> TelemetryService" where
  "startFlushTimer t = t\<lparr>tl_interval := Some (tc_flushIntervalMs (tl_config t))\<rparr>"

definition stopFlushTimer :: "TelemetryService \<Rightarrow> TelemetryService" where
  "stopFlushTimer t = t\<lparr>tl_interval := None\<rparr>"

definition newTelemetry :: "TelemetryUpdates \<Rightarrow> TelemetryService" where
  "newTelemetry u =
     (let t = \<lparr>tl_config = merge_config u DEFAULT_TELEMETRY_CONFIG, tl_events = [], tl_metrics = newMetrics,
               tl_interval = None, tl_handler = False, tl_counter = 0\<rparr>
      in if tc_enabled (tl_config t) then startFlushTimer t else t)"

text \<open>An operation gives the new state and the batch that left the buffer, if any.\<close>

definition tl_flush :: "TelemetryService \<Rightarrow> TelemetryService \<times> TelemetryEvent list" where
  "tl_flush t = (t\<lparr>tl_events := []\<rparr>, tl_events t)"

definition tl_track ::
    "int \<Rightarrow> string \<Rightarrow> string \<Rightarrow> props \<Rightarrow> TelemetryService \<Rightarrow> TelemetryService \<times> TelemetryEvent list" where
  "tl_track now random ty data t =
     (if \<not> tc_enabled (tl_config t) then (t, [])
      else let n = tl_counter t + 1;
               event = \<lparr>te_id = int_str now @ ''-'' @ nat_str n @ ''-'' @ random, te_type = ty, te_timestamp = now,
                 te_data = (if tc_anonymize (tl_config t) then anonymize_entries data else data),
                 te_anonymized = tc_anonymize (tl_config t)\<rparr>;
               t' = t\<lparr>tl_counter := n, tl_events := tl_events t @ [event]\<rparr>
           in if tc_bufferSize (tl_config t') \<le> length (tl_events t') then tl_flush t' else (t', []))"

definition tl_setEnabled :: "bool \<Rightarrow> TelemetryService \<Rightarrow> TelemetryService" where
  "tl_setEnabled enabled t =
     (let t' = t\<lparr>tl_config := (tl_config t)\<lparr>tc_enabled := enabled\<rparr>\<rparr>
      in if enabled then startFlushTimer t' else stopFlushTimer t')"

definition tl_updateConfig :: "TelemetryUpdates \<Rightarrow> TelemetryService \<Rightarrow> TelemetryService \<times> TelemetryEvent list" where
  "tl_updateConfig u t =
     (let wasEnabled = tc_enabled (tl_config t);
          t' = t\<lparr>tl_config := merge_config u (tl_config t)\<rparr>
      in if \<not> wasEnabled \<and> tc_enabled (tl_config t') then (startFlushTimer t', [])
         else if wasEnabled \<and> \<not> tc_enabled (tl_config t') then tl_flush (stopFlushTimer t')
         else (t', []))"

definition tl_onFlush :: "TelemetryService \<Rightarrow> TelemetryService" where
  "tl_onFlush t = t\<lparr>tl_handler := True\<rparr>"

definition tl_destroy :: "TelemetryService \<Rightarrow> TelemetryService \<times> TelemetryEvent list" where
  "tl_destroy t = (case tl_flush (stopFlushTimer t) of (t', batch) \<Rightarrow> (t'\<lparr>tl_metrics := newMetrics\<rparr>, batch))"

datatype telemetry_op =
    TlTrack int string string props
  | TlEnable bool
  | TlUpdate TelemetryUpdates
  | TlOnFlush
  | TlFlush
  | TlTick
  | TlDestroy

fun telemetry_step :: "TelemetryService \<Rightarrow> telemetry_op \<Rightarrow> TelemetryService \<times> TelemetryEvent list" where
  "telemetry_step t (TlTrack now random ty data) = tl_track now random ty data t"
| "telemetry_step t (TlEnable b) = (tl_setEnabled b t, [])"
| "telemetry_step t (TlUpdate u) = tl_updateConfig u t"
| "telemetry_step t TlOnFlush = (tl_onFlush t, [])"
| "telemetry_step t TlFlush = tl_flush t"
| "telemetry_step t TlTick = (case tl_interval t of None \<Rightarrow> (t, []) | Some _ \<Rightarrow> tl_flush t)"
| "telemetry_step t TlDestroy = tl_destroy t"

text \<open>The handler is called with a batch that is not empty, if it is set.\<close>

definition delivered_batch :: "TelemetryService \<Rightarrow> TelemetryEvent list \<Rightarrow> TelemetryEvent list list" where
  "delivered_batch t batch = (if batch = [] \<or> \<not> tl_handler t then [] else [batch])"

section \<open>What metrics hold\<close>

definition counter_value :: "(string \<Rightarrow> int) \<Rightarrow> string \<Rightarrow> tags \<Rightarrow> MetricsCollector \<Rightarrow> int" where
  "counter_value collate nm tags ms = (case getCounter collate nm tags ms of None \<Rightarrow> 0 | Some c \<Rightarrow> mc_value c)"

lemma increment_adds:
  "counter_value collate nm tags (increment collate nm' tags' val ms) =
    counter_value collate nm tags ms + (if metric_key collate nm tags = metric_key collate nm' tags' then val else 0)"
  by (auto simp: counter_value_def getCounter_def increment_def Let_def split: option.split)

text \<open>A counter is the sum of the increments under its key, whatever else is counted in between.\<close>

theorem counter_sums_increments:
  "counter_value collate nm tags (foldl (\<lambda>ms (nm', tags', val). increment collate nm' tags' val ms) ms incs) =
     counter_value collate nm tags ms +
     sum_list [val. (nm', tags', val) \<leftarrow> incs, metric_key collate nm' tags' = metric_key collate nm tags]"
  by (induction incs arbitrary: ms) (auto simp: increment_adds)

lemma gauge_last: "getGauge collate nm tags (gauge collate nm val tags ms) = Some \<lparr>mg_name = nm, mg_value = val, mg_tags = tags\<rparr>"
  by (simp add: getGauge_def gauge_def)

text \<open>The order in which tags are given does not matter when their names have different ranks.\<close>

lemma key_order_independent:
  assumes "mset tags = mset tags'" and "inj_on collate (fst ` set tags)" and "jm_ok tags"
  shows "metric_key collate nm tags = metric_key collate nm tags'"
proof -
  have "inj_on (\<lambda>(k, v). collate k) (set tags)"
  proof (rule inj_onI)
    fix p q assume pq: "p \<in> set tags" "q \<in> set tags" "(case p of (k, v) \<Rightarrow> collate k) = (case q of (k, v) \<Rightarrow> collate k)"
    then have "collate (fst p) = collate (fst q)" by (simp add: case_prod_beta)
    then have "fst p = fst q" using assms(2) pq by (auto dest: inj_onD)
    then show "p = q" using pq assms(3) by (metis eq_key_imp_eq_value jm_ok_def prod.collapse)
  qed
  then have "sort_key (\<lambda>(k, v). collate k) tags = sort_key (\<lambda>(k, v). collate k) tags'"
    using assms(1) by (intro sort_key_inj_key_eq) simp_all
  then show ?thesis by (simp add: metric_key_def)
qed

text \<open>Different tags can share a key: a value is not escaped.\<close>

lemma metric_keys_collide:
  "metric_key (\<lambda>k. int (length k)) ''n'' [(''a'', ''1,bb=2'')] = metric_key (\<lambda>k. int (length k)) ''n'' [(''a'', ''1''), (''bb'', ''2'')]"
  by code_simp

section \<open>Every event once\<close>

fun created :: "TelemetryService \<Rightarrow> telemetry_op \<Rightarrow> TelemetryEvent list" where
  "created t (TlTrack now random ty data) =
     (if tc_enabled (tl_config t)
      then [\<lparr>te_id = int_str now @ ''-'' @ nat_str (tl_counter t + 1) @ ''-'' @ random, te_type = ty, te_timestamp = now,
             te_data = (if tc_anonymize (tl_config t) then anonymize_entries data else data),
             te_anonymized = tc_anonymize (tl_config t)\<rparr>]
      else [])"
| "created t _ = []"

fun telemetry_run :: "TelemetryService \<Rightarrow> telemetry_op list \<Rightarrow> TelemetryService \<times> TelemetryEvent list \<times> TelemetryEvent list" where
  "telemetry_run t [] = (t, [], [])"
| "telemetry_run t (oper # ops) =
     (case telemetry_step t oper of (t1, batch) \<Rightarrow>
        case telemetry_run t1 ops of (t2, out, made) \<Rightarrow> (t2, batch @ out, created t oper @ made))"

lemma step_keeps_events: "telemetry_step t oper = (t', batch) \<Longrightarrow> batch @ tl_events t' = tl_events t @ created t oper"
  by (cases oper)
    (auto simp: tl_track_def tl_flush_def tl_setEnabled_def tl_updateConfig_def tl_onFlush_def tl_destroy_def
      startFlushTimer_def stopFlushTimer_def Let_def split: if_splits option.splits)

text \<open>
  What has left the buffer, followed by what is in it, is what was tracked while telemetry was
  enabled, in order, each event once; a flush leaves the buffer empty.
\<close>

theorem telemetry_keeps_order:
  "case telemetry_run t ops of (t', out, made) \<Rightarrow> out @ tl_events t' = tl_events t @ made"
proof (induction ops arbitrary: t)
  case (Cons oper ops)
  obtain t1 batch where s: "telemetry_step t oper = (t1, batch)" by fastforce
  obtain t2 out made where r: "telemetry_run t1 ops = (t2, out, made)" by (metis prod_cases3)
  show ?case
    using Cons.IH [of t1] step_keeps_events [OF s] by (simp add: s r)
qed simp

lemma tracking_bounds_buffer:
  "tc_enabled (tl_config t) \<Longrightarrow>
    tl_events (fst (tl_track now random ty data t)) = [] \<or>
    length (tl_events (fst (tl_track now random ty data t))) < tc_bufferSize (tl_config t)"
  by (auto simp: tl_track_def tl_flush_def Let_def)

section \<open>The timer\<close>

definition timer_inv :: "TelemetryService \<Rightarrow> bool" where
  "timer_inv t \<longleftrightarrow> (tl_interval t = None \<or> tc_enabled (tl_config t))"

interpretation telemetry: invariant_machine timer_inv "\<lambda>t oper. fst (telemetry_step t oper)" "newTelemetry u" for u
proof
  show "timer_inv (newTelemetry u)" by (simp add: timer_inv_def newTelemetry_def startFlushTimer_def Let_def)
  show "timer_inv (fst (telemetry_step t oper))" if "timer_inv t" for t oper
    using that
    by (cases oper) (auto simp: timer_inv_def tl_track_def tl_flush_def tl_setEnabled_def tl_updateConfig_def
        tl_onFlush_def tl_destroy_def startFlushTimer_def stopFlushTimer_def Let_def split: option.split)
qed

text \<open>While telemetry is disabled no timer runs and a track changes nothing.\<close>

theorem disabled_telemetry_is_idle:
  assumes "t = foldl (\<lambda>t oper. fst (telemetry_step t oper)) (newTelemetry u) ops" and "\<not> tc_enabled (tl_config t)"
  shows "tl_interval t = None \<and> tl_track now random ty data t = (t, []) \<and> telemetry_step t TlTick = (t, [])"
  using telemetry.inv_run [of u ops] assms by (simp add: timer_inv_def tl_track_def)

definition no_updates :: TelemetryUpdates where
  "no_updates = \<lparr>tu_enabled = None, tu_anonymize = None, tu_bufferSize = None, tu_flushIntervalMs = None\<rparr>"

lemma disabled_telemetry_is_idle_witness:
  "tl_interval (fst (telemetry_step (fst (telemetry_step (newTelemetry no_updates) (TlEnable True))) (TlEnable False))) = None"
  using disabled_telemetry_is_idle [OF refl, of no_updates "[TlEnable True, TlEnable False]"]
  by (simp add: tl_setEnabled_def stopFlushTimer_def Let_def)

text \<open>A new flush interval does not reach a timer that is running.\<close>

lemma interval_update_ignored:
  "tl_interval (fst (tl_updateConfig (no_updates\<lparr>tu_flushIntervalMs := Some 5\<rparr>)
     (newTelemetry (no_updates\<lparr>tu_enabled := Some True\<rparr>)))) = Some 30000"
  by (simp add: tl_updateConfig_def newTelemetry_def startFlushTimer_def merge_config_def given_value_def no_updates_def
      DEFAULT_TELEMETRY_CONFIG_def Let_def)

section \<open>Anonymity\<close>

fun anonymous :: "jsv \<Rightarrow> bool" where
  "anonymous (JObj ps) = list_all (\<lambda>(k, v). if sensitive_key k then v = JStr ''[REDACTED]'' else anonymous v) ps"
| "anonymous (JArr _) = False"
| "anonymous (JErr _ _ _) = False"
| "anonymous _ = True"

lemma index_not_sensitive: "\<not> sensitive_key (nat_str n)"
proof
  assume "sensitive_key (nat_str n)"
  then obtain p where p: "p \<in> set sensitive_parts" "str_includes (js_lower (nat_str n)) (js_lower p)"
    by (auto simp: sensitive_key_def list_ex_iff)
  have "list_all (\<lambda>p. p \<noteq> [] \<and> \<not> is_digit (hd (js_lower p))) sensitive_parts" by code_simp
  then have h: "js_lower p \<noteq> []" "\<not> is_digit (hd (js_lower p))"
    using p(1) by (auto simp: list_all_iff js_lower_def)
  then have "hd (js_lower p) \<in> set (js_lower (nat_str n))"
    using p(2) by (auto simp: str_includes_iff)
  moreover have "lower_char c = c" if "is_digit c" for c
    using that by (auto simp: is_digit_def lower_char_def Let_def)
  then have "list_all is_digit (js_lower (nat_str n))"
    using nat_str_digits [of n] by (auto simp: js_lower_def list_all_iff)
  ultimately show False using h(2) by (auto simp: list_all_iff)
qed

text \<open>
  Anonymized data is plain JSON in which, at any depth, every key that contains a sensitive word
  in any case holds the placeholder.
\<close>

lemma anonymized:
  "anonymous (anonymize v)"
  "list_all (\<lambda>(k, v). if sensitive_key k then v = JStr ''[REDACTED]'' else anonymous v) (anonymize_entries ps)"
  "list_all (\<lambda>(k, v). if sensitive_key k then v = JStr ''[REDACTED]'' else anonymous v) (anonymize_items i vs)"
  by (induction v and ps and i vs rule: anonymize_anonymize_entries_anonymize_items.induct)
    (auto simp: index_not_sensitive)

text \<open>
  Events tracked with anonymization on carry data in which every sensitive key is hidden at any
  depth; data without arrays, errors and sensitive keys is tracked as it is.
\<close>

theorem tracked_data_anonymous:
  "case created t oper of
     [] \<Rightarrow> True
   | e # es \<Rightarrow> es = [] \<and> te_anonymized e = tc_anonymize (tl_config t) \<and>
       (\<not> te_anonymized e \<or> anonymous (JObj (te_data e)))"
  by (cases oper) (simp_all add: anonymized)

lemma anonymize_id: "anonymous v \<Longrightarrow> anonymize v = v"
  and "list_all (\<lambda>(k, v). if sensitive_key k then v = JStr ''[REDACTED]'' else anonymous v) ps \<Longrightarrow> anonymize_entries ps = ps"
  and "anonymize_items i vs = anonymize_items i vs"
  by (induction v and ps and i vs rule: anonymize_anonymize_entries_anonymize_items.induct) auto

text \<open>Arrays come out as objects, and the message of an error is dropped.\<close>

lemma arrays_become_objects: "anonymize (JArr [JNum 7]) = JObj [(''0'', JNum 7)]"
  by (simp add: nat_str.simps) code_simp

end
