(* ===== verification/Profiling.thy ===== *)
theory Profiling
  imports Errors Complex_Main "HOL-Library.Multiset"
begin

text \<open>
  The profiling service (\<open>profiling/profilingService.ts\<close>): profiled calls and the report over them.

  Clock values are rational numbers, in milliseconds. A profiled call is cut at its \<open>await\<close>: it
  starts with the readings of the clocks and of the memory, and ends with the outcome of the
  operation. The product with \<open>0.95\<close> is exact here, where the code has doubles.

  The lemmas show that profiling changes no result, that calls are numbered and timed, and that
  the figures of a report describe its calls: sums, the average between the extremes, the
  percentile, and the counts by type.
\<close>

datatype ProfilingLevel = POff | PBasic | PDetailed

datatype call_type = ContractCall | RpcCall | CustomCall

record ProfiledCallMetric =
  pm_id :: string
  pm_name :: string
  pm_type :: call_type
  pm_startedAt :: string
  pm_endedAt :: string
  pm_durationMs :: rat
  pm_success :: bool
  pm_metadata :: "props option"
  pm_errorMessage :: "string option"
  pm_memoryDeltaBytes :: "int option"

record ProfilingService =
  pf_enabled :: bool
  pf_level :: ProfilingLevel
  pf_metrics :: "ProfiledCallMetric list"
  pf_nextId :: nat

definition newProfiling :: "bool option \<Rightarrow> ProfilingLevel option \<Rightarrow> ProfilingService" where
  "newProfiling enabled level =
     (let en = (case enabled of None \<Rightarrow> False | Some b \<Rightarrow> b) in
      \<lparr>pf_enabled = en, pf_level = (case level of None \<Rightarrow> if en then PBasic else POff | Some l \<Rightarrow> l),
       pf_metrics = [], pf_nextId = 1\<rparr>)"

definition pf_enable :: "ProfilingLevel \<Rightarrow> ProfilingService \<Rightarrow> ProfilingService" where
  "pf_enable level pf = pf\<lparr>pf_enabled := True, pf_level := level\<rparr>"

definition pf_disable :: "ProfilingService \<Rightarrow> ProfilingService" where
  "pf_disable pf = pf\<lparr>pf_enabled := False, pf_level := POff\<rparr>"

definition pf_isEnabled :: "ProfilingService \<Rightarrow> bool" where
  "pf_isEnabled pf \<longleftrightarrow> pf_enabled pf \<and> pf_level pf \<noteq> POff"

definition pf_clear :: "ProfilingService \<Rightarrow> ProfilingService" where
  "pf_clear pf = pf\<lparr>pf_metrics := []\<rparr>"

text \<open>What a call keeps while it waits; nothing when profiling was off.\<close>

record open_call =
  op_name :: string
  op_type :: "call_type option"
  op_metadata :: "props option"
  op_startedAt :: string
  op_start :: rat
  op_memoryStart :: "int option"

definition read_memory :: "int option \<Rightarrow> ProfilingService \<Rightarrow> int option" where
  "read_memory memory pf = (if pf_level pf = PDetailed then memory else None)"

definition profile_start ::
    "string \<Rightarrow> call_type option \<Rightarrow> props option \<Rightarrow> string \<Rightarrow> rat \<Rightarrow> int option \<Rightarrow> ProfilingService \<Rightarrow> open_call option" where
  "profile_start nm ty metadata wall now memory pf =
     (if \<not> pf_isEnabled pf then None
      else Some \<lparr>op_name = nm, op_type = ty, op_metadata = metadata, op_startedAt = wall, op_start = now,
             op_memoryStart = read_memory memory pf\<rparr>)"

definition record_call ::
    "open_call \<Rightarrow> bool \<Rightarrow> string option \<Rightarrow> string \<Rightarrow> rat \<Rightarrow> int option \<Rightarrow> ProfilingService \<Rightarrow> ProfilingService" where
  "record_call oc success errorMessage wall now memory pf =
     (let memoryEnd = read_memory memory pf;
          delta = (case (op_memoryStart oc, memoryEnd) of (Some a, Some b) \<Rightarrow> Some (b - a) | _ \<Rightarrow> None)
      in pf\<lparr>pf_nextId := pf_nextId pf + 1, pf_metrics := pf_metrics pf @
           [\<lparr>pm_id = ''profile-'' @ nat_str (pf_nextId pf), pm_name = op_name oc,
             pm_type = (case op_type oc of None \<Rightarrow> CustomCall | Some t \<Rightarrow> t), pm_startedAt = op_startedAt oc,
             pm_endedAt = wall, pm_durationMs = max 0 (now - op_start oc), pm_success = success,
             pm_metadata = op_metadata oc, pm_errorMessage = errorMessage, pm_memoryDeltaBytes = delta\<rparr>]\<rparr>)"

definition error_message :: "thrown \<Rightarrow> string" where
  "error_message e = (case e of AxErr c m s r ori \<Rightarrow> m | Raw (JErr n m ps) \<Rightarrow> m | Raw v \<Rightarrow> js_String v)"

text \<open>The operation settles: its outcome is passed on.\<close>

definition profile_end ::
    "open_call option \<Rightarrow> thrown + 'v \<Rightarrow> string \<Rightarrow> rat \<Rightarrow> int option \<Rightarrow> ProfilingService \<Rightarrow> ProfilingService \<times> (thrown + 'v)" where
  "profile_end call outcome wall now memory pf =
     (case call of
        None \<Rightarrow> (pf, outcome)
      | Some oc \<Rightarrow>
          (case outcome of
             Inr v \<Rightarrow> (record_call oc True None wall now memory pf, outcome)
           | Inl e \<Rightarrow> (record_call oc False (Some (error_message e)) wall now memory pf, outcome)))"

text \<open>\<open>profileContractCall\<close> and \<open>profileRpcCall\<close>: the name, the type and the metadata they pass.\<close>

definition contract_call :: "string \<Rightarrow> string \<Rightarrow> props \<Rightarrow> string \<times> call_type option \<times> props option" where
  "contract_call contract method metadata = (contract @ ''.'' @ method, Some ContractCall,
     Some (obj_spread [(''contract'', JStr contract), (''method'', JStr method)] metadata))"

definition rpc_call :: "string \<Rightarrow> props \<Rightarrow> string \<times> call_type option \<times> props option" where
  "rpc_call method metadata = (method, Some RpcCall, Some (obj_spread [(''method'', JStr method)] metadata))"

section \<open>The report\<close>

record type_figures =
  tf_count :: nat
  tf_averageDurationMs :: rat
  tf_maxDurationMs :: rat

record ProfilingReport =
  pr_generatedAt :: string
  pr_enabled :: bool
  pr_level :: ProfilingLevel
  pr_totalCalls :: nat
  pr_successfulCalls :: nat
  pr_failedCalls :: nat
  pr_averageDurationMs :: rat
  pr_p95DurationMs :: rat
  pr_slowestCall :: "ProfiledCallMetric option"
  pr_byType :: "(call_type, type_figures) jsmap"
  pr_calls :: "ProfiledCallMetric list"

definition add_to_bucket :: "(call_type, type_figures) jsmap \<Rightarrow> ProfiledCallMetric \<Rightarrow> (call_type, type_figures) jsmap" where
  "add_to_bucket m call =
     (let b = (case jm_get m (pm_type call) of
                 None \<Rightarrow> \<lparr>tf_count = 0, tf_averageDurationMs = 0, tf_maxDurationMs = 0\<rparr> | Some b \<Rightarrow> b)
      in jm_set (pm_type call) \<lparr>tf_count = tf_count b + 1,
           tf_averageDurationMs = tf_averageDurationMs b + pm_durationMs call,
           tf_maxDurationMs = max (tf_maxDurationMs b) (pm_durationMs call)\<rparr> m)"

definition average_bucket :: "type_figures \<Rightarrow> type_figures" where
  "average_bucket b = b\<lparr>tf_averageDurationMs :=
     (if tf_count b = 0 then 0 else tf_averageDurationMs b / of_nat (tf_count b))\<rparr>"

definition by_type :: "ProfiledCallMetric list \<Rightarrow> (call_type, type_figures) jsmap" where
  "by_type calls = map (\<lambda>(t, b). (t, average_bucket b)) (foldl add_to_bucket [] calls)"

definition p95_index :: "nat \<Rightarrow> int" where
  "p95_index n = (if n = 0 then -1 else \<lceil>of_nat n * (95 / 100 :: rat)\<rceil> - 1)"

definition slowest :: "ProfiledCallMetric list \<Rightarrow> ProfiledCallMetric option" where
  "slowest calls = foldl (\<lambda>best call. case best of
      None \<Rightarrow> Some call
    | Some b \<Rightarrow> if pm_durationMs b < pm_durationMs call then Some call else best) None calls"

definition pf_generateReport :: "string \<Rightarrow> ProfilingService \<Rightarrow> ProfilingReport" where
  "pf_generateReport now pf =
     (let calls = pf_metrics pf;
          durations = sort (map pm_durationMs calls);
          p95Index = p95_index (length durations)
      in \<lparr>pr_generatedAt = now, pr_enabled = pf_isEnabled pf, pr_level = pf_level pf,
          pr_totalCalls = length calls,
          pr_successfulCalls = length (filter pm_success calls),
          pr_failedCalls = length (filter (\<lambda>c. \<not> pm_success c) calls),
          pr_averageDurationMs = (if length calls = 0 then 0 else sum_list durations / of_nat (length calls)),
          pr_p95DurationMs = (if p95Index < 0 then 0 else durations ! nat p95Index),
          pr_slowestCall = slowest calls, pr_byType = by_type calls, pr_calls = calls\<rparr>)"

section \<open>Calls\<close>

datatype profiling_op =
    PfEnable ProfilingLevel
  | PfDisable
  | PfClear
  | PfEnd "open_call option" "thrown + jsv" string rat "int option"

fun profiling_step :: "ProfilingService \<Rightarrow> profiling_op \<Rightarrow> ProfilingService" where
  "profiling_step pf (PfEnable l) = pf_enable l pf"
| "profiling_step pf PfDisable = pf_disable pf"
| "profiling_step pf PfClear = pf_clear pf"
| "profiling_step pf (PfEnd call outcome wall now memory) = fst (profile_end call outcome wall now memory pf)"

definition profiling_inv :: "ProfilingService \<Rightarrow> bool" where
  "profiling_inv pf \<longleftrightarrow> distinct (map pm_id (pf_metrics pf)) \<and>
     list_all (\<lambda>c. 0 \<le> pm_durationMs c \<and> (pm_success c \<longleftrightarrow> pm_errorMessage c = None) \<and>
       (\<exists>n < pf_nextId pf. pm_id c = ''profile-'' @ nat_str n)) (pf_metrics pf)"

lemma record_call_inv:
  assumes "profiling_inv pf" and "ok \<longleftrightarrow> err = None"
  shows "profiling_inv (record_call oc ok err wall now memory pf)"
proof -
  have "''profile-'' @ nat_str (pf_nextId pf) \<notin> set (map pm_id (pf_metrics pf))"
    using assms(1) by (auto simp: profiling_inv_def list_all_iff)
  then show ?thesis
    using assms by (auto simp: profiling_inv_def record_call_def Let_def list_all_iff less_Suc_eq)
qed

interpretation profiling: invariant_machine profiling_inv profiling_step "newProfiling en lv" for en lv
proof
  show "profiling_inv (newProfiling en lv)" by (simp add: profiling_inv_def newProfiling_def Let_def)
  show "profiling_inv (profiling_step pf oper)" if inv: "profiling_inv pf" for pf oper
  proof (cases oper)
    case (PfEnd call outcome wall now memory)
    then show ?thesis
      using inv record_call_inv [OF inv, of True None] record_call_inv [OF inv, of False "Some m" for m]
      by (simp add: profile_end_def split: option.split sum.split)
  qed (use inv in \<open>simp_all add: profiling_inv_def pf_enable_def pf_disable_def pf_clear_def\<close>)
qed

text \<open>
  Profiling passes every outcome on, adds one call to the list if it was on when the call
  started and none otherwise, and keeps ids apart, durations non-negative and an error message
  exactly on failed calls.
\<close>

theorem profiling_transparent:
  "profile_end call outcome wall now memory pf =
     (profiling_step (pf :: ProfilingService) (PfEnd call (map_sum id (\<lambda>_. JUndef) outcome) wall now memory), outcome) \<and>
   length (pf_metrics (fst (profile_end call outcome wall now memory pf))) =
     length (pf_metrics pf) + (case call of None \<Rightarrow> 0 | Some _ \<Rightarrow> 1) \<and>
   (profile_start nm ty md w t mem pf = None) = (\<not> pf_isEnabled pf)"
  by (simp add: profile_end_def record_call_def profile_start_def Let_def split: option.split sum.split)

section \<open>Figures of a report\<close>

lemma sorted_count_le:
  assumes "sorted xs" and "k < length xs"
  shows "k + 1 \<le> length (filter (\<lambda>x. x \<le> xs ! k) xs)"
proof -
  have "length (filter (\<lambda>x. x \<le> xs ! k) (take (Suc k) xs)) = Suc k"
  proof -
    have "\<forall>x \<in> set (take (Suc k) xs). x \<le> xs ! k"
      using assms by (auto simp: in_set_conv_nth sorted_nth_mono)
    then have "filter (\<lambda>x. x \<le> xs ! k) (take (Suc k) xs) = take (Suc k) xs" by (simp add: filter_id_conv)
    then show ?thesis using assms(2) by simp
  qed
  moreover have "length (filter P (take n xs)) \<le> length (filter P xs)" for P n
    by (metis append_take_drop_id filter_append le_add1 length_append)
  ultimately show ?thesis by (metis Suc_eq_plus1)
qed

lemma sorted_count_less:
  assumes "sorted xs" and "k < length xs"
  shows "length (filter (\<lambda>x. x < xs ! k) xs) \<le> k"
proof -
  have "filter (\<lambda>x. x < xs ! k) (drop k xs) = []"
    using assms by (auto simp: filter_empty_conv in_set_conv_nth not_less sorted_nth_mono)
  then have "filter (\<lambda>x. x < xs ! k) xs = filter (\<lambda>x. x < xs ! k) (take k xs)"
    by (metis append_take_drop_id filter_append self_append_conv)
  then show ?thesis using length_filter_le [of "\<lambda>x. x < xs ! k" "take k xs"] by simp
qed

lemma p95_index_bounds:
  assumes "0 < n"
  shows "0 \<le> p95_index n" "nat (p95_index n) < n" "95 * n \<le> 100 * (nat (p95_index n) + 1)"
    "100 * nat (p95_index n) < 95 * n"
proof -
  let ?x = "of_nat n * (95 / 100 :: rat)"
  have pos: "0 < ?x" and le: "?x \<le> of_nat n" using assms by simp_all
  have c: "?x \<le> of_int \<lceil>?x\<rceil>" "of_int \<lceil>?x\<rceil> < ?x + 1" by linarith+
  have "0 < \<lceil>?x\<rceil>" using pos by simp
  then show i: "0 \<le> p95_index n" using assms by (simp add: p95_index_def)
  have "\<lceil>?x\<rceil> \<le> int n" using le by (simp add: ceiling_le_iff)
  then show "nat (p95_index n) < n" using assms i by (simp add: p95_index_def)
  define y :: rat where "y = of_int \<lceil>?x\<rceil>"
  have c: "?x \<le> y" "y < ?x + 1" using c by (simp_all only: y_def)
  have r: "of_nat (nat (p95_index n)) = y - 1"
    using i assms by (simp add: p95_index_def y_def)
  have "(of_nat (95 * n) :: rat) \<le> of_nat (100 * (nat (p95_index n) + 1))" using c(1) r by simp
  then show "95 * n \<le> 100 * (nat (p95_index n) + 1)" using of_nat_le_iff by blast
  have "(of_nat (100 * nat (p95_index n)) :: rat) < of_nat (95 * n)" using c(2) r by simp
  then show "100 * nat (p95_index n) < 95 * n" using of_nat_less_iff by blast
qed

lemma length_filter_sort: "length (filter P (sort xs)) = length (filter P xs)"
  by (metis mset_filter mset_sort size_mset)

text \<open>
  The reported percentile is the duration of a call such that at least 95 percent of the calls
  took no longer and fewer than 95 percent were faster; the average lies between the extremes;
  successes and failures add up.
\<close>

theorem report_figures:
  assumes "pf_metrics pf \<noteq> []"
  shows "let r = pf_generateReport now pf; n = pr_totalCalls r;
             took = (\<lambda>P. length (filter (\<lambda>c. P (pm_durationMs c)) (pr_calls r)))
         in 95 * n \<le> 100 * took (\<lambda>d. d \<le> pr_p95DurationMs r) \<and> 100 * took (\<lambda>d. d < pr_p95DurationMs r) < 95 * n \<and>
            (\<exists>c \<in> set (pr_calls r). pm_durationMs c = pr_p95DurationMs r) \<and>
            pr_successfulCalls r + pr_failedCalls r = n"
proof -
  let ?c = "pf_metrics pf" let ?d = "map pm_durationMs ?c" let ?s = "sort ?d" let ?k = "nat (p95_index (length ?c))"
  have n: "0 < length ?c" using assms by simp
  note b = p95_index_bounds [OF n]
  have p: "pr_p95DurationMs (pf_generateReport now pf) = ?s ! ?k"
    using b(1) by (simp add: pf_generateReport_def Let_def)
  have took: "length (filter (\<lambda>c. P (pm_durationMs c)) ?c) = length (filter P ?s)" for P
    by (simp add: length_filter_sort filter_map comp_def)
  have "?k + 1 \<le> length (filter (\<lambda>x. x \<le> ?s ! ?k) ?s)" using b(2) by (intro sorted_count_le) simp_all
  from order_trans [OF b(3) mult_le_mono2 [OF this]]
  have "95 * length ?c \<le> 100 * length (filter (\<lambda>x. x \<le> ?s ! ?k) ?s)" .
  moreover have "length (filter (\<lambda>x. x < ?s ! ?k) ?s) \<le> ?k" using b(2) by (intro sorted_count_less) simp_all
  from le_less_trans [OF mult_le_mono2 [OF this] b(4)]
  have "100 * length (filter (\<lambda>x. x < ?s ! ?k) ?s) < 95 * length ?c" .
  moreover have "?s ! ?k \<in> set ?d" using b(2) nth_mem [of ?k ?s] by simp
  then have "\<exists>c \<in> set ?c. pm_durationMs c = ?s ! ?k" by auto
  moreover have "length (filter pm_success ?c) + length (filter (\<lambda>c. \<not> pm_success c) ?c) = length ?c"
    by (rule sum_length_filter_compl)
  ultimately show ?thesis
    unfolding Let_def p took [of "\<lambda>d. d \<le> ?s ! ?k", symmetric] took [of "\<lambda>d. d < ?s ! ?k", symmetric]
    by (simp add: pf_generateReport_def Let_def)
qed

lemma slowest_step:
  "foldl (\<lambda>best call. case best of None \<Rightarrow> Some call
      | Some b \<Rightarrow> if pm_durationMs b < pm_durationMs call then Some call else best) (Some b) cs = r \<Longrightarrow>
    \<exists>m. r = Some m \<and> m \<in> insert b (set cs) \<and> pm_durationMs b \<le> pm_durationMs m \<and>
      (\<forall>c \<in> set cs. pm_durationMs c \<le> pm_durationMs m)"
proof (induction cs arbitrary: b)
  case (Cons c cs)
  show ?case using Cons.prems Cons.IH [of c] Cons.IH [of b] by (auto split: if_splits)
qed simp

lemma slowest_is_max:
  assumes "calls \<noteq> []"
  shows "\<exists>m \<in> set calls. slowest calls = Some m \<and> (\<forall>c \<in> set calls. pm_durationMs c \<le> pm_durationMs m)"
proof -
  obtain c cs where c: "calls = c # cs" using assms by (cases calls) auto
  from slowest_step [of c cs "slowest calls"] show ?thesis by (auto simp: slowest_def c)
qed

definition demo_call :: "rat \<Rightarrow> bool \<Rightarrow> ProfiledCallMetric" where
  "demo_call d ok = \<lparr>pm_id = ''profile-1'', pm_name = ''a'', pm_type = RpcCall, pm_startedAt = [], pm_endedAt = [],
     pm_durationMs = d, pm_success = ok, pm_metadata = None, pm_errorMessage = None, pm_memoryDeltaBytes = None\<rparr>"

lemma report_figures_witness:
  "pr_successfulCalls (pf_generateReport ''t'' ((newProfiling None None)\<lparr>pf_metrics := [demo_call 5 True, demo_call 2 False]\<rparr>)) +
   pr_failedCalls (pf_generateReport ''t'' ((newProfiling None None)\<lparr>pf_metrics := [demo_call 5 True, demo_call 2 False]\<rparr>)) = 2"
  using report_figures [of "(newProfiling None None)\<lparr>pf_metrics := [demo_call 5 True, demo_call 2 False]\<rparr>" "''t''"]
  by (simp add: Let_def) (simp add: pf_generateReport_def Let_def)

text \<open>Each type is counted, summed and maximised over the calls of that type.\<close>

definition figures_of :: "ProfiledCallMetric list \<Rightarrow> type_figures" where
  "figures_of cs = \<lparr>tf_count = length cs, tf_averageDurationMs = sum_list (map pm_durationMs cs),
     tf_maxDurationMs = foldl max 0 (map pm_durationMs cs)\<rparr>"

lemma bucket_snoc:
  "jm_get (foldl add_to_bucket [] cs) t =
    (let own = filter (\<lambda>c. pm_type c = t) cs in if own = [] then None else Some (figures_of own))"
proof (induction cs rule: rev_induct)
  case (snoc c cs)
  show ?case using snoc.IH
    by (cases "pm_type c = t") (auto simp: add_to_bucket_def Let_def figures_of_def)
qed simp

lemma by_type_figures:
  "jm_get (by_type calls) t =
    (let own = filter (\<lambda>c. pm_type c = t) calls in
     if own = [] then None else Some (average_bucket (figures_of own)))"
  using bucket_snoc [of calls t] by (simp add: by_type_def map_of_map Let_def)

end
