(* ===== verification/Doubles.thy ===== *)
theory Doubles
  imports SDK_Prelude Complex_Main
begin

text \<open>
  JavaScript numbers as the fee arithmetic of the SDK meets them. A number is finite, with a
  rational value, or one of NaN and the infinities; the operations round the exact result to 53
  significant bits, ties to even. The magnitudes of the code stay between the smallest normal
  number and the largest finite one, so neither underflow nor overflow is modelled, and the two
  zeros are one. Amounts that may arrive as texts have their own type, since \<open>+\<close> on them
  concatenates and \<open><\<close> compares by character.

  The lemmas show that rounding keeps the order, is exact on the integers of up to 53 bits and
  errs by at most a factor of one part in \<open>2 ^ 53\<close>; the clients bound their results with these.
\<close>

section \<open>Rounding\<close>

function bit_len :: "int \<Rightarrow> nat" where
  "bit_len n = (if n \<le> 0 then 0 else Suc (bit_len (n div 2)))"
  by pat_completeness auto
termination by (relation "measure nat") auto

declare bit_len.simps [simp del]

definition rat_log2 :: "rat \<Rightarrow> int" where
  "rat_log2 q = (let (n, d) = quotient_of q; e = int (bit_len n) - int (bit_len d) in
     if 2 powi e \<le> q then e else e - 1)"

definition round_even :: "rat \<Rightarrow> int" where
  "round_even q = (let f = \<lfloor>q\<rfloor>; r = q - of_int f in
     if r < 1 / 2 \<or> r = 1 / 2 \<and> even f then f else f + 1)"

definition pos_double :: "rat \<Rightarrow> rat" where
  "pos_double q = (let e = rat_log2 q - 52 in of_int (round_even (q * 2 powi (- e))) * 2 powi e)"

definition to_double :: "rat \<Rightarrow> rat" where
  "to_double q = (if q = 0 then 0 else if q < 0 then - pos_double (- q) else pos_double q)"

lemma bit_len_bounds: "0 < n \<Longrightarrow> 2 ^ (bit_len n - 1) \<le> n \<and> n < 2 ^ bit_len n \<and> 0 < bit_len n"
proof (induction n rule: bit_len.induct)
  case (1 n)
  show ?case
  proof (cases "n = 1")
    case True
    then show ?thesis by (simp add: bit_len.simps)
  next
    case False
    then have h: "0 < n div 2" "\<not> n \<le> 0" using 1(2) by auto
    note ih = 1(1)[OF h(2) h(1)]
    obtain k where k: "bit_len (n div 2) = Suc k" using ih by (cases "bit_len (n div 2)") auto
    then have b: "bit_len n = Suc (Suc k)" using h by (simp add: bit_len.simps[of n])
    have "2 ^ k \<le> n div 2" "n div 2 < 2 ^ Suc k" using ih k by auto
    then have "2 ^ Suc k \<le> n" "n < 2 ^ Suc (Suc k)" by auto
    then show ?thesis using b by simp
  qed
qed

lemma rat_log2_bounds:
  assumes "0 < q"
  shows "2 powi rat_log2 q \<le> q" and "q < 2 powi (rat_log2 q + 1)"
proof -
  obtain n d where qd: "quotient_of q = (n, d)" by (cases "quotient_of q")
  have d: "0 < d" and q: "q = of_int n / of_int d"
    using qd quotient_of_denom_pos quotient_of_div by blast+
  then have n: "0 < n" using assms by (simp add: zero_less_divide_iff)
  define a b where ab: "a = bit_len n" "b = bit_len d"
  note bn = bit_len_bounds[OF n, folded ab] and bd = bit_len_bounds[OF d, folded ab]
  have n1: "(2 :: rat) ^ (a - 1) \<le> of_int n" "(of_int n :: rat) < 2 ^ a"
    using bn by (metis of_int_le_iff of_int_numeral of_int_power, metis of_int_less_iff of_int_numeral of_int_power)
  have d1: "(2 :: rat) ^ (b - 1) \<le> of_int d" "(of_int d :: rat) < 2 ^ b"
    using bd by (metis of_int_le_iff of_int_numeral of_int_power, metis of_int_less_iff of_int_numeral of_int_power)
  have dp: "(0 :: rat) < of_int d" using d by simp
  have pa: "(2 :: rat) ^ a = 2 * 2 ^ (a - 1)" "(2 :: rat) ^ b = 2 * 2 ^ (b - 1)"
    using bn bd by (auto simp: power_eq_if)
  have e1: "(2 :: rat) powi (int a - int b - 1) = 2 ^ (a - 1) / 2 ^ b"
    using bn by (simp add: power_int_diff pa)
  have e2: "(2 :: rat) powi (int a - int b + 1) = 2 ^ a / 2 ^ (b - 1)"
    using bd by (simp add: power_int_diff power_int_add pa)
  have lo: "2 powi (int a - int b - 1) \<le> q"
    unfolding e1 q using n n1 d1 dp by (intro frac_le) auto
  have hi: "q < 2 powi (int a - int b + 1)"
    unfolding e2 q using n n1 d1 dp by (intro frac_less) auto
  show "2 powi rat_log2 q \<le> q" "q < 2 powi (rat_log2 q + 1)"
    using lo hi by (auto simp: rat_log2_def qd Let_def ab[symmetric])
qed

lemma round_even_mono: "p \<le> q \<Longrightarrow> round_even p \<le> round_even q"
proof -
  assume pq: "p \<le> q"
  then have f: "\<lfloor>p\<rfloor> \<le> \<lfloor>q\<rfloor>" by (rule floor_mono)
  show ?thesis
  proof (cases "\<lfloor>p\<rfloor> = \<lfloor>q\<rfloor>")
    case True
    then show ?thesis using pq by (auto simp: round_even_def Let_def)
  next
    case False
    then have "\<lfloor>p\<rfloor> + 1 \<le> \<lfloor>q\<rfloor>" using f by simp
    then show ?thesis by (auto simp: round_even_def Let_def)
  qed
qed

lemma round_even_int [simp]: "round_even (of_int k) = k"
  by (simp add: round_even_def)

lemma round_even_error: "\<bar>of_int (round_even q) - q\<bar> \<le> 1 / 2"
proof -
  define f r where fr: "f = \<lfloor>q\<rfloor>" "r = q - of_int f"
  have q: "q = of_int f + r" "0 \<le> r" "r < 1" unfolding fr by linarith+
  have "round_even q = (if r < 1 / 2 \<or> r = 1 / 2 \<and> even f then f else f + 1)"
    by (simp add: round_even_def Let_def fr)
  then show ?thesis using q(2,3) by (subst q(1)) (auto simp: abs_le_iff)
qed

text \<open>The scaled number has 53 bits before the point.\<close>

abbreviation dbl_exp :: "rat \<Rightarrow> int" where
  "dbl_exp q \<equiv> rat_log2 q - 52"

lemma two_powi_pos [simp]: "(0 :: rat) < 2 powi e" "(0 :: rat) \<le> 2 powi e" "(2 :: rat) powi e \<noteq> 0"
  by (auto simp: power_int_not_zero)

lemma scaled_bounds:
  assumes "0 < q"
  shows "2 ^ 52 \<le> q * 2 powi (- dbl_exp q)" "q * 2 powi (- dbl_exp q) < 2 ^ 53"
proof -
  have p: "(0 :: rat) < 2 powi (- dbl_exp q)" by simp
  have "2 powi rat_log2 q * 2 powi (- dbl_exp q) = (2 :: rat) powi 52"
       "2 powi (rat_log2 q + 1) * 2 powi (- dbl_exp q) = (2 :: rat) powi 53"
    by (simp_all add: power_int_add [symmetric])
  then show "2 ^ 52 \<le> q * 2 powi (- dbl_exp q)" "q * 2 powi (- dbl_exp q) < 2 ^ 53"
    using mult_right_mono[OF rat_log2_bounds(1)[OF assms], of "2 powi (- dbl_exp q)"]
      mult_strict_right_mono[OF rat_log2_bounds(2)[OF assms] p] by auto
qed

lemma unscale: "q * 2 powi (- e) * 2 powi e = (q :: rat)"
  by (simp add: power_int_minus)

lemma pos_double_bounds:
  assumes "0 < q"
  shows "2 powi rat_log2 q \<le> pos_double q" "pos_double q \<le> 2 powi (rat_log2 q + 1)"
proof -
  have "round_even (of_int (2 ^ 52)) \<le> round_even (q * 2 powi (- dbl_exp q))"
    by (rule round_even_mono) (use scaled_bounds[OF assms] in simp)
  then have "(2 :: rat) ^ 52 \<le> of_int (round_even (q * 2 powi (- dbl_exp q)))"
    by (simp only: round_even_int) (metis of_int_le_iff of_int_numeral of_int_power)
  then have a: "(2 :: rat) ^ 52 * 2 powi dbl_exp q \<le> pos_double q"
    unfolding pos_double_def Let_def by (rule mult_right_mono) simp
  have "round_even (q * 2 powi (- dbl_exp q)) \<le> round_even (of_int (2 ^ 53))"
    by (rule round_even_mono) (use scaled_bounds[OF assms] in simp)
  then have "(of_int (round_even (q * 2 powi (- dbl_exp q))) :: rat) \<le> 2 ^ 53"
    by (simp only: round_even_int) (metis of_int_le_iff of_int_numeral of_int_power)
  then have b: "pos_double q \<le> (2 :: rat) ^ 53 * 2 powi dbl_exp q"
    unfolding pos_double_def Let_def by (rule mult_right_mono) simp
  have "(2 :: rat) ^ 52 * 2 powi dbl_exp q = 2 powi rat_log2 q"
       "(2 :: rat) ^ 53 * 2 powi dbl_exp q = 2 powi (rat_log2 q + 1)"
    by (simp_all add: power_int_add power_int_diff)
  then show "2 powi rat_log2 q \<le> pos_double q" "pos_double q \<le> 2 powi (rat_log2 q + 1)"
    using a b by simp_all
qed

lemma rat_log2_mono:
  assumes "0 < p" "p \<le> q"
  shows "rat_log2 p \<le> rat_log2 q"
proof (rule ccontr)
  assume "\<not> ?thesis"
  then have "rat_log2 q + 1 \<le> rat_log2 p" by simp
  then have "(2 :: rat) powi (rat_log2 q + 1) \<le> 2 powi rat_log2 p" by (rule power_int_increasing) auto
  then show False using rat_log2_bounds[OF assms(1)] rat_log2_bounds[of q] assms by linarith
qed

lemma pos_double_mono:
  assumes "0 < p" "p \<le> q"
  shows "pos_double p \<le> pos_double q"
proof (cases "rat_log2 p = rat_log2 q")
  case True
  have "round_even (p * 2 powi (- dbl_exp q)) \<le> round_even (q * 2 powi (- dbl_exp q))"
    by (rule round_even_mono) (use assms in \<open>auto intro: mult_right_mono\<close>)
  then show ?thesis by (simp add: pos_double_def True)
next
  case False
  then have "rat_log2 p + 1 \<le> rat_log2 q" using rat_log2_mono[OF assms] by simp
  then have "(2 :: rat) powi (rat_log2 p + 1) \<le> 2 powi rat_log2 q" by (rule power_int_increasing) auto
  then show ?thesis using pos_double_bounds(2)[OF assms(1)] pos_double_bounds(1)[of q] assms by linarith
qed

lemma pos_double_pos: "0 < q \<Longrightarrow> 0 < pos_double q"
  using pos_double_bounds(1)[of q] two_powi_pos(1)[of "rat_log2 q"] by linarith

text \<open>Rounding keeps the order.\<close>

lemma to_double_mono: "p \<le> q \<Longrightarrow> to_double p \<le> to_double q"
proof -
  assume pq: "p \<le> q"
  consider "0 < p" | "p \<le> 0" "0 \<le> q" | "q < 0" using pq by linarith
  then show ?thesis
  proof cases
    case 1
    then show ?thesis using pq pos_double_mono[of p q] by (auto simp: to_double_def)
  next
    case 2
    then show ?thesis using pos_double_pos[of "- p"] pos_double_pos[of q]
      by (auto simp: to_double_def intro: order_trans)
  next
    case 3
    then show ?thesis using pq pos_double_mono[of "- q" "- p"] by (auto simp: to_double_def)
  qed
qed

lemma to_double_uminus: "to_double (- q) = - to_double q"
  by (auto simp: to_double_def)

lemma to_double_0 [simp]: "to_double 0 = 0"
  by (simp add: to_double_def)

text \<open>It is exact on the integers of up to 53 bits.\<close>

lemma pos_double_int:
  assumes "0 < k" "k < 2 ^ 53"
  shows "pos_double (of_int k) = of_int k"
proof -
  define l where "l = rat_log2 (of_int k)"
  have p: "(0 :: rat) < of_int k" using assms by simp
  have kb: "(of_int k :: rat) < 2 ^ 53" using assms(2) by (metis of_int_less_iff of_int_numeral of_int_power)
  have "l \<le> 52"
  proof (rule ccontr)
    assume "\<not> l \<le> 52"
    then have "(2 :: rat) powi 53 \<le> 2 powi l" by (intro power_int_increasing) auto
    then show False using rat_log2_bounds(1)[OF p] kb by (simp add: l_def)
  qed
  then obtain m where m: "- (l - 52) = int m" by (metis diff_ge_0_iff_ge minus_diff_eq nonneg_int_cases)
  have "(of_int k * 2 powi (- (l - 52)) :: rat) = of_int (k * 2 ^ m)"
    unfolding m by simp
  then have "round_even (of_int k * 2 powi (- (l - 52)) :: rat) = k * 2 ^ m"
    by (simp only: round_even_int)
  then have "pos_double (of_int k) = of_int (k * 2 ^ m) * 2 powi (l - 52)"
    by (simp add: pos_double_def l_def)
  also have "(of_int (k * 2 ^ m) :: rat) * 2 powi (l - 52) = of_int k * 2 powi (- (l - 52)) * 2 powi (l - 52)"
    unfolding m by simp
  finally show ?thesis unfolding unscale .
qed

lemma to_double_int [simp]: "\<bar>k\<bar> < 2 ^ 53 \<Longrightarrow> to_double (of_int k) = of_int k"
  using pos_double_int[of k] pos_double_int[of "- k"] by (auto simp: to_double_def)

lemma to_double_nat [simp]: "int n < 2 ^ 53 \<Longrightarrow> to_double (of_nat n) = of_nat n"
  using to_double_int[of "int n"] by simp

lemma to_double_numeral: "numeral k < (2 :: int) ^ 53 \<Longrightarrow> to_double (numeral k) = numeral k"
  using to_double_int[of "numeral k"] by simp

text \<open>Its error is at most half a unit in the last place.\<close>

lemma pos_double_error:
  assumes "0 < q"
  shows "\<bar>pos_double q - q\<bar> \<le> q / 2 ^ 53"
proof -
  define e where "e = dbl_exp q"
  define x where "x = q * 2 powi (- e)"
  have q: "q = x * 2 powi e" unfolding x_def unscale ..
  have "\<bar>pos_double q - q\<bar> = \<bar>of_int (round_even x) - x\<bar> * 2 powi e"
    by (subst (2) q) (simp add: pos_double_def Let_def e_def[symmetric] x_def[symmetric] abs_mult
        flip: left_diff_distrib)
  also have "\<dots> \<le> 1 / 2 * 2 powi e"
    by (rule mult_right_mono[OF round_even_error]) simp
  also have "\<dots> \<le> x / 2 ^ 53 * 2 powi e"
    by (rule mult_right_mono) (use scaled_bounds(1)[OF assms] in \<open>simp_all add: x_def e_def\<close>)
  also have "\<dots> = q / 2 ^ 53" by (subst q) simp
  finally show ?thesis .
qed

lemma to_double_error: "\<bar>to_double q - q\<bar> \<le> \<bar>q\<bar> / 2 ^ 53"
proof (cases "q < 0")
  case True
  then have "\<bar>- (pos_double (- q) - - q)\<bar> \<le> - q / 2 ^ 53" using pos_double_error[of "- q"] by (simp only: abs_minus_cancel neg_0_less_iff_less)
  then show ?thesis using True by (simp add: to_double_def)
next
  case False
  then show ?thesis using pos_double_error[of q] by (auto simp: to_double_def)
qed

lemma to_double_nonneg: "0 \<le> q \<Longrightarrow> 0 \<le> to_double q"
  using to_double_mono[of 0 q] by simp

lemma to_double_le_int: "q \<le> of_int k \<Longrightarrow> \<bar>k\<bar> < 2 ^ 53 \<Longrightarrow> to_double q \<le> of_int k"
  using to_double_mono[of q "of_int k"] by simp

lemma to_double_ge_int: "of_int k \<le> q \<Longrightarrow> \<bar>k\<bar> < 2 ^ 53 \<Longrightarrow> of_int k \<le> to_double q"
  using to_double_mono[of "of_int k" q] by simp

lemma ceiling_to_double_le: "q \<le> of_int k \<Longrightarrow> \<bar>k\<bar> < 2 ^ 53 \<Longrightarrow> \<lceil>to_double q\<rceil> \<le> k"
  using to_double_le_int by (simp add: ceiling_le_iff)

abbreviation dadd :: "rat \<Rightarrow> rat \<Rightarrow> rat" where "dadd a b \<equiv> to_double (a + b)"
abbreviation dmul :: "rat \<Rightarrow> rat \<Rightarrow> rat" where "dmul a b \<equiv> to_double (a * b)"

section \<open>How far rounding can go\<close>

text \<open>A number close to one with denominator \<open>r\<close> has nearly its ceiling.\<close>

lemma near_ceiling:
  fixes S y :: rat
  assumes "0 < r" "of_int r * S = of_int k" "\<bar>y - S\<bar> < 1 / of_int r"
  shows "S \<le> of_int \<lceil>y\<rceil>" "\<lceil>y\<rceil> \<le> \<lfloor>S\<rfloor> + 1"
proof -
  have r: "(0 :: rat) < of_int r" using assms by simp
  have S: "S = of_int k / of_int r" using assms r by (simp add: field_simps)
  have "y - S < 1 / of_int r" "S - y < 1 / of_int r" using assms(3) by linarith+
  then have d: "of_int r * (y - S) < 1" "- 1 < of_int r * (y - S)"
    using r by (simp_all add: field_simps)
  show "S \<le> of_int \<lceil>y\<rceil>"
  proof (rule ccontr)
    assume "\<not> ?thesis"
    then have "of_int (r * \<lceil>y\<rceil>) < (of_int k :: rat)" using r by (simp add: S field_simps)
    then have "r * \<lceil>y\<rceil> + 1 \<le> k" by linarith
    then have "of_int r * of_int \<lceil>y\<rceil> + 1 \<le> of_int r * S" unfolding assms(2)
      by (metis of_int_1 of_int_add of_int_le_iff of_int_mult)
    moreover have "of_int r * y \<le> of_int r * of_int \<lceil>y\<rceil>" using r by simp
    ultimately have "of_int r * (y - S) \<le> - 1" by (simp add: algebra_simps)
    then show False using d by linarith
  qed
  show "\<lceil>y\<rceil> \<le> \<lfloor>S\<rfloor> + 1"
  proof (rule ccontr)
    assume "\<not> ?thesis"
    then have y: "of_int (\<lfloor>S\<rfloor> + 1) < y" by (metis ceiling_le_iff not_le)
    have "S < of_int (\<lfloor>S\<rfloor> + 1)" by linarith
    then have "(of_int k :: rat) < of_int (r * (\<lfloor>S\<rfloor> + 1))" using r by (simp add: S field_simps)
    then have "k + 1 \<le> r * (\<lfloor>S\<rfloor> + 1)" by linarith
    then have "of_int r * S + 1 \<le> of_int r * of_int (\<lfloor>S\<rfloor> + 1)" unfolding assms(2)
      by (metis of_int_1 of_int_add of_int_le_iff of_int_mult)
    moreover have "of_int r * of_int (\<lfloor>S\<rfloor> + 1) < of_int r * y" using y r by (simp only: mult_less_cancel_left_pos)
    ultimately have "of_int r * (y - S) > 1" by (simp add: algebra_simps)
    then show False using d by linarith
  qed
qed

text \<open>A count times a rate, both rounded.\<close>

lemma rounded_product:
  assumes "0 \<le> a" "0 \<le> c"
  shows "\<bar>dmul a (to_double c) - a * c\<bar> \<le> 3 * (a * c) / 2 ^ 53" "0 \<le> dmul a (to_double c)"
proof -
  define x where "x = a * to_double c"
  have "\<bar>to_double c - c\<bar> \<le> c / 2 ^ 53" using to_double_error[of c] assms by simp
  then have "a * \<bar>to_double c - c\<bar> \<le> a * (c / 2 ^ 53)" using assms(1) by (rule mult_left_mono)
  moreover have "\<bar>x - a * c\<bar> = a * \<bar>to_double c - c\<bar>"
    unfolding x_def right_diff_distrib[symmetric] abs_mult using assms by simp
  ultimately have e1: "\<bar>x - a * c\<bar> \<le> a * c / 2 ^ 53" by simp
  have "0 \<le> a * c" using assms by simp
  then have "a * c / 2 ^ 53 \<le> a * c" by simp
  then have "\<bar>x - a * c\<bar> \<le> a * c" using e1 by linarith
  then have "\<bar>x\<bar> \<le> 2 * (a * c)" using \<open>0 \<le> a * c\<close> by linarith
  then have e2: "\<bar>to_double x - x\<bar> \<le> 2 * (a * c) / 2 ^ 53"
    using to_double_error[of x] divide_right_mono[of "\<bar>x\<bar>" "2 * (a * c)" "2 ^ 53"] by simp
  show "\<bar>dmul a (to_double c) - a * c\<bar> \<le> 3 * (a * c) / 2 ^ 53"
    using e1 e2 unfolding x_def[symmetric] by linarith
  show "0 \<le> dmul a (to_double c)" using assms by (simp add: to_double_nonneg)
qed

lemma rounded_sum:
  assumes "\<bar>x - a\<bar> \<le> ea" "\<bar>y - b\<bar> \<le> eb" "\<bar>x + y\<bar> \<le> m"
  shows "\<bar>dadd x y - (a + b)\<bar> \<le> ea + eb + m / 2 ^ 53"
  using assms(1,2) to_double_error[of "x + y"] divide_right_mono[OF assms(3), of "2 ^ 53"]
  unfolding abs_le_iff by auto

section \<open>Numbers with NaN and the infinities\<close>

datatype jsnum = Fin rat | NaN | PosInf | NegInf

definition inf_of_sign :: "rat \<Rightarrow> jsnum" where
  "inf_of_sign s = (if s = 0 then NaN else if s < 0 then NegInf else PosInf)"

fun n_sign :: "jsnum \<Rightarrow> rat" where
  "n_sign (Fin a) = sgn a"
| "n_sign NaN = 0"
| "n_sign PosInf = 1"
| "n_sign NegInf = - 1"

fun n_neg :: "jsnum \<Rightarrow> jsnum" where
  "n_neg (Fin a) = Fin (- a)"
| "n_neg NaN = NaN"
| "n_neg PosInf = NegInf"
| "n_neg NegInf = PosInf"

fun n_add :: "jsnum \<Rightarrow> jsnum \<Rightarrow> jsnum" where
  "n_add (Fin a) (Fin b) = Fin (to_double (a + b))"
| "n_add (Fin _) y = y"
| "n_add x (Fin _) = x"
| "n_add x y = (if x = y then x else NaN)"

definition n_sub :: "jsnum \<Rightarrow> jsnum \<Rightarrow> jsnum" where
  "n_sub x y = n_add x (n_neg y)"

fun n_mul :: "jsnum \<Rightarrow> jsnum \<Rightarrow> jsnum" where
  "n_mul (Fin a) (Fin b) = Fin (to_double (a * b))"
| "n_mul x y = inf_of_sign (n_sign x * n_sign y)"

text \<open>A divisor of zero is the positive zero: the code divides by counts, sums and averages.\<close>

fun n_div :: "jsnum \<Rightarrow> jsnum \<Rightarrow> jsnum" where
  "n_div (Fin a) (Fin b) = (if b = 0 then inf_of_sign (sgn a) else Fin (to_double (a / b)))"
| "n_div NaN _ = NaN"
| "n_div _ NaN = NaN"
| "n_div (Fin _) _ = Fin 0"
| "n_div x (Fin b) = (if b < 0 then n_neg x else x)"
| "n_div _ _ = NaN"

fun n_less :: "jsnum \<Rightarrow> jsnum \<Rightarrow> bool" where
  "n_less (Fin a) (Fin b) = (a < b)"
| "n_less NaN _ = False"
| "n_less _ NaN = False"
| "n_less NegInf y = (y \<noteq> NegInf)"
| "n_less PosInf _ = False"
| "n_less (Fin _) y = (y = PosInf)"

definition n_max :: "jsnum \<Rightarrow> jsnum \<Rightarrow> jsnum" where
  "n_max x y = (if x = NaN \<or> y = NaN then NaN else if n_less x y then y else x)"

definition n_min :: "jsnum \<Rightarrow> jsnum \<Rightarrow> jsnum" where
  "n_min x y = (if x = NaN \<or> y = NaN then NaN else if n_less y x then y else x)"

end
