(* ===== verification/Estimation.thy ===== *)
theory Estimation
  imports Doubles Errors
begin

text \<open>
  The transaction cost estimator (\<open>estimation/estimator.ts\<close>, \<open>estimation/types.ts\<close>), in the
  double arithmetic of the code: the counts of a simulation are integers, the buffered counts and
  the fee are ceilings of rounded products and sums. The lemmas show that the figures differ from
  the exact ones by less than one unit in the range where fees live, that more work never costs
  less, and that a failed simulation has no estimate.
\<close>

section \<open>The estimator\<close>

record ResourceConsumption =
  rc_cpuInstructions :: int
  rc_memoryBytes :: int
  rc_ledgerReads :: int
  rc_ledgerWrites :: int

datatype Confidence = LowConfidence | MediumConfidence | HighConfidence

record CostReport =
  cr_baseFee :: string
  cr_resourceFee :: string
  cr_totalEstimatedFee :: string
  cr_consumption :: ResourceConsumption
  cr_accuracyConfidence :: Confidence

record SimulationData =
  sd_txType :: string
  sd_simulatedInstructions :: int
  sd_simulatedMemory :: int
  sd_readKeysCount :: int
  sd_writeKeysCount :: int
  sd_isSuccess :: bool

definition STROOPS_PER_INSTRUCTION :: rat where "STROOPS_PER_INSTRUCTION = to_double (1 / 100)"
definition STROOPS_PER_BYTE :: rat where "STROOPS_PER_BYTE = to_double (1 / 2)"
definition STROOPS_PER_READ :: rat where "STROOPS_PER_READ = 1000"
definition STROOPS_PER_WRITE :: rat where "STROOPS_PER_WRITE = 5000"
definition BASE_TX_FEE :: int where "BASE_TX_FEE = 100"

definition est_consumption :: "SimulationData \<Rightarrow> ResourceConsumption" where
  "est_consumption sim =
     \<lparr>rc_cpuInstructions = \<lceil>dmul (of_int (sd_simulatedInstructions sim)) (to_double (115 / 100))\<rceil>,
      rc_memoryBytes = \<lceil>dmul (of_int (sd_simulatedMemory sim)) (to_double (110 / 100))\<rceil>,
      rc_ledgerReads = sd_readKeysCount sim,
      rc_ledgerWrites = sd_writeKeysCount sim\<rparr>"

definition resource_fee :: "ResourceConsumption \<Rightarrow> int" where
  "resource_fee c =
    (let cpuFee = dmul (of_int (rc_cpuInstructions c)) STROOPS_PER_INSTRUCTION;
         memFee = dmul (of_int (rc_memoryBytes c)) STROOPS_PER_BYTE;
         readFee = dmul (of_int (rc_ledgerReads c)) STROOPS_PER_READ;
         writeFee = dmul (of_int (rc_ledgerWrites c)) STROOPS_PER_WRITE
     in \<lceil>dadd (dadd (dadd cpuFee memFee) readFee) writeFee\<rceil>)"

definition total_fee :: "int \<Rightarrow> int" where
  "total_fee fee = \<lfloor>dadd (of_int BASE_TX_FEE) (of_int fee)\<rfloor>"

definition calculateUsage :: "SimulationData \<Rightarrow> thrown + CostReport" where
  "calculateUsage sim =
    (if \<not> sd_isSuccess sim
     then Inl (Raw (JErr ''Error'' ''Cannot estimate costs for a failing transaction simulation.'' []))
     else
       let c = est_consumption sim; fee = resource_fee c in
       Inr \<lparr>cr_baseFee = int_str BASE_TX_FEE, cr_resourceFee = int_str fee,
            cr_totalEstimatedFee = int_str (total_fee fee), cr_consumption = c,
            cr_accuracyConfidence = (if rc_cpuInstructions c > 5000000 then MediumConfidence else HighConfidence)\<rparr>)"

section \<open>Accuracy\<close>

lemma buffered_count:
  assumes "0 \<le> n" "0 < p" "0 < r" "n * p < 2 ^ 50"
  shows "of_int n * (of_int p / of_int r) \<le> (of_int \<lceil>dmul (of_int n) (to_double (of_int p / of_int r))\<rceil> :: rat)"
    and "\<lceil>dmul (of_int n) (to_double (of_int p / of_int r))\<rceil> \<le> \<lfloor>of_int n * (of_int p / of_int r) :: rat\<rfloor> + 1"
proof -
  define S where "S = of_int n * (of_int p / of_int r :: rat)"
  have pos: "(0 :: rat) < of_int r" using assms by simp
  have k: "of_int r * S = of_int (n * p)" using pos by (simp add: S_def)
  have kb: "of_int r * S < (2 :: rat) ^ 50" unfolding k using assms(4)
    by (metis of_int_less_iff of_int_numeral of_int_power)
  have e1: "\<bar>dmul (of_int n) (to_double (of_int p / of_int r)) - S\<bar> \<le> 3 * S / 2 ^ 53"
    unfolding S_def by (rule rounded_product) (use assms in simp_all)
  have "of_int r * (3 * S / 2 ^ 53) < (1 :: rat)" using kb by (simp add: field_simps)
  then have "3 * S / 2 ^ 53 < 1 / of_int r" using pos by (simp add: field_simps)
  then have e: "\<bar>dmul (of_int n) (to_double (of_int p / of_int r)) - S\<bar> < 1 / of_int r"
    using e1 by linarith
  note near_ceiling[OF assms(3) k e]
  then show "of_int n * (of_int p / of_int r) \<le> (of_int \<lceil>dmul (of_int n) (to_double (of_int p / of_int r))\<rceil> :: rat)"
    and "\<lceil>dmul (of_int n) (to_double (of_int p / of_int r))\<rceil> \<le> \<lfloor>of_int n * (of_int p / of_int r) :: rat\<rfloor> + 1"
    by (simp_all add: S_def)
qed

definition exact_cost :: "ResourceConsumption \<Rightarrow> rat" where
  "exact_cost c = of_int (rc_cpuInstructions c) / 100 + of_int (rc_memoryBytes c) / 2
     + 1000 * of_int (rc_ledgerReads c) + 5000 * of_int (rc_ledgerWrites c)"

definition counts_ok :: "ResourceConsumption \<Rightarrow> bool" where
  "counts_ok c \<longleftrightarrow> 0 \<le> rc_cpuInstructions c \<and> 0 \<le> rc_memoryBytes c \<and> 0 \<le> rc_ledgerReads c \<and>
     0 \<le> rc_ledgerWrites c \<and> exact_cost c \<le> 2 ^ 42"

lemma resource_fee_accurate:
  assumes "counts_ok c"
  shows "exact_cost c \<le> of_int (resource_fee c)" "resource_fee c \<le> \<lfloor>exact_cost c\<rfloor> + 1"
proof -
  define A B C D where abcd: "A = of_int (rc_cpuInstructions c) * (1 / 100 :: rat)"
    "B = of_int (rc_memoryBytes c) * (1 / 2 :: rat)" "C = of_int (rc_ledgerReads c) * (1000 :: rat)"
    "D = of_int (rc_ledgerWrites c) * (5000 :: rat)"
  define x y z w where xyzw: "x = dmul (of_int (rc_cpuInstructions c)) STROOPS_PER_INSTRUCTION"
    "y = dmul (of_int (rc_memoryBytes c)) STROOPS_PER_BYTE"
    "z = dmul (of_int (rc_ledgerReads c)) STROOPS_PER_READ"
    "w = dmul (of_int (rc_ledgerWrites c)) STROOPS_PER_WRITE"
  have E: "exact_cost c = A + B + C + D" by (simp add: exact_cost_def abcd)
  have nn: "0 \<le> A" "0 \<le> B" "0 \<le> C" "0 \<le> D" using assms by (simp_all add: abcd counts_ok_def)
  have tot: "A + B + C + D \<le> 2 ^ 42" using assms E by (simp add: counts_ok_def)
  have dx: "\<bar>x - A\<bar> \<le> 3 * A / 2 ^ 53" unfolding xyzw abcd STROOPS_PER_INSTRUCTION_def
    by (rule rounded_product) (use assms in \<open>simp_all add: counts_ok_def\<close>)
  have dy: "\<bar>y - B\<bar> \<le> 3 * B / 2 ^ 53" unfolding xyzw abcd STROOPS_PER_BYTE_def
    by (rule rounded_product) (use assms in \<open>simp_all add: counts_ok_def\<close>)
  have dz: "\<bar>z - C\<bar> \<le> C / 2 ^ 53" "\<bar>w - D\<bar> \<le> D / 2 ^ 53"
    using to_double_error[of C] to_double_error[of D] nn
    by (simp_all add: xyzw abcd STROOPS_PER_READ_def STROOPS_PER_WRITE_def)
  have s1: "\<bar>dadd x y - (A + B)\<bar> \<le> 3 * A / 2 ^ 53 + 3 * B / 2 ^ 53 + 2 ^ 43 / 2 ^ 53"
    by (rule rounded_sum[OF dx dy]) (use dx dy nn tot in \<open>unfold abs_le_iff, auto\<close>)
  have s2: "\<bar>dadd (dadd x y) z - (A + B + C)\<bar> \<le> 3 * A / 2 ^ 53 + 3 * B / 2 ^ 53 + 2 ^ 43 / 2 ^ 53
      + C / 2 ^ 53 + 2 ^ 43 / 2 ^ 53"
    by (rule rounded_sum[OF s1 dz(1)]) (use s1 dz nn tot in \<open>unfold abs_le_iff, auto\<close>)
  have s3: "\<bar>dadd (dadd (dadd x y) z) w - (A + B + C + D)\<bar> \<le> 3 * A / 2 ^ 53 + 3 * B / 2 ^ 53
      + 2 ^ 43 / 2 ^ 53 + C / 2 ^ 53 + 2 ^ 43 / 2 ^ 53 + D / 2 ^ 53 + 2 ^ 43 / 2 ^ 53"
    by (rule rounded_sum[OF s2 dz(2)]) (use s2 dz nn tot in \<open>unfold abs_le_iff, auto\<close>)
  have e: "\<bar>dadd (dadd (dadd x y) z) w - (A + B + C + D)\<bar> < 1 / of_int 100"
    using s3 nn tot by simp
  have k: "of_int 100 * (A + B + C + D) = (of_int (rc_cpuInstructions c + 50 * rc_memoryBytes c
      + 100000 * rc_ledgerReads c + 500000 * rc_ledgerWrites c) :: rat)"
    by (simp add: abcd)
  have f: "resource_fee c = \<lceil>dadd (dadd (dadd x y) z) w\<rceil>"
    by (simp add: resource_fee_def Let_def xyzw)
  have "0 < (100 :: int)" by simp
  note near_ceiling[OF this k e]
  then show "exact_cost c \<le> of_int (resource_fee c)" "resource_fee c \<le> \<lfloor>exact_cost c\<rfloor> + 1"
    unfolding E f by simp_all
qed

lemma total_fee_exact: "\<bar>100 + fee\<bar> < 2 ^ 53 \<Longrightarrow> total_fee fee = 100 + fee"
  using to_double_int[of "100 + fee"] by (simp add: total_fee_def BASE_TX_FEE_def)

section \<open>Properties\<close>

text \<open>The range in which the estimates are claimed: far above the limits of the network.\<close>

definition sim_in_range :: "SimulationData \<Rightarrow> bool" where
  "sim_in_range sim \<longleftrightarrow> sd_simulatedInstructions sim \<in> {0..10 ^ 12} \<and> sd_simulatedMemory sim \<in> {0..10 ^ 11} \<and>
     sd_readKeysCount sim \<in> {0..10 ^ 8} \<and> sd_writeKeysCount sim \<in> {0..10 ^ 8}"

lemma consumption_accurate:
  assumes "sim_in_range sim"
  shows "\<lceil>of_int (sd_simulatedInstructions sim) * (115 / 100) :: rat\<rceil> \<le> rc_cpuInstructions (est_consumption sim)"
    "rc_cpuInstructions (est_consumption sim) \<le> \<lfloor>of_int (sd_simulatedInstructions sim) * (115 / 100) :: rat\<rfloor> + 1"
    "\<lceil>of_int (sd_simulatedMemory sim) * (110 / 100) :: rat\<rceil> \<le> rc_memoryBytes (est_consumption sim)"
    "rc_memoryBytes (est_consumption sim) \<le> \<lfloor>of_int (sd_simulatedMemory sim) * (110 / 100) :: rat\<rfloor> + 1"
  using buffered_count[of "sd_simulatedInstructions sim" 115 100]
    buffered_count[of "sd_simulatedMemory sim" 110 100] assms
  by (simp_all add: sim_in_range_def est_consumption_def ceiling_le_iff)

lemma in_range_counts_ok:
  assumes "sim_in_range sim"
  shows "counts_ok (est_consumption sim)"
proof -
  let ?c = "est_consumption sim"
  note a = consumption_accurate[OF assms]
  have i: "0 \<le> rc_cpuInstructions ?c" "0 \<le> rc_memoryBytes ?c"
    using assms by (auto simp: sim_in_range_def est_consumption_def zero_le_ceiling
        intro!: less_le_trans[OF _ to_double_nonneg] mult_nonneg_nonneg to_double_nonneg)
  have "rc_cpuInstructions ?c \<le> 2 * 10 ^ 12" "rc_memoryBytes ?c \<le> 2 * 10 ^ 11"
    using a(2,4) assms by (simp_all add: sim_in_range_def) linarith+
  then have "(of_int (rc_cpuInstructions ?c) :: rat) \<le> of_int (2 * 10 ^ 12)"
    "(of_int (rc_memoryBytes ?c) :: rat) \<le> of_int (2 * 10 ^ 11)"
    by (simp_all only: of_int_le_iff)
  moreover have "(of_int (rc_ledgerReads ?c) :: rat) \<le> of_int (10 ^ 8)"
    "(of_int (rc_ledgerWrites ?c) :: rat) \<le> of_int (10 ^ 8)"
    using assms by (simp_all only: of_int_le_iff) (simp_all add: sim_in_range_def est_consumption_def)
  ultimately have "exact_cost ?c \<le> 2 ^ 42" by (simp add: exact_cost_def)
  then show ?thesis using i assms by (simp add: counts_ok_def sim_in_range_def) (simp add: est_consumption_def)
qed

text \<open>C26. 
  The estimate of a successful simulation charges the base fee of 100 plus a resource fee that
  is at least the exact cost of the buffered counts and less than one stroop above it, rounded up;
  the buffered counts are the fifteen and ten per cent markups rounded up, or one more where a
  double lies above the exact product. A failed simulation has no estimate, and the confidence is
  never low.
\<close>

theorem estimate_accurate:
  assumes "sim_in_range sim"
  shows "if sd_isSuccess sim
    then \<exists>report fee. calculateUsage sim = Inr report \<and>
      cr_resourceFee report = int_str fee \<and> cr_totalEstimatedFee report = int_str (100 + fee) \<and>
      exact_cost (cr_consumption report) \<le> of_int fee \<and> fee \<le> \<lfloor>exact_cost (cr_consumption report)\<rfloor> + 1 \<and>
      rc_cpuInstructions (cr_consumption report) - \<lceil>of_int (sd_simulatedInstructions sim) * (115 / 100) :: rat\<rceil> \<in> {0, 1} \<and>
      rc_memoryBytes (cr_consumption report) - \<lceil>of_int (sd_simulatedMemory sim) * (110 / 100) :: rat\<rceil> \<in> {0, 1} \<and>
      cr_accuracyConfidence report \<noteq> LowConfidence
    else calculateUsage sim = Inl (Raw (JErr ''Error'' ''Cannot estimate costs for a failing transaction simulation.'' []))"
proof (cases "sd_isSuccess sim")
  case True
  let ?c = "est_consumption sim"
  note a = consumption_accurate[OF assms] and f = resource_fee_accurate[OF in_range_counts_ok[OF assms]]
  have c: "0 \<le> exact_cost ?c" "exact_cost ?c \<le> 2 ^ 42"
    using in_range_counts_ok[OF assms] by (auto simp: counts_ok_def exact_cost_def)
  then have "\<lfloor>exact_cost ?c\<rfloor> \<le> 2 ^ 42" using floor_mono[OF c(2)] by simp
  then have "resource_fee ?c \<le> 2 ^ 42 + 1" using f(2) by linarith
  moreover have "0 \<le> resource_fee ?c" using f(1) c(1) by (metis of_int_0_le_iff order_trans)
  ultimately have t: "total_fee (resource_fee ?c) = 100 + resource_fee ?c"
    by (intro total_fee_exact) simp
  have near: "x - \<lceil>q\<rceil> \<in> {0, 1}" if "\<lceil>q\<rceil> \<le> x" "x \<le> \<lfloor>q\<rfloor> + 1" for x and q :: rat
  proof -
    have "x - \<lceil>q\<rceil> = 0 \<or> x - \<lceil>q\<rceil> = 1" using that floor_le_ceiling[of q] by arith
    then show ?thesis by simp
  qed
  note d = near[OF a(1,2)] near[OF a(3,4)]
  show ?thesis using True f d t by (auto simp: calculateUsage_def Let_def)
qed (simp add: calculateUsage_def)

definition demo_sim :: "int \<Rightarrow> SimulationData" where
  "demo_sim n = \<lparr>sd_txType = ''deposit'', sd_simulatedInstructions = 1000 * n, sd_simulatedMemory = n,
     sd_readKeysCount = 2, sd_writeKeysCount = 1, sd_isSuccess = True\<rparr>"

theorem estimate_accurate_witness:
  "\<exists>report fee. calculateUsage (demo_sim 100) = Inr report \<and> cr_totalEstimatedFee report = int_str (100 + fee) \<and>
     exact_cost (cr_consumption report) \<le> of_int fee"
  using estimate_accurate[of "demo_sim 100"] by (auto simp: sim_in_range_def demo_sim_def)

text \<open>The fee of a hundred bytes: the double 1.1 is above eleven tenths, so 111 bytes are charged.\<close>

lemma memory_buffer_rounds_up:
  "rc_memoryBytes (est_consumption (demo_sim 100)) = 111"
  unfolding est_consumption_def demo_sim_def by code_simp

text \<open>
  A simulation that used no less of any resource is never estimated cheaper, for counts of
  any size.
\<close>

theorem estimate_monotone:
  assumes "sd_simulatedInstructions a \<le> sd_simulatedInstructions b"
    and "sd_simulatedMemory a \<le> sd_simulatedMemory b"
    and "sd_readKeysCount a \<le> sd_readKeysCount b" and "sd_writeKeysCount a \<le> sd_writeKeysCount b"
  shows "resource_fee (est_consumption a) \<le> resource_fee (est_consumption b) \<and>
    total_fee (resource_fee (est_consumption a)) \<le> total_fee (resource_fee (est_consumption b))"
proof -
  have rates: "0 \<le> STROOPS_PER_INSTRUCTION" "0 \<le> STROOPS_PER_BYTE" "0 \<le> STROOPS_PER_READ" "0 \<le> STROOPS_PER_WRITE"
    "0 \<le> to_double (115 / 100)" "0 \<le> to_double (110 / 100)"
    by (simp_all add: STROOPS_PER_INSTRUCTION_def STROOPS_PER_BYTE_def STROOPS_PER_READ_def
        STROOPS_PER_WRITE_def to_double_nonneg)
  have m: "dmul (of_int i) r \<le> dmul (of_int j) r" if "i \<le> j" "0 \<le> r" for i j r
    using that by (intro to_double_mono mult_right_mono) auto
  have "resource_fee (est_consumption a) \<le> resource_fee (est_consumption b)"
    unfolding resource_fee_def est_consumption_def Let_def
    by (intro ceiling_mono to_double_mono add_mono; simp) (intro m ceiling_mono to_double_mono mult_right_mono; use assms rates in simp)+
  then show ?thesis unfolding total_fee_def by (auto intro!: floor_mono to_double_mono)
qed

theorem estimate_monotone_witness:
  "resource_fee (est_consumption (demo_sim 7)) \<le> resource_fee (est_consumption (demo_sim 90))"
  using estimate_monotone[of "demo_sim 7" "demo_sim 90"] by (simp add: demo_sim_def)

end
