(* ===== verification/Failover.thy ===== *)
theory Failover
  imports ClientOps
begin

text \<open>
  The client of \<open>packages/core\<close> over several RPC servers (\<open>client/stellarClient.ts\<close>,
  \<open>utils/networkConfig.ts\<close>): the choice of URLs, the checks of the constructor on each of them,
  and \<open>executeWithFailover\<close>. The function it runs is an argument that sees the number of the
  attempt and the URL of the current server, so its outcomes can differ from one attempt to the
  next. The rest of that class repeats the root client, whose theories model it.

  \<open>rpc\<close> is an accessor without a setter and class code is strict, so the assignment in
  \<open>trySwitchToNextRpc\<close> raises after the index has moved. The lemmas show what follows: a call
  never reaches a second server, and servers take turns from call to call.
\<close>

section \<open>Networks\<close>

record CoreNetworkInput =
  ci_network :: "AxionveraNetwork option"
  ci_rpcUrl :: "string option"
  ci_rpcUrls :: "string list option"
  ci_networkPassphrase :: "string option"

record CoreNetworkConfig =
  cc_network :: AxionveraNetwork
  cc_rpcUrls :: "string list"
  cc_networkPassphrase :: string

fun getDefaultRpcUrls :: "AxionveraNetwork \<Rightarrow> string list" where
  "getDefaultRpcUrls Testnet = [''https://soroban-testnet.stellar.org'']"
| "getDefaultRpcUrls Mainnet = [''https://soroban-mainnet.stellar.org'']"
| "getDefaultRpcUrls Futurenet = [''https://rpc-futurenet.stellar.org'']"

definition core_resolveNetworkConfig :: "Networks \<Rightarrow> CoreNetworkInput \<Rightarrow> CoreNetworkConfig" where
  "core_resolveNetworkConfig nws input =
    (let network = given_or (ci_network input) Testnet;
         urls = given_or (ci_rpcUrls input) [];
         url = given_or (ci_rpcUrl input) []
     in \<lparr>cc_network = network,
         cc_rpcUrls = (if urls \<noteq> [] then urls else if url \<noteq> [] then [url] else getDefaultRpcUrls network),
         cc_networkPassphrase = given_or (ci_networkPassphrase input) (getNetworkPassphrase nws network)\<rparr>)"

text \<open>The loop of the constructor over the URLs.\<close>

fun core_check_urls :: "(string \<Rightarrow> string option) \<Rightarrow> bool \<Rightarrow> bool option \<Rightarrow> string list \<Rightarrow> thrown + unit" where
  "core_check_urls hostname isProduction allow [] = Inr ()"
| "core_check_urls hostname isProduction allow (u # us) =
    (case checkEndpointUrl hostname isProduction allow u of
       Inl e \<Rightarrow> Inl e
     | Inr _ \<Rightarrow> core_check_urls hostname isProduction allow us)"

section \<open>The servers\<close>

record rpc_pool =
  rp_urls :: "string list"
  rp_current :: nat

definition new_pool :: "string list \<Rightarrow> rpc_pool" where
  "new_pool urls = \<lparr>rp_urls = urls, rp_current = 0\<rparr>"

definition rpc_url :: "rpc_pool \<Rightarrow> string" where
  "rpc_url p = rp_urls p ! rp_current p"

definition setter_error :: thrown where
  "setter_error = Raw (JErr ''TypeError''
     ''Cannot set property rpc of #<StellarClient> which has only a getter'' [])"

definition trySwitchToNextRpc :: "rpc_pool \<Rightarrow> rpc_pool \<times> (thrown + bool)" where
  "trySwitchToNextRpc p =
    (if length (rp_urls p) \<le> 1 then (p, Inr False)
     else (p\<lparr>rp_current := (rp_current p + 1) mod length (rp_urls p)\<rparr>, Inl setter_error))"

text \<open>
  The loop, by the attempts that are left; it returns the pool, the URLs the function was called
  for and the outcome. A \<open>throw\<close> inside the \<open>catch\<close> block leaves the loop.
\<close>

fun failover_loop ::
    "(nat \<Rightarrow> string \<Rightarrow> thrown + 'v) \<Rightarrow> nat \<Rightarrow> nat \<Rightarrow> thrown \<Rightarrow> rpc_pool \<Rightarrow> rpc_pool \<times> string list \<times> (thrown + 'v)" where
  "failover_loop fn attempts 0 lastError p = (p, [], Inl lastError)"
| "failover_loop fn attempts (Suc left) lastError p =
    (case fn attempts (rpc_url p) of
       Inr v \<Rightarrow> (p, [rpc_url p], Inr v)
     | Inl e \<Rightarrow>
         if left = 0 then (p, [rpc_url p], Inl e)
         else (case trySwitchToNextRpc p of
             (p', Inl te) \<Rightarrow> (p', [rpc_url p], Inl te)
           | (p', Inr _) \<Rightarrow>
               (let (p2, tried, r) = failover_loop fn (Suc attempts) left e p'
                in (p2, rpc_url p # tried, r))))"

definition executeWithFailover ::
    "(nat \<Rightarrow> string \<Rightarrow> thrown + 'v) \<Rightarrow> rpc_pool \<Rightarrow> rpc_pool \<times> string list \<times> (thrown + 'v)" where
  "executeWithFailover fn p = failover_loop fn 0 (length (rp_urls p)) (Raw JUndef) p"

section \<open>Properties\<close>

text \<open>
  A client that passed the checks of the constructor in production has, without the override,
  only URLs that are HTTPS or HTTP to the local host; the resolved URLs are never empty.
\<close>

theorem production_urls_secure:
  assumes "core_check_urls hostname True allow (cc_rpcUrls (core_resolveNetworkConfig nws input)) = Inr ()"
    and "allow \<noteq> Some True"
  shows "cc_rpcUrls (core_resolveNetworkConfig nws input) \<noteq> [] \<and>
    (\<forall>u\<in>set (cc_rpcUrls (core_resolveNetworkConfig nws input)).
       str_starts u ''https://'' \<or> str_starts u ''http://'' \<and> isLocalhostUrl hostname u)"
proof -
  have "core_check_urls hostname True allow us = Inr () \<Longrightarrow>
      (\<forall>u\<in>set us. str_starts u ''https://'' \<or> str_starts u ''http://'' \<and> isLocalhostUrl hostname u)" for us
    using assms(2) by (induction us)
      (auto simp: checkEndpointUrl_def Let_def given_or_def split: if_splits sum.splits option.splits)
  moreover have "getDefaultRpcUrls n \<noteq> []" for n by (cases n) auto
  ultimately show ?thesis using assms(1) by (auto simp: core_resolveNetworkConfig_def Let_def)
qed

theorem production_urls_secure_witness:
  "case core_resolveNetworkConfig demo_networks \<lparr>ci_network = Some Mainnet, ci_rpcUrl = None,
      ci_rpcUrls = Some [''https://a.example'', ''https://b.example''], ci_networkPassphrase = None\<rparr> of c \<Rightarrow>
   cc_rpcUrls c \<noteq> [] \<and> str_starts (cc_rpcUrls c ! 1) ''https://''"
proof -
  let ?i = "\<lparr>ci_network = Some Mainnet, ci_rpcUrl = None,
      ci_rpcUrls = Some [''https://a.example'', ''https://b.example''], ci_networkPassphrase = None\<rparr>"
  have u: "cc_rpcUrls (core_resolveNetworkConfig demo_networks ?i) = [''https://a.example'', ''https://b.example'']"
    by (simp add: core_resolveNetworkConfig_def given_or_def Let_def)
  have "core_check_urls (\<lambda>_. Some ''a'') True None [''https://a.example'', ''https://b.example''] = Inr ()"
    "\<not> isLocalhostUrl (\<lambda>_. Some ''a'') ''https://b.example''"
    by code_simp+
  then show ?thesis
    using production_urls_secure[of "\<lambda>_. Some ''a''" None demo_networks ?i] unfolding u by (auto simp: u)
qed

lemma execute_cases:
  assumes "rp_urls p \<noteq> []"
  shows "executeWithFailover fn p =
    (case fn 0 (rpc_url p) of
       Inr v \<Rightarrow> (p, [rpc_url p], Inr v)
     | Inl e \<Rightarrow> if length (rp_urls p) = 1 then (p, [rpc_url p], Inl e)
        else (p\<lparr>rp_current := (rp_current p + 1) mod length (rp_urls p)\<rparr>, [rpc_url p], Inl setter_error))"
proof -
  obtain n where "length (rp_urls p) = Suc n" using assms by (cases "length (rp_urls p)") auto
  then show ?thesis
    by (auto simp: executeWithFailover_def trySwitchToNextRpc_def split: sum.split)
qed

text \<open>
  A call tries the current server and no other: its result is passed on; a failure is passed on
  when there is one server, and otherwise replaced by the TypeError of the assignment, after which
  the next server is current.
\<close>

theorem only_current_server_tried:
  assumes "rp_urls p \<noteq> []"
  shows "case executeWithFailover fn p of (p', tried, r) \<Rightarrow>
    tried = [rpc_url p] \<and> rp_urls p' = rp_urls p \<and>
    (case fn 0 (rpc_url p) of
       Inr v \<Rightarrow> r = Inr v \<and> p' = p
     | Inl e \<Rightarrow> if length (rp_urls p) = 1 then r = Inl e \<and> p' = p
        else r = Inl setter_error \<and> rp_current p' = (rp_current p + 1) mod length (rp_urls p))"
  by (auto simp: execute_cases[OF assms] split: sum.split)

theorem only_current_server_tried_witness:
  "fst (snd (executeWithFailover (\<lambda>_ u. if u = ''b'' then Inr (7 :: nat) else Inl (Raw JNull)) (new_pool [''a'', ''b'']))) = [''a'']"
  using only_current_server_tried[of "new_pool [''a'', ''b'']" "\<lambda>_ u. if u = ''b'' then Inr (7 :: nat) else Inl (Raw JNull)"]
  by (auto simp: new_pool_def rpc_url_def split: prod.splits)

text \<open>What the documentation describes: the servers in cyclic order until one answers.\<close>

fun failover_spec :: "(nat \<Rightarrow> string \<Rightarrow> thrown + 'v) \<Rightarrow> nat \<Rightarrow> string list \<Rightarrow> thrown \<Rightarrow> thrown + 'v" where
  "failover_spec fn i [] e = Inl e"
| "failover_spec fn i (u # us) e = (case fn i u of Inr v \<Rightarrow> Inr v | Inl e' \<Rightarrow> failover_spec fn (Suc i) us e')"

lemma failover_differs_from_spec:
  "failover_spec (\<lambda>_ u. if u = ''b'' then Inr (7 :: nat) else Inl (Raw JNull)) 0 [''a'', ''b''] (Raw JUndef) = Inr 7 \<and>
   snd (snd (executeWithFailover (\<lambda>_ u. if u = ''b'' then Inr (7 :: nat) else Inl (Raw JNull)) (new_pool [''a'', ''b'']))) =
     Inl setter_error"
  by (simp add: execute_cases new_pool_def rpc_url_def)






end
