(* ===== verification/Simulator.thy ===== *)
theory Simulator
  imports Doubles Errors
begin

text \<open>
  The transaction simulator of \<open>packages/core\<close> (\<open>transaction/transactionSimulator.ts\<close>). What the
  client's \<open>simulateTransaction\<close> answers is an argument: an error, or the operations' counts and
  the minimal resource fee, each possibly absent. The Stellar SDK gives that fee as a decimal
  text, so a fee is an amount that may be a text: \<open>+\<close> then concatenates and \<open><\<close> compares by
  character. Counts and fees are integers whose sums stay below \<open>2 ^ 53\<close>, where doubles are
  exact; quotients and ratings are rounded as the code rounds them. Of a transaction only the
  text of its fee is read.

  The lemmas show the range of the ratings, that the fees of the operations cover the resource
  fee, what the comparison picks, that the history keeps the latest fifty, and where the code
  falls short of its documentation.
\<close>

section \<open>Amounts\<close>

datatype amount = Amt int | AmtNaN | AmtText string

definition signed_digits :: "string \<Rightarrow> int option" where
  "signed_digits s =
    (let ds = (case s of [] \<Rightarrow> [] | c # r \<Rightarrow> if c = CHR ''-'' \<or> c = CHR ''+'' then r else s);
         sg = (if take 1 s = ''-'' then -1 else 1)
     in if ds = [] \<or> \<not> list_all is_digit ds then None else Some (sg * int (str_nat ds)))"

text \<open>
  The number a text converts to, and \<open>parseInt\<close>; fractions, exponents and other bases do not
  occur in fees and convert to NaN here.
\<close>

definition text_num :: "string \<Rightarrow> jsnum" where
  "text_num s = (let t = js_trim s in if t = [] then Fin 0 else
     case signed_digits t of None \<Rightarrow> NaN | Some i \<Rightarrow> Fin (of_int i))"

definition js_parseInt :: "string \<Rightarrow> amount" where
  "js_parseInt s =
    (let t = dropWhile is_space s; sg = takeWhile (\<lambda>c. c = CHR ''-'' \<or> c = CHR ''+'') (take 1 t)
     in case signed_digits (sg @ takeWhile is_digit (drop (length sg) t)) of None \<Rightarrow> AmtNaN | Some i \<Rightarrow> Amt i)"

fun amt_num :: "amount \<Rightarrow> jsnum" where
  "amt_num (Amt i) = Fin (of_int i)"
| "amt_num AmtNaN = NaN"
| "amt_num (AmtText s) = text_num s"

fun amt_text :: "amount \<Rightarrow> string" where
  "amt_text (Amt i) = int_str i"
| "amt_text AmtNaN = ''NaN''"
| "amt_text (AmtText s) = s"

fun amt_add :: "amount \<Rightarrow> amount \<Rightarrow> amount" where
  "amt_add (Amt a) (Amt b) = Amt (a + b)"
| "amt_add (AmtText a) b = AmtText (a @ amt_text b)"
| "amt_add a (AmtText b) = AmtText (amt_text a @ b)"
| "amt_add _ _ = AmtNaN"

fun str_less :: "string \<Rightarrow> string \<Rightarrow> bool" where
  "str_less _ [] = False"
| "str_less [] (_ # _) = True"
| "str_less (a # as) (b # bs) =
     (if a = b then str_less as bs else (of_char a :: nat) < of_char b)"

fun amt_less :: "amount \<Rightarrow> amount \<Rightarrow> bool" where
  "amt_less (AmtText a) (AmtText b) = str_less a b"
| "amt_less a b = n_less (amt_num a) (amt_num b)"

definition amt_truthy :: "amount \<Rightarrow> bool" where
  "amt_truthy a = (a \<noteq> Amt 0 \<and> a \<noteq> AmtNaN \<and> a \<noteq> AmtText [])"

section \<open>Results\<close>

datatype sim_response =
    RespError string
  | RespSuccess "(nat option \<times> nat option) list option" "amount option"

record sim_analysis =
  an_cpuEfficiency :: jsnum
  an_memoryEfficiency :: jsnum
  an_feeEfficiency :: jsnum
  an_overallEfficiency :: jsnum

record operation_usage =
  ou_operationIndex :: nat
  ou_cpuInstructions :: nat
  ou_memoryBytes :: nat
  ou_fee :: amount

record cost_breakdown =
  cb_baseFee :: amount
  cb_resourceFee :: amount
  cb_totalFee :: amount

record DetailedSimulationResult =
  ds_cpuInstructions :: nat
  ds_memoryBytes :: nat
  ds_recommendedFee :: amount
  ds_success :: bool
  ds_error :: "string option"
  ds_raw :: sim_response
  ds_analysis :: sim_analysis
  ds_suggestions :: "string list"
  ds_costBreakdown :: cost_breakdown
  ds_perOperation :: "operation_usage list"

datatype sim_priority = PriCpu | PriMemory | PriFee | PriBalanced

record ResourceOptimizationOptions =
  ro_maxCpuInstructions :: "nat option"
  ro_maxMemoryBytes :: "nat option"
  ro_maxFee :: "int option"
  ro_priority :: sim_priority

section \<open>Ratings and suggestions\<close>

abbreviation n_of :: "nat \<Rightarrow> jsnum" where "n_of n \<equiv> Fin (of_nat n)"

definition rating :: "jsnum \<Rightarrow> rat \<Rightarrow> jsnum" where
  "rating x full = n_max (Fin 0) (n_min (Fin 100) (n_sub (Fin 100) (n_mul (n_div x (Fin full)) (Fin 100))))"

definition calculateEfficiencyMetrics :: "nat \<Rightarrow> nat \<Rightarrow> amount \<Rightarrow> amount \<Rightarrow> sim_analysis" where
  "calculateEfficiencyMetrics cpu memory baseFee resourceFee =
    (let c = rating (n_of cpu) 1000000;
         m = rating (n_of memory) 100000;
         f = rating (amt_num (amt_add baseFee resourceFee)) 1000000
     in \<lparr>an_cpuEfficiency = c, an_memoryEfficiency = m, an_feeEfficiency = f,
         an_overallEfficiency = n_div (n_add (n_add c m) f) (Fin 3)\<rparr>)"

definition generateOptimizationSuggestions :: "sim_analysis \<Rightarrow> operation_usage list \<Rightarrow> string list" where
  "generateOptimizationSuggestions an ops =
    (let avgCpu = n_div (n_of (sum_list (map ou_cpuInstructions ops))) (n_of (length ops));
         outliers = filter (\<lambda>u. n_less (n_mul avgCpu (Fin 2)) (n_of (ou_cpuInstructions u))) ops
     in (if n_less (an_cpuEfficiency an) (Fin 50) then [''Consider optimizing CPU-intensive operations''] else [])
      @ (if n_less (an_memoryEfficiency an) (Fin 50) then [''Consider reducing memory usage in operations''] else [])
      @ (if n_less (an_feeEfficiency an) (Fin 50) then [''Consider reducing transaction fee''] else [])
      @ (if length outliers > 0
         then [nat_str (length outliers) @ '' operations use significantly more CPU than average''] else []))"

definition generateCpuOptimizations :: "DetailedSimulationResult \<Rightarrow> string list" where
  "generateCpuOptimizations sim =
     (if int (ds_cpuInstructions sim) > 500000 then [''Split into multiple transactions to reduce CPU load''] else [])
     @ (if length (ds_perOperation sim) > 5
        then [''Consider reducing the number of operations per transaction''] else [])"

definition generateMemoryOptimizations :: "DetailedSimulationResult \<Rightarrow> string list" where
  "generateMemoryOptimizations sim =
     (if int (ds_memoryBytes sim) > 50000 then [''Optimize data structures to reduce memory usage''] else [])"

definition generateFeeOptimizations :: "DetailedSimulationResult \<Rightarrow> string list" where
  "generateFeeOptimizations sim =
     (if amt_less (cb_resourceFee (ds_costBreakdown sim)) (cb_baseFee (ds_costBreakdown sim))
      then [''Consider reducing base fee and increasing resource fee allocation''] else [])"

definition generateBalancedOptimizations :: "DetailedSimulationResult \<Rightarrow> string list" where
  "generateBalancedOptimizations sim =
     generateCpuOptimizations sim @ generateMemoryOptimizations sim @ generateFeeOptimizations sim"

section \<open>Simulation\<close>

definition op_fee :: "nat \<Rightarrow> nat \<Rightarrow> amount \<Rightarrow> amount" where
  "op_fee cpu totalCpu resourceFee =
     (case n_mul (n_div (n_of cpu) (n_of totalCpu)) (amt_num resourceFee) of
        Fin q \<Rightarrow> Amt \<lceil>q\<rceil> | _ \<Rightarrow> AmtNaN)"

fun usage_list :: "nat \<Rightarrow> (nat option \<times> nat option) list \<Rightarrow> operation_usage list" where
  "usage_list i [] = []"
| "usage_list i ((c, m) # rs) =
     \<lparr>ou_operationIndex = i, ou_cpuInstructions = (case c of None \<Rightarrow> 0 | Some n \<Rightarrow> n),
      ou_memoryBytes = (case m of None \<Rightarrow> 0 | Some n \<Rightarrow> n), ou_fee = Amt 0\<rparr> # usage_list (Suc i) rs"

definition detailed_failure :: "string \<Rightarrow> DetailedSimulationResult" where
  "detailed_failure e =
     \<lparr>ds_cpuInstructions = 0, ds_memoryBytes = 0, ds_recommendedFee = Amt 0, ds_success = False,
      ds_error = Some e, ds_raw = RespError e,
      ds_analysis = \<lparr>an_cpuEfficiency = Fin 0, an_memoryEfficiency = Fin 0, an_feeEfficiency = Fin 0,
                     an_overallEfficiency = Fin 0\<rparr>,
      ds_suggestions = [''Fix simulation errors before optimization''],
      ds_costBreakdown = \<lparr>cb_baseFee = Amt 0, cb_resourceFee = Amt 0, cb_totalFee = Amt 0\<rparr>,
      ds_perOperation = []\<rparr>"

definition detailed_success ::
    "string \<Rightarrow> (nat option \<times> nat option) list option \<Rightarrow> amount option \<Rightarrow> DetailedSimulationResult" where
  "detailed_success txFee results minResourceFee =
    (let perOperation = usage_list 0 (case results of None \<Rightarrow> [] | Some rs \<Rightarrow> rs);
         totalCpu = sum_list (map ou_cpuInstructions perOperation);
         totalMemory = sum_list (map ou_memoryBytes perOperation);
         resourceFee = (case minResourceFee of None \<Rightarrow> Amt 0 | Some f \<Rightarrow> if amt_truthy f then f else Amt 0);
         baseFee = js_parseInt txFee;
         an = calculateEfficiencyMetrics totalCpu totalMemory baseFee resourceFee;
         total = amt_add baseFee resourceFee
     in \<lparr>ds_cpuInstructions = totalCpu, ds_memoryBytes = totalMemory, ds_recommendedFee = total,
         ds_success = True, ds_error = None, ds_raw = RespSuccess results minResourceFee,
         ds_analysis = an, ds_suggestions = generateOptimizationSuggestions an perOperation,
         ds_costBreakdown = \<lparr>cb_baseFee = baseFee, cb_resourceFee = resourceFee, cb_totalFee = total\<rparr>,
         ds_perOperation = map (\<lambda>u. u\<lparr>ou_fee := op_fee (ou_cpuInstructions u) totalCpu resourceFee\<rparr>) perOperation\<rparr>)"

definition detailedSimulation :: "string \<Rightarrow> thrown + sim_response \<Rightarrow> thrown + DetailedSimulationResult" where
  "detailedSimulation txFee answer =
    (case answer of
       Inl e \<Rightarrow> Inl e
     | Inr (RespError e) \<Rightarrow> Inr (detailed_failure e)
     | Inr (RespSuccess results f) \<Rightarrow> Inr (detailed_success txFee results f))"

section \<open>Comparison\<close>

text \<open>\<open>reduce((best, current, index) => better ? index : best, 0)\<close>\<close>

fun best_loop :: "('a \<Rightarrow> 'a \<Rightarrow> bool) \<Rightarrow> 'a list \<Rightarrow> nat \<Rightarrow> nat \<Rightarrow> 'a list \<Rightarrow> nat" where
  "best_loop better results b i [] = b"
| "best_loop better results b i (x # xs) =
     best_loop better results (if better x (results ! b) then i else b) (Suc i) xs"

definition best_index :: "('a \<Rightarrow> 'a \<Rightarrow> bool) \<Rightarrow> 'a list \<Rightarrow> nat" where
  "best_index better results = best_loop better results 0 0 results"

definition sum_fees :: "DetailedSimulationResult list \<Rightarrow> amount" where
  "sum_fees rs = foldl (\<lambda>s r. amt_add s (ds_recommendedFee r)) (Amt 0) rs"

definition generateComparativeRecommendations :: "DetailedSimulationResult list \<Rightarrow> string list" where
  "generateComparativeRecommendations results =
    (if length results < 2 then []
     else
       let avgFee = n_div (amt_num (sum_fees results)) (n_of (length results));
           expensiveTx = filter (\<lambda>r. n_less (n_mul avgFee (Fin (3 / 2))) (amt_num (ds_recommendedFee r))) results
       in if length expensiveTx > 0
          then [nat_str (length expensiveTx) @ '' transactions are significantly more expensive than average'']
          else [])"

record sim_comparison =
  sc_results :: "DetailedSimulationResult list"
  sc_mostEfficient :: nat
  sc_leastExpensive :: nat
  sc_fastest :: nat
  sc_recommendations :: "string list"

text \<open>
  \<open>Promise.all\<close> rejects with the rejection that settles first, which \<open>first_rejection\<close> picks
  among those that occur.
\<close>

definition comparativeSimulation ::
    "(thrown list \<Rightarrow> thrown) \<Rightarrow> (string \<times> (thrown + sim_response)) list \<Rightarrow> thrown + sim_comparison" where
  "comparativeSimulation first_rejection txs =
    (let rs = map (\<lambda>(f, a). detailedSimulation f a) txs;
         errs = concat (map (\<lambda>r. case r of Inl e \<Rightarrow> [e] | Inr _ \<Rightarrow> []) rs)
     in if errs \<noteq> [] then Inl (first_rejection errs)
        else
          let results = concat (map (\<lambda>r. case r of Inl _ \<Rightarrow> [] | Inr d \<Rightarrow> [d]) rs)
          in Inr \<lparr>sc_results = results,
               sc_mostEfficient = best_index (\<lambda>c b. n_less (an_overallEfficiency (ds_analysis b))
                   (an_overallEfficiency (ds_analysis c))) results,
               sc_leastExpensive = best_index (\<lambda>c b. amt_less (ds_recommendedFee c) (ds_recommendedFee b)) results,
               sc_fastest = best_index (\<lambda>c b. ds_cpuInstructions c < ds_cpuInstructions b) results,
               sc_recommendations = generateComparativeRecommendations results\<rparr>)"

section \<open>Optimization and batches\<close>

record 'tx optimization =
  oz_optimized :: bool
  oz_suggestions :: "string list"
  oz_modifiedTransaction :: "'tx option"
  oz_estimatedSavings :: "(int \<times> int \<times> int) option"

definition target_exceeded :: "nat option \<Rightarrow> nat \<Rightarrow> bool" where
  "target_exceeded target x = (case target of None \<Rightarrow> False | Some t \<Rightarrow> t \<noteq> 0 \<and> x > t)"

definition fee_exceeded :: "int option \<Rightarrow> amount \<Rightarrow> bool" where
  "fee_exceeded target x = (case target of None \<Rightarrow> False | Some t \<Rightarrow> t \<noteq> 0 \<and> n_less (Fin (of_int t)) (amt_num x))"

definition exceeds_text :: "string \<Rightarrow> string \<Rightarrow> string \<Rightarrow> string" where
  "exceeds_text what x t = what @ '' ('' @ x @ '') exceeds target ('' @ t @ '')''"

definition optimizeTransaction ::
    "string \<Rightarrow> thrown + sim_response \<Rightarrow> ResourceOptimizationOptions \<Rightarrow> thrown + 'tx optimization" where
  "optimizeTransaction txFee answer opts =
    (case detailedSimulation txFee answer of
       Inl e \<Rightarrow> Inl e
     | Inr sim \<Rightarrow>
         if \<not> ds_success sim
         then Inr \<lparr>oz_optimized = False, oz_suggestions = [''Fix simulation errors before optimization''],
                   oz_modifiedTransaction = None, oz_estimatedSavings = None\<rparr>
         else
           let cpu = target_exceeded (ro_maxCpuInstructions opts) (ds_cpuInstructions sim);
               mem = target_exceeded (ro_maxMemoryBytes opts) (ds_memoryBytes sim);
               fee = fee_exceeded (ro_maxFee opts) (ds_recommendedFee sim)
           in Inr \<lparr>oz_optimized = (cpu \<or> mem \<or> fee),
                oz_suggestions =
                  (if cpu then [exceeds_text ''CPU usage'' (nat_str (ds_cpuInstructions sim))
                                  (nat_str (the (ro_maxCpuInstructions opts)))] else [])
                @ (if mem then [exceeds_text ''Memory usage'' (nat_str (ds_memoryBytes sim))
                                  (nat_str (the (ro_maxMemoryBytes opts)))] else [])
                @ (if fee then [exceeds_text ''Fee'' (amt_text (ds_recommendedFee sim))
                                  (int_str (the (ro_maxFee opts)))] else [])
                @ (case ro_priority opts of
                     PriCpu \<Rightarrow> generateCpuOptimizations sim
                   | PriMemory \<Rightarrow> generateMemoryOptimizations sim
                   | PriFee \<Rightarrow> generateFeeOptimizations sim
                   | PriBalanced \<Rightarrow> generateBalancedOptimizations sim),
                oz_modifiedTransaction = None,
                oz_estimatedSavings = Some (0, 0, 0)\<rparr>)"

record 'call batch_estimate =
  be_operation :: 'call
  be_estimatedCpu :: nat
  be_estimatedMemory :: nat
  be_estimatedFee :: amount
  be_confidence :: rat

text \<open>No temporary transaction is ever built: the function ends in a \<open>throw\<close>.\<close>

definition createTemporaryTransaction :: "'call \<Rightarrow> thrown + string" where
  "createTemporaryTransaction call =
     Inl (Raw (JErr ''Error'' ''Temporary transaction creation not implemented'' []))"

definition estimateBatchResources ::
    "(string \<Rightarrow> thrown + sim_response) \<Rightarrow> 'call list \<Rightarrow> 'call batch_estimate list" where
  "estimateBatchResources simulate operations =
     map (\<lambda>call.
       let default = \<lparr>be_operation = call, be_estimatedCpu = 0, be_estimatedMemory = 0,
                      be_estimatedFee = Amt 100000, be_confidence = to_double (1 / 10)\<rparr>
       in case createTemporaryTransaction call of
            Inl _ \<Rightarrow> default
          | Inr tx \<Rightarrow> (case detailedSimulation tx (simulate tx) of
                Inl _ \<Rightarrow> default
              | Inr s \<Rightarrow> \<lparr>be_operation = call, be_estimatedCpu = ds_cpuInstructions s,
                  be_estimatedMemory = ds_memoryBytes s, be_estimatedFee = ds_recommendedFee s,
                  be_confidence = (if ds_success s then to_double (9 / 10) else to_double (1 / 10))\<rparr>)) operations"

section \<open>History\<close>

type_synonym sim_history = "(string, DetailedSimulationResult list) jsmap"

definition trackSimulationHistory :: "string \<Rightarrow> DetailedSimulationResult \<Rightarrow> sim_history \<Rightarrow> sim_history" where
  "trackSimulationHistory key result h =
    (let hs = (case jm_get h key of None \<Rightarrow> [] | Some xs \<Rightarrow> xs) @ [result]
     in jm_set key (if length hs > 50 then tl hs else hs) h)"

datatype trend = Improving | Degrading | Stable

record sim_trends =
  st_averageCpu :: jsnum
  st_averageMemory :: jsnum
  st_averageFee :: jsnum
  st_trendDirection :: trend
  st_sampleSize :: nat

definition average_of :: "(DetailedSimulationResult \<Rightarrow> nat) \<Rightarrow> DetailedSimulationResult list \<Rightarrow> jsnum" where
  "average_of f rs = n_div (n_of (sum_list (map f rs))) (n_of (length rs))"

definition average_fee :: "DetailedSimulationResult list \<Rightarrow> jsnum" where
  "average_fee rs = n_div (amt_num (sum_fees rs)) (n_of (length rs))"

definition trend_of :: "DetailedSimulationResult list \<Rightarrow> DetailedSimulationResult list \<Rightarrow> trend" where
  "trend_of older recent =
    (if older = [] then Stable
     else
       let change = (\<lambda>a b. n_div (n_sub a b) a);
           cpuChange = change (average_of ds_cpuInstructions older) (average_of ds_cpuInstructions recent);
           feeChange = change (average_fee older) (average_fee recent);
           up = Fin (to_double (5 / 100)); down = Fin (- to_double (5 / 100))
       in if n_less up cpuChange \<and> n_less up feeChange then Improving
          else if n_less cpuChange down \<or> n_less feeChange down then Degrading else Stable)"

definition getHistoricalTrends :: "string \<Rightarrow> sim_history \<Rightarrow> sim_trends option" where
  "getHistoricalTrends key h =
    (case jm_get h key of
       None \<Rightarrow> None
     | Some hist \<Rightarrow>
         if length hist < 3 then None
         else
           let recent = newest 10 hist;
               older = newest 10 (take (length hist - 10) hist)
           in Some \<lparr>st_averageCpu = average_of ds_cpuInstructions recent,
                    st_averageMemory = average_of ds_memoryBytes recent,
                    st_averageFee = average_fee recent,
                    st_trendDirection = trend_of older recent,
                    st_sampleSize = length hist\<rparr>)"

section \<open>Ratings\<close>

definition in_percent :: "jsnum \<Rightarrow> bool" where
  "in_percent x \<longleftrightarrow> (case x of Fin q \<Rightarrow> 0 \<le> q \<and> q \<le> 100 | _ \<Rightarrow> False)"

lemma rating_in_percent: "0 < full \<Longrightarrow> in_percent (rating (Fin q) full)"
  by (auto simp: rating_def in_percent_def n_max_def n_min_def n_sub_def)

lemma rating_NaN [simp]: "rating NaN full = NaN"
  by (simp add: rating_def n_max_def n_min_def n_sub_def inf_of_sign_def)

lemma percent_mean:
  assumes "in_percent a" "in_percent b" "in_percent c"
  shows "in_percent (n_div (n_add (n_add a b) c) (Fin 3))"
proof -
  obtain x y z where v: "a = Fin x" "b = Fin y" "c = Fin z"
    using assms by (auto simp: in_percent_def split: jsnum.splits)
  then have r: "0 \<le> x" "x \<le> 100" "0 \<le> y" "y \<le> 100" "0 \<le> z" "z \<le> 100"
    using assms by (auto simp: in_percent_def)
  have s1: "to_double (x + y) \<le> of_int 200" by (rule to_double_le_int) (use r in auto)
  have s2: "to_double (to_double (x + y) + z) \<le> of_int 300" by (rule to_double_le_int) (use r s1 in auto)
  have s3: "to_double (to_double (to_double (x + y) + z) / 3) \<le> of_int 100"
    by (rule to_double_le_int) (use s2 in auto)
  have "0 \<le> to_double (to_double (to_double (x + y) + z) / 3)"
    using r by (simp add: to_double_nonneg)
  then show ?thesis using s3 by (simp add: v in_percent_def)
qed

lemma amt_num_cases: "amt_num a = NaN \<or> (\<exists>q. amt_num a = Fin q)"
  by (cases a) (auto simp: text_num_def Let_def split: option.splits)

text \<open>
  The ratings of a detailed simulation are percentages; the one of the fee, and with it the
  overall one, is so exactly if the total fee is a number, and NaN otherwise.
\<close>

theorem ratings_are_percentages:
  "let d = detailed_success txFee results f; an = ds_analysis d; ok = (amt_num (ds_recommendedFee d) \<noteq> NaN) in
   in_percent (an_cpuEfficiency an) \<and> in_percent (an_memoryEfficiency an) \<and>
   (if ok then in_percent (an_feeEfficiency an) \<and> in_percent (an_overallEfficiency an)
    else an_feeEfficiency an = NaN \<and> an_overallEfficiency an = NaN)"
proof -
  have nan: "n_div (n_add (n_add a b) NaN) (Fin 3) = NaN" if "in_percent a" "in_percent b" for a b
    using that by (auto simp: in_percent_def split: jsnum.splits)
  show ?thesis
    using amt_num_cases[of "ds_recommendedFee (detailed_success txFee results f)"]
    by (auto simp: detailed_success_def calculateEfficiencyMetrics_def Let_def rating_in_percent percent_mean nan)
qed

section \<open>Fees of operations\<close>

lemma usage_list_length [simp]: "length (usage_list i rs) = length rs"
  by (induction i rs rule: usage_list.induct) auto

lemma op_fee_near:
  assumes "0 < T" "c \<le> T" "0 \<le> F" "F * int T < 2 ^ 51" "amt_num rf = Fin (of_int F)"
  obtains k where "op_fee c T rf = Amt k" "of_nat c / of_nat T * of_int F \<le> (of_int k :: rat)"
    "of_int k \<le> of_nat c / of_nat T * of_int F + (1 :: rat)"
proof -
  define S where "S = of_nat c / of_nat T * (of_int F :: rat)"
  define y where "y = to_double (to_double (of_nat c / of_nat T) * of_int F)"
  have T: "(0 :: rat) < of_nat T" "(0 :: rat) < of_int (int T)" using assms(1) by auto
  have k: "op_fee c T rf = Amt \<lceil>y\<rceil>" using assms(1,5) by (simp add: op_fee_def y_def)
  have "\<bar>y - S\<bar> \<le> 3 * S / 2 ^ 53"
    using rounded_product(1)[of "of_int F" "of_nat c / of_nat T"] assms(3)
    by (simp add: y_def S_def mult.commute)
  moreover have "3 * S / 2 ^ 53 < 1 / of_int (int T)"
  proof -
    have "of_int (int T) * S \<le> of_int (int T) * of_int F"
      using assms(2,3) T by (simp add: S_def mult_right_mono)
    also have "\<dots> < (2 :: rat) ^ 51"
      using assms(4) by (metis of_int_less_iff of_int_numeral of_int_power of_int_mult mult.commute)
    finally have "of_int (int T) * (3 * S / 2 ^ 53) < (1 :: rat)" by simp
    then show ?thesis using T by (simp add: field_simps)
  qed
  ultimately have e: "\<bar>y - S\<bar> < 1 / of_int (int T)" by linarith
  have m: "of_int (int T) * S = of_int (int c * F)" using T by (simp add: S_def)
  have "0 < int T" using assms(1) by simp
  note n = near_ceiling[OF this m e]
  have "(of_int \<lceil>y\<rceil> :: rat) \<le> of_int (\<lfloor>S\<rfloor> + 1)" using n(2) by (simp only: of_int_le_iff)
  then have "of_int \<lceil>y\<rceil> \<le> S + 1" using of_int_floor_le[of S] by linarith
  then show thesis using that[OF k] n(1) by (simp add: S_def)
qed

fun amt_int :: "amount \<Rightarrow> int" where
  "amt_int (Amt i) = i"
| "amt_int _ = 0"

lemma op_fees_sum:
  assumes "0 < T" "0 \<le> F" "F * int T < 2 ^ 51" "amt_num rf = Fin (of_int F)" "sum_list cs \<le> T"
  shows "of_nat (sum_list cs) / of_nat T * of_int F \<le> (of_int (\<Sum>c\<leftarrow>cs. amt_int (op_fee c T rf)) :: rat)"
    and "of_int (\<Sum>c\<leftarrow>cs. amt_int (op_fee c T rf)) \<le> of_nat (sum_list cs) / of_nat T * of_int F + (of_nat (length cs) :: rat)"
  using assms(5)
proof (induction cs)
  case (Cons c cs)
  {
    case 1
    have "c \<le> T" using 1 by simp
    then obtain k where "op_fee c T rf = Amt k" "of_nat c / of_nat T * of_int F \<le> (of_int k :: rat)"
      using op_fee_near[OF assms(1) _ assms(2-4)] by metis
    then show ?case using Cons(1) 1 by (simp add: add_divide_distrib distrib_right)
  next
    case 2
    have "c \<le> T" using 2 by simp
    then obtain k where "op_fee c T rf = Amt k" "(of_int k :: rat) \<le> of_nat c / of_nat T * of_int F + 1"
      using op_fee_near[OF assms(1) _ assms(2-4)] by metis
    then show ?case using Cons(2) 2 by (simp add: add_divide_distrib distrib_right)
  }
qed simp_all

text \<open>
  When some operation used CPU and the resource fee is a number, the fees assigned to the
  operations cover it, and exceed it by at most one stroop each.
\<close>

theorem operation_fees_cover:
  assumes "d = detailed_success txFee results f" and "0 < ds_cpuInstructions d"
    and "amt_num (cb_resourceFee (ds_costBreakdown d)) = Fin (of_int F)" and "0 \<le> F"
    and "F * int (ds_cpuInstructions d) < 2 ^ 51"
  shows "F \<le> (\<Sum>u\<leftarrow>ds_perOperation d. amt_int (ou_fee u)) \<and>
    (\<Sum>u\<leftarrow>ds_perOperation d. amt_int (ou_fee u)) \<le> F + int (length (ds_perOperation d))"
proof -
  define cs where "cs = map ou_cpuInstructions (usage_list 0 (case results of None \<Rightarrow> [] | Some rs \<Rightarrow> rs))"
  define rf where "rf = cb_resourceFee (ds_costBreakdown d)"
  let ?T = "ds_cpuInstructions d"
  have T: "?T = sum_list cs" by (simp add: assms(1) detailed_success_def Let_def cs_def)
  have p: "map ou_fee (ds_perOperation d) = map (\<lambda>c. op_fee c ?T rf) cs"
    by (simp add: assms(1) detailed_success_def Let_def cs_def rf_def)
  then have l: "length (ds_perOperation d) = length cs" by (metis length_map)
  have s: "(\<Sum>u\<leftarrow>ds_perOperation d. amt_int (ou_fee u)) = (\<Sum>c\<leftarrow>cs. amt_int (op_fee c ?T rf))"
    using arg_cong[OF p, of "\<lambda>xs. sum_list (map amt_int xs)"] by (simp add: comp_def)
  have "sum_list cs \<le> ?T" by (simp add: T)
  note b = op_fees_sum[OF assms(2,4,5) assms(3)[folded rf_def] this]
  have q: "of_nat (sum_list cs) / of_nat ?T * of_int F = (of_int F :: rat)"
    using assms(2) unfolding T by (simp del: sum_list_eq_0_iff)
  have "(of_int F :: rat) \<le> of_int (\<Sum>c\<leftarrow>cs. amt_int (op_fee c ?T rf))"
    "(of_int (\<Sum>c\<leftarrow>cs. amt_int (op_fee c ?T rf)) :: rat) \<le> of_int (F + int (length cs))"
    using b unfolding q by simp_all
  then show ?thesis unfolding s l by (simp only: of_int_le_iff)
qed

definition demo_results :: "(nat option \<times> nat option) list option" where
  "demo_results = Some [(Some 10, Some 4), (Some 20, None), (Some 3, Some 1)]"

theorem operation_fees_cover_witness:
  "0 < ds_cpuInstructions (detailed_success ''100'' demo_results (Some (Amt 1000))) \<and>
   1000 \<le> (\<Sum>u\<leftarrow>ds_perOperation (detailed_success ''100'' demo_results (Some (Amt 1000))). amt_int (ou_fee u))"
  using operation_fees_cover[OF refl, of "''100''" demo_results "Some (Amt 1000)" 1000]
  by (simp add: detailed_success_def Let_def demo_results_def amt_truthy_def)

text \<open>When no operation reports CPU, its fee is not a number.\<close>

lemma fee_without_cpu_is_NaN: "op_fee c 0 rf = AmtNaN \<or> 0 < c"
  by (cases "amt_num rf") (auto simp: op_fee_def inf_of_sign_def)

section \<open>The best of several\<close>

definition first_best :: "('a \<Rightarrow> 'k :: linorder) \<Rightarrow> 'a list \<Rightarrow> nat \<Rightarrow> bool" where
  "first_best key xs b \<longleftrightarrow> b < length xs \<and> (\<forall>x\<in>set xs. key (xs ! b) \<le> key x) \<and>
     (\<forall>j<b. key (xs ! b) < key (xs ! j))"

lemma best_loop_first:
  fixes key :: "'a \<Rightarrow> 'k :: linorder"
  assumes "\<And>x y. x \<in> set results \<Longrightarrow> y \<in> set results \<Longrightarrow> better x y \<longleftrightarrow> key x < key y"
    and "xs = drop i results" and "b < length results"
    and "\<forall>j<i. j < length results \<longrightarrow> key (results ! b) \<le> key (results ! j)" and "\<forall>j<b. key (results ! b) < key (results ! j)"
    and "b \<le> i"
  shows "first_best key results (best_loop better results b i xs)"
  using assms(2-)
proof (induction xs arbitrary: b i)
  case Nil
  then have "\<forall>x\<in>set results. key (results ! b) \<le> key x" by (auto simp: in_set_conv_nth)
  then show ?case using Nil by (simp add: first_best_def)
next
  case (Cons x xs)
  then have i: "i < length results" "x = results ! i" "xs = drop (Suc i) results"
    by (auto simp: drop_Suc tl_drop dest: drop_eq_Nil2[THEN iffD2])
      (metis drop_all leI list.distinct(1), metis hd_drop_conv_nth drop_all leI list.distinct(1) list.sel(1),
       metis list.sel(3) tl_drop)
  have bt: "better x (results ! b) \<longleftrightarrow> key x < key (results ! b)"
    using i Cons.prems(2) by (intro assms(1)) auto
  show ?case
  proof (cases "better x (results ! b)")
    case True
    then have lt: "key x < key (results ! b)" using bt by simp
    have "first_best key results (best_loop better results i (Suc i) xs)"
    proof (rule Cons.IH[OF i(3) i(1)])
      show "\<forall>j<Suc i. j < length results \<longrightarrow> key (results ! i) \<le> key (results ! j)"
        using Cons.prems(3) lt i(2) by (auto simp: less_Suc_eq)
      show "\<forall>j<i. key (results ! i) < key (results ! j)"
        using Cons.prems(3) lt i by (meson less_le_trans less_trans)
    qed simp
    then show ?thesis using True by simp
  next
    case False
    then have le: "key (results ! b) \<le> key x" using bt by simp
    have "first_best key results (best_loop better results b (Suc i) xs)"
      by (rule Cons.IH[OF i(3) Cons.prems(2) _ Cons.prems(4)])
        (use Cons.prems(3,5) le i(2) in \<open>auto simp: less_Suc_eq\<close>)
    then show ?thesis using False by simp
  qed
qed

lemma best_index_first:
  fixes key :: "'a \<Rightarrow> 'k :: linorder"
  assumes "\<And>x y. x \<in> set results \<Longrightarrow> y \<in> set results \<Longrightarrow> better x y \<longleftrightarrow> key x < key y" "results \<noteq> []"
  shows "first_best key results (best_index better results)"
  unfolding best_index_def
  by (rule best_loop_first[where key = key and i = 0]) (use assms in auto)

fun fin_value :: "jsnum \<Rightarrow> rat" where
  "fin_value (Fin q) = q"
| "fin_value _ = 0"

lemma overall_rating_cases:
  assumes "detailedSimulation txFee answer = Inr d"
  shows "an_overallEfficiency (ds_analysis d) = NaN \<or> in_percent (an_overallEfficiency (ds_analysis d))"
proof -
  consider e where "d = detailed_failure e" | results f where "d = detailed_success txFee results f"
    using assms by (auto simp: detailedSimulation_def split: sum.splits sim_response.splits)
  then show ?thesis
  proof cases
    case 1
    then show ?thesis by (simp add: detailed_failure_def in_percent_def)
  next
    case 2
    then show ?thesis using ratings_are_percentages[of txFee results f] by (auto simp: Let_def split: if_splits)
  qed
qed

lemma comparison_results:
  assumes "comparativeSimulation pick txs = Inr sc"
  shows "d \<in> set (sc_results sc) \<Longrightarrow> \<exists>f a. (f, a) \<in> set txs \<and> detailedSimulation f a = Inr d"
    and "length (sc_results sc) = length txs"
proof -
  let ?rs = "map (\<lambda>(f, a). detailedSimulation f a) txs"
  have e: "concat (map (\<lambda>r. case r of Inl e \<Rightarrow> [e] | Inr _ \<Rightarrow> []) ?rs) = []"
    using assms by (auto simp: comparativeSimulation_def Let_def split: if_splits)
  have r: "sc_results sc = concat (map (\<lambda>r. case r of Inl _ \<Rightarrow> [] | Inr d \<Rightarrow> [d]) ?rs)"
    using assms by (auto simp: comparativeSimulation_def Let_def split: if_splits)
  show "\<exists>f a. (f, a) \<in> set txs \<and> detailedSimulation f a = Inr d" if "d \<in> set (sc_results sc)"
    using that unfolding r by (auto split: sum.splits) (metis)
  have "length (concat (map (\<lambda>r. case r of Inl _ \<Rightarrow> [] | Inr d \<Rightarrow> [d]) rs)) = length rs"
    if "concat (map (\<lambda>r. case r of Inl e \<Rightarrow> [e] | Inr _ \<Rightarrow> []) rs) = []"
    for rs :: "(thrown + DetailedSimulationResult) list"
    using that by (induction rs) (auto split: sum.splits)
  from this[OF e] show "length (sc_results sc) = length txs" by (simp add: r)
qed

text \<open>
  A comparison that returns has a result for every transaction, and picks the first of those
  with the least CPU, the first of the best rated when every rating is a number, and the first of
  the cheapest when every fee is one.
\<close>

theorem comparison_picks_first_best:
  assumes "comparativeSimulation pick txs = Inr sc" and "txs \<noteq> []"
  shows "length (sc_results sc) = length txs \<and>
    first_best ds_cpuInstructions (sc_results sc) (sc_fastest sc) \<and>
    ((\<forall>d\<in>set (sc_results sc). an_overallEfficiency (ds_analysis d) \<noteq> NaN) \<longrightarrow>
       first_best (\<lambda>d. - fin_value (an_overallEfficiency (ds_analysis d))) (sc_results sc) (sc_mostEfficient sc)) \<and>
    ((\<forall>d\<in>set (sc_results sc). \<exists>i. ds_recommendedFee d = Amt i) \<longrightarrow>
       first_best (\<lambda>d. amt_int (ds_recommendedFee d)) (sc_results sc) (sc_leastExpensive sc))"
proof -
  note cr = comparison_results[OF assms(1)]
  have ne: "sc_results sc \<noteq> []" using cr(2) assms(2) by auto
  have sel: "sc_fastest sc = best_index (\<lambda>c b. ds_cpuInstructions c < ds_cpuInstructions b) (sc_results sc)"
    "sc_mostEfficient sc = best_index (\<lambda>c b. n_less (an_overallEfficiency (ds_analysis b))
        (an_overallEfficiency (ds_analysis c))) (sc_results sc)"
    "sc_leastExpensive sc = best_index (\<lambda>c b. amt_less (ds_recommendedFee c) (ds_recommendedFee b)) (sc_results sc)"
    using assms(1) by (auto simp: comparativeSimulation_def Let_def split: if_splits)
  have num: "\<exists>q. an_overallEfficiency (ds_analysis d) = Fin q"
    if "d \<in> set (sc_results sc)" "an_overallEfficiency (ds_analysis d) \<noteq> NaN" for d
    using cr(1)[OF that(1)] overall_rating_cases that(2) by (fastforce simp: in_percent_def split: jsnum.splits)
  have "first_best ds_cpuInstructions (sc_results sc) (sc_fastest sc)"
    unfolding sel by (rule best_index_first[OF refl ne])
  moreover have "first_best (\<lambda>d. - fin_value (an_overallEfficiency (ds_analysis d))) (sc_results sc) (sc_mostEfficient sc)"
    if rated: "\<forall>d\<in>set (sc_results sc). an_overallEfficiency (ds_analysis d) \<noteq> NaN"
    unfolding sel
  proof (rule best_index_first[OF _ ne])
    fix x y assume xy: "x \<in> set (sc_results sc)" "y \<in> set (sc_results sc)"
    obtain p q where "an_overallEfficiency (ds_analysis x) = Fin p" "an_overallEfficiency (ds_analysis y) = Fin q"
      using num[OF xy(1)] num[OF xy(2)] rated xy by blast
    then show "n_less (an_overallEfficiency (ds_analysis y)) (an_overallEfficiency (ds_analysis x)) \<longleftrightarrow>
        - fin_value (an_overallEfficiency (ds_analysis x)) < - fin_value (an_overallEfficiency (ds_analysis y))"
      by simp
  qed
  moreover have "first_best (\<lambda>d. amt_int (ds_recommendedFee d)) (sc_results sc) (sc_leastExpensive sc)"
    if priced: "\<forall>d\<in>set (sc_results sc). \<exists>i. ds_recommendedFee d = Amt i"
    unfolding sel
  proof (rule best_index_first[OF _ ne])
    fix x y assume "x \<in> set (sc_results sc)" "y \<in> set (sc_results sc)"
    then obtain i j where "ds_recommendedFee x = Amt i" "ds_recommendedFee y = Amt j" using priced by blast
    then show "amt_less (ds_recommendedFee x) (ds_recommendedFee y) \<longleftrightarrow>
        amt_int (ds_recommendedFee x) < amt_int (ds_recommendedFee y)"
      by simp
  qed
  ultimately show ?thesis using cr(2) by blast
qed

definition demo_txs :: "(string \<times> (thrown + sim_response)) list" where
  "demo_txs = [(''100'', Inr (RespSuccess demo_results (Some (Amt 900)))),
               (''100'', Inr (RespSuccess (Some [(Some 5, None)]) (Some (Amt 800))))]"

theorem comparison_picks_first_best_witness:
  "\<exists>sc. comparativeSimulation hd demo_txs = Inr sc \<and> first_best ds_cpuInstructions (sc_results sc) (sc_fastest sc)"
proof -
  obtain sc where sc: "comparativeSimulation hd demo_txs = Inr sc"
    by (auto simp: comparativeSimulation_def demo_txs_def detailedSimulation_def Let_def)
  have "demo_txs \<noteq> []" by (simp add: demo_txs_def)
  from comparison_picks_first_best[OF sc this] sc show ?thesis by blast
qed

text \<open>
  With fees as the Stellar SDK gives them, as texts, the base fee is prefixed to the resource fee
  instead of added to it, and the comparison is by character: between base and resource fees of
  200 and 20, and of 100 and 9000, the second is picked as the cheaper.
\<close>

lemma text_fee_is_prefixed:
  assumes "s \<noteq> []" "js_parseInt txFee = Amt b"
  shows "ds_recommendedFee (detailed_success txFee results (Some (AmtText s))) = AmtText (int_str b @ s)"
  using assms by (simp add: detailed_success_def Let_def amt_truthy_def)

lemma demo_digits: "digit_char 0 = CHR ''0''" "digit_char (Suc 0) = CHR ''1''" "digit_char 2 = CHR ''2''"
  by code_simp+

lemma dearer_transaction_picked:
  "comparativeSimulation hd [(''200'', Inr (RespSuccess None (Some (AmtText ''20'')))),
      (''100'', Inr (RespSuccess None (Some (AmtText ''9000''))))] = Inr sc \<Longrightarrow>
   map ds_recommendedFee (sc_results sc) = [AmtText ''20020'', AmtText ''1009000''] \<and> sc_leastExpensive sc = 1"
  by (auto simp: comparativeSimulation_def detailedSimulation_def Let_def detailed_success_def amt_truthy_def
      js_parseInt_def signed_digits_def is_space_def is_digit_def str_nat_def int_str_def best_index_def
      nat_str.simps demo_digits)

section \<open>What optimization and batches deliver\<close>

text \<open>
  \<open>optimized\<close> says that a target was exceeded; the transaction is never modified, and the
  savings reported with it are zero.
\<close>

theorem optimization_reports_only:
  "case (optimizeTransaction txFee answer opts :: thrown + 'tx optimization) of
     Inl e \<Rightarrow> detailedSimulation txFee answer = Inl e
   | Inr z \<Rightarrow> (\<exists>d. detailedSimulation txFee answer = Inr d \<and>
       oz_modifiedTransaction z = None \<and> oz_estimatedSavings z = (if ds_success d then Some (0, 0, 0) else None) \<and>
       (oz_optimized z \<longleftrightarrow> ds_success d \<and>
         (target_exceeded (ro_maxCpuInstructions opts) (ds_cpuInstructions d) \<or>
          target_exceeded (ro_maxMemoryBytes opts) (ds_memoryBytes d) \<or>
          fee_exceeded (ro_maxFee opts) (ds_recommendedFee d))))"
  by (auto simp: optimizeTransaction_def Let_def split: sum.splits)

text \<open>
  Whatever the client would answer, the estimate of every operation in a batch is the default:
  no resources, a fee of 100000, the lower confidence.
\<close>

theorem batch_estimates_are_defaults:
  "estimateBatchResources simulate operations =
     map (\<lambda>call. \<lparr>be_operation = call, be_estimatedCpu = 0, be_estimatedMemory = 0,
       be_estimatedFee = Amt 100000, be_confidence = to_double (1 / 10)\<rparr>) operations"
  by (simp add: estimateBatchResources_def createTemporaryTransaction_def)

section \<open>History and trends\<close>

definition tracked :: "string \<Rightarrow> (string \<times> DetailedSimulationResult) list \<Rightarrow> DetailedSimulationResult list" where
  "tracked key rs = map snd (filter (\<lambda>p. fst p = key) rs)"

lemma tracked_snoc: "tracked key (rs @ [(k, d)]) = (if k = key then tracked key rs @ [d] else tracked key rs)"
  by (simp add: tracked_def)

lemma track_newest:
  "(case jm_get h k of None \<Rightarrow> [] | Some xs \<Rightarrow> xs) = newest 50 xs \<Longrightarrow>
    trackSimulationHistory k d h = jm_set k (newest 50 (xs @ [d])) h"
  by (simp only: trackSimulationHistory_def Let_def newest_snoc)

text \<open>
  The history of a key holds the latest fifty of the results tracked under it, in order; a
  trend is reported once there are three, over at most fifty samples, and is stable until there are
  more than ten.
\<close>

theorem history_keeps_latest:
  fixes rs :: "(string \<times> DetailedSimulationResult) list"
  defines "h \<equiv> foldl (\<lambda>h (k, d). trackSimulationHistory k d h) [] rs"
  shows "jm_get h key = (if tracked key rs = [] then None else Some (newest 50 (tracked key rs))) \<and>
    (case getHistoricalTrends key h of
       None \<Rightarrow> length (tracked key rs) < 3
     | Some t \<Rightarrow> 3 \<le> length (tracked key rs) \<and> st_sampleSize t = min 50 (length (tracked key rs)) \<and>
         (length (tracked key rs) \<le> 10 \<longrightarrow> st_trendDirection t = Stable))"
proof -
  have g: "jm_get (foldl (\<lambda>h (k, d). trackSimulationHistory k d h) [] rs) key =
      (if tracked key rs = [] then None else Some (newest 50 (tracked key rs)))" for key
  proof (induction rs arbitrary: key rule: rev_induct)
    case Nil
    show ?case by (simp add: tracked_def)
  next
    case (snoc p rs)
    obtain k d where p: "p = (k, d)" by (cases p)
    let ?h = "foldl (\<lambda>h (k, d). trackSimulationHistory k d h) [] rs"
    have cur: "(case jm_get ?h k of None \<Rightarrow> [] | Some xs \<Rightarrow> xs) = newest 50 (tracked k rs)"
      by (simp add: snoc[of k] newest_def)
    have "trackSimulationHistory k d ?h = jm_set k (newest 50 (tracked k rs @ [d])) ?h"
      by (rule track_newest[OF cur])
    then show ?case using snoc by (simp add: p tracked_snoc)
  qed
  have l: "length (newest 50 xs) = min 50 (length xs)" for xs :: "DetailedSimulationResult list"
    by (simp add: newest_def)
  show ?thesis using g[of key] unfolding h_def
    by (auto simp: getHistoricalTrends_def Let_def l trend_of_def newest_def)
qed

text \<open>
  An improving trend needs CPU figures: when the older half reports none, the relative
  change is no number or minus infinity, and the trend is never improving however fees fell.
\<close>

theorem no_cpu_never_improves:
  assumes "\<forall>d\<in>set older. ds_cpuInstructions d = 0"
  shows "trend_of older recent \<noteq> Improving"
proof (cases "older = []")
  case False
  have "average_of ds_cpuInstructions older = Fin 0"
    using assms False by (simp add: average_of_def cong: map_cong)
  moreover have "recent \<noteq> [] \<Longrightarrow> \<exists>q. average_of ds_cpuInstructions recent = Fin q \<and> 0 \<le> q"
    by (simp add: average_of_def to_double_nonneg)
  moreover have "recent = [] \<Longrightarrow> average_of ds_cpuInstructions recent = NaN"
    by (simp add: average_of_def inf_of_sign_def)
  moreover have "\<not> n_less (Fin u) (n_div (n_sub (Fin 0) (Fin q)) (Fin 0))" if "0 \<le> q" for u q
    using to_double_nonneg[OF that] to_double_uminus[of q] by (auto simp: n_sub_def inf_of_sign_def sgn_if)
  moreover have "\<not> n_less (Fin u) (n_div (n_sub (Fin 0) NaN) (Fin 0))" for u
    by (simp add: n_sub_def)
  ultimately show ?thesis unfolding trend_of_def Let_def by (cases "recent = []") auto
qed (simp add: trend_of_def)

theorem no_cpu_never_improves_witness:
  "trend_of [detailed_failure ''e''] [detailed_failure ''f''] \<noteq> Improving"
  using no_cpu_never_improves[of "[detailed_failure ''e'']"] by (simp add: detailed_failure_def)

end
