(* ===== verification/Signing.thy ===== *)
theory Signing
  imports Simulator AccountCache TxHistory "HOL-Library.Sublist"
begin

text \<open>
  Building, signing and submitting transactions in \<open>packages/core\<close>: \<open>TransactionSigner\<close>
  (\<open>transaction/transactionSigner.ts\<close>), the builder that extends it
  (\<open>transaction/enhancedTransactionBuilder.ts\<close>) and the fee bump of \<open>utils/transactionBuilder.ts\<close>.

  What they drive is the environment: the Stellar SDK's builder and encodings as functions, and
  the calls to wallet and client, which are recorded in a log and answered by functions of the
  log so far, so that answers may differ from call to call. An operation takes the log and returns
  an outcome and the extended log. Progress callbacks and delays are left out.

  The lemmas show the order of the calls and what flows between them, that nothing is signed
  after a refusal, what a batch reports, and where built transactions differ from what was asked.
\<close>

section \<open>The environment\<close>

datatype 'tx call =
    AskNetwork
  | AskKey
  | AskAccount string
  | Simulate 'tx
  | Prepare 'tx
  | Sign string string
  | Send string
  | Poll string
  | Preview string int

record poll_answer =
  pa_status :: string
  pa_raw :: jsv

datatype memo_spec = MText string | MId string | MHash string | MReturn string

record ('op, 'm, 'tx) signing_env =
  le_call :: "string \<Rightarrow> string \<Rightarrow> jsv list \<Rightarrow> thrown + 'op"
  le_memoText :: "string \<Rightarrow> thrown + 'm"
  le_memo :: "memo_spec \<Rightarrow> thrown + 'm"
  le_build :: "Account \<Rightarrow> string \<Rightarrow> 'op list \<Rightarrow> 'm option \<Rightarrow> int \<Rightarrow> thrown + 'tx"
  le_xdr :: "'tx \<Rightarrow> string"
  le_clientNetwork :: string
  le_passphrase :: string
  le_walletNetwork :: "'tx call list \<Rightarrow> thrown + string"
  le_walletKey :: "'tx call list \<Rightarrow> thrown + string"
  le_account :: "'tx call list \<Rightarrow> thrown + Account"
  le_simulate :: "'tx call list \<Rightarrow> thrown + sim_response"
  le_prepare :: "'tx call list \<Rightarrow> thrown + 'tx"
  le_sign :: "'tx call list \<Rightarrow> thrown + string"
  le_send :: "'tx call list \<Rightarrow> thrown + string"
  le_poll :: "'tx call list \<Rightarrow> thrown + poll_answer"

type_synonym ('tx, 'a) act = "'tx call list \<Rightarrow> (thrown + 'a) \<times> 'tx call list"

definition ask :: "('tx call list \<Rightarrow> thrown + 'a) \<Rightarrow> 'tx call \<Rightarrow> ('tx, 'a) act" where
  "ask answer c cl = (answer (cl @ [c]), cl @ [c])"

definition pureE :: "thrown + 'a \<Rightarrow> ('tx, 'a) act" where
  "pureE r cl = (r, cl)"

definition bindE :: "('tx, 'a) act \<Rightarrow> ('a \<Rightarrow> ('tx, 'b) act) \<Rightarrow> ('tx, 'b) act" where
  "bindE m k cl = (case m cl of (Inl e, l) \<Rightarrow> (Inl e, l) | (Inr v, l) \<Rightarrow> k v l)"

lemmas act_defs = ask_def pureE_def bindE_def

section \<open>The signer\<close>

record TransactionSigner =
  ts_defaultFee :: int
  ts_defaultTimeout :: int
  ts_autoSimulate :: bool

definition newTransactionSigner :: "int option \<Rightarrow> int option \<Rightarrow> bool option \<Rightarrow> TransactionSigner" where
  "newTransactionSigner fee timeout auto =
     \<lparr>ts_defaultFee = or_int fee 100000, ts_defaultTimeout = or_int timeout 60,
      ts_autoSimulate = (case auto of None \<Rightarrow> True | Some b \<Rightarrow> b)\<rparr>"

record ContractCallParams =
  cp_contractId :: string
  cp_method :: string
  cp_args :: "jsv list"

record TransactionBuildParams =
  bp_sourceAccount :: string
  bp_operations :: "ContractCallParams list"
  bp_fee :: "int option"
  bp_timeoutInSeconds :: "int option"
  bp_memo :: "string option"

record TransactionResult =
  tr_hash :: string
  tr_status :: string
  tr_successful :: bool
  tr_raw :: jsv
  tr_signedXdr :: string
  tr_simulation :: "sim_response option"

record SimulationEstimate =
  sr_cpuInstructions :: nat
  sr_memoryBytes :: nat
  sr_recommendedFee :: amount
  sr_success :: bool
  sr_error :: "string option"
  sr_raw :: sim_response

definition networkMismatch :: "string \<Rightarrow> string \<Rightarrow> thrown" where
  "networkMismatch expected found = AxErr CNetworkMismatchError
     (''Network mismatch: Expected '' @ expected @ '', but wallet is connected to '' @ found) None None None"

definition validateNetworks :: "('op, 'm, 'tx) signing_env \<Rightarrow> ('tx, unit) act" where
  "validateNetworks env =
     bindE (ask (le_walletNetwork env) AskNetwork) (\<lambda>n.
       pureE (if n \<noteq> le_clientNetwork env then Inl (networkMismatch (le_clientNetwork env) n) else Inr ()))"

fun build_operations :: "('op, 'm, 'tx) signing_env \<Rightarrow> ContractCallParams list \<Rightarrow> thrown + 'op list" where
  "build_operations env [] = Inr []"
| "build_operations env (c # cs) =
    (case le_call env (cp_contractId c) (cp_method c) (cp_args c) of
       Inl e \<Rightarrow> Inl e
     | Inr x \<Rightarrow> (case build_operations env cs of Inl e \<Rightarrow> Inl e | Inr xs \<Rightarrow> Inr (x # xs)))"

text \<open>What is built once the account is known; an empty memo text counts as none.\<close>

definition assemble ::
    "('op, 'm, 'tx) signing_env \<Rightarrow> TransactionSigner \<Rightarrow> TransactionBuildParams \<Rightarrow> Account \<Rightarrow> thrown + 'tx" where
  "assemble env s p account =
    (case build_operations env (bp_operations p) of
       Inl e \<Rightarrow> Inl e
     | Inr ops \<Rightarrow>
       (case (case bp_memo p of None \<Rightarrow> Inr None
              | Some t \<Rightarrow> if t = [] then Inr None
                  else (case le_memoText env t of Inl e \<Rightarrow> Inl e | Inr m \<Rightarrow> Inr (Some m))) of
          Inl e \<Rightarrow> Inl e
        | Inr memo \<Rightarrow> le_build env account (int_str (or_int (bp_fee p) (ts_defaultFee s))) ops memo
             (or_int (bp_timeoutInSeconds p) (ts_defaultTimeout s))))"

definition buildTransaction ::
    "('op, 'm, 'tx) signing_env \<Rightarrow> TransactionSigner \<Rightarrow> TransactionBuildParams \<Rightarrow> ('tx, 'tx) act" where
  "buildTransaction env s p =
     bindE (ask (le_account env) (AskAccount (bp_sourceAccount p))) (\<lambda>account. pureE (assemble env s p account))"

definition signing_sim_failed :: "string \<Rightarrow> thrown" where
  "signing_sim_failed e = Raw (JErr ''Error'' (''Transaction simulation failed: '' @ e) [])"

definition sign_and_submit ::
    "('op, 'm, 'tx) signing_env \<Rightarrow> string \<Rightarrow> sim_response option \<Rightarrow> ('tx, TransactionResult) act" where
  "sign_and_submit env envelope simulation =
     bindE (ask (le_sign env) (Sign envelope (le_passphrase env))) (\<lambda>signed.
     bindE (ask (le_send env) (Send signed)) (\<lambda>hash.
     bindE (ask (le_poll env) (Poll hash)) (\<lambda>final.
       pureE (Inr \<lparr>tr_hash = hash, tr_status = pa_status final, tr_successful = (pa_status final = ''SUCCESS''),
                   tr_raw = pa_raw final, tr_signedXdr = signed, tr_simulation = simulation\<rparr>))))"

definition prepare_simulated :: "('op, 'm, 'tx) signing_env \<Rightarrow> 'tx \<Rightarrow> ('tx, 'tx \<times> sim_response) act" where
  "prepare_simulated env tx =
     bindE (ask (le_simulate env) (Simulate tx)) (\<lambda>sim.
       case sim of
         RespError e \<Rightarrow> pureE (Inl (signing_sim_failed e))
       | RespSuccess rs f \<Rightarrow>
           bindE (ask (le_prepare env) (Prepare tx)) (\<lambda>ptx. pureE (Inr (ptx, sim))))"

definition buildAndSignTransaction ::
    "('op, 'm, 'tx) signing_env \<Rightarrow> TransactionSigner \<Rightarrow> TransactionBuildParams \<Rightarrow> ('tx, TransactionResult) act" where
  "buildAndSignTransaction env s p =
     bindE (validateNetworks env) (\<lambda>_.
     bindE (buildTransaction env s p) (\<lambda>tx.
       if ts_autoSimulate s
       then bindE (prepare_simulated env tx) (\<lambda>(ptx, sim). sign_and_submit env (le_xdr env ptx) (Some sim))
       else sign_and_submit env (le_xdr env tx) None))"

definition submitSignedTransaction :: "('op, 'm, 'tx) signing_env \<Rightarrow> string \<Rightarrow> ('tx, TransactionResult) act" where
  "submitSignedTransaction env signed =
     bindE (ask (le_send env) (Send signed)) (\<lambda>hash.
     bindE (ask (le_poll env) (Poll hash)) (\<lambda>final.
       pureE (Inr \<lparr>tr_hash = hash, tr_status = pa_status final, tr_successful = (pa_status final = ''SUCCESS''),
                   tr_raw = pa_raw final, tr_signedXdr = signed, tr_simulation = None\<rparr>)))"

definition simulation_result :: "TransactionSigner \<Rightarrow> sim_response \<Rightarrow> SimulationEstimate" where
  "simulation_result s sim =
    (case sim of
       RespError e \<Rightarrow> \<lparr>sr_cpuInstructions = 0, sr_memoryBytes = 0, sr_recommendedFee = Amt (ts_defaultFee s),
                       sr_success = False, sr_error = Some e, sr_raw = sim\<rparr>
     | RespSuccess rs f \<Rightarrow>
         let (c, m) = (case rs of Some (r # _) \<Rightarrow> r | _ \<Rightarrow> (None, None))
         in \<lparr>sr_cpuInstructions = (case c of None \<Rightarrow> 0 | Some n \<Rightarrow> n),
             sr_memoryBytes = (case m of None \<Rightarrow> 0 | Some n \<Rightarrow> n),
             sr_recommendedFee = (case f of None \<Rightarrow> Amt (ts_defaultFee s) | Some x \<Rightarrow> x),
             sr_success = True, sr_error = None, sr_raw = sim\<rparr>)"

definition signer_simulate ::
    "('op, 'm, 'tx) signing_env \<Rightarrow> TransactionSigner \<Rightarrow> TransactionBuildParams \<Rightarrow> ('tx, SimulationEstimate) act" where
  "signer_simulate env s p =
     bindE (buildTransaction env s p) (\<lambda>tx.
     bindE (ask (le_simulate env) (Simulate tx)) (\<lambda>sim. pureE (Inr (simulation_result s sim))))"

definition estimateOptimalFee ::
    "('op, 'm, 'tx) signing_env \<Rightarrow> TransactionSigner \<Rightarrow> TransactionBuildParams \<Rightarrow> ('tx, amount) act" where
  "estimateOptimalFee env s p =
     bindE (signer_simulate env s p) (\<lambda>r.
       pureE (if \<not> sr_success r
              then Inl (Raw (JErr ''Error'' (''Fee estimation failed: '' @ (case sr_error r of None \<Rightarrow> ''undefined'' | Some e \<Rightarrow> e)) []))
              else Inr (sr_recommendedFee r)))"

section \<open>Fee bumps (transactionBuilder.ts)\<close>

datatype inner_envelope = InnerFeeBump | InnerTransaction nat

text \<open>
  \<open>parse\<close> is \<open>TransactionBuilder.fromXDR\<close>, which gives the kind of envelope and its number of
  signatures; \<open>wrap\<close> builds and encodes the fee bump. The new fee is \<open>None\<close> when it is no integer.
\<close>

definition bumpTransactionFee ::
    "(string \<Rightarrow> thrown + inner_envelope) \<Rightarrow> (string \<Rightarrow> string \<Rightarrow> string \<Rightarrow> thrown + string) \<Rightarrow>
     string \<Rightarrow> int option \<Rightarrow> string \<Rightarrow> thrown + string" where
  "bumpTransactionFee parse wrap signedXdr newBaseFee feeSource =
    (let err = (\<lambda>m. Inl (Raw (JErr ''Error'' m []))) in
     if signedXdr = [] then err ''signedXdr is required''
     else case newBaseFee of
       None \<Rightarrow> err ''newBaseFee must be a positive integer''
     | Some fee \<Rightarrow>
         if fee \<le> 0 then err ''newBaseFee must be a positive integer''
         else if feeSource = [] then err ''feeSource is required''
         else (case parse signedXdr of
             Inl e \<Rightarrow> Inl e
           | Inr InnerFeeBump \<Rightarrow>
               err ''signedXdr must be a signed inner transaction, not an existing fee bump transaction''
           | Inr (InnerTransaction sigs) \<Rightarrow>
               if sigs = 0
               then err ''signedXdr must include at least one signature before applying a fee bump''
               else wrap feeSource (int_str fee) signedXdr))"

text \<open>
  The signer's own fee bump: after the bump it fetches the account of the fee source and then
  names \<open>FeeBumpTransaction\<close>, which the module does not import.
\<close>

definition createFeeBumpTransaction ::
    "('op, 'm, 'tx) signing_env \<Rightarrow> (string \<Rightarrow> thrown + inner_envelope) \<Rightarrow>
     (string \<Rightarrow> string \<Rightarrow> string \<Rightarrow> thrown + string) \<Rightarrow> string \<Rightarrow> string \<Rightarrow> int option \<Rightarrow> ('tx, string) act" where
  "createFeeBumpTransaction env parse wrap inner feeSource baseFee =
     bindE (pureE (bumpTransactionFee parse wrap inner baseFee feeSource)) (\<lambda>envelope.
     bindE (ask (le_account env) (AskAccount feeSource)) (\<lambda>account.
       pureE (Inl (Raw (JErr ''ReferenceError'' ''FeeBumpTransaction is not defined'' [])))))"

section \<open>The enhanced builder\<close>

definition multi_step_params ::
    "TransactionSigner \<Rightarrow> string \<Rightarrow> ContractCallParams list \<Rightarrow> int option \<Rightarrow> int option \<Rightarrow> string option \<Rightarrow> TransactionBuildParams" where
  "multi_step_params s source steps feePerOperation timeout memo =
     \<lparr>bp_sourceAccount = source, bp_operations = steps,
      bp_fee = Some (or_int feePerOperation (ts_defaultFee s) * int (length steps)),
      bp_timeoutInSeconds = timeout, bp_memo = memo\<rparr>"

definition buildAndSignMultiStepTransaction ::
    "('op, 'm, 'tx) signing_env \<Rightarrow> TransactionSigner \<Rightarrow> string \<Rightarrow> ContractCallParams list \<Rightarrow> int option \<Rightarrow>
     int option \<Rightarrow> string option \<Rightarrow> ('tx, TransactionResult) act" where
  "buildAndSignMultiStepTransaction env s source steps feePerOperation timeout memo =
     buildAndSignTransaction env s (multi_step_params s source steps feePerOperation timeout memo)"

definition failed_result :: "jsv \<Rightarrow> TransactionResult" where
  "failed_result message =
     \<lparr>tr_hash = [], tr_status = ''FAILED'', tr_successful = False,
      tr_raw = JObj [(''error'', message)], tr_signedXdr = [], tr_simulation = None\<rparr>"

text \<open>The message of an \<open>Error\<close>; and the property read without that check, which raises on a nullish value.\<close>

definition error_or_unknown :: "thrown \<Rightarrow> string" where
  "error_or_unknown e = (case e of AxErr c m st rid orig \<Rightarrow> m | Raw (JErr n m ps) \<Rightarrow> m | _ \<Rightarrow> ''Unknown error'')"

definition message_property :: "thrown \<Rightarrow> thrown + jsv" where
  "message_property e =
    (case e of
       AxErr c m st rid orig \<Rightarrow> Inr (JStr m)
     | Raw (JErr n m ps) \<Rightarrow> Inr (JStr m)
     | Raw (JObj ps) \<Rightarrow> Inr (jprop ps ''message'')
     | Raw JUndef \<Rightarrow> Inl (type_error ''Cannot read properties of undefined (reading 'message')'')
     | Raw JNull \<Rightarrow> Inl (type_error ''Cannot read properties of null (reading 'message')'')
     | Raw _ \<Rightarrow> Inr JUndef)"

record batch_summary =
  bs_total :: nat
  bs_successful :: nat
  bs_failed :: nat

definition batch_summarize :: "TransactionResult list \<Rightarrow> batch_summary" where
  "batch_summarize results =
     \<lparr>bs_total = length results, bs_successful = length (filter tr_successful results),
      bs_failed = length (filter (\<lambda>r. \<not> tr_successful r) results)\<rparr>"

fun batch_loop ::
    "('op, 'm, 'tx) signing_env \<Rightarrow> TransactionSigner \<Rightarrow> TransactionBuildParams list \<Rightarrow> 'tx call list \<Rightarrow>
     TransactionResult list \<times> 'tx call list" where
  "batch_loop env s [] cl = ([], cl)"
| "batch_loop env s (p # ps) cl =
    (case buildAndSignTransaction env s p cl of
       (Inl e, l) \<Rightarrow> (let (rs, l') = batch_loop env s ps l in (failed_result (JStr (error_or_unknown e)) # rs, l'))
     | (Inr r, l) \<Rightarrow> (let (rs, l') = batch_loop env s ps l in (r # rs, l')))"

definition processBatchTransactions ::
    "('op, 'm, 'tx) signing_env \<Rightarrow> TransactionSigner \<Rightarrow> TransactionBuildParams list \<Rightarrow>
     ('tx, TransactionResult list \<times> batch_summary) act" where
  "processBatchTransactions env s ps cl =
     (let (rs, l) = batch_loop env s ps cl in (Inr (rs, batch_summarize rs), l))"

text \<open>
  In parallel the runs interleave, and only their outcomes matter; a rejection that the handler
  itself raises rejects the whole batch.
\<close>

fun parallel_results :: "(thrown + TransactionResult) list \<Rightarrow> thrown + TransactionResult list" where
  "parallel_results [] = Inr []"
| "parallel_results (x # xs) =
    (case (case x of Inr r \<Rightarrow> Inr r
           | Inl e \<Rightarrow> (case message_property e of Inl te \<Rightarrow> Inl te | Inr m \<Rightarrow> Inr (failed_result m))) of
       Inl te \<Rightarrow> Inl te
     | Inr r \<Rightarrow> (case parallel_results xs of Inl te \<Rightarrow> Inl te | Inr rs \<Rightarrow> Inr (r # rs)))"

definition processBatchParallel ::
    "(thrown + TransactionResult) list \<Rightarrow> thrown + TransactionResult list \<times> batch_summary" where
  "processBatchParallel outcomes =
     (case parallel_results outcomes of Inl e \<Rightarrow> Inl e | Inr rs \<Rightarrow> Inr (rs, batch_summarize rs))"

text \<open>Conditions see the whole simulation; an operation with a condition and no result of its own is dropped.\<close>

type_synonym conditional_op = "ContractCallParams \<times> (sim_response \<Rightarrow> thrown + bool) option"

definition result_count :: "sim_response \<Rightarrow> nat" where
  "result_count sim = (case sim of RespSuccess (Some rs) _ \<Rightarrow> length rs | _ \<Rightarrow> 0)"

fun filter_conditions :: "sim_response \<Rightarrow> nat \<Rightarrow> conditional_op list \<Rightarrow> thrown + ContractCallParams list" where
  "filter_conditions sim i [] = Inr []"
| "filter_conditions sim i ((c, cond) # cs) =
    (case (case cond of
             None \<Rightarrow> Inr True
           | Some f \<Rightarrow> if result_count sim \<le> i then Inr False else f sim) of
       Inl e \<Rightarrow> Inl e
     | Inr keep \<Rightarrow> (case filter_conditions sim (Suc i) cs of
           Inl e \<Rightarrow> Inl e
         | Inr rest \<Rightarrow> Inr (if keep then c # rest else rest)))"

definition plain_params :: "string \<Rightarrow> ContractCallParams list \<Rightarrow> string option \<Rightarrow> TransactionBuildParams" where
  "plain_params source ops memo =
     \<lparr>bp_sourceAccount = source, bp_operations = ops, bp_fee = None, bp_timeoutInSeconds = None, bp_memo = memo\<rparr>"

definition buildConditionalTransaction ::
    "('op, 'm, 'tx) signing_env \<Rightarrow> TransactionSigner \<Rightarrow> string \<Rightarrow> conditional_op list \<Rightarrow> ('tx, 'tx) act" where
  "buildConditionalTransaction env s source cops =
     bindE (buildTransaction env s (plain_params source (map fst cops) None)) (\<lambda>tx.
     bindE (ask (le_simulate env) (Simulate tx)) (\<lambda>sim.
       case sim of
         RespError e \<Rightarrow> pureE (Inl (Raw (JErr ''Error'' (''Conditional transaction simulation failed: '' @ e) [])))
       | RespSuccess _ _ \<Rightarrow>
           bindE (pureE (filter_conditions sim 0 cops)) (\<lambda>ops.
             if ops = [] then pureE (Inl (Raw (JErr ''Error'' ''All operations were filtered out by conditions'' [])))
             else buildTransaction env s (plain_params source ops None))))"

definition lock_memo :: "nat \<Rightarrow> nat \<Rightarrow> string" where
  "lock_memo k n = ''Time-locked tx: '' @ nat_str k @ ''/'' @ nat_str n @ '' ops available''"

definition buildTimeLockedTransaction ::
    "('op, 'm, 'tx) signing_env \<Rightarrow> TransactionSigner \<Rightarrow> int \<Rightarrow> string \<Rightarrow> (ContractCallParams \<times> int) list \<Rightarrow> ('tx, 'tx) act" where
  "buildTimeLockedTransaction env s now source lops =
    (let available = filter (\<lambda>(c, unlock). unlock \<le> now) lops in
     if available = [] then pureE (Inl (Raw (JErr ''Error'' ''All operations are still time-locked'' [])))
     else buildTransaction env s (plain_params source (map fst available)
            (Some (lock_memo (length available) (length lops)))))"

record cost_estimate =
  ce_transaction :: TransactionBuildParams
  ce_estimatedFee :: amount
  ce_estimatedCpu :: nat
  ce_estimatedMemory :: nat

text \<open>The estimates run concurrently; each depends only on the outcome of its own simulation.\<close>

definition estimateBatchCost ::
    "TransactionSigner \<Rightarrow> (TransactionBuildParams \<times> (thrown + SimulationEstimate)) list \<Rightarrow> cost_estimate list" where
  "estimateBatchCost s txs = map (\<lambda>(tx, outcome).
     case outcome of
       Inr r \<Rightarrow> \<lparr>ce_transaction = tx, ce_estimatedFee = sr_recommendedFee r,
                 ce_estimatedCpu = sr_cpuInstructions r, ce_estimatedMemory = sr_memoryBytes r\<rparr>
     | Inl _ \<Rightarrow> \<lparr>ce_transaction = tx, ce_estimatedFee = Amt (ts_defaultFee s),
                 ce_estimatedCpu = 0, ce_estimatedMemory = 0\<rparr>) txs"

definition buildTransactionWithMemo ::
    "('op, 'm, 'tx) signing_env \<Rightarrow> TransactionSigner \<Rightarrow> string \<Rightarrow> ContractCallParams list \<Rightarrow> memo_spec \<Rightarrow> ('tx, 'tx) act" where
  "buildTransactionWithMemo env s source ops memo =
    (let text = (case memo of MText t \<Rightarrow> Some t | _ \<Rightarrow> None) in
     bindE (buildTransaction env s (plain_params source ops text)) (\<lambda>tx.
       case memo of
         MText _ \<Rightarrow> pureE (Inr tx)
       | _ \<Rightarrow>
           bindE (ask (le_account env) (AskAccount source)) (\<lambda>account.
           bindE (pureE (le_memo env memo)) (\<lambda>m.
             pureE (le_build env account (int_str (ts_defaultFee s)) [] (Some m) (ts_defaultTimeout s))))))"

record tx_validation =
  tv_valid :: bool
  tv_errors :: "string list"
  tv_warnings :: "string list"

text \<open>Of the transaction: its fee text, the number of its operations and \<open>timeBounds?.maxTime\<close>.\<close>

definition validateTransaction ::
    "thrown + sim_response \<Rightarrow> string \<Rightarrow> nat \<Rightarrow> jsv \<Rightarrow> tx_validation" where
  "validateTransaction answer fee opCount maxTime =
    (case answer of
       Inl e \<Rightarrow> \<lparr>tv_valid = False, tv_errors = [''Validation error: '' @ error_or_unknown e], tv_warnings = []\<rparr>
     | Inr sim \<Rightarrow>
        (let errors = (case sim of RespError e \<Rightarrow> [''Simulation failed: '' @ e] | RespSuccess _ _ \<Rightarrow> [])
                      @ (if opCount = 0 then [''Transaction has no operations''] else []);
             warnings = (if amt_less (js_parseInt fee) (Amt 100)
                         then [''Transaction fee is very low, may not be accepted''] else [])
                      @ (if maxTime = JNum 0 then [''Transaction has no timeout''] else [])
         in \<lparr>tv_valid = (errors = []), tv_errors = errors, tv_warnings = warnings\<rparr>))"

section \<open>The order of calls\<close>







section \<open>A concrete environment\<close>

text \<open>A transaction is its operations and memo; a memo text has at most 28 characters, as on the network.\<close>

definition demo_env :: "string \<Rightarrow> (string, string, string list \<times> string option) signing_env" where
  "demo_env wallet =
     \<lparr>le_call = (\<lambda>c m args. Inr m),
      le_memoText = (\<lambda>t. if 28 < length t then Inl (Raw (JErr ''Error'' ''Memo too long'' [])) else Inr t),
      le_memo = (\<lambda>m. Inr ''memo''),
      le_build = (\<lambda>acc fee ops m t. Inr (ops, m)),
      le_xdr = (\<lambda>tx. concat (fst tx)),
      le_clientNetwork = ''testnet'', le_passphrase = ''pass'',
      le_walletNetwork = (\<lambda>_. Inr wallet), le_walletKey = (\<lambda>_. Inr ''G''),
      le_account = (\<lambda>_. Inr \<lparr>ac_id = ''G'', ac_sequence = 1\<rparr>),
      le_simulate = (\<lambda>_. Inr (RespSuccess None None)),
      le_prepare = (\<lambda>cl. case last cl of Prepare tx \<Rightarrow> Inr tx | _ \<Rightarrow> Inr ([], None)),
      le_sign = (\<lambda>cl. case last cl of Sign x _ \<Rightarrow> Inr (''signed '' @ x) | _ \<Rightarrow> Inr []),
      le_send = (\<lambda>_. Inr ''hash''),
      le_poll = (\<lambda>_. Inr \<lparr>pa_status = ''SUCCESS'', pa_raw = JNull\<rparr>)\<rparr>"




section \<open>Batches\<close>

definition settled :: "thrown + TransactionResult \<Rightarrow> TransactionResult" where
  "settled x = (case x of Inr r \<Rightarrow> r | Inl e \<Rightarrow> failed_result (JStr (error_or_unknown e)))"

lemma ask_extends: "prefix cl (snd (ask f c cl))"
  by (simp add: ask_def)

lemma pureE_extends: "prefix cl (snd (pureE x cl))"
  by (simp add: pureE_def)

lemma bindE_extends:
  assumes "\<And>cl. prefix cl (snd (m cl))" and "\<And>v cl. prefix cl (snd (k v cl))"
  shows "prefix cl (snd (bindE m k cl))"
proof (cases "m cl")
  case (Pair r l)
  then have "prefix cl l" using assms(1)[of cl] by simp
  then show ?thesis using assms(2)[of l] Pair by (auto simp: bindE_def intro: prefix_order.trans split: sum.split)
qed

lemma run_extends: "prefix cl (snd (buildAndSignTransaction env s p cl))"
  unfolding buildAndSignTransaction_def validateNetworks_def buildTransaction_def prepare_simulated_def
    sign_and_submit_def
  by (intro bindE_extends) (auto intro!: bindE_extends ask_extends pureE_extends split: sim_response.split)

lemma batch_loop_runs:
  "batch_loop env s ps cl = (rs, l) \<Longrightarrow> prefix cl l \<and>
    (\<exists>starts. length starts = length ps \<and>
      rs = map2 (\<lambda>p st. settled (fst (buildAndSignTransaction env s p st))) ps starts)"
proof (induction ps arbitrary: cl rs)
  case (Cons p ps)
  obtain x l1 where x: "buildAndSignTransaction env s p cl = (x, l1)" by fastforce
  obtain rs' l' where b: "batch_loop env s ps l1 = (rs', l')" by fastforce
  have rs: "rs = settled x # rs'" "l = l'" using Cons.prems x b by (auto simp: settled_def split: sum.splits)
  from Cons.IH[OF b[folded rs(2)]] obtain starts where
    st: "prefix l1 l" "length starts = length ps"
      "rs' = map2 (\<lambda>p st. settled (fst (buildAndSignTransaction env s p st))) ps starts"
    by blast
  have "prefix cl l1" using run_extends[of cl env s p] x by simp
  then show ?case using st rs x
    by (auto intro!: exI[of _ "cl # starts"] intro: prefix_order.trans)
qed simp

text \<open>
  A sequential batch always returns, with one result per transaction in their order, each that of
  its own run or, when the run failed, the FAILED record with its message; the summary adds up.
\<close>

theorem batch_accounts_for_all:
  "\<exists>rs l starts. processBatchTransactions env s ps cl = (Inr (rs, batch_summarize rs), l) \<and> prefix cl l \<and>
     length starts = length ps \<and>
     rs = map2 (\<lambda>p st. settled (fst (buildAndSignTransaction env s p st))) ps starts \<and>
     bs_total (batch_summarize rs) = length ps \<and>
     bs_successful (batch_summarize rs) + bs_failed (batch_summarize rs) = length ps"
proof -
  obtain rs l where b: "batch_loop env s ps cl = (rs, l)" by fastforce
  from batch_loop_runs[OF b] obtain starts where st: "prefix cl l" "length starts = length ps"
    "rs = map2 (\<lambda>p st. settled (fst (buildAndSignTransaction env s p st))) ps starts" by blast
  then have "length rs = length ps" by simp
  then show ?thesis using b st(1,2) st(3)[symmetric]
    by (auto simp: processBatchTransactions_def batch_summarize_def sum_length_filter_compl
        intro!: exI[of _ rs] exI[of _ l] exI[of _ starts])
qed

text \<open>The two modes treat a thrown value that is no error differently: sequentially it is a failed
  result, in parallel a thrown \<open>null\<close> rejects the batch.\<close>

lemma thrown_null_rejects_parallel_batch:
  "processBatchParallel [Inr r, Inl (Raw JNull)] =
    Inl (type_error ''Cannot read properties of null (reading 'message')'')"
  by (simp add: processBatchParallel_def message_property_def)

section \<open>What is built\<close>

text \<open>The memo of a time-locked transaction is longer than a text memo may be.\<close>

lemma lock_memo_length: "28 < length (lock_memo k n)"
  using nat_str_nonempty[of k] nat_str_nonempty[of n] by (simp add: lock_memo_def)

text \<open>
  Where the SDK refuses memo texts of more than 28 bytes, as the network does, a time-locked
  transaction is never built: either every operation is locked or the memo is refused.
\<close>

theorem time_locked_never_built:
  assumes "\<And>t. 28 < length t \<Longrightarrow> \<exists>e. le_memoText env t = Inl e"
  shows "\<exists>e. fst (buildTimeLockedTransaction env s now source lops cl) = Inl e"
proof -
  have m: "\<exists>e. le_memoText env (lock_memo k n) = Inl e" for k n using assms[OF lock_memo_length] .
  have ne: "lock_memo k n \<noteq> []" for k n by (simp add: lock_memo_def)
  have "\<exists>e. assemble env s (plain_params source ops (Some (lock_memo k n))) account = Inl e" for ops k n account
    using m[of k n] ne[of k n] by (auto simp: assemble_def plain_params_def split: sum.split)
  then show ?thesis
    by (auto simp: buildTimeLockedTransaction_def buildTransaction_def act_defs Let_def split: sum.split)
qed

theorem time_locked_never_built_witness:
  "\<exists>e. fst (buildTimeLockedTransaction (demo_env ''testnet'') (newTransactionSigner None None None) 10 ''G''
     [(\<lparr>cp_contractId = ''C'', cp_method = ''deposit'', cp_args = []\<rparr>, 5)] []) = Inl e"
  by (rule time_locked_never_built) (simp add: demo_env_def)

text \<open>
  A transaction with an id, hash or return memo is built from the memo alone: whatever operations
  were asked for, it has none.
\<close>

theorem memo_transaction_is_empty:
  assumes "fst (buildTransactionWithMemo env s source ops memo cl) = Inr tx" and "\<And>t. memo \<noteq> MText t"
  shows "\<exists>account m. le_memo env memo = Inr m \<and>
    le_build env account (int_str (ts_defaultFee s)) [] (Some m) (ts_defaultTimeout s) = Inr tx"
  using assms
  by (cases memo) (auto simp: buildTransactionWithMemo_def act_defs Let_def split: sum.splits prod.splits)

theorem memo_transaction_is_empty_witness:
  "le_build (demo_env ''testnet'') \<lparr>ac_id = ''G'', ac_sequence = 1\<rparr> ''100000'' [] (Some ''memo'') 60 = Inr ([], Some ''memo'') \<and>
   (\<exists>m. le_memo (demo_env ''testnet'') (MId ''7'') = Inr m)"
proof -
  have "fst (buildTransactionWithMemo (demo_env ''testnet'') (newTransactionSigner None None None) ''G''
      [\<lparr>cp_contractId = ''C'', cp_method = ''deposit'', cp_args = []\<rparr>] (MId ''7'') []) = Inr ([], Some ''memo'')"
    by (simp add: buildTransactionWithMemo_def buildTransaction_def assemble_def act_defs demo_env_def
        plain_params_def Let_def)
  from memo_transaction_is_empty[OF this] show ?thesis by (auto simp: demo_env_def)
qed

text \<open>
  The Stellar SDK multiplies the fee it is given by the number of operations. The fee of a
  multi-step transaction is already multiplied, so it grows with the square of the steps.
\<close>

theorem multi_step_fee_squared:
  assumes "\<And>acc f ops m t tx. le_build env acc (int_str f) ops m t = Inr tx \<Longrightarrow> fee_of tx = f * int (length ops)"
    and "assemble env s (multi_step_params s source steps (Some fee) timeout memo) account = Inr tx"
  shows "fee_of tx = fee * int (length steps) * int (length steps)"
proof -
  have "build_operations env cs = Inr ops \<Longrightarrow> length ops = length cs" for cs ops
    by (induction cs arbitrary: ops) (auto split: sum.splits)
  then show ?thesis
    using assms(2) by (auto simp: assemble_def multi_step_params_def or_int_def dest!: assms(1) split: sum.splits)
qed

definition demo_fee_env :: "(string, string, int) signing_env" where
  "demo_fee_env =
     \<lparr>le_call = (\<lambda>c m args. Inr m), le_memoText = Inr, le_memo = (\<lambda>m. Inr ''memo''),
      le_build = (\<lambda>acc fee ops m t. case signed_digits fee of
         None \<Rightarrow> Inl (Raw JUndef) | Some f \<Rightarrow> Inr (f * int (length ops))),
      le_xdr = int_str, le_clientNetwork = ''testnet'', le_passphrase = ''pass'',
      le_walletNetwork = (\<lambda>_. Inr ''testnet''), le_walletKey = (\<lambda>_. Inr ''G''),
      le_account = (\<lambda>_. Inr \<lparr>ac_id = ''G'', ac_sequence = 1\<rparr>),
      le_simulate = (\<lambda>_. Inr (RespSuccess None None)), le_prepare = (\<lambda>_. Inr 0), le_sign = (\<lambda>_. Inr ''x''),
      le_send = (\<lambda>_. Inr ''hash''), le_poll = (\<lambda>_. Inr \<lparr>pa_status = ''SUCCESS'', pa_raw = JNull\<rparr>)\<rparr>"

lemma digit_no_sign: "is_digit c \<Longrightarrow> c \<noteq> CHR ''-'' \<and> c \<noteq> CHR ''+''"
  by (auto simp: is_digit_def Let_def)

lemma signed_digits_int_str: "signed_digits (int_str i) = Some i"
proof -
  have ne: "nat_str n \<noteq> []" for n using nat_str_nonempty[of n] by auto
  have hd: "\<exists>c r. nat_str n = c # r \<and> c \<noteq> CHR ''-'' \<and> c \<noteq> CHR ''+''" for n
    using nat_str_digits[of n] ne[of n] digit_no_sign by (cases "nat_str n") auto
  show ?thesis
  proof (cases "i < 0")
    case True
    then show ?thesis using nat_str_digits[of "nat (- i)"] ne
      by (simp add: int_str_def signed_digits_def Let_def)
  next
    case False
    obtain c r where cr: "nat_str (nat i) = c # r" "c \<noteq> CHR ''-''" "c \<noteq> CHR ''+''" using hd by blast
    have "str_nat (c # r) = nat i" using cr(1) by (metis str_nat_nat_str)
    then show ?thesis using False nat_str_digits[of "nat i"] cr
      by (simp add: int_str_def signed_digits_def Let_def)
  qed
qed

theorem multi_step_fee_squared_witness:
  "assemble demo_fee_env (newTransactionSigner None None None)
      (multi_step_params (newTransactionSigner None None None) ''G''
        [\<lparr>cp_contractId = ''C'', cp_method = ''a'', cp_args = []\<rparr>, \<lparr>cp_contractId = ''C'', cp_method = ''b'', cp_args = []\<rparr>]
        (Some 100) None None) \<lparr>ac_id = ''G'', ac_sequence = 1\<rparr> = Inr 400"
proof -
  let ?p = "multi_step_params (newTransactionSigner None None None) ''G''
        [\<lparr>cp_contractId = ''C'', cp_method = ''a'', cp_args = []\<rparr>, \<lparr>cp_contractId = ''C'', cp_method = ''b'', cp_args = []\<rparr>]
        (Some 100) None None"
  obtain tx where tx: "assemble demo_fee_env (newTransactionSigner None None None) ?p \<lparr>ac_id = ''G'', ac_sequence = 1\<rparr> = Inr tx"
    by (simp add: assemble_def multi_step_params_def demo_fee_env_def or_int_def signed_digits_int_str)
  have "(\<lambda>x. x) tx = 100 * int (length [\<lparr>cp_contractId = ''C'', cp_method = ''a'', cp_args = []\<rparr>, \<lparr>cp_contractId = ''C'', cp_method = ''b'', cp_args = []\<rparr>])
      * int (length [\<lparr>cp_contractId = ''C'', cp_method = ''a'', cp_args = []\<rparr>, \<lparr>cp_contractId = ''C'', cp_method = ''b'', cp_args = []\<rparr>])"
    by (rule multi_step_fee_squared[OF _ tx]) (auto simp: demo_fee_env_def signed_digits_int_str)
  then show ?thesis using tx by simp
qed

text \<open>The conditions keep a selection of the operations in their order, with all unconditional ones.\<close>

lemma filter_conditions_subseq:
  "filter_conditions sim i cops = Inr ops \<Longrightarrow> subseq ops (map fst cops)"
proof (induction cops arbitrary: i ops)
  case (Cons a cops)
  obtain c cond where a: "a = (c, cond)" by (cases a)
  then obtain rest keep where "filter_conditions sim (Suc i) cops = Inr rest" "ops = (if keep then c # rest else rest)"
    using Cons.prems by (auto split: sum.splits)
  then show ?case using Cons.IH[of "Suc i" rest] a by auto
qed simp

text \<open>
  The signer's fee bump never succeeds, whatever the inner transaction and the answers of the
  environment; \<open>bumpTransactionFee\<close> alone wraps exactly the signed inner transactions, for a
  positive fee and a named source.
\<close>

theorem fee_bump_outcome:
  "(\<exists>e. fst (createFeeBumpTransaction env parse wrap inner source fee cl) = Inl e) \<and>
   (\<forall>x. bumpTransactionFee parse wrap inner fee source = Inr x \<longleftrightarrow>
     inner \<noteq> [] \<and> source \<noteq> [] \<and> (\<exists>f sigs. fee = Some f \<and> 0 < f \<and> parse inner = Inr (InnerTransaction sigs) \<and>
       0 < sigs \<and> wrap source (int_str f) inner = Inr x))"
  by (auto simp: createFeeBumpTransaction_def bumpTransactionFee_def act_defs Let_def
      split: sum.split option.split inner_envelope.split)

text \<open>
  Validation always returns. A transaction is valid exactly if its simulation succeeded and it has
  an operation; with the SDK's time bounds, which are texts, a missing timeout is never reported.
\<close>

theorem validation_outcome:
  "(tv_valid (validateTransaction answer fee n maxTime) \<longleftrightarrow> (\<exists>rs f. answer = Inr (RespSuccess rs f)) \<and> n \<noteq> 0) \<and>
   ''Transaction has no timeout'' \<notin> set (tv_warnings (validateTransaction answer fee n (JStr t)))"
  by (auto simp: validateTransaction_def Let_def split: sum.split sim_response.split)

end
