(* ===== verification/VaultClients.thy ===== *)
theory VaultClients
  imports Signing
begin

text \<open>
  The contract clients. In \<open>packages/core\<close>: the base class (\<open>contracts/BaseContract.ts\<close>), which
  appends an operation to a given builder, or builds, authorizes, signs and submits it, and the
  vault contract over it with its slippage checks (\<open>contracts/VaultContract.ts\<close>), in the
  environment of the signer. Its decoders are modelled with the code generator. And the vault over
  ethers, of the root (\<open>contracts/vault.ts\<close>) and of \<open>packages/core\<close>, where a call to the contract
  is a function of the address, the provider or signer it runs on, the method and the arguments.

  The lemmas show that no signature is asked for after a failed slippage check, that the path with
  authorization entries skips the network check, how failures are classified, and that the ethers
  vault of \<open>packages/core\<close> ignores the signer it is given.
\<close>

section \<open>The base contract\<close>

record ('op, 'auth) InvokeMethodOptions =
  io_txBuilder :: "'op list option"
  io_authEntries :: "'auth list"
  io_sourceAccount :: "string option"

datatype 'op invoked = Composed "'op list" | Submitted TransactionResult

text \<open>\<open>inject\<close> adds an entry to an envelope and fails when the envelope does not parse.\<close>

definition addAuthEntry :: "(string \<Rightarrow> 'auth \<Rightarrow> thrown + string) \<Rightarrow> string \<Rightarrow> 'auth \<Rightarrow> string" where
  "addAuthEntry inject envelope entry = (case inject envelope entry of Inl _ \<Rightarrow> envelope | Inr x \<Rightarrow> x)"

definition source_of ::
    "('op, 'm, 'tx) signing_env \<Rightarrow> string option \<Rightarrow> ('tx, string) act" where
  "source_of env given = (case given of Some a \<Rightarrow> pureE (Inr a) | None \<Rightarrow> ask (le_walletKey env) AskKey)"

definition authorized_submit ::
    "('op, 'm, 'tx) signing_env \<Rightarrow> TransactionSigner \<Rightarrow> (string \<Rightarrow> 'auth \<Rightarrow> thrown + string) \<Rightarrow> string \<Rightarrow>
     ContractCallParams \<Rightarrow> 'auth list \<Rightarrow> ('tx, TransactionResult) act" where
  "authorized_submit env s inject source c entries =
     bindE (buildTransaction env s (plain_params source [c] None)) (\<lambda>tx.
     bindE (prepare_simulated env tx) (\<lambda>(ptx, sim).
       sign_and_submit env (foldl (addAuthEntry inject) (le_xdr env ptx) entries) (Some sim)))"

definition invokeMethod ::
    "('op, 'm, 'tx) signing_env \<Rightarrow> TransactionSigner \<Rightarrow> (string \<Rightarrow> 'auth \<Rightarrow> thrown + string) \<Rightarrow> string \<Rightarrow> string \<Rightarrow>
     (thrown + jsv list) \<Rightarrow> ('op, 'auth) InvokeMethodOptions \<Rightarrow> ('tx, 'op invoked) act" where
  "invokeMethod env s inject contractId meth scVals opts =
     bindE (pureE scVals) (\<lambda>args.
     bindE (source_of env (io_sourceAccount opts)) (\<lambda>source.
     bindE (pureE (le_call env contractId meth args)) (\<lambda>operation.
       let c = \<lparr>cp_contractId = contractId, cp_method = meth, cp_args = args\<rparr> in
       case io_txBuilder opts of
         Some ops \<Rightarrow> pureE (Inr (Composed (ops @ [operation])))
       | None \<Rightarrow>
           if io_authEntries opts \<noteq> []
           then bindE (authorized_submit env s inject source c (io_authEntries opts)) (\<lambda>r. pureE (Inr (Submitted r)))
           else bindE (buildAndSignTransaction env s (plain_params source [c] None)) (\<lambda>r. pureE (Inr (Submitted r))))))"

text \<open>\<open>query\<close>: \<open>decode\<close> reads the first result of the simulation, \<open>None\<close> when there is none.\<close>

definition base_query ::
    "('op, 'm, 'tx) signing_env \<Rightarrow> TransactionSigner \<Rightarrow> ('tx call list \<Rightarrow> (thrown + jsv) option) \<Rightarrow> string \<Rightarrow> string \<Rightarrow>
     jsv list \<Rightarrow> ('tx, jsv) act" where
  "base_query env s decode contractId meth args =
     bindE (ask (le_walletKey env) AskKey) (\<lambda>source.
     bindE (buildTransaction env s (plain_params source
         [\<lparr>cp_contractId = contractId, cp_method = meth, cp_args = args\<rparr>] None)) (\<lambda>tx.
     bindE (ask (\<lambda>cl. case le_simulate env cl of
           Inl e \<Rightarrow> Inl e
         | Inr (RespError e) \<Rightarrow> Inl (Raw (JErr ''Error'' (''Simulation failed for '' @ meth @ '': '' @ e) []))
         | Inr (RespSuccess _ _) \<Rightarrow> (case decode cl of
               None \<Rightarrow> Inl (Raw (JErr ''Error'' (''No simulation result for '' @ meth) []))
             | Some r \<Rightarrow> r)) (Simulate tx)) (\<lambda>v. pureE (Inr v))))"

section \<open>The vault contract\<close>

text \<open>What the simulation of a preview gives, and the encodings of its arguments.\<close>

datatype preview_answer = PvFailed string | PvNone | PvBigint int | PvOther string

record ('tx, 'auth) vault_env =
  ve_preview :: "'tx call list \<Rightarrow> thrown + preview_answer"
  ve_i128 :: "int \<Rightarrow> thrown + jsv"
  ve_address :: "string \<Rightarrow> thrown + jsv"
  ve_inject :: "string \<Rightarrow> 'auth \<Rightarrow> thrown + string"
  ve_contractId :: string

definition preview_result :: "string \<Rightarrow> preview_answer \<Rightarrow> thrown + int" where
  "preview_result meth answer =
    (let err = (\<lambda>m. Inl (Raw (JErr ''Error'' m []))) in
     case answer of
       PvFailed e \<Rightarrow> err (''Vault preview simulation failed for '' @ meth @ '': '' @ e)
     | PvNone \<Rightarrow> err (''Vault preview simulation for '' @ meth @ '' returned no value'')
     | PvOther ty \<Rightarrow> err (''Vault preview for '' @ meth @ '' returned unexpected type '' @ ty)
     | PvBigint i \<Rightarrow> Inr i)"

definition simulateReadOnly :: "('tx, 'auth) vault_env \<Rightarrow> string \<Rightarrow> int \<Rightarrow> ('tx, int) act" where
  "simulateReadOnly ve meth arg =
     bindE (pureE (ve_i128 ve arg)) (\<lambda>_.
     bindE (ask (ve_preview ve) (Preview meth arg)) (\<lambda>answer. pureE (preview_result meth answer)))"

definition amount_and_address :: "('tx, 'auth) vault_env \<Rightarrow> int \<Rightarrow> string \<Rightarrow> thrown + jsv list" where
  "amount_and_address ve amount addr =
    (case ve_i128 ve amount of
       Inl e \<Rightarrow> Inl e
     | Inr a \<Rightarrow> (case ve_address ve addr of Inl e \<Rightarrow> Inl e | Inr b \<Rightarrow> Inr [a, b]))"

record ('op, 'auth) vault_params =
  vp_amount :: int
  vp_account :: "string option"
  vp_limit :: "int option"
  vp_txBuilder :: "'op list option"
  vp_authEntries :: "'auth list"

text \<open>The check made when a limit is given and no builder; \<open>bad\<close> compares the preview with the limit.\<close>

definition slippage_check ::
    "('tx, 'auth) vault_env \<Rightarrow> string \<Rightarrow> (int \<Rightarrow> int \<Rightarrow> bool) \<Rightarrow> ('op, 'auth) vault_params \<Rightarrow> ('tx, unit) act" where
  "slippage_check ve meth bad p =
    (case (vp_limit p, vp_txBuilder p) of
       (Some limit, None) \<Rightarrow>
         bindE (simulateReadOnly ve meth (vp_amount p)) (\<lambda>x.
           pureE (if bad x limit then Inl (newSlippageToleranceExceededError limit x limit) else Inr ()))
     | _ \<Rightarrow> pureE (Inr ()))"

definition vault_deposit ::
    "('op, 'm, 'tx) signing_env \<Rightarrow> TransactionSigner \<Rightarrow> ('tx, 'auth) vault_env \<Rightarrow> ('op, 'auth) vault_params \<Rightarrow> ('tx, 'op invoked) act" where
  "vault_deposit env s ve p =
     bindE (source_of env (vp_account p)) (\<lambda>from_account.
     bindE (slippage_check ve ''preview_deposit'' (\<lambda>shares minimum. shares < minimum) p) (\<lambda>_.
       invokeMethod env s (ve_inject ve) (ve_contractId ve) ''deposit''
         (amount_and_address ve (vp_amount p) from_account)
         \<lparr>io_txBuilder = vp_txBuilder p, io_authEntries = vp_authEntries p, io_sourceAccount = Some from_account\<rparr>))"

definition vault_withdraw ::
    "('op, 'm, 'tx) signing_env \<Rightarrow> TransactionSigner \<Rightarrow> ('tx, 'auth) vault_env \<Rightarrow> ('op, 'auth) vault_params \<Rightarrow> ('tx, 'op invoked) act" where
  "vault_withdraw env s ve p =
     bindE (source_of env (vp_account p)) (\<lambda>to_account.
     bindE (ask (le_walletKey env) AskKey) (\<lambda>source.
     bindE (slippage_check ve ''preview_withdraw'' (\<lambda>assets maximum. assets > maximum) p) (\<lambda>_.
       invokeMethod env s (ve_inject ve) (ve_contractId ve) ''withdraw''
         (amount_and_address ve (vp_amount p) to_account)
         \<lparr>io_txBuilder = vp_txBuilder p, io_authEntries = vp_authEntries p, io_sourceAccount = Some source\<rparr>)))"

definition vault_claimRewards ::
    "('op, 'm, 'tx) signing_env \<Rightarrow> TransactionSigner \<Rightarrow> ('tx, 'auth) vault_env \<Rightarrow> 'op list option \<Rightarrow> 'auth list \<Rightarrow> ('tx, 'op invoked) act" where
  "vault_claimRewards env s ve builder entries =
     bindE (ask (le_walletKey env) AskKey) (\<lambda>source.
       invokeMethod env s (ve_inject ve) (ve_contractId ve) ''claim_rewards'' (Inr [])
         \<lparr>io_txBuilder = builder, io_authEntries = entries, io_sourceAccount = Some source\<rparr>)"

definition vault_read_account ::
    "('op, 'm, 'tx) signing_env \<Rightarrow> TransactionSigner \<Rightarrow> ('tx, 'auth) vault_env \<Rightarrow> ('tx call list \<Rightarrow> (thrown + jsv) option) \<Rightarrow>
     (jsv \<Rightarrow> thrown + int) \<Rightarrow> string \<Rightarrow> string option \<Rightarrow> ('tx, int) act" where
  "vault_read_account env s ve decode decodeI128 meth account =
     bindE (source_of env account) (\<lambda>target.
     bindE (pureE (ve_address ve target)) (\<lambda>addr.
     bindE (base_query env s decode (ve_contractId ve) meth [addr]) (\<lambda>v. pureE (decodeI128 v))))"

definition vault_getBalance where
  "vault_getBalance env s ve decode decodeI128 account = vault_read_account env s ve decode decodeI128 ''balance'' account"

definition vault_getVaultShares where
  "vault_getVaultShares env s ve decode decodeI128 account = vault_read_account env s ve decode decodeI128 ''shares_of'' account"

definition vault_getExchangeRate ::
    "('op, 'm, 'tx) signing_env \<Rightarrow> TransactionSigner \<Rightarrow> ('tx, 'auth) vault_env \<Rightarrow> ('tx call list \<Rightarrow> (thrown + jsv) option) \<Rightarrow>
     (jsv \<Rightarrow> thrown + int) \<Rightarrow> ('tx, int) act" where
  "vault_getExchangeRate env s ve decode decodeI128 =
     bindE (base_query env s decode (ve_contractId ve) ''exchange_rate'' []) (\<lambda>v. pureE (decodeI128 v))"

section \<open>Which calls an operation makes\<close>

definition only_calls :: "('tx call \<Rightarrow> bool) \<Rightarrow> ('tx, 'a) act \<Rightarrow> bool" where
  "only_calls P m \<longleftrightarrow> (\<forall>cl. \<exists>new. snd (m cl) = cl @ new \<and> list_all P new)"

named_theorems calls

lemma only_calls_ask [calls]: "P c \<Longrightarrow> only_calls P (ask f c)"
  by (simp add: only_calls_def ask_def)

lemma only_calls_pure [calls]: "only_calls P (pureE r)"
  by (simp add: only_calls_def pureE_def)

lemma only_calls_bind [calls]:
  assumes "only_calls P m" "\<And>v. only_calls P (k v)"
  shows "only_calls P (bindE m k)"
  unfolding only_calls_def
proof
  fix cl
  obtain new where n: "snd (m cl) = cl @ new" "list_all P new" using assms(1) by (auto simp: only_calls_def)
  show "\<exists>new. snd (bindE m k cl) = cl @ new \<and> list_all P new"
  proof (cases "fst (m cl)")
    case (Inl e)
    then show ?thesis using n by (cases "m cl") (auto simp: bindE_def)
  next
    case (Inr v)
    obtain new2 where "snd (k v (cl @ new)) = (cl @ new) @ new2" "list_all P new2"
      using assms(2) by (meson only_calls_def)
    then have "snd (bindE m k cl) = cl @ new @ new2 \<and> list_all P (new @ new2)"
      using Inr n by (cases "m cl") (auto simp: bindE_def)
    then show ?thesis by blast
  qed
qed

lemma only_calls_if [calls]: "(b \<Longrightarrow> only_calls P m) \<Longrightarrow> (\<not> b \<Longrightarrow> only_calls P n) \<Longrightarrow> only_calls P (if b then m else n)"
  by simp

lemma only_calls_pair [calls]: "(\<And>x y. only_calls P (f x y)) \<Longrightarrow> only_calls P (case z of (x, y) \<Rightarrow> f x y)"
  by (cases z) simp

lemma only_calls_sim [calls]:
  "(\<And>e. only_calls P (f e)) \<Longrightarrow> (\<And>rs x. only_calls P (g rs x)) \<Longrightarrow>
    only_calls P (case sim of RespError e \<Rightarrow> f e | RespSuccess rs x \<Rightarrow> g rs x)"
  by (cases sim) simp_all

lemma only_calls_source [calls]: "P AskKey \<Longrightarrow> only_calls P (source_of env given)"
  by (cases given) (simp_all add: source_of_def calls)

lemma only_calls_authorized:
  "only_calls (\<lambda>c. c \<noteq> AskNetwork) (authorized_submit env s inject source c entries)"
  unfolding authorized_submit_def buildTransaction_def prepare_simulated_def sign_and_submit_def
  by (intro calls) simp_all

text \<open>
  A call with authorization entries never asks the wallet for its network: unlike the standard
  path, it signs and submits whatever network the wallet is on.
\<close>

theorem authorized_call_skips_network_check:
  assumes "io_authEntries opts \<noteq> []" and "io_txBuilder opts = None"
  shows "AskNetwork \<notin> set (snd (invokeMethod env s inject contractId meth scVals opts []))"
proof -
  have "only_calls (\<lambda>c. c \<noteq> AskNetwork) (invokeMethod env s inject contractId meth scVals opts)"
    using assms unfolding invokeMethod_def Let_def
    by (auto intro!: calls only_calls_authorized)
  then obtain new where "snd (invokeMethod env s inject contractId meth scVals opts []) = [] @ new"
    "list_all (\<lambda>c. c \<noteq> AskNetwork) new" by (meson only_calls_def)
  then show ?thesis by (auto simp: list_all_iff)
qed

theorem authorized_call_skips_network_check_witness:
  "AskNetwork \<notin> set (snd (invokeMethod (demo_env ''mainnet'') (newTransactionSigner None None None) (\<lambda>x a. Inr (x @ a))
     ''C'' ''deposit'' (Inr []) \<lparr>io_txBuilder = None, io_authEntries = [''auth''], io_sourceAccount = Some ''G''\<rparr> []))"
  by (rule authorized_call_skips_network_check) simp_all

lemma authorized_call_signs_on_other_network:
  "fst (invokeMethod (demo_env ''mainnet'') (newTransactionSigner None None None) (\<lambda>x a. Inr (x @ a))
     ''C'' ''deposit'' (Inr []) \<lparr>io_txBuilder = None, io_authEntries = [''auth''], io_sourceAccount = Some ''G''\<rparr> []) =
   Inr (Submitted \<lparr>tr_hash = ''hash'', tr_status = ''SUCCESS'', tr_successful = True, tr_raw = JNull,
          tr_signedXdr = ''signed depositauth'', tr_simulation = Some (RespSuccess None None)\<rparr>)"
  by (simp add: invokeMethod_def authorized_submit_def source_of_def buildTransaction_def assemble_def
      prepare_simulated_def sign_and_submit_def act_defs demo_env_def plain_params_def newTransactionSigner_def
      or_int_def addAuthEntry_def)

text \<open>
  With a builder nothing is simulated, signed or sent: only the wallet's key may be asked for, and
  the result is the builder with one more operation.
\<close>

theorem composed_call_is_local:
  assumes "io_txBuilder opts = Some ops"
  shows "set (snd (invokeMethod env s inject contractId meth scVals opts [])) \<subseteq> {AskKey} \<and>
    (case fst (invokeMethod env s inject contractId meth scVals opts []) of
       Inl _ \<Rightarrow> True
     | Inr r \<Rightarrow> \<exists>args x. scVals = Inr args \<and> le_call env contractId meth args = Inr x \<and> r = Composed (ops @ [x]))"
  using assms
  by (auto simp: invokeMethod_def source_of_def act_defs Let_def split: sum.splits option.splits)

theorem composed_call_is_local_witness:
  "fst (invokeMethod (demo_env ''testnet'') (newTransactionSigner None None None) (\<lambda>x a. Inr x)
     ''C'' ''deposit'' (Inr []) \<lparr>io_txBuilder = Some [''first''], io_authEntries = [] :: string list, io_sourceAccount = None\<rparr> []) =
   Inr (Composed [''first'', ''deposit''])"
proof -
  let ?o = "\<lparr>io_txBuilder = Some [''first''], io_authEntries = [] :: string list, io_sourceAccount = None\<rparr>"
  have "\<exists>r. fst (invokeMethod (demo_env ''testnet'') (newTransactionSigner None None None) (\<lambda>x a. Inr x)
      ''C'' ''deposit'' (Inr []) ?o []) = Inr r"
    by (simp add: invokeMethod_def source_of_def act_defs demo_env_def Let_def)
  then obtain r where r: "fst (invokeMethod (demo_env ''testnet'') (newTransactionSigner None None None) (\<lambda>x a. Inr x)
      ''C'' ''deposit'' (Inr []) ?o []) = Inr r" by blast
  have c: "le_call (demo_env n) con meth args = Inr meth" for n con meth args by (simp add: demo_env_def)
  show ?thesis
    using composed_call_is_local[of ?o "[''first'']" "demo_env ''testnet''" "newTransactionSigner None None None"
        "\<lambda>x a. Inr x" "''C''" "''deposit''" "Inr []"] unfolding r
    by (auto simp: c)
qed

section \<open>Slippage\<close>

text \<open>A preview that was asked for and passed.\<close>

definition preview_passed ::
    "('tx, 'auth) vault_env \<Rightarrow> string \<Rightarrow> int \<Rightarrow> (int \<Rightarrow> bool) \<Rightarrow> 'tx call list \<Rightarrow> bool" where
  "preview_passed ve meth amount good cl \<longleftrightarrow>
     (\<exists>before rest x. cl = before @ Preview meth amount # rest \<and>
        ve_preview ve (before @ [Preview meth amount]) = Inr (PvBigint x) \<and> good x)"

lemma slippage_check_cases:
  assumes "vp_limit p = Some limit" "vp_txBuilder p = None" "slippage_check ve meth bad p cl = (r, cl')"
  shows "set cl' \<subseteq> set cl \<union> {Preview meth (vp_amount p)} \<and>
    (r = Inr () \<longrightarrow> (\<exists>x. cl' = cl @ [Preview meth (vp_amount p)] \<and> ve_preview ve cl' = Inr (PvBigint x) \<and> \<not> bad x limit))"
  using assms
  by (auto simp: slippage_check_def simulateReadOnly_def preview_result_def act_defs Let_def
      split: sum.splits preview_answer.splits if_splits)

lemma signed_after_check:
  assumes "vp_limit p = Some limit" "vp_txBuilder p = None" "\<forall>x pp. Sign x pp \<notin> set cl"
    and "\<And>cl. \<exists>new. snd (k cl) = cl @ new"
    and "Sign x pp \<in> set (snd (bindE (slippage_check ve meth bad p) (\<lambda>_. k) cl))"
  shows "preview_passed ve meth (vp_amount p) (\<lambda>x. \<not> bad x limit) (snd (bindE (slippage_check ve meth bad p) (\<lambda>_. k) cl))"
proof (cases "slippage_check ve meth bad p cl")
  case (Pair r cl')
  note c = slippage_check_cases[OF assms(1,2) Pair]
  show ?thesis
  proof (cases r)
    case (Inl e)
    then show ?thesis using assms(3,5) Pair c by (auto simp: bindE_def)
  next
    case (Inr u)
    then obtain v where v: "cl' = cl @ [Preview meth (vp_amount p)]" "ve_preview ve cl' = Inr (PvBigint v)" "\<not> bad v limit"
      using c by auto
    obtain new where "snd (k cl') = cl' @ new" using assms(4) by blast
    then have "snd (bindE (slippage_check ve meth bad p) (\<lambda>_. k) cl) = cl @ Preview meth (vp_amount p) # new"
      using Pair Inr v by (simp add: bindE_def)
    then show ?thesis using v unfolding preview_passed_def by blast
  qed
qed

lemma only_calls_run: "only_calls (\<lambda>_. True) (buildAndSignTransaction env s p)"
  unfolding buildAndSignTransaction_def validateNetworks_def buildTransaction_def prepare_simulated_def
    sign_and_submit_def
  by (intro calls) simp_all

lemma invoke_extends: "\<exists>new. snd (invokeMethod env s inject contractId meth scVals opts cl) = cl @ new"
proof -
  have a: "only_calls (\<lambda>_. True) (authorized_submit env s inject source c entries)" for source c entries
    unfolding authorized_submit_def buildTransaction_def prepare_simulated_def sign_and_submit_def
    by (intro calls) simp_all
  have "only_calls (\<lambda>_. True) (invokeMethod env s inject contractId meth scVals opts)"
    unfolding invokeMethod_def Let_def
    by (auto intro!: calls a only_calls_run split: option.split)
  then show ?thesis unfolding only_calls_def by blast
qed

text \<open>C15. 
  When a limit is given and no builder, a signature for a deposit is asked for only after a preview
  of the deposited amount gave at least the limit, and one for a withdrawal only after a preview
  gave at most the limit.
\<close>

theorem slippage_guards_signature:
  assumes "vp_limit p = Some limit" and "vp_txBuilder p = None"
  shows "(Sign x pp \<in> set (snd (vault_deposit env s ve p [])) \<longrightarrow>
      preview_passed ve ''preview_deposit'' (vp_amount p) (\<lambda>shares. limit \<le> shares) (snd (vault_deposit env s ve p []))) \<and>
    (Sign x pp \<in> set (snd (vault_withdraw env s ve p [])) \<longrightarrow>
      preview_passed ve ''preview_withdraw'' (vp_amount p) (\<lambda>assets. assets \<le> limit) (snd (vault_withdraw env s ve p [])))"
proof (intro conjI impI)
  assume d: "Sign x pp \<in> set (snd (vault_deposit env s ve p []))"
  obtain r cl where src: "source_of env (vp_account p) [] = (r, cl)" by fastforce
  then have ns: "\<forall>x pp. Sign x pp \<notin> set cl"
    by (auto simp: source_of_def act_defs split: option.splits)
  show "preview_passed ve ''preview_deposit'' (vp_amount p) (\<lambda>shares. limit \<le> shares) (snd (vault_deposit env s ve p []))"
  proof (cases r)
    case (Inl e)
    then show ?thesis using d ns src by (simp add: vault_deposit_def bindE_def)
  next
    case (Inr a)
    let ?k = "invokeMethod env s (ve_inject ve) (ve_contractId ve) ''deposit'' (amount_and_address ve (vp_amount p) a)
         \<lparr>io_txBuilder = vp_txBuilder p, io_authEntries = vp_authEntries p, io_sourceAccount = Some a\<rparr>"
    have e: "vault_deposit env s ve p [] =
        bindE (slippage_check ve ''preview_deposit'' (\<lambda>shares minimum. shares < minimum) p) (\<lambda>_. ?k) cl"
      unfolding vault_deposit_def bindE_def[of "source_of env (vp_account p)"] src Inr by simp
    show ?thesis using signed_after_check[OF assms ns invoke_extends d[unfolded e]] unfolding e by (simp add: not_less)
  qed
next
  assume w: "Sign x pp \<in> set (snd (vault_withdraw env s ve p []))"
  obtain r cl where src: "source_of env (vp_account p) [] = (r, cl)" by fastforce
  then have ns: "\<forall>x pp. Sign x pp \<notin> set cl"
    by (auto simp: source_of_def act_defs split: option.splits)
  then have ns': "\<forall>x pp. Sign x pp \<notin> set (cl @ [AskKey])" by simp
  show "preview_passed ve ''preview_withdraw'' (vp_amount p) (\<lambda>assets. assets \<le> limit) (snd (vault_withdraw env s ve p []))"
  proof (cases r)
    case (Inl e)
    then show ?thesis using w ns src by (simp add: vault_withdraw_def bindE_def)
  next
    case (Inr a)
    note run = vault_withdraw_def bindE_def[of "source_of env (vp_account p)"] src Inr
      bindE_def[of "ask (le_walletKey env) AskKey"] ask_def
    show ?thesis
    proof (cases "le_walletKey env (cl @ [AskKey])")
      case (Inl e)
      then show ?thesis using w ns' unfolding run by simp
    next
      case key: (Inr g)
      let ?k = "invokeMethod env s (ve_inject ve) (ve_contractId ve) ''withdraw'' (amount_and_address ve (vp_amount p) a)
         \<lparr>io_txBuilder = vp_txBuilder p, io_authEntries = vp_authEntries p, io_sourceAccount = Some g\<rparr>"
      have e: "vault_withdraw env s ve p [] =
          bindE (slippage_check ve ''preview_withdraw'' (\<lambda>assets maximum. assets > maximum) p) (\<lambda>_. ?k) (cl @ [AskKey])"
        unfolding run by (simp add: key)
      show ?thesis using signed_after_check[OF assms ns' invoke_extends w[unfolded e]] unfolding e by (simp add: not_less)
    qed
  qed
qed

definition demo_vault_env :: "int \<Rightarrow> (string list \<times> string option, string) vault_env" where
  "demo_vault_env shares =
     \<lparr>ve_preview = (\<lambda>_. Inr (PvBigint shares)), ve_i128 = (\<lambda>i. Inr (JBig i)), ve_address = (\<lambda>a. Inr (JStr a)),
      ve_inject = (\<lambda>x a. Inr (x @ a)), ve_contractId = ''C''\<rparr>"

definition demo_deposit :: "(string, string) vault_params" where
  "demo_deposit = \<lparr>vp_amount = 100, vp_account = Some ''G'', vp_limit = Some 95, vp_txBuilder = None, vp_authEntries = []\<rparr>"

theorem slippage_guards_signature_witness:
  "preview_passed (demo_vault_env 97) ''preview_deposit'' 100 (\<lambda>shares. 95 \<le> shares)
     (snd (vault_deposit (demo_env ''testnet'') (newTransactionSigner None None None) (demo_vault_env 97) demo_deposit []))"
proof -
  have "Sign ''deposit'' ''pass'' \<in>
      set (snd (vault_deposit (demo_env ''testnet'') (newTransactionSigner None None None) (demo_vault_env 97) demo_deposit []))"
    by (simp add: vault_deposit_def source_of_def slippage_check_def simulateReadOnly_def preview_result_def
        amount_and_address_def invokeMethod_def buildAndSignTransaction_def validateNetworks_def buildTransaction_def
        assemble_def prepare_simulated_def sign_and_submit_def act_defs demo_env_def demo_vault_env_def
        demo_deposit_def plain_params_def newTransactionSigner_def or_int_def Let_def)
  moreover have p: "vp_limit demo_deposit = Some 95" "vp_txBuilder demo_deposit = None" "vp_amount demo_deposit = 100"
    by (simp_all add: demo_deposit_def)
  ultimately show ?thesis
    using slippage_guards_signature[OF p(1,2), unfolded p(3)] by blast
qed

text \<open>The message of a withdrawal that costs too much names the limit as a minimum of shares.\<close>

lemma withdrawal_message:
  "ax_message (newSlippageToleranceExceededError 5 7 5) =
    ''Slippage tolerance exceeded: expected at least 5 shares, but simulation returned 7. Tolerance was 5.''"
  unfolding newSlippageToleranceExceededError_def by code_simp

section \<open>The vault over ethers\<close>

text \<open>A provider or signer: its name, whether it has \<open>sendTransaction\<close>, and what \<open>getAddress\<close> gives.\<close>

record runner =
  rn_id :: string
  rn_canSend :: bool
  rn_address :: "thrown + string"

record EthVault =
  vl_address :: string
  vl_provider :: "runner option"

type_synonym ethers_call = "string \<Rightarrow> runner option \<Rightarrow> string \<Rightarrow> jsv list \<Rightarrow> thrown + jsv"

definition eth_connect :: "runner \<Rightarrow> EthVault \<Rightarrow> EthVault" where
  "eth_connect signer v = \<lparr>vl_address = vl_address v, vl_provider = Some signer\<rparr>"

definition on_provider :: "ethers_call \<Rightarrow> EthVault \<Rightarrow> string \<Rightarrow> jsv list \<Rightarrow> thrown + jsv" where
  "on_provider call v meth args = call (vl_address v) (vl_provider v) meth args"

text \<open>\<open>BigInt(x.toString())\<close> on decimal texts, and \<open>Number(x)\<close> of what the contract returns.\<close>

definition big_of :: "jsv \<Rightarrow> thrown + int" where
  "big_of v =
    (case v of
       JUndef \<Rightarrow> Inl (type_error ''Cannot read properties of undefined (reading 'toString')'')
     | JNull \<Rightarrow> Inl (type_error ''Cannot read properties of null (reading 'toString')'')
     | _ \<Rightarrow> (let t = js_trim (js_String v) in
         if t = [] then Inr 0
         else case signed_digits t of
             None \<Rightarrow> Inl (Raw (JErr ''SyntaxError'' (''Cannot convert '' @ js_String v @ '' to a BigInt'') []))
           | Some i \<Rightarrow> Inr i))"

fun js_Number :: "jsv \<Rightarrow> jsnum" where
  "js_Number JNull = Fin 0"
| "js_Number (JBool b) = Fin (if b then 1 else 0)"
| "js_Number (JNum i) = Fin (of_int i)"
| "js_Number (JBig i) = Fin (to_double (of_int i))"
| "js_Number (JStr s) = text_num s"
| "js_Number _ = NaN"

definition read_big :: "ethers_call \<Rightarrow> EthVault \<Rightarrow> string \<Rightarrow> jsv list \<Rightarrow> thrown + int" where
  "read_big call v meth args = (case on_provider call v meth args of Inl e \<Rightarrow> Inl e | Inr x \<Rightarrow> big_of x)"

definition eth_getBalance where "eth_getBalance call v user = read_big call v ''balanceOf'' [JStr user]"
definition eth_convertToAssets where "eth_convertToAssets call v shares = read_big call v ''convertToAssets'' [JBig shares]"
definition eth_convertToShares where "eth_convertToShares call v assets = read_big call v ''convertToShares'' [JBig assets]"
definition eth_getPendingRewards where "eth_getPendingRewards call v user = read_big call v ''pendingRewards'' [JStr user]"

definition eth_getAssetsBalance :: "ethers_call \<Rightarrow> EthVault \<Rightarrow> string \<Rightarrow> thrown + int" where
  "eth_getAssetsBalance call v user =
     (case eth_getBalance call v user of Inl e \<Rightarrow> Inl e | Inr shares \<Rightarrow> eth_convertToAssets call v shares)"

record EthVaultInfo =
  vi_totalAssets :: int
  vi_totalSupply :: int
  vi_apy :: jsnum
  vi_lockPeriod :: jsnum

text \<open>The four reads run together; \<open>first_rejection\<close> picks the one that rejects first.\<close>

definition eth_getVaultInfo :: "(thrown list \<Rightarrow> thrown) \<Rightarrow> ethers_call \<Rightarrow> EthVault \<Rightarrow> thrown + EthVaultInfo" where
  "eth_getVaultInfo first_rejection call v =
    (let rs = map (\<lambda>m. on_provider call v m []) [''totalAssets'', ''totalSupply'', ''apy'', ''lockPeriod''];
         errs = concat (map (\<lambda>r. case r of Inl e \<Rightarrow> [e] | Inr _ \<Rightarrow> []) rs);
         vals = concat (map (\<lambda>r. case r of Inl _ \<Rightarrow> [] | Inr x \<Rightarrow> [x]) rs)
     in if errs \<noteq> [] then Inl (first_rejection errs)
        else (case big_of (vals ! 0) of
            Inl e \<Rightarrow> Inl e
          | Inr assets \<Rightarrow> (case big_of (vals ! 1) of
              Inl e \<Rightarrow> Inl e
            | Inr supply \<Rightarrow> Inr \<lparr>vi_totalAssets = assets, vi_totalSupply = supply,
                vi_apy = n_div (js_Number (vals ! 2)) (Fin 10000), vi_lockPeriod = js_Number (vals ! 3)\<rparr>)))"

definition signer_to_use :: "runner option \<Rightarrow> EthVault \<Rightarrow> runner option" where
  "signer_to_use signer v = (case signer of Some x \<Rightarrow> Some x | None \<Rightarrow> vl_provider v)"

definition able_signer :: "runner option \<Rightarrow> EthVault \<Rightarrow> runner option" where
  "able_signer signer v =
     (case signer_to_use signer v of None \<Rightarrow> None | Some x \<Rightarrow> if rn_canSend x then Some x else None)"

definition says_insufficient :: "thrown \<Rightarrow> bool" where
  "says_insufficient e =
    (case e of
       AxErr c m st rid orig \<Rightarrow> str_includes (js_lower m) ''insufficient funds''
     | Raw (JErr n m ps) \<Rightarrow> str_includes (js_lower m) ''insufficient funds''
     | _ \<Rightarrow> False)"

definition write_failure :: "string option \<Rightarrow> string \<Rightarrow> thrown \<Rightarrow> thrown" where
  "write_failure insufficient label e =
    (case insufficient of
       Some m \<Rightarrow> if says_insufficient e then AxErr CInsufficientFundsError m None None (Some e)
                 else AxErr CContractError (label @ error_or_unknown e) None None (Some e)
     | None \<Rightarrow> AxErr CContractError (label @ error_or_unknown e) None None (Some e))"

definition vault_write ::
    "ethers_call \<Rightarrow> EthVault \<Rightarrow> runner option \<Rightarrow> string \<Rightarrow> jsv list \<Rightarrow> string \<Rightarrow> string option \<Rightarrow> string \<Rightarrow> thrown + jsv" where
  "vault_write call v signer meth args required insufficient label =
    (case able_signer signer v of
       None \<Rightarrow> Inl (AxErr CValidationError required None None None)
     | Some x \<Rightarrow> (case call (vl_address v) (Some x) meth args of
           Inr tx \<Rightarrow> Inr tx
         | Inl e \<Rightarrow> Inl (write_failure insufficient label e)))"

definition eth_deposit :: "ethers_call \<Rightarrow> EthVault \<Rightarrow> int \<Rightarrow> runner option \<Rightarrow> thrown + jsv" where
  "eth_deposit call v amount signer =
     vault_write call v signer ''deposit'' [JBig amount, JObj [(''value'', JBig amount)]]
       ''Signer required for deposit operation'' (Some ''Insufficient funds for deposit'') ''Deposit failed: ''"

definition eth_withdraw :: "ethers_call \<Rightarrow> EthVault \<Rightarrow> int \<Rightarrow> runner option \<Rightarrow> thrown + jsv" where
  "eth_withdraw call v amount signer =
     vault_write call v signer ''withdraw'' [JBig amount]
       ''Signer required for withdraw operation'' (Some ''Insufficient funds for withdrawal'') ''Withdrawal failed: ''"

definition eth_claimRewards :: "ethers_call \<Rightarrow> EthVault \<Rightarrow> runner option \<Rightarrow> thrown + jsv" where
  "eth_claimRewards call v signer =
     vault_write call v signer ''claimRewards'' []
       ''Signer required for claim rewards operation'' None ''Claim rewards failed: ''"

text \<open>Gas estimates: \<open>estimate\<close> is ethers' estimator of a method.\<close>

definition eth_estimateGas :: "(string \<Rightarrow> jsv list \<Rightarrow> thrown + jsv) \<Rightarrow> string \<Rightarrow> int \<Rightarrow> thrown + int" where
  "eth_estimateGas estimate meth amount = (case estimate meth [JBig amount] of Inl e \<Rightarrow> Inl e | Inr x \<Rightarrow> big_of x)"

text \<open>The vault of \<open>packages/core\<close>: the connected contract is made and not used.\<close>

definition core_signer_error :: "string \<Rightarrow> thrown" where
  "core_signer_error what = Raw (JErr ''Error'' (''Signer required for '' @ what @ '' operation'') [])"

definition core_eth_deposit :: "ethers_call \<Rightarrow> EthVault \<Rightarrow> int \<Rightarrow> runner option \<Rightarrow> thrown + jsv" where
  "core_eth_deposit call v amount signer =
    (case able_signer signer v of
       None \<Rightarrow> Inl (core_signer_error ''deposit'')
     | Some x \<Rightarrow> on_provider call v ''deposit'' [JBig amount, JObj [(''value'', JBig amount)]])"

definition core_eth_withdraw :: "ethers_call \<Rightarrow> EthVault \<Rightarrow> int \<Rightarrow> runner option \<Rightarrow> thrown + jsv" where
  "core_eth_withdraw call v amount signer =
    (case able_signer signer v of
       None \<Rightarrow> Inl (core_signer_error ''withdraw'')
     | Some x \<Rightarrow> (case rn_address x of
           Inl e \<Rightarrow> Inl e
         | Inr a \<Rightarrow> on_provider call v ''withdraw'' [JBig amount, JStr a, JStr a]))"

definition core_eth_claimRewards :: "ethers_call \<Rightarrow> EthVault \<Rightarrow> runner option \<Rightarrow> thrown + jsv" where
  "core_eth_claimRewards call v signer =
    (case able_signer signer v of
       None \<Rightarrow> Inl (core_signer_error ''claim rewards'')
     | Some x \<Rightarrow> on_provider call v ''claimRewards'' [])"

text \<open>
  A write of the root vault reaches the contract exactly once, as the signer given or else the
  vault's own, and only if that can send; every failure of it becomes an SDK error that keeps the
  original: InsufficientFundsError when the message of a deposit or withdrawal says so, and
  ContractError otherwise.
\<close>

theorem eth_writes_classified:
  "(case able_signer signer v of
      None \<Rightarrow> (\<exists>m. eth_deposit call v n signer = Inl (AxErr CValidationError m None None None)) \<and>
        (\<exists>m. eth_withdraw call v n signer = Inl (AxErr CValidationError m None None None))
    | Some x \<Rightarrow>
        (case call (vl_address v) (Some x) ''deposit'' [JBig n, JObj [(''value'', JBig n)]] of
           Inr tx \<Rightarrow> eth_deposit call v n signer = Inr tx
         | Inl e \<Rightarrow> (\<exists>c m. eth_deposit call v n signer = Inl (AxErr c m None None (Some e)) \<and>
             c = (if says_insufficient e then CInsufficientFundsError else CContractError))) \<and>
        (case call (vl_address v) (Some x) ''withdraw'' [JBig n] of
           Inr tx \<Rightarrow> eth_withdraw call v n signer = Inr tx
         | Inl e \<Rightarrow> (\<exists>c m. eth_withdraw call v n signer = Inl (AxErr c m None None (Some e)) \<and>
             c = (if says_insufficient e then CInsufficientFundsError else CContractError))) \<and>
        (case call (vl_address v) (Some x) ''claimRewards'' [] of
           Inr tx \<Rightarrow> eth_claimRewards call v signer = Inr tx
         | Inl e \<Rightarrow> (\<exists>m. eth_claimRewards call v signer = Inl (AxErr CContractError m None None (Some e)))))"
  by (auto simp: eth_deposit_def eth_withdraw_def eth_claimRewards_def vault_write_def write_failure_def
      split: option.split sum.split)

text \<open>
  The vault of \<open>packages/core\<close> runs deposits and claims on its own provider: for any two signers
  that can send, the calls are the same.
\<close>

theorem core_vault_ignores_signer:
  assumes "rn_canSend a" and "rn_canSend b"
  shows "core_eth_deposit call v n (Some a) = core_eth_deposit call v n (Some b) \<and>
    core_eth_claimRewards call v (Some a) = core_eth_claimRewards call v (Some b) \<and>
    core_eth_deposit call v n (Some a) = call (vl_address v) (vl_provider v) ''deposit'' [JBig n, JObj [(''value'', JBig n)]]"
  using assms
  by (simp add: core_eth_deposit_def core_eth_claimRewards_def able_signer_def signer_to_use_def on_provider_def)

theorem core_vault_ignores_signer_witness:
  "core_eth_deposit (\<lambda>a r m args. case r of None \<Rightarrow> Inr (JStr ''none'') | Some x \<Rightarrow> Inr (JStr (rn_id x)))
     \<lparr>vl_address = ''0x1'', vl_provider = Some \<lparr>rn_id = ''reader'', rn_canSend = False, rn_address = Inr ''R''\<rparr>\<rparr> 5
     (Some \<lparr>rn_id = ''alice'', rn_canSend = True, rn_address = Inr ''A''\<rparr>) = Inr (JStr ''reader'')"
proof -
  let ?alice = "\<lparr>rn_id = ''alice'', rn_canSend = True, rn_address = Inr ''A''\<rparr>"
  have c: "rn_canSend ?alice" by simp
  from core_vault_ignores_signer[OF c c] show ?thesis by simp
qed

end
