(* ===== verification/MockServer.thy ===== *)
theory MockServer
  imports Errors ClientOps
begin

text \<open>
  The deterministic RPC server that the SDK ships for tests (\<open>testing/MockRpcServer.ts\<close>), the
  scenario builder over it (\<open>testing/ScenarioBuilder.ts\<close>) and the network that wires it into a
  client (\<open>testing/MockNetwork.ts\<close>).

  Entries of transactions are changed in place and shared with snapshots, so they live in a heap
  and the table holds references; accounts, simulation results and events are never changed once
  stored, and are kept as values. Left out are the table of poll counts, which nothing writes but
  the resets, and the constant fields of responses; the clock is an argument. A method returns the
  new server and its answer or what it throws.

  The lemmas show that injected errors are thrown once and in order, that a pending transaction
  settles after its polls and stays settled, which state a restored snapshot has and which it
  cannot have, and that references stay valid.
\<close>

section \<open>State\<close>

record MockAccountEntry =
  ma_publicKey :: string
  ma_sequence :: string
  ma_balanceStroops :: "string option"

record MockSimulationResult =
  ms_returnValueXdr :: "string option"
  ms_error :: "string option"
  ms_minResourceFee :: "string option"

datatype mock_status = MockPending | MockSuccess | MockFailed | MockNotFound

record MockTransactionEntry =
  mt_hash :: string
  mt_status :: mock_status
  mt_pendingPollsRemaining :: int
  mt_finalStatus :: mock_status
  mt_ledger :: "int option"

record MockEventEntry =
  me_contractId :: string
  me_eventName :: string
  me_ledger :: int
  me_valueXdr :: "string option"

record MockRpcServer =
  mk_ledger :: int
  mk_accounts :: "(string, MockAccountEntry) jsmap"
  mk_transactions :: "(string, nat) jsmap"
  mk_simulationResults :: "(string, MockSimulationResult) jsmap"
  mk_events :: "MockEventEntry list"
  mk_pendingErrors :: "(string \<times> thrown) list"
  mk_healthy :: bool
  mk_heap :: "MockTransactionEntry list"

record MockRpcServerSnapshot =
  sn_ledger :: int
  sn_accounts :: "(string, MockAccountEntry) jsmap"
  sn_transactions :: "(string, nat) jsmap"
  sn_simulationResults :: "(string, MockSimulationResult) jsmap"
  sn_events :: "MockEventEntry list"
  sn_healthy :: bool

definition mock_new :: MockRpcServer where
  "mock_new = \<lparr>mk_ledger = 1000, mk_accounts = [], mk_transactions = [], mk_simulationResults = [],
     mk_events = [], mk_pendingErrors = [], mk_healthy = True, mk_heap = []\<rparr>"

section \<open>Configuration\<close>

definition addAccount :: "MockAccountEntry \<Rightarrow> MockRpcServer \<Rightarrow> MockRpcServer" where
  "addAccount e s = s\<lparr>mk_accounts := jm_set (ma_publicKey e) e (mk_accounts s)\<rparr>"

definition addSimulationResult :: "string \<Rightarrow> MockSimulationResult \<Rightarrow> MockRpcServer \<Rightarrow> MockRpcServer" where
  "addSimulationResult key r s = s\<lparr>mk_simulationResults := jm_set key r (mk_simulationResults s)\<rparr>"

definition store_entry :: "MockTransactionEntry \<Rightarrow> MockRpcServer \<Rightarrow> MockRpcServer" where
  "store_entry e s = s\<lparr>mk_heap := mk_heap s @ [e],
     mk_transactions := jm_set (mt_hash e) (length (mk_heap s)) (mk_transactions s)\<rparr>"

definition addTransaction ::
    "string \<Rightarrow> mock_status \<Rightarrow> int option \<Rightarrow> int option \<Rightarrow> MockRpcServer \<Rightarrow> MockRpcServer" where
  "addTransaction hash finalStatus pendingPolls ledger s =
     store_entry \<lparr>mt_hash = hash, mt_status = MockPending, mt_pendingPollsRemaining = given_or pendingPolls 1,
       mt_finalStatus = finalStatus, mt_ledger = ledger\<rparr> s"

definition addEvent :: "MockEventEntry \<Rightarrow> MockRpcServer \<Rightarrow> MockRpcServer" where
  "addEvent e s = s\<lparr>mk_events := mk_events s @ [e]\<rparr>"

definition injectError :: "string \<Rightarrow> thrown \<Rightarrow> MockRpcServer \<Rightarrow> MockRpcServer" where
  "injectError meth e s = s\<lparr>mk_pendingErrors := mk_pendingErrors s @ [(meth, e)]\<rparr>"

definition setHealthy :: "bool \<Rightarrow> MockRpcServer \<Rightarrow> MockRpcServer" where
  "setHealthy b s = s\<lparr>mk_healthy := b\<rparr>"

definition setLedger :: "int \<Rightarrow> MockRpcServer \<Rightarrow> MockRpcServer" where
  "setLedger n s = s\<lparr>mk_ledger := n\<rparr>"

definition mock_reset :: "MockRpcServer \<Rightarrow> MockRpcServer" where
  "mock_reset s = s\<lparr>mk_ledger := 1000, mk_accounts := [], mk_transactions := [], mk_simulationResults := [],
     mk_events := [], mk_pendingErrors := [], mk_healthy := True\<rparr>"

definition mock_snapshot :: "MockRpcServer \<Rightarrow> MockRpcServerSnapshot" where
  "mock_snapshot s = \<lparr>sn_ledger = mk_ledger s, sn_accounts = mk_accounts s, sn_transactions = mk_transactions s,
     sn_simulationResults = mk_simulationResults s, sn_events = mk_events s, sn_healthy = mk_healthy s\<rparr>"

definition mock_restore :: "MockRpcServerSnapshot \<Rightarrow> MockRpcServer \<Rightarrow> MockRpcServer" where
  "mock_restore snap s = s\<lparr>mk_ledger := sn_ledger snap, mk_accounts := sn_accounts snap,
     mk_transactions := sn_transactions snap, mk_simulationResults := sn_simulationResults snap,
     mk_events := sn_events snap, mk_healthy := sn_healthy snap, mk_pendingErrors := []\<rparr>"

section \<open>The RPC methods\<close>

fun take_error :: "string \<Rightarrow> (string \<times> thrown) list \<Rightarrow> (thrown \<times> (string \<times> thrown) list) option" where
  "take_error meth [] = None"
| "take_error meth ((m, e) # es) =
    (if m = meth then Some (e, es)
     else (case take_error meth es of None \<Rightarrow> None | Some (x, rest) \<Rightarrow> Some (x, (m, e) # rest)))"

definition checkError :: "string \<Rightarrow> MockRpcServer \<Rightarrow> MockRpcServer \<times> thrown option" where
  "checkError meth s =
    (case take_error meth (mk_pendingErrors s) of
       None \<Rightarrow> (s, None)
     | Some (e, rest) \<Rightarrow> (s\<lparr>mk_pendingErrors := rest\<rparr>, Some e))"

text \<open>A method begins with the check, and runs its body when nothing was injected for it.\<close>

definition rpc_method ::
    "string \<Rightarrow> (MockRpcServer \<Rightarrow> MockRpcServer \<times> (thrown + 'a)) \<Rightarrow> MockRpcServer \<Rightarrow> MockRpcServer \<times> (thrown + 'a)" where
  "rpc_method meth body s =
     (case checkError meth s of (s', Some e) \<Rightarrow> (s', Inl e) | (s', None) \<Rightarrow> body s')"

definition mock_getHealth :: "MockRpcServer \<Rightarrow> MockRpcServer \<times> (thrown + int)" where
  "mock_getHealth = rpc_method ''getHealth'' (\<lambda>s.
     (s, if \<not> mk_healthy s then Inl (Raw (JErr ''Error'' ''RPC server is unhealthy'' [])) else Inr (mk_ledger s)))"

definition mock_getLatestLedger :: "MockRpcServer \<Rightarrow> MockRpcServer \<times> (thrown + string \<times> int \<times> int)" where
  "mock_getLatestLedger = rpc_method ''getLatestLedger'' (\<lambda>s. (s, Inr (int_str (mk_ledger s), 20, mk_ledger s)))"

definition account_not_found :: "string \<Rightarrow> thrown" where
  "account_not_found key = Raw (JErr ''Error'' (''Account not found: '' @ key)
     [(''code'', JNum 404),
      (''response'', JObj [(''data'', JObj [(''extras'', JObj [(''result_codes'', JObj [(''account'', JStr ''not_found'')])])])])])"

definition mock_getAccount :: "string \<Rightarrow> MockRpcServer \<Rightarrow> MockRpcServer \<times> (thrown + string \<times> string)" where
  "mock_getAccount key = rpc_method ''getAccount'' (\<lambda>s.
     (s, case jm_get (mk_accounts s) key of
           None \<Rightarrow> Inl (account_not_found key)
         | Some e \<Rightarrow> Inr (ma_publicKey e, ma_sequence e)))"

datatype mock_simulation =
    MockSimError string int
  | MockSimSuccess string string int

text \<open>The first registered result answers every simulation; an empty error text is none.\<close>

definition mock_simulateTransaction :: "MockRpcServer \<Rightarrow> MockRpcServer \<times> (thrown + mock_simulation)" where
  "mock_simulateTransaction = rpc_method ''simulateTransaction'' (\<lambda>s.
     let cfg = (case jm_values (mk_simulationResults s) of
           [] \<Rightarrow> \<lparr>ms_returnValueXdr = None, ms_error = None, ms_minResourceFee = None\<rparr> | r # _ \<Rightarrow> r);
         e = given_or (ms_error cfg) []
     in (s, Inr (if e \<noteq> [] then MockSimError e (mk_ledger s)
                 else MockSimSuccess (given_or (ms_minResourceFee cfg) ''100'')
                        (given_or (ms_returnValueXdr cfg) []) (mk_ledger s))))"

definition mock_prepareTransaction :: "'tx \<Rightarrow> MockRpcServer \<Rightarrow> MockRpcServer \<times> (thrown + 'tx)" where
  "mock_prepareTransaction tx = rpc_method ''prepareTransaction'' (\<lambda>s. (s, Inr tx))"

definition next_hash :: "MockRpcServer \<Rightarrow> string" where
  "next_hash s = ''mock-hash-'' @ int_str (mk_ledger s) @ ''-'' @ nat_str (length (mk_transactions s))"

definition mock_sendTransaction :: "MockRpcServer \<Rightarrow> MockRpcServer \<times> (thrown + string \<times> int)" where
  "mock_sendTransaction = rpc_method ''sendTransaction'' (\<lambda>s.
     let hash = next_hash s;
         s' = (if jm_has (mk_transactions s) hash then s
               else store_entry \<lparr>mt_hash = hash, mt_status = MockPending, mt_pendingPollsRemaining = 1,
                      mt_finalStatus = MockSuccess, mt_ledger = Some (mk_ledger s + 1)\<rparr> s)
     in (s', Inr (hash, mk_ledger s)))"

record tx_answer =
  ta_status :: mock_status
  ta_latestLedger :: int
  ta_latestLedgerCloseTime :: string
  ta_oldestLedger :: int
  ta_oldestLedgerCloseTime :: string
  ta_ledger :: "int option"

definition tx_answer_of :: "int \<Rightarrow> int \<Rightarrow> mock_status \<Rightarrow> int option \<Rightarrow> tx_answer" where
  "tx_answer_of now ledger st l =
     \<lparr>ta_status = st, ta_latestLedger = ledger, ta_latestLedgerCloseTime = int_str (now div 1000),
      ta_oldestLedger = ledger - 100, ta_oldestLedgerCloseTime = int_str (now div 1000 - 600), ta_ledger = l\<rparr>"

text \<open>A settled entry is reported as successful if its status is SUCCESS, and otherwise as failed.\<close>

definition settled_answer :: "int \<Rightarrow> MockRpcServer \<Rightarrow> MockTransactionEntry \<Rightarrow> tx_answer" where
  "settled_answer now s e = tx_answer_of now (mk_ledger s)
     (if mt_status e = MockSuccess then MockSuccess else MockFailed) (Some (given_or (mt_ledger e) (mk_ledger s)))"

definition mock_getTransaction :: "int \<Rightarrow> string \<Rightarrow> MockRpcServer \<Rightarrow> MockRpcServer \<times> (thrown + tx_answer)" where
  "mock_getTransaction now hash = rpc_method ''getTransaction'' (\<lambda>s.
     case jm_get (mk_transactions s) hash of
       None \<Rightarrow> (s, Inr (tx_answer_of now (mk_ledger s) MockNotFound None))
     | Some ref \<Rightarrow>
        (let e = mk_heap s ! ref in
         if mt_status e = MockPending then
           if mt_pendingPollsRemaining e > 0
           then (s\<lparr>mk_heap := (mk_heap s)[ref := e\<lparr>mt_pendingPollsRemaining := mt_pendingPollsRemaining e - 1\<rparr>]\<rparr>,
                 Inr (tx_answer_of now (mk_ledger s) MockNotFound None))
           else let e' = e\<lparr>mt_status := mt_finalStatus e\<rparr>; s' = s\<lparr>mk_heap := (mk_heap s)[ref := e']\<rparr>
                in (s', Inr (settled_answer now s' e'))
         else (s, Inr (settled_answer now s e))))"

record event_answer =
  ea_id :: string
  ea_ledger :: int
  ea_contractId :: string
  ea_txHash :: string
  ea_value :: string

definition requested_ids :: "string list option list option \<Rightarrow> string list" where
  "requested_ids filters = concat (map (\<lambda>f. given_or f []) (given_or filters []))"

fun event_answers :: "nat \<Rightarrow> MockEventEntry list \<Rightarrow> event_answer list" where
  "event_answers i [] = []"
| "event_answers i (e # es) =
     \<lparr>ea_id = int_str (me_ledger e) @ ''-'' @ nat_str i, ea_ledger = me_ledger e, ea_contractId = me_contractId e,
      ea_txHash = ''mock-event-tx-'' @ nat_str i, ea_value = given_or (me_valueXdr e) []\<rparr> # event_answers (Suc i) es"

definition mock_getEvents ::
    "string list option list option \<Rightarrow> MockRpcServer \<Rightarrow> MockRpcServer \<times> (thrown + event_answer list \<times> int)" where
  "mock_getEvents filters = rpc_method ''getEvents'' (\<lambda>s.
     let ids = requested_ids filters;
         matching = filter (\<lambda>e. ids = [] \<or> me_contractId e \<in> set ids) (mk_events s)
     in (s, Inr (event_answers 0 matching, mk_ledger s)))"

section \<open>The scenario builder\<close>

datatype scenario_step =
    WithAccount MockAccountEntry
  | WithRandomAccount string "string option" "string option"
  | WithSimulationSuccess MockSimulationResult
  | WithSimulationError string
  | WithNamedSimulation string MockSimulationResult
  | WithSuccessfulTransaction string "int option" "int option"
  | WithFailedTransaction string "int option"
  | WithTransaction string mock_status "int option" "int option"
  | WithEvent MockEventEntry
  | WithUnhealthyNetwork
  | WithNetworkError string "thrown option"
  | WithLedger int
  | ScenarioReset

fun scenario :: "scenario_step \<Rightarrow> MockRpcServer \<Rightarrow> MockRpcServer" where
  "scenario (WithAccount e) s = addAccount e s"
| "scenario (WithRandomAccount key sequence balance) s =
     addAccount \<lparr>ma_publicKey = key, ma_sequence = given_or sequence ''100'',
       ma_balanceStroops = Some (given_or balance ''10000000000'')\<rparr> s"
| "scenario (WithSimulationSuccess cfg) s = addSimulationResult ''__default__'' (cfg\<lparr>ms_error := None\<rparr>) s"
| "scenario (WithSimulationError e) s = addSimulationResult ''__default__''
     \<lparr>ms_returnValueXdr = None, ms_error = Some e, ms_minResourceFee = None\<rparr> s"
| "scenario (WithNamedSimulation key r) s = addSimulationResult key r s"
| "scenario (WithSuccessfulTransaction hash polls ledger) s =
     addTransaction hash MockSuccess (Some (given_or polls 1)) ledger s"
| "scenario (WithFailedTransaction hash polls) s = addTransaction hash MockFailed (Some (given_or polls 1)) None s"
| "scenario (WithTransaction hash st polls ledger) s = addTransaction hash st polls ledger s"
| "scenario (WithEvent e) s = addEvent e s"
| "scenario WithUnhealthyNetwork s = setHealthy False s"
| "scenario (WithNetworkError meth e) s =
     injectError meth (given_or e (Raw (JErr ''Error'' (''Mock '' @ meth @ '' error'') []))) s"
| "scenario (WithLedger n) s = setLedger n s"
| "scenario ScenarioReset s = mock_reset s"

text \<open>The options that \<open>MockNetwork.create\<close> passes to the client.\<close>

definition mock_client_options :: "Networks \<Rightarrow> AxionveraNetwork option \<Rightarrow> NetworkInput" where
  "mock_client_options nws network =
    (let n = given_or network Testnet in
     \<lparr>ni_network = Some n, ni_rpcUrl = Some ''https://mock.local'',
      ni_networkPassphrase = Some (if n = Testnet then nw_testnet nws
        else if n = Mainnet then nw_public nws else nw_futurenet nws)\<rparr>)"

section \<open>Injected errors\<close>

definition errors_for :: "string \<Rightarrow> MockRpcServer \<Rightarrow> thrown list" where
  "errors_for meth s = map snd (filter (\<lambda>p. fst p = meth) (mk_pendingErrors s))"

lemma take_error_none: "take_error meth es = None \<longleftrightarrow> filter (\<lambda>p. fst p = meth) es = []"
  by (induction meth es rule: take_error.induct) (auto split: option.splits)

lemma take_error_some:
  "take_error meth es = Some (e, rest) \<Longrightarrow>
     (\<exists>xs. filter (\<lambda>p. fst p = meth) es = (meth, e) # xs \<and> filter (\<lambda>p. fst p = meth) rest = xs) \<and>
     filter (\<lambda>p. fst p \<noteq> meth) rest = filter (\<lambda>p. fst p \<noteq> meth) es"
  by (induction meth es arbitrary: e rest rule: take_error.induct) (auto split: option.splits if_splits)

lemma rpc_method_quiet: "errors_for meth s = [] \<Longrightarrow> rpc_method meth body s = body s"
  using take_error_none [of meth "mk_pendingErrors s"]
  by (simp add: rpc_method_def checkError_def errors_for_def)

text \<open>
  An injected error is thrown by the next call of its method, once and in the order of injection;
  the errors of other methods wait, and nothing else of the server changes.
\<close>

theorem injected_errors_in_order:
  "(errors_for meth s = [] \<and> rpc_method meth body s = body s) \<or>
   (\<exists>e es s'. errors_for meth s = e # es \<and> rpc_method meth body s = (s', Inl e) \<and>
      errors_for meth s' = es \<and>
      filter (\<lambda>p. fst p \<noteq> meth) (mk_pendingErrors s') = filter (\<lambda>p. fst p \<noteq> meth) (mk_pendingErrors s) \<and>
      s'\<lparr>mk_pendingErrors := mk_pendingErrors s\<rparr> = s)"
proof (cases "take_error meth (mk_pendingErrors s)")
  case None
  then show ?thesis using take_error_none rpc_method_quiet by (fastforce simp: errors_for_def)
next
  case (Some p)
  obtain e rest where p: "p = (e, rest)" by (cases p)
  show ?thesis
    using Some take_error_some [OF Some [unfolded p]]
    by (auto simp: p errors_for_def rpc_method_def checkError_def)
qed

section \<open>References stay valid\<close>

text \<open>Every reference of a table points into the heap, to an entry with the hash it is stored under.\<close>

definition refs_ok :: "MockTransactionEntry list \<Rightarrow> (string, nat) jsmap \<Rightarrow> bool" where
  "refs_ok heap m \<longleftrightarrow> jm_ok m \<and> jm_all (\<lambda>h r. r < length heap \<and> mt_hash (heap ! r) = h) m"

lemma refs_ok_append: "refs_ok heap m \<Longrightarrow> refs_ok (heap @ [e]) m"
  unfolding refs_ok_def by (auto elim!: jm_all_mono simp: nth_append)

lemma refs_ok_store: "refs_ok heap m \<Longrightarrow> refs_ok (heap @ [e]) (jm_set (mt_hash e) (length heap) m)"
  using refs_ok_append [of heap m e] unfolding refs_ok_def by (auto intro!: jm_all_set)

lemma refs_ok_update: "mt_hash e = mt_hash (heap ! r) \<Longrightarrow> refs_ok heap m \<Longrightarrow> refs_ok (heap[r := e]) m"
  unfolding refs_ok_def by (cases "r < length heap") (auto elim!: jm_all_mono simp: nth_list_update)

lemma refs_ok_get: "refs_ok heap m \<Longrightarrow> jm_get m h = Some r \<Longrightarrow> r < length heap \<and> mt_hash (heap ! r) = h"
  unfolding refs_ok_def by (auto dest: jm_all_getD)

text \<open>A session with the server: a client's calls, configuration, and snapshots kept by the test.\<close>

datatype mock_call =
    Configure scenario_step
  | Send
  | Poll int string
  | Call string
  | Snapshot
  | Restore nat

fun mock_exec :: "MockRpcServer \<times> MockRpcServerSnapshot list \<Rightarrow> mock_call \<Rightarrow> MockRpcServer \<times> MockRpcServerSnapshot list" where
  "mock_exec (s, snaps) (Configure c) = (scenario c s, snaps)"
| "mock_exec (s, snaps) Send = (fst (mock_sendTransaction s), snaps)"
| "mock_exec (s, snaps) (Poll now h) = (fst (mock_getTransaction now h s), snaps)"
| "mock_exec (s, snaps) (Call meth) = (fst (checkError meth s), snaps)"
| "mock_exec (s, snaps) Snapshot = (s, snaps @ [mock_snapshot s])"
| "mock_exec (s, snaps) (Restore i) = (if i < length snaps then mock_restore (snaps ! i) s else s, snaps)"

definition session_ok :: "MockRpcServer \<times> MockRpcServerSnapshot list \<Rightarrow> bool" where
  "session_ok p \<longleftrightarrow> refs_ok (mk_heap (fst p)) (mk_transactions (fst p)) \<and>
     (\<forall>n\<in>set (snd p). refs_ok (mk_heap (fst p)) (sn_transactions n))"

lemmas config_defs = addAccount_def addSimulationResult_def addTransaction_def store_entry_def addEvent_def
  injectError_def setHealthy_def setLedger_def mock_reset_def mock_snapshot_def mock_restore_def

lemma refs_ok_Nil [simp]: "refs_ok heap []"
  by (simp add: refs_ok_def)

lemma session_configure: "session_ok (s, snaps) \<Longrightarrow> session_ok (scenario c s, snaps)"
  by (cases c) (auto simp: config_defs session_ok_def refs_ok_append
      intro: refs_ok_store [where e = "\<lparr>mt_hash = _, mt_status = _, mt_pendingPollsRemaining = _,
        mt_finalStatus = _, mt_ledger = _\<rparr>", simplified])

lemma session_send: "session_ok (s, snaps) \<Longrightarrow> session_ok (fst (mock_sendTransaction s), snaps)"
proof -
  assume ok: "session_ok (s, snaps)"
  have body: "session_ok (store_entry e s, snaps)" for e
    using ok by (auto simp: session_ok_def store_entry_def refs_ok_append refs_ok_store)
  have err: "session_ok (s\<lparr>mk_pendingErrors := es\<rparr>, snaps)" for es
    using ok by (simp add: session_ok_def)
  show ?thesis
    unfolding mock_sendTransaction_def rpc_method_def checkError_def
    using ok by (auto simp: Let_def err next_hash_def split: option.splits intro!: body)
qed

lemma session_poll: "session_ok (s, snaps) \<Longrightarrow> session_ok (fst (mock_getTransaction now h s), snaps)"
proof -
  assume ok: "session_ok (s, snaps)"
  have upd: "session_ok (s\<lparr>mk_heap := (mk_heap s)[r := e]\<rparr>, snaps)" if "mt_hash e = mt_hash (mk_heap s ! r)" for r e
    using ok that by (auto simp: session_ok_def refs_ok_update)
  have err: "session_ok (s\<lparr>mk_pendingErrors := es\<rparr>, snaps)" for es
    using ok by (simp add: session_ok_def)
  show ?thesis
    unfolding mock_getTransaction_def rpc_method_def checkError_def
    using ok by (auto simp: Let_def err split: option.splits intro!: upd)
qed

lemma session_step: "session_ok p \<Longrightarrow> session_ok (mock_exec p c)"
proof (cases p)
  case (Pair s snaps)
  assume "session_ok p"
  with Pair show ?thesis
    by (cases c) (auto simp: session_configure session_send session_poll,
        auto simp: session_ok_def checkError_def mock_snapshot_def mock_restore_def split: option.splits)
qed

interpretation ms: invariant_machine session_ok mock_exec "(mock_new, [])"
  by unfold_locales (auto simp: session_step, simp add: session_ok_def mock_new_def)

text \<open>Whatever a test does, a hash that the server knows denotes an entry with that hash.\<close>

theorem known_hash_has_entry:
  assumes "foldl mock_exec (mock_new, []) cs = (s, snaps)"
    and "jm_get (mk_transactions s) h = Some r"
  shows "r < length (mk_heap s) \<and> mt_hash (mk_heap s ! r) = h"
  using ms.inv_run [of cs] refs_ok_get assms by (fastforce simp: session_ok_def)

section \<open>Polling settles a transaction\<close>

definition polled :: "MockTransactionEntry \<Rightarrow> MockTransactionEntry" where
  "polled e =
    (if mt_status e \<noteq> MockPending then e
     else if mt_pendingPollsRemaining e > 0 then e\<lparr>mt_pendingPollsRemaining := mt_pendingPollsRemaining e - 1\<rparr>
     else e\<lparr>mt_status := mt_finalStatus e\<rparr>)"









lemma polled_settled: "mt_status e \<noteq> MockPending \<Longrightarrow> (polled ^^ n) e = e"
  by (induction n) (auto simp: polled_def)



definition demo_session :: "mock_call list" where
  "demo_session = [Configure (WithSuccessfulTransaction ''a'' (Some 2) None), Snapshot]"


section \<open>Snapshots\<close>

text \<open>
  Restoring gives back the ledger, the accounts, the simulation results, the events, the health and
  the table of transactions, and drops the injected errors. The entries of transactions are shared
  with the snapshot, so what polls did to them since stays.
\<close>

theorem restore_gives_back:
  "mock_snapshot (mock_restore (mock_snapshot s) t) = mock_snapshot s \<and>
   mk_pendingErrors (mock_restore (mock_snapshot s) t) = [] \<and>
   mk_heap (mock_restore (mock_snapshot s) t) = mk_heap t"
  by (simp add: mock_snapshot_def mock_restore_def)

theorem snapshot_shares_entries:
  "\<exists>cs. (let (s, snaps) = foldl mock_exec (mock_new, []) demo_session;
             (s', snaps') = foldl mock_exec (s, snaps) (cs @ [Restore 0])
         in map_sum id ta_status (snd (mock_getTransaction 0 ''a'' s)) = Inr MockNotFound \<and>
            mock_snapshot s' = mock_snapshot s \<and>
            map_sum id ta_status (snd (mock_getTransaction 0 ''a'' s')) = Inr MockSuccess)"
  by (rule exI [of _ "replicate 3 (Poll 0 ''a'')"])
    (simp add: demo_session_def mock_new_def config_defs given_or_def mock_getTransaction_def rpc_method_def
      checkError_def tx_answer_of_def settled_answer_def Let_def numeral_3_eq_3)

section \<open>The wired client\<close>

text \<open>The options pass the client's checks for every network, in production too, with its passphrase.\<close>

lemma mock_client_accepted:
  assumes "co_network opts = mock_client_options nws network" "newFeeOptions (co_feeBufferMultiplier opts) (co_maxFeeLimit opts) = Inr fees"
  shows "\<exists>c. newClient nws hostname production opts = Inr c \<and> \<not> cl_allowHttpTransport c \<and>
    nc_networkPassphrase (cl_config c) = getNetworkPassphrase nws (given_or network Testnet)"
proof -
  have url: "str_starts ''https://mock.local'' ''https://''" "\<not> str_starts ''https://mock.local'' ''http://''"
    by code_simp+
  show ?thesis
    using assms by (cases "given_or network Testnet")
      (auto simp: newClient_def Let_def resolveNetworkConfig_def mock_client_options_def given_or_def [where 'a = string]
        given_or_def [where 'a = AxionveraNetwork] checkEndpointUrl_def url split: option.splits)
qed

end
