(* ===== verification/Wallets.thy ===== *)
theory Wallets
  imports Signing XdrCache ClientOps
begin

text \<open>
  The wallet connectors: the local keypair and the mocks (\<open>wallet/walletConnector.ts\<close>,
  \<open>wallet/mockWalletConnector.ts\<close>), the Freighter extension (\<open>wallet/browserWalletConnector.ts\<close>),
  and the Ledger device of \<open>packages/core\<close> (\<open>wallet/ledgerWalletConnector.ts\<close>).

  The Stellar SDK's parsing and signing, the extension and the device are outside: they are records
  of functions. What is sent to them is returned as a list of calls beside the outcome, so that the
  lemmas can say what reaches a wallet, which errors come back, and which networks pass the check
  of the signer (theory Signing) with the browser's connector behind it.
\<close>

section \<open>Local keypairs\<close>

record 'tx keypair_env =
  ke_fromXDR :: "string \<Rightarrow> string \<Rightarrow> thrown + 'tx"
  ke_sign :: "'tx \<Rightarrow> thrown + 'tx"
  ke_toXDR :: "'tx \<Rightarrow> string"
  ke_publicKey :: string

definition parse_and_sign :: "'tx keypair_env \<Rightarrow> string \<Rightarrow> string \<Rightarrow> thrown + string" where
  "parse_and_sign env x pass =
    (case ke_fromXDR env x pass of
       Inl e \<Rightarrow> Inl e
     | Inr tx \<Rightarrow> (case ke_sign env tx of Inl e \<Rightarrow> Inl e | Inr tx' \<Rightarrow> Inr (ke_toXDR env tx')))"

definition with_original :: "thrown \<Rightarrow> thrown \<Rightarrow> thrown" where
  "with_original orig e = (case e of AxErr c m st rid x \<Rightarrow> AxErr c m st rid (Some orig) | Raw v \<Rightarrow> Raw v)"

text \<open>The connector of the root package checks the text first and wraps what the SDK throws.\<close>

definition local_signTransaction :: "'tx keypair_env \<Rightarrow> jsv \<Rightarrow> string \<Rightarrow> thrown + string" where
  "local_signTransaction env x pass =
    (case assertValidXDR (Some ''signTransaction'') MAX_XDR_STRING_LENGTH x of
       Inl e \<Rightarrow> Inl e
     | Inr _ \<Rightarrow>
        (case parse_and_sign env (js_String x) pass of
           Inl e \<Rightarrow> Inl (with_original e
             (newInvalidXDRError (''signTransaction: failed to parse XDR: '' @ error_text e) (js_String x)))
         | Inr s \<Rightarrow> Inr s))"

record LocalWallet =
  lw_publicKey :: string
  lw_network :: AxionveraNetwork

definition newLocalWallet :: "string \<Rightarrow> AxionveraNetwork option \<Rightarrow> LocalWallet" where
  "newLocalWallet key network = \<lparr>lw_publicKey = key, lw_network = given_or network Testnet\<rparr>"

text \<open>The sandbox mock answers with its key, or a random one for a missing or empty key, and does not sign.\<close>

definition sandbox_publicKey :: "string option \<Rightarrow> string \<Rightarrow> string" where
  "sandbox_publicKey key random = (case key of None \<Rightarrow> random | Some k \<Rightarrow> if k = [] then random else k)"

definition sandbox_signTransaction :: "string \<Rightarrow> string \<Rightarrow> thrown + string" where
  "sandbox_signTransaction x pass = Inr x"

text \<open>The mock for test suites takes a keypair, or a secret from which one is made; it checks nothing.\<close>

definition newMockWallet :: "(string \<Rightarrow> thrown + 'k) \<Rightarrow> 'k + string \<Rightarrow> thrown + 'k" where
  "newMockWallet fromSecret k = (case k of Inl pair \<Rightarrow> Inr pair | Inr secret \<Rightarrow> fromSecret secret)"

definition mock_signTransaction :: "'tx keypair_env \<Rightarrow> string \<Rightarrow> string \<Rightarrow> thrown + string" where
  "mock_signTransaction = parse_and_sign"

section \<open>Freighter\<close>

text \<open>A field of a provider is \<open>None\<close> when it is no function.\<close>

record freighter_provider =
  fp_getPublicKey :: "(thrown + string) option"
  fp_getNetwork :: "(thrown + string) option"
  fp_signTransaction :: "(string \<Rightarrow> string \<Rightarrow> thrown + jsv) option"

record FreighterApi =
  fa_getPublicKey :: "thrown + string"
  fa_getNetwork :: "thrown + string"
  fa_signTransaction :: "string \<Rightarrow> string \<Rightarrow> thrown + jsv"

text \<open>
  The browser: whether there is a window, and what importing the module gives: nothing when it
  fails, and otherwise the module and its default export, each \<open>None\<close> when it is null or undefined
  and \<open>Some None\<close> when it is no object.
\<close>

type_synonym js_provider = "freighter_provider option option"

record browser =
  br_window :: bool
  br_import :: "(js_provider \<times> js_provider) option"

definition isFreighterApi :: "js_provider \<Rightarrow> FreighterApi option" where
  "isFreighterApi p =
    (case p of
       Some (Some q) \<Rightarrow>
        (case (fp_getPublicKey q, fp_signTransaction q, fp_getNetwork q) of
           (Some k, Some s, Some n) \<Rightarrow> Some \<lparr>fa_getPublicKey = k, fa_getNetwork = n, fa_signTransaction = s\<rparr>
         | _ \<Rightarrow> None)
     | _ \<Rightarrow> None)"

definition not_installed :: "string \<Rightarrow> thrown" where
  "not_installed m = AxErr CWalletNotInstalledError m None None None"

definition loadFreighter :: "browser \<Rightarrow> thrown + FreighterApi" where
  "loadFreighter b =
    (if \<not> br_window b
     then Inl (not_installed ''Browser wallet connector requires a browser environment with Freighter installed.'')
     else case br_import b of
            None \<Rightarrow> Inl (not_installed ''Freighter extension is not installed or could not be loaded.'')
          | Some (whole, dflt) \<Rightarrow>
              (case isFreighterApi (case dflt of None \<Rightarrow> whole | Some _ \<Rightarrow> dflt) of
                 None \<Rightarrow> Inl (not_installed
                   ''Freighter extension is not detected. Please install the Freighter browser extension.'')
               | Some api \<Rightarrow> Inr api))"

definition mapFreighterNetwork :: "string \<Rightarrow> AxionveraNetwork" where
  "mapFreighterNetwork n =
    (let u = js_upper n in
     if u = ''TESTNET'' then Testnet else if u = ''PUBLIC'' then Mainnet
     else if u = ''FUTURENET'' then Futurenet else Testnet)"

definition browser_getPublicKey :: "browser \<Rightarrow> thrown + string" where
  "browser_getPublicKey b = (case loadFreighter b of Inl e \<Rightarrow> Inl e | Inr api \<Rightarrow> fa_getPublicKey api)"

definition browser_getNetwork :: "browser \<Rightarrow> thrown + AxionveraNetwork" where
  "browser_getNetwork b =
    (case loadFreighter b of Inl e \<Rightarrow> Inl e | Inr api \<Rightarrow> map_sum id mapFreighterNetwork (fa_getNetwork api))"

text \<open>An answer is a text, or an object with a text \<open>signedTransaction\<close>.\<close>

definition freighter_answer :: "jsv \<Rightarrow> thrown + string" where
  "freighter_answer r =
    (case r of
       JStr s \<Rightarrow> Inr s
     | _ \<Rightarrow> (case jget r ''signedTransaction'' of
          JStr s \<Rightarrow> Inr s
        | _ \<Rightarrow> Inl (Raw (JErr ''Error'' ''Unexpected Freighter signTransaction response.'' []))))"

definition freighter_sign :: "browser \<Rightarrow> string \<Rightarrow> string \<Rightarrow> (string \<times> string) list \<times> (thrown + string)" where
  "freighter_sign b x pass =
    (case loadFreighter b of
       Inl e \<Rightarrow> ([], Inl e)
     | Inr api \<Rightarrow> ([(x, pass)],
         case fa_signTransaction api x pass of Inl e \<Rightarrow> Inl e | Inr r \<Rightarrow> freighter_answer r))"

text \<open>The connector of the root package checks the text before it loads the extension; that of core does not.\<close>

definition browser_signTransaction :: "browser \<Rightarrow> jsv \<Rightarrow> string \<Rightarrow> (string \<times> string) list \<times> (thrown + string)" where
  "browser_signTransaction b x pass =
    (case assertValidXDR (Some ''signTransaction'') MAX_XDR_STRING_LENGTH x of
       Inl e \<Rightarrow> ([], Inl e)
     | Inr _ \<Rightarrow> freighter_sign b (js_String x) pass)"

section \<open>Ledger\<close>

datatype ledger_call = OpenTransport | LedgerSign string string | LedgerKey string | CloseTransport

text \<open>The device as it answers; the calls go through one transport.\<close>

record 'tx ledger_env =
  de_open :: "thrown + unit"
  de_publicKey :: "thrown + string"
  de_fromXDR :: "string \<Rightarrow> string \<Rightarrow> thrown + 'tx"
  de_signatureBase :: "'tx \<Rightarrow> string"
  de_sign :: "string \<Rightarrow> thrown + string"
  de_addSignature :: "'tx \<Rightarrow> string \<Rightarrow> string \<Rightarrow> thrown + 'tx"
  de_close :: "thrown + unit"
  de_toXDR :: "'tx \<Rightarrow> string"

datatype ledger_error =
    DeviceLockedError string thrown
  | UserRejectedError string thrown
  | OtherLedgerError thrown

definition is_js_Error :: "thrown \<Rightarrow> bool" where
  "is_js_Error e = (case e of AxErr c m st rid orig \<Rightarrow> True | Raw (JErr n m ps) \<Rightarrow> True | Raw v \<Rightarrow> False)"

definition handleLedgerError :: "thrown \<Rightarrow> ledger_error" where
  "handleLedgerError e =
    (let m = js_lower (error_text e) in
     if is_js_Error e \<and> (str_includes m ''0x6b0c'' \<or> str_includes m ''locked'')
     then DeviceLockedError ''Ledger device is locked. Please unlock it and try again.'' e
     else if is_js_Error e \<and> (str_includes m ''0x6985'' \<or> str_includes m ''denied'' \<or> str_includes m ''rejected'')
     then UserRejectedError ''Transaction rejected by the user on the Ledger device.'' e
     else OtherLedgerError (if is_js_Error e then e else Raw (JErr ''Error'' (error_text e) [])))"

text \<open>The body of a \<open>try\<close> block: calls so far and what was thrown or returned.\<close>

definition ledger_try :: "thrown + 'a \<Rightarrow> ledger_call list \<Rightarrow> ('a \<Rightarrow> ledger_call list \<times> (thrown + 'b)) \<Rightarrow>
    ledger_call list \<times> (thrown + 'b)" where
  "ledger_try r cs k = (case r of Inl e \<Rightarrow> (cs, Inl e) | Inr v \<Rightarrow> (case k v of (ds, x) \<Rightarrow> (cs @ ds, x)))"

definition caught :: "ledger_call list \<times> (thrown + 'a) \<Rightarrow> ledger_call list \<times> (ledger_error + 'a)" where
  "caught p = (fst p, map_sum handleLedgerError id (snd p))"

definition ledger_getPublicKey :: "'tx ledger_env \<Rightarrow> string \<Rightarrow> ledger_call list \<times> (ledger_error + string)" where
  "ledger_getPublicKey env path = caught
     (ledger_try (de_open env) [OpenTransport] (\<lambda>_.
      ledger_try (de_publicKey env) [LedgerKey path] (\<lambda>key.
      ledger_try (de_close env) [CloseTransport] (\<lambda>_. ([], Inr key)))))"

definition ledger_signTransaction ::
    "'tx ledger_env \<Rightarrow> string \<Rightarrow> string \<Rightarrow> string \<Rightarrow> ledger_call list \<times> (ledger_error + string)" where
  "ledger_signTransaction env path x pass = caught
     (ledger_try (de_open env) [OpenTransport] (\<lambda>_.
      ledger_try (de_fromXDR env x pass) [] (\<lambda>tx.
      ledger_try (de_sign env (de_signatureBase env tx)) [LedgerSign path (de_signatureBase env tx)] (\<lambda>sig.
      ledger_try (de_publicKey env) [LedgerKey path] (\<lambda>key.
      ledger_try (de_addSignature env tx key sig) [] (\<lambda>tx'.
      ledger_try (de_close env) [CloseTransport] (\<lambda>_. ([], Inr (de_toXDR env tx')))))))))"

section \<open>What reaches a wallet\<close>

lemma accepted_is_valid: "assertValidXDR ctx n x = Inr u \<Longrightarrow> isValidXDR n x \<and> (\<exists>s. x = JStr s)"
  using assert_iff_valid [of n x ctx] by (cases x) (simp_all add: isValidXDR_def)

lemma refused_is_invalid:
  "assertValidXDR ctx n x = Inl e \<Longrightarrow> \<exists>shown. ax_class e = CInvalidXDRError shown \<and> length shown \<le> 67"
  using assert_iff_valid [of n x ctx] by simp

text \<open>
  Freighter is asked at most once, and only for a text that has the form of an XDR envelope, unchanged
  and with the caller's passphrase; core's connector passes on any text.
\<close>

theorem only_valid_xdr_reaches_freighter:
  "fst (browser_signTransaction b x pass) = [] \<or>
   (\<exists>s. x = JStr s \<and> isValidXDR MAX_XDR_STRING_LENGTH x \<and> fst (browser_signTransaction b x pass) = [(s, pass)])"
proof (cases "assertValidXDR (Some ''signTransaction'') MAX_XDR_STRING_LENGTH x")
  case (Inr u)
  then show ?thesis
    using accepted_is_valid [OF Inr] by (auto simp: browser_signTransaction_def freighter_sign_def split: sum.split)
qed (simp add: browser_signTransaction_def)

lemma core_passes_any_text:
  "loadFreighter b = Inr api \<Longrightarrow> fst (freighter_sign b x pass) = [(x, pass)]"
  by (simp add: freighter_sign_def)

text \<open>The local connector signs what it was given if it has that form, and fails with one class of error.\<close>

theorem local_signing_outcome:
  "case local_signTransaction env x pass of
     Inr signed \<Rightarrow> isValidXDR MAX_XDR_STRING_LENGTH x \<and> (\<exists>s. x = JStr s \<and> parse_and_sign env s pass = Inr signed)
   | Inl e \<Rightarrow> \<exists>shown. ax_class e = CInvalidXDRError shown \<and> length shown \<le> 67"
proof (cases "assertValidXDR (Some ''signTransaction'') MAX_XDR_STRING_LENGTH x")
  case (Inl e)
  then show ?thesis using refused_is_invalid [OF Inl] by (simp add: local_signTransaction_def)
next
  case (Inr u)
  then show ?thesis
    using accepted_is_valid [OF Inr]
    by (auto simp: local_signTransaction_def with_original_def newInvalidXDRError_def split: sum.split)
qed

text \<open>A wallet that cannot be loaded is reported with its class, whatever the operation.\<close>

lemma load_failure:
  "loadFreighter b = Inl e \<Longrightarrow> ax_class e = CWalletNotInstalledError \<and>
     browser_getPublicKey b = Inl e \<and> browser_getNetwork b = Inl e \<and> freighter_sign b x pass = ([], Inl e)"
  by (auto simp: loadFreighter_def not_installed_def browser_getPublicKey_def browser_getNetwork_def freighter_sign_def
      split: if_splits option.splits prod.splits)

section \<open>The network check with a browser wallet\<close>

definition with_browser :: "browser \<Rightarrow> ('op, 'm, 'tx) signing_env \<Rightarrow> ('op, 'm, 'tx) signing_env" where
  "with_browser b env = env\<lparr>le_walletNetwork := (\<lambda>_. map_sum id network_name (browser_getNetwork b))\<rparr>"

lemma network_name_inj: "network_name m = network_name n \<longleftrightarrow> m = n"
  by (cases m; cases n) simp_all

text \<open>
  The signer's check passes exactly for the networks that map to the client's. On mainnet and
  futurenet that is Freighter's name of it; on testnet it is every name but those two, so a wallet
  on a network the SDK does not know passes as a testnet wallet.
\<close>

theorem network_check_with_browser:
  assumes "loadFreighter b = Inr api" "fa_getNetwork api = Inr name" "le_clientNetwork env = network_name n"
  shows "fst (validateNetworks (with_browser b env) cl) = Inr () \<longleftrightarrow>
    (case n of Mainnet \<Rightarrow> js_upper name = ''PUBLIC'' | Futurenet \<Rightarrow> js_upper name = ''FUTURENET''
     | Testnet \<Rightarrow> js_upper name \<notin> {''PUBLIC'', ''FUTURENET''})"
proof -
  have "browser_getNetwork b = Inr (mapFreighterNetwork name)"
    by (simp add: browser_getNetwork_def assms)
  then have "fst (validateNetworks (with_browser b env) cl) = Inr () \<longleftrightarrow> mapFreighterNetwork name = n"
    by (simp add: validateNetworks_def act_defs with_browser_def assms(3) network_name_inj)
  then show ?thesis by (cases n) (auto simp: mapFreighterNetwork_def Let_def)
qed

definition demo_browser :: "string \<Rightarrow> browser" where
  "demo_browser name =
     \<lparr>br_window = True, br_import = Some (Some (Some
        \<lparr>fp_getPublicKey = Some (Inr ''G''), fp_getNetwork = Some (Inr name),
         fp_signTransaction = Some (\<lambda>x p. Inr (JStr x))\<rparr>), None)\<rparr>"

lemma demo_browser_loads:
  "loadFreighter (demo_browser name) =
     Inr \<lparr>fa_getPublicKey = Inr ''G'', fa_getNetwork = Inr name, fa_signTransaction = (\<lambda>x p. Inr (JStr x))\<rparr>"
  by (simp add: loadFreighter_def demo_browser_def isFreighterApi_def)

theorem network_check_with_browser_witness:
  "fst (validateNetworks (with_browser (demo_browser ''public'') (demo_env ''x'')) []) \<noteq> Inr () \<and>
   fst (validateNetworks (with_browser (demo_browser ''standalone'') (demo_env ''x'')) []) = Inr ()"
proof -
  have client: "le_clientNetwork (demo_env ''x'') = network_name Testnet" by (simp add: demo_env_def)
  have names: "js_upper ''public'' = ''PUBLIC''" "js_upper ''standalone'' = ''STANDALONE''" by code_simp+
  show ?thesis
    using network_check_with_browser [OF demo_browser_loads _ client, of "''public''" "''public''" "[]"]
      network_check_with_browser [OF demo_browser_loads _ client, of "''standalone''" "''standalone''" "[]"]
    by (simp add: names)
qed

section \<open>The device\<close>

text \<open>
  A signature needs the whole protocol, in this order. After an error the transport is not closed:
  the log of a failure has no call to close, unless closing itself is what failed.
\<close>

theorem ledger_protocol:
  "(case snd (ledger_signTransaction env path x pass) of
      Inr signed \<Rightarrow> \<exists>tx. de_fromXDR env x pass = Inr tx \<and> fst (ledger_signTransaction env path x pass) =
        [OpenTransport, LedgerSign path (de_signatureBase env tx), LedgerKey path, CloseTransport]
    | Inl e \<Rightarrow> CloseTransport \<notin> set (fst (ledger_signTransaction env path x pass)) \<or>
        (\<exists>err. de_close env = Inl err \<and> e = handleLedgerError err))"
  by (cases "de_open env"; cases "de_fromXDR env x pass"; cases "de_sign env (de_signatureBase env (projr (de_fromXDR env x pass)))";
      cases "de_publicKey env"; cases "de_close env")
    (auto simp: ledger_signTransaction_def caught_def ledger_try_def split: sum.split)

text \<open>What an error is reported as depends on words anywhere in its message: ``blocked'' reads as locked.\<close>

lemma str_includes_trans: "str_includes s p \<Longrightarrow> str_includes p q \<Longrightarrow> str_includes s q"
  by (auto simp: str_includes_iff) (metis append.assoc)

theorem blocked_reads_as_locked:
  assumes "is_js_Error e" "str_includes (js_lower (error_text e)) ''blocked''"
  shows "handleLedgerError e = DeviceLockedError ''Ledger device is locked. Please unlock it and try again.'' e"
proof -
  have "str_includes ''blocked'' ''locked''" by code_simp
  then show ?thesis using assms str_includes_trans by (auto simp: handleLedgerError_def Let_def)
qed

end
