(* ===== verification/TxBuild.thy ===== *)
theory TxBuild
  imports Signing XdrCache Wallets
begin

text \<open>
  Building transactions in the root package: the contract calls and the fee bump of
  \<open>utils/transactionBuilder.ts\<close>, the offline builder of \<open>builders/offlineTransactionBuilder.ts\<close> with
  its package (\<open>types/offlineTransaction.ts\<close>), and the signers that a simulation asks for
  (\<open>utils/getRequiredSigners.ts\<close>).

  The constructors and encodings of the Stellar SDK are a record of functions that may throw. A
  transaction is what the code reads of one. Argument lists are arrays that a caller may share with
  a builder, so they live in a heap and a builder holds a reference. Fees and timeouts are integers
  (below the size from which a number prints with an exponent) where the code has not checked them
  yet, and \<open>None\<close> stands for a number that is no integer.
\<close>

section \<open>The SDK's side\<close>

datatype ('sv, 'ad) ContractCallArg =
    ArgScVal 'sv
  | ArgAddress 'ad
  | ArgString string
  | ArgNumber jsnum
  | ArgBigint int
  | ArgBoolean bool
  | ArgNull

datatype native_value = NativeString string | NativeNumber jsnum | NativeI128 int | NativeBool bool

record Transaction =
  xt_operations :: "string list"
  xt_fee :: string
  xt_source :: string
  xt_sequence :: string
  xt_hasTimeBounds :: bool
  xt_memo :: "string option"
  xt_signatures :: nat

datatype parsed_tx = InnerTx Transaction | FeeBumpTx

record ('sv, 'ad, 'c) stellar_sdk =
  sdk_void :: 'sv
  sdk_addressToScVal :: "'ad \<Rightarrow> thrown + 'sv"
  sdk_addressOf :: "string \<Rightarrow> thrown + 'ad"
  sdk_native :: "native_value \<Rightarrow> thrown + 'sv"
  sdk_contract :: "string \<Rightarrow> thrown + 'c"
  sdk_call :: "'c \<Rightarrow> string \<Rightarrow> 'sv list \<Rightarrow> thrown + string"
  sdk_memoText :: "string \<Rightarrow> thrown + string"
  sdk_account :: "string \<Rightarrow> string \<Rightarrow> thrown + Account"
  sdk_build :: "Account \<Rightarrow> string \<Rightarrow> string \<Rightarrow> string list \<Rightarrow> string option \<Rightarrow> int \<Rightarrow> thrown + Transaction"
  sdk_toXDR :: "Transaction \<Rightarrow> string"
  sdk_fromXDR :: "string \<Rightarrow> string \<Rightarrow> thrown + parsed_tx"
  sdk_feeBump :: "string \<Rightarrow> string \<Rightarrow> Transaction \<Rightarrow> string \<Rightarrow> thrown + string"
  sdk_validKey :: "string \<Rightarrow> bool"

section \<open>Contract calls\<close>

text \<open>A text that is an address becomes one, and any other text a string value.\<close>

fun toScVal :: "('sv, 'ad, 'c) stellar_sdk \<Rightarrow> ('sv, 'ad) ContractCallArg \<Rightarrow> thrown + 'sv" where
  "toScVal sdk ArgNull = Inr (sdk_void sdk)"
| "toScVal sdk (ArgAddress a) = sdk_addressToScVal sdk a"
| "toScVal sdk (ArgString s) =
    (case (case sdk_addressOf sdk s of Inl e \<Rightarrow> Inl e | Inr a \<Rightarrow> sdk_addressToScVal sdk a) of
       Inr v \<Rightarrow> Inr v | Inl e \<Rightarrow> sdk_native sdk (NativeString s))"
| "toScVal sdk (ArgNumber n) = sdk_native sdk (NativeNumber n)"
| "toScVal sdk (ArgBigint i) = sdk_native sdk (NativeI128 i)"
| "toScVal sdk (ArgBoolean b) = sdk_native sdk (NativeBool b)"
| "toScVal sdk (ArgScVal v) = Inr v"

fun map_thrown :: "('a \<Rightarrow> thrown + 'b) \<Rightarrow> 'a list \<Rightarrow> thrown + 'b list" where
  "map_thrown f [] = Inr []"
| "map_thrown f (x # xs) = (case f x of Inl e \<Rightarrow> Inl e | Inr y \<Rightarrow>
     (case map_thrown f xs of Inl e \<Rightarrow> Inl e | Inr ys \<Rightarrow> Inr (y # ys)))"

definition buildContractCallOperation ::
    "('sv, 'ad, 'c) stellar_sdk \<Rightarrow> string \<Rightarrow> string \<Rightarrow> ('sv, 'ad) ContractCallArg list option \<Rightarrow> thrown + string" where
  "buildContractCallOperation sdk contractId meth args =
    (case sdk_contract sdk contractId of Inl e \<Rightarrow> Inl e | Inr c \<Rightarrow>
      (case map_thrown (toScVal sdk) (given_or args []) of Inl e \<Rightarrow> Inl e | Inr vs \<Rightarrow> sdk_call sdk c meth vs))"

definition buildContractCallTransaction ::
    "('sv, 'ad, 'c) stellar_sdk \<Rightarrow> Account \<Rightarrow> string \<Rightarrow> string \<Rightarrow> string \<Rightarrow> ('sv, 'ad) ContractCallArg list option
      \<Rightarrow> int option \<Rightarrow> int option \<Rightarrow> thrown + Transaction" where
  "buildContractCallTransaction sdk account pass contractId meth args fee timeout =
    (case buildContractCallOperation sdk contractId meth args of
       Inl e \<Rightarrow> Inl e
     | Inr x \<Rightarrow> sdk_build sdk account (int_str (given_or fee 100000)) pass [x] None (given_or timeout 60))"

record BaseBuilder =
  bb_account :: Account
  bb_fee :: string
  bb_passphrase :: string
  bb_operations :: "string list"
  bb_timeout :: int

definition buildBaseTransaction :: "Account \<Rightarrow> string \<Rightarrow> int option \<Rightarrow> int option \<Rightarrow> BaseBuilder" where
  "buildBaseTransaction account pass fee timeout =
     \<lparr>bb_account = account, bb_fee = int_str (given_or fee 100000), bb_passphrase = pass, bb_operations = [],
      bb_timeout = given_or timeout 60\<rparr>"

section \<open>The fluent builder\<close>

record ContractCallBuilder =
  cb_contractId :: "string option"
  cb_method :: "string option"
  cb_args :: nat
  cb_fee :: "int option"
  cb_timeoutInSeconds :: "int option"

type_synonym ('sv, 'ad) arg_heap = "('sv, 'ad) ContractCallArg list list"

definition newContractCallBuilder :: "('sv, 'ad) arg_heap \<Rightarrow> ContractCallBuilder \<times> ('sv, 'ad) arg_heap" where
  "newContractCallBuilder h =
     (\<lparr>cb_contractId = None, cb_method = None, cb_args = length h, cb_fee = None, cb_timeoutInSeconds = None\<rparr>, h @ [[]])"

datatype ('sv, 'ad) builder_call =
    SetContract string
  | SetMethod string
  | SetArgs nat
  | AddArg "('sv, 'ad) ContractCallArg"
  | SetFee int
  | SetTimeout int

fun builder_step :: "ContractCallBuilder \<times> ('sv, 'ad) arg_heap \<Rightarrow> ('sv, 'ad) builder_call \<Rightarrow>
    ContractCallBuilder \<times> ('sv, 'ad) arg_heap" where
  "builder_step (b, h) (SetContract c) = (b\<lparr>cb_contractId := Some c\<rparr>, h)"
| "builder_step (b, h) (SetMethod m) = (b\<lparr>cb_method := Some m\<rparr>, h)"
| "builder_step (b, h) (SetArgs r) = (b\<lparr>cb_args := r\<rparr>, h)"
| "builder_step (b, h) (AddArg a) = (b, h[cb_args b := h ! cb_args b @ [a]])"
| "builder_step (b, h) (SetFee n) = (b\<lparr>cb_fee := Some n\<rparr>, h)"
| "builder_step (b, h) (SetTimeout n) = (b\<lparr>cb_timeoutInSeconds := Some n\<rparr>, h)"

definition js_error :: "string \<Rightarrow> thrown" where
  "js_error m = Raw (JErr ''Error'' m [])"

definition required_parts :: "ContractCallBuilder \<Rightarrow> thrown + string \<times> string" where
  "required_parts b =
    (let c = given_or (cb_contractId b) []; m = given_or (cb_method b) []
     in if c = [] then Inl (js_error ''ContractCallBuilder: contractId is required'')
        else if m = [] then Inl (js_error ''ContractCallBuilder: method is required'')
        else Inr (c, m))"

definition builder_build ::
    "('sv, 'ad, 'c) stellar_sdk \<Rightarrow> Account \<Rightarrow> string \<Rightarrow> ContractCallBuilder \<times> ('sv, 'ad) arg_heap \<Rightarrow> thrown + Transaction" where
  "builder_build sdk account pass s = (case s of (b, h) \<Rightarrow>
    (case required_parts b of Inl e \<Rightarrow> Inl e | Inr (c, m) \<Rightarrow>
      buildContractCallTransaction sdk account pass c m (Some (h ! cb_args b)) (cb_fee b) (cb_timeoutInSeconds b)))"

definition builder_buildOperation ::
    "('sv, 'ad, 'c) stellar_sdk \<Rightarrow> ContractCallBuilder \<times> ('sv, 'ad) arg_heap \<Rightarrow> thrown + string" where
  "builder_buildOperation sdk s = (case s of (b, h) \<Rightarrow>
    (case required_parts b of Inl e \<Rightarrow> Inl e | Inr (c, m) \<Rightarrow>
      buildContractCallOperation sdk c m (Some (h ! cb_args b))))"

section \<open>Fee bumps\<close>

definition bumpSignedTransactionFee ::
    "('sv, 'ad, 'c) stellar_sdk \<Rightarrow> string \<Rightarrow> int option \<Rightarrow> string \<Rightarrow> string \<Rightarrow> thrown + string" where
  "bumpSignedTransactionFee sdk signedXdr newBaseFee feeSource pass =
    (if signedXdr = [] then Inl (js_error ''signedXdr is required'')
     else case newBaseFee of
       None \<Rightarrow> Inl (js_error ''newBaseFee must be a positive integer'')
     | Some fee \<Rightarrow>
        if fee \<le> 0 then Inl (js_error ''newBaseFee must be a positive integer'')
        else if feeSource = [] then Inl (js_error ''feeSource is required'')
        else (case sdk_fromXDR sdk signedXdr pass of
                Inl e \<Rightarrow> Inl e
              | Inr FeeBumpTx \<Rightarrow> Inl (js_error
                  ''signedXdr must be a signed inner transaction, not an existing fee bump transaction'')
              | Inr (InnerTx tx) \<Rightarrow>
                  if xt_signatures tx = 0
                  then Inl (js_error ''signedXdr must include at least one signature before applying a fee bump'')
                  else sdk_feeBump sdk feeSource (int_str fee) tx pass))"

section \<open>The offline builder\<close>

record OfflineOptions =
  oo_accountId :: string
  oo_sequence :: string
  oo_networkPassphrase :: string
  oo_fee :: "int option option"
  oo_timeoutInSeconds :: "int option option"
  oo_memo :: "string option"

record OfflineBuilder =
  ob_accountId :: string
  ob_sequence :: string
  ob_networkPassphrase :: string
  ob_fee :: int
  ob_timeoutInSeconds :: int
  ob_memo :: "string option"
  ob_operations :: "string list"

record OfflineTransactionPackage =
  op_version :: int
  op_xdr :: jsv
  op_networkPassphrase :: string
  op_sourceAccountId :: string
  op_sequence :: string
  op_operationCount :: nat
  op_createdAt :: int

definition MAX_OPERATIONS_PER_TRANSACTION :: nat where
  "MAX_OPERATIONS_PER_TRANSACTION = 100"

definition OFFLINE_TRANSACTION_PACKAGE_VERSION :: int where
  "OFFLINE_TRANSACTION_PACKAGE_VERSION = 1"

definition validation_error :: "string \<Rightarrow> thrown" where
  "validation_error m = AxErr CValidationError (''OfflineTransactionBuilder'' @ m) None None None"

definition numeric_text :: "string \<Rightarrow> bool" where
  "numeric_text s \<longleftrightarrow> s \<noteq> [] \<and> list_all is_digit s"

text \<open>Whether an option was given but fails a check on integers.\<close>

definition bad_number :: "(int \<Rightarrow> bool) \<Rightarrow> int option option \<Rightarrow> bool" where
  "bad_number good x = (case x of None \<Rightarrow> False | Some None \<Rightarrow> True | Some (Some n) \<Rightarrow> \<not> good n)"

definition number_or :: "int option option \<Rightarrow> int \<Rightarrow> int" where
  "number_or x d = (case x of Some (Some n) \<Rightarrow> n | _ \<Rightarrow> d)"

definition newOfflineBuilder :: "(string \<Rightarrow> bool) \<Rightarrow> OfflineOptions \<Rightarrow> thrown + OfflineBuilder" where
  "newOfflineBuilder validKey opts =
    (if oo_accountId opts = [] \<or> \<not> validKey (oo_accountId opts)
     then Inl (validation_error '': sourceAccount.accountId must be a valid G-prefixed Stellar account ID'')
     else if \<not> numeric_text (oo_sequence opts)
     then Inl (validation_error '': sourceAccount.sequence must be a non-negative integer string'')
     else if oo_networkPassphrase opts = []
     then Inl (validation_error '': networkPassphrase is required'')
     else if bad_number (\<lambda>n. 0 < n) (oo_fee opts)
     then Inl (validation_error '': fee must be a positive integer'')
     else if bad_number (\<lambda>n. 0 \<le> n) (oo_timeoutInSeconds opts)
     then Inl (validation_error '': timeoutInSeconds must be a non-negative integer'')
     else Inr \<lparr>ob_accountId = oo_accountId opts, ob_sequence = oo_sequence opts,
       ob_networkPassphrase = oo_networkPassphrase opts, ob_fee = number_or (oo_fee opts) 100000,
       ob_timeoutInSeconds = number_or (oo_timeoutInSeconds opts) 60, ob_memo = oo_memo opts, ob_operations = []\<rparr>)"

definition offline_addOperation :: "string \<Rightarrow> OfflineBuilder \<Rightarrow> OfflineBuilder" where
  "offline_addOperation x b = b\<lparr>ob_operations := ob_operations b @ [x]\<rparr>"

definition offline_addContractCall ::
    "('sv, 'ad, 'c) stellar_sdk \<Rightarrow> string \<Rightarrow> string \<Rightarrow> ('sv, 'ad) ContractCallArg list option \<Rightarrow> OfflineBuilder
      \<Rightarrow> thrown + OfflineBuilder" where
  "offline_addContractCall sdk contractId meth args b =
    (case buildContractCallOperation sdk contractId meth args of Inl e \<Rightarrow> Inl e | Inr x \<Rightarrow> Inr (offline_addOperation x b))"

definition operationCount :: "OfflineBuilder \<Rightarrow> nat" where
  "operationCount b = length (ob_operations b)"

definition offline_validate :: "(string \<Rightarrow> bool) \<Rightarrow> Transaction \<Rightarrow> string list" where
  "offline_validate validKey tx =
    (if xt_operations tx = [] then [''Transaction must contain at least one operation''] else []) @
    (if length (xt_operations tx) > MAX_OPERATIONS_PER_TRANSACTION
     then [''Transaction exceeds the maximum of '' @ nat_str MAX_OPERATIONS_PER_TRANSACTION @ '' operations''] else []) @
    (case text_num (xt_fee tx) of
       Fin q \<Rightarrow> if q \<le> 0 then [''Transaction fee must be a positive number''] else []
     | _ \<Rightarrow> [''Transaction fee must be a positive number'']) @
    (if xt_source tx = [] \<or> \<not> validKey (xt_source tx) then [''Transaction must have a valid source account''] else []) @
    (if \<not> numeric_text (xt_sequence tx) then [''Transaction must have a valid numeric sequence number''] else []) @
    (if \<not> xt_hasTimeBounds tx then [''Transaction must have time bounds set (call setTimeout before building)''] else [])"

text \<open>An empty memo counts as none.\<close>

definition memo_of :: "('sv, 'ad, 'c) stellar_sdk \<Rightarrow> string option \<Rightarrow> thrown + string option" where
  "memo_of sdk m = (case m of None \<Rightarrow> Inr None | Some t \<Rightarrow> if t = [] then Inr None
     else (case sdk_memoText sdk t of Inl e \<Rightarrow> Inl e | Inr x \<Rightarrow> Inr (Some x)))"

definition offline_build :: "('sv, 'ad, 'c) stellar_sdk \<Rightarrow> OfflineBuilder \<Rightarrow> thrown + Transaction" where
  "offline_build sdk b =
    (if ob_operations b = []
     then Inl (validation_error '': at least one operation is required to build a transaction'')
     else if length (ob_operations b) > MAX_OPERATIONS_PER_TRANSACTION
     then Inl (validation_error ('': a transaction cannot contain more than '' @ nat_str MAX_OPERATIONS_PER_TRANSACTION @
       '' operations''))
     else case sdk_account sdk (ob_accountId b) (ob_sequence b) of Inl e \<Rightarrow> Inl e | Inr account \<Rightarrow>
       (case memo_of sdk (ob_memo b) of Inl e \<Rightarrow> Inl e | Inr memo \<Rightarrow>
         (case sdk_build sdk account (int_str (ob_fee b)) (ob_networkPassphrase b) (ob_operations b) memo
                 (ob_timeoutInSeconds b) of
            Inl e \<Rightarrow> Inl e
          | Inr tx \<Rightarrow>
              let errors = offline_validate (sdk_validKey sdk) tx
              in if errors \<noteq> []
                 then Inl (validation_error ('': built transaction failed validation: '' @ join_str ''; '' errors))
                 else Inr tx)))"

definition offline_export ::
    "('sv, 'ad, 'c) stellar_sdk \<Rightarrow> int \<Rightarrow> OfflineBuilder \<Rightarrow> Transaction \<Rightarrow> thrown + OfflineTransactionPackage" where
  "offline_export sdk now b tx =
    (let errors = offline_validate (sdk_validKey sdk) tx
     in if errors \<noteq> []
        then Inl (validation_error ('': cannot export an invalid transaction: '' @ join_str ''; '' errors))
        else Inr \<lparr>op_version = OFFLINE_TRANSACTION_PACKAGE_VERSION, op_xdr = JStr (sdk_toXDR sdk tx),
          op_networkPassphrase = ob_networkPassphrase b, op_sourceAccountId = ob_accountId b,
          op_sequence = ob_sequence b, op_operationCount = length (xt_operations tx), op_createdAt = now\<rparr>)"

definition offline_fromXDR :: "('sv, 'ad, 'c) stellar_sdk \<Rightarrow> jsv \<Rightarrow> string \<Rightarrow> thrown + Transaction" where
  "offline_fromXDR sdk x pass =
    (case assertValidXDR (Some ''OfflineTransactionBuilder.fromXDR'') MAX_XDR_STRING_LENGTH x of
       Inl e \<Rightarrow> Inl e
     | Inr _ \<Rightarrow>
        (case sdk_fromXDR sdk (js_String x) pass of
           Inl e \<Rightarrow> Inl (with_original e (newInvalidXDRError
             (''OfflineTransactionBuilder.fromXDR: failed to parse XDR: '' @ error_text e) (js_String x)))
         | Inr FeeBumpTx \<Rightarrow> Inl (validation_error
             ''.fromXDR: expected an inner transaction, received a fee bump transaction envelope'')
         | Inr (InnerTx tx) \<Rightarrow> Inr tx))"

definition offline_import :: "('sv, 'ad, 'c) stellar_sdk \<Rightarrow> OfflineTransactionPackage \<Rightarrow> thrown + Transaction" where
  "offline_import sdk pkg =
    (if op_version pkg \<noteq> OFFLINE_TRANSACTION_PACKAGE_VERSION
     then Inl (validation_error ('': unsupported offline package version \"'' @ int_str (op_version pkg) @ ''\"''))
     else offline_fromXDR sdk (op_xdr pkg) (op_networkPassphrase pkg))"

section \<open>Required signers\<close>

text \<open>An authorization entry as the code looks at it; an accessor may throw.\<close>

datatype auth_credentials = AuthSourceAccount | AuthAccount string | AuthContract | AuthUnreadable

datatype auth_item = AuthEntry auth_credentials | AuthText string | AuthOther

record auth_sdk =
  as_fromXDR :: "string \<Rightarrow> auth_credentials option"
  as_encodeKey :: "string \<Rightarrow> string option"

record sim_auth =
  sa_result :: "auth_item list option"
  sa_results :: "auth_item list option list option"

fun decodeAuthEntry :: "auth_sdk \<Rightarrow> auth_item \<Rightarrow> auth_credentials option" where
  "decodeAuthEntry sdk (AuthEntry c) = Some c"
| "decodeAuthEntry sdk (AuthText t) = as_fromXDR sdk t"
| "decodeAuthEntry sdk AuthOther = None"

definition collectAuthEntries :: "auth_sdk \<Rightarrow> sim_auth \<Rightarrow> auth_credentials list" where
  "collectAuthEntries sdk s =
    List.map_filter (decodeAuthEntry sdk) (given_or (sa_result s) []) @
    concat (map (\<lambda>r. List.map_filter (decodeAuthEntry sdk) (given_or r [])) (given_or (sa_results s) []))"

fun extractAccountSigner :: "auth_sdk \<Rightarrow> auth_credentials \<Rightarrow> string option" where
  "extractAccountSigner sdk (AuthAccount k) = as_encodeKey sdk k"
| "extractAccountSigner sdk _ = None"

text \<open>A JavaScript \<open>Set\<close> keeps the order of the first insertions.\<close>

definition signer_add :: "'a \<Rightarrow> 'a list \<Rightarrow> 'a list" where
  "signer_add x xs = (if x \<in> set xs then xs else xs @ [x])"

definition getRequiredSigners :: "auth_sdk \<Rightarrow> sim_auth \<Rightarrow> string list" where
  "getRequiredSigners sdk s =
     foldl (\<lambda>signers entry. case extractAccountSigner sdk entry of
        None \<Rightarrow> signers | Some k \<Rightarrow> if k = [] then signers else signer_add k signers) [] (collectAuthEntries sdk s)"

section \<open>Properties of the calls\<close>

lemma map_thrown_Inr: "map_thrown f xs = Inr ys \<longleftrightarrow> list_all2 (\<lambda>x y. f x = Inr y) xs ys"
  by (induction xs arbitrary: ys) (auto simp: list_all2_Cons1 split: sum.splits, metis sum.inject(2))

lemma map_thrown_Inl:
  "map_thrown f xs = Inl e \<Longrightarrow> \<exists>as x bs. xs = as @ x # bs \<and> f x = Inl e \<and> list_all (\<lambda>a. \<not> isl (f a)) as"
proof (induction xs)
  case (Cons x xs)
  show ?case
  proof (cases "f x")
    case (Inl d)
    with Cons.prems have "x # xs = [] @ x # xs \<and> f x = Inl e \<and> list_all (\<lambda>a. \<not> isl (f a)) []" by simp
    then show ?thesis by blast
  next
    case (Inr y)
    with Cons.prems have "map_thrown f xs = Inl e" by (simp split: sum.splits)
    from Cons.IH [OF this] obtain as z bs where "xs = as @ z # bs" "f z = Inl e" "list_all (\<lambda>a. \<not> isl (f a)) as" by blast
    with Inr have "x # xs = (x # as) @ z # bs \<and> f z = Inl e \<and> list_all (\<lambda>a. \<not> isl (f a)) (x # as)" by simp
    then show ?thesis by blast
  qed
qed simp

text \<open>A text argument never fails because it is no address, and a call keeps its arguments in order.\<close>

lemma text_argument: "sdk_native sdk (NativeString s) = Inr v \<Longrightarrow> \<exists>w. toScVal sdk (ArgString s) = Inr w"
  by (simp split: sum.split)

theorem call_arguments_in_order:
  "buildContractCallOperation sdk c m args = Inr x \<longleftrightarrow>
     (\<exists>k vs. sdk_contract sdk c = Inr k \<and> list_all2 (\<lambda>a v. toScVal sdk a = Inr v) (given_or args []) vs \<and>
       sdk_call sdk k m vs = Inr x)"
  by (auto simp: buildContractCallOperation_def map_thrown_Inr [symmetric] split: sum.splits)

text \<open>What a fluent builder needs, and what it then builds.\<close>

theorem builder_outcome:
  "builder_build sdk account pass (b, h) =
    (case (given_or (cb_contractId b) [], given_or (cb_method b) []) of
       ([], _) \<Rightarrow> Inl (js_error ''ContractCallBuilder: contractId is required'')
     | (_, []) \<Rightarrow> Inl (js_error ''ContractCallBuilder: method is required'')
     | (c, m) \<Rightarrow> buildContractCallTransaction sdk account pass c m (Some (h ! cb_args b)) (cb_fee b) (cb_timeoutInSeconds b))"
  by (auto simp: builder_build_def required_parts_def Let_def split: list.split)

text \<open>
  Only adding an argument changes an array, and it changes the builder's: after \<open>setArgs\<close> that is
  the caller's own array, and every other builder that was given it builds another call.
\<close>

theorem add_arg_changes_callers_array:
  assumes "r < length h" "(b', h') = foldl builder_step (b, h) [SetArgs r, AddArg a]"
  shows "h' ! r = h ! r @ [a] \<and> (\<forall>i. i \<noteq> r \<longrightarrow> h' ! i = h ! i) \<and>
    (\<forall>c. cb_args c = r \<longrightarrow> builder_buildOperation sdk (c, h') = builder_buildOperation sdk (c, h[r := h ! r @ [a]]))"
  using assms by simp

lemma other_steps_keep_arrays: "\<forall>a. c \<noteq> AddArg a \<Longrightarrow> snd (builder_step (b, h) c) = h"
  by (cases c) auto

text \<open>A bumped fee needs a signed inner transaction, a positive whole fee and a sponsor; nothing else is refused.\<close>

theorem fee_bump_exactly:
  "bumpSignedTransactionFee sdk x fee src pass = Inr y \<longleftrightarrow>
     (\<exists>n tx. x \<noteq> [] \<and> fee = Some n \<and> 0 < n \<and> src \<noteq> [] \<and> sdk_fromXDR sdk x pass = Inr (InnerTx tx) \<and>
        0 < xt_signatures tx \<and> sdk_feeBump sdk src (int_str n) tx pass = Inr y)"
  by (auto simp: bumpSignedTransactionFee_def split: option.splits sum.splits parsed_tx.splits)

section \<open>Properties of the offline builder\<close>

definition offline_ok :: "(string \<Rightarrow> bool) \<Rightarrow> OfflineBuilder \<Rightarrow> bool" where
  "offline_ok validKey b \<longleftrightarrow> ob_accountId b \<noteq> [] \<and> validKey (ob_accountId b) \<and> numeric_text (ob_sequence b) \<and>
     ob_networkPassphrase b \<noteq> [] \<and> 0 < ob_fee b \<and> 0 \<le> ob_timeoutInSeconds b"

lemma new_offline_ok: "newOfflineBuilder validKey opts = Inr b \<Longrightarrow> offline_ok validKey b \<and> ob_operations b = []"
  by (auto simp: newOfflineBuilder_def offline_ok_def bad_number_def number_or_def split: if_splits option.splits)

lemma offline_ok_add: "offline_ok validKey b \<Longrightarrow> offline_ok validKey (offline_addOperation x b)"
  by (simp add: offline_ok_def offline_addOperation_def)

text \<open>Whatever is added to a builder that the constructor accepted, it keeps what the constructor checked.\<close>

theorem offline_builder_invariant:
  assumes "newOfflineBuilder validKey opts = Inr b"
  shows "offline_ok validKey (foldl (\<lambda>b x. offline_addOperation x b) b xs) \<and>
    ob_operations (foldl (\<lambda>b x. offline_addOperation x b) b xs) = xs"
proof -
  have "offline_ok validKey c \<Longrightarrow> offline_ok validKey (foldl (\<lambda>b x. offline_addOperation x b) c xs) \<and>
    ob_operations (foldl (\<lambda>b x. offline_addOperation x b) c xs) = ob_operations c @ xs" for c
    by (induction xs arbitrary: c) (auto simp: offline_ok_add, simp add: offline_addOperation_def)
  with new_offline_ok [OF assms] show ?thesis by simp
qed

theorem validation_exactly:
  "offline_validate validKey tx = [] \<longleftrightarrow>
     1 \<le> length (xt_operations tx) \<and> length (xt_operations tx) \<le> 100 \<and>
     (\<exists>q. text_num (xt_fee tx) = Fin q \<and> 0 < q) \<and> xt_source tx \<noteq> [] \<and> validKey (xt_source tx) \<and>
     numeric_text (xt_sequence tx) \<and> xt_hasTimeBounds tx"
  by (auto simp: offline_validate_def MAX_OPERATIONS_PER_TRANSACTION_def Suc_le_eq split: jsnum.split)

lemma built_is_valid: "offline_build sdk b = Inr tx \<Longrightarrow> offline_validate (sdk_validKey sdk) tx = [] \<and>
    ob_operations b \<noteq> [] \<and> length (ob_operations b) \<le> 100"
  by (auto simp: offline_build_def Let_def MAX_OPERATIONS_PER_TRANSACTION_def split: if_splits sum.splits)

lemma valid_exports: "offline_validate (sdk_validKey sdk) tx = [] \<Longrightarrow>
    \<exists>pkg. offline_export sdk now b tx = Inr pkg \<and> op_version pkg = OFFLINE_TRANSACTION_PACKAGE_VERSION \<and>
      op_xdr pkg = JStr (sdk_toXDR sdk tx) \<and> op_networkPassphrase pkg = ob_networkPassphrase b \<and>
      op_operationCount pkg = length (xt_operations tx)"
  by (simp add: offline_export_def)

text \<open>C35. 
  Every transaction that was built can be exported, with its operations counted, where the SDK's
  \<open>toXDR\<close> gives base64 text that the SDK parses back under the builder's network. Importing the
  package gives the transaction back exactly when the text is within the limit of the SDK's own
  check, 65536 characters, and fails otherwise: the size is checked on the way in only.
\<close>

theorem offline_roundtrip:
  assumes built: "offline_build sdk b = Inr tx"
    and parses: "sdk_fromXDR sdk (sdk_toXDR sdk tx) (ob_networkPassphrase b) = Inr (InnerTx tx)"
    and base64: "sdk_toXDR sdk tx \<noteq> []" "BASE64_RE (sdk_toXDR sdk tx)"
  shows "\<exists>pkg. offline_export sdk now b tx = Inr pkg \<and>
    op_operationCount pkg = length (xt_operations tx) \<and>
    (if length (sdk_toXDR sdk tx) \<le> 65536 then offline_import sdk pkg = Inr tx
     else \<exists>e. offline_import sdk pkg = Inl e)"
proof -
  obtain pkg where pkg: "offline_export sdk now b tx = Inr pkg" "op_version pkg = OFFLINE_TRANSACTION_PACKAGE_VERSION"
      "op_xdr pkg = JStr (sdk_toXDR sdk tx)" "op_networkPassphrase pkg = ob_networkPassphrase b"
      "op_operationCount pkg = length (xt_operations tx)"
    using valid_exports built_is_valid [OF built] by blast
  have "isValidXDR MAX_XDR_STRING_LENGTH (JStr (sdk_toXDR sdk tx)) \<longleftrightarrow> length (sdk_toXDR sdk tx) \<le> 65536"
    using base64 by (simp add: isValidXDR_def MAX_XDR_STRING_LENGTH_def)
  then have "case assertValidXDR (Some ''OfflineTransactionBuilder.fromXDR'') MAX_XDR_STRING_LENGTH
        (JStr (sdk_toXDR sdk tx)) of
      Inr u \<Rightarrow> length (sdk_toXDR sdk tx) \<le> 65536 | Inl e \<Rightarrow> \<not> length (sdk_toXDR sdk tx) \<le> 65536"
    using assert_iff_valid [of MAX_XDR_STRING_LENGTH "JStr (sdk_toXDR sdk tx)"
      "Some ''OfflineTransactionBuilder.fromXDR''"]
    by (auto split: sum.splits)
  then show ?thesis using pkg parses
    by (auto simp: offline_import_def offline_fromXDR_def split: sum.splits)
qed

definition demo_sdk :: "(string, string, string) stellar_sdk" where
  "demo_sdk = \<lparr>sdk_void = ''void'', sdk_addressToScVal = (\<lambda>a. Inr a),
     sdk_addressOf = (\<lambda>s. if take 1 s = ''G'' then Inr s else Inl (js_error ''bad address'')),
     sdk_native = (\<lambda>n. Inr ''native''), sdk_contract = (\<lambda>c. Inr c), sdk_call = (\<lambda>c m vs. Inr (m @ concat vs)),
     sdk_memoText = (\<lambda>t. Inr t), sdk_account = (\<lambda>k sq. Inr \<lparr>ac_id = k, ac_sequence = 7\<rparr>),
     sdk_build = (\<lambda>a fee pass ops memo timeout. Inr \<lparr>xt_operations = ops, xt_fee = fee, xt_source = ac_id a,
       xt_sequence = nat_str 8, xt_hasTimeBounds = True, xt_memo = memo, xt_signatures = 0\<rparr>),
     sdk_toXDR = (\<lambda>tx. concat (xt_operations tx)),
     sdk_fromXDR = (\<lambda>x pass. Inr (InnerTx \<lparr>xt_operations = [x], xt_fee = ''100'', xt_source = ''G'',
       xt_sequence = nat_str 8, xt_hasTimeBounds = True, xt_memo = None, xt_signatures = 0\<rparr>)),
     sdk_feeBump = (\<lambda>src fee tx pass. Inr ''bump''), sdk_validKey = (\<lambda>k. take 1 k = ''G'')\<rparr>"

definition demo_offline :: OfflineBuilder where
  "demo_offline = \<lparr>ob_accountId = ''G'', ob_sequence = ''7'', ob_networkPassphrase = ''test'', ob_fee = 100,
     ob_timeoutInSeconds = 60, ob_memo = None, ob_operations = [''AAAAdeposit'']\<rparr>"

lemma offline_roundtrip_witness:
  "\<exists>tx pkg. offline_export demo_sdk 5 demo_offline tx = Inr pkg \<and> offline_import demo_sdk pkg = Inr tx \<and>
     xt_operations tx = [''AAAAdeposit'']"
proof -
  let ?tx = "\<lparr>xt_operations = [''AAAAdeposit''], xt_fee = ''100'', xt_source = ''G'', xt_sequence = nat_str 8,
    xt_hasTimeBounds = True, xt_memo = None, xt_signatures = 0\<rparr>"
  have fee: "int_str 100 = ''100''" "text_num ''100'' = Fin 100" "numeric_text (nat_str 8)" by code_simp+
  have "offline_validate (sdk_validKey demo_sdk) ?tx = []"
    by (simp add: validation_exactly fee demo_sdk_def)
  then have "offline_build demo_sdk demo_offline = Inr ?tx"
    by (simp add: offline_build_def demo_offline_def demo_sdk_def memo_of_def MAX_OPERATIONS_PER_TRANSACTION_def fee Let_def)
  moreover have "sdk_fromXDR demo_sdk (sdk_toXDR demo_sdk ?tx) (ob_networkPassphrase demo_offline) = Inr (InnerTx ?tx)"
    by (simp add: demo_sdk_def)
  moreover have "sdk_toXDR demo_sdk ?tx \<noteq> []" "BASE64_RE (sdk_toXDR demo_sdk ?tx)"
    "length (sdk_toXDR demo_sdk ?tx) \<le> 65536"
    by (simp_all add: demo_sdk_def BASE64_RE_def base64_char_def)
  ultimately obtain pkg where "offline_export demo_sdk 5 demo_offline ?tx = Inr pkg" "offline_import demo_sdk pkg = Inr ?tx"
    using offline_roundtrip [of demo_sdk demo_offline ?tx 5] by (auto simp del: not_le)
  moreover have "xt_operations ?tx = [''AAAAdeposit'']" by simp
  ultimately show ?thesis by blast
qed

text \<open>The size is checked on the way in only: a package with a longer text is exported and never imported.\<close>

theorem oversized_package_lost:
  assumes "offline_build sdk b = Inr tx" "MAX_XDR_STRING_LENGTH < length (sdk_toXDR sdk tx)"
  shows "\<exists>pkg e. offline_export sdk now b tx = Inr pkg \<and> offline_import sdk pkg = Inl e"
proof -
  obtain pkg where pkg: "offline_export sdk now b tx = Inr pkg" "op_version pkg = OFFLINE_TRANSACTION_PACKAGE_VERSION"
      "op_xdr pkg = JStr (sdk_toXDR sdk tx)"
    using valid_exports built_is_valid [OF assms(1)] by blast
  have "\<not> isValidXDR MAX_XDR_STRING_LENGTH (JStr (sdk_toXDR sdk tx))" using assms(2) by (simp add: isValidXDR_def)
  then obtain e where "assertValidXDR (Some ''OfflineTransactionBuilder.fromXDR'') MAX_XDR_STRING_LENGTH
      (JStr (sdk_toXDR sdk tx)) = Inl e"
    using assert_iff_valid [of MAX_XDR_STRING_LENGTH "JStr (sdk_toXDR sdk tx)"
      "Some ''OfflineTransactionBuilder.fromXDR''"]
    by (cases "assertValidXDR (Some ''OfflineTransactionBuilder.fromXDR'') MAX_XDR_STRING_LENGTH
      (JStr (sdk_toXDR sdk tx))") auto
  then show ?thesis using pkg by (simp add: offline_import_def offline_fromXDR_def)
qed

section \<open>Properties of the signers\<close>

lemma set_signer_add [simp]: "set (signer_add x xs) = insert x (set xs)"
  by (auto simp: signer_add_def)

lemma distinct_signer_add: "distinct xs \<Longrightarrow> distinct (signer_add x xs)"
  by (simp add: signer_add_def)

text \<open>
  The signers are the keys of the entries with an account's credentials that could be read, each
  once; the entries of both forms of the response count, and the source account's do not.
\<close>

theorem required_signers_exactly:
  "distinct (getRequiredSigners sdk s) \<and>
   set (getRequiredSigners sdk s) =
     {k. k \<noteq> [] \<and> (\<exists>a. as_encodeKey sdk a = Some k \<and> AuthAccount a \<in> set (collectAuthEntries sdk s))}"
proof -
  let ?step = "\<lambda>signers entry. case extractAccountSigner sdk entry of
      None \<Rightarrow> signers | Some k \<Rightarrow> if k = [] then signers else signer_add k signers"
  have "distinct acc \<Longrightarrow> distinct (foldl ?step acc es)" for acc es
    by (induction es arbitrary: acc) (auto simp: distinct_signer_add split: option.split)
  moreover have "set (foldl ?step acc es) =
      set acc \<union> {k. k \<noteq> [] \<and> (\<exists>e\<in>set es. extractAccountSigner sdk e = Some k)}" for acc es
    by (induction es arbitrary: acc) (auto split: option.split)
  moreover have "extractAccountSigner sdk e = Some k \<longleftrightarrow> (\<exists>a. e = AuthAccount a \<and> as_encodeKey sdk a = Some k)" for e k
    by (cases e) auto
  ultimately show ?thesis unfolding getRequiredSigners_def by auto
qed

end
