(* ===== verification/WebFormats.thy ===== *)
theory WebFormats
  imports Errors "HOL-Library.Word"
begin

unbundle bit_operations_syntax

text \<open>
  What the SDK exchanges with the web: the check of webhook signatures (\<open>utils/webhooks.ts\<close>) and the
  links that open a wallet (\<open>utils/sep7.ts\<close>).

  The HMAC is outside: \<open>hmac key payload\<close> are its bytes. Characters are bytes here, and the codes
  from 128 on stand for themselves, as in Latin-1; \<open>URLSearchParams\<close> writes their UTF-8 bytes.

  The lemmas show that the comparison without early exit decides equality, that the signature check
  accepts exactly the hexadecimal text of the digest in any case, that digests of one length are never
  confused, and that the links can be read back.
\<close>

section \<open>Webhook signatures\<close>

definition hex_char :: "nat \<Rightarrow> char" where
  "hex_char n = (if n < 10 then char_of (48 + n) else char_of (87 + n))"

text \<open>\<open>toString(16).padStart(2, '0')\<close> of a byte.\<close>

definition hex_byte :: "8 word \<Rightarrow> string" where
  "hex_byte b = (let n = unat b in if n < 16 then [CHR ''0'', hex_char n] else [hex_char (n div 16), hex_char (n mod 16)])"

definition bytesToHex :: "8 word list \<Rightarrow> string" where
  "bytesToHex bs = concat (map hex_byte bs)"

text \<open>The loop over two texts of one length: the exclusive-or of each pair of codes, or-ed into one number.\<close>

definition char_code :: "char \<Rightarrow> 32 word" where
  "char_code c = of_nat (of_char c)"

fun mismatch :: "32 word \<Rightarrow> string \<Rightarrow> string \<Rightarrow> 32 word" where
  "mismatch acc (c # cs) (d # ds) = mismatch (acc OR (char_code c XOR char_code d)) cs ds"
| "mismatch acc _ _ = acc"

definition signature_error :: thrown where
  "signature_error = AxErr CInvalidSignatureError ''Webhook signature verification failed'' None None None"

definition verifyWebhookSignature ::
    "(string \<Rightarrow> string \<Rightarrow> 8 word list) \<Rightarrow> string \<Rightarrow> string \<Rightarrow> string \<Rightarrow> thrown + bool" where
  "verifyWebhookSignature hmac payload header secret =
    (let computed = bytesToHex (hmac secret payload);
         provided = js_lower header
     in if length computed \<noteq> length provided then Inl signature_error
        else if mismatch 0 computed provided \<noteq> 0 then Inl signature_error
        else Inr True)"

section \<open>Links\<close>

text \<open>\<open>application/x-www-form-urlencoded\<close>: letters, digits and four marks stay, a space is a plus.\<close>

definition upper_hex :: "nat \<Rightarrow> char" where
  "upper_hex n = (if n < 10 then char_of (48 + n) else char_of (55 + n))"

definition form_safe :: "char \<Rightarrow> bool" where
  "form_safe c \<longleftrightarrow> (let n = (of_char c :: nat) in
     48 \<le> n \<and> n \<le> 57 \<or> 65 \<le> n \<and> n \<le> 90 \<or> 97 \<le> n \<and> n \<le> 122 \<or> n = 42 \<or> n = 45 \<or> n = 46 \<or> n = 95)"

definition percent :: "nat \<Rightarrow> string" where
  "percent n = [CHR ''%'', upper_hex (n div 16), upper_hex (n mod 16)]"

definition utf8 :: "char \<Rightarrow> nat list" where
  "utf8 c = (let n = of_char c in if n < 128 then [n] else [192 + n div 64, 128 + n mod 64])"

definition form_char :: "char \<Rightarrow> string" where
  "form_char c = (if form_safe c then [c] else if c = CHR '' '' then ''+'' else concat (map percent (utf8 c)))"

definition form_encode :: "string \<Rightarrow> string" where
  "form_encode s = concat (map form_char s)"

type_synonym url_params = "(string \<times> string) list"

definition params_text :: "url_params \<Rightarrow> string" where
  "params_text ps = join_str ''&'' (map (\<lambda>(k, v). form_encode k @ ''='' @ form_encode v) ps)"

text \<open>A missing and an empty option are the same.\<close>

definition nonempty :: "string option \<Rightarrow> string option" where
  "nonempty x = (case x of Some (c # s) \<Rightarrow> Some (c # s) | _ \<Rightarrow> None)"

definition transaction_params :: "string \<Rightarrow> string option \<Rightarrow> url_params" where
  "transaction_params signedXdr callbackUrl =
     [(''xdr'', signedXdr)] @
     (case nonempty callbackUrl of None \<Rightarrow> [] | Some u \<Rightarrow> [(''callback'', ''url:'' @ u)])"

definition generateTransactionURI :: "string \<Rightarrow> string option \<Rightarrow> string" where
  "generateTransactionURI signedXdr callbackUrl =
     ''web+stellar:tx?'' @ params_text (transaction_params signedXdr callbackUrl)"

definition pay_params :: "string \<Rightarrow> string \<Rightarrow> string option \<Rightarrow> string option \<Rightarrow> url_params" where
  "pay_params destination amount assetCode assetIssuer =
     [(''destination'', destination), (''amount'', amount)] @
     (case nonempty assetCode of
        None \<Rightarrow> []
      | Some code \<Rightarrow>
          if js_upper code \<noteq> ''XLM''
          then (''asset_code'', code) # (case nonempty assetIssuer of None \<Rightarrow> [] | Some i \<Rightarrow> [(''asset_issuer'', i)])
          else [])"

definition generatePayURI :: "string \<Rightarrow> string \<Rightarrow> string option \<Rightarrow> string option \<Rightarrow> string" where
  "generatePayURI destination amount assetCode assetIssuer =
     ''web+stellar:pay?'' @ params_text (pay_params destination amount assetCode assetIssuer)"

section \<open>Properties of the signature check\<close>

lemma char_code_eq: "char_code c = char_code d \<longleftrightarrow> c = d"
proof
  assume "char_code c = char_code d"
  then have "unat (char_code c) = unat (char_code d)" by simp
  moreover have "unat (char_code x) = of_char x" for x
    using nat_of_char_less_256 [of x]
    by (simp add: char_code_def unsigned_of_nat take_bit_eq_mod mod_less order_less_trans [of _ 256])
  ultimately show "c = d" by simp
qed simp

lemma xor_zero: "a XOR b = 0 \<longleftrightarrow> a = (b :: 32 word)"
proof
  assume "a XOR b = 0"
  then have "(a XOR b) XOR b = b" by simp
  then show "a = b" by (simp add: xor.assoc)
qed simp

lemma mismatch_zero:
  "length cs = length ds \<Longrightarrow> mismatch acc cs ds = 0 \<longleftrightarrow> acc = 0 \<and> cs = ds"
proof (induction acc cs ds rule: mismatch.induct)
  case (1 acc c cs d ds)
  have "acc OR (char_code c XOR char_code d) = 0 \<longleftrightarrow> acc = 0 \<and> c = d"
    using char_code_eq [of c d] by (simp add: or_eq_0_iff xor_zero)
  with 1 show ?case by auto
qed auto

lemma compare_texts:
  "(if length cs \<noteq> length ds then no else if mismatch 0 cs ds \<noteq> 0 then no else yes) = (if ds = cs then yes else no)"
  using mismatch_zero [of cs ds 0] by (cases "length cs = length ds") auto

text \<open>C34. 
  The check accepts a header exactly if, in lower case, it is the hexadecimal text of the digest:
  the comparison that looks at every character decides the same as equality.
\<close>

theorem signature_accepted_iff:
  "verifyWebhookSignature hmac payload header secret =
    (if js_lower header = bytesToHex (hmac secret payload) then Inr True else Inl signature_error)"
  by (simp only: verifyWebhookSignature_def Let_def compare_texts)

lemma of_hex_digit: "n < 16 \<Longrightarrow> of_char (hex_char n) = (if n < 10 then 48 + n else 87 + n)"
  by (auto simp add: hex_char_def of_char_of mod_less)

lemma hex_digit_inj:
  assumes "m < 16" "n < 16" "hex_char m = hex_char n"
  shows "m = n"
proof -
  have "(of_char (hex_char m) :: nat) = of_char (hex_char n)" using assms(3) by (rule arg_cong)
  then show ?thesis
    unfolding of_hex_digit [OF assms(1)] of_hex_digit [OF assms(2)]
    using assms(1,2) by (cases "m < 10"; cases "n < 10") simp_all
qed

lemma length_hex_byte [simp]: "length (hex_byte b) = 2"
  by (simp add: hex_byte_def Let_def)

lemma hex_byte_digits: "hex_byte b = [hex_char (unat b div 16), hex_char (unat b mod 16)]"
proof -
  have "char_of (48 :: nat) = CHR ''0''" by code_simp
  then show ?thesis by (simp add: hex_byte_def Let_def hex_char_def)
qed

lemma byte_bound: "unat (b :: 8 word) < 256"
  using unsigned_less [of b] by simp

lemma hex_byte_inj: "hex_byte a = hex_byte b \<longleftrightarrow> a = b"
proof
  assume eq: "hex_byte a = hex_byte b"
  have lt: "unat a div 16 < 16" "unat b div 16 < 16" using byte_bound [of a] byte_bound [of b] by simp_all
  have "unat a div 16 = unat b div 16" "unat a mod 16 = unat b mod 16"
    using eq lt hex_digit_inj [OF lt] hex_digit_inj [of "unat a mod 16" "unat b mod 16"]
    by (simp_all add: hex_byte_digits)
  then have "unat a = unat b" by (metis div_mult_mod_eq)
  then show "a = b" by (rule unsigned_word_eqI)
qed simp

text \<open>Two digests have the same text only if they are equal, so no other digest passes for it.\<close>

theorem hex_text_identifies_digest: "bytesToHex bs = bytesToHex cs \<longleftrightarrow> bs = cs"
proof (induction bs arbitrary: cs)
  case Nil
  then show ?case by (cases cs) (auto simp: bytesToHex_def hex_byte_digits)
next
  case (Cons b bs)
  then show ?case
    by (cases cs) (auto simp: bytesToHex_def hex_byte_inj append_eq_append_conv, auto simp: hex_byte_digits)
qed

lemma hex_digit_lower: "n < 16 \<Longrightarrow> lower_char (hex_char n) = hex_char n"
  by (auto simp: lower_char_def of_hex_digit Let_def)

text \<open>The digest's own text is accepted, whatever the secret and the payload.\<close>

lemma own_signature_accepted:
  "verifyWebhookSignature hmac payload (bytesToHex (hmac secret payload)) secret = Inr True"
proof -
  have "unat b div 16 < 16" for b :: "8 word" using byte_bound [of b] by simp
  then have "js_lower (bytesToHex bs) = bytesToHex bs" for bs
    by (simp add: js_lower_def bytesToHex_def map_concat comp_def hex_byte_digits hex_digit_lower cong: map_cong)
  then show ?thesis by (simp only: verifyWebhookSignature_def Let_def compare_texts) simp
qed

section \<open>Reading links back\<close>

text \<open>The reader of the format: plus and percent signs undone, then UTF-8 up to code 255.\<close>

definition hex_value :: "char \<Rightarrow> nat" where
  "hex_value c = (let n = of_char c in if n < 58 then n - 48 else n - 55)"

fun form_bytes :: "string \<Rightarrow> nat list" where
  "form_bytes [] = []"
| "form_bytes (c # s) =
    (if c = CHR ''%'' then (case s of a # b # r \<Rightarrow> (16 * hex_value a + hex_value b) # form_bytes (drop 2 s) | _ \<Rightarrow> [])
     else (if c = CHR ''+'' then 32 else of_char c) # form_bytes s)"

fun un_utf8 :: "nat list \<Rightarrow> string" where
  "un_utf8 (n # m # ns) = (if n < 128 then char_of n # un_utf8 (m # ns)
     else char_of (64 * (n - 192) + (m - 128)) # un_utf8 ns)"
| "un_utf8 [n] = [char_of n]"
| "un_utf8 [] = []"

definition form_decode :: "string \<Rightarrow> string" where
  "form_decode s = un_utf8 (form_bytes s)"

lemma upper_hex_value: "n < 16 \<Longrightarrow> hex_value (upper_hex n) = n"
  by (auto simp: hex_value_def upper_hex_def Let_def)

lemma form_bytes_percent:
  assumes "n < 256"
  shows "form_bytes (percent n @ s) = n # form_bytes s"
proof -
  have "n div 16 < 16" using assms by simp
  then show ?thesis by (simp add: percent_def upper_hex_value)
qed

lemma safe_not_special: "form_safe c \<Longrightarrow> c \<noteq> CHR ''%'' \<and> c \<noteq> CHR ''+'' \<and> c \<noteq> CHR ''&'' \<and> c \<noteq> CHR ''='' \<and> of_char c < (128 :: nat)"
  by (auto simp: form_safe_def Let_def)

lemma form_bytes_char: "form_bytes (form_char c @ s) = utf8 c @ form_bytes s"
proof (cases "form_safe c")
  case True
  then show ?thesis using safe_not_special [OF True] by (simp add: form_char_def utf8_def)
next
  case False
  have lt: "of_char c < (256 :: nat)" by simp
  show ?thesis
  proof (cases "c = CHR '' ''")
    case True
    then show ?thesis using False by (simp add: form_char_def utf8_def)
  next
    case space: False
    have hi: "192 + of_char c div 64 < (256 :: nat)" "128 + of_char c mod 64 < (256 :: nat)" using lt by linarith+
    show ?thesis
      by (cases "of_char c < (128 :: nat)")
        (simp_all add: form_char_def False space utf8_def Let_def form_bytes_percent [OF lt]
          form_bytes_percent [OF hi(1)] form_bytes_percent [OF hi(2)])
  qed
qed

lemma un_utf8_char: "un_utf8 (utf8 c @ ns) = c # un_utf8 ns"
proof (cases "of_char c < (128 :: nat)")
  case True
  then show ?thesis by (cases ns) (simp_all add: utf8_def)
next
  case False
  have "64 * (of_char c div 64) + of_char c mod 64 = (of_char c :: nat)" by simp
  then have "char_of (64 * (of_char c div 64) + of_char c mod 64 :: nat) = c" by (simp only: char_of_char)
  then show ?thesis using False by (simp add: utf8_def Let_def)
qed

theorem form_roundtrip: "form_decode (form_encode s) = s"
proof -
  have "form_bytes (concat (map form_char s)) = concat (map utf8 s)"
    by (induction s) (simp_all add: form_bytes_char)
  moreover have "un_utf8 (concat (map utf8 s)) = s" by (induction s) (simp_all add: un_utf8_char)
  ultimately show ?thesis by (simp add: form_decode_def form_encode_def)
qed

text \<open>A query is cut at its ampersands, and each part at its first equals sign.\<close>

fun cut :: "char \<Rightarrow> string \<Rightarrow> string list" where
  "cut d [] = [[]]"
| "cut d (c # s) = (if c = d then [] # cut d s else (case cut d s of p # ps \<Rightarrow> (c # p) # ps | [] \<Rightarrow> [[c]]))"

definition read_pair :: "string \<Rightarrow> string \<times> string" where
  "read_pair p = (form_decode (takeWhile (\<lambda>c. c \<noteq> CHR ''='') p), form_decode (drop 1 (dropWhile (\<lambda>c. c \<noteq> CHR ''='') p)))"

definition parse_query :: "string \<Rightarrow> url_params" where
  "parse_query q = map read_pair (cut (CHR ''&'') q)"

lemma upper_hex_plain: "n < 16 \<Longrightarrow> upper_hex n \<noteq> CHR ''&'' \<and> upper_hex n \<noteq> CHR ''=''"
proof -
  assume "n < 16"
  then have "of_char (upper_hex n) \<ge> (48 :: nat) \<and> of_char (upper_hex n) \<noteq> (61 :: nat)"
    by (auto simp: upper_hex_def)
  then show ?thesis by auto
qed

lemma form_encode_plain: "c \<in> set (form_encode s) \<Longrightarrow> c \<noteq> CHR ''&'' \<and> c \<noteq> CHR ''=''"
proof -
  assume "c \<in> set (form_encode s)"
  then obtain d where "c \<in> set (form_char d)" by (auto simp: form_encode_def)
  moreover have "192 + of_char d div 64 < (256 :: nat)" "of_char d < (256 :: nat)"
    using nat_of_char_less_256 [of d] by linarith+
  ultimately show ?thesis
    using safe_not_special [of d]
    by (auto simp: form_char_def utf8_def percent_def Let_def upper_hex_plain dest: sym split: if_splits)
qed

lemma cut_plain: "CHR ''&'' \<notin> set p \<Longrightarrow> cut (CHR ''&'') p = [p]"
  by (induction p) auto

lemma cut_append: "d \<notin> set p \<Longrightarrow> cut d (p @ d # s) = p # cut d s"
  by (induction p) auto

lemma read_pair_written: "read_pair (form_encode k @ ''='' @ form_encode v) = (k, v)"
proof -
  have plain: "\<And>c. c \<in> set (form_encode k) \<Longrightarrow> c \<noteq> CHR ''=''" using form_encode_plain by blast
  then show ?thesis
    by (simp add: read_pair_def takeWhile_append2 dropWhile_append2 form_roundtrip)
qed

lemma parse_params: "ps \<noteq> [] \<Longrightarrow> parse_query (params_text ps) = ps"
proof (induction ps rule: induct_list012)
  case (2 p)
  obtain k v where p: "p = (k, v)" by (cases p)
  have "CHR ''&'' \<notin> set (form_encode k @ ''='' @ form_encode v)" using form_encode_plain by auto
  then show ?case using read_pair_written by (simp add: p parse_query_def params_text_def join_str_def cut_plain)
next
  case (3 p q ps)
  obtain k v where p: "p = (k, v)" by (cases p)
  have "CHR ''&'' \<notin> set (form_encode k @ ''='' @ form_encode v)" using form_encode_plain by auto
  from cut_append [OF this] 3(2) read_pair_written [of k v] show ?case
    by (simp add: p parse_query_def params_text_def join_str_def)
qed simp

text \<open>
  Both links can be read back: the query after the prefix is cut and decoded to the parameters that
  were put in, whatever characters the envelope, the URL, the amount or the asset have.
\<close>

theorem links_read_back:
  "parse_query (drop 15 (generateTransactionURI signedXdr callbackUrl)) = transaction_params signedXdr callbackUrl \<and>
   parse_query (drop 16 (generatePayURI destination amount code issuer)) = pay_params destination amount code issuer"
  by (simp add: generateTransactionURI_def generatePayURI_def parse_params transaction_params_def pay_params_def)

text \<open>So a link determines the envelope and where the wallet is asked to send it.\<close>

theorem transaction_link_unambiguous:
  "generateTransactionURI x u = generateTransactionURI y v \<longleftrightarrow> x = y \<and> nonempty u = nonempty v"
proof
  assume "generateTransactionURI x u = generateTransactionURI y v"
  then have "transaction_params x u = transaction_params y v" by (metis links_read_back)
  then show "x = y \<and> nonempty u = nonempty v"
    by (auto simp: transaction_params_def split: option.splits)
qed (simp add: generateTransactionURI_def transaction_params_def)

text \<open>The native asset has no code in a link, in whatever case it is written, and then no issuer either.\<close>

lemma native_asset_omitted:
  "js_upper code = ''XLM'' \<Longrightarrow> generatePayURI d a (Some code) issuer = generatePayURI d a None None"
  by (cases code) (simp_all add: generatePayURI_def pay_params_def nonempty_def)

end
