(* ===== verification/SorobanEvents.thy ===== *)
theory SorobanEvents
  imports XdrCache Simulator
begin

text \<open>
  Parsing the events of contracts in the root package (\<open>utils/soroban.ts\<close>): values as the code
  looks at them, diagnostic events, the parser and its older form.

  A value of the Stellar SDK is what its accessors give: the name of its arm, the inner value with
  the conversions it has, and its own text. \<open>dec\<close> is what \<open>decodeXdrBase64\<close> answers for a topic or a
  payload (theory XdrCache shows that its cache does not change the answers); it may throw.

  The lemmas show that events stay in order, what the filter removes, that the parser never fails,
  what becomes of wide integers, and where the two parsers agree.
\<close>

section \<open>Values\<close>

record inner_value =
  iv_truthy :: bool
  iv_toNumber :: "int option"
  iv_text :: "string option"

record sc_view =
  sv_arm :: string
  sv_value :: inner_value
  sv_b :: jsv
  sv_text :: jsv

definition bigint_of_text :: "string \<Rightarrow> int option" where
  "bigint_of_text s = (let t = js_trim s in if t = [] then Some 0 else signed_digits t)"

definition decodeSorobanSymbol :: "sc_view \<Rightarrow> string" where
  "decodeSorobanSymbol v =
    (if sv_arm v = ''sym'' \<or> sv_arm v = ''str''
     then (if iv_truthy (sv_value v) then (case iv_text (sv_value v) of None \<Rightarrow> [] | Some t \<Rightarrow> t) else [])
     else [])"

text \<open>An integer is a number if it converts to one, else a bigint of its text; a text that is none throws.\<close>

definition decode_wide :: "inner_value \<Rightarrow> jsv" where
  "decode_wide i =
    (if \<not> iv_truthy i then JNull
     else case iv_toNumber i of
            Some n \<Rightarrow> JNum n
          | None \<Rightarrow> (case iv_text i of
              None \<Rightarrow> JNull
            | Some t \<Rightarrow> (case bigint_of_text t of Some n \<Rightarrow> JBig n | None \<Rightarrow> JNull)))"

text \<open>\<open>None\<close> is a missing value. Whatever throws inside ends as null.\<close>

definition soroban_decodeScVal :: "sc_view option \<Rightarrow> jsv" where
  "soroban_decodeScVal x =
    (case x of
       None \<Rightarrow> JNull
     | Some v \<Rightarrow>
        (let arm = sv_arm v in
         if arm = [] then JNull
         else if arm = ''sym'' \<or> arm = ''str'' then JStr (decodeSorobanSymbol v)
         else if arm = ''i128'' \<or> arm = ''i256'' then decode_wide (sv_value v)
         else if arm = ''u128'' \<or> arm = ''u256'' then decode_wide (sv_value v)
         else if arm = ''b'' then (case sv_b v of JBool b \<Rightarrow> JBool b | _ \<Rightarrow> JNull)
         else if arm = ''void'' then JNull
         else (case sv_text v of JStr t \<Rightarrow> JStr t | _ \<Rightarrow> JNull)))"

section \<open>Events\<close>

type_synonym decoder = "jsv \<Rightarrow> thrown + sc_view"

definition isDiagnosticEvent :: "decoder \<Rightarrow> jsv \<Rightarrow> bool" where
  "isDiagnosticEvent dec event =
    (if \<not> isObject event then False
     else if jget event ''type'' = JStr ''diagnostic'' then True
     else case jget event ''topic'' of
       JArr (JStr t # _) \<Rightarrow>
         (case dec (JStr t) of
            Inl e \<Rightarrow> False
          | Inr v \<Rightarrow> decodeSorobanSymbol v = ''diagnostic'' \<or> str_starts (decodeSorobanSymbol v) ''_'')
     | _ \<Rightarrow> False)"

record ParsedEvent =
  pe_topics :: "jsv list"
  pe_data :: "jsv option"
  pe_eventName :: "string option"
  pe_raw :: "jsv option"
  pe_isDiagnostic :: bool

record ParseEventsOptions =
  po_filterDiagnostic :: bool
  po_includeRaw :: bool

definition decode_or_keep :: "decoder \<Rightarrow> jsv \<Rightarrow> jsv" where
  "decode_or_keep dec t = (case dec t of Inl e \<Rightarrow> t | Inr v \<Rightarrow> soroban_decodeScVal (Some v))"

definition event_topics :: "decoder \<Rightarrow> jsv \<Rightarrow> jsv list" where
  "event_topics dec event = (case jget event ''topic'' of JArr ts \<Rightarrow> map (decode_or_keep dec) ts | _ \<Rightarrow> [])"

text \<open>\<open>None\<close> is an event that is left out: a diagnostic one, or one whose properties cannot be read.\<close>

definition parse_event :: "decoder \<Rightarrow> ParseEventsOptions \<Rightarrow> jsv \<Rightarrow> ParsedEvent option" where
  "parse_event dec opts event =
    (let diag = isDiagnosticEvent dec event in
     if po_filterDiagnostic opts \<and> diag then None
     else if is_nullish event then None
     else let topics = event_topics dec event; payload = jget event ''data'' in
       Some \<lparr>pe_topics = topics,
         pe_data = (if js_truthy payload then Some (decode_or_keep dec payload) else None),
         pe_eventName = (case topics of JStr n # _ \<Rightarrow> Some n | _ \<Rightarrow> None),
         pe_raw = (if po_includeRaw opts then Some event else None),
         pe_isDiagnostic = diag\<rparr>)"

definition parseEvents :: "decoder \<Rightarrow> jsv \<Rightarrow> ParseEventsOptions \<Rightarrow> ParsedEvent list" where
  "parseEvents dec events opts = (case events of JArr es \<Rightarrow> List.map_filter (parse_event dec opts) es | _ \<Rightarrow> [])"

text \<open>
  The older parser takes events that are objects, checks each topic first, decodes symbols only, and
  names the event after the first name, which an event without topics may bring along itself.
\<close>

definition legacy_topic :: "decoder \<Rightarrow> jsv \<Rightarrow> jsv" where
  "legacy_topic dec t =
    (case assertValidXDR (Some ''parseEvents'') MAX_XDR_STRING_LENGTH t of
       Inl e \<Rightarrow> t
     | Inr _ \<Rightarrow> (case dec t of
          Inl e \<Rightarrow> t
        | Inr v \<Rightarrow> if sv_arm v = ''sym'' then JStr (decodeSorobanSymbol v) else t))"

definition legacy_event :: "decoder \<Rightarrow> props \<Rightarrow> props" where
  "legacy_event dec event =
    (let named = (case jprop event ''topic'' of
           JArr ts \<Rightarrow> jm_set ''topicNames'' (JArr (map (legacy_topic dec) ts)) event | _ \<Rightarrow> event)
     in case jprop named ''topicNames'' of
          JArr (n # _) \<Rightarrow> jm_set ''eventName'' n named
        | JStr (c # _) \<Rightarrow> jm_set ''eventName'' (JStr [c]) named
        | _ \<Rightarrow> named)"

definition parseEventsLegacy :: "decoder \<Rightarrow> props list \<Rightarrow> props list" where
  "parseEventsLegacy dec events = map (legacy_event dec) events"

section \<open>Properties\<close>

lemma isDiagnostic_not_nullish: "isDiagnosticEvent dec event \<Longrightarrow> \<not> is_nullish event"
  by (auto simp: isDiagnosticEvent_def is_nullish_def isObject_def)

text \<open>
  The parser keeps the events that can be read, and with the filter those that are not diagnostic, in
  their order; each says whether it is diagnostic.
\<close>

theorem parsed_events_exactly:
  "parseEvents dec (JArr es) opts =
     map (\<lambda>e. the (parse_event dec opts e))
       (filter (\<lambda>e. \<not> is_nullish e \<and> \<not> (po_filterDiagnostic opts \<and> isDiagnosticEvent dec e)) es) \<and>
   map pe_isDiagnostic (parseEvents dec (JArr es) opts) =
     map (isDiagnosticEvent dec)
       (filter (\<lambda>e. \<not> is_nullish e \<and> \<not> (po_filterDiagnostic opts \<and> isDiagnosticEvent dec e)) es)"
proof (induction es)
  case Nil
  then show ?case by (simp add: parseEvents_def map_filter_simps)
next
  case (Cons e es)
  have "parse_event dec opts e = None \<longleftrightarrow> is_nullish e \<or> (po_filterDiagnostic opts \<and> isDiagnosticEvent dec e)"
    "\<And>p. parse_event dec opts e = Some p \<Longrightarrow> pe_isDiagnostic p = isDiagnosticEvent dec e"
    by (auto simp: parse_event_def Let_def split: if_splits)
  then show ?case
    using Cons by (cases "parse_event dec opts e") (auto simp: parseEvents_def map_filter_simps)
qed

lemma filtered_has_no_diagnostics:
  "po_filterDiagnostic opts \<Longrightarrow> True \<notin> set (map pe_isDiagnostic (parseEvents dec (JArr es) opts))"
  unfolding conjunct2 [OF parsed_events_exactly] by auto

text \<open>
  The halves of a 128-bit value are an object without a conversion to a number, whose text is that of
  every object: such a value is always parsed as null, whatever integer it holds.
\<close>

theorem wide_integers_are_lost:
  assumes "sv_arm v \<in> {''i128'', ''i256'', ''u128'', ''u256''}"
    and "iv_toNumber (sv_value v) = None" "iv_text (sv_value v) = Some (js_String (JObj parts))"
  shows "soroban_decodeScVal (Some v) = JNull"
proof -
  have "bigint_of_text ''[object Object]'' = None" by code_simp
  then show ?thesis using assms by (auto simp: soroban_decodeScVal_def decode_wide_def)
qed

text \<open>On a symbol that decodes, the two parsers give the same name.\<close>

theorem parsers_agree_on_symbols:
  assumes "isValidXDR MAX_XDR_STRING_LENGTH t" "dec t = Inr v" "sv_arm v = ''sym''"
  shows "legacy_topic dec t = decode_or_keep dec t"
proof -
  obtain u where "assertValidXDR (Some ''parseEvents'') MAX_XDR_STRING_LENGTH t = Inr u"
    using assert_iff_valid [of MAX_XDR_STRING_LENGTH t "Some ''parseEvents''"] assms(1)
    by (cases "assertValidXDR (Some ''parseEvents'') MAX_XDR_STRING_LENGTH t") auto
  with assms(2,3) show ?thesis
    by (simp add: legacy_topic_def decode_or_keep_def soroban_decodeScVal_def Let_def)
qed

text \<open>The older parser keeps every event and every property that it does not name.\<close>

lemma legacy_keeps:
  "k \<notin> {''topicNames'', ''eventName''} \<Longrightarrow> jprop (legacy_event dec event) k = jprop event k"
  by (auto simp: legacy_event_def Let_def jprop_def split: jsv.split list.split)

end
