(* ===== verification/ReactVault.thy ===== *)
theory ReactVault
  imports Errors ClientOps
begin

text \<open>
  The hook \<open>useVault\<close> of \<open>packages/react\<close> (\<open>useVault.ts\<close>) and the progress display
  (\<open>TransactionStepper.tsx\<close>).

  A call of \<open>deposit\<close> or \<open>withdraw\<close> is a run: it waits for the contract's action, then for answers of
  the client and for timers. Calls may overlap, so the hook holds a table of runs by number, and an
  event settles what one of them waits for. The state is what React renders after an event, since the
  updates between two waits are applied together. Setters of an unmounted component are not modelled.

  The lemmas show that without overlaps and resets the state describes the run, that a run ends by its
  deadline, and what goes wrong with overlaps, with resets and in the display.
\<close>

section \<open>The hook\<close>

datatype TxStep = StepIdle | StepSigned | StepSubmitted | StepConfirmed

record UseVaultState =
  uv_step :: TxStep
  uv_isLoading :: bool
  uv_error :: "thrown option"
  uv_txHash :: "jsv option"

datatype run_phase =
    Acting
  | Asking jsv int
  | Sleeping jsv int

record vault_hook =
  hk_state :: UseVaultState
  hk_runs :: "(nat, run_phase) jsmap"
  hk_next :: nat
  hk_successes :: "jsv list"

definition POLL_TIMEOUT_MS :: int where
  "POLL_TIMEOUT_MS = 60000"

definition POLL_INTERVAL_MS :: int where
  "POLL_INTERVAL_MS = 2000"

definition idle_state :: UseVaultState where
  "idle_state = \<lparr>uv_step = StepIdle, uv_isLoading = False, uv_error = None, uv_txHash = None\<rparr>"

definition new_hook :: vault_hook where
  "new_hook = \<lparr>hk_state = idle_state, hk_runs = [], hk_next = 0, hk_successes = []\<rparr>"

definition set_state :: "(UseVaultState \<Rightarrow> UseVaultState) \<Rightarrow> vault_hook \<Rightarrow> vault_hook" where
  "set_state f k = k\<lparr>hk_state := f (hk_state k)\<rparr>"

definition set_phase :: "nat \<Rightarrow> run_phase \<Rightarrow> vault_hook \<Rightarrow> vault_hook" where
  "set_phase i p k = k\<lparr>hk_runs := jm_set i p (hk_runs k)\<rparr>"

text \<open>The \<open>catch\<close> and the \<open>finally\<close> block.\<close>

definition run_fails :: "nat \<Rightarrow> thrown \<Rightarrow> vault_hook \<Rightarrow> vault_hook" where
  "run_fails i e k = set_state (\<lambda>s. s\<lparr>uv_error := Some e, uv_step := StepIdle, uv_isLoading := False\<rparr>)
     (k\<lparr>hk_runs := jm_delete i (hk_runs k)\<rparr>)"

definition run_ends :: "nat \<Rightarrow> vault_hook \<Rightarrow> vault_hook" where
  "run_ends i k = set_state (\<lambda>s. s\<lparr>uv_isLoading := False\<rparr>) (k\<lparr>hk_runs := jm_delete i (hk_runs k)\<rparr>)"

definition start_run :: "vault_hook \<Rightarrow> vault_hook" where
  "start_run k = set_phase (hk_next k) Acting
     (k\<lparr>hk_state := \<lparr>uv_step = StepIdle, uv_isLoading = True, uv_error = None, uv_txHash = None\<rparr>,
        hk_next := Suc (hk_next k)\<rparr>)"

text \<open>One turn of the polling loop: ask the client again, or give up at the deadline.\<close>

definition poll_turn :: "nat \<Rightarrow> int \<Rightarrow> jsv \<Rightarrow> int \<Rightarrow> vault_hook \<Rightarrow> vault_hook" where
  "poll_turn i now hash deadline k =
    (if now < deadline then set_phase i (Asking hash deadline) k
     else run_fails i (AxErr CTransactionTimeoutError (js_String hash) None None None) k)"

definition action_done :: "nat \<Rightarrow> int \<Rightarrow> thrown + jsv \<Rightarrow> vault_hook \<Rightarrow> vault_hook" where
  "action_done i now r k =
    (case r of
       Inl e \<Rightarrow> run_fails i e k
     | Inr result \<Rightarrow>
        let hash = coalesce (coalesce (jget result ''hash'') (jget result ''id'')) (JStr (js_String result))
        in poll_turn i now hash (now + POLL_TIMEOUT_MS)
             (set_state (\<lambda>s. s\<lparr>uv_txHash := Some hash, uv_step := StepSubmitted\<rparr>) k))"

text \<open>\<open>onSuccess\<close> may throw, which counts as a failure of the run.\<close>

definition answer_received :: "(jsv \<Rightarrow> thrown option) \<Rightarrow> nat \<Rightarrow> jsv \<Rightarrow> int \<Rightarrow> thrown + jsv \<Rightarrow> vault_hook \<Rightarrow> vault_hook" where
  "answer_received onSuccess i hash deadline r k =
    (case r of
       Inl e \<Rightarrow> run_fails i e k
     | Inr res \<Rightarrow>
        let status = coalesce (jget res ''status'') (JStr ''NOT_FOUND'')
        in if status = JStr ''SUCCESS'' then
             (let k' = (set_state (\<lambda>s. s\<lparr>uv_step := StepConfirmed\<rparr>) k)\<lparr>hk_successes := hk_successes k @ [hash]\<rparr>
              in case onSuccess hash of None \<Rightarrow> run_ends i k' | Some e \<Rightarrow> run_fails i e k')
           else if status = JStr ''FAILED'' then
             run_fails i (Raw (JErr ''Error'' (''Transaction '' @ js_String hash @ '' failed on-chain.'') [])) k
           else set_phase i (Sleeping hash deadline) k)"

datatype hook_event =
    ExecuteCall
  | ActionDone nat int "thrown + jsv"
  | AnswerReceived nat "thrown + jsv"
  | TimerFired nat int
  | ResetCall

fun hook_step :: "(jsv \<Rightarrow> thrown option) \<Rightarrow> vault_hook \<Rightarrow> hook_event \<Rightarrow> vault_hook" where
  "hook_step onSuccess k ExecuteCall = start_run k"
| "hook_step onSuccess k (ActionDone i now r) =
    (case jm_get (hk_runs k) i of Some Acting \<Rightarrow> action_done i now r k | _ \<Rightarrow> k)"
| "hook_step onSuccess k (AnswerReceived i r) =
    (case jm_get (hk_runs k) i of Some (Asking h d) \<Rightarrow> answer_received onSuccess i h d r k | _ \<Rightarrow> k)"
| "hook_step onSuccess k (TimerFired i now) =
    (case jm_get (hk_runs k) i of Some (Sleeping h d) \<Rightarrow> poll_turn i now h d k | _ \<Rightarrow> k)"
| "hook_step onSuccess k ResetCall = set_state (\<lambda>_. idle_state) k"

section \<open>The display\<close>

datatype mark = Done | Hourglass | Circle

record step_item =
  si_label :: string
  si_mark :: mark
  si_current :: bool
  si_faded :: bool
  si_arrow :: bool

fun step_order :: "TxStep \<Rightarrow> nat" where
  "step_order StepIdle = 0"
| "step_order StepSigned = 1"
| "step_order StepSubmitted = 2"
| "step_order StepConfirmed = 3"

definition STEPS :: "(TxStep \<times> string) list" where
  "STEPS = [(StepSigned, ''Signed''), (StepSubmitted, ''Submitted to Network''), (StepConfirmed, ''Confirmed in Ledger'')]"

definition step_item_of :: "(TxStep \<Rightarrow> string option) \<Rightarrow> TxStep \<Rightarrow> nat \<Rightarrow> step_item" where
  "step_item_of labels step i =
    (let (key, label) = STEPS ! i; stepIndex = i + 1; current = step_order step in
     \<lparr>si_label = given_or (labels key) label,
      si_mark = (if current > stepIndex then Done else if current = stepIndex then Hourglass else Circle),
      si_current = (current = stepIndex), si_faded = (stepIndex > current), si_arrow = (i < length STEPS - 1)\<rparr>)"

definition TransactionStepper :: "TxStep \<Rightarrow> (TxStep \<Rightarrow> string option) \<Rightarrow> step_item list option" where
  "TransactionStepper step labels =
    (if step = StepIdle then None else Some (map (step_item_of labels step) [0..<length STEPS]))"

section \<open>One run at a time\<close>

text \<open>An event a user interface makes when it starts a call, or resets, only while no run is under way.\<close>

fun well_timed :: "vault_hook \<Rightarrow> hook_event \<Rightarrow> bool" where
  "well_timed k ExecuteCall \<longleftrightarrow> hk_runs k = []"
| "well_timed k ResetCall \<longleftrightarrow> hk_runs k = []"
| "well_timed k _ \<longleftrightarrow> True"

fun all_well_timed :: "(jsv \<Rightarrow> thrown option) \<Rightarrow> vault_hook \<Rightarrow> hook_event list \<Rightarrow> bool" where
  "all_well_timed f k [] \<longleftrightarrow> True"
| "all_well_timed f k (e # es) \<longleftrightarrow> well_timed k e \<and> all_well_timed f (hook_step f k e) es"

text \<open>What the state says of the run: none, acting, or polling for a transaction.\<close>

definition describes :: "vault_hook \<Rightarrow> bool" where
  "describes k \<longleftrightarrow>
    (case hk_runs k of
       [] \<Rightarrow> \<not> uv_isLoading (hk_state k) \<and>
         (uv_step (hk_state k) = StepIdle \<or>
          uv_step (hk_state k) = StepConfirmed \<and> uv_error (hk_state k) = None \<and>
          (\<exists>h. uv_txHash (hk_state k) = Some h \<and> h \<in> set (hk_successes k)))
     | [(i, Acting)] \<Rightarrow> hk_state k = \<lparr>uv_step = StepIdle, uv_isLoading = True, uv_error = None, uv_txHash = None\<rparr>
     | [(i, Asking h d)] \<Rightarrow> hk_state k = \<lparr>uv_step = StepSubmitted, uv_isLoading = True, uv_error = None, uv_txHash = Some h\<rparr>
     | [(i, Sleeping h d)] \<Rightarrow> hk_state k = \<lparr>uv_step = StepSubmitted, uv_isLoading = True, uv_error = None, uv_txHash = Some h\<rparr>
     | _ \<Rightarrow> False)"

lemmas hook_defs = start_run_def run_fails_def run_ends_def poll_turn_def action_done_def answer_received_def
  set_state_def set_phase_def idle_state_def

lemma describes_step: "describes k \<Longrightarrow> well_timed k e \<Longrightarrow> describes (hook_step f k e)"
proof -
  assume d: "describes k" and w: "well_timed k e"
  consider (none) "hk_runs k = []" | (act) i where "hk_runs k = [(i, Acting)]"
    | (ask) i h dl where "hk_runs k = [(i, Asking h dl)]" | (sleep) i h dl where "hk_runs k = [(i, Sleeping h dl)]"
    using d by (auto simp: describes_def split: list.splits run_phase.splits)
  then show ?thesis
  proof cases
    case none
    then show ?thesis using d w by (cases e) (auto simp: describes_def hook_defs)
  next
    case act
    then show ?thesis using d w
      by (cases e) (auto simp: describes_def hook_defs Let_def split: sum.split if_splits)
  next
    case ask
    then show ?thesis using d w
      by (cases e) (auto simp: describes_def hook_defs Let_def split: sum.split option.split if_splits)
  next
    case sleep
    then show ?thesis using d w by (cases e) (auto simp: describes_def hook_defs split: if_splits)
  qed
qed

text \<open>
  While calls and resets wait for the run under way, the state describes it: loading exactly during a
  run, submitted with its hash while it polls, and afterwards either idle or confirmed with the hash
  that the success callback was given, and no error.
\<close>

theorem hook_describes_run:
  assumes "all_well_timed f new_hook es"
  shows "describes (foldl (hook_step f) new_hook es)"
proof -
  have "describes k \<Longrightarrow> all_well_timed f k es \<Longrightarrow> describes (foldl (hook_step f) k es)" for k
    by (induction es arbitrary: k) (auto simp: describes_step)
  moreover have "describes new_hook" by (simp add: describes_def new_hook_def idle_state_def)
  ultimately show ?thesis using assms by blast
qed

section \<open>Every run ends\<close>

text \<open>The rounds of the loop: an answer, and a timer that fires at least the interval after the last one.\<close>

definition poll_rounds :: "nat \<Rightarrow> (nat \<Rightarrow> thrown + jsv) \<Rightarrow> (nat \<Rightarrow> int) \<Rightarrow> nat \<Rightarrow> hook_event list" where
  "poll_rounds i answer clock n =
     concat (map (\<lambda>j. [AnswerReceived i (answer j), TimerFired i (clock (Suc j))]) [0..<n])"

lemma poll_rounds_Suc: "foldl (hook_step f) k (poll_rounds i answer clock (Suc n)) =
    hook_step f (hook_step f (foldl (hook_step f) k (poll_rounds i answer clock n)) (AnswerReceived i (answer n)))
      (TimerFired i (clock (Suc n)))"
  by (simp add: poll_rounds_def)

lemma runs_simps [simp]:
  "hk_runs (set_phase i p k) = jm_set i p (hk_runs k)"
  "hk_runs (set_state g k) = hk_runs k"
  "hk_runs (run_fails i e k) = jm_delete i (hk_runs k)"
  "hk_runs (run_ends i k) = jm_delete i (hk_runs k)"
  by (simp_all add: set_phase_def set_state_def run_fails_def run_ends_def)

lemma one_round:
  assumes "jm_get (hk_runs k) i = Some (Asking h d)"
  shows "jm_get (hk_runs (hook_step f (hook_step f k (AnswerReceived i r)) (TimerFired i now))) i = None \<or>
    jm_get (hk_runs (hook_step f (hook_step f k (AnswerReceived i r)) (TimerFired i now))) i = Some (Asking h d) \<and> now < d"
  using assms
  by (cases r) (auto simp: answer_received_def poll_turn_def Let_def split: option.split)

text \<open>
  Whatever the client answers, a run that polls has ended after at most thirty rounds: it was
  confirmed, failed, or timed out.
\<close>

theorem run_ends_in_thirty_rounds:
  assumes "jm_get (hk_runs k) i = Some (Asking h (clock 0 + POLL_TIMEOUT_MS))"
    and "\<And>j. clock j + POLL_INTERVAL_MS \<le> clock (Suc j)"
  shows "jm_get (hk_runs (foldl (hook_step f) k (poll_rounds i answer clock 30))) i = None"
proof -
  let ?k = "\<lambda>n. foldl (hook_step f) k (poll_rounds i answer clock n)"
  let ?d = "clock 0 + POLL_TIMEOUT_MS"
  have progress: "clock 0 + 2000 * int n \<le> clock n" for n
  proof (induction n)
    case (Suc n)
    then show ?case using assms(2) [of n] by (simp add: POLL_INTERVAL_MS_def)
  qed simp
  have "jm_get (hk_runs (?k n)) i = None \<or>
      jm_get (hk_runs (?k n)) i = Some (Asking h ?d) \<and> (n = 0 \<or> clock n < ?d)" for n
  proof (induction n)
    case 0
    then show ?case using assms(1) by (simp add: poll_rounds_def)
  next
    case (Suc n)
    from Suc.IH show ?case
    proof
      assume "jm_get (hk_runs (?k n)) i = None"
      then have "?k (Suc n) = ?k n" unfolding poll_rounds_Suc by simp
      with Suc.IH show ?thesis using \<open>jm_get (hk_runs (?k n)) i = None\<close> by argo
    next
      assume "jm_get (hk_runs (?k n)) i = Some (Asking h ?d) \<and> (n = 0 \<or> clock n < ?d)"
      then have "jm_get (hk_runs (?k n)) i = Some (Asking h ?d)" by (rule conjunct1)
      from one_round [OF this, of f "answer n" "clock (Suc n)"] show ?thesis unfolding poll_rounds_Suc by argo
    qed
  qed
  from this [of 30] progress [of 30] show ?thesis by (auto simp: POLL_TIMEOUT_MS_def)
qed

text \<open>A run of a whole call, with a client that never finds the transaction.\<close>

lemma run_ends_in_thirty_rounds_witness:
  "jm_get (hk_runs (foldl (hook_step (\<lambda>_. None))
      (foldl (hook_step (\<lambda>_. None)) new_hook [ExecuteCall, ActionDone 0 5 (Inr (JStr ''abc''))])
      (poll_rounds 0 (\<lambda>_. Inr (JObj [(''status'', JStr ''NOT_FOUND'')])) (\<lambda>j. 5 + 2000 * int j) 30))) 0 = None"
  by (rule run_ends_in_thirty_rounds [where h = "JStr ''abc''"])
    (simp_all add: new_hook_def start_run_def action_done_def poll_turn_def POLL_TIMEOUT_MS_def POLL_INTERVAL_MS_def
      coalesce_def is_nullish_def jget_def Let_def set_state_def set_phase_def)

section \<open>Where the state misleads\<close>

text \<open>
  The step \<open>signed\<close> is never rendered: it is set after the action, which signs and submits, together
  with \<open>submitted\<close>.
\<close>

theorem signed_is_never_shown: "uv_step (hk_state (foldl (hook_step f) new_hook es)) \<noteq> StepSigned"
proof -
  have "uv_step (hk_state k) \<noteq> StepSigned \<Longrightarrow> uv_step (hk_state (hook_step f k e)) \<noteq> StepSigned" for k e
    by (cases e) (auto simp: hook_defs Let_def split: option.split run_phase.split sum.split)
  then have "uv_step (hk_state k) \<noteq> StepSigned \<Longrightarrow> uv_step (hk_state (foldl (hook_step f) k es)) \<noteq> StepSigned" for k
    by (induction es arbitrary: k) simp_all
  then show ?thesis by (simp add: new_hook_def idle_state_def)
qed

text \<open>A reset does not end the run: its success is shown afterwards, without a hash.\<close>

lemma reset_does_not_cancel:
  "\<exists>es. hk_state (foldl (hook_step (\<lambda>_. None)) new_hook (es @ [ResetCall])) = idle_state \<and>
     (\<exists>e. hk_state (foldl (hook_step (\<lambda>_. None)) new_hook (es @ [ResetCall, e])) =
       \<lparr>uv_step = StepConfirmed, uv_isLoading = False, uv_error = None, uv_txHash = None\<rparr>)"
proof (intro exI conjI)
  let ?es = "[ExecuteCall, ActionDone 0 5 (Inr (JStr ''abc''))]"
  show "hk_state (foldl (hook_step (\<lambda>_. None)) new_hook (?es @ [ResetCall])) = idle_state"
    by (simp add: set_state_def)
  show "hk_state (foldl (hook_step (\<lambda>_. None)) new_hook
      (?es @ [ResetCall, AnswerReceived 0 (Inr (JObj [(''status'', JStr ''SUCCESS'')]))])) =
    \<lparr>uv_step = StepConfirmed, uv_isLoading = False, uv_error = None, uv_txHash = None\<rparr>"
    by (simp add: hook_defs new_hook_def POLL_TIMEOUT_MS_def coalesce_def is_nullish_def jget_def jprop_def Let_def)
qed

text \<open>With two calls at once, the end of the first shows the second as not loading.\<close>

lemma overlap_hides_run:
  "\<exists>es k. k = foldl (hook_step (\<lambda>_. None)) new_hook es \<and> hk_runs k \<noteq> [] \<and> \<not> uv_isLoading (hk_state k)"
proof (intro exI conjI)
  let ?k = "foldl (hook_step (\<lambda>_. None)) new_hook [ExecuteCall, ExecuteCall, ActionDone 0 5 (Inl (Raw JNull))]"
  show "?k = ?k" by (rule refl)
  show "hk_runs ?k \<noteq> []" "\<not> uv_isLoading (hk_state ?k)" by (simp_all add: hook_defs new_hook_def)
qed

text \<open>
  The display has one current step for every step but idle, all steps before it are done and all
  after it faded; so the last one is never marked as done, and a confirmed transaction keeps its
  hourglass.
\<close>

theorem stepper_shows_progress:
  "case TransactionStepper step labels of
     None \<Rightarrow> step = StepIdle
   | Some items \<Rightarrow> step \<noteq> StepIdle \<and> length items = 3 \<and>
       map si_mark items = replicate (step_order step - 1) Done @ [Hourglass] @ replicate (3 - step_order step) Circle \<and>
       map si_current items = map (\<lambda>i. i = step_order step) [1, 2, 3] \<and>
       si_mark (last items) \<noteq> Done"
  by (cases step) (simp_all add: TransactionStepper_def step_item_of_def STEPS_def Let_def upt_rec numeral_eq_Suc)

end
