(* ===== verification/ReactWallet.thy ===== *)
theory ReactWallet
  imports Wallets TxHistory
begin

text \<open>
  The wallet of the React provider: the Freighter connector of \<open>packages/react\<close>
  (\<open>freighterWalletConnector.ts\<close>) and the provider's wallet state (\<open>index.ts\<close>).

  The extension's module is a record of fields, each absent, something that is no function, or a
  function with its answer. Answers are untyped objects, whose flags are read by their truth; the
  extension never answers null. The provider's asynchronous operations settle as events in any
  order; mounting, listeners and the watcher's own timer are React's and the extension's.

  The lemmas show when an address is given, that failures of loading make a wallet unavailable and
  other failures are passed on, and that a state which says connected has a key.
\<close>

section \<open>The extension's module\<close>

datatype 'a field = Absent | NoFunction | Fn 'a

record FreighterModule =
  fm_isConnected :: "(thrown + jsv) field"
  fm_isAllowed :: "(thrown + jsv) field"
  fm_requestAccess :: "(thrown + jsv) field"
  fm_getAddress :: "(thrown + jsv) field"
  fm_getPublicKey :: "(thrown + string) field"
  fm_signTransaction :: "(string \<Rightarrow> string \<Rightarrow> thrown + jsv) field"

definition over :: "'a field \<Rightarrow> 'a field \<Rightarrow> 'a field" where
  "over a b = (case b of Absent \<Rightarrow> a | _ \<Rightarrow> b)"

definition spread_modules :: "FreighterModule \<Rightarrow> FreighterModule \<Rightarrow> FreighterModule" where
  "spread_modules a b =
     \<lparr>fm_isConnected = over (fm_isConnected a) (fm_isConnected b), fm_isAllowed = over (fm_isAllowed a) (fm_isAllowed b),
      fm_requestAccess = over (fm_requestAccess a) (fm_requestAccess b),
      fm_getAddress = over (fm_getAddress a) (fm_getAddress b),
      fm_getPublicKey = over (fm_getPublicKey a) (fm_getPublicKey b),
      fm_signTransaction = over (fm_signTransaction a) (fm_signTransaction b)\<rparr>"

definition empty_module :: FreighterModule where
  "empty_module = \<lparr>fm_isConnected = Absent, fm_isAllowed = Absent, fm_requestAccess = Absent,
     fm_getAddress = Absent, fm_getPublicKey = Absent, fm_signTransaction = Absent\<rparr>"

text \<open>What importing gives: nothing when it fails; the module and its default export, where they are objects.\<close>

record react_browser =
  rb_window :: bool
  rb_import :: "(FreighterModule option \<times> FreighterModule option) option"

definition is_fn :: "'a field \<Rightarrow> bool" where
  "is_fn x = (case x of Fn f \<Rightarrow> True | _ \<Rightarrow> False)"

definition or_empty :: "FreighterModule option \<Rightarrow> FreighterModule" where
  "or_empty x = (case x of None \<Rightarrow> empty_module | Some y \<Rightarrow> y)"

definition loadFreighterModule :: "react_browser \<Rightarrow> thrown + FreighterModule" where
  "loadFreighterModule b =
    (if \<not> rb_window b then Inl (not_installed ''Freighter requires a browser environment.'')
     else case rb_import b of
       None \<Rightarrow> Inl (not_installed ''Freighter extension is not installed or could not be loaded.'')
     | Some (whole, dflt) \<Rightarrow>
        (let defaultRecord = (if whole = None then None else dflt);
             m = spread_modules (or_empty defaultRecord) (or_empty whole)
         in if \<not> is_fn (fm_requestAccess m) \<and> \<not> is_fn (fm_getAddress m) \<and> \<not> is_fn (fm_getPublicKey m)
            then Inl (not_installed
              ''Freighter extension is not detected. Please install the Freighter browser extension.'')
            else Inr m))"

definition walletErrorMessage :: "jsv \<Rightarrow> string \<Rightarrow> string" where
  "walletErrorMessage e fallback =
    (case e of
       JStr s \<Rightarrow> if nonblank s then s else fallback
     | _ \<Rightarrow> (case jget e ''message'' of JStr m \<Rightarrow> if nonblank m then m else fallback | _ \<Rightarrow> fallback))"

definition freighter_error :: "jsv \<Rightarrow> string \<Rightarrow> thrown" where
  "freighter_error e fallback = Raw (JErr ''Error'' (walletErrorMessage e fallback) [])"

definition readAddress :: "jsv \<Rightarrow> string option" where
  "readAddress r = (case jget r ''address'' of
     JStr a \<Rightarrow> if js_trim a \<noteq> [] then Some (js_trim a) else None | _ \<Rightarrow> None)"

definition address_answer :: "string \<Rightarrow> thrown + jsv \<Rightarrow> thrown + string option" where
  "address_answer fallback r =
    (case r of
       Inl e \<Rightarrow> Inl e
     | Inr res \<Rightarrow> if js_truthy (jget res ''error'') then Inl (freighter_error (jget res ''error'') fallback)
                  else Inr (readAddress res))"

definition getFreighterAddress :: "react_browser \<Rightarrow> bool \<Rightarrow> thrown + string option" where
  "getFreighterAddress b requireAccess =
    (case loadFreighterModule b of
       Inl e \<Rightarrow> Inl e
     | Inr m \<Rightarrow>
        (case (if requireAccess then fm_requestAccess m else Absent) of
           Fn r \<Rightarrow> address_answer ''Freighter access request failed.'' r
         | _ \<Rightarrow>
            (case fm_getAddress m of
               Fn r \<Rightarrow> address_answer ''Failed to read Freighter address.'' r
             | _ \<Rightarrow>
                (case fm_getPublicKey m of
                   Fn (Inr key) \<Rightarrow> Inr (if js_trim key \<noteq> [] then Some key else None)
                 | Fn (Inl e) \<Rightarrow> if requireAccess then Inl e else Inr None
                 | _ \<Rightarrow> Inr None))))"

record FreighterAvailability =
  av_isAvailable :: bool
  av_isAllowed :: bool

definition available :: "bool \<Rightarrow> bool \<Rightarrow> FreighterAvailability" where
  "available a b = \<lparr>av_isAvailable = a, av_isAllowed = b\<rparr>"

definition read_allowed :: "FreighterModule \<Rightarrow> thrown + FreighterAvailability" where
  "read_allowed m =
    (case fm_isAllowed m of
       Fn (Inl e) \<Rightarrow> Inl e
     | Fn (Inr r) \<Rightarrow> if js_truthy (jget r ''error'')
         then Inl (freighter_error (jget r ''error'') ''Failed to read Freighter authorization state.'')
         else Inr (available True (js_truthy (jget r ''isAllowed'')))
     | _ \<Rightarrow> Inr (available True False))"

definition availability_try :: "react_browser \<Rightarrow> thrown + FreighterAvailability" where
  "availability_try b =
    (case loadFreighterModule b of
       Inl e \<Rightarrow> Inl e
     | Inr m \<Rightarrow>
        (case fm_isConnected m of
           Fn (Inl e) \<Rightarrow> Inl e
         | Fn (Inr r) \<Rightarrow> if js_truthy (jget r ''error'')
             then Inl (freighter_error (jget r ''error'') ''Failed to read Freighter connection state.'')
             else if \<not> js_truthy (jget r ''isConnected'') then Inr (available False False)
             else read_allowed m
         | _ \<Rightarrow> read_allowed m))"

definition is_not_installed :: "thrown \<Rightarrow> bool" where
  "is_not_installed e = (case e of AxErr c m st rid orig \<Rightarrow> c = CWalletNotInstalledError | Raw v \<Rightarrow> False)"

definition getFreighterAvailability :: "react_browser \<Rightarrow> thrown + FreighterAvailability" where
  "getFreighterAvailability b =
    (case availability_try b of
       Inl e \<Rightarrow> if is_not_installed e then Inr (available False False) else Inl e
     | Inr a \<Rightarrow> Inr a)"

section \<open>The connector\<close>

definition freighter_getPublicKey :: "react_browser \<Rightarrow> thrown + string" where
  "freighter_getPublicKey b =
    (case getFreighterAddress b True of
       Inl e \<Rightarrow> Inl e
     | Inr (Some a) \<Rightarrow> if a = [] then Inl (Raw (JErr ''Error'' ''Freighter did not return an account address.'' [])) else Inr a
     | Inr None \<Rightarrow> Inl (Raw (JErr ''Error'' ''Freighter did not return an account address.'' [])))"

definition signed_answer :: "jsv \<Rightarrow> thrown + string" where
  "signed_answer r =
    (case r of
       JStr s \<Rightarrow> Inr s
     | _ \<Rightarrow>
        if js_truthy (jget r ''error'')
        then Inl (freighter_error (jget r ''error'') ''Freighter transaction signing failed.'')
        else (case jget r ''signedTxXdr'' of
                JStr s \<Rightarrow> Inr s
              | _ \<Rightarrow> (case jget r ''signedTransaction'' of
                  JStr s \<Rightarrow> Inr s
                | _ \<Rightarrow> Inl (Raw (JErr ''Error'' ''Unexpected Freighter signTransaction response.'' [])))))"

definition freighter_signTransaction :: "react_browser \<Rightarrow> string \<Rightarrow> string \<Rightarrow> thrown + string" where
  "freighter_signTransaction b x pass =
    (case loadFreighterModule b of
       Inl e \<Rightarrow> Inl e
     | Inr m \<Rightarrow>
        (case fm_signTransaction m of
           Fn f \<Rightarrow> (case f x pass of Inl e \<Rightarrow> Inl e | Inr r \<Rightarrow> signed_answer r)
         | _ \<Rightarrow> Inl (not_installed ''Freighter signTransaction is not available.'')))"

section \<open>The provider's wallet state\<close>

record WalletContextState =
  wc_publicKey :: "string option"
  wc_isAvailable :: bool
  wc_isConnected :: bool
  wc_isLoading :: bool
  wc_error :: "thrown option"

record wallet_reading =
  wr_publicKey :: "string option"
  wr_isAvailable :: bool
  wr_isConnected :: bool

text \<open>A connector is Freighter's, or another with the key it gives.\<close>

datatype connector = OtherConnector "thrown + string" | FreighterConnector

definition readWalletState :: "react_browser \<Rightarrow> connector \<Rightarrow> bool \<Rightarrow> thrown + wallet_reading" where
  "readWalletState b c requireAccess =
    (case c of
       OtherConnector (Inl e) \<Rightarrow> Inl e
     | OtherConnector (Inr key) \<Rightarrow> Inr \<lparr>wr_publicKey = Some key, wr_isAvailable = True, wr_isConnected = (key \<noteq> [])\<rparr>
     | FreighterConnector \<Rightarrow>
        (case getFreighterAvailability b of
           Inl e \<Rightarrow> Inl e
         | Inr a \<Rightarrow>
            if \<not> av_isAvailable a then Inr \<lparr>wr_publicKey = None, wr_isAvailable = False, wr_isConnected = False\<rparr>
            else if \<not> requireAccess \<and> \<not> av_isAllowed a
            then Inr \<lparr>wr_publicKey = None, wr_isAvailable = True, wr_isConnected = False\<rparr>
            else (case getFreighterAddress b requireAccess of
                    Inl e \<Rightarrow> Inl e
                  | Inr key \<Rightarrow> Inr \<lparr>wr_publicKey = key, wr_isAvailable = True, wr_isConnected = (key \<noteq> None)\<rparr>)))"

definition initial_wallet :: "bool \<Rightarrow> WalletContextState" where
  "initial_wallet window = \<lparr>wc_publicKey = None, wc_isAvailable = window, wc_isConnected = False, wc_isLoading = True,
     wc_error = None\<rparr>"

definition toWalletError :: "thrown \<Rightarrow> string \<Rightarrow> thrown" where
  "toWalletError e fallback = (if is_js_Error e then e else Raw (JErr ''Error'' fallback []))"

text \<open>What connecting and refreshing do to the state once the reading is there.\<close>

definition apply_reading :: "string \<Rightarrow> thrown + wallet_reading \<Rightarrow> WalletContextState \<Rightarrow> WalletContextState" where
  "apply_reading fallback r s =
    (case r of
       Inr w \<Rightarrow> \<lparr>wc_publicKey = wr_publicKey w, wc_isAvailable = wr_isAvailable w, wc_isConnected = wr_isConnected w,
                 wc_isLoading = False, wc_error = None\<rparr>
     | Inl e \<Rightarrow> let err = toWalletError e fallback in
         \<lparr>wc_publicKey = None, wc_isAvailable = \<not> is_not_installed err, wc_isConnected = False,
          wc_isLoading = False, wc_error = Some err\<rparr>)"

datatype wallet_event =
    OperationStarted
  | Connected react_browser
  | Refreshed react_browser
  | WatchedAddress string
  | WatchFailed thrown

definition watch_error :: "thrown \<Rightarrow> thrown option" where
  "watch_error e = (if is_not_installed e then None
     else Some (toWalletError e ''Failed to watch Freighter account changes.''))"

fun wallet_step :: "connector \<Rightarrow> WalletContextState \<Rightarrow> wallet_event \<Rightarrow> WalletContextState" where
  "wallet_step c s OperationStarted = s\<lparr>wc_isLoading := True\<rparr>"
| "wallet_step c s (Connected b) = apply_reading ''Failed to connect wallet.'' (readWalletState b c True) s"
| "wallet_step c s (Refreshed b) = apply_reading ''Failed to refresh wallet state.'' (readWalletState b c False) s"
| "wallet_step c s (WatchedAddress a) =
     \<lparr>wc_publicKey = (if a = [] then None else Some a), wc_isAvailable = True, wc_isConnected = (js_trim a \<noteq> []),
      wc_isLoading = False, wc_error = None\<rparr>"
| "wallet_step c s (WatchFailed e) =
     s\<lparr>wc_isAvailable := (watch_error e \<noteq> None), wc_isLoading := False, wc_error := watch_error e\<rparr>"

section \<open>Properties\<close>

lemma module_fails_only_uninstalled: "loadFreighterModule b = Inl e \<Longrightarrow> is_not_installed e"
  by (auto simp: loadFreighterModule_def not_installed_def is_not_installed_def Let_def split: if_splits option.splits)

text \<open>An address that is given is never empty, whichever of the three functions gave it.\<close>

lemma address_nonempty: "getFreighterAddress b req = Inr (Some a) \<Longrightarrow> a \<noteq> []"
  by (auto simp: getFreighterAddress_def address_answer_def readAddress_def js_trim_def
      split: sum.splits field.splits if_splits jsv.splits)

lemma reading_connected:
  "readWalletState b c req = Inr w \<Longrightarrow> wr_isConnected w \<Longrightarrow> \<exists>k. wr_publicKey w = Some k \<and> k \<noteq> []"
  using address_nonempty
  by (auto simp: readWalletState_def split: connector.splits sum.splits if_splits)

definition connected_ok :: "WalletContextState \<Rightarrow> bool" where
  "connected_ok s \<longleftrightarrow> (if wc_isConnected s then (case wc_publicKey s of Some k \<Rightarrow> k \<noteq> [] | None \<Rightarrow> False) else True)"

lemma connected_step: "connected_ok s \<Longrightarrow> connected_ok (wallet_step c s e)"
  using reading_connected
  by (cases e) (fastforce simp: connected_ok_def apply_reading_def Let_def js_trim_def split: sum.split)+

interpretation rw: invariant_machine connected_ok "wallet_step c" "initial_wallet window" for c window
  by unfold_locales (auto simp: connected_step, simp add: connected_ok_def initial_wallet_def)

text \<open>
  In whatever order connections, refreshes and the watcher's news arrive, a state that says
  connected has a key that is not empty.
\<close>

theorem connected_has_key: "connected_ok (foldl (wallet_step c) (initial_wallet window) es)"
  by (rule rw.inv_run)

text \<open>Availability is never an error because the extension is missing; other errors are passed on unchanged.\<close>

theorem availability_outcome:
  "getFreighterAvailability b =
    (case availability_try b of Inr a \<Rightarrow> Inr a
     | Inl e \<Rightarrow> if is_not_installed e then Inr (available False False) else Inl e) \<and>
   (case loadFreighterModule b of Inl e \<Rightarrow> getFreighterAvailability b = Inr (available False False) | Inr m \<Rightarrow> True)"
  using module_fails_only_uninstalled [of b]
  by (auto simp: getFreighterAvailability_def availability_try_def split: sum.split)

lemma no_text_case: "\<forall>t. v \<noteq> JStr t \<Longrightarrow> (case v of JStr u \<Rightarrow> f u | _ \<Rightarrow> d) = d"
  by (cases v) simp_all

lemma text_or_not: "(\<exists>t. v = JStr t) \<or> (\<forall>t. v \<noteq> JStr t)"
  by blast

text \<open>Signing answers are read from a text or from either field, and an error in the answer wins.\<close>

theorem signing_outcome:
  "freighter_signTransaction b x pass = Inr s \<longleftrightarrow>
    (\<exists>m f r. loadFreighterModule b = Inr m \<and> fm_signTransaction m = Fn f \<and> f x pass = Inr r \<and>
      (r = JStr s \<or> (\<forall>t. r \<noteq> JStr t) \<and> \<not> js_truthy (jget r ''error'') \<and>
         (jget r ''signedTxXdr'' = JStr s \<or>
          (\<forall>t. jget r ''signedTxXdr'' \<noteq> JStr t) \<and> jget r ''signedTransaction'' = JStr s)))"
proof -
  have "signed_answer r = Inr s \<longleftrightarrow> (r = JStr s \<or> (\<forall>t. r \<noteq> JStr t) \<and> \<not> js_truthy (jget r ''error'') \<and>
      (jget r ''signedTxXdr'' = JStr s \<or>
       (\<forall>t. jget r ''signedTxXdr'' \<noteq> JStr t) \<and> jget r ''signedTransaction'' = JStr s))" for r
  proof (cases "\<exists>t. r = JStr t")
    case True
    then show ?thesis by (auto simp: signed_answer_def)
  next
    case False
    then have r: "\<forall>t. r \<noteq> JStr t" by blast
    show ?thesis
      using r text_or_not [of "jget r ''signedTxXdr''"] text_or_not [of "jget r ''signedTransaction''"]
      by (elim disjE exE) (simp_all add: signed_answer_def no_text_case)
  qed
  then show ?thesis
    by (auto simp: freighter_signTransaction_def split: sum.splits field.splits)
qed

end
