(* ===== verification/Facades.thy ===== *)
theory Facades
  imports Errors ClientOps
begin

text \<open>
  Small parts over the client: the vault adapter's reads and writes (\<open>adapters/vaultAdapter.ts\<close>), and
  in \<open>packages/core\<close> the read-only vault (\<open>client/VaultContract.ts\<close>), the client with its lazy vault
  (\<open>client/axionveraClient.ts\<close>), the cache of clients (\<open>client/stellarClientFactory.ts\<close>) and the event
  parser (\<open>utils/sorobanEventParser.ts\<close>).

  JSON, addresses, simulated reads, the client's constructor and the SDK's decoding are arguments.

  The lemmas show that the adapter never reads a contract, which keys and clients are shared, when
  the lazy vault is made, and whom a query asks about.
\<close>

section \<open>The vault adapter\<close>

definition adapter_key :: "string \<Rightarrow> string \<Rightarrow> string \<Rightarrow> string" where
  "adapter_key contractId meth argsJson = ''vault:'' @ contractId @ '':'' @ meth @ '':'' @ argsJson"

definition adapter_result :: jsv where
  "adapter_result = JObj [(''deposit'', JNum 0), (''withdraw'', JNum 0)]"

definition adapter_read ::
    "(jsv \<Rightarrow> string) \<Rightarrow> (string \<Rightarrow> thrown + jsv) \<Rightarrow> string \<Rightarrow> string \<Rightarrow> string \<Rightarrow> (string, string) jsmap
      \<Rightarrow> (string, string) jsmap \<times> (thrown + jsv)" where
  "adapter_read stringify parse contractId meth argsJson storage =
    (let key = adapter_key contractId meth argsJson in
     case jm_get storage key of
       Some (c # s) \<Rightarrow> (storage, parse (c # s))
     | _ \<Rightarrow> (jm_set key (stringify adapter_result) storage, Inr adapter_result))"

definition adapter_write :: "string \<Rightarrow> nat \<Rightarrow> string \<Rightarrow> string" where
  "adapter_write meth now random = ''tx_'' @ meth @ ''_'' @ nat_str now @ ''_'' @ take 6 (drop 2 random)"

text \<open>Whatever was read before, every read answers with zeros and no contract is asked.\<close>

theorem adapter_reads_are_zero:
  assumes "parse (stringify adapter_result) = Inr adapter_result" "stringify adapter_result \<noteq> []"
    and "jm_all (\<lambda>k v. v = stringify adapter_result) storage"
  shows "snd (adapter_read stringify parse contractId meth argsJson storage) = Inr adapter_result \<and>
    jm_all (\<lambda>k v. v = stringify adapter_result) (fst (adapter_read stringify parse contractId meth argsJson storage))"
proof (cases "jm_get storage (adapter_key contractId meth argsJson)")
  case None
  then show ?thesis using assms(3) by (auto simp: adapter_read_def Let_def)
next
  case (Some v)
  then have v: "v = stringify adapter_result" using jm_all_getD [OF assms(3)] by blast
  obtain c s where "stringify adapter_result = c # s" using assms(2) list.exhaust by blast
  then show ?thesis using Some v assms by (simp add: adapter_read_def Let_def)
qed

text \<open>A colon in a name makes two different reads share a key.\<close>

lemma adapter_keys_collide: "adapter_key (a @ '':'' @ b) c x = adapter_key a (b @ '':'' @ c) x"
  by (simp add: adapter_key_def)

section \<open>The read-only vault\<close>

record ReadOnlyVault =
  rv_contractId :: string
  rv_getVaultShares :: string
  rv_getExchangeRate :: string

text \<open>A missing or empty name gives the default.\<close>

definition name_or :: "string option \<Rightarrow> string \<Rightarrow> string" where
  "name_or x d = (case x of Some (c # s) \<Rightarrow> c # s | _ \<Rightarrow> d)"

definition newReadOnlyVault :: "string \<Rightarrow> string option \<Rightarrow> string option \<Rightarrow> ReadOnlyVault" where
  "newReadOnlyVault contractId shares rate =
     \<lparr>rv_contractId = contractId, rv_getVaultShares = name_or shares ''get_shares'',
      rv_getExchangeRate = name_or rate ''get_exchange_rate''\<rparr>"

text \<open>
  \<open>read\<close> is the client's simulation with the result turned into a text, which for a bigint and for any
  other value is \<open>String\<close>; \<open>wallet\<close> is what its key answers, if there is one.
\<close>

definition read_getVaultShares ::
    "(string \<Rightarrow> thrown + 'sv) \<Rightarrow> (string \<Rightarrow> string \<Rightarrow> 'sv list \<Rightarrow> thrown + jsv) \<Rightarrow> (thrown + string) option
      \<Rightarrow> string option \<Rightarrow> ReadOnlyVault \<Rightarrow> thrown + string" where
  "read_getVaultShares address read wallet account v =
    (case (case account of
             Some (c # s) \<Rightarrow> Inr (c # s)
           | _ \<Rightarrow> (case wallet of
               Some key \<Rightarrow> key
             | None \<Rightarrow> Inl (plain_error ''Account address is required to query vault shares, or a wallet must be configured.''))) of
       Inl e \<Rightarrow> Inl e
     | Inr a \<Rightarrow>
        (case address a of
           Inl e \<Rightarrow> Inl e
         | Inr sv \<Rightarrow> map_sum id js_String (read (rv_contractId v) (rv_getVaultShares v) [sv])))"

definition read_getExchangeRate :: "(string \<Rightarrow> string \<Rightarrow> 'sv list \<Rightarrow> thrown + jsv) \<Rightarrow> ReadOnlyVault \<Rightarrow> thrown + string" where
  "read_getExchangeRate read v = map_sum id js_String (read (rv_contractId v) (rv_getExchangeRate v) [])"

text \<open>A given account wins over the wallet, which is then not asked, so its failure does not matter.\<close>

lemma given_account_wins:
  "name_or account [] \<noteq> [] \<Longrightarrow>
     read_getVaultShares address read wallet account v = read_getVaultShares address read wallet' account v"
  by (auto simp: read_getVaultShares_def name_or_def split: option.splits list.splits)

section \<open>The lazy vault\<close>

record AxionveraClient =
  ax_vaultId :: "string option"
  ax_hasWallet :: bool
  ax_vault :: "string option"

text \<open>The vault is its contract's id; the getter returns the state it leaves.\<close>

definition get_vault :: "AxionveraClient \<Rightarrow> AxionveraClient \<times> (thrown + string)" where
  "get_vault c =
    (case ax_vault c of
       Some v \<Rightarrow> (c, Inr v)
     | None \<Rightarrow>
        (case ax_vaultId c of
           Some (x # xs) \<Rightarrow>
             if \<not> ax_hasWallet c
             then (c, Inl (Raw (JErr ''Error''
               ''Wallet connector not configured. Please provide 'wallet' in AxionveraClient constructor.'' [])))
             else (c\<lparr>ax_vault := Some (x # xs)\<rparr>, Inr (x # xs))
         | _ \<Rightarrow> (c, Inl (Raw (JErr ''Error''
             ''Vault ID not configured. Please provide 'vaultId' in AxionveraClient constructor.'' [])))))"

text \<open>The first success decides every later one, and failures change nothing.\<close>

theorem vault_is_made_once:
  "case get_vault c of
     (c', Inr v) \<Rightarrow> get_vault c' = (c', Inr v) \<and> ax_vault c' = Some v
   | (c', Inl e) \<Rightarrow> c' = c"
  by (auto simp: get_vault_def split: option.split list.split)

section \<open>The cache of clients\<close>

record client_options =
  ct_network :: "string option"
  ct_rpcUrl :: "string option"
  ct_other :: jsv

definition getCacheKey :: "client_options \<Rightarrow> string" where
  "getCacheKey opts = name_or (ct_network opts) ''custom'' @ '':'' @ given_or (ct_rpcUrl opts) ''undefined''"

definition createStellarRpcClient ::
    "(client_options \<Rightarrow> thrown + 'cl) \<Rightarrow> client_options \<Rightarrow> (string, 'cl) jsmap \<Rightarrow> (string, 'cl) jsmap \<times> (thrown + 'cl)" where
  "createStellarRpcClient new_client opts cache =
    (case jm_get cache (getCacheKey opts) of
       Some c \<Rightarrow> (cache, Inr c)
     | None \<Rightarrow>
        (case new_client opts of
           Inl e \<Rightarrow> (cache, Inl e)
         | Inr c \<Rightarrow> (jm_set (getCacheKey opts) c cache, Inr c)))"

definition getDefaultClient :: "(client_options \<Rightarrow> thrown + 'cl) \<Rightarrow> (string, 'cl) jsmap \<Rightarrow> (string, 'cl) jsmap \<times> (thrown + 'cl)" where
  "getDefaultClient new_client = createStellarRpcClient new_client \<lparr>ct_network = Some ''testnet'', ct_rpcUrl = None, ct_other = JUndef\<rparr>"

text \<open>
  The network and the URL alone choose the client: once one was made, every request with the same
  two gets it, whatever else it asks for (a passphrase, retries, a logger).
\<close>

theorem client_ignores_other_options:
  assumes "createStellarRpcClient new_client opts cache = (cache', Inr c)"
    and "ct_network opts' = ct_network opts" "ct_rpcUrl opts' = ct_rpcUrl opts"
  shows "createStellarRpcClient new_client2 opts' cache' = (cache', Inr c)"
proof -
  have "getCacheKey opts' = getCacheKey opts" by (simp add: getCacheKey_def assms)
  moreover have "jm_get cache' (getCacheKey opts) = Some c"
    using assms(1) by (auto simp: createStellarRpcClient_def split: option.splits sum.splits)
  ultimately show ?thesis by (simp add: createStellarRpcClient_def)
qed

lemma client_ignores_other_options_witness:
  "snd (createStellarRpcClient (\<lambda>x. Inr (ct_other x)) \<lparr>ct_network = Some ''testnet'', ct_rpcUrl = None, ct_other = JNum 2\<rparr>
     (fst (createStellarRpcClient (\<lambda>x. Inr (ct_other x)) \<lparr>ct_network = Some ''testnet'', ct_rpcUrl = None, ct_other = JNum 1\<rparr> [])))
   = Inr (JNum 1)"
proof -
  let ?a = "\<lparr>ct_network = Some ''testnet'', ct_rpcUrl = None, ct_other = JNum 1\<rparr>"
  have "createStellarRpcClient (\<lambda>x. Inr (ct_other x)) ?a [] = ([(getCacheKey ?a, JNum 1)], Inr (JNum 1))"
    by (simp add: createStellarRpcClient_def)
  from client_ignores_other_options [OF this, of "\<lparr>ct_network = Some ''testnet'', ct_rpcUrl = None, ct_other = JNum 2\<rparr>"] this
  show ?thesis by simp
qed

section \<open>Events\<close>

record SorobanParsedEvent =
  se_type :: string
  se_data :: jsv
  se_ledger :: int
  se_contractId :: string
  se_pagingToken :: string

record event_response =
  er_topic :: "jsv list"
  er_value :: jsv
  er_ledger :: int
  er_contractId :: string
  er_pagingToken :: string

fun decode_all :: "(jsv \<Rightarrow> thrown + jsv) \<Rightarrow> jsv list \<Rightarrow> thrown + jsv list" where
  "decode_all native [] = Inr []"
| "decode_all native (t # ts) = (case native t of Inl e \<Rightarrow> Inl e | Inr v \<Rightarrow>
     (case decode_all native ts of Inl e \<Rightarrow> Inl e | Inr vs \<Rightarrow> Inr (v # vs)))"

definition parseSorobanEvent :: "(jsv \<Rightarrow> thrown + jsv) \<Rightarrow> event_response \<Rightarrow> thrown + SorobanParsedEvent" where
  "parseSorobanEvent native ev =
    (case decode_all native (er_topic ev) of
       Inl e \<Rightarrow> Inl e
     | Inr topics \<Rightarrow>
        (case native (er_value ev) of
           Inl e \<Rightarrow> Inl e
         | Inr d \<Rightarrow> Inr \<lparr>se_type = (case topics of JStr n # _ \<Rightarrow> n | _ \<Rightarrow> ''unknown''), se_data = d,
             se_ledger = er_ledger ev, se_contractId = er_contractId ev, se_pagingToken = er_pagingToken ev\<rparr>))"

text \<open>An event without topics is unknown, not an error.\<close>

lemma event_without_topics:
  "er_topic ev = [] \<Longrightarrow> native (er_value ev) = Inr d \<Longrightarrow>
     \<exists>p. parseSorobanEvent native ev = Inr p \<and> se_type p = ''unknown''"
  by (simp add: parseSorobanEvent_def)

end
