(* ===== verification/CoreErrors.thy ===== *)
theory CoreErrors
  imports Errors
begin

text \<open>
  What \<open>packages/core\<close> makes of errors: \<open>toAxionveraError\<close> with its own classes
  (\<open>errors/axionveraError.ts\<close>), whose reading of messages, codes and headers is the root package's
  (theory Errors), and the middleware that applies it (\<open>middleware/errorMiddleware.ts\<close>).

  The lemmas show which class an error gets, that the more specific classes are never given, and
  where the two packages agree.
\<close>

section \<open>Normalization\<close>

datatype core_class =
    KNetworkError
  | KAuthenticationError
  | KRateLimitError
  | KValidationError
  | KStellarRpcNetworkError
  | KStellarRpcResponseError
  | KStellarRpcTimeoutError
  | KAxionveraError

text \<open>What is thrown: any value, or an error of the package with its class and options.\<close>

datatype core_thrown =
    CoreRaw jsv
  | CoreErr core_class string "int option" "string option" "jsv option"

definition at_least :: "int \<Rightarrow> int option \<Rightarrow> bool" where
  "at_least n st = (case st of None \<Rightarrow> False | Some k \<Rightarrow> n \<le> k)"

definition core_class_of :: "int option \<Rightarrow> jsv \<Rightarrow> core_class" where
  "core_class_of st code =
    (if code = JStr ''ETIMEDOUT'' then KStellarRpcTimeoutError
     else if isNetworkCode code then KStellarRpcNetworkError
     else if at_least 400 st then KStellarRpcResponseError
     else if st = Some 401 \<or> st = Some 403 then KAuthenticationError
     else if st = Some 429 then KRateLimitError
     else if at_least 400 st \<and> \<not> at_least 500 st then KValidationError
     else if st = None \<or> at_least 500 st \<or> isNetworkCode code then KNetworkError
     else KAxionveraError)"

definition core_toAxionveraError :: "header_get \<Rightarrow> string \<Rightarrow> core_thrown \<Rightarrow> core_thrown" where
  "core_toAxionveraError hget fallback t =
    (case t of
       CoreErr c m st rid x \<Rightarrow> t
     | CoreRaw v \<Rightarrow>
        (let st = getErrorStatusCode (Raw v) in
         CoreErr (core_class_of st (jget (asErrorLike v) ''code'')) (getErrorMessage v fallback) st
           (getErrorRequestId hget (Raw v)) (Some v)))"

text \<open>The middleware: a context with a truthy error leaves with the normalized one.\<close>

definition error_truthy :: "core_thrown \<Rightarrow> bool" where
  "error_truthy t = (case t of CoreRaw v \<Rightarrow> js_truthy v | _ \<Rightarrow> True)"

definition errorHandler_onResponse :: "header_get \<Rightarrow> core_thrown option \<times> 'rest \<Rightarrow> core_thrown option \<times> 'rest" where
  "errorHandler_onResponse hget ctx =
    (case fst ctx of
       None \<Rightarrow> ctx
     | Some e \<Rightarrow> if error_truthy e then (Some (core_toAxionveraError hget ''API request failed'' e), snd ctx) else ctx)"

section \<open>Properties\<close>

text \<open>
  The class depends on the network code first and then only on whether there is a status of at least
  400: the classes for refused authentication, rate limits and invalid requests, which come after
  that test, are never given, and a server's error is no network error.
\<close>

theorem core_class_exactly:
  "core_class_of st code =
    (if code = JStr ''ETIMEDOUT'' then KStellarRpcTimeoutError
     else if isNetworkCode code then KStellarRpcNetworkError
     else (case st of None \<Rightarrow> KNetworkError
           | Some n \<Rightarrow> if 400 \<le> n then KStellarRpcResponseError else KAxionveraError)) \<and>
   core_class_of st code \<notin> {KAuthenticationError, KRateLimitError, KValidationError}"
  by (cases st) (auto simp: core_class_of_def at_least_def)

text \<open>Both packages keep the message, the status and the request id of an error.\<close>

theorem packages_agree_on_details:
  assumes "toAxionveraError hget fb (Raw v) = AxErr c m st rid orig"
  shows "\<exists>k. core_toAxionveraError hget fb (CoreRaw v) = CoreErr k m st rid (Some v)"
  using assms by (auto simp: toAxionveraError_def core_toAxionveraError_def Let_def split: if_splits)

lemma core_normalize_idem:
  "core_toAxionveraError hget fb' (core_toAxionveraError hget fb t) = core_toAxionveraError hget fb t"
  by (cases t) (simp_all add: core_toAxionveraError_def Let_def)

lemma error_middleware_idem:
  "errorHandler_onResponse hget (errorHandler_onResponse hget ctx) = errorHandler_onResponse hget ctx"
proof (cases "fst ctx")
  case None
  then show ?thesis by (simp add: errorHandler_onResponse_def)
next
  case (Some e)
  have "error_truthy (core_toAxionveraError hget fb t)" if "error_truthy t" for fb t
    using that by (cases t) (simp_all add: core_toAxionveraError_def error_truthy_def Let_def)
  with Some show ?thesis
    by (cases "error_truthy e") (simp_all add: errorHandler_onResponse_def core_normalize_idem)
qed

end
