(* ===== verification/ClientPlugins.thy ===== *)
theory ClientPlugins
  imports PluginManager Pipeline CoreServices
begin

text \<open>
  How the constructor of \<open>StellarClient\<close> (\<open>src/src/client/stellarClient.ts\<close>) puts together
  the plugin manager, the service container and the middleware pipeline: the hooks it applies
  to the options, the services it resolves, the middleware it starts with, and what the
  manager's \<open>applyToClient\<close>, scheduled with \<open>setTimeout\<close>, adds to it afterwards.
\<close>

section \<open>Hooks applied to the options\<close>

text \<open>
  A hook is called without being awaited, so it either throws, returns a promise, or returns
  options; \<open>ch_plain\<close> is whether its constructor is named \<open>Function\<close>, which it is not for
  an \<open>async\<close> function. The manager's view of the hook is the outcome it awaits.
\<close>

datatype 'o hook_result = HookPromise | HookOptions 'o

record 'o client_hook =
  ch_plain :: bool
  ch_run :: "'o \<Rightarrow> jsv + 'o hook_result"

definition apply_sync_hook :: "'o client_hook \<Rightarrow> 'o \<Rightarrow> jsv + 'o" where
  "apply_sync_hook h opts =
    (if ch_plain h
     then (case ch_run h opts of
             Inl e \<Rightarrow> Inl e
           | Inr HookPromise \<Rightarrow> Inr opts
           | Inr (HookOptions opts') \<Rightarrow> Inr opts')
     else Inr opts)"

fun sync_hooks_through ::
    "(nat \<Rightarrow> 'o client_hook) \<Rightarrow> ('o, 'c, 'm, 's) pm \<Rightarrow> nat list \<Rightarrow> 'o \<Rightarrow> jsv + 'o" where
  "sync_hooks_through ch s [] opts = Inr opts"
| "sync_hooks_through ch s (i # is) opts =
    (if pc_beforeClientInit (pm_config s i) = None then sync_hooks_through ch s is opts
     else (case apply_sync_hook (ch i) opts of
             Inl e \<Rightarrow> Inl e
           | Inr opts' \<Rightarrow> sync_hooks_through ch s is opts'))"

definition applySyncPluginHooks ::
    "(nat \<Rightarrow> 'o client_hook) \<Rightarrow> 'o \<Rightarrow> ('o, 'c, 'm, 's) pm \<Rightarrow> jsv + 'o" where
  "applySyncPluginHooks ch opts s = sync_hooks_through ch s (pm_getInstalled s) opts"

section \<open>Services and middleware\<close>

text \<open>The options the wiring reads; an absent \<open>container\<close> is \<open>None\<close>.\<close>

record ('q, 'v, 'p) wiring_options =
  wo_services :: "('q, 'v) services option"
  wo_rpcClient :: "('q, 'v) slot option"
  wo_container :: "('q, 'v) services option"
  wo_middleware :: "'p Middleware list option"

type_synonym ('q, 'v, 'p, 'c) wiring_pm =
  "(('q, 'v, 'p) wiring_options, 'c, 'p Middleware, ('q, 'v) slot option) pm"

definition client_service_overrides ::
    "bool \<Rightarrow> ('q, 'v, 'p) wiring_options \<Rightarrow> ('q, 'v, 'p, 'c) wiring_pm \<Rightarrow> ('q, 'v) services" where
  "client_service_overrides usePM opts s =
    (let sv = (case wo_services opts of None \<Rightarrow> [] | Some sv \<Rightarrow> sv);
         own = jm_set ''rpcClient''
                 (case wo_rpcClient opts of Some x \<Rightarrow> Some x | None \<Rightarrow> slot_value sv ''rpcClient'')
                 (obj_spread [] sv)
     in if usePM then obj_spread (obj_spread [] own) (pm_getServiceOverrides s) else own)"

definition client_container ::
    "('q, 'v) default_factories \<Rightarrow> bool \<Rightarrow> ('q, 'v, 'p) wiring_options
      \<Rightarrow> ('q, 'v, 'p, 'c) wiring_pm \<Rightarrow> ('q, 'v) services" where
  "client_container df usePM opts s =
    (case wo_container opts of
       Some container \<Rightarrow> container
     | None \<Rightarrow> createServiceContainer df (client_service_overrides usePM opts s))"

definition client_middleware ::
    "bool \<Rightarrow> ('q, 'v, 'p) wiring_options \<Rightarrow> ('q, 'v, 'p, 'c) wiring_pm \<Rightarrow> 'p Middleware list" where
  "client_middleware usePM opts s =
    (if usePM then listm (wo_middleware opts) @ pm_getMiddleware s else listm (wo_middleware opts))"

datatype wiring_error = HookThrew jsv | InvalidMiddleware string

definition hooked_options ::
    "bool \<Rightarrow> (nat \<Rightarrow> 'o client_hook) \<Rightarrow> 'o \<Rightarrow> ('o, 'c, 'm, 's) pm \<Rightarrow> jsv + 'o" where
  "hooked_options usePM ch opts s = (if usePM then applySyncPluginHooks ch opts s else Inr opts)"

text \<open>The part of the constructor that plugins take part in: hooks, container, pipeline. The
  checks of the network between them are \<open>newClient\<close> of theory \<open>ClientOps\<close>.\<close>

definition wire_client ::
    "('q, 'v) default_factories \<Rightarrow> bool \<Rightarrow> (nat \<Rightarrow> ('q, 'v, 'p) wiring_options client_hook)
      \<Rightarrow> ('q, 'v, 'p) wiring_options \<Rightarrow> ('q, 'v, 'p, 'c) wiring_pm
      \<Rightarrow> wiring_error + ('q, 'v, 'p) wiring_options \<times> ('q, 'v) services \<times> 'p MiddlewarePipeline" where
  "wire_client df usePM ch opts s =
    (case hooked_options usePM ch opts s of
       Inl e \<Rightarrow> Inl (HookThrew e)
     | Inr opts' \<Rightarrow>
        (case newMiddlewarePipeline (client_middleware usePM opts' s) of
           Inl m \<Rightarrow> Inl (InvalidMiddleware m)
         | Inr p \<Rightarrow> Inr (opts', client_container df usePM opts' s, p)))"

text \<open>What the manager's calls of \<open>client.use\<close> in a log, newest first, make of the client's
  pipeline.\<close>

definition handed_over :: "'c \<Rightarrow> ('c, 'm) pm_call list \<Rightarrow> 'm list" where
  "handed_over c calls =
    concat (map (\<lambda>e. case e of CallUse i d m \<Rightarrow> if d = c then [m] else [] | _ \<Rightarrow> []) calls)"

definition client_uses ::
    "'c \<Rightarrow> ('c, 'p Middleware) pm_call list \<Rightarrow> 'p MiddlewarePipeline \<Rightarrow> 'p MiddlewarePipeline" where
  "client_uses c l p = foldl (\<lambda>p m. fst (mp_use m p)) p (handed_over c (rev l))"

section \<open>Lemmas on registration\<close>

lemma mset_use: "mw_name m \<noteq> [] \<Longrightarrow> mset (mp_list (fst (mp_use m p))) = add_mset m (mset (mp_list p))"
  by (simp add: mp_use_def mp_list_def Let_def sortMiddleware_def flip: mset_map)
     (simp only: mset_map mset_sort, simp)

lemma use_all_ok:
  "mp_use_all ms p = Inr p' \<Longrightarrow>
    (\<forall>m\<in>set ms. mw_name m \<noteq> []) \<and> mset (mp_list p') = mset (mp_list p) + mset ms"
proof (induction ms arbitrary: p)
  case (Cons m ms)
  have n: "mw_name m \<noteq> []" using Cons.prems by (auto simp: mp_use_def)
  then have "mp_use_all ms (fst (mp_use m p)) = Inr p'"
    using Cons.prems by (auto simp: mp_use_def Let_def)
  from Cons.IH [OF this] n show ?case by (simp add: mset_use)
qed simp

lemma fold_use:
  "\<forall>m\<in>set ms. mw_name m \<noteq> [] \<Longrightarrow>
    mset (mp_list (foldl (\<lambda>p m. fst (mp_use m p)) p ms)) = mset (mp_list p) + mset ms"
  by (induction ms arbitrary: p) (simp_all add: mset_use)

lemma new_pipeline_ok:
  "newMiddlewarePipeline ms = Inr p \<Longrightarrow> (\<forall>m\<in>set ms. mw_name m \<noteq> []) \<and> mset (mp_list p) = mset ms"
  using use_all_ok [of ms mp_empty p] by (simp add: newMiddlewarePipeline_def mp_empty_def mp_list_def)

lemma handed_over_append [simp]: "handed_over c (a @ b) = handed_over c a @ handed_over c b"
  by (simp add: handed_over_def)

lemma handed_over_plugin:
  "handed_over c (plugin_calls s c i) = listm (pc_middleware (pm_config s i))"
proof -
  have "handed_over c (map (CallUse i c) ms) = ms" for ms
    by (induction ms) (simp_all add: handed_over_def)
  moreover have "handed_over c [CallAfterInit i c] = []" by (simp add: handed_over_def)
  ultimately show ?thesis by (simp add: plugin_calls_def) (simp add: handed_over_def)
qed

lemma handed_over_plugins:
  "handed_over c (concat (map (plugin_calls s c) is)) =
    concat (map (\<lambda>i. listm (pc_middleware (pm_config s i))) is)"
  by (induction "is") (simp_all add: handed_over_plugin, simp add: handed_over_def)

lemma handed_over_none: "handed_over c (rev l) = [] \<longleftrightarrow> handed_over c l = []"
  by (auto simp: handed_over_def)

lemma size_filter_map:
  "size (filter_mset P (mset (map f es))) = length (filter (\<lambda>e. P (f e)) es)"
  by (induction es) simp_all

lemma length_pre_calls:
  "length (stage_calls StPre mw_pre (mp_middleware q)) =
    size (filter_mset (\<lambda>m. mw_pre m \<noteq> None) (mset (mp_list q)))"
  unfolding mp_list_def size_filter_map by (simp add: stage_calls_def)

lemma overrides_fold_ok:
  "jm_ok ov \<Longrightarrow>
    jm_ok (foldl (\<lambda>ov i. case f i of None \<Rightarrow> ov | Some sv \<Rightarrow> obj_spread ov sv) ov is)"
  by (induction "is" arbitrary: ov) (auto split: option.splits)

lemma service_overrides_ok: "jm_ok (pm_getServiceOverrides s)"
  unfolding pm_getServiceOverrides_def by (rule overrides_fold_ok) (simp add: jm_ok_def)

text \<open>A hook and the manager's view of it agree: a synchronous hook returns what the manager
  awaits; an asynchronous one returns a promise, or is recognised by its constructor.\<close>

definition hook_kind ::
    "(nat \<Rightarrow> bool) \<Rightarrow> (nat \<Rightarrow> 'o client_hook) \<Rightarrow> ('o, 'c, 'm, 's) pm \<Rightarrow> nat \<Rightarrow> bool" where
  "hook_kind sync ch s i \<longleftrightarrow>
    (case pc_beforeClientInit (pm_config s i) of
       None \<Rightarrow> True
     | Some h \<Rightarrow>
        if sync i then ch_plain (ch i) \<and>
          (\<forall>x. ch_run (ch i) x = (case h x of Inl e \<Rightarrow> Inl e | Inr y \<Rightarrow> Inr (HookOptions y)))
        else \<not> ch_plain (ch i) \<or> (\<forall>x. ch_run (ch i) x = Inr HookPromise))"

lemma sync_hooks_filter:
  "\<forall>i\<in>set is. hook_kind sync ch s i \<Longrightarrow>
    sync_hooks_through ch s is opts = pm_options_through (map (pm_config s) (filter sync is)) opts"
proof (induction "is" arbitrary: opts)
  case (Cons i "is")
  have IH: "sync_hooks_through ch s is x =
      pm_options_through (map (pm_config s) (filter sync is)) x" for x
    using Cons by simp
  have i: "hook_kind sync ch s i" using Cons.prems by simp
  show ?case
  proof (cases "pc_beforeClientInit (pm_config s i)")
    case (Some h)
    then show ?thesis using i
      by (cases "h opts"; cases "sync i") (auto simp: hook_kind_def IH apply_sync_hook_def)
  qed (simp add: IH)
qed simp

abbreviation own_services :: "('q, 'v, 'p) wiring_options \<Rightarrow> ('q, 'v) services" where
  "own_services opts \<equiv> (case wo_services opts of None \<Rightarrow> [] | Some sv \<Rightarrow> sv)"

lemma get_overrides:
  assumes "jm_ok (own_services opts)"
  shows "jm_ok (client_service_overrides usePM opts s)"
    and "jm_get (client_service_overrides False opts s) k =
      (if k = ''rpcClient''
       then Some (case wo_rpcClient opts of
              Some x \<Rightarrow> Some x | None \<Rightarrow> slot_value (own_services opts) ''rpcClient'')
       else jm_get (own_services opts) k)"
    and "jm_get (client_service_overrides True opts s) k =
      (case jm_get (pm_getServiceOverrides s) k of
         Some x \<Rightarrow> Some x | None \<Rightarrow> jm_get (client_service_overrides False opts s) k)"
proof -
  have nil: "jm_ok ([] :: ('x, 'y) jsmap)" by (simp add: jm_ok_def)
  have own: "jm_ok (client_service_overrides False opts s)"
    unfolding client_service_overrides_def Let_def
    by (simp add: jm_ok_spread jm_ok_def [of "[]"])
  show "jm_ok (client_service_overrides usePM opts s)"
    using own by (cases usePM) (simp_all add: client_service_overrides_def Let_def jm_ok_spread jm_ok_def [of "[]"])
  show "jm_get (client_service_overrides False opts s) k =
      (if k = ''rpcClient''
       then Some (case wo_rpcClient opts of
              Some x \<Rightarrow> Some x | None \<Rightarrow> slot_value (own_services opts) ''rpcClient'')
       else jm_get (own_services opts) k)"
    using jm_get_spread [OF assms, of "[]" k] by (simp add: client_service_overrides_def Let_def split: option.splits)
  have "client_service_overrides True opts s =
      obj_spread (obj_spread [] (client_service_overrides False opts s)) (pm_getServiceOverrides s)"
    by (simp add: client_service_overrides_def Let_def)
  then show "jm_get (client_service_overrides True opts s) k =
      (case jm_get (pm_getServiceOverrides s) k of
         Some x \<Rightarrow> Some x | None \<Rightarrow> jm_get (client_service_overrides False opts s) k)"
    using own by (simp add: jm_get_spread service_overrides_ok split: option.splits)
qed

lemma drain_applyToClient:
  assumes "pm_tasks s = []" and "2 * length (pm_getInstalled s) \<le> n"
  shows "pm_log (pm_drain n (pm_applyToClient c s)) =
    rev (concat (map (plugin_calls s c) (pm_getInstalled s))) @ pm_log s"
proof -
  let ?s = "s\<lparr>pm_clients := (if c \<in> set (pm_clients s) then pm_clients s else pm_clients s @ [c])\<rparr>"
  have g: "pm_getInstalled ?s = pm_getInstalled s"
    by (simp add: pm_getInstalled_def pm_getAll_def pm_is_installed_def cong: filter_cong)
  have p: "plugin_calls ?s c = plugin_calls s c"
    by (rule ext) (simp add: plugin_calls_def pm_config_def)
  show ?thesis using drain_loop [of ?s "pm_getInstalled s" n c] assms
    unfolding pm_applyToClient_def Let_def g p by simp
qed

section \<open>Properties\<close>

text \<open>
  Whatever the plugins are, once the scheduled \<open>applyToClient\<close> has run to its end (nothing
  overlapping it, the hooks fulfilled) the client's pipeline holds the middleware of its own
  options once and every middleware of an installed plugin twice: the constructor has already
  taken \<open>getMiddleware\<close> into the pipeline.
\<close>

theorem plugin_middleware_registered_twice:
  assumes "wire_client df True ch opts s = Inr (opts', sv, p)"
    and "pm_tasks s = []" and "handed_over c (pm_log s) = []"
  shows "let s' = pm_drain (2 * length (pm_getInstalled s)) (pm_applyToClient c s) in
    mset (mp_list (client_uses c (pm_log s') p)) =
      mset (listm (wo_middleware opts')) + repeat_mset 2 (mset (pm_getMiddleware s))"
proof -
  have "newMiddlewarePipeline (client_middleware True opts' s) = Inr p"
    using assms(1) by (auto simp: wire_client_def hooked_options_def split: sum.splits)
  note p = new_pipeline_ok [OF this, unfolded client_middleware_def, simplified]
  let ?s' = "pm_drain (2 * length (pm_getInstalled s)) (pm_applyToClient c s)"
  have "handed_over c (rev (pm_log ?s')) = pm_getMiddleware s"
    using assms(3)
    by (simp add: drain_applyToClient [OF assms(2)] handed_over_plugins handed_over_none pm_getMiddleware_def)
  moreover have "\<forall>m\<in>set (pm_getMiddleware s). mw_name m \<noteq> []" using p by blast
  ultimately show ?thesis using p by (simp add: client_uses_def Let_def fold_use numeral_2_eq_2)
qed

text \<open>
  So a request through the pipeline calls every \<open>pre\<close> hook of a plugin's middleware twice.
\<close>

theorem plugin_pre_hooks_called_twice:
  assumes "wire_client df True ch opts s = Inr (opts', sv, p)"
    and "pm_tasks s = []" and "handed_over c (pm_log s) = []"
  shows "let s' = pm_drain (2 * length (pm_getInstalled s)) (pm_applyToClient c s);
             hooked = (\<lambda>ms. size (filter_mset (\<lambda>m. mw_pre m \<noteq> None) (mset ms))) in
    length (stage_calls StPre mw_pre (mp_middleware (client_uses c (pm_log s') p))) =
      hooked (listm (wo_middleware opts')) + 2 * hooked (pm_getMiddleware s)"
proof -
  have "mset (mp_list (client_uses c (pm_log (pm_drain (2 * length (pm_getInstalled s)) (pm_applyToClient c s))) p)) =
      mset (listm (wo_middleware opts')) + repeat_mset 2 (mset (pm_getMiddleware s))"
    using plugin_middleware_registered_twice [OF assms] by (simp add: Let_def)
  then show ?thesis by (simp add: Let_def length_pre_calls numeral_2_eq_2)
qed

text \<open>
  The option \<open>usePluginManager: false\<close> keeps the manager out entirely: the constructor's result
  depends on the options alone.
\<close>

theorem unmanaged_client_ignores_plugins:
  "wire_client df False ch opts s = wire_client df False ch' opts s'"
proof -
  have "client_container df False opts s = client_container df False opts s'"
    by (simp add: client_container_def client_service_overrides_def split: option.split)
  then show ?thesis by (simp add: wire_client_def hooked_options_def client_middleware_def split: sum.split)
qed

text \<open>
  Which service a client gets under a name: that of a container passed in, if there is one, and
  then neither the \<open>services\<close>, nor the \<open>rpcClient\<close>, nor the plugins count. Otherwise the
  plugins' overrides come first, also before an explicit \<open>rpcClient\<close>, then the options', then
  the default.
\<close>

theorem client_service_precedence:
  assumes "jm_ok (case wo_services opts of None \<Rightarrow> [] | Some sv \<Rightarrow> sv)"
  shows "jm_get (client_container df True opts s) k =
    (case wo_container opts of
       Some container \<Rightarrow> jm_get container k
     | None \<Rightarrow>
        (case jm_get (pm_getServiceOverrides s) k of
           Some x \<Rightarrow> Some x
         | None \<Rightarrow>
            if k = ''rpcClient'' \<and> wo_rpcClient opts \<noteq> None then Some (wo_rpcClient opts)
            else (case jm_get (case wo_services opts of None \<Rightarrow> [] | Some sv \<Rightarrow> sv) k of
                    Some x \<Rightarrow> Some x
                  | None \<Rightarrow> if k = ''rpcClient'' then Some None else jm_get (default_services df) k)))"
proof (cases "wo_container opts")
  case None
  then have c: "client_container df True opts s =
      newServiceContainer df (client_service_overrides True opts s)"
    by (simp add: client_container_def createServiceContainer_def)
  show ?thesis
    unfolding c get_new [OF get_overrides(1) [OF assms]] get_overrides(2,3) [OF assms] None
    by (auto simp: slot_value_def split: option.splits)
qed (simp add: client_container_def)

text \<open>
  Of the hooks on the options the constructor applies those that are synchronous, in the
  manager's order, and it skips the others: with \<open>sync\<close> telling them apart, the options are those of
  \<open>processClientOptions\<close> restricted to the synchronous ones. Nothing applies the skipped ones later.
\<close>

theorem constructor_skips_async_hooks:
  assumes "\<forall>i\<in>set (pm_getInstalled s). hook_kind sync ch s i"
  shows "applySyncPluginHooks ch opts s =
    pm_options_through (map (pm_config s) (filter sync (pm_getInstalled s))) opts"
  unfolding applySyncPluginHooks_def using assms by (rule sync_hooks_filter)

text \<open>An installed plugin with a hook on the options and one middleware, whose hook is or is not
  asynchronous: its middleware is registered twice, and an asynchronous hook has no effect.\<close>

definition demo_mw :: "string \<Rightarrow> nat Middleware" where
  "demo_mw nm = \<lparr>mw_name = nm, mw_order = None, mw_pre = Some (\<lambda>c. (c, Inr None)),
     mw_post = None, mw_onError = None\<rparr>"

definition demo_options :: "(nat, nat, nat) wiring_options" where
  "demo_options = \<lparr>wo_services = None, wo_rpcClient = Some (SInstance 1), wo_container = None,
     wo_middleware = Some [demo_mw ''own'']\<rparr>"

definition demo_wiring_plugin ::
    "((nat, nat, nat) wiring_options, nat Middleware, (nat, nat) slot option) PluginConfig" where
  "demo_wiring_plugin = \<lparr>pc_id = ''p'', pc_name = ''P'', pc_version = ''1'', pc_onInstall = False,
     pc_beforeClientInit = Some (\<lambda>x. Inr (x\<lparr>wo_middleware := None\<rparr>)), pc_afterClientInit = False,
     pc_onUninstall = False, pc_services = Some [(''rpcClient'', Some (SInstance 2))],
     pc_middleware = Some [demo_mw ''plugin'']\<rparr>"

definition demo_wiring_pm :: "(nat, nat, nat, nat) wiring_pm" where
  "demo_wiring_pm = newPluginManager None\<lparr>
     pm_heap := [\<lparr>pi_config = demo_wiring_plugin, pi_installed = True\<rparr>],
     pm_plugins := [(''p'', 0)], pm_log := [MarkInstalled 0]\<rparr>"

lemma demo_wiring_reachable:
  "demo_wiring_pm = pm_run [PRegister demo_wiring_plugin, PInstall ''p''] (newPluginManager None)"
  by (simp add: pm_run_def pm_register_def pm_install_def newPluginManager_def demo_wiring_plugin_def
      demo_wiring_pm_def pm_is_installed_def pm_config_def pm_complete_install_def pm_loop_def
      pm_call_def pm_set_installed_def Let_def)

definition async_hook :: "nat \<Rightarrow> (nat, nat, nat) wiring_options client_hook" where
  "async_hook i = \<lparr>ch_plain = False, ch_run = (\<lambda>x. Inr HookPromise)\<rparr>"

lemma demo_wiring_facts:
  "pm_getInstalled demo_wiring_pm = [0]" "pm_config demo_wiring_pm 0 = demo_wiring_plugin"
  "pm_tasks demo_wiring_pm = []" "handed_over (c :: nat) (pm_log demo_wiring_pm) = []"
  "pm_getMiddleware demo_wiring_pm = [demo_mw ''plugin'']"
  "pm_getServiceOverrides demo_wiring_pm = [(''rpcClient'', Some (SInstance 2))]"
proof -
  show i: "pm_getInstalled demo_wiring_pm = [0]" and c: "pm_config demo_wiring_pm 0 = demo_wiring_plugin"
    by (simp_all add: demo_wiring_pm_def newPluginManager_def pm_getInstalled_def pm_getAll_def
        pm_is_installed_def pm_config_def jm_values_def)
  show "pm_tasks demo_wiring_pm = []" "handed_over c (pm_log demo_wiring_pm) = []"
    by (simp_all add: demo_wiring_pm_def newPluginManager_def handed_over_def)
  show "pm_getMiddleware demo_wiring_pm = [demo_mw ''plugin'']"
    "pm_getServiceOverrides demo_wiring_pm = [(''rpcClient'', Some (SInstance 2))]"
    by (simp_all add: pm_getMiddleware_def pm_getServiceOverrides_def i c)
       (simp_all add: listm_def demo_wiring_plugin_def obj_spread_def)
qed

theorem constructor_skips_async_hooks_witness:
  "applySyncPluginHooks async_hook demo_options demo_wiring_pm = Inr demo_options"
proof -
  have "applySyncPluginHooks async_hook demo_options demo_wiring_pm =
      pm_options_through (map (pm_config demo_wiring_pm)
        (filter (\<lambda>i. False) (pm_getInstalled demo_wiring_pm))) demo_options"
    by (rule constructor_skips_async_hooks) (simp add: hook_kind_def async_hook_def split: option.split)
  then show ?thesis by simp
qed

theorem client_service_precedence_witness:
  "jm_get (client_container demo_factories True demo_options demo_wiring_pm) ''rpcClient'' =
    Some (Some (SInstance 2))"
  by (subst client_service_precedence)
     (simp_all add: demo_options_def jm_ok_def demo_wiring_facts)

lemma demo_wired:
  "wire_client demo_factories True async_hook demo_options demo_wiring_pm =
    Inr (demo_options, client_container demo_factories True demo_options demo_wiring_pm,
      \<lparr>mp_middleware = [\<lparr>me_mw = demo_mw ''own'', me_order = 0, me_sequence = 0\<rparr>,
         \<lparr>me_mw = demo_mw ''plugin'', me_order = 0, me_sequence = 1\<rparr>], mp_nextSequence = 2\<rparr>)"
  by (simp add: wire_client_def hooked_options_def applySyncPluginHooks_def demo_wiring_facts apply_sync_hook_def
      async_hook_def client_middleware_def)
     (simp add: demo_options_def listm_def newMiddlewarePipeline_def mp_use_def mp_empty_def demo_mw_def
      sortMiddleware_def Let_def)

theorem plugin_pre_hooks_called_twice_witness:
  "\<exists>sv p. wire_client demo_factories True async_hook demo_options demo_wiring_pm =
      Inr (demo_options, sv, p) \<and>
    length (stage_calls StPre mw_pre (mp_middleware
      (client_uses 7 (pm_log (pm_drain 2 (pm_applyToClient 7 demo_wiring_pm))) p))) = 3"
proof -
  have "filter_mset (\<lambda>m. mw_pre m \<noteq> None) (mset (listm (wo_middleware demo_options))) = {#demo_mw ''own''#}"
    "filter_mset (\<lambda>m. mw_pre m \<noteq> None) {#demo_mw ''plugin''#} = {#demo_mw ''plugin''#}"
    by (simp_all add: demo_options_def listm_def) (simp_all add: demo_mw_def)
  then show ?thesis
    using plugin_pre_hooks_called_twice [OF demo_wired demo_wiring_facts(3,4), of 7] demo_wired
    by (simp add: demo_wiring_facts Let_def numeral_2_eq_2 numeral_3_eq_3 del: not_None_eq)
qed

end
