(* ===== verification/Spec2Isabelle.thy ===== *)
theory Spec2Isabelle
  imports TxManager ConcQueue HttpRetry Reconnect Session Subscriptions Pipeline
    MigrationRunner CapabilityRegistry PluginManager CoreServices RpcHealth
    ClientOps EventEmitter Replay CodeGen TxHistory Logging Tracing Telemetry Profiling
    Estimation Failover VaultClients MockServer TxBuild WebFormats SorobanEvents
    ReactVault ReactWallet Facades CoreErrors ClientPlugins
begin

text \<open>
  A verification library for the Axionvera SDK, a TypeScript client for Soroban contracts on the
  Stellar network. It models the parts of \<open>src/src\<close> that carry the SDK's own logic: the
  transaction lifecycle, the request queue and retries, connections and event delivery, sessions,
  the middleware pipeline, schema validation, state migrations, the registries with discovery and
  plugins, the health monitor, and the client itself with its account cache, event paging, tracked
  transactions and emitters. \<open>packages/core\<close> holds earlier or identical copies of many of
  these files; what it has of its own, the decoding of contract values and error codes, is
  modelled from there.

  How the parts interact. A client sends requests through the middleware pipeline, the
  concurrency queue and the HTTP retry layer; every failure on the way is normalized to an SDK
  error. A submitted transaction is tracked by the lifecycle manager, which checks each move
  against the state machine and tells the lifecycle event emitter. Events of contracts arrive
  over the WebSocket client and are handed by the subscription service to the dispatcher, with the
  reconnection manager restoring lost connections. Sessions bundle a client, a wallet and a set of
  contracts. Contract calls may be checked by the validation engine, whose schemas also guard
  the state that the migration runner takes from version to version along a path resolved by the
  migration registry. Plugins are installed on clients through the plugin manager. The client
  runs its RPC calls through pipeline and retries, validates what comes back, adds a buffer to
  simulated fees, hands out sequence numbers from its account cache, decodes XDR through a cache,
  polls the transactions it tracks, pages through past events, and owns the emitters that poll
  for new ones. Recorded interactions can be replayed and compared.

  Theories and sources (paths under \<open>src/src/\<close>).

  \<^item> \<open>SDK_Prelude\<close>: JavaScript values, insertion-ordered maps, strings and numbers, and the
    contracts several components share as locales: \<open>keyed_store\<close>, \<open>invariant_machine\<close> and
    \<open>exp_backoff\<close>, each interpreted on the definitions of the components.
  \<^item> \<open>Lifecycle\<close> (\<open>lifecycle/\<close>), \<open>LifecycleEvents\<close> (\<open>events/lifecycleEvents.ts\<close>), \<open>TxManager\<close>
    (\<open>transactions/\<close>): the state machine's table is the one-step-forward-or-fail protocol; the
    recorded history of a transaction is the protocol's path to its state, whichever listeners
    throw; a terminal record never changes; completion stays reachable.
  \<^item> \<open>ConcQueue\<close> (\<open>utils/concurrencyQueue.ts\<close>): the queue as a step relation over submissions,
    completions, timeouts, cancellations and throttle timers; each request is in one place and
    settled once, the limit holds, and no wake-up is lost.
  \<^item> \<open>Errors\<close> (\<open>errors/axionveraError.ts\<close>), \<open>HttpRetry\<close> (\<open>utils/httpInterceptor.ts\<close>): what
    normalization keeps, the number and delays of retries, and the agreement of the interceptor
    with \<open>retry\<close>.
  \<^item> \<open>Reconnect\<close> (\<open>network/reconnectionManager.ts\<close>), \<open>WebSocketClient\<close> (\<open>client/websocket/\<close>),
    \<open>Events\<close> (\<open>events/eventDispatcher.ts\<close>), \<open>Subscriptions\<close>
    (\<open>subscriptions/subscriptionService.ts\<close>): at most one outstanding attempt, giving up after the
    maximum, resubscription after each connection, finality of a disconnect, isolation of callbacks.
  \<^item> \<open>Session\<close> (\<open>session/\<close>): sessions in a heap, since clients keep references to them; the
    manager's table is consistent with the sessions whatever clients do with them.
  \<^item> \<open>Pipeline\<close> (\<open>middleware/\<close>), \<open>Validation\<close> (\<open>validation/\<close>): order of hooks, no swallowed
    errors, schemas enforced before and after a call.
  \<^item> \<open>MigrationRegistry\<close>, \<open>MigrationRunner\<close> (\<open>migrations/\<close>, \<open>contracts/contractMigrations.ts\<close>):
    shortest paths, accurate reports, restoring rollback, and the built-in migrations.
  \<^item> \<open>MetadataRegistry\<close>, \<open>CapabilityRegistry\<close> (\<open>registry/\<close>, \<open>discovery/\<close>), \<open>PluginManager\<close>
    (\<open>plugin/\<close>), \<open>CoreServices\<close> (\<open>adapters/\<close>, \<open>core/\<close>): what validators accept, exact lookups,
    and the order of plugin hooks when asynchronous operations overlap.
  \<^item> \<open>ClientPlugins\<close> (the constructor of \<open>client/stellarClient.ts\<close> over \<open>PluginManager\<close>,
    \<open>Pipeline\<close> and \<open>CoreServices\<close>): which option hooks apply, which service wins, and that a
    plugin's middleware is registered twice.
  \<^item> \<open>RpcHealth\<close> (\<open>monitoring/\<close>): metrics that describe the history of checks, rounds that never
    overlap, reports that add up.
  \<^item> \<open>FeeBuffer\<close>, \<open>EventPaging\<close>, \<open>AccountCache\<close>, \<open>PendingTx\<close>, \<open>ClientOps\<close>
    (\<open>client/stellarClient.ts\<close>, \<open>client/faucetClient.ts\<close>, \<open>utils/rpcSchemas.ts\<close>,
    \<open>utils/networkConfig.ts\<close>): exact decimal fee arithmetic and its bounds; event fetches that
    always end; consecutive sequence numbers and sequential
    submission; the registry of tracked transactions as the set of running polls, with its export
    and import; the guards, metrics and error classes of the RPC calls.
  \<^item> \<open>XdrCache\<close> (\<open>utils/xdrCache.ts\<close>, \<open>utils/xdrValidator.ts\<close>): the cached decoder refines plain
    decoding with a recency list.
  \<^item> \<open>EventEmitter\<close> (\<open>contracts/ContractEventEmitter.ts\<close>): silence after closing, and how often a
    callback hears an event.
  \<^item> \<open>Replay\<close> (\<open>replay/\<close>): a recorded session replays to a report without failures.
  \<^item> \<open>ScValDecode\<close> (\<open>packages/core\<close>: \<open>utils/simulationParser.ts\<close>, \<open>errors/errorClassifier.ts\<close>):
    typed decoding of contract values and the arithmetic of wide integers.
  \<^item> \<open>WasmReader\<close>, \<open>CodeGen\<close> (\<open>packages/core\<close>: \<open>codegen/\<close>, \<open>contracts/BaseContract.ts\<close>): modules
    in the framing the reader expects parse to their entries, a module on which the reader never returns, the rendered types
    and names, and what generated methods rest on.
  \<^item> \<open>TxHistory\<close> (\<open>utils/transactionHistory.ts\<close>): sorted, filtered histories.
  \<^item> \<open>CloudWatch\<close>, \<open>Logging\<close> (\<open>utils/logger.ts\<close>, \<open>utils/logging/\<close>): no entry lost, delivery in
    order, hidden secrets.
  \<^item> \<open>Tracing\<close>, \<open>Telemetry\<close>, \<open>Profiling\<close> (\<open>observability/\<close>, \<open>diagnostics/\<close>, \<open>metrics/\<close>,
    \<open>telemetry/\<close>, \<open>profiling/\<close>): bounded stores that keep the latest, events handed over once, and
    figures that describe the calls.
  \<^item> \<open>Doubles\<close>, \<open>Estimation\<close> (\<open>estimation/\<close>), \<open>Simulator\<close> (\<open>packages/core\<close>:
    \<open>transaction/transactionSimulator.ts\<close>): numbers rounded to 53 bits with NaN and the infinities;
    estimates within a unit of the exact cost and monotone; ratings that are percentages, fees
    that cover, first best choices, and amounts that are texts.
  \<^item> \<open>Failover\<close> (\<open>packages/core\<close>: \<open>client/stellarClient.ts\<close>, \<open>utils/networkConfig.ts\<close>): secure
    URLs, why no call reaches a second server, and that repeated calls find one that answers.
  \<^item> \<open>Signing\<close> (\<open>packages/core\<close>: \<open>transaction/transactionSigner.ts\<close>,
    \<open>transaction/enhancedTransactionBuilder.ts\<close>), \<open>VaultClients\<close> (\<open>packages/core\<close>: \<open>contracts/\<close>, and
    \<open>contracts/vault.ts\<close>): the order of the calls to wallet and client as a log, what is signed and
    when, batches that account for every transaction, slippage checks before signatures, and the
    classification of failures.
  \<^item> \<open>Wallets\<close> (\<open>wallet/\<close>, and the Ledger connector of \<open>packages/core\<close>), \<open>TxBuild\<close>
    (\<open>utils/transactionBuilder.ts\<close>, \<open>builders/\<close>, \<open>types/offlineTransaction.ts\<close>,
    \<open>utils/getRequiredSigners.ts\<close>): what reaches a wallet, which networks pass the check, when a
    transaction is built, packages that come back from import, and exactly the signers asked for.
  \<^item> \<open>WebFormats\<close> (\<open>utils/webhooks.ts\<close>, \<open>utils/sep7.ts\<close>), \<open>SorobanEvents\<close> (\<open>utils/soroban.ts\<close>): the
    comparison of signatures decides equality, links can be read back, and what the event parser keeps.
  \<^item> \<open>ReactVault\<close>, \<open>ReactWallet\<close> (\<open>packages/react\<close>): a hook whose state describes its run while runs do
    not overlap, runs that end after thirty rounds, and a wallet state whose connections have keys.
  \<^item> \<open>Facades\<close> (\<open>adapters/vaultAdapter.ts\<close>, and of \<open>packages/core\<close> \<open>client/VaultContract.ts\<close>,
    \<open>client/axionveraClient.ts\<close>, \<open>client/stellarClientFactory.ts\<close>, \<open>utils/sorobanEventParser.ts\<close>): which
    reads and clients are shared, and the vault that is made once.
  \<^item> \<open>CoreErrors\<close> (\<open>packages/core\<close>: \<open>errors/axionveraError.ts\<close>, \<open>middleware/errorMiddleware.ts\<close>): the
    class an error gets there, and what both packages keep of it.
  \<^item> \<open>MockServer\<close> (\<open>testing/\<close>): injected errors in order, valid references, and that a pending
    transaction settles after exactly its pending polls.

  Conventions. A class is a record and a method a function from the old state to the new state and a
  result; an error is \<open>Inl\<close> of the thrown value. An asynchronous method is cut at its
  \<open>await\<close>s: what waits is part of the state, and events settle it, so every interleaving of
  the event loop is a sequence of steps. The clock, random ids and the outcomes of third-party
  calls (the Stellar SDK, axios, valibot, sockets) are arguments or events.

  Bounds and fuel. The retry loop takes its limit as fuel, which it cannot exhaust because each
  round consumes one retry; the breadth-first search of the migration registry terminates because
  visited versions grow within the finite set of registered ones, and is total; the drain of
  the queue is bounded by the queue's length and that of the plugin manager by two settled
  promises per plugin. Fetching events recurses on a server's answers and takes fuel; with
  finitely many paging tokens the fuel needed is bounded by the tokens times the width of the
  range, so the fetch always returns. The XDR cache holds fifty entries, as in the code. Numbers are
  unbounded integers and averages exact rationals where the code uses doubles, except in the cost
  estimator and the simulator, whose quotients and products are rounded as the code rounds them. Strings are lists of 8-bit characters.

  Not modelled. Listeners, hooks and callbacks that call back into the component that calls them,
  but for the methods other than \<open>emit\<close> that listeners of the contract event emitter call on it;
  the HTTP transport and the encoding of XDR values, which drive axios and the Stellar SDK; the
  mounting of React components, the handlers of the test suites and the command line tools.
\<close>

end
